(* ===== verification/Prelude.thy ===== *)
theory Prelude
  imports Main "HOL-Library.Sublist"
begin

text \<open>
  Shared vocabulary of the development: JavaScript values and numbers as the code
  receives them from callers (\<open>jsval\<close>), the string operations of the language the
  sources use, SQL statements on tables kept as lists of rows, and transactions.
  The collections \<open>table_simps\<close> and \<open>js_simps\<close> gather the rewrite rules the
  component theories share.
\<close>

named_theorems table_simps \<open>rewrite rules for SQL statements on tables\<close>
named_theorems js_simps \<open>rewrite rules for JavaScript primitives\<close>

section \<open>JavaScript values\<close>

text \<open>
  A JavaScript number is an integer, a number that is not integral (only its floor
  matters to the comparisons in the sources), an infinity or NaN.
\<close>

datatype number = Num int | Frac int | PosInf | NegInf | NaN

datatype jsval =
    JUndefined | JNull | JBoolean bool | JNumber number | JString string
  | JArray "jsval list" | JObject "(string \<times> jsval) list"

definition MAX_SAFE_INTEGER :: int where
  "MAX_SAFE_INTEGER = 9007199254740991"

fun isSafeInteger :: "number \<Rightarrow> bool" where
  "isSafeInteger (Num i) = (\<bar>i\<bar> \<le> MAX_SAFE_INTEGER)"
| "isSafeInteger _ = False"

text \<open>Comparison of a number with an integer constant.\<close>

fun num_gt :: "number \<Rightarrow> int \<Rightarrow> bool" where
  "num_gt (Num i) k = (i > k)"
| "num_gt (Frac f) k = (f \<ge> k)"
| "num_gt PosInf k = True"
| "num_gt NegInf k = False"
| "num_gt NaN k = False"

text \<open>The string is truthy in a JavaScript condition.\<close>

definition truthy :: "string \<Rightarrow> bool" where
  "truthy s \<longleftrightarrow> s \<noteq> []"

fun opt_truthy :: "string option \<Rightarrow> bool" where
  "opt_truthy None = False"
| "opt_truthy (Some s) = truthy s"

text \<open>Reading a property, type tests, and \<open>??\<close> on optional values.\<close>

fun js_get :: "jsval \<Rightarrow> string \<Rightarrow> jsval" where
  "js_get (JObject kvs) k = (case map_of kvs k of None \<Rightarrow> JUndefined | Some v \<Rightarrow> v)"
| "js_get _ _ = JUndefined"

fun is_object :: "jsval \<Rightarrow> bool" where
  "is_object (JObject _) = True"
| "is_object (JArray _) = True"
| "is_object _ = False"

fun as_number :: "jsval \<Rightarrow> number option" where
  "as_number (JNumber n) = Some n"
| "as_number _ = None"

fun as_string :: "jsval \<Rightarrow> string option" where
  "as_string (JString s) = Some s"
| "as_string _ = None"

definition orElse :: "'a option \<Rightarrow> 'a option \<Rightarrow> 'a option" where
  "orElse a b = (case a of Some x \<Rightarrow> Some x | None \<Rightarrow> b)"

text \<open>White space of \<open>String.prototype.trim\<close>, for code units below 256.\<close>

definition is_space :: "char \<Rightarrow> bool" where
  "is_space c \<longleftrightarrow> of_char c \<in> {9::nat, 10, 11, 12, 13, 32, 160}"

definition js_trim :: "string \<Rightarrow> string" where
  "js_trim s = rev (dropWhile is_space (rev (dropWhile is_space s)))"

text \<open>\<open>String.prototype.toLowerCase\<close> on code units below 256: the ASCII letters and the letters from
  U+00C0 to U+00DE, of which U+00D7 is not one.\<close>

definition lower_char :: "char \<Rightarrow> char" where
  "lower_char c = (let n = of_char c :: nat in
     if (65 \<le> n \<and> n \<le> 90) \<or> (192 \<le> n \<and> n \<le> 222 \<and> n \<noteq> 215) then char_of (n + 32) else c)"

definition toLowerCase :: "string \<Rightarrow> string" where
  "toLowerCase s = map lower_char s"

fun startsWith :: "string \<Rightarrow> string \<Rightarrow> bool" where
  "startsWith s [] = True"
| "startsWith [] (p # ps) = False"
| "startsWith (c # cs) (p # ps) = (c = p \<and> startsWith cs ps)"

definition endsWith :: "string \<Rightarrow> string \<Rightarrow> bool" where
  "endsWith s p = startsWith (rev s) (rev p)"

fun js_includes :: "string \<Rightarrow> string \<Rightarrow> bool" where
  "js_includes [] p = (p = [])"
| "js_includes (c # cs) p = (startsWith (c # cs) p \<or> js_includes cs p)"

text \<open>\<open>s.split(c)\<close> for a one-character separator: always at least one part.\<close>

fun split_on :: "char \<Rightarrow> string \<Rightarrow> string list" where
  "split_on c [] = [[]]"
| "split_on c (x # xs) =
     (if x = c then [] # split_on c xs
      else (case split_on c xs of [] \<Rightarrow> [[x]] | p # ps \<Rightarrow> (x # p) # ps))"

text \<open>\<open>parts.join(c)\<close> for a one-character separator.\<close>

fun join_with :: "char \<Rightarrow> string list \<Rightarrow> string" where
  "join_with c [] = []"
| "join_with c [p] = p"
| "join_with c (p # q # ps) = p @ c # join_with c (q # ps)"

definition is_lower_hex :: "char \<Rightarrow> bool" where
  "is_lower_hex c \<longleftrightarrow> (of_char c :: nat) \<in> {48..57} \<union> {97..102}"

definition is_digit :: "char \<Rightarrow> bool" where
  "is_digit c \<longleftrightarrow> (48::nat) \<le> of_char c \<and> of_char c \<le> (57::nat)"

definition is_alnum :: "char \<Rightarrow> bool" where
  "is_alnum c \<longleftrightarrow> (of_char c :: nat) \<in> {48..57} \<union> {65..90} \<union> {97..122}"

text \<open>The regular expressions \<open>/^<prefix>[0-9a-f]{n}$/\<close> of the identifier formats.\<close>

definition hex_id :: "string \<Rightarrow> nat \<Rightarrow> string \<Rightarrow> bool" where
  "hex_id p n s \<longleftrightarrow> take (length p) s = p \<and> length s = length p + n \<and>
     list_all is_lower_hex (drop (length p) s)"

lemma startsWith_prefix [js_simps]: "startsWith s p = prefix p s"
  by (induction s p rule: startsWith.induct) auto

lemma endsWith_suffix [js_simps]: "endsWith s p = suffix p s"
  by (simp add: endsWith_def startsWith_prefix suffix_to_prefix)

lemma includes_sublist [js_simps]: "js_includes s p = sublist p s"
  by (induction s) (auto simp: startsWith_prefix sublist_Cons_right)

lemma split_on_not_Nil [simp]: "split_on c s \<noteq> []"
  by (induction s) (auto split: list.splits)

lemma join_with_Cons: "ps \<noteq> [] \<Longrightarrow> join_with c (p # ps) = p @ c # join_with c ps"
  by (cases ps) auto

lemma join_split_on: "join_with c (split_on c s) = s"
proof (induction s)
  case (Cons x xs)
  then show ?case
    by (cases "split_on c xs"; cases "tl (split_on c xs)")
       (auto simp: join_with_Cons)
qed simp

lemma split_on_no_sep: "c \<notin> set s \<Longrightarrow> split_on c s = [s]"
  by (induction s) auto

lemma split_on_append: "c \<notin> set p \<Longrightarrow> split_on c (p @ c # s) = p # split_on c s"
  by (induction p) auto

lemma split_on_append_sep: "split_on c (p @ c # s) = split_on c p @ split_on c s"
  by (induction p) (auto split: list.splits)

lemma split_on_parts: "p \<in> set (split_on c s) \<Longrightarrow> c \<notin> set p"
proof (induction s arbitrary: p)
  case (Cons x xs)
  then show ?case
    by (cases "split_on c xs") (auto split: if_splits)
qed simp

lemma split_join: "ps \<noteq> [] \<Longrightarrow> list_all (\<lambda>p. c \<notin> set p) ps \<Longrightarrow> split_on c (join_with c ps) = ps"
  by (induction c ps rule: join_with.induct) (simp_all add: split_on_no_sep split_on_append)

lemma split_on_iff: "split_on c s = ps \<longleftrightarrow> ps \<noteq> [] \<and> list_all (\<lambda>p. c \<notin> set p) ps \<and> s = join_with c ps"
proof
  assume "split_on c s = ps"
  then show "ps \<noteq> [] \<and> list_all (\<lambda>p. c \<notin> set p) ps \<and> s = join_with c ps"
    using join_split_on[of c s] split_on_parts[of _ c s] by (auto simp: list_all_iff)
qed (simp add: split_join)

lemma dropWhile_hd: "s \<noteq> [] \<Longrightarrow> \<not> P (hd s) \<Longrightarrow> dropWhile P s = s"
  by (cases s) auto

lemma js_trim_no_space: "s \<noteq> [] \<Longrightarrow> \<not> is_space (hd s) \<Longrightarrow> \<not> is_space (last s) \<Longrightarrow> js_trim s = s"
  by (simp add: js_trim_def dropWhile_hd hd_rev)

lemma dropWhile_rev_idem:
  "dropWhile P (rev (dropWhile P (rev (dropWhile P s)))) = rev (dropWhile P (rev (dropWhile P s)))"
proof (cases "dropWhile P s")
  case (Cons c cs)
  then have "\<not> P c" by (metis hd_dropWhile list.distinct(1) list.sel(1))
  have "rev (dropWhile P (rev cs @ [c])) = c # rev (dropWhile P (rev cs))"
    using \<open>\<not> P c\<close> by (induction "rev cs" arbitrary: cs rule: list.induct) (simp_all add: dropWhile_append3 dropWhile_append)
  with Cons \<open>\<not> P c\<close> show ?thesis by simp
next
  case Nil
  then show ?thesis by (simp only:) simp
qed

lemma js_trim_idem [simp]: "js_trim (js_trim s) = js_trim s"
proof -
  have idem: "dropWhile P (dropWhile P xs) = dropWhile P xs" for P and xs :: "char list"
    by (induction xs) auto
  show ?thesis
    by (simp add: js_trim_def dropWhile_rev_idem idem)
qed

text \<open>
  The length in bytes of the UTF-8 encoding, and the code of a validator: \<open>andThen r f\<close> goes on
  with the value of \<open>r\<close> or passes on its exception.
\<close>

definition utf8Length :: "string \<Rightarrow> nat" where
  "utf8Length s = sum_list (map (\<lambda>c. if of_char c < (128 :: nat) then 1 else 2) s)"

definition andThen :: "'e + 'a \<Rightarrow> ('a \<Rightarrow> 'e + 'b) \<Rightarrow> 'e + 'b" where
  "andThen r f = (case r of Inl e \<Rightarrow> Inl e | Inr x \<Rightarrow> f x)"

lemma andThen_Inr_iff: "andThen r f = Inr y \<longleftrightarrow> (\<exists>x. r = Inr x \<and> f x = Inr y)"
  by (auto simp: andThen_def split: sum.splits)

lemma andThen_simps [simp]: "andThen (Inr x) f = f x" "andThen (Inl e) f = Inl e"
  by (simp_all add: andThen_def)

section \<open>Tables\<close>

text \<open>
  A table is the list of its rows, oldest first. \<open>tbl_update\<close> is
  \<open>UPDATE \<dots> SET \<dots> WHERE\<close>, \<open>tbl_changes\<close> the number of rows it reports as changed,
  \<open>tbl_get\<close> a \<open>SELECT \<dots> WHERE\<close> that reads the first row.
\<close>

definition tbl_update :: "('r \<Rightarrow> bool) \<Rightarrow> ('r \<Rightarrow> 'r) \<Rightarrow> 'r list \<Rightarrow> 'r list" where
  "tbl_update P f rows = map (\<lambda>r. if P r then f r else r) rows"

definition tbl_changes :: "('r \<Rightarrow> bool) \<Rightarrow> 'r list \<Rightarrow> nat" where
  "tbl_changes P rows = length (filter P rows)"

definition tbl_get :: "('r \<Rightarrow> bool) \<Rightarrow> 'r list \<Rightarrow> 'r option" where
  "tbl_get P rows = find P rows"

lemma length_tbl_update [table_simps, simp]: "length (tbl_update P f rows) = length rows"
  by (simp add: tbl_update_def)

lemma tbl_update_append [table_simps]:
  "tbl_update P f (xs @ ys) = tbl_update P f xs @ tbl_update P f ys"
  by (simp add: tbl_update_def)

lemma tbl_update_Nil [table_simps, simp]: "tbl_update P f [] = []"
  by (simp add: tbl_update_def)

lemma tbl_update_Cons [table_simps]:
  "tbl_update P f (x # xs) = (if P x then f x else x) # tbl_update P f xs"
  by (simp add: tbl_update_def)

lemma map_tbl_update: "(\<And>r. P r \<Longrightarrow> g (f r) = g r) \<Longrightarrow> map g (tbl_update P f rows) = map g rows"
  by (simp add: tbl_update_def)

lemma filter_tbl_update_other:
  "(\<And>r. P r \<Longrightarrow> \<not> Q r \<and> \<not> Q (f r)) \<Longrightarrow> filter Q (tbl_update P f rows) = filter Q rows"
  by (induction rows) (auto simp: table_simps)

lemma filter_tbl_update_same:
  "(\<And>r. Q (f r) = Q r) \<Longrightarrow> filter Q (tbl_update P f rows) = tbl_update P f (filter Q rows)"
  by (induction rows) (auto simp: table_simps)

lemma tbl_update_Nil_iff [simp]: "tbl_update P f rows = [] \<longleftrightarrow> rows = []"
  by (simp add: tbl_update_def)

lemma list_all_tbl_update:
  "list_all A rows \<Longrightarrow> (\<And>r. P r \<Longrightarrow> A r \<Longrightarrow> A (f r)) \<Longrightarrow> list_all A (tbl_update P f rows)"
  by (induction rows) (auto simp: table_simps)

lemma set_tbl_update:
  "set (tbl_update P f rows) = f ` {r \<in> set rows. P r} \<union> {r \<in> set rows. \<not> P r}"
  by (auto simp: tbl_update_def)

lemma tbl_update_none: "(\<And>r. r \<in> set rows \<Longrightarrow> \<not> P r) \<Longrightarrow> tbl_update P f rows = rows"
  by (induction rows) (auto simp: table_simps)

lemma tbl_get_Some: "tbl_get P rows = Some r \<Longrightarrow> r \<in> set rows \<and> P r"
  by (auto simp: tbl_get_def find_Some_iff)

lemma tbl_get_None: "tbl_get P rows = None \<longleftrightarrow> (\<forall>r \<in> set rows. \<not> P r)"
  by (auto simp: tbl_get_def find_None_iff)

lemma tbl_get_unique:
  assumes "r \<in> set rows" "P r" and u: "\<And>r'. r' \<in> set rows \<Longrightarrow> P r' \<Longrightarrow> r' = r"
  shows "tbl_get P rows = Some r"
proof (cases "tbl_get P rows")
  case None
  with assms(1,2) show ?thesis by (auto simp: tbl_get_None)
next
  case (Some r')
  with u[of r'] show ?thesis by (auto dest: tbl_get_Some)
qed

lemma tbl_get_append:
  "tbl_get P (xs @ ys) = (case tbl_get P xs of None \<Rightarrow> tbl_get P ys | Some r \<Rightarrow> Some r)"
  by (induction xs) (auto simp: tbl_get_def)

lemma tbl_get_update_same:
  "(\<And>r. P r \<Longrightarrow> Q (f r) = Q r) \<Longrightarrow> tbl_get Q (tbl_update P f rows)
     = map_option (\<lambda>r. if P r then f r else r) (tbl_get Q rows)"
  by (induction rows) (auto simp: tbl_get_def table_simps)

lemma tbl_get_map_distinct:
  assumes "distinct (map k rows)" "r \<in> set rows"
  shows "tbl_get (\<lambda>x. k x = k r \<and> P x) rows = (if P r then Some r else None)"
proof -
  have u: "r' = r" if "r' \<in> set rows" "k r' = k r" for r'
    using assms that by (auto simp: distinct_map dest: inj_onD)
  show ?thesis
  proof (cases "P r")
    case True
    with assms(2) show ?thesis by (auto intro!: tbl_get_unique dest: u)
  next
    case False
    then show ?thesis by (auto simp: tbl_get_None dest: u)
  qed
qed

text \<open>
  \<open>SELECT \<dots> ORDER BY k LIMIT 1\<close>: the first row with the least key. Of rows with equal keys SQL may
  return any; the model takes the oldest.
\<close>

fun firstMin :: "('r \<Rightarrow> 'k :: linorder) \<Rightarrow> 'r list \<Rightarrow> 'r option" where
  "firstMin k [] = None"
| "firstMin k (x # xs) =
     (case firstMin k xs of None \<Rightarrow> Some x | Some y \<Rightarrow> if k y < k x then Some y else Some x)"

fun firstMax :: "('r \<Rightarrow> 'k :: linorder) \<Rightarrow> 'r list \<Rightarrow> 'r option" where
  "firstMax k [] = None"
| "firstMax k (x # xs) =
     (case firstMax k xs of None \<Rightarrow> Some x | Some y \<Rightarrow> if k x < k y then Some y else Some x)"

lemma firstMin_None [simp]: "firstMin k xs = None \<longleftrightarrow> xs = []"
  by (cases xs) (auto split: option.splits)

lemma firstMin_Some: "firstMin k xs = Some y \<Longrightarrow> y \<in> set xs \<and> (\<forall>x \<in> set xs. k y \<le> k x)"
proof (induction xs arbitrary: y)
  case (Cons x xs)
  then show ?case
    by (cases "firstMin k xs") (force split: if_splits)+
qed simp

lemma firstMax_None [simp]: "firstMax k xs = None \<longleftrightarrow> xs = []"
  by (cases xs) (auto split: option.splits)

lemma firstMax_Some: "firstMax k xs = Some y \<Longrightarrow> y \<in> set xs \<and> (\<forall>x \<in> set xs. k x \<le> k y)"
proof (induction xs arbitrary: y)
  case (Cons x xs)
  then show ?case
    by (cases "firstMax k xs") (force split: if_splits)+
qed simp

lemma firstMax_snoc: "(\<And>x. x \<in> set xs \<Longrightarrow> k x < k y) \<Longrightarrow> firstMax k (xs @ [y]) = Some y"
  by (induction xs) auto

section \<open>Transactions\<close>

text \<open>
  An operation maps a state to its outcome (\<open>Inl\<close> an exception) and the state it leaves.
  \<open>withImmediateTransactionSync\<close> runs \<open>BEGIN IMMEDIATE\<close>, the action, and \<open>COMMIT\<close>, or
  \<open>ROLLBACK\<close> when the action throws: then every write of the action is undone.
  Failures of \<open>BEGIN\<close>, \<open>COMMIT\<close> and \<open>ROLLBACK\<close> themselves are not modelled.
\<close>

type_synonym ('s, 'e, 'a) op = "'s \<Rightarrow> ('e + 'a) \<times> 's"

definition withImmediateTransactionSync :: "('s, 'e, 'a) op \<Rightarrow> ('s, 'e, 'a) op" where
  "withImmediateTransactionSync action s =
     (case action s of (Inl e, _) \<Rightarrow> (Inl e, s) | (Inr r, s') \<Rightarrow> (Inr r, s'))"

lemma transaction_Inl: "withImmediateTransactionSync a s = (Inl e, s') \<Longrightarrow> s' = s"
  by (auto simp: withImmediateTransactionSync_def split: prod.splits sum.splits)

lemma transaction_Inr [simp]:
  "withImmediateTransactionSync a s = (Inr r, s') \<longleftrightarrow> a s = (Inr r, s')"
  by (auto simp: withImmediateTransactionSync_def split: prod.splits sum.splits)

lemma transaction_Inl_iff:
  "withImmediateTransactionSync a s = (Inl e, s') \<longleftrightarrow> s' = s \<and> fst (a s) = Inl e"
  by (auto simp: withImmediateTransactionSync_def split: prod.splits sum.splits)

text \<open>\<open>seq m f\<close> runs \<open>m\<close> and, unless it throws, continues with its result.\<close>

definition seq :: "('s, 'e, 'a) op \<Rightarrow> ('a \<Rightarrow> ('s, 'e, 'b) op) \<Rightarrow> ('s, 'e, 'b) op" where
  "seq m f s = (case m s of (Inl e, s') \<Rightarrow> (Inl e, s') | (Inr x, s') \<Rightarrow> f x s')"

text \<open>\<open>check r f\<close> continues with a value computed without effects, or throws.\<close>

definition check :: "'e + 'a \<Rightarrow> ('a \<Rightarrow> ('s, 'e, 'b) op) \<Rightarrow> ('s, 'e, 'b) op" where
  "check r f s = (case r of Inl e \<Rightarrow> (Inl e, s) | Inr x \<Rightarrow> f x s)"

lemma seq_Inr_iff:
  "seq m f s = (Inr y, s'') \<longleftrightarrow> (\<exists>x s'. m s = (Inr x, s') \<and> f x s' = (Inr y, s''))"
  by (auto simp: seq_def split: prod.splits sum.splits)

lemma seq_Inl_iff:
  "seq m f s = (Inl e, s'') \<longleftrightarrow>
     m s = (Inl e, s'') \<or> (\<exists>x s'. m s = (Inr x, s') \<and> f x s' = (Inl e, s''))"
  by (auto simp: seq_def split: prod.splits sum.splits)

lemma check_Inr_iff: "check r f s = (Inr y, s') \<longleftrightarrow> (\<exists>x. r = Inr x \<and> f x s = (Inr y, s'))"
  by (auto simp: check_def split: sum.splits)

lemma check_Inl_iff:
  "check r f s = (Inl e, s') \<longleftrightarrow> (r = Inl e \<and> s' = s) \<or> (\<exists>x. r = Inr x \<and> f x s = (Inl e, s'))"
  by (auto simp: check_def split: sum.splits)

lemma check_simps [simp]: "check (Inr x) f s = f x s" "check (Inl e) f s = (Inl e, s)"
  by (simp_all add: check_def)

lemmas op_iffs = seq_Inr_iff seq_Inl_iff check_Inr_iff check_Inl_iff

text \<open>
  The contract of a group of operations on a shared state: every operation keeps an
  invariant, whatever it answers. Clients run sequences of operations.
\<close>

locale invariant_ops =
  fixes step :: "'o \<Rightarrow> 's \<Rightarrow> ('e + 'a) \<times> 's"
    and inv :: "'s \<Rightarrow> bool"
  assumes preserves: "inv s \<Longrightarrow> inv (snd (step o1 s))"
begin

lemma run_keeps: "inv s \<Longrightarrow> inv (fold (\<lambda>o1 st. snd (step o1 st)) os s)"
  by (induction os arbitrary: s) (auto intro: preserves)

end

text \<open>
  The stronger contract of transactional operations: an operation that throws leaves the
  state as it was, so that only successful operations have to keep the invariant.
\<close>

locale atomic_ops =
  fixes step :: "'o \<Rightarrow> 's \<Rightarrow> ('e + 'a) \<times> 's"
    and inv :: "'s \<Rightarrow> bool"
  assumes atomic: "step o1 s = (Inl e, s') \<Longrightarrow> s' = s"
    and keeps: "step o1 s = (Inr r, s') \<Longrightarrow> inv s \<Longrightarrow> inv s'"
begin

lemma step_keeps: "inv s \<Longrightarrow> inv (snd (step o1 s))"
  using atomic[of o1 s] keeps[of o1 s]
  by (cases "step o1 s"; cases "fst (step o1 s)") auto

end

sublocale atomic_ops \<subseteq> invariant_ops
  by unfold_locales (rule step_keeps)

end
