(* ===== verification/Calendar.thy ===== *)
theory Calendar
  imports Prelude
begin

text \<open>
  Instants are milliseconds since the epoch, as \<open>Date.prototype.getTime\<close> gives them. This
  theory models the parts of \<open>Date\<close> that the quota ledger uses (\<open>Date.UTC\<close> and the UTC
  getters, by ECMAScript's \<open>DayFromYear\<close>, \<open>YearFromTime\<close>, \<open>MonthFromTime\<close> and
  \<open>MakeDay\<close>) and \<open>advanceUtcMonth\<close> of \<open>quota-ledger-repo.ts\<close>, and proves that advancing by
  a month moves strictly forward and lands in the following month on a clamped day.
\<close>

section \<open>Days and years\<close>

type_synonym instant = int

definition msPerDay :: int where
  "msPerDay = 86400000"

definition dayFromYear :: "int \<Rightarrow> int" where
  "dayFromYear y = 365 * (y - 1970) + (y - 1969) div 4 - (y - 1901) div 100 + (y - 1601) div 400"

definition isLeap :: "int \<Rightarrow> bool" where
  "isLeap y \<longleftrightarrow> y mod 4 = 0 \<and> (y mod 100 \<noteq> 0 \<or> y mod 400 = 0)"

text \<open>The year of a day: an estimate by the mean length of a year, corrected by one.\<close>

definition yearFromDay :: "int \<Rightarrow> int" where
  "yearFromDay d =
     (let y = 1970 + (400 * d) div 146097
      in if dayFromYear y > d then y - 1 else if dayFromYear (y + 1) \<le> d then y + 1 else y)"

definition daysInMonth :: "int \<Rightarrow> int \<Rightarrow> int" where
  "daysInMonth y m =
     (if m = 1 then (if isLeap y then 29 else 28)
      else if m = 3 \<or> m = 5 \<or> m = 8 \<or> m = 10 then 30 else 31)"

text \<open>The day of the year on which month \<open>m\<close> (0 is January) begins.\<close>

definition monthStart :: "int \<Rightarrow> int \<Rightarrow> int" where
  "monthStart y m =
     (if m \<le> 0 then 0 else if m = 1 then 31
      else (if m = 2 then 59 else if m = 3 then 90 else if m = 4 then 120 else if m = 5 then 151
            else if m = 6 then 181 else if m = 7 then 212 else if m = 8 then 243
            else if m = 9 then 273 else if m = 10 then 304 else 334)
           + (if isLeap y then 1 else 0))"

definition monthFromDay :: "int \<Rightarrow> int \<Rightarrow> int" where
  "monthFromDay y k =
     (if k < monthStart y 1 then 0 else if k < monthStart y 2 then 1
      else if k < monthStart y 3 then 2 else if k < monthStart y 4 then 3
      else if k < monthStart y 5 then 4 else if k < monthStart y 6 then 5
      else if k < monthStart y 7 then 6 else if k < monthStart y 8 then 7
      else if k < monthStart y 9 then 8 else if k < monthStart y 10 then 9
      else if k < monthStart y 11 then 10 else 11)"

section \<open>The UTC getters and Date.UTC\<close>

definition getUTCFullYear :: "instant \<Rightarrow> int" where
  "getUTCFullYear t = yearFromDay (t div msPerDay)"

definition dayInYear :: "instant \<Rightarrow> int" where
  "dayInYear t = t div msPerDay - dayFromYear (getUTCFullYear t)"

definition getUTCMonth :: "instant \<Rightarrow> int" where
  "getUTCMonth t = monthFromDay (getUTCFullYear t) (dayInYear t)"

definition getUTCDate :: "instant \<Rightarrow> int" where
  "getUTCDate t = dayInYear t - monthStart (getUTCFullYear t) (getUTCMonth t) + 1"

definition getUTCHours :: "instant \<Rightarrow> int" where
  "getUTCHours t = (t div 3600000) mod 24"

definition getUTCMinutes :: "instant \<Rightarrow> int" where
  "getUTCMinutes t = (t div 60000) mod 60"

definition getUTCSeconds :: "instant \<Rightarrow> int" where
  "getUTCSeconds t = (t div 1000) mod 60"

definition getUTCMilliseconds :: "instant \<Rightarrow> int" where
  "getUTCMilliseconds t = t mod 1000"

text \<open>
  \<open>Date.UTC\<close>: a year from 0 to 99 means 1900 and after; a month beyond 11 carries into
  the year; the day of the month counts from the first of that month.
\<close>

definition dateUTC :: "int \<Rightarrow> int \<Rightarrow> int \<Rightarrow> int \<Rightarrow> int \<Rightarrow> int \<Rightarrow> int \<Rightarrow> instant" where
  "dateUTC y m d h mi s ms =
     (let yr = (if 0 \<le> y \<and> y \<le> 99 then 1900 + y else y); ym = yr + m div 12; mn = m mod 12
      in (dayFromYear ym + monthStart ym mn + d - 1) * msPerDay
         + h * 3600000 + mi * 60000 + s * 1000 + ms)"

definition advanceUtcMonth :: "instant \<Rightarrow> instant" where
  "advanceUtcMonth d =
     (let year = getUTCFullYear d; month = getUTCMonth d; day = getUTCDate d;
          nextMonth = (month + 1) mod 12;
          nextYear = (if month = 11 then year + 1 else year);
          maxDaysInNextMonth = getUTCDate (dateUTC nextYear (nextMonth + 1) 0 0 0 0 0);
          targetDay = min day maxDaysInNextMonth
      in dateUTC nextYear nextMonth targetDay (getUTCHours d) (getUTCMinutes d)
           (getUTCSeconds d) (getUTCMilliseconds d))"

section \<open>Correctness of the calendar\<close>

lemma int_div_Suc: "0 < (n::int) \<Longrightarrow> (x + 1) div n = x div n + (if (x + 1) mod n = 0 then 1 else 0)"
proof -
  assume n: "0 < n"
  have x: "x = n * (x div n) + x mod n" by simp
  have r: "0 \<le> x mod n" "x mod n < n" using n by simp_all
  show ?thesis
  proof (cases "x mod n + 1 = n")
    case True
    then have e: "x + 1 = n * (x div n + 1)"
      using x unfolding distrib_left by linarith
    show ?thesis unfolding e using n by simp
  next
    case False
    then have l: "x mod n + 1 < n" using r by linarith
    have e: "x + 1 = n * (x div n) + (x mod n + 1)" using x by linarith
    have "(x + 1) div n = x div n" by (rule int_div_pos_eq[OF e]) (use r l in auto)
    moreover have "(x + 1) mod n = x mod n + 1" by (rule int_mod_pos_eq[OF e]) (use r l in auto)
    ultimately show ?thesis using r by simp
  qed
qed

lemma leap_mods:
  "(y - 1968) mod 4 = y mod (4::int)"
  "(y - 1900) mod 100 = y mod (100::int)"
  "(y - 1600) mod 400 = y mod (400::int)"
  using mod_mult_self2[of y 4 "- 492"] mod_mult_self2[of y 100 "- 19"] mod_mult_self2[of y 400 "- 4"]
  by simp_all

lemma leap_dvd:
  "y mod 400 = 0 \<Longrightarrow> y mod 100 = (0::int)"
  "y mod 100 = 0 \<Longrightarrow> y mod 4 = (0::int)"
  using dvd_trans[of 100 400 y] dvd_trans[of 4 100 y] by (simp_all add: dvd_eq_mod_eq_0[symmetric])

lemma leap_count:
  assumes "c \<Longrightarrow> b" "b \<Longrightarrow> a"
  shows "365 * k + 365 + (A + (if a then 1 else 0)) - (B + (if b then 1 else 0))
           + (C + (if c then 1 else 0))
         = 365 * k + A - B + C + (if a \<and> (\<not> b \<or> c) then 366 else (365::int))"
  using assms by (cases a; cases b; cases c) simp_all

lemma dayFromYear_Suc: "dayFromYear (y + 1) = dayFromYear y + (if isLeap y then 366 else 365)"
proof -
  have s: "y + 1 - 1969 = y - 1969 + 1" "y + 1 - 1901 = y - 1901 + 1" "y + 1 - 1601 = y - 1601 + 1"
    "365 * (y + 1 - 1970) = 365 * (y - 1970) + 365" by simp_all
  have z: "y - 1969 + 1 = y - 1968" "y - 1901 + 1 = y - 1900" "y - 1601 + 1 = y - 1600" by simp_all
  have d: "(y - 1969 + 1) div 4 = (y - 1969) div 4 + (if y mod 4 = 0 then 1 else 0)"
    "(y - 1901 + 1) div 100 = (y - 1901) div 100 + (if y mod 100 = 0 then 1 else 0)"
    "(y - 1601 + 1) div 400 = (y - 1601) div 400 + (if y mod 400 = 0 then 1 else 0)"
    by (simp_all only: int_div_Suc zero_less_numeral) (simp_all only: z leap_mods)
  show ?thesis
    unfolding dayFromYear_def isLeap_def s d by (rule leap_count) (rule leap_dvd, assumption)+
qed

lemma dayFromYear_step: "dayFromYear y + 365 \<le> dayFromYear (y + 1)"
  by (simp add: dayFromYear_Suc)

lemma dayFromYear_mono: "y \<le> z \<Longrightarrow> dayFromYear y \<le> dayFromYear z"
proof (induction z rule: int_ge_induct)
  case (step i)
  then show ?case using dayFromYear_step[of i] by linarith
qed simp

lemma int_div_bounds: "0 < (n::int) \<Longrightarrow> n * (x div n) \<le> x \<and> x < n * (x div n) + n"
  using mult_div_mod_eq[of n x] pos_mod_sign[of n x] pos_mod_bound[of n x] by linarith

lemma dayFromYear_linear:
  "146097 * (y - 1970) - 1500 \<le> 400 * dayFromYear y"
  "400 * dayFromYear y \<le> 146097 * (y - 1970) + 1500"
  unfolding dayFromYear_def
  using int_div_bounds[of 4 "y - 1969"] int_div_bounds[of 100 "y - 1901"]
    int_div_bounds[of 400 "y - 1601"]
  by (simp_all add: algebra_simps)

lemma yearFromDay_bounds:
  "dayFromYear (yearFromDay d) \<le> d \<and> d < dayFromYear (yearFromDay d + 1)"
proof -
  define y where "y = 1970 + (400 * d) div 146097"
  have q: "146097 * (y - 1970) \<le> 400 * d" "400 * d < 146097 * (y - 1970) + 146097"
    using int_div_bounds[of 146097 "400 * d"] by (auto simp: y_def)
  have "400 * dayFromYear (y - 1) < 400 * d + 1"
    using dayFromYear_linear(2)[of "y - 1"] q(1) by (simp add: algebra_simps)
  then have below: "dayFromYear (y - 1) \<le> d" by simp
  have "400 * d < 400 * dayFromYear (y + 1 + 1)"
    using dayFromYear_linear(1)[of "y + 1 + 1"] q(2) by (simp add: algebra_simps)
  then have above: "d < dayFromYear (y + 1 + 1)" by simp
  show ?thesis
    unfolding yearFromDay_def Let_def y_def[symmetric]
    using below above by auto
qed

lemma yearFromDay_unique:
  assumes "dayFromYear y \<le> d" "d < dayFromYear (y + 1)"
  shows "yearFromDay d = y"
proof (rule ccontr)
  assume "yearFromDay d \<noteq> y"
  then consider "yearFromDay d + 1 \<le> y" | "y + 1 \<le> yearFromDay d" by linarith
  then show False
  proof cases
    case 1
    from dayFromYear_mono[OF this] assms(1) yearFromDay_bounds[of d] show False by linarith
  next
    case 2
    from dayFromYear_mono[OF this] assms(2) yearFromDay_bounds[of d] show False by linarith
  qed
qed

lemma month_cases:
  assumes "0 \<le> (m::int)" "m \<le> 11"
  obtains "m = 0" | "m = 1" | "m = 2" | "m = 3" | "m = 4" | "m = 5" | "m = 6" | "m = 7"
    | "m = 8" | "m = 9" | "m = 10" | "m = 11"
proof -
  from assms have "m = 0 \<or> m = 1 \<or> m = 2 \<or> m = 3 \<or> m = 4 \<or> m = 5 \<or> m = 6 \<or> m = 7
    \<or> m = 8 \<or> m = 9 \<or> m = 10 \<or> m = 11" by presburger
  then show thesis using that by blast
qed

lemma monthStart_next:
  assumes "0 \<le> m" "m \<le> 10"
  shows "monthStart y (m + 1) = monthStart y m + daysInMonth y m"
proof -
  from assms have "0 \<le> m" "m \<le> 11" by auto
  then show ?thesis
    using assms(2) by (cases rule: month_cases) (simp_all add: monthStart_def daysInMonth_def)
qed

lemma monthStart_last:
  "monthStart y 11 + daysInMonth y 11 = (if isLeap y then 366 else 365)"
  by (simp add: monthStart_def daysInMonth_def)

lemma daysInMonth_range: "28 \<le> daysInMonth y m \<and> daysInMonth y m \<le> 31"
  by (simp add: daysInMonth_def)

lemma monthFromDay_bounds:
  assumes "0 \<le> k" "k < (if isLeap y then 366 else 365)"
  shows "0 \<le> monthFromDay y k \<and> monthFromDay y k \<le> 11
       \<and> monthStart y (monthFromDay y k) \<le> k
       \<and> k < monthStart y (monthFromDay y k) + daysInMonth y (monthFromDay y k)"
  using assms
  by (cases "isLeap y") (auto simp: monthFromDay_def monthStart_def daysInMonth_def)

lemma monthFromDay_unique:
  assumes "0 \<le> m" "m \<le> 11" "monthStart y m \<le> k" "k < monthStart y m + daysInMonth y m"
  shows "monthFromDay y k = m"
  using assms(1,2)
  by (cases rule: month_cases; cases "isLeap y"; use assms(3,4) in
      \<open>simp add: monthFromDay_def monthStart_def daysInMonth_def\<close>)

lemma dayInYear_range:
  "0 \<le> dayInYear t \<and> dayInYear t < (if isLeap (getUTCFullYear t) then 366 else 365)"
  using yearFromDay_bounds[of "t div msPerDay"]
  by (auto simp: dayInYear_def getUTCFullYear_def dayFromYear_Suc)

lemma getUTCMonth_bounds:
  "0 \<le> getUTCMonth t \<and> getUTCMonth t \<le> 11"
  using monthFromDay_bounds[of "dayInYear t" "getUTCFullYear t"] dayInYear_range[of t]
  by (simp add: getUTCMonth_def)

lemma getUTCDate_bounds:
  "1 \<le> getUTCDate t \<and> getUTCDate t \<le> daysInMonth (getUTCFullYear t) (getUTCMonth t)"
  using monthFromDay_bounds[of "dayInYear t" "getUTCFullYear t"] dayInYear_range[of t]
  by (simp add: getUTCMonth_def getUTCDate_def)

lemma day_decompose:
  "t div msPerDay =
     dayFromYear (getUTCFullYear t) + monthStart (getUTCFullYear t) (getUTCMonth t) + getUTCDate t - 1"
  by (simp add: getUTCDate_def dayInYear_def)

text \<open>The getters recover a valid date.\<close>

lemma day_in_month:
  assumes "0 \<le> m" "m \<le> 11" "1 \<le> d" "d \<le> daysInMonth y m"
    and t: "t div msPerDay = dayFromYear y + monthStart y m + d - 1"
  shows "getUTCFullYear t = y \<and> getUTCMonth t = m \<and> getUTCDate t = d"
proof -
  have lo: "0 \<le> monthStart y m" by (simp add: monthStart_def)
  have hi: "monthStart y m + daysInMonth y m \<le> (if isLeap y then 366 else 365)"
    using assms(1,2)
    by (cases rule: month_cases; simp add: monthStart_def daysInMonth_def)
  have y: "getUTCFullYear t = y"
    unfolding getUTCFullYear_def
    by (rule yearFromDay_unique) (use assms lo hi t in \<open>auto simp: dayFromYear_Suc\<close>)
  have k: "dayInYear t = monthStart y m + d - 1"
    using y t by (simp add: dayInYear_def)
  have m: "getUTCMonth t = m"
    unfolding getUTCMonth_def y k by (rule monthFromDay_unique) (use assms in auto)
  show ?thesis using y m k by (simp add: getUTCDate_def)
qed

lemma time_of_day:
  "t = (t div msPerDay) * msPerDay + getUTCHours t * 3600000 + getUTCMinutes t * 60000
       + getUTCSeconds t * 1000 + getUTCMilliseconds t"
proof -
  have "t div 60000 = t div 1000 div 60" "t div 3600000 = t div 60000 div 60"
    "t div 86400000 = t div 3600000 div 24"
    using zdiv_zmult2_eq[of 60 t 1000] zdiv_zmult2_eq[of 60 t 60000] zdiv_zmult2_eq[of 24 t 3600000]
    by simp_all
  then show ?thesis
    unfolding getUTCHours_def getUTCMinutes_def getUTCSeconds_def getUTCMilliseconds_def msPerDay_def
    using mult_div_mod_eq[of 1000 t] mult_div_mod_eq[of 60 "t div 1000"]
      mult_div_mod_eq[of 60 "t div 60000"] mult_div_mod_eq[of 24 "t div 3600000"]
    by linarith
qed

lemma time_of_day_range:
  "0 \<le> getUTCHours t * 3600000 + getUTCMinutes t * 60000
       + getUTCSeconds t * 1000 + getUTCMilliseconds t"
  "getUTCHours t * 3600000 + getUTCMinutes t * 60000
       + getUTCSeconds t * 1000 + getUTCMilliseconds t < msPerDay"
  using time_of_day[of t] int_div_bounds[of msPerDay t] by (auto simp: msPerDay_def)

text \<open>The year \<open>Date.UTC\<close> reads from its first argument.\<close>

definition utcYear :: "int \<Rightarrow> int" where
  "utcYear y = (if 0 \<le> y \<and> y \<le> 99 then 1900 + y else y)"

lemma utcYear_ge: "y \<le> utcYear y"
  by (simp add: utcYear_def)

lemma dateUTC_day:
  assumes "0 \<le> h" "0 \<le> x" "h * 3600000 + mi * 60000 + s * 1000 + x \<ge> 0"
    "h * 3600000 + mi * 60000 + s * 1000 + x < msPerDay" "0 \<le> m" "m \<le> 11"
  shows "dateUTC y m d h mi s x div msPerDay = dayFromYear (utcYear y) + monthStart (utcYear y) m + d - 1"
    and "dateUTC y m d h mi s x mod msPerDay = h * 3600000 + mi * 60000 + s * 1000 + x"
proof -
  let ?D = "dayFromYear (utcYear y) + monthStart (utcYear y) m + d - 1"
  have m: "m div 12 = 0" "m mod 12 = m" using assms(5,6) by auto
  have e: "dateUTC y m d h mi s x = msPerDay * ?D + (h * 3600000 + mi * 60000 + s * 1000 + x)"
    by (simp only: dateUTC_def Let_def utcYear_def[symmetric] m add_0_right) (simp add: mult.commute)
  show "dateUTC y m d h mi s x div msPerDay = ?D"
    by (rule int_div_pos_eq[OF e assms(3,4)])
  show "dateUTC y m d h mi s x mod msPerDay = h * 3600000 + mi * 60000 + s * 1000 + x"
    by (rule int_mod_pos_eq[OF e assms(3,4)])
qed

lemma lastDayOfMonth:
  assumes "0 \<le> m" "m \<le> 11"
  shows "getUTCDate (dateUTC y (m + 1) 0 0 0 0 0) = daysInMonth (utcYear y) m"
proof -
  let ?Y = "utcYear y"
  have "dateUTC y (m + 1) 0 0 0 0 0 div msPerDay
      = dayFromYear ?Y + monthStart ?Y m + daysInMonth ?Y m - 1"
  proof (cases "m = 11")
    case True
    have "dateUTC y (m + 1) 0 0 0 0 0 = (dayFromYear (?Y + 1) - 1) * msPerDay"
      by (simp add: True dateUTC_def Let_def utcYear_def[symmetric] monthStart_def)
    then show ?thesis
      by (simp add: True dayFromYear_Suc monthStart_last[symmetric] msPerDay_def)
  next
    case False
    then have "0 \<le> m + 1" "m + 1 \<le> 11" "0 \<le> m" "m \<le> 10" using assms by auto
    then show ?thesis
      using dateUTC_day(1)[of 0 0 0 0 "m + 1" y 0] monthStart_next[of m ?Y]
      by (simp add: msPerDay_def)
  qed
  from day_in_month[OF assms _ _ this] daysInMonth_range[of ?Y m] show ?thesis by simp
qed

lemma advanceUtcMonth_day:
  fixes t
  defines "y \<equiv> getUTCFullYear t" and "m \<equiv> getUTCMonth t"
  defines "Y \<equiv> utcYear (if m = 11 then y + 1 else y)" and "M \<equiv> (m + 1) mod 12"
  shows "advanceUtcMonth t div msPerDay
           = dayFromYear Y + monthStart Y M + min (getUTCDate t) (daysInMonth Y M) - 1"
    and "advanceUtcMonth t mod msPerDay = t mod msPerDay"
proof -
  have M: "0 \<le> M" "M \<le> 11" unfolding M_def by auto
  note r = time_of_day_range[of t]
  have h: "0 \<le> getUTCHours t" "0 \<le> getUTCMilliseconds t"
    by (simp_all add: getUTCHours_def getUTCMilliseconds_def)
  have e: "advanceUtcMonth t = dateUTC (if m = 11 then y + 1 else y) M
      (min (getUTCDate t) (daysInMonth Y M)) (getUTCHours t) (getUTCMinutes t)
      (getUTCSeconds t) (getUTCMilliseconds t)"
    unfolding advanceUtcMonth_def Let_def y_def[symmetric] m_def[symmetric] M_def[symmetric]
      lastDayOfMonth[OF M] Y_def[symmetric] ..
  show "advanceUtcMonth t div msPerDay
           = dayFromYear Y + monthStart Y M + min (getUTCDate t) (daysInMonth Y M) - 1"
    unfolding e Y_def by (rule dateUTC_day(1)[OF h r M])
  have "t mod msPerDay = t - t div msPerDay * msPerDay" by (simp add: minus_div_mult_eq_mod)
  then show "advanceUtcMonth t mod msPerDay = t mod msPerDay"
    unfolding e dateUTC_day(2)[OF h r M] using time_of_day[of t] by linarith
qed

lemma advanceUtcMonth_gt: "t < advanceUtcMonth t"
proof -
  let ?y = "getUTCFullYear t" and ?m = "getUTCMonth t"
  let ?n = "if ?m = 11 then ?y + 1 else ?y" and ?M = "(?m + 1) mod 12"
  let ?Y = "utcYear ?n"
  note mb = getUTCMonth_bounds[of t] and db = getUTCDate_bounds[of t]
  have start: "dayFromYear ?n + monthStart ?n ?M
      = dayFromYear ?y + monthStart ?y ?m + daysInMonth ?y ?m"
  proof (cases "?m = 11")
    case True
    then show ?thesis
      by (simp add: dayFromYear_Suc monthStart_last[symmetric]) (simp add: monthStart_def)
  next
    case False
    then have "?m + 1 \<le> 11" "0 \<le> ?m" "?m \<le> 10" using mb by auto
    then show ?thesis using monthStart_next[of ?m ?y] False by simp
  qed
  have y: "dayFromYear ?n + monthStart ?n ?M \<le> dayFromYear ?Y + monthStart ?Y ?M"
  proof (cases "?Y = ?n")
    case False
    then have "?n + 1 \<le> ?Y" using utcYear_ge[of ?n] by linarith
    from dayFromYear_mono[OF this] dayFromYear_step[of ?n]
    have "dayFromYear ?n + 365 \<le> dayFromYear ?Y" by linarith
    moreover have "monthStart ?n ?M \<le> 335" "0 \<le> monthStart ?Y ?M"
      by (simp_all add: monthStart_def)
    ultimately show ?thesis by linarith
  qed simp
  have "1 \<le> min (getUTCDate t) (daysInMonth ?Y ?M)" using db daysInMonth_range[of ?Y ?M] by auto
  then have "t div msPerDay + 1 \<le> advanceUtcMonth t div msPerDay"
    using advanceUtcMonth_day(1)[of t] day_decompose[of t] start y db by linarith
  moreover have "t = t div msPerDay * msPerDay + t mod msPerDay"
    "advanceUtcMonth t = advanceUtcMonth t div msPerDay * msPerDay + advanceUtcMonth t mod msPerDay"
    by simp_all
  ultimately show ?thesis
    using advanceUtcMonth_day(2)[of t] unfolding msPerDay_def by linarith
qed

lemma advanceUtcMonth_date:
  fixes t
  defines "y \<equiv> getUTCFullYear t" and "m \<equiv> getUTCMonth t"
  defines "Y \<equiv> utcYear (if m = 11 then y + 1 else y)" and "M \<equiv> (m + 1) mod 12"
  shows "getUTCFullYear (advanceUtcMonth t) = Y \<and> getUTCMonth (advanceUtcMonth t) = M
       \<and> getUTCDate (advanceUtcMonth t) = min (getUTCDate t) (daysInMonth Y M)"
proof -
  have "0 \<le> M" "M \<le> 11" unfolding M_def by auto
  moreover have "1 \<le> min (getUTCDate t) (daysInMonth Y M)"
    using getUTCDate_bounds[of t] daysInMonth_range[of Y M] by auto
  ultimately show ?thesis
    unfolding M_def Y_def y_def m_def
    by (intro day_in_month[OF _ _ _ _ advanceUtcMonth_day(1)]) auto
qed

end
