(* ===== verification/Decimal.thy ===== *)
theory Decimal
  imports Prelude
begin

text \<open>
  Decimal numerals as the sources print and read them: an integer in a template string or in
  \<open>JSON.stringify\<close>, \<open>parseInt(s, 10)\<close>, and the round trip between them.
\<close>

section \<open>Printing and reading\<close>

fun digit_char :: "nat \<Rightarrow> char" where
  "digit_char n = char_of (48 + n)"

fun show_nat :: "nat \<Rightarrow> string" where
  "show_nat n = (if n < 10 then [digit_char n] else show_nat (n div 10) @ [digit_char (n mod 10)])"

declare show_nat.simps [simp del]

definition show_int :: "int \<Rightarrow> string" where
  "show_int i = (if i < 0 then CHR ''-'' # show_nat (nat (- i)) else show_nat (nat i))"

definition digit_value :: "char \<Rightarrow> nat" where
  "digit_value c = of_char c - 48"

definition digits_value :: "string \<Rightarrow> nat" where
  "digits_value ds = foldl (\<lambda>n c. 10 * n + digit_value c) 0 ds"

text \<open>
  \<open>parseInt(s, 10)\<close>: leading white space, an optional sign, the longest run of digits;
  \<open>None\<close> is \<open>NaN\<close>. Digits beyond the precision of a double are not rounded.
\<close>

definition parse_digits :: "string \<Rightarrow> nat option" where
  "parse_digits s = (let ds = takeWhile is_digit s in if ds = [] then None else Some (digits_value ds))"

definition parseInt :: "string \<Rightarrow> int option" where
  "parseInt s = (case dropWhile is_space s of
      [] \<Rightarrow> None
    | c # cs \<Rightarrow> if c = CHR ''-'' then map_option (\<lambda>n. - int n) (parse_digits cs)
                else if c = CHR ''+'' then map_option int (parse_digits cs)
                else map_option int (parse_digits (c # cs)))"

section \<open>The round trip\<close>

lemma of_char_digit: "d < 10 \<Longrightarrow> of_char (digit_char d) = 48 + d"
  by (simp add: of_char_of)

lemma digit_char_facts:
  "d < 10 \<Longrightarrow> is_digit (digit_char d)" "d < 10 \<Longrightarrow> digit_value (digit_char d) = d"
  by (simp_all add: is_digit_def digit_value_def of_char_digit del: digit_char.simps)

lemma show_nat_digits: "list_all is_digit (show_nat n)"
  by (induction n rule: show_nat.induct) (subst show_nat.simps, simp add: digit_char_facts del: digit_char.simps)

lemma show_nat_not_Nil [simp]: "show_nat n \<noteq> []"
  by (subst show_nat.simps) simp

lemma digits_value_snoc: "digits_value (ds @ [c]) = 10 * digits_value ds + digit_value c"
  by (simp add: digits_value_def)

lemma digits_value_show_nat: "digits_value (show_nat n) = n"
proof (induction n rule: show_nat.induct)
  case (1 n)
  show ?case
  proof (cases "n < 10")
    case True
    then show ?thesis
      by (subst show_nat.simps) (simp add: digits_value_def digit_char_facts del: digit_char.simps)
  next
    case False
    with 1 show ?thesis
      by (subst show_nat.simps) (simp add: digits_value_snoc digit_char_facts del: digit_char.simps)
  qed
qed

lemma show_nat_inj [simp]: "show_nat m = show_nat n \<longleftrightarrow> m = n"
  by (metis digits_value_show_nat)

lemma parse_digits_show_nat:
  "(r = [] \<or> \<not> is_digit (hd r)) \<Longrightarrow> parse_digits (show_nat n @ r) = Some n"
proof -
  assume r: "r = [] \<or> \<not> is_digit (hd r)"
  have "takeWhile is_digit (show_nat n @ r) = show_nat n"
    using show_nat_digits[of n] r by (cases r) (auto simp: list_all_iff takeWhile_append)
  then show ?thesis by (simp add: parse_digits_def digits_value_show_nat)
qed

lemma digit_not_space: "is_digit c \<Longrightarrow> \<not> is_space c \<and> c \<noteq> CHR ''-'' \<and> c \<noteq> CHR ''+'' \<and> c \<noteq> CHR '':''"
  by (auto simp: is_digit_def is_space_def)

lemma show_nat_hd: "is_digit (hd (show_nat n))"
  using show_nat_digits[of n] by (cases "show_nat n") auto

lemma parseInt_show_int: "parseInt (show_int i) = Some i"
proof (cases "i < 0")
  case True
  have "\<not> is_space CHR ''-''" by (simp add: is_space_def)
  with True show ?thesis
    using parse_digits_show_nat[of "[]" "nat (- i)"] by (simp add: parseInt_def show_int_def)
next
  case False
  obtain c cs where c: "show_nat (nat i) = c # cs" by (cases "show_nat (nat i)") auto
  with show_nat_hd[of "nat i"] digit_not_space[of c] False show ?thesis
    using parse_digits_show_nat[of "[]" "nat i"] by (simp add: parseInt_def show_int_def)
qed

lemma show_int_no_colon: "CHR '':'' \<notin> set (show_int i)"
  using show_nat_digits digit_not_space
  by (auto simp: show_int_def list_all_iff split: if_splits)

lemma show_int_inj [simp]: "show_int i = show_int j \<longleftrightarrow> i = j"
  by (metis parseInt_show_int option.inject)

section \<open>Canonical spelling\<close>

lemma show_nat_length: "n < 10 ^ Suc k \<Longrightarrow> length (show_nat n) \<le> Suc k"
proof (induction k arbitrary: n)
  case 0
  then show ?case by (simp add: show_nat.simps[of n])
next
  case (Suc k)
  show ?case
  proof (cases "n < 10")
    case False
    have "n div 10 < 10 ^ Suc k" using Suc.prems by (simp add: div_less_iff_less_mult)
    then show ?thesis using Suc.IH[of "n div 10"] False by (simp add: show_nat.simps[of n])
  qed (simp add: show_nat.simps[of n])
qed

lemma digit_char_zero: "d < 10 \<Longrightarrow> digit_char d = CHR ''0'' \<longleftrightarrow> d = 0"
proof -
  assume d: "d < 10"
  have "digit_char d = CHR ''0'' \<longleftrightarrow> (of_char (digit_char d) :: nat) = of_char CHR ''0''" by (rule of_char_eq_iff[symmetric])
  then show ?thesis using of_char_digit[OF d] by (simp del: digit_char.simps)
qed

lemma show_nat_canonical: "0 < n \<Longrightarrow> hd (show_nat n) \<noteq> CHR ''0''"
proof (induction n rule: show_nat.induct)
  case (1 n)
  show ?case
  proof (cases "n < 10")
    case True
    then show ?thesis using 1(2) digit_char_zero[of n] by (simp add: show_nat.simps[of n] del: digit_char.simps)
  next
    case False
    then show ?thesis using 1 by (simp add: show_nat.simps[of n] del: digit_char.simps)
  qed
qed

lemma digit_char_value: "is_digit c \<Longrightarrow> digit_value c < 10 \<and> digit_char (digit_value c) = c"
  by (auto simp: is_digit_def digit_value_def)

text \<open>\<open>/^[1-9][0-9]*$/\<close>: a positive number in its only spelling.\<close>

definition canonicalInt :: "string \<Rightarrow> bool" where
  "canonicalInt s \<longleftrightarrow> s \<noteq> [] \<and> hd s \<noteq> CHR ''0'' \<and> list_all is_digit s"

lemma digits_value_pos: "s \<noteq> [] \<Longrightarrow> hd s \<noteq> CHR ''0'' \<Longrightarrow> list_all is_digit s \<Longrightarrow> 0 < digits_value s"
proof (induction s rule: rev_induct)
  case (snoc c s)
  show ?case
  proof (cases "s = []")
    case True
    then have "digit_value c \<noteq> 0"
      using snoc.prems digit_char_value[of c] digit_char_zero[of "digit_value c"] by (auto simp del: digit_char.simps)
    then show ?thesis using True by (simp add: digits_value_def)
  next
    case False
    then show ?thesis using snoc by (simp add: digits_value_snoc)
  qed
qed simp

lemma show_nat_value: "s \<noteq> [] \<Longrightarrow> hd s \<noteq> CHR ''0'' \<Longrightarrow> list_all is_digit s \<Longrightarrow> show_nat (digits_value s) = s"
proof (induction s rule: rev_induct)
  case (snoc c s)
  have c: "digit_value c < 10" "digit_char (digit_value c) = c" using digit_char_value[of c] snoc.prems by simp_all
  show ?case
  proof (cases "s = []")
    case True
    then show ?thesis using c by (simp add: digits_value_def show_nat.simps[of "digit_value c"] del: digit_char.simps)
  next
    case False
    then have "0 < digits_value s" using digits_value_pos[of s] snoc.prems by simp
    then show ?thesis
      using c False snoc by (simp add: digits_value_snoc show_nat.simps[of "10 * digits_value s + digit_value c"] del: digit_char.simps)
  qed
qed simp

lemma canonicalInt_show: "0 < n \<Longrightarrow> canonicalInt (show_nat n)"
  by (simp add: canonicalInt_def show_nat_canonical show_nat_digits)

lemma canonicalInt_value: "canonicalInt s \<Longrightarrow> show_nat (digits_value s) = s \<and> 0 < digits_value s"
  by (simp add: canonicalInt_def show_nat_value digits_value_pos)

end
