(* ===== verification/Quota_Types.thy ===== *)
theory Quota_Types
  imports Calendar Decimal
begin

text \<open>
  The quota vocabulary of \<open>platform-operations/src/types/quota.ts\<close>: metrics, statuses, the
  errors the ledger throws, the validators of caller input, and the canonical serialisation
  that is hashed into a bundle's request hash. The validators take any JavaScript value.
\<close>

section \<open>Metrics, statuses, errors\<close>

datatype quotaMetric = Tokens | Messages | Turns | Storage_bytes | Api_calls

definition CORE_QUOTA_METRICS :: "quotaMetric list" where
  "CORE_QUOTA_METRICS = [Tokens, Messages, Turns, Storage_bytes, Api_calls]"

fun metric_name :: "quotaMetric \<Rightarrow> string" where
  "metric_name Tokens = ''tokens''"
| "metric_name Messages = ''messages''"
| "metric_name Turns = ''turns''"
| "metric_name Storage_bytes = ''storage_bytes''"
| "metric_name Api_calls = ''api_calls''"

datatype quotaReservationStatus = Reserved | Committed | Released | Expired

fun status_name :: "quotaReservationStatus \<Rightarrow> string" where
  "status_name Reserved = ''reserved''"
| "status_name Committed = ''committed''"
| "status_name Released = ''released''"
| "status_name Expired = ''expired''"

datatype quotaError =
    ValidationError string
  | QuotaExceededError quotaMetric int int
  | InvalidReservationError string
  | ReservationSettledError string
  | IdempotencyConflictError string
  | DatabaseCorrupted
  | PlainError string
  | UniqueConstraintFailed
  | CheckConstraintFailed

lemma CORE_QUOTA_METRICS_all: "m \<in> set CORE_QUOTA_METRICS"
  by (cases m) (simp_all add: CORE_QUOTA_METRICS_def)

lemma metric_name_inj: "metric_name a = metric_name b \<longleftrightarrow> a = b"
  by (cases a; cases b) simp_all

section \<open>Validators\<close>

fun assertPositiveInteger :: "jsval \<Rightarrow> quotaError + int" where
  "assertPositiveInteger (JNumber (Num i)) =
     (if \<not> isSafeInteger (Num i) \<or> i \<le> 0
      then Inl (ValidationError ''Value must be a positive safe integer'') else Inr i)"
| "assertPositiveInteger _ = Inl (ValidationError ''Value must be a positive safe integer'')"

fun assertNonNegativeInteger :: "jsval \<Rightarrow> quotaError + int" where
  "assertNonNegativeInteger (JNumber (Num i)) =
     (if \<not> isSafeInteger (Num i) \<or> i < 0
      then Inl (ValidationError ''Value must be a non-negative safe integer'') else Inr i)"
| "assertNonNegativeInteger _ = Inl (ValidationError ''Value must be a non-negative safe integer'')"

fun assertQuotaLimit :: "jsval \<Rightarrow> quotaError + int" where
  "assertQuotaLimit (JNumber (Num i)) =
     (if \<not> isSafeInteger (Num i) \<or> (i < 0 \<and> i \<noteq> -1)
      then Inl (ValidationError ''Quota limit must be a non-negative safe integer or -1 (unlimited)'')
      else Inr i)"
| "assertQuotaLimit _ =
     Inl (ValidationError ''Quota limit must be a non-negative safe integer or -1 (unlimited)'')"

fun validateQuotaMetric :: "jsval \<Rightarrow> quotaError + quotaMetric" where
  "validateQuotaMetric (JString s) =
     (case find (\<lambda>m. metric_name m = s) CORE_QUOTA_METRICS of
        None \<Rightarrow> Inl (ValidationError ''Invalid quota resource metric'') | Some m \<Rightarrow> Inr m)"
| "validateQuotaMetric _ = Inl (ValidationError ''Invalid quota resource metric'')"

text \<open>\<open>DELIVERY_ID_REGEX\<close>, and \<open>SESSION_ID_REGEX\<close> of \<open>types/task.ts\<close>.\<close>

definition validateDeliveryId :: "string \<Rightarrow> quotaError + string" where
  "validateDeliveryId s = (if hex_id ''deliv_'' 32 s then Inr s
     else Inl (ValidationError ''Invalid delivery ID format''))"

definition validateSessionId :: "string \<Rightarrow> quotaError + string" where
  "validateSessionId s = (if hex_id ''ses_'' 32 s \<or> hex_id ''import-'' 32 s then Inr s
     else Inl (ValidationError ''Invalid session ID format''))"

definition is_user_id_char :: "char \<Rightarrow> bool" where
  "is_user_id_char c \<longleftrightarrow> is_alnum c \<or> c \<in> set ''_-:.''"

definition is_control :: "char \<Rightarrow> bool" where
  "is_control c \<longleftrightarrow> (of_char c :: nat) \<le> 31 \<or> (127 \<le> (of_char c :: nat) \<and> (of_char c :: nat) \<le> 159)"

text \<open>
  \<open>USER_ID_REGEX\<close> admits ASCII characters only, and every ASCII string is its own NFC
  normal form, so the NFC test of the source never decides.
\<close>

definition validateUserId :: "string \<Rightarrow> quotaError + string" where
  "validateUserId s =
     (if s = [] \<or> length s > 128 \<or> s \<noteq> js_trim s \<or> list_ex is_control s
         \<or> \<not> (1 \<le> length s \<and> length s \<le> 128 \<and> list_all is_user_id_char s)
      then Inl (ValidationError ''Invalid user ID format'') else Inr s)"

lemma assertPositiveInteger_Inr:
  "assertPositiveInteger v = Inr n \<Longrightarrow> 0 < n \<and> n \<le> MAX_SAFE_INTEGER \<and> v = JNumber (Num n)"
  by (cases v rule: assertPositiveInteger.cases) (auto split: if_splits)

lemma assertNonNegativeInteger_Inr:
  "assertNonNegativeInteger v = Inr n \<Longrightarrow> 0 \<le> n \<and> n \<le> MAX_SAFE_INTEGER \<and> v = JNumber (Num n)"
  by (cases v rule: assertNonNegativeInteger.cases) (auto split: if_splits)

lemma assertQuotaLimit_Inr: "assertQuotaLimit v = Inr n \<Longrightarrow> -1 \<le> n \<and> n \<le> MAX_SAFE_INTEGER"
  by (cases v rule: assertQuotaLimit.cases) (auto split: if_splits)

lemma validateQuotaMetric_iff: "validateQuotaMetric v = Inr m \<longleftrightarrow> v = JString (metric_name m)"
proof
  assume "validateQuotaMetric v = Inr m"
  then show "v = JString (metric_name m)"
    by (cases v rule: validateQuotaMetric.cases)
       (auto simp: find_Some_iff split: option.splits)
next
  assume "v = JString (metric_name m)"
  then show "validateQuotaMetric v = Inr m"
    by (cases m) (simp_all add: CORE_QUOTA_METRICS_def)
qed

lemma validator_no_settle:
  "assertPositiveInteger v = Inl e \<Longrightarrow> \<exists>s. e = ValidationError s"
  "assertNonNegativeInteger v = Inl e \<Longrightarrow> \<exists>s. e = ValidationError s"
  by (cases v rule: assertPositiveInteger.cases; auto split: if_splits)
     (cases v rule: assertNonNegativeInteger.cases; auto split: if_splits)

section \<open>The canonical request\<close>

record canonicalQuotaRequest =
  cq_userId :: string
  cq_sessionId :: string
  cq_deliveryId :: string
  cq_turns :: jsval
  cq_messages :: jsval
  cq_tokens :: jsval
  cq_isEstimateTokens :: bool

text \<open>
  \<open>JSON.stringify\<close> of the object with its keys in order. The three strings passed their
  validators, so they hold no character that JSON escapes.
\<close>

definition json_field :: "string \<Rightarrow> string \<Rightarrow> string" where
  "json_field k v = CHR 0x22 # k @ CHR 0x22 # CHR '':'' # v"

definition json_string :: "string \<Rightarrow> string" where
  "json_string s = CHR 0x22 # s @ [CHR 0x22]"

definition canonicalJson ::
  "string \<Rightarrow> bool \<Rightarrow> int \<Rightarrow> string \<Rightarrow> int \<Rightarrow> int \<Rightarrow> string \<Rightarrow> string" where
  "canonicalJson deliveryId est messages sessionId tokens turns userId =
     CHR ''{'' # json_field ''deliveryId'' (json_string deliveryId) @
     CHR '','' # json_field ''isEstimateTokens'' (if est then ''true'' else ''false'') @
     CHR '','' # json_field ''messages'' (show_int messages) @
     CHR '','' # json_field ''sessionId'' (json_string sessionId) @
     CHR '','' # json_field ''tokens'' (show_int tokens) @
     CHR '','' # json_field ''turns'' (show_int turns) @
     CHR '','' # json_field ''userId'' (json_string userId) @ ''}''"

text \<open>\<open>sha256\<close> is the digest of \<open>node:crypto\<close>, a parameter.\<close>

definition computeCanonicalQuotaRequestHash ::
  "(string \<Rightarrow> string) \<Rightarrow> canonicalQuotaRequest \<Rightarrow> quotaError + string" where
  "computeCanonicalQuotaRequestHash sha256 inp =
    (case validateUserId (cq_userId inp) of Inl e \<Rightarrow> Inl e | Inr userId \<Rightarrow>
    (case validateSessionId (cq_sessionId inp) of Inl e \<Rightarrow> Inl e | Inr sessionId \<Rightarrow>
    (case validateDeliveryId (cq_deliveryId inp) of Inl e \<Rightarrow> Inl e | Inr deliveryId \<Rightarrow>
    (case assertPositiveInteger (cq_turns inp) of Inl e \<Rightarrow> Inl e | Inr turns \<Rightarrow>
    (case assertPositiveInteger (cq_messages inp) of Inl e \<Rightarrow> Inl e | Inr messages \<Rightarrow>
    (case assertNonNegativeInteger (cq_tokens inp) of Inl e \<Rightarrow> Inl e | Inr tokens \<Rightarrow>
       Inr (sha256 (canonicalJson deliveryId (cq_isEstimateTokens inp) messages sessionId
              tokens turns userId))))))))"

end
