(* ===== verification/Quota_Ledger.thy ===== *)
theory Quota_Ledger
  imports Quota_Types
begin

text \<open>
  The tenant-scoped quota ledger \<open>SqliteTenantScopedQuotaLedgerRepository\<close>
  (\<open>platform-storage-sqlite/src/repos/quota-ledger-repo.ts\<close>) over its four tables.
  \<open>quota_limits\<close> and \<open>quota_usage\<close> are keyed by \<open>(user_id, resource)\<close> and kept as maps;
  \<open>quota_reservations\<close> and \<open>quota_bundles\<close> are lists of rows. Every operation takes the
  tenant \<open>u\<close> (\<open>this.userId\<close>), the clock \<open>now\<close> it reads with \<open>new Date()\<close> and the
  identifiers it draws with \<open>randomUUID()\<close>; it returns its outcome and the database it
  leaves. A timestamp the ledger wrote itself is an instant; \<open>reset_at\<close>, which
  \<open>setLimit\<close> stores unchecked, may be any string.
\<close>

section \<open>Tables\<close>

text \<open>
  \<open>Iso t\<close> is the string \<open>new Date(t).toISOString()\<close>; \<open>NonIso s d\<close> any other string, with
  the instant \<open>d\<close> that \<open>new Date(s)\<close> reads from it, if any.
\<close>

datatype timestamp = Iso instant | NonIso string "instant option"

record limit_row =
  limit_amount :: int
  window_seconds :: "int option"
  reset_at :: "timestamp option"
  reset_interval :: "string option"
  limit_updated_at :: instant

record usage_row =
  used_amount :: int
  usage_updated_at :: instant

record reservation =
  r_id :: string
  r_user :: string
  r_bundleId :: "string option"
  r_deliveryId :: "string option"
  r_resource :: quotaMetric
  r_amount :: int
  r_status :: quotaReservationStatus
  r_committedAmount :: "int option"
  r_expiresAt :: instant
  r_createdAt :: instant
  r_settledAt :: "instant option"

record quotaBundle =
  b_id :: string
  b_user :: string
  b_deliveryId :: string
  b_sessionId :: string
  b_requestHash :: string
  b_status :: quotaReservationStatus
  b_turns :: int
  b_messages :: int
  b_tokens :: int
  b_isEstimateTokens :: bool
  b_turnsCommitted :: "int option"
  b_messagesCommitted :: "int option"
  b_tokensCommitted :: "int option"
  b_expiresAt :: instant
  b_createdAt :: instant
  b_settledAt :: "instant option"

record quota_db =
  quota_limits :: "(string \<times> quotaMetric) \<rightharpoonup> limit_row"
  quota_usage :: "(string \<times> quotaMetric) \<rightharpoonup> usage_row"
  quota_reservations :: "reservation list"
  quota_bundles :: "quotaBundle list"

type_synonym 'a quota_op = "(quota_db, quotaError, 'a) op"

record tenantQuotaLimit =
  tl_userId :: string
  tl_resource :: quotaMetric
  tl_limit :: int
  tl_windowSeconds :: "int option"
  tl_resetAt :: "timestamp option"
  tl_resetInterval :: "string option"
  tl_updatedAt :: instant

record quotaUsageSummary =
  us_userId :: string
  us_resource :: quotaMetric
  us_limit :: int
  us_used :: int
  us_reserved :: int
  us_remaining :: int
  us_allowed :: bool
  us_resetAt :: "timestamp option"

section \<open>Identifiers\<close>

fun validateBundleId :: "jsval \<Rightarrow> quotaError + string" where
  "validateBundleId (JString s) =
     (if hex_id ''qbd_'' 32 s then Inr s else Inl (InvalidReservationError ''Invalid bundle ID''))"
| "validateBundleId _ = Inl (InvalidReservationError ''Invalid bundle ID'')"

fun validateReservationId :: "jsval \<Rightarrow> quotaError + string" where
  "validateReservationId (JString s) =
     (if hex_id ''qrs_'' 32 s then Inr s else Inl (InvalidReservationError ''Invalid reservation ID''))"
| "validateReservationId _ = Inl (InvalidReservationError ''Invalid reservation ID'')"

section \<open>Limits\<close>

text \<open>A timestamp as \<open>parseQuotaLimitRow\<close> presents it: rewritten to ISO when it can be read.\<close>

fun present_time :: "timestamp \<Rightarrow> timestamp" where
  "present_time (Iso t) = Iso t"
| "present_time (NonIso s (Some t)) = Iso t"
| "present_time (NonIso s None) = NonIso s None"

definition parseQuotaLimitRow :: "string \<Rightarrow> quotaMetric \<Rightarrow> limit_row \<Rightarrow> tenantQuotaLimit" where
  "parseQuotaLimitRow u m row =
     \<lparr> tl_userId = u, tl_resource = m, tl_limit = limit_amount row,
       tl_windowSeconds = window_seconds row,
       tl_resetAt = map_option present_time (reset_at row),
       tl_resetInterval = reset_interval row, tl_updatedAt = limit_updated_at row \<rparr>"

record setQuotaLimitInput =
  sl_resource :: jsval
  sl_limit :: jsval
  sl_windowSeconds :: jsval
  sl_resetAt :: "timestamp option"
  sl_resetInterval :: "string option"

definition getLimit :: "string \<Rightarrow> quotaMetric \<Rightarrow> quota_db \<Rightarrow> tenantQuotaLimit option" where
  "getLimit u m db = map_option (parseQuotaLimitRow u m) (quota_limits db (u, m))"

definition setLimit :: "string \<Rightarrow> setQuotaLimitInput \<Rightarrow> instant \<Rightarrow> tenantQuotaLimit quota_op" where
  "setLimit u inp now =
     check (validateQuotaMetric (sl_resource inp)) (\<lambda>resource.
     check (assertQuotaLimit (sl_limit inp)) (\<lambda>limit.
     check (if sl_windowSeconds inp \<noteq> JUndefined
            then map_sum id Some (assertPositiveInteger (sl_windowSeconds inp)) else Inr None)
       (\<lambda>windowSeconds db.
        let resetInterval = (case sl_resetInterval inp of None \<Rightarrow> ''none'' | Some s \<Rightarrow> s);
            db' = db\<lparr>quota_limits := (quota_limits db)((u, resource) \<mapsto>
              \<lparr> limit_amount = limit, window_seconds = windowSeconds, reset_at = sl_resetAt inp,
                reset_interval = Some resetInterval, limit_updated_at = now \<rparr>)\<rparr>
        in if resetInterval \<notin> {''none'', ''daily'', ''monthly''} then (Inl CheckConstraintFailed, db)
           else case getLimit u resource db' of
             None \<Rightarrow> (Inl (PlainError ''Failed to retrieve set quota limit for resource''), db')
           | Some lim \<Rightarrow> (Inr lim, db'))))"

definition listLimits :: "string \<Rightarrow> quota_db \<Rightarrow> tenantQuotaLimit list" where
  "listLimits u db = List.map_filter (\<lambda>m. getLimit u m db) CORE_QUOTA_METRICS"

section \<open>Window resets\<close>

text \<open>The loop \<open>while (next <= now) next = next + step\<close>; \<open>step\<close> is positive where it is used.\<close>

function advanceBy :: "int \<Rightarrow> instant \<Rightarrow> instant \<Rightarrow> instant" where
  "advanceBy step now nxt =
     (if nxt \<le> now \<and> 0 < step then advanceBy step now (nxt + step) else nxt)"
  by pat_completeness auto
termination
  by (relation "measure (\<lambda>(step, now, nxt). nat (now + 1 - nxt))") auto

function advanceMonthly :: "instant \<Rightarrow> instant \<Rightarrow> instant" where
  "advanceMonthly now nxt =
     (if nxt \<le> now then advanceMonthly now (advanceUtcMonth nxt) else nxt)"
  by pat_completeness auto
termination
proof (relation "measure (\<lambda>(now, nxt). nat (now + 1 - nxt))")
  fix now nxt :: instant
  assume "nxt \<le> now"
  then show "((now, advanceUtcMonth nxt), now, nxt) \<in> measure (\<lambda>(now, nxt). nat (now + 1 - nxt))"
    using advanceUtcMonth_gt[of nxt] by auto
qed simp

declare advanceBy.simps [simp del] advanceMonthly.simps [simp del]

definition advanceResetAt :: "timestamp \<Rightarrow> limit_row \<Rightarrow> instant \<Rightarrow> quotaError + instant option" where
  "advanceResetAt currentResetAtIso row now =
     (case currentResetAtIso of
        NonIso _ _ \<Rightarrow> Inl DatabaseCorrupted
      | Iso d \<Rightarrow>
          if reset_interval row = Some ''daily'' then Inr (Some (advanceBy (86400 * 1000) now d))
          else if reset_interval row = Some ''monthly'' then Inr (Some (advanceMonthly now d))
          else (case window_seconds row of
                  None \<Rightarrow> Inr None
                | Some w \<Rightarrow> if w > 0 then Inr (Some (advanceBy (w * 1000) now d)) else Inr None))"

section \<open>Usage\<close>

definition usedAmount :: "string \<Rightarrow> quotaMetric \<Rightarrow> quota_db \<Rightarrow> int" where
  "usedAmount u m db = (case quota_usage db (u, m) of None \<Rightarrow> 0 | Some r \<Rightarrow> used_amount r)"

text \<open>\<open>SELECT SUM(amount) \<dots> WHERE status = 'reserved' AND expires_at > now\<close>.\<close>

definition active :: "string \<Rightarrow> quotaMetric \<Rightarrow> instant \<Rightarrow> reservation \<Rightarrow> bool" where
  "active u m now r \<longleftrightarrow> r_user r = u \<and> r_resource r = m \<and> r_status r = Reserved \<and> r_expiresAt r > now"

definition reservedSum :: "string \<Rightarrow> quotaMetric \<Rightarrow> instant \<Rightarrow> quota_db \<Rightarrow> int" where
  "reservedSum u m now db = sum_list (map r_amount (filter (active u m now) (quota_reservations db)))"

definition setUsed :: "string \<Rightarrow> quotaMetric \<Rightarrow> int \<Rightarrow> instant \<Rightarrow> quota_db \<Rightarrow> quota_db" where
  "setUsed u m amount now db =
     db\<lparr>quota_usage := (quota_usage db)((u, m) \<mapsto> \<lparr> used_amount = amount, usage_updated_at = now \<rparr>)\<rparr>"

text \<open>\<open>INSERT \<dots> ON CONFLICT DO UPDATE SET used_amount = used_amount + excluded\<close>.\<close>

definition addUsed :: "string \<Rightarrow> quotaMetric \<Rightarrow> int \<Rightarrow> instant \<Rightarrow> quota_db \<Rightarrow> quota_db" where
  "addUsed u m amount now db = setUsed u m (usedAmount u m db + amount) now db"

text \<open>The three writes of a lazy window reset, before \<open>reset_at\<close> is advanced.\<close>

definition resetWindow :: "string \<Rightarrow> quotaMetric \<Rightarrow> instant \<Rightarrow> quota_db \<Rightarrow> quota_db" where
  "resetWindow u m now db =
     (let db1 = setUsed u m 0 now db;
          db2 = db1\<lparr>quota_reservations :=
            tbl_update (\<lambda>r. r_user r = u \<and> r_resource r = m \<and> r_status r = Reserved)
              (\<lambda>r. r\<lparr>r_status := Expired\<rparr>) (quota_reservations db1)\<rparr>
      in db2\<lparr>quota_bundles :=
            tbl_update (\<lambda>b. b_user b = u \<and> b_status b = Reserved)
              (\<lambda>b. b\<lparr>b_status := Expired\<rparr>) (quota_bundles db2)\<rparr>)"

definition usageSummary ::
  "string \<Rightarrow> quotaMetric \<Rightarrow> instant \<Rightarrow> int \<Rightarrow> timestamp option \<Rightarrow> quota_db \<Rightarrow> quotaUsageSummary" where
  "usageSummary u m now limit resetAt db =
     (let used = usedAmount u m db; reserved = reservedSum u m now db;
          isUnlimited = limit < 0;
          remaining = (if isUnlimited then -1 else max 0 (limit - used - reserved));
          allowed = (if isUnlimited then True else limit > 0 \<and> remaining > 0)
      in \<lparr> us_userId = u, us_resource = m, us_limit = limit, us_used = used,
           us_reserved = reserved, us_remaining = remaining, us_allowed = allowed,
           us_resetAt = resetAt \<rparr>)"

definition getUsageInternal :: "string \<Rightarrow> quotaMetric \<Rightarrow> instant \<Rightarrow> quotaUsageSummary quota_op" where
  "getUsageInternal u m now db =
     (case quota_limits db (u, m) of
        None \<Rightarrow> (Inr (usageSummary u m now 0 None db), db)
      | Some row \<Rightarrow>
         (case reset_at row of
            None \<Rightarrow> (Inr (usageSummary u m now (limit_amount row) None db), db)
          | Some (NonIso s d) \<Rightarrow> (Inl DatabaseCorrupted, db)
          | Some (Iso t) \<Rightarrow>
             if t \<le> now then
               (let db1 = resetWindow u m now db
                in case advanceResetAt (Iso t) row now of
                     Inl e \<Rightarrow> (Inl e, db1)
                   | Inr nextReset \<Rightarrow>
                       (let r' = map_option Iso nextReset;
                            db2 = db1\<lparr>quota_limits := (quota_limits db1)((u, m) \<mapsto>
                                     row\<lparr>reset_at := r', limit_updated_at := now\<rparr>)\<rparr>
                        in (Inr (usageSummary u m now (limit_amount row) r' db2), db2)))
             else (Inr (usageSummary u m now (limit_amount row) (Some (Iso t)) db), db)))"

section \<open>Adjusting usage directly\<close>

definition adjustUsage :: "string \<Rightarrow> jsval \<Rightarrow> jsval \<Rightarrow> instant \<Rightarrow> quotaUsageSummary quota_op" where
  "adjustUsage u resource0 delta0 now =
     check (validateQuotaMetric resource0) (\<lambda>resource.
     check (case delta0 of
              JNumber (Num d) \<Rightarrow> if isSafeInteger (Num d) then Inr d
                else Inl (ValidationError ''delta must be a safe integer'')
            | _ \<Rightarrow> Inl (ValidationError ''delta must be a safe integer'')) (\<lambda>delta.
     withImmediateTransactionSync (
       seq (getUsageInternal u resource now) (\<lambda>usage db.
         if delta > 0 then
           (if us_limit usage \<ge> 0 \<and> us_remaining usage < delta
            then (Inl (QuotaExceededError resource delta (us_remaining usage)), db)
            else getUsageInternal u resource now (addUsed u resource delta now db))
         else if delta < 0 then
           getUsageInternal u resource now
             (setUsed u resource (max 0 (us_used usage - \<bar>delta\<bar>)) now db)
         else getUsageInternal u resource now db))))"

definition decrementUsage :: "string \<Rightarrow> jsval \<Rightarrow> jsval \<Rightarrow> instant \<Rightarrow> quotaUsageSummary quota_op" where
  "decrementUsage u resource0 amount0 now =
     check (validateQuotaMetric resource0) (\<lambda>metric.
     check (assertNonNegativeInteger amount0) (\<lambda>nonNeg.
       adjustUsage u (JString (metric_name metric)) (JNumber (Num (- nonNeg))) now))"

definition setBaselineUsage :: "string \<Rightarrow> jsval \<Rightarrow> jsval \<Rightarrow> instant \<Rightarrow> quotaUsageSummary quota_op" where
  "setBaselineUsage u resource0 amount0 now =
     check (validateQuotaMetric resource0) (\<lambda>metric.
     check (assertNonNegativeInteger amount0) (\<lambda>nonNeg.
     withImmediateTransactionSync (\<lambda>db.
       getUsageInternal u metric now (setUsed u metric nonNeg now db))))"

definition getUsage :: "string \<Rightarrow> jsval \<Rightarrow> instant \<Rightarrow> quotaUsageSummary quota_op" where
  "getUsage u resource0 now =
     check (validateQuotaMetric resource0) (\<lambda>metric. getUsageInternal u metric now)"

fun usagesOf :: "string \<Rightarrow> quotaMetric list \<Rightarrow> instant \<Rightarrow> (quotaMetric \<times> quotaUsageSummary) list quota_op" where
  "usagesOf u [] now db = (Inr [], db)"
| "usagesOf u (m # ms) now db =
     seq (getUsageInternal u m now) (\<lambda>s. seq (usagesOf u ms now) (\<lambda>rest db'. (Inr ((m, s) # rest), db'))) db"

definition getAllUsages :: "string \<Rightarrow> instant \<Rightarrow> (quotaMetric \<times> quotaUsageSummary) list quota_op" where
  "getAllUsages u now = usagesOf u CORE_QUOTA_METRICS now"

definition directConsume :: "string \<Rightarrow> jsval \<Rightarrow> jsval \<Rightarrow> instant \<Rightarrow> quotaUsageSummary quota_op" where
  "directConsume u resource0 amount0 now =
     check (validateQuotaMetric resource0) (\<lambda>resource.
     check (assertPositiveInteger amount0) (\<lambda>amount.
     withImmediateTransactionSync (
       seq (getUsageInternal u resource now) (\<lambda>usage db.
         if us_limit usage \<ge> 0 \<and> us_remaining usage < amount
         then (Inl (QuotaExceededError resource amount (us_remaining usage)), db)
         else getUsageInternal u resource now (addUsed u resource amount now db)))))"

section \<open>Single reservations\<close>

definition findReservation :: "string \<Rightarrow> string \<Rightarrow> quota_db \<Rightarrow> reservation option" where
  "findReservation u i db = tbl_get (\<lambda>r. r_id r = i \<and> r_user r = u) (quota_reservations db)"

text \<open>\<open>INSERT INTO quota_reservations\<close>: the primary key must be new.\<close>

definition insertReservation :: "reservation \<Rightarrow> unit quota_op" where
  "insertReservation r db =
     (if \<exists>x \<in> set (quota_reservations db). r_id x = r_id r then (Inl UniqueConstraintFailed, db)
      else (Inr (), db\<lparr>quota_reservations := quota_reservations db @ [r]\<rparr>))"

definition listReservations ::
  "string \<Rightarrow> string option \<Rightarrow> string option \<Rightarrow> nat option \<Rightarrow> nat option \<Rightarrow> quota_db \<Rightarrow> reservation list" where
  "listReservations u status resource limit offset db =
     (let rows = filter (\<lambda>r. r_user r = u
            \<and> (opt_truthy status \<longrightarrow> status = Some (status_name (r_status r)))
            \<and> (opt_truthy resource \<longrightarrow> resource = Some (metric_name (r_resource r))))
            (quota_reservations db);
          sorted = sort_key (\<lambda>r. - r_createdAt r) rows
      in case limit of
           None \<Rightarrow> sorted
         | Some l \<Rightarrow> if l = 0 then sorted
             else take l (case offset of None \<Rightarrow> sorted | Some k \<Rightarrow> drop k sorted))"

definition optionalPositive :: "jsval \<Rightarrow> int \<Rightarrow> quotaError + int" where
  "optionalPositive v dflt = (if v \<noteq> JUndefined then assertPositiveInteger v else Inr dflt)"

definition reserve ::
  "string \<Rightarrow> jsval \<Rightarrow> jsval \<Rightarrow> jsval \<Rightarrow> string \<Rightarrow> instant \<Rightarrow> reservation quota_op" where
  "reserve u resource0 amount0 ttl0 reservationId now =
     check (validateQuotaMetric resource0) (\<lambda>resource.
     check (assertPositiveInteger amount0) (\<lambda>amount.
     check (optionalPositive ttl0 300) (\<lambda>ttlSeconds.
     withImmediateTransactionSync (
       seq (getUsageInternal u resource now) (\<lambda>usage db.
         if us_limit usage \<ge> 0 \<and> us_remaining usage < amount
         then (Inl (QuotaExceededError resource amount (us_remaining usage)), db)
         else
           seq (insertReservation
              \<lparr> r_id = reservationId, r_user = u, r_bundleId = None, r_deliveryId = None,
                r_resource = resource, r_amount = amount, r_status = Reserved,
                r_committedAmount = None, r_expiresAt = now + ttlSeconds * 1000,
                r_createdAt = now, r_settledAt = None \<rparr>)
             (\<lambda>_ db'. case findReservation u reservationId db' of
                None \<Rightarrow> (Inl (PlainError ''Failed to retrieve newly created reservation''), db')
              | Some created \<Rightarrow> (Inr created, db')) db)))))"

text \<open>\<open>UPDATE quota_reservations SET \<dots> WHERE id = ? AND user_id = ? AND status = 'reserved'\<close>.\<close>

definition updateReserved ::
  "string \<Rightarrow> string \<Rightarrow> (reservation \<Rightarrow> reservation) \<Rightarrow> quota_db \<Rightarrow> quota_db" where
  "updateReserved u i f db =
     db\<lparr>quota_reservations :=
       tbl_update (\<lambda>r. r_id r = i \<and> r_user r = u \<and> r_status r = Reserved) f (quota_reservations db)\<rparr>"

text \<open>The end of \<open>commit\<close>: the reservation is settled, usage incremented, both read back.\<close>

definition commitActual ::
  "string \<Rightarrow> string \<Rightarrow> quotaMetric \<Rightarrow> instant \<Rightarrow> int \<Rightarrow> (reservation \<times> quotaUsageSummary) quota_op" where
  "commitActual u reservationId resource now actualAmount db =
     (let db1 = updateReserved u reservationId
            (\<lambda>r. r\<lparr>r_status := Committed, r_committedAmount := Some actualAmount,
                   r_settledAt := Some now\<rparr>) db;
          db2 = addUsed u resource actualAmount now db1
      in case findReservation u reservationId db2 of
           None \<Rightarrow> (Inl (PlainError ''Failed to retrieve updated reservation''), db2)
         | Some updated \<Rightarrow>
             seq (getUsageInternal u resource now)
               (\<lambda>usage db3. (Inr (updated, usage), db3)) db2)"

definition commit ::
  "string \<Rightarrow> jsval \<Rightarrow> jsval \<Rightarrow> instant \<Rightarrow> (reservation \<times> quotaUsageSummary) quota_op" where
  "commit u reservationId0 actualAmount0 now =
     check (validateReservationId reservationId0) (\<lambda>reservationId.
     withImmediateTransactionSync (\<lambda>db.
       case findReservation u reservationId db of
         None \<Rightarrow> (Inl (InvalidReservationError ''Reservation not found''), db)
       | Some rsv \<Rightarrow>
          if r_status rsv \<noteq> Reserved
          then (Inl (ReservationSettledError (status_name (r_status rsv))), db)
          else if r_expiresAt rsv \<le> now
          then (Inl (ReservationSettledError ''expired''),
                updateReserved u reservationId (\<lambda>r. r\<lparr>r_status := Expired\<rparr>) db)
          else
            check (if actualAmount0 \<noteq> JUndefined then assertNonNegativeInteger actualAmount0
                   else Inr (r_amount rsv))
              (commitActual u reservationId (r_resource rsv) now) db))"

definition release :: "string \<Rightarrow> jsval \<Rightarrow> instant \<Rightarrow> reservation quota_op" where
  "release u reservationId0 now =
     check (validateReservationId reservationId0) (\<lambda>reservationId.
     withImmediateTransactionSync (\<lambda>db.
       case findReservation u reservationId db of
         None \<Rightarrow> (Inl (InvalidReservationError ''Reservation not found''), db)
       | Some rsv \<Rightarrow>
          if r_status rsv \<noteq> Reserved
          then (Inl (ReservationSettledError (status_name (r_status rsv))), db)
          else
            (let db1 = updateReserved u reservationId
                   (\<lambda>r. r\<lparr>r_status := Released, r_settledAt := Some now\<rparr>) db
             in case findReservation u reservationId db1 of
                  None \<Rightarrow> (Inl (PlainError ''Failed to retrieve released reservation''), db1)
                | Some updated \<Rightarrow> (Inr updated, db1))))"

definition stale :: "string \<Rightarrow> instant \<Rightarrow> reservation \<Rightarrow> bool" where
  "stale u now r \<longleftrightarrow> r_user r = u \<and> r_status r = Reserved \<and> r_expiresAt r \<le> now"

definition expireStaleReservations :: "string \<Rightarrow> instant \<Rightarrow> (nat \<times> string list) quota_op" where
  "expireStaleReservations u now =
     withImmediateTransactionSync (\<lambda>db.
       let staleRows = filter (stale u now) (quota_reservations db); ids = map r_id staleRows
       in if staleRows = [] then (Inr (0, []), db)
          else
            (let db1 = db\<lparr>quota_reservations :=
                   tbl_update (\<lambda>r. r_id r \<in> set ids \<and> r_user r = u \<and> r_status r = Reserved)
                     (\<lambda>r. r\<lparr>r_status := Expired\<rparr>) (quota_reservations db)\<rparr>;
                 db2 = db1\<lparr>quota_bundles :=
                   tbl_update (\<lambda>b. b_user b = u \<and> b_status b = Reserved \<and> b_expiresAt b \<le> now)
                     (\<lambda>b. b\<lparr>b_status := Expired\<rparr>) (quota_bundles db1)\<rparr>
             in (Inr (length ids, ids), db2)))"

end
