(* ===== verification/Quota_Bundles.thy ===== *)
theory Quota_Bundles
  imports Quota_Ledger
begin

text \<open>
  The multi-metric bundles of the quota ledger: one row of \<open>quota_bundles\<close> and three linked
  rows of \<open>quota_reservations\<close> (turns, messages, tokens) per delivery, reserved before a turn
  runs and settled after it. The operations are those of the second half of
  \<open>quota-ledger-repo.ts\<close>.
\<close>

section \<open>Reading bundles\<close>

definition findBundleById :: "string \<Rightarrow> string \<Rightarrow> quota_db \<Rightarrow> quotaBundle option" where
  "findBundleById u i db = tbl_get (\<lambda>b. b_id b = i \<and> b_user b = u) (quota_bundles db)"

definition findBundleByDeliveryId :: "string \<Rightarrow> string \<Rightarrow> quota_db \<Rightarrow> quotaBundle option" where
  "findBundleByDeliveryId u d db = tbl_get (\<lambda>b. b_deliveryId b = d \<and> b_user b = u) (quota_bundles db)"

definition getLastCommittedTokens :: "string \<Rightarrow> string \<Rightarrow> quota_db \<Rightarrow> int" where
  "getLastCommittedTokens u sessionId db =
     (if js_trim sessionId = [] then 0
      else (case sort_key (\<lambda>b. - (case b_settledAt b of None \<Rightarrow> b_createdAt b | Some t \<Rightarrow> t))
                (sort_key (\<lambda>b. - b_createdAt b)
                  (filter (\<lambda>b. b_user b = u \<and> b_sessionId b = js_trim sessionId
                       \<and> b_status b = Committed
                       \<and> (case b_tokensCommitted b of None \<Rightarrow> False | Some n \<Rightarrow> n > 0))
                     (quota_bundles db))) of
              [] \<Rightarrow> 0
            | b # _ \<Rightarrow> (case b_tokensCommitted b of None \<Rightarrow> 0 | Some n \<Rightarrow> n)))"

section \<open>Reserving\<close>

record reserveQuotaBundleInput =
  rb_deliveryId :: string
  rb_sessionId :: string
  rb_turns :: jsval
  rb_messages :: jsval
  rb_tokens :: jsval
  rb_isEstimateTokens :: bool
  rb_ttlSeconds :: jsval
  rb_requestHash :: "string option"

text \<open>The identifiers a fresh reservation draws: the bundle's and its three reservations'.\<close>

record bundleIds =
  bundleId :: string
  resTurnsId :: string
  resMessagesId :: string
  resTokensId :: string

definition insertBundle :: "quotaBundle \<Rightarrow> unit quota_op" where
  "insertBundle b db =
     (if \<exists>x \<in> set (quota_bundles db). b_id x = b_id b
           \<or> (b_user x = b_user b \<and> b_deliveryId x = b_deliveryId b)
      then (Inl UniqueConstraintFailed, db)
      else (Inr (), db\<lparr>quota_bundles := quota_bundles db @ [b]\<rparr>))"

text \<open>A quota check of one metric: throws when a limit is set and too little remains.\<close>

definition requireRemaining :: "string \<Rightarrow> quotaMetric \<Rightarrow> int \<Rightarrow> instant \<Rightarrow> unit quota_op" where
  "requireRemaining u m amount now =
     seq (getUsageInternal u m now) (\<lambda>usage db.
       if us_limit usage \<ge> 0 \<and> us_remaining usage < amount
       then (Inl (QuotaExceededError m amount (us_remaining usage)), db) else (Inr (), db))"

definition linkedReservation ::
  "string \<Rightarrow> string \<Rightarrow> string \<Rightarrow> string \<Rightarrow> quotaMetric \<Rightarrow> int \<Rightarrow> instant \<Rightarrow> instant \<Rightarrow> reservation" where
  "linkedReservation i u bId deliveryId m amount expiresAt now =
     \<lparr> r_id = i, r_user = u, r_bundleId = Some bId, r_deliveryId = Some deliveryId,
       r_resource = m, r_amount = amount, r_status = Reserved, r_committedAmount = None,
       r_expiresAt = expiresAt, r_createdAt = now, r_settledAt = None \<rparr>"

text \<open>
  The fresh branch: the three metrics are checked, the token limit must exist even for
  zero tokens, then the bundle and its three reservations are inserted.
\<close>

definition reserveFreshBundle ::
  "string \<Rightarrow> reserveQuotaBundleInput \<Rightarrow> string \<Rightarrow> int \<Rightarrow> int \<Rightarrow> int \<Rightarrow> instant \<Rightarrow> bundleIds \<Rightarrow> instant
   \<Rightarrow> quotaBundle quota_op" where
  "reserveFreshBundle u inp requestHash turns messages tokens expiresAt ids now =
     seq (requireRemaining u Turns turns now) (\<lambda>_.
     seq (requireRemaining u Messages messages now) (\<lambda>_.
     seq (\<lambda>db. if quota_limits db (u, Tokens) = None
               then (Inl (QuotaExceededError Tokens tokens 0), db) else (Inr (), db)) (\<lambda>_.
     seq (requireRemaining u Tokens tokens now) (\<lambda>_.
     seq (insertBundle
        \<lparr> b_id = bundleId ids, b_user = u, b_deliveryId = rb_deliveryId inp,
          b_sessionId = rb_sessionId inp, b_requestHash = requestHash, b_status = Reserved,
          b_turns = turns, b_messages = messages, b_tokens = tokens,
          b_isEstimateTokens = rb_isEstimateTokens inp, b_turnsCommitted = None,
          b_messagesCommitted = None, b_tokensCommitted = None, b_expiresAt = expiresAt,
          b_createdAt = now, b_settledAt = None \<rparr>) (\<lambda>_.
     seq (insertReservation (linkedReservation (resTurnsId ids) u (bundleId ids)
            (rb_deliveryId inp) Turns turns expiresAt now)) (\<lambda>_.
     seq (insertReservation (linkedReservation (resMessagesId ids) u (bundleId ids)
            (rb_deliveryId inp) Messages messages expiresAt now)) (\<lambda>_.
     seq (insertReservation (linkedReservation (resTokensId ids) u (bundleId ids)
            (rb_deliveryId inp) Tokens tokens expiresAt now)) (\<lambda>_ db.
       case findBundleById u (bundleId ids) db of
         None \<Rightarrow> (Inl (PlainError ''Failed to retrieve newly created quota bundle''), db)
       | Some created \<Rightarrow> (Inr created, db)))))))))"

definition reserveBundle ::
  "(string \<Rightarrow> string) \<Rightarrow> string \<Rightarrow> reserveQuotaBundleInput \<Rightarrow> bundleIds \<Rightarrow> instant \<Rightarrow> quotaBundle quota_op" where
  "reserveBundle sha256 u inp ids now =
     check (assertPositiveInteger (rb_turns inp)) (\<lambda>turns.
     check (assertPositiveInteger (rb_messages inp)) (\<lambda>messages.
     check (assertNonNegativeInteger (rb_tokens inp)) (\<lambda>tokens.
     check (optionalPositive (rb_ttlSeconds inp) 2100) (\<lambda>ttlSeconds.
     check (case rb_requestHash inp of
              Some h \<Rightarrow> Inr h
            | None \<Rightarrow> computeCanonicalQuotaRequestHash sha256
                \<lparr> cq_userId = u, cq_sessionId = rb_sessionId inp, cq_deliveryId = rb_deliveryId inp,
                  cq_turns = JNumber (Num turns), cq_messages = JNumber (Num messages),
                  cq_tokens = JNumber (Num tokens), cq_isEstimateTokens = rb_isEstimateTokens inp \<rparr>)
       (\<lambda>requestHash.
     withImmediateTransactionSync (\<lambda>db.
       let expiresAt = now + ttlSeconds * 1000;
           fresh = reserveFreshBundle u inp requestHash turns messages tokens expiresAt ids now
       in case findBundleByDeliveryId u (rb_deliveryId inp) db of
            None \<Rightarrow> fresh db
          | Some existing \<Rightarrow>
              if b_requestHash existing \<noteq> requestHash
              then (Inl (IdempotencyConflictError (rb_deliveryId inp)), db)
              else if b_status existing = Committed then (Inr existing, db)
              else if b_status existing = Reserved \<and> b_expiresAt existing > now then (Inr existing, db)
              else if b_status existing = Released
              then (Inl (ReservationSettledError ''released''), db)
              else if b_status existing = Expired
                   \<or> (b_status existing = Reserved \<and> b_expiresAt existing \<le> now)
              then (Inl (ReservationSettledError ''expired''), db)
              else fresh db))))))"

section \<open>Committing\<close>

fun object_entries :: "jsval \<Rightarrow> (string \<times> jsval) list option" where
  "object_entries (JObject kvs) = Some kvs"
| "object_entries _ = None"

definition requiredKeys :: "string list" where
  "requiredKeys = [''turns'', ''messages'', ''tokens'']"

text \<open>The shape checks and the three asserts on \<open>input.actualUsage\<close>.\<close>

definition parseActualUsage :: "jsval \<Rightarrow> quotaError + int \<times> int \<times> int" where
  "parseActualUsage actualUsage =
     (case object_entries actualUsage of
        None \<Rightarrow> Inl (ValidationError ''actualUsage object with turns, messages, tokens is required'')
      | Some kvs \<Rightarrow>
          (case find (\<lambda>k. k \<notin> set (map fst kvs)) requiredKeys of
             Some k \<Rightarrow> Inl (ValidationError (''actualUsage.'' @ k @ '' is required''))
           | None \<Rightarrow>
          (case find (\<lambda>k. k \<notin> set requiredKeys) (map fst kvs) of
             Some k \<Rightarrow> Inl (ValidationError (''Unexpected key '' @ k @ '' in actualUsage''))
           | None \<Rightarrow>
          (case assertPositiveInteger (the (map_of kvs ''turns'')) of Inl e \<Rightarrow> Inl e | Inr turns \<Rightarrow>
          (case assertPositiveInteger (the (map_of kvs ''messages'')) of Inl e \<Rightarrow> Inl e | Inr messages \<Rightarrow>
          (case assertNonNegativeInteger (the (map_of kvs ''tokens'')) of Inl e \<Rightarrow> Inl e | Inr tokens \<Rightarrow>
             Inr (turns, messages, tokens)))))))"

text \<open>
  The reservations of others that a commit counts:
  \<open>status = 'reserved' AND expires_at > ? AND bundle_id != ?\<close>. In SQL the comparison of a
  NULL \<open>bundle_id\<close> is not true, so a reservation outside every bundle is not counted.
\<close>

definition otherReserved :: "string \<Rightarrow> quotaMetric \<Rightarrow> instant \<Rightarrow> string \<Rightarrow> quota_db \<Rightarrow> int" where
  "otherReserved u m now bId db =
     sum_list (map r_amount (filter (\<lambda>r. active u m now r
        \<and> (case r_bundleId r of None \<Rightarrow> False | Some b \<Rightarrow> b \<noteq> bId)) (quota_reservations db)))"

text \<open>The loop over the metrics to check; it only reads.\<close>

fun checkCommitMetrics ::
  "string \<Rightarrow> quotaBundle \<Rightarrow> (quotaMetric \<times> int) list \<Rightarrow> instant \<Rightarrow> quota_db \<Rightarrow> quotaError + unit" where
  "checkCommitMetrics u bnd [] now db = Inr ()"
| "checkCommitMetrics u bnd ((resource, actualAmount) # rest) now db =
     (case quota_limits db (u, resource) of
        None \<Rightarrow> Inl (QuotaExceededError resource actualAmount 0)
      | Some limitRow \<Rightarrow>
         (let limit = limit_amount limitRow;
              used = usedAmount u resource db;
              other = otherReserved u resource now (b_id bnd) db;
              availableForCommit = max 0 (limit - used - other)
          in if limit \<ge> 0 \<and> actualAmount > availableForCommit
                \<and> \<not> (resource = Tokens \<and> b_isEstimateTokens bnd)
             then Inl (QuotaExceededError resource actualAmount availableForCommit)
             else checkCommitMetrics u bnd rest now db))"

definition linkedReserved :: "string \<Rightarrow> string \<Rightarrow> reservation \<Rightarrow> bool" where
  "linkedReserved u bId r \<longleftrightarrow> r_bundleId r = Some bId \<and> r_user r = u \<and> r_status r = Reserved"

definition committedFor :: "int \<Rightarrow> int \<Rightarrow> int \<Rightarrow> reservation \<Rightarrow> int" where
  "committedFor turns messages tokens r =
     (case r_resource r of Turns \<Rightarrow> turns | Messages \<Rightarrow> messages | Tokens \<Rightarrow> tokens | _ \<Rightarrow> r_amount r)"

text \<open>The writes of a commit, once every check has passed.\<close>

definition settleCommitted ::
  "string \<Rightarrow> string \<Rightarrow> int \<Rightarrow> int \<Rightarrow> int \<Rightarrow> instant \<Rightarrow> quotaBundle quota_op" where
  "settleCommitted u bId turns messages tokens now db =
     (let isRow = (\<lambda>b. b_id b = bId \<and> b_user b = u \<and> b_status b = Reserved) in
      if tbl_changes isRow (quota_bundles db) = 0
      then (Inl (ReservationSettledError ''already settled or concurrent conflict''), db)
      else
        (let db1 = db\<lparr>quota_bundles := tbl_update isRow
               (\<lambda>b. b\<lparr>b_status := Committed, b_turnsCommitted := Some turns,
                      b_messagesCommitted := Some messages, b_tokensCommitted := Some tokens,
                      b_settledAt := Some now\<rparr>) (quota_bundles db)\<rparr>;
             db2 = db1\<lparr>quota_reservations := tbl_update (linkedReserved u bId)
               (\<lambda>r. r\<lparr>r_status := Committed,
                      r_committedAmount := Some (committedFor turns messages tokens r),
                      r_settledAt := Some now\<rparr>) (quota_reservations db1)\<rparr>
         in if tbl_changes (linkedReserved u bId) (quota_reservations db1) \<noteq> 3
            then (Inl (PlainError ''Database corruption: expected quota_reservations count mismatch''), db2)
            else
              (let db3 = addUsed u Tokens tokens now
                     (addUsed u Messages messages now (addUsed u Turns turns now db2))
               in case findBundleById u bId db3 of
                    None \<Rightarrow> (Inl (PlainError ''Failed to retrieve updated quota bundle''), db3)
                  | Some updated \<Rightarrow> (Inr updated, db3))))"

definition commitBundleInTransactionSync ::
  "string \<Rightarrow> jsval \<Rightarrow> jsval \<Rightarrow> instant \<Rightarrow> quotaBundle quota_op" where
  "commitBundleInTransactionSync u bundleId0 actualUsage now =
     check (validateBundleId bundleId0) (\<lambda>bId db.
       case findBundleById u bId db of
         None \<Rightarrow> (Inl (InvalidReservationError ''Quota bundle not found''), db)
       | Some bnd \<Rightarrow>
          if b_status bnd = Committed then (Inr bnd, db)
          else if b_status bnd \<noteq> Reserved
          then (Inl (ReservationSettledError (status_name (b_status bnd))), db)
          else
            check (parseActualUsage actualUsage) (\<lambda>(turns, messages, tokens) db.
              if turns \<noteq> b_turns bnd
              then (Inl (ValidationError ''Actual turns must match reserved bundle amount''), db)
              else if messages \<noteq> b_messages bnd
              then (Inl (ValidationError ''Actual messages must match reserved bundle amount''), db)
              else
                check (checkCommitMetrics u bnd
                         [(Turns, turns), (Messages, messages), (Tokens, tokens)] now db)
                  (\<lambda>_. settleCommitted u bId turns messages tokens now) db) db)"

definition commitBundle :: "string \<Rightarrow> jsval \<Rightarrow> jsval \<Rightarrow> instant \<Rightarrow> quotaBundle quota_op" where
  "commitBundle u bundleId0 actualUsage now =
     withImmediateTransactionSync (commitBundleInTransactionSync u bundleId0 actualUsage now)"

section \<open>Releasing and renewing\<close>

definition releaseBundleInTransactionSync :: "string \<Rightarrow> jsval \<Rightarrow> instant \<Rightarrow> quotaBundle quota_op" where
  "releaseBundleInTransactionSync u bundleId0 now =
     check (validateBundleId bundleId0) (\<lambda>bId db.
       case findBundleById u bId db of
         None \<Rightarrow> (Inl (InvalidReservationError ''Quota bundle not found''), db)
       | Some bnd \<Rightarrow>
          if b_status bnd = Committed then (Inr bnd, db)
          else if b_status bnd = Released \<or> b_status bnd = Expired then (Inr bnd, db)
          else
            (let db1 = db\<lparr>quota_bundles :=
                   tbl_update (\<lambda>b. b_id b = bId \<and> b_user b = u \<and> b_status b = Reserved)
                     (\<lambda>b. b\<lparr>b_status := Released, b_settledAt := Some now\<rparr>) (quota_bundles db)\<rparr>;
                 db2 = db1\<lparr>quota_reservations :=
                   tbl_update (linkedReserved u bId)
                     (\<lambda>r. r\<lparr>r_status := Released, r_settledAt := Some now\<rparr>) (quota_reservations db1)\<rparr>
             in case findBundleById u bId db2 of
                  None \<Rightarrow> (Inl (PlainError ''Failed to retrieve released quota bundle''), db2)
                | Some updated \<Rightarrow> (Inr updated, db2)))"

definition releaseBundle :: "string \<Rightarrow> jsval \<Rightarrow> instant \<Rightarrow> quotaBundle quota_op" where
  "releaseBundle u bundleId0 now =
     withImmediateTransactionSync (releaseBundleInTransactionSync u bundleId0 now)"

definition renewBundle :: "string \<Rightarrow> jsval \<Rightarrow> jsval \<Rightarrow> instant \<Rightarrow> quotaBundle quota_op" where
  "renewBundle u bundleId0 extendSeconds0 now =
     check (validateBundleId bundleId0) (\<lambda>bId.
     check (optionalPositive extendSeconds0 900) (\<lambda>extendSeconds.
     withImmediateTransactionSync (\<lambda>db.
       case findBundleById u bId db of
         None \<Rightarrow> (Inl (InvalidReservationError ''Quota bundle not found''), db)
       | Some bnd \<Rightarrow>
          if b_status bnd \<noteq> Reserved
          then (Inl (ReservationSettledError (status_name (b_status bnd))), db)
          else
            (let expiresAt = now + extendSeconds * 1000;
                 db1 = db\<lparr>quota_bundles :=
                   tbl_update (\<lambda>b. b_id b = bId \<and> b_user b = u \<and> b_status b = Reserved)
                     (\<lambda>b. b\<lparr>b_expiresAt := expiresAt\<rparr>) (quota_bundles db)\<rparr>;
                 db2 = db1\<lparr>quota_reservations :=
                   tbl_update (linkedReserved u bId)
                     (\<lambda>r. r\<lparr>r_expiresAt := expiresAt\<rparr>) (quota_reservations db1)\<rparr>
             in case findBundleById u bId db2 of
                  None \<Rightarrow> (Inl (PlainError ''Failed to retrieve renewed quota bundle''), db2)
                | Some updated \<Rightarrow> (Inr updated, db2)))))"

end
