(* ===== verification/Quota_Invariants.thy ===== *)
theory Quota_Invariants
  imports Quota_Bundles
begin

text \<open>
  What every operation of the quota ledger guarantees of the database it leaves, as one
  relation \<open>evolves u db db'\<close>: other tenants' rows are untouched, settled reservations and
  bundles never change again, no row disappears, and well-formedness is kept. The relation is
  reflexive and transitive, holds of each elementary write, and is lifted through the
  combinators \<open>seq\<close>, \<open>check\<close> and transactions to every operation.
\<close>

named_theorems evolves_intros \<open>elementary writes and operations that evolve the ledger\<close>

section \<open>Well-formed databases\<close>

definition quota_wf :: "quota_db \<Rightarrow> bool" where
  "quota_wf db \<longleftrightarrow>
     distinct (map r_id (quota_reservations db)) \<and> distinct (map b_id (quota_bundles db)) \<and>
     distinct (map (\<lambda>b. (b_user b, b_deliveryId b)) (quota_bundles db)) \<and>
     (\<forall>r \<in> set (quota_reservations db). 0 \<le> r_amount r) \<and>
     (\<forall>u m. 0 \<le> usedAmount u m db)"

definition evolves :: "string \<Rightarrow> quota_db \<Rightarrow> quota_db \<Rightarrow> bool" where
  "evolves u db db' \<longleftrightarrow>
     (\<forall>v m. v \<noteq> u \<longrightarrow> quota_limits db' (v, m) = quota_limits db (v, m)
          \<and> quota_usage db' (v, m) = quota_usage db (v, m)) \<and>
     (\<forall>v. v \<noteq> u \<longrightarrow>
          filter (\<lambda>r. r_user r = v) (quota_reservations db') = filter (\<lambda>r. r_user r = v) (quota_reservations db)
        \<and> filter (\<lambda>b. b_user b = v) (quota_bundles db') = filter (\<lambda>b. b_user b = v) (quota_bundles db)) \<and>
     {r \<in> set (quota_reservations db). r_status r \<noteq> Reserved} \<subseteq> set (quota_reservations db') \<and>
     {b \<in> set (quota_bundles db). b_status b \<noteq> Reserved} \<subseteq> set (quota_bundles db') \<and>
     prefix (map r_id (quota_reservations db)) (map r_id (quota_reservations db')) \<and>
     prefix (map b_id (quota_bundles db)) (map b_id (quota_bundles db')) \<and>
     (quota_wf db \<longrightarrow> quota_wf db')"

definition safe :: "string \<Rightarrow> 'a quota_op \<Rightarrow> bool" where
  "safe u m \<longleftrightarrow> (\<forall>db. evolves u db (snd (m db)))"

lemma evolves_refl [simp, evolves_intros]: "evolves u db db"
  by (simp add: evolves_def)

lemma evolves_trans:
  assumes "evolves u a b" "evolves u b c"
  shows "evolves u a c"
proof -
  have "{r \<in> set (quota_reservations a). r_status r \<noteq> Reserved}
      \<subseteq> {r \<in> set (quota_reservations b). r_status r \<noteq> Reserved}"
    and "{r \<in> set (quota_bundles a). b_status r \<noteq> Reserved}
      \<subseteq> {r \<in> set (quota_bundles b). b_status r \<noteq> Reserved}"
    using assms(1) by (auto simp: evolves_def)
  with assms show ?thesis
    unfolding evolves_def by (auto intro: prefix_order.trans)
qed

section \<open>Elementary writes\<close>

lemma usedAmount_setUsed [simp]:
  "usedAmount v n (setUsed u m a now db) = (if v = u \<and> n = m then a else usedAmount v n db)"
  by (auto simp: usedAmount_def setUsed_def)

lemma setUsed_frame [simp]:
  "quota_limits (setUsed u m a now db) = quota_limits db"
  "quota_reservations (setUsed u m a now db) = quota_reservations db"
  "quota_bundles (setUsed u m a now db) = quota_bundles db"
  by (simp_all add: setUsed_def)

lemma addUsed_frame [simp]:
  "quota_limits (addUsed u m a now db) = quota_limits db"
  "quota_reservations (addUsed u m a now db) = quota_reservations db"
  "quota_bundles (addUsed u m a now db) = quota_bundles db"
  by (simp_all add: addUsed_def)

lemma usedAmount_addUsed [simp]:
  "usedAmount v n (addUsed u m a now db) = usedAmount v n db + (if v = u \<and> n = m then a else 0)"
  by (auto simp: addUsed_def)

lemma evolves_setUsed [evolves_intros]:
  "(quota_wf db \<Longrightarrow> 0 \<le> a) \<Longrightarrow> evolves u db (setUsed u m a now db)"
  by (auto simp: evolves_def quota_wf_def) (auto simp: setUsed_def)

lemma evolves_addUsed [evolves_intros]:
  "(quota_wf db \<Longrightarrow> 0 \<le> a) \<Longrightarrow> evolves u db (addUsed u m a now db)"
  unfolding addUsed_def by (rule evolves_setUsed) (auto simp: quota_wf_def)

lemma evolves_limits [evolves_intros]:
  "evolves u db (db\<lparr>quota_limits := (quota_limits db)((u, m) \<mapsto> row)\<rparr>)"
  by (auto simp: evolves_def quota_wf_def usedAmount_def)

lemma evolves_reservations:
  assumes "\<And>r. P r \<Longrightarrow> r_user r = u \<and> r_status r = Reserved"
    and "\<And>r. r_id (f r) = r_id r \<and> r_user (f r) = r_user r \<and> r_amount (f r) = r_amount r"
  shows "evolves u db (db\<lparr>quota_reservations := tbl_update P f (quota_reservations db)\<rparr>)"
proof -
  have [simp]: "map r_id (tbl_update P f rows) = map r_id rows" for rows
    by (rule map_tbl_update) (simp add: assms(2))
  have f: "filter (\<lambda>r. r_user r = v) (tbl_update P f rows) = filter (\<lambda>r. r_user r = v) rows"
    if "v \<noteq> u" for v rows
    by (rule filter_tbl_update_other) (use that assms in auto)
  have s: "{r \<in> set rows. r_status r \<noteq> Reserved} \<subseteq> set (tbl_update P f rows)" for rows
    using assms(1) by (auto simp: set_tbl_update)
  have a: "\<forall>r \<in> set (tbl_update P f rows). 0 \<le> r_amount r" if "\<forall>r \<in> set rows. 0 \<le> r_amount r" for rows
    using that assms(2) by (auto simp: set_tbl_update)
  show ?thesis
    using f s a by (auto simp: evolves_def quota_wf_def usedAmount_def)
qed

lemma evolves_bundles:
  assumes "\<And>b. P b \<Longrightarrow> b_user b = u \<and> b_status b = Reserved"
    and "\<And>b. b_id (f b) = b_id b \<and> b_user (f b) = b_user b \<and> b_deliveryId (f b) = b_deliveryId b"
  shows "evolves u db (db\<lparr>quota_bundles := tbl_update P f (quota_bundles db)\<rparr>)"
proof -
  have [simp]: "map b_id (tbl_update P f rows) = map b_id rows"
    "map (\<lambda>b. (b_user b, b_deliveryId b)) (tbl_update P f rows) = map (\<lambda>b. (b_user b, b_deliveryId b)) rows"
    for rows
    by (rule map_tbl_update; simp add: assms(2))+
  have f: "filter (\<lambda>r. b_user r = v) (tbl_update P f rows) = filter (\<lambda>r. b_user r = v) rows"
    if "v \<noteq> u" for v rows
    by (rule filter_tbl_update_other) (use that assms in auto)
  have s: "{r \<in> set rows. b_status r \<noteq> Reserved} \<subseteq> set (tbl_update P f rows)" for rows
    using assms(1) by (auto simp: set_tbl_update)
  show ?thesis
    using f s by (auto simp: evolves_def quota_wf_def usedAmount_def)
qed

lemma evolves_settle_rows:
  assumes "\<And>b. P b \<Longrightarrow> b_user b = u \<and> b_status b = Reserved"
    and "\<And>b. b_id (f b) = b_id b \<and> b_user (f b) = b_user b \<and> b_deliveryId (f b) = b_deliveryId b"
    and "\<And>r. Q r \<Longrightarrow> r_user r = u \<and> r_status r = Reserved"
    and "\<And>r. r_id (g r) = r_id r \<and> r_user (g r) = r_user r \<and> r_amount (g r) = r_amount r"
  shows "evolves u db (db\<lparr>quota_bundles := tbl_update P f (quota_bundles db),
                          quota_reservations := tbl_update Q g (quota_reservations db)\<rparr>)"
    and "evolves u db (db\<lparr>quota_reservations := tbl_update Q g (quota_reservations db),
                          quota_bundles := tbl_update P f (quota_bundles db)\<rparr>)"
proof -
  have 1: "evolves u db (db\<lparr>quota_bundles := tbl_update P f (quota_bundles db)\<rparr>)"
    using assms(1,2) by (rule evolves_bundles)
  have 2: "evolves u (db\<lparr>quota_bundles := x\<rparr>) (db\<lparr>quota_bundles := x,
      quota_reservations := tbl_update Q g (quota_reservations db)\<rparr>)" for x
    using evolves_reservations[OF assms(3,4), where db = "db\<lparr>quota_bundles := x\<rparr>"] by simp
  show "evolves u db (db\<lparr>quota_bundles := tbl_update P f (quota_bundles db),
                          quota_reservations := tbl_update Q g (quota_reservations db)\<rparr>)"
    by (rule evolves_trans[OF 1 2])
  moreover have "db\<lparr>quota_bundles := x, quota_reservations := y\<rparr>
      = db\<lparr>quota_reservations := y, quota_bundles := x\<rparr>" for x y
    by (cases db) simp
  ultimately show "evolves u db (db\<lparr>quota_reservations := tbl_update Q g (quota_reservations db),
                          quota_bundles := tbl_update P f (quota_bundles db)\<rparr>)"
    by metis
qed

lemma evolves_insertReservation:
  assumes "r_user r = u" "0 \<le> r_amount r"
  shows "evolves u db (snd (insertReservation r db))"
  using assms by (auto simp: insertReservation_def evolves_def quota_wf_def usedAmount_def)

lemma evolves_insertBundle:
  assumes "b_user b = u"
  shows "evolves u db (snd (insertBundle b db))"
  using assms by (auto simp: insertBundle_def evolves_def quota_wf_def usedAmount_def)

section \<open>Combinators\<close>

lemma safeI: "(\<And>db. evolves u db (snd (m db))) \<Longrightarrow> safe u m"
  by (simp add: safe_def)

lemma safeD: "safe u m \<Longrightarrow> evolves u db (snd (m db))"
  by (simp add: safe_def)

lemma safe_seq: "safe u m \<Longrightarrow> (\<And>x. safe u (f x)) \<Longrightarrow> safe u (seq m f)"
  unfolding safe_def seq_def
  by (auto split: prod.splits sum.splits) (metis evolves_trans snd_conv)+

lemma safe_check: "(\<And>x. r = Inr x \<Longrightarrow> safe u (f x)) \<Longrightarrow> safe u (check r f)"
  by (auto simp: safe_def check_def split: sum.splits)

lemma safe_transaction: "safe u m \<Longrightarrow> safe u (withImmediateTransactionSync m)"
  unfolding safe_def withImmediateTransactionSync_def
  by (auto split: prod.splits sum.splits) (metis snd_conv)

lemma safe_return: "safe u (\<lambda>db. (r, db))"
  by (simp add: safe_def)

lemma safe_if: "(c \<Longrightarrow> safe u a) \<Longrightarrow> (\<not> c \<Longrightarrow> safe u b) \<Longrightarrow> safe u (\<lambda>db. if c then a db else b db)"
  by (cases c) (simp_all add: safe_def)

lemma evolves_check:
  "(\<And>x. r = Inr x \<Longrightarrow> evolves u db (snd (f x db))) \<Longrightarrow> evolves u db (snd (check r f db))"
  by (cases r) (simp_all add: check_def)

lemma safe_find:
  "(\<And>x. safe u (f x)) \<Longrightarrow> safe u (\<lambda>db. case g db of None \<Rightarrow> (r, db) | Some x \<Rightarrow> f x db)"
  by (auto simp: safe_def split: option.splits)

lemma evolves_then: "evolves u db db1 \<Longrightarrow> safe u m \<Longrightarrow> evolves u db (snd (m db1))"
  by (blast intro: evolves_trans safeD)

section \<open>The operations\<close>

lemma advanceResetAt_Iso: "\<exists>n. advanceResetAt (Iso t) row now = Inr n"
  by (auto simp: advanceResetAt_def split: option.splits)

lemma evolves_resetWindow [evolves_intros]: "evolves u db (resetWindow u m now db)"
  unfolding resetWindow_def Let_def
  by (rule evolves_trans[OF evolves_trans[OF evolves_setUsed evolves_reservations] evolves_bundles]) auto

lemma safe_getUsageInternal: "safe u (getUsageInternal u m now)"
proof (rule safeI)
  fix db
  show "evolves u db (snd (getUsageInternal u m now db))"
    using evolves_trans[OF evolves_resetWindow evolves_limits]
    by (auto simp: getUsageInternal_def Let_def evolves_resetWindow
        split: option.splits timestamp.splits sum.splits)
qed

lemma safe_setLimit: "safe u (setLimit u inp now)"
  unfolding setLimit_def
  by (intro safe_check safeI) (auto simp: Let_def evolves_limits split: option.splits)

lemma safe_adjustUsage: "safe u (adjustUsage u resource0 delta0 now)"
  unfolding adjustUsage_def
  by (intro safe_check safe_transaction safe_seq safe_getUsageInternal safeI)
     (auto intro!: evolves_then[OF _ safe_getUsageInternal] evolves_addUsed evolves_setUsed)

lemma safe_decrementUsage: "safe u (decrementUsage u resource0 amount0 now)"
  unfolding decrementUsage_def by (intro safe_check safe_adjustUsage)

lemma safe_setBaselineUsage: "safe u (setBaselineUsage u resource0 amount0 now)"
  unfolding setBaselineUsage_def
  by (intro safe_check safe_transaction safeI evolves_then[OF _ safe_getUsageInternal] evolves_setUsed)
     (auto dest: assertNonNegativeInteger_Inr)

lemma safe_directConsume: "safe u (directConsume u resource0 amount0 now)"
  unfolding directConsume_def
  by (intro safe_check safe_transaction safe_seq safe_getUsageInternal safeI)
     (auto intro!: evolves_then[OF _ safe_getUsageInternal] evolves_addUsed
           dest!: assertPositiveInteger_Inr)

lemma safe_insertReservation:
  "r_user r = u \<Longrightarrow> 0 \<le> r_amount r \<Longrightarrow> safe u (insertReservation r)"
  by (intro safeI evolves_insertReservation)

lemma safe_insertBundle: "b_user b = u \<Longrightarrow> safe u (insertBundle b)"
  by (intro safeI evolves_insertBundle)

lemma safe_reserve: "safe u (reserve u resource0 amount0 ttl0 i now)"
  unfolding reserve_def
  by (intro safe_check safe_transaction safe_seq safe_getUsageInternal safe_if safe_return
        safe_insertReservation)
     (auto simp: safe_def split: option.splits dest!: assertPositiveInteger_Inr)

lemma evolves_updateReserved:
  assumes "\<And>r. r_id (f r) = r_id r \<and> r_user (f r) = r_user r \<and> r_amount (f r) = r_amount r"
  shows "evolves u db (updateReserved u i f db)"
  unfolding updateReserved_def by (rule evolves_reservations) (auto simp: assms)

lemma wf_updateReserved:
  assumes "\<And>r. r_id (f r) = r_id r \<and> r_user (f r) = r_user r \<and> r_amount (f r) = r_amount r"
  shows "quota_wf (updateReserved u i f db) \<longleftrightarrow> quota_wf db"
proof -
  have 1: "map r_id (tbl_update P f rows) = map r_id rows"
    and 2: "map r_amount (tbl_update P f rows) = map r_amount rows" for P rows
    by (rule map_tbl_update; simp add: assms)+
  have 3: "(\<forall>r \<in> set (tbl_update P f rows). 0 \<le> r_amount r) \<longleftrightarrow> (\<forall>r \<in> set rows. 0 \<le> r_amount r)" for P rows
  proof -
    have "(\<forall>r \<in> set (tbl_update P f rows). 0 \<le> r_amount r)
        \<longleftrightarrow> (\<forall>a \<in> set (map r_amount (tbl_update P f rows)). 0 \<le> a)" by simp
    also have "\<dots> \<longleftrightarrow> (\<forall>r \<in> set rows. 0 \<le> r_amount r)" unfolding 2 by simp
    finally show ?thesis .
  qed
  show ?thesis
    by (simp add: quota_wf_def updateReserved_def usedAmount_def 1 3)
qed

lemma evolves_commitActual:
  assumes a: "quota_wf db \<Longrightarrow> 0 \<le> a"
  shows "evolves u db (snd (commitActual u i m now a db))"
proof -
  have tail: "safe u (\<lambda>db2. case findReservation u i db2 of None \<Rightarrow> (Inl e, db2)
      | Some updated \<Rightarrow> seq (getUsageInternal u m now) (\<lambda>usage db3. (Inr (updated, usage), db3)) db2)"
    for e
    by (intro safe_find safe_seq safe_getUsageInternal safe_return)
  show ?thesis
    unfolding commitActual_def Let_def
    by (intro evolves_then[OF _ tail] evolves_trans[OF evolves_updateReserved evolves_addUsed] a)
       (simp_all add: wf_updateReserved)
qed

lemma safe_commit: "safe u (commit u i0 a0 now)"
proof -
  have settle: "evolves u db (snd (check
      (if a0 \<noteq> JUndefined then assertNonNegativeInteger a0 else Inr (r_amount rsv))
      (commitActual u i (r_resource rsv) now) db))"
    if "findReservation u i db = Some rsv" for i db rsv
    using that
    by (intro evolves_check evolves_commitActual)
       (auto simp: findReservation_def quota_wf_def
          dest!: tbl_get_Some assertNonNegativeInteger_Inr split: if_splits)
  show ?thesis
    unfolding commit_def
    by (intro safe_check safe_transaction safeI)
       (simp add: settle evolves_updateReserved split: option.split)
qed

lemma safe_release: "safe u (release u i0 now)"
  unfolding release_def
  by (intro safe_check safe_transaction safeI)
     (auto simp: Let_def evolves_updateReserved split: option.split)

lemma safe_expireStaleReservations: "safe u (expireStaleReservations u now)"
  unfolding expireStaleReservations_def
  by (intro safe_transaction safeI)
     (auto simp: Let_def intro!: evolves_settle_rows)

lemma safe_requireRemaining: "safe u (requireRemaining u m a now)"
  unfolding requireRemaining_def by (intro safe_seq safe_getUsageInternal safe_if safe_return)

lemma safe_reserveFreshBundle:
  assumes "0 \<le> turns" "0 \<le> messages" "0 \<le> tokens"
  shows "safe u (reserveFreshBundle u inp h turns messages tokens expiresAt ids now)"
proof -
  have last: "safe u (\<lambda>db. case findBundleById u i db of None \<Rightarrow> (Inl e, db) | Some c \<Rightarrow> (Inr c, db))"
    for i e
    by (intro safe_find safe_return)
  have limit: "safe u (\<lambda>db. if quota_limits db (u, Tokens) = None then (Inl e, db) else (Inr (), db))" for e
    by (auto simp: safe_def)
  show ?thesis
    unfolding reserveFreshBundle_def
    by (intro safe_seq safe_requireRemaining safe_insertBundle safe_insertReservation last limit)
       (use assms in \<open>simp_all add: linkedReservation_def\<close>)
qed

lemma safe_reserveBundle: "safe u (reserveBundle sha256 u inp ids now)"
proof -
  have body: "safe u (\<lambda>db. let expiresAt = e; fresh = reserveFreshBundle u inp h t m k expiresAt ids now
       in case findBundleByDeliveryId u (rb_deliveryId inp) db of
            None \<Rightarrow> fresh db
          | Some existing \<Rightarrow>
              if b_requestHash existing \<noteq> h
              then (Inl (IdempotencyConflictError (rb_deliveryId inp)), db)
              else if b_status existing = Committed then (Inr existing, db)
              else if b_status existing = Reserved \<and> b_expiresAt existing > now then (Inr existing, db)
              else if b_status existing = Released
              then (Inl (ReservationSettledError ''released''), db)
              else if b_status existing = Expired
                   \<or> (b_status existing = Reserved \<and> b_expiresAt existing \<le> now)
              then (Inl (ReservationSettledError ''expired''), db)
              else fresh db)"
    if "0 < t" "0 < m" "0 \<le> k" for t m k e h
    using safeD[OF safe_reserveFreshBundle[of t m k]] that
    by (intro safeI) (simp add: Let_def split: option.split)
  show ?thesis
    unfolding reserveBundle_def
    by (intro safe_check safe_transaction body)
       (auto dest: assertPositiveInteger_Inr assertNonNegativeInteger_Inr)
qed

lemma evolves_settle:
  assumes "0 \<le> turns" "0 \<le> messages" "0 \<le> tokens"
  shows "evolves u db (snd (settleCommitted u bId turns messages tokens now db))"
proof -
  let ?isRow = "\<lambda>b. b_id b = bId \<and> b_user b = u \<and> b_status b = Reserved"
  let ?f = "\<lambda>b. b\<lparr>b_status := Committed, b_turnsCommitted := Some turns,
                      b_messagesCommitted := Some messages, b_tokensCommitted := Some tokens,
                      b_settledAt := Some now\<rparr>"
  let ?g = "\<lambda>r. r\<lparr>r_status := Committed,
                      r_committedAmount := Some (committedFor turns messages tokens r),
                      r_settledAt := Some now\<rparr>"
  let ?db1 = "db\<lparr>quota_bundles := tbl_update ?isRow ?f (quota_bundles db)\<rparr>"
  let ?db2 = "?db1\<lparr>quota_reservations := tbl_update (linkedReserved u bId) ?g (quota_reservations ?db1)\<rparr>"
  let ?db3 = "addUsed u Tokens tokens now
                     (addUsed u Messages messages now (addUsed u Turns turns now ?db2))"
  have 1: "evolves u db ?db1" by (rule evolves_bundles) auto
  have 2: "evolves u db ?db2"
    by (rule evolves_trans[OF 1 evolves_reservations]) (auto simp: linkedReserved_def)
  have 3: "evolves u db ?db3"
    by (rule evolves_trans[OF 2 evolves_trans[OF evolves_addUsed evolves_trans[OF evolves_addUsed
            evolves_addUsed]]]) (rule assms)+
  show ?thesis
    using 1 2 3 by (auto simp: settleCommitted_def Let_def split: option.split)
qed

lemma parseActualUsage_Inr:
  "parseActualUsage v = Inr (t, m, k) \<Longrightarrow> 0 < t \<and> 0 < m \<and> 0 \<le> k"
  unfolding parseActualUsage_def
  by (simp split: option.split_asm sum.split_asm)
     (blast dest: assertPositiveInteger_Inr assertNonNegativeInteger_Inr)

lemma safe_commitBundleInTransactionSync: "safe u (commitBundleInTransactionSync u i0 a now)"
proof -
  have settle: "evolves u db (snd (check (parseActualUsage a) (\<lambda>(turns, messages, tokens) db.
              if turns \<noteq> b_turns bnd
              then (Inl (ValidationError ''Actual turns must match reserved bundle amount''), db)
              else if messages \<noteq> b_messages bnd
              then (Inl (ValidationError ''Actual messages must match reserved bundle amount''), db)
              else
                check (checkCommitMetrics u bnd
                         [(Turns, turns), (Messages, messages), (Tokens, tokens)] now db)
                  (\<lambda>_. settleCommitted u bId turns messages tokens now) db) db))" for bnd bId db
    by (rule evolves_check)
       (auto simp del: checkCommitMetrics.simps dest!: parseActualUsage_Inr
          intro!: evolves_check evolves_settle)
  show ?thesis
    unfolding commitBundleInTransactionSync_def
    by (intro safe_check safeI) (simp add: settle split: option.split del: checkCommitMetrics.simps)
qed

lemma safe_commitBundle: "safe u (commitBundle u i0 a now)"
  unfolding commitBundle_def by (intro safe_transaction safe_commitBundleInTransactionSync)

lemma safe_releaseBundleInTransactionSync: "safe u (releaseBundleInTransactionSync u i0 now)"
  unfolding releaseBundleInTransactionSync_def
  by (intro safe_check safeI)
     (auto simp: Let_def linkedReserved_def split: option.split
        intro!: evolves_settle_rows)

lemma safe_releaseBundle: "safe u (releaseBundle u i0 now)"
  unfolding releaseBundle_def by (intro safe_transaction safe_releaseBundleInTransactionSync)

lemma safe_renewBundle: "safe u (renewBundle u i0 e0 now)"
  unfolding renewBundle_def
  by (intro safe_check safe_transaction safeI)
     (auto simp: Let_def linkedReserved_def split: option.split
        intro!: evolves_settle_rows)

lemma safe_usagesOf: "safe u (usagesOf u ms now)"
proof (induction ms)
  case (Cons m ms)
  have "usagesOf u (m # ms) now = seq (getUsageInternal u m now)
      (\<lambda>s. seq (usagesOf u ms now) (\<lambda>rest db'. (Inr ((m, s) # rest), db')))"
    by (rule ext) simp
  with Cons show ?case by (simp add: safe_seq safe_getUsageInternal safe_return)
qed (simp add: safe_def)

end
