(* ===== verification/Quota_Props.thy ===== *)
theory Quota_Props
  imports Quota_Invariants
begin

text \<open>
  The properties of the quota ledger: tenants cannot affect each other, an operation that
  throws leaves the database unchanged, settled rows are final, no admission goes over a
  limit, commits account exactly, bundles replay idempotently, and window resets make
  progress. Commands \<open>quotaCmd\<close> name the operations, so that properties can be stated of
  whole runs of interleaved commands of several tenants.
\<close>

section \<open>Commands and runs\<close>

datatype quotaCmd =
    SetLimit setQuotaLimitInput
  | AdjustUsage jsval jsval
  | DecrementUsage jsval jsval
  | SetBaselineUsage jsval jsval
  | GetUsage jsval
  | DirectConsume jsval jsval
  | Reserve jsval jsval jsval string
  | Commit jsval jsval
  | Release jsval
  | ExpireStale
  | ReserveBundle reserveQuotaBundleInput bundleIds
  | CommitBundle jsval jsval
  | ReleaseBundle jsval
  | RenewBundle jsval jsval

definition forget :: "'a quota_op \<Rightarrow> unit quota_op" where
  "forget m db = (case m db of (r, db') \<Rightarrow> (map_sum id (\<lambda>_. ()) r, db'))"

text \<open>The dispatch of the repository's methods, at the clock \<open>now\<close> for tenant \<open>u\<close>.\<close>

fun quotaExec :: "(string \<Rightarrow> string) \<Rightarrow> string \<times> instant \<times> quotaCmd \<Rightarrow> unit quota_op" where
  "quotaExec h (u, now, SetLimit i) = forget (setLimit u i now)"
| "quotaExec h (u, now, AdjustUsage m d) = forget (adjustUsage u m d now)"
| "quotaExec h (u, now, DecrementUsage m a) = forget (decrementUsage u m a now)"
| "quotaExec h (u, now, SetBaselineUsage m a) = forget (setBaselineUsage u m a now)"
| "quotaExec h (u, now, GetUsage m) = forget (getUsage u m now)"
| "quotaExec h (u, now, DirectConsume m a) = forget (directConsume u m a now)"
| "quotaExec h (u, now, Reserve m a t i) = forget (reserve u m a t i now)"
| "quotaExec h (u, now, Commit i a) = forget (commit u i a now)"
| "quotaExec h (u, now, Release i) = forget (release u i now)"
| "quotaExec h (u, now, ExpireStale) = forget (expireStaleReservations u now)"
| "quotaExec h (u, now, ReserveBundle i ids) = forget (reserveBundle h u i ids now)"
| "quotaExec h (u, now, CommitBundle i a) = forget (commitBundle u i a now)"
| "quotaExec h (u, now, ReleaseBundle i) = forget (releaseBundle u i now)"
| "quotaExec h (u, now, RenewBundle i e) = forget (renewBundle u i e now)"

definition quotaRun ::
  "(string \<Rightarrow> string) \<Rightarrow> (string \<times> instant \<times> quotaCmd) list \<Rightarrow> quota_db \<Rightarrow> quota_db" where
  "quotaRun h cmds db = fold (\<lambda>c d. snd (quotaExec h c d)) cmds db"

text \<open>What one tenant can observe of the database.\<close>

definition tenantView :: "string \<Rightarrow> quota_db \<Rightarrow>
    (quotaMetric \<Rightarrow> limit_row option) \<times> (quotaMetric \<Rightarrow> usage_row option) \<times> reservation list \<times> quotaBundle list" where
  "tenantView v db =
     ((\<lambda>m. quota_limits db (v, m)), (\<lambda>m. quota_usage db (v, m)),
      filter (\<lambda>r. r_user r = v) (quota_reservations db),
      filter (\<lambda>b. b_user b = v) (quota_bundles db))"

definition quota_empty :: quota_db where
  "quota_empty = \<lparr> quota_limits = Map.empty, quota_usage = Map.empty,
                   quota_reservations = [], quota_bundles = [] \<rparr>"

section \<open>Every command evolves the ledger and is atomic\<close>

lemma snd_forget [simp]: "snd (forget m db) = snd (m db)"
  by (simp add: forget_def split: prod.split)

lemma safe_forget: "safe u m \<Longrightarrow> safe u (forget m)"
  by (simp add: safe_def)

lemma safe_getUsage: "safe u (getUsage u m now)"
  unfolding getUsage_def by (intro safe_check safe_getUsageInternal)

lemma safe_quotaExec: "safe u (quotaExec h (u, now, c))"
  by (cases c)
     (simp_all add: safe_forget safe_setLimit safe_adjustUsage safe_decrementUsage
        safe_setBaselineUsage safe_getUsage safe_directConsume safe_reserve safe_commit safe_release
        safe_expireStaleReservations safe_reserveBundle safe_commitBundle safe_releaseBundle
        safe_renewBundle)

definition atomic :: "'a quota_op \<Rightarrow> bool" where
  "atomic m \<longleftrightarrow> (\<forall>db e db'. m db = (Inl e, db') \<longrightarrow> db' = db)"

lemma atomic_check: "(\<And>x. r = Inr x \<Longrightarrow> atomic (f x)) \<Longrightarrow> atomic (check r f)"
  by (auto simp: atomic_def check_def split: sum.splits)

lemma atomic_transaction: "atomic (withImmediateTransactionSync m)"
  by (auto simp: atomic_def dest: transaction_Inl)

lemma atomic_forget: "atomic m \<Longrightarrow> atomic (forget m)"
  unfolding atomic_def forget_def
  by (auto split: prod.splits sum.splits simp: map_sum_def)

lemma getUsageInternal_Inl: "getUsageInternal u m now db = (Inl e, db') \<Longrightarrow> db' = db \<and> e = DatabaseCorrupted"
  using advanceResetAt_Iso
  by (auto simp: getUsageInternal_def Let_def split: option.splits timestamp.splits sum.splits if_splits)
     (metis Inl_Inr_False)+

lemma atomic_getUsage: "atomic (getUsage u m now)"
  unfolding getUsage_def
  by (intro atomic_check) (auto simp: atomic_def dest: getUsageInternal_Inl)

lemma atomic_setLimit: "atomic (setLimit u inp now)"
  unfolding setLimit_def
  by (intro atomic_check) (auto simp: atomic_def Let_def getLimit_def split: if_splits option.splits)

lemmas atomic_rules = atomic_forget atomic_setLimit atomic_getUsage atomic_check atomic_transaction

lemma atomic_quotaExec: "atomic (quotaExec h (u, now, c))"
proof (cases c)
  case (AdjustUsage m d)
  then show ?thesis
    by (simp add: adjustUsage_def atomic_rules)
next
  case (DecrementUsage m d)
  then show ?thesis
    by (simp add: decrementUsage_def adjustUsage_def atomic_rules)
qed (simp_all add: setBaselineUsage_def directConsume_def reserve_def commit_def release_def
       expireStaleReservations_def reserveBundle_def commitBundle_def releaseBundle_def
       renewBundle_def atomic_rules)

interpretation ledger: atomic_ops "\<lambda>c. quotaExec h c" quota_wf for h
proof
  show "s' = s" if "quotaExec h o1 s = (Inl e, s')" for o1 s e s'
    using that atomic_quotaExec by (cases o1) (auto simp: atomic_def)
  show "quota_wf s'" if "quotaExec h o1 s = (Inr r, s')" "quota_wf s" for o1 s r s'
  proof -
    obtain u now c where [simp]: "o1 = (u, now, c)" by (cases o1)
    show ?thesis using safeD[OF safe_quotaExec[of u h now c], of s] that by (simp add: evolves_def)
  qed
qed

section \<open>Window resets make progress\<close>

lemma advanceBy_gt: "0 < step \<Longrightarrow> now < advanceBy step now nxt"
  by (induction step now nxt rule: advanceBy.induct) (subst advanceBy.simps, auto)

lemma advanceBy_steps:
  "0 < step \<Longrightarrow> t \<le> now \<Longrightarrow> \<exists>k::nat. advanceBy step now t = t + int k * step \<and> advanceBy step now t - step \<le> now"
proof (induction step now t rule: advanceBy.induct)
  case (1 step now nxt)
  show ?case
  proof (cases "nxt + step \<le> now")
    case True
    with 1 obtain k :: nat where "advanceBy step now (nxt + step) = nxt + step + int k * step"
      "advanceBy step now (nxt + step) - step \<le> now" by auto
    with 1(2,3) show ?thesis
      by (intro exI[of _ "Suc k"]) (simp add: advanceBy.simps[of step now nxt] algebra_simps)
  next
    case False
    with 1(2,3) show ?thesis
      by (intro exI[of _ 1]) (simp add: advanceBy.simps[of step now nxt] advanceBy.simps[of step now "nxt + step"])
  qed
qed

lemma advanceMonthly_gt: "now < advanceMonthly now nxt"
  by (induction now nxt rule: advanceMonthly.induct) (subst advanceMonthly.simps, auto)

lemma advanceMonthly_iterates:
  "\<exists>k. advanceMonthly now t = (advanceUtcMonth ^^ k) t \<and> (\<forall>j<k. (advanceUtcMonth ^^ j) t \<le> now)"
proof (induction now t rule: advanceMonthly.induct)
  case (1 now nxt)
  show ?case
  proof (cases "nxt \<le> now")
    case True
    with 1 obtain k where k: "advanceMonthly now (advanceUtcMonth nxt) = (advanceUtcMonth ^^ k) (advanceUtcMonth nxt)"
      "\<And>j. j < k \<Longrightarrow> (advanceUtcMonth ^^ j) (advanceUtcMonth nxt) \<le> now"
      by blast
    have "(advanceUtcMonth ^^ j) nxt \<le> now" if "j < Suc k" for j
      using that True k(2)[of "j - 1"] by (cases j) (simp_all add: funpow_swap1)
    with True k(1) show ?thesis
      by (intro exI[of _ "Suc k"]) (simp add: advanceMonthly.simps[of now nxt] funpow_swap1)
  next
    case False
    then show ?thesis by (intro exI[of _ 0]) (simp add: advanceMonthly.simps[of now nxt])
  qed
qed

lemma advanceResetAt_gt: "advanceResetAt (Iso t) row now = Inr (Some t') \<Longrightarrow> now < t'"
  by (auto simp: advanceResetAt_def advanceBy_gt advanceMonthly_gt split: if_splits option.splits)

section \<open>Reading usage\<close>

definition limitOf :: "string \<Rightarrow> quotaMetric \<Rightarrow> quota_db \<Rightarrow> int" where
  "limitOf u m db = (case quota_limits db (u, m) of None \<Rightarrow> 0 | Some row \<Rightarrow> limit_amount row)"

text \<open>The stored reset time has passed, or cannot be read.\<close>

definition resetDue :: "string \<Rightarrow> quotaMetric \<Rightarrow> instant \<Rightarrow> quota_db \<Rightarrow> bool" where
  "resetDue u m now db \<longleftrightarrow>
     (case quota_limits db (u, m) of None \<Rightarrow> False
      | Some row \<Rightarrow> (case reset_at row of None \<Rightarrow> False | Some (Iso t) \<Rightarrow> t \<le> now | Some (NonIso _ _) \<Rightarrow> True))"

definition resetAtOf :: "string \<Rightarrow> quotaMetric \<Rightarrow> quota_db \<Rightarrow> timestamp option" where
  "resetAtOf u m db = (case quota_limits db (u, m) of None \<Rightarrow> None | Some row \<Rightarrow> reset_at row)"

lemma getUsageInternal_not_due:
  "\<not> resetDue u m now db \<Longrightarrow>
     getUsageInternal u m now db = (Inr (usageSummary u m now (limitOf u m db) (resetAtOf u m db) db), db)"
  by (auto simp: getUsageInternal_def resetDue_def limitOf_def resetAtOf_def
      split: option.splits timestamp.splits)

lemma resetWindow_frame [simp]:
  "quota_limits (resetWindow u m now db) = quota_limits db"
  "usedAmount v n (resetWindow u m now db) = (if v = u \<and> n = m then 0 else usedAmount v n db)"
  by (simp_all add: resetWindow_def Let_def setUsed_def usedAmount_def)

lemma reservedSum_resetWindow:
  "reservedSum v n t (resetWindow u m now db) = (if v = u \<and> n = m then 0 else reservedSum v n t db)"
proof (cases "v = u \<and> n = m")
  case True
  have "filter (active u m t) (tbl_update (\<lambda>r. r_user r = u \<and> r_resource r = m \<and> r_status r = Reserved)
      (\<lambda>r. r\<lparr>r_status := Expired\<rparr>) rows) = []" for rows
    by (induction rows) (auto simp: table_simps active_def)
  with True show ?thesis
    by (simp add: reservedSum_def resetWindow_def Let_def setUsed_def)
next
  case False
  have "filter (active v n t) (tbl_update (\<lambda>r. r_user r = u \<and> r_resource r = m \<and> r_status r = Reserved)
      (\<lambda>r. r\<lparr>r_status := Expired\<rparr>) rows) = filter (active v n t) rows" for rows
    by (rule filter_tbl_update_other) (use False in \<open>auto simp: active_def\<close>)
  then have "reservedSum v n t (resetWindow u m now db) = reservedSum v n t db"
    by (simp add: reservedSum_def resetWindow_def Let_def setUsed_def)
  with False show ?thesis by (simp only: if_False)
qed

lemma limits_only [simp]:
  "usedAmount v n (db\<lparr>quota_limits := x\<rparr>) = usedAmount v n db"
  "reservedSum v n t (db\<lparr>quota_limits := x\<rparr>) = reservedSum v n t db"
  by (simp_all add: usedAmount_def reservedSum_def)

text \<open>A read leaves the database alone, or resets the window of one metric.\<close>

lemma getUsageInternal_cases:
  assumes "getUsageInternal u m now db = (Inr us, db')"
  obtains (kept) "\<not> resetDue u m now db" "db' = db"
      "us = usageSummary u m now (limitOf u m db) (resetAtOf u m db) db"
  | (reset) row t n where "quota_limits db (u, m) = Some row" "reset_at row = Some (Iso t)" "t \<le> now"
      "advanceResetAt (Iso t) row now = Inr n"
      "db' = (resetWindow u m now db)\<lparr>quota_limits := (quota_limits db)((u, m) \<mapsto>
                row\<lparr>reset_at := map_option Iso n, limit_updated_at := now\<rparr>)\<rparr>"
      "us = usageSummary u m now (limit_amount row) (map_option Iso n) db'"
proof (cases "resetDue u m now db")
  case False
  with assms show thesis by (intro kept) (auto simp: getUsageInternal_not_due)
next
  case True
  then obtain row where row: "quota_limits db (u, m) = Some row" by (auto simp: resetDue_def split: option.splits)
  with True assms obtain t where t: "reset_at row = Some (Iso t)" "t \<le> now"
    by (auto simp: resetDue_def getUsageInternal_def split: option.splits timestamp.splits)
  obtain n where n: "advanceResetAt (Iso t) row now = Inr n" using advanceResetAt_Iso by blast
  from assms show thesis
    by (intro reset[OF row t n]) (auto simp: getUsageInternal_def row t n Let_def)
qed

text \<open>A summary reports the database the read leaves, in which no reset is due any more.\<close>

lemma getUsageInternal_Inr:
  assumes "getUsageInternal u m now db = (Inr us, db')"
  shows getUsageInternal_summary: "us = usageSummary u m now (limitOf u m db') (resetAtOf u m db') db'"
    and getUsageInternal_fresh: "\<not> resetDue u m now db'"
    and getUsageInternal_limitOf: "limitOf v n db' = limitOf v n db"
    and getUsageInternal_other: "v \<noteq> u \<or> n \<noteq> m \<Longrightarrow> quota_limits db' (v, n) = quota_limits db (v, n)
          \<and> usedAmount v n db' = usedAmount v n db \<and> reservedSum v n t db' = reservedSum v n t db"
    and getUsageInternal_own: "db' = db \<or> usedAmount u m db' = 0 \<and> reservedSum u m t db' = 0"
    and getUsageInternal_row: "quota_limits db' (v, n) = None \<longleftrightarrow> quota_limits db (v, n) = None"
  using assms
  by (cases rule: getUsageInternal_cases;
      auto simp: limitOf_def resetAtOf_def resetDue_def reservedSum_resetWindow dest!: advanceResetAt_gt
        split: option.splits)+

lemma usageSummary_simps [simp]:
  "us_limit (usageSummary u m now l r db) = l"
  "us_used (usageSummary u m now l r db) = usedAmount u m db"
  "us_reserved (usageSummary u m now l r db) = reservedSum u m now db"
  "us_remaining (usageSummary u m now l r db) =
     (if l < 0 then -1 else max 0 (l - usedAmount u m db - reservedSum u m now db))"
  "us_resetAt (usageSummary u m now l r db) = r"
  by (simp_all add: usageSummary_def Let_def)

section \<open>Admission control\<close>

text \<open>
  What counts against a limit: the amount used and the amounts of the reservations that are
  active at \<open>now\<close>. \<open>frugal\<close> relates two databases where every metric of every tenant
  keeps its limit and either does not count more than before or stays within the limit.
\<close>

definition gauge :: "string \<Rightarrow> quotaMetric \<Rightarrow> instant \<Rightarrow> quota_db \<Rightarrow> int" where
  "gauge u m now db = usedAmount u m db + reservedSum u m now db"

definition withinLimit :: "string \<Rightarrow> quotaMetric \<Rightarrow> instant \<Rightarrow> quota_db \<Rightarrow> bool" where
  "withinLimit u m now db \<longleftrightarrow> (0 \<le> limitOf u m db \<longrightarrow> gauge u m now db \<le> limitOf u m db)"

definition frugal :: "instant \<Rightarrow> quota_db \<Rightarrow> quota_db \<Rightarrow> bool" where
  "frugal now db db' \<longleftrightarrow>
     (\<forall>v n. limitOf v n db' = limitOf v n db
        \<and> (gauge v n now db' \<le> gauge v n now db \<or> withinLimit v n now db'))"

lemma frugal_refl [simp]: "frugal now db db"
  by (simp add: frugal_def)

lemma frugal_trans: "frugal now a b \<Longrightarrow> frugal now b c \<Longrightarrow> frugal now a c"
  unfolding frugal_def withinLimit_def by (metis order_trans)

lemma frugal_within: "frugal now db db' \<Longrightarrow> withinLimit v n now db \<Longrightarrow> withinLimit v n now db'"
  unfolding frugal_def withinLimit_def by (metis order_trans)

lemma wf_nonneg: "quota_wf db \<Longrightarrow> r \<in> set (quota_reservations db) \<Longrightarrow> 0 \<le> r_amount r"
  by (simp add: quota_wf_def)

text \<open>Time only releases: a reservation that is active later was active before.\<close>

lemma reservedSum_mono_time:
  assumes "quota_wf db" "now \<le> now'"
  shows "reservedSum u m now' db \<le> reservedSum u m now db"
proof -
  have "sum_list (map r_amount (filter (active u m now') rows))
      \<le> sum_list (map r_amount (filter (active u m now) rows))"
    if "\<forall>r \<in> set rows. 0 \<le> r_amount r" for rows
    using that assms(2) by (induction rows) (auto simp: active_def)
  with assms(1) show ?thesis by (auto simp: reservedSum_def quota_wf_def)
qed

lemma withinLimit_later:
  "quota_wf db \<Longrightarrow> now \<le> now' \<Longrightarrow> withinLimit u m now db \<Longrightarrow> withinLimit u m now' db"
  using reservedSum_mono_time[of db now now' u m] by (auto simp: withinLimit_def gauge_def)

text \<open>An update that takes rows out of the reserved status lowers the sum.\<close>

lemma reservedSum_tbl_update:
  assumes "\<And>r. P r \<Longrightarrow> r_status (f r) \<noteq> Reserved"
    and "\<forall>r \<in> set rows. 0 \<le> r_amount r"
  shows "sum_list (map r_amount (filter (active v n t) (tbl_update P f rows)))
       \<le> sum_list (map r_amount (filter (active v n t) rows))"
  using assms(2)
proof (induction rows)
  case (Cons r rows)
  then show ?case using assms(1)[of r] by (auto simp: table_simps active_def)
qed simp

lemma frugal_settle:
  assumes "quota_wf db" "\<And>r. P r \<Longrightarrow> r_status (f r) \<noteq> Reserved"
  shows "frugal now db (db\<lparr>quota_reservations := tbl_update P f (quota_reservations db), quota_bundles := bs\<rparr>)"
  using assms reservedSum_tbl_update[of P f "quota_reservations db"]
  by (auto simp: frugal_def gauge_def usedAmount_def limitOf_def reservedSum_def quota_wf_def)

lemma frugal_getUsageInternal:
  assumes "getUsageInternal u m now db = (Inr us, db')"
  shows "frugal now db db'"
  unfolding frugal_def
proof (intro allI conjI)
  fix v n
  show "limitOf v n db' = limitOf v n db" by (rule getUsageInternal_limitOf[OF assms])
  show "gauge v n now db' \<le> gauge v n now db \<or> withinLimit v n now db'"
    using getUsageInternal_other[OF assms, of v n now] getUsageInternal_own[OF assms, of now]
    by (cases "v = u \<and> n = m") (auto simp: gauge_def withinLimit_def)
qed

lemma limitOf_reservations [simp]:
  "limitOf v n (db\<lparr>quota_reservations := x\<rparr>) = limitOf v n db"
  "limitOf v n (db\<lparr>quota_bundles := y\<rparr>) = limitOf v n db"
  "limitOf v n (addUsed u m a now db) = limitOf v n db"
  "limitOf v n (setUsed u m a now db) = limitOf v n db"
  by (simp_all add: limitOf_def)

lemma reservedSum_addUsed [simp]:
  "reservedSum v n t (addUsed u m a now db) = reservedSum v n t db"
  "reservedSum v n t (setUsed u m a now db) = reservedSum v n t db"
  "reservedSum v n t (db\<lparr>quota_bundles := y\<rparr>) = reservedSum v n t db"
  by (simp_all add: reservedSum_def)

lemma usedAmount_reservations [simp]:
  "usedAmount v n (db\<lparr>quota_reservations := x\<rparr>) = usedAmount v n db"
  "usedAmount v n (db\<lparr>quota_bundles := y\<rparr>) = usedAmount v n db"
  by (simp_all add: usedAmount_def)

lemma resetDue_frame [simp]:
  "resetDue v n t (addUsed u m a now db) = resetDue v n t db"
  "resetDue v n t (setUsed u m a now db) = resetDue v n t db"
  "resetDue v n t (db\<lparr>quota_reservations := x\<rparr>) = resetDue v n t db"
  "resetDue v n t (db\<lparr>quota_bundles := y\<rparr>) = resetDue v n t db"
  by (simp_all add: resetDue_def)

lemma reservedSum_insert:
  "reservedSum v n t (db\<lparr>quota_reservations := quota_reservations db @ [r]\<rparr>)
     = reservedSum v n t db + (if active v n t r then r_amount r else 0)"
  by (simp add: reservedSum_def)

text \<open>Passing the check leaves room for the amount.\<close>

lemma room:
  assumes "getUsageInternal u m now db = (Inr us, db')" "\<not> (us_limit us \<ge> 0 \<and> us_remaining us < a)" "0 < a"
  shows "0 \<le> limitOf u m db' \<longrightarrow> gauge u m now db' + a \<le> limitOf u m db'"
  using assms(2,3) by (auto simp: getUsageInternal_summary[OF assms(1)] gauge_def)

lemma insertReservation_Inr:
  "insertReservation r db = (Inr x, db') \<longleftrightarrow>
     r_id r \<notin> r_id ` set (quota_reservations db) \<and> db' = db\<lparr>quota_reservations := quota_reservations db @ [r]\<rparr>"
  by (auto simp: insertReservation_def image_iff) metis

lemma frugal_add:
  assumes "a = 0 \<or> (0 \<le> limitOf u m db \<longrightarrow> gauge u m now db + a \<le> limitOf u m db)"
    and "\<And>v n. limitOf v n db' = limitOf v n db"
    and "\<And>v n. gauge v n now db' = gauge v n now db + (if v = u \<and> n = m then a else 0)"
  shows "frugal now db db'"
  using assms by (auto simp: frugal_def withinLimit_def)

lemma frugal_addUsed:
  "0 \<le> limitOf u m db \<longrightarrow> gauge u m now db + a \<le> limitOf u m db \<Longrightarrow> frugal now db (addUsed u m a t db)"
  by (rule frugal_add[of a u m]) (auto simp: gauge_def)

lemma frugal_insert:
  "r_amount r = 0 \<or> (0 \<le> limitOf (r_user r) (r_resource r) db \<longrightarrow>
        gauge (r_user r) (r_resource r) now db + r_amount r \<le> limitOf (r_user r) (r_resource r) db) \<Longrightarrow>
     r_status r = Reserved \<Longrightarrow> now < r_expiresAt r \<Longrightarrow>
     frugal now db (db\<lparr>quota_reservations := quota_reservations db @ [r]\<rparr>)"
  by (rule frugal_add[of "r_amount r" "r_user r" "r_resource r"])
     (auto simp: gauge_def reservedSum_insert active_def)

lemma frugal_setUsed_less:
  "a \<le> usedAmount u m db \<Longrightarrow> frugal now db (setUsed u m a t db)"
  by (auto simp: frugal_def gauge_def)

text \<open>An operation is admission controlled when every success is frugal.\<close>

definition admits :: "instant \<Rightarrow> 'a quota_op \<Rightarrow> bool" where
  "admits now op \<longleftrightarrow> (\<forall>db r db'. quota_wf db \<longrightarrow> op db = (Inr r, db') \<longrightarrow> frugal now db db')"

lemma admits_check: "(\<And>x. r = Inr x \<Longrightarrow> admits now (f x)) \<Longrightarrow> admits now (check r f)"
  by (auto simp: admits_def op_iffs)

lemma admits_transaction: "admits now op \<Longrightarrow> admits now (withImmediateTransactionSync op)"
  by (simp add: admits_def)

lemma admits_getUsage: "admits now (getUsage u m now)"
  unfolding getUsage_def by (intro admits_check) (auto simp: admits_def intro: frugal_getUsageInternal)

lemma assertPositiveInteger_pos: "assertPositiveInteger v = Inr a \<Longrightarrow> 0 < a"
  by (cases v rule: assertPositiveInteger.cases) (auto split: if_splits)

lemma admits_consume:
  assumes "0 < a"
  shows "admits now (seq (getUsageInternal u m now) (\<lambda>usage db.
         if us_limit usage \<ge> 0 \<and> us_remaining usage < a then (Inl (e usage), db)
         else getUsageInternal u m now (addUsed u m a now db)))"
  unfolding admits_def
proof (intro allI impI, unfold seq_Inr_iff, elim exE conjE)
  fix db us2 db2 us db1
  assume 1: "getUsageInternal u m now db = (Inr us, db1)"
    and "(if us_limit us \<ge> 0 \<and> us_remaining us < a then (Inl (e us), db1)
          else getUsageInternal u m now (addUsed u m a now db1)) = (Inr us2, db2)"
  then have 2: "\<not> (us_limit us \<ge> 0 \<and> us_remaining us < a)"
    "getUsageInternal u m now (addUsed u m a now db1) = (Inr us2, db2)" by (auto split: if_splits)
  show "frugal now db db2"
    using frugal_getUsageInternal[OF 1] frugal_addUsed[OF room[OF 1 2(1) assms]]
      frugal_getUsageInternal[OF 2(2)] by (blast intro: frugal_trans)
qed

lemma admits_directConsume: "admits now (directConsume u m a now)"
  unfolding directConsume_def
  by (intro admits_check admits_transaction admits_consume assertPositiveInteger_pos)

lemma seq_if:
  "seq m (\<lambda>x s. if P then f x s else g x s) = (if P then seq m f else seq m g)"
  by simp

lemma admits_adjustUsage: "admits now (adjustUsage u m0 d now)"
  unfolding adjustUsage_def
proof (intro admits_check admits_transaction, unfold seq_if)
  fix m delta
  have less: "frugal now db db'"
    if "seq (getUsageInternal u m now) (\<lambda>usage db. getUsageInternal u m now
          (setUsed u m (max 0 (us_used usage - \<bar>delta\<bar>)) now db)) db = (Inr r, db')" "quota_wf db"
    for db db' r
  proof -
    from that(1) obtain us db1 where 1: "getUsageInternal u m now db = (Inr us, db1)"
      and 2: "getUsageInternal u m now (setUsed u m (max 0 (us_used us - \<bar>delta\<bar>)) now db1) = (Inr r, db')"
      by (auto simp: seq_Inr_iff)
    have "evolves u db db1" using safeD[OF safe_getUsageInternal[of u m now], of db] 1 by simp
    with that(2) have "0 \<le> usedAmount u m db1" by (simp add: evolves_def quota_wf_def)
    then have "frugal now db1 (setUsed u m (max 0 (us_used us - \<bar>delta\<bar>)) now db1)"
      by (intro frugal_setUsed_less) (simp add: getUsageInternal_summary[OF 1])
    with frugal_getUsageInternal[OF 1] frugal_getUsageInternal[OF 2] show ?thesis
      by (blast intro: frugal_trans)
  qed
  have same: "admits now (seq (getUsageInternal u m now) (\<lambda>usage db. getUsageInternal u m now db))"
    by (auto simp: admits_def op_iffs intro: frugal_trans[OF frugal_getUsageInternal frugal_getUsageInternal])
  show "admits now (if 0 < delta
        then seq (getUsageInternal u m now) (\<lambda>usage db.
               if 0 \<le> us_limit usage \<and> us_remaining usage < delta
               then (Inl (QuotaExceededError m delta (us_remaining usage)), db)
               else getUsageInternal u m now (addUsed u m delta now db))
        else if delta < 0
        then seq (getUsageInternal u m now) (\<lambda>usage db. getUsageInternal u m now
               (setUsed u m (max 0 (us_used usage - \<bar>delta\<bar>)) now db))
        else seq (getUsageInternal u m now) (\<lambda>usage db. getUsageInternal u m now db))"
    using less same admits_consume by (auto simp: admits_def)
qed

lemma admits_decrementUsage: "admits now (decrementUsage u m0 d now)"
  unfolding decrementUsage_def by (intro admits_check admits_adjustUsage)

lemma optionalPositive_pos: "optionalPositive v d = Inr a \<Longrightarrow> 0 < d \<Longrightarrow> 0 < a"
  by (auto simp: optionalPositive_def split: if_splits dest: assertPositiveInteger_pos)

lemma frugal_reserve:
  assumes 1: "getUsageInternal u m now db = (Inr us, db1)"
    and "insertReservation r db1 = (Inr x, db')" "us_limit us \<ge> 0 \<longrightarrow> r_amount r \<le> us_remaining us"
    and "0 < r_amount r" "r_status r = Reserved" "now < r_expiresAt r" "u = r_user r" "m = r_resource r"
  shows "frugal now db db'"
proof -
  have "0 \<le> limitOf (r_user r) (r_resource r) db1 \<longrightarrow>
      gauge (r_user r) (r_resource r) now db1 + r_amount r \<le> limitOf (r_user r) (r_resource r) db1"
    using room[OF 1 _ assms(4)] assms(3,7,8) by auto
  then have "frugal now db1 db'"
    using frugal_insert[of r db1 now] assms(2,5,6) by (simp add: insertReservation_Inr)
  with frugal_getUsageInternal[OF 1] show ?thesis by (rule frugal_trans)
qed

lemma admits_reserve: "admits now (reserve u m a t i now)"
  unfolding reserve_def
proof (intro admits_check admits_transaction, unfold admits_def, intro allI impI, goal_cases)
  case (1 m a t db r db')
  then have "0 < a" "0 < t" by (auto dest: assertPositiveInteger_pos optionalPositive_pos)
  with 1(5) show ?case
    by (auto simp: op_iffs split: if_splits option.splits) (rule frugal_reserve, assumption, assumption, auto)+
qed

lemma frugal_settle_reservations:
  assumes "quota_wf db" "\<And>r. P r \<Longrightarrow> r_status (f r) \<noteq> Reserved"
  shows "frugal now db (db\<lparr>quota_reservations := tbl_update P f (quota_reservations db)\<rparr>)"
  using frugal_settle[OF assms, where bs = "quota_bundles db"] by simp

lemma admits_release: "admits now (release u i now)"
  unfolding release_def
  by (intro admits_check admits_transaction)
     (auto simp: admits_def updateReserved_def Let_def split: if_splits option.splits
       intro: frugal_settle_reservations)

lemma admits_expireStaleReservations: "admits now (expireStaleReservations u now)"
  unfolding expireStaleReservations_def
  by (intro admits_transaction)
     (auto simp: admits_def Let_def split: if_splits intro: frugal_settle)

lemma frugal_settle':
  assumes "quota_wf db" "\<And>r. P r \<Longrightarrow> r_status (f r) \<noteq> Reserved"
  shows "frugal now db (db\<lparr>quota_bundles := bs, quota_reservations := tbl_update P f (quota_reservations db)\<rparr>)"
proof -
  have "db\<lparr>quota_bundles := x, quota_reservations := y\<rparr>
      = db\<lparr>quota_reservations := y, quota_bundles := x\<rparr>" for x y
    by (cases db) simp
  from this[where x = bs] show ?thesis by (rule ssubst) (rule frugal_settle[OF assms])
qed

lemma admits_releaseBundle: "admits now (releaseBundle u i now)"
  unfolding releaseBundle_def releaseBundleInTransactionSync_def
  by (intro admits_check admits_transaction)
     (auto simp: admits_def Let_def split: if_splits option.splits intro: frugal_settle')

section \<open>Commits of single reservations\<close>

text \<open>Settling the one row with an identifier takes its amount out of the sum.\<close>

lemma reservedSum_settle_one:
  assumes "distinct (map r_id rows)" "rsv \<in> set rows" "r_user rsv = u" "r_status rsv = Reserved"
    and "now < r_expiresAt rsv" "\<And>r. r_status (f r) \<noteq> Reserved"
  shows "sum_list (map r_amount (filter (active v n now)
           (tbl_update (\<lambda>r. r_id r = r_id rsv \<and> r_user r = u \<and> r_status r = Reserved) f rows)))
       = sum_list (map r_amount (filter (active v n now) rows))
         - (if v = u \<and> n = r_resource rsv then r_amount rsv else 0)"
  using assms(1,2)
proof (induction rows)
  case (Cons r rows)
  show ?case
  proof (cases "r = rsv")
    case True
    with Cons.prems have "tbl_update (\<lambda>r. r_id r = r_id rsv \<and> r_user r = u \<and> r_status r = Reserved) f rows = rows"
      by (intro tbl_update_none) (auto simp: rev_image_eqI)
    with True assms(3-6) show ?thesis by (auto simp: tbl_update_Cons active_def)
  next
    case False
    with Cons.prems have "r_id r \<noteq> r_id rsv" "rsv \<in> set rows" by auto
    with Cons show ?thesis by (auto simp: tbl_update_Cons)
  qed
qed simp

text \<open>
  A successful commit found an active reservation, moved it to \<open>committed\<close> and added the
  actual amount, the reserved one by default; the summary is a read of what that left.
\<close>

lemma commit_Inr:
  assumes "commit u i actual now db = (Inr (rsv', us), db')"
  obtains i0 rsv a db1 where "validateReservationId i = Inr i0" "findReservation u i0 db = Some rsv"
    "r_status rsv = Reserved" "now < r_expiresAt rsv" "0 \<le> a \<or> actual = JUndefined"
    "actual = JUndefined \<Longrightarrow> a = r_amount rsv" "actual \<noteq> JUndefined \<Longrightarrow> actual = JNumber (Num a)"
    "db1 = addUsed u (r_resource rsv) a now (updateReserved u i0
        (\<lambda>r. r\<lparr>r_status := Committed, r_committedAmount := Some a, r_settledAt := Some now\<rparr>) db)"
    "findReservation u i0 db1 = Some rsv'" "getUsageInternal u (r_resource rsv) now db1 = (Inr us, db')"
proof -
  from assms obtain i0 rsv where 1: "validateReservationId i = Inr i0" "findReservation u i0 db = Some rsv"
    by (auto simp: commit_def op_iffs split: option.splits)
  with assms have 2: "r_status rsv = Reserved" "now < r_expiresAt rsv"
    and "check (if actual \<noteq> JUndefined then assertNonNegativeInteger actual else Inr (r_amount rsv))
           (commitActual u i0 (r_resource rsv) now) db = (Inr (rsv', us), db')"
    by (auto simp: commit_def split: if_splits)
  then obtain a where a: "(if actual \<noteq> JUndefined then assertNonNegativeInteger actual else Inr (r_amount rsv)) = Inr a"
    and c: "commitActual u i0 (r_resource rsv) now a db = (Inr (rsv', us), db')"
    by (auto simp: op_iffs)
  from a have a': "0 \<le> a \<or> actual = JUndefined" "actual = JUndefined \<Longrightarrow> a = r_amount rsv"
    "actual \<noteq> JUndefined \<Longrightarrow> actual = JNumber (Num a)"
    by (auto split: if_splits dest: assertNonNegativeInteger_Inr)
  show thesis
    by (rule that[OF 1 2 a' refl])
       (use c in \<open>auto simp: commitActual_def Let_def op_iffs split: option.splits\<close>)
qed

lemma findReservation_Some: "findReservation u i db = Some r \<Longrightarrow>
    r \<in> set (quota_reservations db) \<and> r_id r = i \<and> r_user r = u"
  unfolding findReservation_def by (auto dest: tbl_get_Some)

lemma gauge_commit:
  assumes "quota_wf db" "findReservation u i db = Some rsv" "r_status rsv = Reserved" "now < r_expiresAt rsv"
  shows "usedAmount v n (addUsed u (r_resource rsv) a now (updateReserved u i
           (\<lambda>r. r\<lparr>r_status := Committed, r_committedAmount := Some a, r_settledAt := Some now\<rparr>) db))
         = usedAmount v n db + (if v = u \<and> n = r_resource rsv then a else 0)"
    and "reservedSum v n now (addUsed u (r_resource rsv) a now (updateReserved u i
           (\<lambda>r. r\<lparr>r_status := Committed, r_committedAmount := Some a, r_settledAt := Some now\<rparr>) db))
         = reservedSum v n now db - (if v = u \<and> n = r_resource rsv then r_amount rsv else 0)"
proof -
  note r = findReservation_Some[OF assms(2)]
  show "usedAmount v n (addUsed u (r_resource rsv) a now (updateReserved u i
           (\<lambda>r. r\<lparr>r_status := Committed, r_committedAmount := Some a, r_settledAt := Some now\<rparr>) db))
         = usedAmount v n db + (if v = u \<and> n = r_resource rsv then a else 0)"
    by (simp add: updateReserved_def)
  show "reservedSum v n now (addUsed u (r_resource rsv) a now (updateReserved u i
           (\<lambda>r. r\<lparr>r_status := Committed, r_committedAmount := Some a, r_settledAt := Some now\<rparr>) db))
         = reservedSum v n now db - (if v = u \<and> n = r_resource rsv then r_amount rsv else 0)"
    using reservedSum_settle_one[of "quota_reservations db" rsv u now] assms r
    by (simp add: updateReserved_def reservedSum_def quota_wf_def)
qed

lemma admits_commit: "admits now (commit u i JUndefined now)"
  unfolding admits_def
proof (intro allI impI)
  fix db r db'
  assume wf: "quota_wf db" and c: "commit u i JUndefined now db = (Inr r, db')"
  obtain rsv' us where r: "r = (rsv', us)" by (cases r)
  from c[unfolded r] obtain i0 rsv db1 where 1: "findReservation u i0 db = Some rsv" "r_status rsv = Reserved"
    "now < r_expiresAt rsv"
    "db1 = addUsed u (r_resource rsv) (r_amount rsv) now (updateReserved u i0
        (\<lambda>r. r\<lparr>r_status := Committed, r_committedAmount := Some (r_amount rsv), r_settledAt := Some now\<rparr>) db)"
    "getUsageInternal u (r_resource rsv) now db1 = (Inr us, db')"
    by (rule commit_Inr) auto
  have "frugal now db db1"
    using gauge_commit[OF wf 1(1-3)] unfolding 1(4)
    by (simp add: frugal_def gauge_def updateReserved_def)
  with frugal_getUsageInternal[OF 1(5)] show "frugal now db db'" by (blast intro: frugal_trans)
qed

section \<open>Reserving bundles\<close>

definition roomFor :: "string \<Rightarrow> quotaMetric \<Rightarrow> int \<Rightarrow> instant \<Rightarrow> quota_db \<Rightarrow> bool" where
  "roomFor u m a now db \<longleftrightarrow> a = 0 \<or> (0 \<le> limitOf u m db \<longrightarrow> gauge u m now db + a \<le> limitOf u m db)"

lemma requireRemaining_Inr:
  assumes "requireRemaining u m a now db = (Inr x, db')" "0 \<le> a"
  shows "frugal now db db'" "roomFor u m a now db'"
    and "n \<noteq> m \<Longrightarrow> roomFor u n b now db' = roomFor u n b now db"
proof -
  from assms(1) obtain us where 1: "getUsageInternal u m now db = (Inr us, db')"
    "\<not> (us_limit us \<ge> 0 \<and> us_remaining us < a)"
    by (auto simp: requireRemaining_def op_iffs split: if_splits)
  show "frugal now db db'" by (rule frugal_getUsageInternal[OF 1(1)])
  show "roomFor u m a now db'" using room[OF 1] assms(2) by (cases "a = 0") (auto simp: roomFor_def)
  show "roomFor u n b now db' = roomFor u n b now db" if "n \<noteq> m"
    using getUsageInternal_other[OF 1(1), of u n now] getUsageInternal_limitOf[OF 1(1), of u n] that
    by (simp add: roomFor_def gauge_def)
qed

lemma insertReservation_room:
  assumes "insertReservation r db = (Inr x, db')" "roomFor (r_user r) (r_resource r) (r_amount r) now db"
    and "r_status r = Reserved" "now < r_expiresAt r"
  shows "frugal now db db'"
    and "n \<noteq> r_resource r \<Longrightarrow> roomFor u n b now db' = roomFor u n b now db"
  using assms frugal_insert[of r db now]
  by (auto simp: insertReservation_Inr roomFor_def gauge_def reservedSum_insert active_def)

lemma insertBundle_room:
  assumes "insertBundle b db = (Inr x, db')"
  shows "frugal now db db'" "roomFor u n a now db' = roomFor u n a now db"
  using assms by (auto simp: insertBundle_def frugal_def gauge_def roomFor_def split: if_splits)

lemma linkedReservation_simps [simp]:
  "r_user (linkedReservation i u b d m a e now) = u" "r_resource (linkedReservation i u b d m a e now) = m"
  "r_amount (linkedReservation i u b d m a e now) = a" "r_status (linkedReservation i u b d m a e now) = Reserved"
  "r_expiresAt (linkedReservation i u b d m a e now) = e" "r_id (linkedReservation i u b d m a e now) = i"
  "r_bundleId (linkedReservation i u b d m a e now) = Some b"
  by (simp_all add: linkedReservation_def)

lemma admits_reserveFreshBundle:
  assumes "0 < turns" "0 < messages" "0 \<le> tokens" "now < e"
  shows "admits now (reserveFreshBundle u inp h turns messages tokens e ids now)"
  unfolding admits_def reserveFreshBundle_def op_iffs
proof (intro allI impI, elim exE conjE)
  fix db0 r db' db1 db2 db3 db4 db5 db6 db7 db8 and x1 x2 x3 x4 x5 x6 x7 x8 :: unit
  assume s1: "requireRemaining u Turns turns now db0 = (Inr x1, db1)"
    and s2: "requireRemaining u Messages messages now db1 = (Inr x2, db2)"
    and s3: "(if quota_limits db2 (u, Tokens) = None then (Inl (QuotaExceededError Tokens tokens 0), db2)
          else (Inr (), db2)) = (Inr x3, db3)"
    and s4: "requireRemaining u Tokens tokens now db3 = (Inr x4, db4)"
    and s5: "insertBundle \<lparr> b_id = bundleId ids, b_user = u, b_deliveryId = rb_deliveryId inp,
          b_sessionId = rb_sessionId inp, b_requestHash = h, b_status = Reserved,
          b_turns = turns, b_messages = messages, b_tokens = tokens,
          b_isEstimateTokens = rb_isEstimateTokens inp, b_turnsCommitted = None,
          b_messagesCommitted = None, b_tokensCommitted = None, b_expiresAt = e,
          b_createdAt = now, b_settledAt = None \<rparr> db4 = (Inr x5, db5)"
    and s6: "insertReservation (linkedReservation (resTurnsId ids) u (bundleId ids)
            (rb_deliveryId inp) Turns turns e now) db5 = (Inr x6, db6)"
    and s7: "insertReservation (linkedReservation (resMessagesId ids) u (bundleId ids)
            (rb_deliveryId inp) Messages messages e now) db6 = (Inr x7, db7)"
    and s8: "insertReservation (linkedReservation (resTokensId ids) u (bundleId ids)
            (rb_deliveryId inp) Tokens tokens e now) db7 = (Inr x8, db8)"
    and s9: "(case findBundleById u (bundleId ids) db8 of
         None \<Rightarrow> (Inl (PlainError ''Failed to retrieve newly created quota bundle''), db8)
       | Some created \<Rightarrow> (Inr created, db8)) = (Inr r, db')"
  have [simp]: "db3 = db2" "db' = db8" using s3 s9 by (auto split: if_splits option.splits)
  note c1 = requireRemaining_Inr[OF s1] and c2 = requireRemaining_Inr[OF s2]
    and c3 = requireRemaining_Inr[OF s4] and i0 = insertBundle_room[OF s5]
  have rooms: "roomFor u Turns turns now db5" "roomFor u Messages messages now db5" "roomFor u Tokens tokens now db5"
    using assms(1-3) c1(2) c2(2,3) c3(2,3) i0(2) by simp_all
  have i1: "frugal now db5 db6" "roomFor u Messages messages now db6" "roomFor u Tokens tokens now db6"
    using insertReservation_room[OF s6] rooms assms(4) by simp_all
  have i2: "frugal now db6 db7" "roomFor u Tokens tokens now db7"
    using insertReservation_room[OF s7] i1 assms(4) by simp_all
  have i3: "frugal now db7 db8"
    using insertReservation_room[OF s8] i2 assms(4) by simp
  have "frugal now db0 db5" using c1(1) c2(1) c3(1) i0(1) assms(1-3) by (auto intro: frugal_trans)
  with i1(1) i2(1) i3 show "frugal now db0 db'" by (auto intro: frugal_trans)
qed

lemma admits_reserveBundle: "admits now (reserveBundle h u inp ids now)"
  unfolding reserveBundle_def
proof (intro admits_check admits_transaction, goal_cases)
  case (1 turns messages tokens ttl hash)
  then have "0 < turns" "0 < messages" "0 \<le> tokens" "0 < ttl"
    by (auto dest: assertPositiveInteger_pos optionalPositive_pos assertNonNegativeInteger_Inr)
  then have "admits now (reserveFreshBundle u inp hash turns messages tokens (now + ttl * 1000) ids now)"
    by (intro admits_reserveFreshBundle) auto
  then show ?case by (auto simp: admits_def Let_def split: option.splits if_splits)
qed

end
