(* ===== verification/Quota_Theorems.thy ===== *)
theory Quota_Theorems
  imports Quota_Props
begin

text \<open>
  The theorems about the quota ledger, each stated of the operations as the repository exposes
  them, and the concrete databases at which they are applied.
\<close>

section \<open>Admission-controlled commands and sample databases\<close>

text \<open>
  The commands that are subject to admission control, or only give back: everything except
  changing a limit, overwriting the usage baseline, committing another amount than was
  reserved, committing a bundle and renewing one.
\<close>

fun admission :: "quotaCmd \<Rightarrow> bool" where
  "admission (SetLimit _) = False"
| "admission (SetBaselineUsage _ _) = False"
| "admission (Commit _ a) = (a = JUndefined)"
| "admission (CommitBundle _ _) = False"
| "admission (RenewBundle _ _) = False"
| "admission _ = True"

fun clock :: "string \<times> instant \<times> quotaCmd \<Rightarrow> instant" where
  "clock (u, now, c) = now"

definition rid :: "char \<Rightarrow> string" where
  "rid c = ''qrs_'' @ replicate 32 c"

definition bid :: "char \<Rightarrow> string" where
  "bid c = ''qbd_'' @ replicate 32 c"

definition plainLimit :: "int \<Rightarrow> limit_row" where
  "plainLimit n = \<lparr> limit_amount = n, window_seconds = None, reset_at = None,
     reset_interval = Some ''none'', limit_updated_at = 0 \<rparr>"

text \<open>Tenant \<open>u\<close> with limits of ten for the three metrics of a bundle, nothing used.\<close>

definition sampleDb :: quota_db where
  "sampleDb = \<lparr> quota_limits = [(''u'', Turns) \<mapsto> plainLimit 10, (''u'', Messages) \<mapsto> plainLimit 10,
       (''u'', Tokens) \<mapsto> plainLimit 10],
     quota_usage = Map.empty, quota_reservations = [], quota_bundles = [] \<rparr>"

definition sampleReservation :: "string \<Rightarrow> int \<Rightarrow> instant \<Rightarrow> reservation" where
  "sampleReservation i a e = \<lparr> r_id = i, r_user = ''u'', r_bundleId = None, r_deliveryId = None,
     r_resource = Tokens, r_amount = a, r_status = Reserved, r_committedAmount = None,
     r_expiresAt = e, r_createdAt = 0, r_settledAt = None \<rparr>"

definition sampleInput :: "int \<Rightarrow> reserveQuotaBundleInput" where
  "sampleInput tokens = \<lparr> rb_deliveryId = ''d1'', rb_sessionId = ''s1'', rb_turns = JNumber (Num 1),
     rb_messages = JNumber (Num 1), rb_tokens = JNumber (Num tokens), rb_isEstimateTokens = False,
     rb_ttlSeconds = JUndefined, rb_requestHash = Some ''h'' \<rparr>"

definition sampleIds :: bundleIds where
  "sampleIds = \<lparr> bundleId = bid CHR ''a'', resTurnsId = rid CHR ''a'', resMessagesId = rid CHR ''b'',
     resTokensId = rid CHR ''c'' \<rparr>"

definition sampleUsage :: "int \<Rightarrow> jsval" where
  "sampleUsage tokens = JObject [(''turns'', JNumber (Num 1)), (''messages'', JNumber (Num 1)),
     (''tokens'', JNumber (Num tokens))]"

definition sampleRun :: "(string \<times> instant \<times> quotaCmd) list" where
  "sampleRun = [(''u'', 1, Reserve (JString ''tokens'') (JNumber (Num 7)) JUndefined (rid CHR ''d'')),
     (''u'', 2, DirectConsume (JString ''tokens'') (JNumber (Num 3))),
     (''u'', 3, DirectConsume (JString ''tokens'') (JNumber (Num 1)))]"

text \<open>A tenant with one active reservation of seven tokens.\<close>

definition reservedDb :: quota_db where
  "reservedDb = sampleDb\<lparr>quota_reservations := [sampleReservation (rid CHR ''d'') 7 1000]\<rparr>"

text \<open>A tenant with a committed reservation.\<close>

definition settledDb :: quota_db where
  "settledDb = sampleDb\<lparr>quota_reservations :=
     [(sampleReservation (rid CHR ''d'') 7 1000)\<lparr>r_status := Committed, r_committedAmount := Some 7\<rparr>]\<rparr>"

text \<open>The database after a bundle has been reserved.\<close>

definition bundleDb :: quota_db where
  "bundleDb = snd (reserveBundle id ''u'' (sampleInput 2) sampleIds 0 sampleDb)"

section \<open>Runs\<close>

lemma quotaRun_Nil [simp]: "quotaRun h [] db = db"
  and quotaRun_Cons [simp]: "quotaRun h (c # cs) db = quotaRun h cs (snd (quotaExec h c db))"
  by (simp_all add: quotaRun_def)

lemma admits_forget: "admits now m \<Longrightarrow> admits now (forget m)"
  unfolding admits_def forget_def
  by (auto split: prod.splits simp: map_sum_def split: sum.splits)

lemma admits_quotaExec: "admission c \<Longrightarrow> admits now (quotaExec h (u, now, c))"
  by (cases c)
     (simp_all add: admits_forget admits_adjustUsage admits_decrementUsage admits_getUsage
        admits_directConsume admits_reserve admits_commit admits_release
        admits_expireStaleReservations admits_reserveBundle admits_releaseBundle)

lemma frugal_quotaExec:
  assumes "admission c" "quota_wf db"
  shows "frugal now db (snd (quotaExec h (u, now, c) db))"
proof (cases "quotaExec h (u, now, c) db")
  case (Pair r db')
  then have "db' = db" if "r = Inl e" for e using that by (auto dest: ledger.atomic)
  with Pair show ?thesis
    using assms admits_quotaExec[OF assms(1), of now h u] by (cases r) (auto simp: admits_def)
qed

lemma quotaRun_frugal:
  assumes "quota_wf db" "list_all (\<lambda>(_, _, c). admission c) cmds" "sorted (map clock cmds)"
    and "\<forall>t \<in> set (map clock cmds). t0 \<le> t" "\<forall>t \<in> set (map clock cmds). t \<le> t1" "t0 \<le> t1"
    and "withinLimit v n t0 db"
  shows "withinLimit v n t1 (quotaRun h cmds db)"
  using assms
proof (induction cmds arbitrary: db t0)
  case Nil
  then show ?case by (simp add: withinLimit_later)
next
  case (Cons cmd cmds)
  obtain u now c where [simp]: "cmd = (u, now, c)" by (cases cmd)
  let ?db = "snd (quotaExec h cmd db)"
  have wf: "quota_wf ?db" by (rule ledger.step_keeps[OF Cons.prems(1)])
  have "withinLimit v n now db"
    using Cons.prems by (auto intro: withinLimit_later[of db t0])
  then have "withinLimit v n now ?db"
    using Cons.prems(1,2) by (auto intro: frugal_within frugal_quotaExec)
  with Cons.prems wf show ?case
    by (simp del: \<open>cmd = _\<close>) (rule Cons.IH[of _ now], auto)
qed

lemma evolves_tenantView: "evolves u db db' \<Longrightarrow> u \<noteq> v \<Longrightarrow> tenantView v db' = tenantView v db"
  by (auto simp: evolves_def tenantView_def)

lemma evolves_settled:
  assumes "evolves u db db'"
  shows "r \<in> set (quota_reservations db) \<Longrightarrow> r_status r \<noteq> Reserved \<Longrightarrow> r \<in> set (quota_reservations db')"
    and "b \<in> set (quota_bundles db) \<Longrightarrow> b_status b \<noteq> Reserved \<Longrightarrow> b \<in> set (quota_bundles db')"
  using assms unfolding evolves_def by blast+

lemma quotaExec_evolves: "evolves (fst c) db (snd (quotaExec h c db))"
  by (cases c) (simp add: safeD[OF safe_quotaExec])

text \<open>
  C1. Admission control holds over whole runs: as long as the clock does not go back, no
  sequence of admission-controlled commands, of whatever tenants and with whatever
  arguments, takes the sum of used and actively reserved amounts of any metric of any
  tenant from within its limit to beyond it.
\<close>

theorem quota_admission_run:
  assumes "quota_wf db" "list_all (\<lambda>(_, _, c). admission c) cmds" "sorted (t0 # map clock cmds @ [t1])"
    and "withinLimit v n t0 db"
  shows "withinLimit v n t1 (quotaRun h cmds db)"
  using quotaRun_frugal[OF assms(1,2), of t0 t1 v n h] assms(3,4) by (auto simp: sorted_append)

theorem quota_admission_run_witness:
  "gauge ''u'' Tokens 9 (quotaRun id sampleRun sampleDb) = 10
   \<and> withinLimit ''u'' Tokens 9 (quotaRun id sampleRun sampleDb)"
proof
  show "gauge ''u'' Tokens 9 (quotaRun id sampleRun sampleDb) = 10" by code_simp
  have "quota_wf sampleDb" by (simp add: quota_wf_def sampleDb_def usedAmount_def)
  then show "withinLimit ''u'' Tokens 9 (quotaRun id sampleRun sampleDb)"
    by (rule quota_admission_run[where ?t0.0 = 0])
       (simp_all add: sampleRun_def withinLimit_def gauge_def sampleDb_def usedAmount_def reservedSum_def limitOf_def plainLimit_def)
qed

text \<open>
  A command that throws leaves the whole ledger as it was, whatever writes it made before
  the exception.
\<close>

theorem quota_commands_atomic:
  assumes "quotaExec h c db = (Inl e, db')"
  shows "db' = db"
  using assms by (rule ledger.atomic)

theorem quota_commands_atomic_witness:
  "quotaExec id (''u'', 2000, Commit (JString (rid CHR ''d'')) JUndefined) reservedDb
     = (Inl (ReservationSettledError ''expired''), reservedDb)"
proof -
  have 1: "fst (quotaExec id (''u'', 2000, Commit (JString (rid CHR ''d'')) JUndefined) reservedDb)
      = Inl (ReservationSettledError ''expired'')" by code_simp
  then show ?thesis
    using quota_commands_atomic[of id "(''u'', 2000, Commit (JString (rid CHR ''d'')) JUndefined)" reservedDb]
    by (metis prod.collapse)
qed

text \<open>
  C25. Tenants are isolated: whatever commands other tenants run, in whatever order, the limits,
  usage, reservations and bundles of a tenant stay exactly as they were.
\<close>

theorem quota_tenant_isolation:
  assumes "\<forall>c \<in> set cmds. fst c \<noteq> v"
  shows "tenantView v (quotaRun h cmds db) = tenantView v db"
  using assms
proof (induction cmds arbitrary: db)
  case (Cons c cmds)
  then show ?case using evolves_tenantView[OF quotaExec_evolves] by simp
qed simp

theorem quota_tenant_isolation_witness:
  "tenantView ''w'' (quotaRun id sampleRun sampleDb) = tenantView ''w'' sampleDb"
  by (rule quota_tenant_isolation) (simp add: sampleRun_def)

text \<open>
  A settled reservation or bundle is final: a row that is committed, released or expired
  is still there, unchanged in every column, after any run of commands.
\<close>

theorem quota_settled_final:
  "{r \<in> set (quota_reservations db). r_status r \<noteq> Reserved}
     \<subseteq> set (quota_reservations (quotaRun h cmds db))
   \<and> {b \<in> set (quota_bundles db). b_status b \<noteq> Reserved} \<subseteq> set (quota_bundles (quotaRun h cmds db))"
proof (induction cmds arbitrary: db)
  case (Cons c cmds)
  then show ?case using evolves_settled[OF quotaExec_evolves[of c db h]]
    by (simp add: subset_iff)
qed auto

text \<open>
  Every run of commands from the empty ledger ends in a well-formed one: identifiers are
  unique, a tenant has at most one bundle per delivery, and no amount is negative.
\<close>

theorem quota_reachable_wf: "quota_wf (quotaRun h cmds quota_empty)"
proof -
  have "quota_wf quota_empty" by (simp add: quota_wf_def quota_empty_def usedAmount_def)
  then show ?thesis unfolding quotaRun_def by (rule ledger.run_keeps)
qed

lemma reservedSum_nonneg: "quota_wf db \<Longrightarrow> 0 \<le> reservedSum u m now db"
  unfolding reservedSum_def quota_wf_def by (intro sum_list_nonneg) auto

text \<open>
  The ledger fails closed: a metric without a limit row admits nothing, so that reserving
  and consuming any valid amount throws, with nothing remaining, and writes nothing.
\<close>

theorem quota_fails_closed:
  assumes "quota_wf db" "quota_limits db (u, m) = None" "0 < a" "a \<le> MAX_SAFE_INTEGER"
  shows "reserve u (JString (metric_name m)) (JNumber (Num a)) JUndefined i now db
           = (Inl (QuotaExceededError m a 0), db)
       \<and> directConsume u (JString (metric_name m)) (JNumber (Num a)) now db
           = (Inl (QuotaExceededError m a 0), db)"
proof -
  have v: "validateQuotaMetric (JString (metric_name m)) = Inr m" by (rule validateQuotaMetric_iff[THEN iffD2]) simp
  have "0 \<le> usedAmount u m db" using assms(1) by (simp add: quota_wf_def)
  with reservedSum_nonneg[OF assms(1), of u m now]
  have g: "getUsageInternal u m now db = (Inr (usageSummary u m now 0 None db), db)"
    and r: "max 0 (- usedAmount u m db - reservedSum u m now db) = 0"
      "- usedAmount u m db - reservedSum u m now db < a"
    using assms(2,3) by (simp_all add: getUsageInternal_def)
  show ?thesis
    using assms(3,4)
    by (simp add: reserve_def directConsume_def v optionalPositive_def withImmediateTransactionSync_def
        seq_def g r del: validateQuotaMetric.simps)
qed

theorem quota_fails_closed_witness:
  "reserve ''u'' (JString ''api_calls'') (JNumber (Num 1)) JUndefined (rid CHR ''d'') 0 sampleDb
     = (Inl (QuotaExceededError Api_calls 1 0), sampleDb)"
  using quota_fails_closed[of sampleDb "''u''" Api_calls 1 "rid CHR ''d''" 0]
  by (simp add: quota_wf_def sampleDb_def usedAmount_def MAX_SAFE_INTEGER_def)

text \<open>
  Committing a reservation accounts exactly: the reservation becomes \<open>committed\<close> with the
  actual amount, which is added to what the tenant has used of the metric, the reserved
  amount stops counting, and every other metric and tenant is as before. When the window is
  due for a reset, the counts start again from zero instead.
\<close>

theorem quota_commit_accounts:
  assumes "quota_wf db" "commit u (JString i) actual now db = (Inr (rsv', us), db')"
    and "findReservation u i db = Some rsv" "\<not> resetDue u (r_resource rsv) now db"
  shows "\<exists>a. (actual = JUndefined \<and> a = r_amount rsv \<or> actual = JNumber (Num a))
       \<and> rsv' = rsv\<lparr>r_status := Committed, r_committedAmount := Some a, r_settledAt := Some now\<rparr>
       \<and> (\<forall>v n. usedAmount v n db' = usedAmount v n db + (if v = u \<and> n = r_resource rsv then a else 0))
       \<and> (\<forall>v n. reservedSum v n now db'
               = reservedSum v n now db - (if v = u \<and> n = r_resource rsv then r_amount rsv else 0))
       \<and> us_used us = usedAmount u (r_resource rsv) db + a"
proof -
  from assms(2) obtain a db1 where c: "r_status rsv = Reserved" "now < r_expiresAt rsv"
    "actual = JUndefined \<Longrightarrow> a = r_amount rsv" "actual \<noteq> JUndefined \<Longrightarrow> actual = JNumber (Num a)"
    "db1 = addUsed u (r_resource rsv) a now (updateReserved u i
        (\<lambda>r. r\<lparr>r_status := Committed, r_committedAmount := Some a, r_settledAt := Some now\<rparr>) db)"
    "findReservation u i db1 = Some rsv'" "getUsageInternal u (r_resource rsv) now db1 = (Inr us, db')"
    using assms(3) by (elim commit_Inr) (auto split: if_splits)
  have d: "db' = db1" "us_used us = usedAmount u (r_resource rsv) db1"
    using getUsageInternal_not_due[of u "r_resource rsv" now db1] assms(4) c(5,7)
    by (auto simp: updateReserved_def)
  have "rsv' = rsv\<lparr>r_status := Committed, r_committedAmount := Some a, r_settledAt := Some now\<rparr>"
    using c(1,6) assms(3) findReservation_Some[OF assms(3)] unfolding c(5)
    by (auto simp: findReservation_def updateReserved_def tbl_get_update_same)
  then show ?thesis
    using gauge_commit[OF assms(1,3) c(1,2), where a = a] c(3,4) d unfolding c(5) by auto
qed

theorem quota_commit_accounts_witness:
  "\<exists>rsv' us db'. commit ''u'' (JString (rid CHR ''d'')) (JNumber (Num 4)) 5 reservedDb = (Inr (rsv', us), db')
     \<and> us_used us = 4 \<and> usedAmount ''u'' Tokens db' = 4 \<and> reservedSum ''u'' Tokens 5 db' = 0"
proof -
  let ?c = "commit ''u'' (JString (rid CHR ''d'')) (JNumber (Num 4)) 5 reservedDb"
  obtain rsv' us db' where c: "?c = (Inr (rsv', us), db')"
  proof -
    have "\<not> isl (fst ?c)" by code_simp
    then show thesis using that by (metis prod.collapse sum.collapse(2))
  qed
  have "quota_wf reservedDb"
    by (simp add: quota_wf_def reservedDb_def sampleDb_def usedAmount_def sampleReservation_def)
  moreover have "findReservation ''u'' (rid CHR ''d'') reservedDb = Some (sampleReservation (rid CHR ''d'') 7 1000)"
    "\<not> resetDue ''u'' (r_resource (sampleReservation (rid CHR ''d'') 7 1000)) 5 reservedDb" by code_simp+
  moreover have "usedAmount ''u'' Tokens reservedDb = 0" "reservedSum ''u'' Tokens 5 reservedDb = 7"
    "r_resource (sampleReservation (rid CHR ''d'') 7 1000) = Tokens"
    "r_amount (sampleReservation (rid CHR ''d'') 7 1000) = 7" by code_simp+
  ultimately show ?thesis using quota_commit_accounts[OF _ c] c by auto
qed

text \<open>
  A reservation whose time has passed can no longer be committed, whatever amount is given.
  The attempt throws \<open>expired\<close>, and because it throws inside the transaction the status
  \<open>expired\<close> that the code writes just before is rolled back: the row stays \<open>reserved\<close>.
\<close>

theorem quota_stale_commit_rolls_back:
  assumes "validateReservationId (JString i) = Inr i" "findReservation u i db = Some rsv"
    and "r_status rsv = Reserved" "r_expiresAt rsv \<le> now"
  shows "commit u (JString i) actual now db = (Inl (ReservationSettledError ''expired''), db)"
  using assms by (simp add: commit_def withImmediateTransactionSync_def)

theorem quota_stale_commit_rolls_back_witness:
  "commit ''u'' (JString (rid CHR ''d'')) JUndefined 1000 reservedDb
     = (Inl (ReservationSettledError ''expired''), reservedDb)"
  by (rule quota_stale_commit_rolls_back[where rsv = "sampleReservation (rid CHR ''d'') 7 1000"]) code_simp+

end
