(* ===== verification/Quota_Bundle_Theorems.thy ===== *)
theory Quota_Bundle_Theorems
  imports Quota_Theorems
begin

text \<open>
  The theorems about quota bundles and window resets: idempotent replay of a reservation,
  commits that charge once and exactly, the bound they enforce and where it fails, renewal,
  and the reset schedule.
\<close>

section \<open>What a bundle operation leaves\<close>

definition bundleAmount :: "int \<times> int \<times> int \<Rightarrow> quotaMetric \<Rightarrow> int" where
  "bundleAmount amounts n = (case amounts of (turns, messages, tokens) \<Rightarrow>
     (case n of Turns \<Rightarrow> turns | Messages \<Rightarrow> messages | Tokens \<Rightarrow> tokens | _ \<Rightarrow> 0))"

text \<open>A bundle reservation that succeeded by inserting: the new row is last and its keys are new.\<close>

lemma reserveFreshBundle_Inr:
  assumes "reserveFreshBundle u inp h turns messages tokens e ids now db = (Inr b, db')"
  obtains bs where "quota_bundles db' = bs @ [b]" "b_user b = u" "b_deliveryId b = rb_deliveryId inp"
    "b_requestHash b = h" "b_status b = Reserved" "b_expiresAt b = e"
    "\<forall>x \<in> set bs. b_id x \<noteq> b_id b \<and> \<not> (b_user x = u \<and> b_deliveryId x = rb_deliveryId inp)"
proof -
  let ?b = "\<lparr> b_id = bundleId ids, b_user = u, b_deliveryId = rb_deliveryId inp,
          b_sessionId = rb_sessionId inp, b_requestHash = h, b_status = Reserved,
          b_turns = turns, b_messages = messages, b_tokens = tokens,
          b_isEstimateTokens = rb_isEstimateTokens inp, b_turnsCommitted = None,
          b_messagesCommitted = None, b_tokensCommitted = None, b_expiresAt = e,
          b_createdAt = now, b_settledAt = None \<rparr>"
  from assms obtain db4 db5 db6 db7 where
    5: "insertBundle ?b db4 = (Inr (), db5)"
    and "insertReservation (linkedReservation (resTurnsId ids) u (bundleId ids)
            (rb_deliveryId inp) Turns turns e now) db5 = (Inr (), db6)"
    "insertReservation (linkedReservation (resMessagesId ids) u (bundleId ids)
            (rb_deliveryId inp) Messages messages e now) db6 = (Inr (), db7)"
    "insertReservation (linkedReservation (resTokensId ids) u (bundleId ids)
            (rb_deliveryId inp) Tokens tokens e now) db7 = (Inr (), db')"
    and f: "findBundleById u (bundleId ids) db' = Some b"
    unfolding reserveFreshBundle_def op_iffs by (auto split: option.splits)
  then have q: "quota_bundles db' = quota_bundles db5" by (auto simp: insertReservation_Inr)
  from 5 have q5: "quota_bundles db5 = quota_bundles db4 @ [?b]"
    and new: "\<forall>x \<in> set (quota_bundles db4). b_id x \<noteq> bundleId ids
        \<and> \<not> (b_user x = u \<and> b_deliveryId x = rb_deliveryId inp)"
    by (auto simp: insertBundle_def split: if_splits)
  have "tbl_get (\<lambda>b. b_id b = bundleId ids \<and> b_user b = u) (quota_bundles db4) = None"
    using new by (auto simp: tbl_get_None)
  with f have "b = ?b"
    by (simp add: findBundleById_def q q5 tbl_get_append) (simp add: tbl_get_def)
  with new q q5 show thesis by (intro that[of "quota_bundles db4"]) auto
qed

lemma findBundleByDeliveryId_last:
  assumes "quota_bundles db = bs @ [b]" "b_user b = u" "b_deliveryId b = d"
    and "\<forall>x \<in> set bs. \<not> (b_user x = u \<and> b_deliveryId x = d)"
  shows "findBundleByDeliveryId u d db = Some b"
proof -
  have "tbl_get (\<lambda>b. b_deliveryId b = d \<and> b_user b = u) bs = None" using assms(4) by (auto simp: tbl_get_None)
  with assms(1-3) show ?thesis
    by (simp add: findBundleByDeliveryId_def tbl_get_append) (simp add: tbl_get_def)
qed

lemma findBundleById_Some:
  "findBundleById u i db = Some b \<Longrightarrow> b \<in> set (quota_bundles db) \<and> b_id b = i \<and> b_user b = u"
  unfolding findBundleById_def by (auto dest: tbl_get_Some)

text \<open>
  A commit of a reserved bundle that succeeds: the amounts parsed, the checks passed, and the
  writes of \<open>settleCommitted\<close>.
\<close>

lemma commitBundle_Inr:
  assumes "commitBundle u i usage now db = (Inr b', db')" "validateBundleId i = Inr bId"
    and "findBundleById u bId db = Some b" "b_status b = Reserved"
  obtains turns messages tokens where "parseActualUsage usage = Inr (turns, messages, tokens)"
    "turns = b_turns b" "messages = b_messages b"
    "checkCommitMetrics u b [(Turns, turns), (Messages, messages), (Tokens, tokens)] now db = Inr ()"
    "settleCommitted u bId turns messages tokens now db = (Inr b', db')"
  using assms
  by (auto simp: commitBundle_def commitBundleInTransactionSync_def op_iffs split: if_splits)

lemma checkCommitMetrics_Inr:
  assumes "checkCommitMetrics u b ms now db = Inr ()" "(n, a) \<in> set ms"
  shows "\<exists>row. quota_limits db (u, n) = Some row \<and>
     (0 \<le> limit_amount row \<longrightarrow> \<not> (n = Tokens \<and> b_isEstimateTokens b) \<longrightarrow>
        a \<le> max 0 (limit_amount row - usedAmount u n db - otherReserved u n now (b_id b) db))"
  using assms
  by (induction u b ms now db rule: checkCommitMetrics.induct)
     (auto simp: Let_def split: option.splits if_splits)

lemma settleCommitted_Inr:
  assumes "settleCommitted u bId turns messages tokens now db = (Inr b', db')"
  shows "usedAmount v n db' = usedAmount v n db
           + (if v = u then bundleAmount (turns, messages, tokens) n else 0)"
    and "quota_limits db' = quota_limits db"
    and "tbl_changes (linkedReserved u bId) (quota_reservations db) = 3"
    and "quota_reservations db' = tbl_update (linkedReserved u bId)
           (\<lambda>r. r\<lparr>r_status := Committed, r_committedAmount := Some (committedFor turns messages tokens r),
                  r_settledAt := Some now\<rparr>) (quota_reservations db)"
    and "quota_bundles db' = tbl_update (\<lambda>b. b_id b = bId \<and> b_user b = u \<and> b_status b = Reserved)
               (\<lambda>b. b\<lparr>b_status := Committed, b_turnsCommitted := Some turns,
                      b_messagesCommitted := Some messages, b_tokensCommitted := Some tokens,
                      b_settledAt := Some now\<rparr>) (quota_bundles db)"
    and "findBundleById u bId db' = Some b'"
  using assms
  by (auto simp: settleCommitted_def Let_def bundleAmount_def split: if_splits option.splits quotaMetric.splits)

lemma settleCommitted_bundle:
  assumes "settleCommitted u bId turns messages tokens now db = (Inr b', db')"
    and "findBundleById u bId db = Some b" "b_status b = Reserved"
  shows "b' = b\<lparr>b_status := Committed, b_turnsCommitted := Some turns, b_messagesCommitted := Some messages,
                b_tokensCommitted := Some tokens, b_settledAt := Some now\<rparr>"
  using settleCommitted_Inr(5,6)[OF assms(1)] assms(2,3) findBundleById_Some[OF assms(2)]
  by (auto simp: findBundleById_def tbl_get_update_same)

text \<open>What stays reserved after a commit: the reservations of other bundles and of none.\<close>

definition unbundledReserved :: "string \<Rightarrow> quotaMetric \<Rightarrow> instant \<Rightarrow> quota_db \<Rightarrow> int" where
  "unbundledReserved u m now db =
     sum_list (map r_amount (filter (\<lambda>r. active u m now r \<and> r_bundleId r = None) (quota_reservations db)))"

lemma reservedSum_after_settle:
  "sum_list (map r_amount (filter (active u n now) (tbl_update (linkedReserved u bId)
      (\<lambda>r. r\<lparr>r_status := Committed, r_committedAmount := Some (g r), r_settledAt := Some t\<rparr>) rows)))
   = sum_list (map r_amount (filter (\<lambda>r. active u n now r
        \<and> (case r_bundleId r of None \<Rightarrow> False | Some b \<Rightarrow> b \<noteq> bId)) rows))
   + sum_list (map r_amount (filter (\<lambda>r. active u n now r \<and> r_bundleId r = None) rows))"
  by (induction rows) (auto simp: tbl_update_Cons active_def linkedReserved_def split: option.splits)

lemma gauge_settleCommitted:
  assumes "settleCommitted u bId turns messages tokens now db = (Inr b', db')"
  shows "gauge u n now db' = usedAmount u n db + bundleAmount (turns, messages, tokens) n
           + otherReserved u n now bId db + unbundledReserved u n now db"
  by (simp add: gauge_def settleCommitted_Inr(1)[OF assms] reservedSum_def settleCommitted_Inr(4)[OF assms]
      reservedSum_after_settle otherReserved_def unbundledReserved_def)

text \<open>
  Reserving a bundle is idempotent: repeating a request whose first attempt succeeded, at a
  time when the bundle is committed or has not lapsed and with whatever fresh identifiers,
  returns the same bundle and reserves nothing more.
\<close>

theorem quota_bundle_replay:
  assumes "reserveBundle sha u inp ids now db = (Inr b, db')"
    and "b_status b = Committed \<or> now' < b_expiresAt b"
  shows "reserveBundle sha u inp ids' now' db' = (Inr b, db')"
proof -
  from assms(1) obtain turns messages tokens ttl h where
    v: "assertPositiveInteger (rb_turns inp) = Inr turns" "assertPositiveInteger (rb_messages inp) = Inr messages"
      "assertNonNegativeInteger (rb_tokens inp) = Inr tokens" "optionalPositive (rb_ttlSeconds inp) 2100 = Inr ttl"
      "(case rb_requestHash inp of Some h \<Rightarrow> Inr h
        | None \<Rightarrow> computeCanonicalQuotaRequestHash sha
                \<lparr> cq_userId = u, cq_sessionId = rb_sessionId inp, cq_deliveryId = rb_deliveryId inp,
                  cq_turns = JNumber (Num turns), cq_messages = JNumber (Num messages),
                  cq_tokens = JNumber (Num tokens), cq_isEstimateTokens = rb_isEstimateTokens inp \<rparr>) = Inr h"
    unfolding reserveBundle_def by (auto simp: op_iffs)
  have "findBundleByDeliveryId u (rb_deliveryId inp) db' = Some b \<and> b_requestHash b = h
      \<and> (b_status b = Committed \<or> b_status b = Reserved)"
    using assms(1) v unfolding reserveBundle_def
    by (auto simp: Let_def split: option.splits if_splits
        elim!: reserveFreshBundle_Inr intro: findBundleByDeliveryId_last)
  then show ?thesis
    using v assms(2) unfolding reserveBundle_def by (auto simp: withImmediateTransactionSync_def Let_def)
qed

theorem quota_bundle_replay_witness:
  "reserveBundle id ''u'' (sampleInput 2) (sampleIds\<lparr>bundleId := bid CHR ''f''\<rparr>) 9 bundleDb
     = (Inr (hd (quota_bundles bundleDb)), bundleDb)"
proof (rule quota_bundle_replay[where ids = sampleIds and now = 0 and db = sampleDb])
  have "fst (reserveBundle id ''u'' (sampleInput 2) sampleIds 0 sampleDb) = Inr (hd (quota_bundles bundleDb))"
    unfolding bundleDb_def by code_simp
  then show "reserveBundle id ''u'' (sampleInput 2) sampleIds 0 sampleDb = (Inr (hd (quota_bundles bundleDb)), bundleDb)"
    unfolding bundleDb_def by (metis prod.collapse)
  show "b_status (hd (quota_bundles bundleDb)) = Committed \<or> 9 < b_expiresAt (hd (quota_bundles bundleDb))"
    unfolding bundleDb_def by code_simp
qed

text \<open>
  C29. Committing a reserved bundle charges exactly the actual usage: turns and messages must
  equal what was reserved, each of the three metrics grows by its actual amount and every
  other count stays, the three linked reservations are settled, and for a metric whose
  limit is enforced the amount fits beside what is used and what other bundles hold.
\<close>

theorem quota_bundle_commit_charges:
  assumes "commitBundle u (JString bId) usage now db = (Inr b', db')" "validateBundleId (JString bId) = Inr bId"
    and "findBundleById u bId db = Some b" "b_status b = Reserved"
  shows "\<exists>tokens. parseActualUsage usage = Inr (b_turns b, b_messages b, tokens)
     \<and> b' = b\<lparr>b_status := Committed, b_turnsCommitted := Some (b_turns b),
              b_messagesCommitted := Some (b_messages b), b_tokensCommitted := Some tokens,
              b_settledAt := Some now\<rparr>
     \<and> (\<forall>v n. usedAmount v n db'
             = usedAmount v n db + (if v = u then bundleAmount (b_turns b, b_messages b, tokens) n else 0))
     \<and> filter (linkedReserved u bId) (quota_reservations db') = []
     \<and> (\<forall>n \<in> {Turns, Messages, Tokens}. quota_limits db (u, n) \<noteq> None
          \<and> (0 \<le> limitOf u n db \<and> \<not> (n = Tokens \<and> b_isEstimateTokens b) \<longrightarrow>
               bundleAmount (b_turns b, b_messages b, tokens) n
                 \<le> max 0 (limitOf u n db - usedAmount u n db - otherReserved u n now bId db)))"
proof -
  from assms obtain tokens where c: "parseActualUsage usage = Inr (b_turns b, b_messages b, tokens)"
    "checkCommitMetrics u b [(Turns, b_turns b), (Messages, b_messages b), (Tokens, tokens)] now db = Inr ()"
    "settleCommitted u bId (b_turns b) (b_messages b) tokens now db = (Inr b', db')"
    by (rule commitBundle_Inr) auto
  have "filter (linkedReserved u bId) (tbl_update (linkedReserved u bId)
      (\<lambda>r. r\<lparr>r_status := Committed, r_committedAmount := Some (g r), r_settledAt := Some now\<rparr>) rows) = []" for g rows
    by (induction rows) (auto simp: tbl_update_Cons linkedReserved_def)
  moreover have "quota_limits db (u, n) \<noteq> None
      \<and> (0 \<le> limitOf u n db \<and> \<not> (n = Tokens \<and> b_isEstimateTokens b) \<longrightarrow>
           a \<le> max 0 (limitOf u n db - usedAmount u n db - otherReserved u n now bId db))"
    if "(n, a) \<in> {(Turns, b_turns b), (Messages, b_messages b), (Tokens, tokens)}" for n a
    using checkCommitMetrics_Inr[OF c(2), of n a] that findBundleById_Some[OF assms(3)] by (auto simp: limitOf_def)
  ultimately show ?thesis
    using c(1) settleCommitted_bundle[OF c(3) assms(3,4)] settleCommitted_Inr(1,4)[OF c(3)]
    by (intro exI[of _ tokens]) (simp add: bundleAmount_def)
qed

theorem quota_bundle_commit_charges_witness:
  "\<exists>b' db'. commitBundle ''u'' (JString (bid CHR ''a'')) (sampleUsage 5) 7 bundleDb = (Inr b', db')
     \<and> usedAmount ''u'' Tokens db' = 5 \<and> usedAmount ''u'' Turns db' = 1"
proof -
  let ?c = "commitBundle ''u'' (JString (bid CHR ''a'')) (sampleUsage 5) 7 bundleDb"
  let ?b = "hd (quota_bundles bundleDb)"
  have "\<not> isl (fst ?c)" unfolding bundleDb_def by code_simp
  then obtain b' db' where c: "?c = (Inr b', db')" by (metis prod.collapse sum.collapse(2))
  have v: "validateBundleId (JString (bid CHR ''a'')) = Inr (bid CHR ''a'')" by code_simp
  have f: "findBundleById ''u'' (bid CHR ''a'') bundleDb = Some ?b" "b_status ?b = Reserved"
    "b_turns ?b = 1" "b_messages ?b = 1" "usedAmount ''u'' Tokens bundleDb = 0" "usedAmount ''u'' Turns bundleDb = 0"
    unfolding bundleDb_def by code_simp+
  have p: "parseActualUsage (sampleUsage 5) = Inr (1, 1, 5)" by code_simp
  show ?thesis
    using quota_bundle_commit_charges[OF c v f(1,2)] c f(3-6) p by (auto simp: bundleAmount_def)
qed

text \<open>
  A bundle is charged once: after a successful commit, committing it again, at any time and
  with any usage, returns the same bundle and changes nothing; releasing it does not refund.
\<close>

theorem quota_bundle_commit_once:
  assumes "commitBundle u i usage now db = (Inr b, db')"
  shows "commitBundle u i usage' now' db' = (Inr b, db') \<and> releaseBundle u i now' db' = (Inr b, db')"
proof -
  from assms obtain bId where v: "validateBundleId i = Inr bId"
    by (auto simp: commitBundle_def commitBundleInTransactionSync_def op_iffs)
  with assms obtain b0 where f: "findBundleById u bId db = Some b0"
    by (auto simp: commitBundle_def commitBundleInTransactionSync_def op_iffs split: option.splits)
  have "findBundleById u bId db' = Some b \<and> b_status b = Committed"
  proof (cases "b_status b0 = Reserved")
    case True
    with assms v f show ?thesis
      by (elim commitBundle_Inr) (auto dest: settleCommitted_bundle settleCommitted_Inr(6))
  next
    case False
    with assms v f show ?thesis
      by (auto simp: commitBundle_def commitBundleInTransactionSync_def op_iffs split: if_splits)
  qed
  with v show ?thesis
    by (simp add: commitBundle_def commitBundleInTransactionSync_def releaseBundle_def
        releaseBundleInTransactionSync_def withImmediateTransactionSync_def)
qed

theorem quota_bundle_commit_once_witness:
  "let r = commitBundle ''u'' (JString (bid CHR ''a'')) (sampleUsage 5) 7 bundleDb
   in \<not> isl (fst r) \<and> commitBundle ''u'' (JString (bid CHR ''a'')) (sampleUsage 9) 8 (snd r) = r"
proof -
  let ?r = "commitBundle ''u'' (JString (bid CHR ''a'')) (sampleUsage 5) 7 bundleDb"
  have 1: "\<not> isl (fst ?r)" unfolding bundleDb_def by code_simp
  then obtain b db' where r: "?r = (Inr b, db')" by (metis prod.collapse sum.collapse(2))
  show ?thesis using 1 quota_bundle_commit_once[OF r] r by simp
qed

text \<open>
  When a tenant holds no active reservation outside bundles, a successful commit keeps the
  metric within its limit: of turns and messages always, of tokens when the reserved amount
  was not an estimate and some tokens were used.
\<close>

theorem quota_bundle_commit_within:
  assumes "commitBundle u (JString bId) usage now db = (Inr b', db')" "validateBundleId (JString bId) = Inr bId"
    and "findBundleById u bId db = Some b" "b_status b = Reserved"
    and "parseActualUsage usage = Inr amounts" "n \<in> {Turns, Messages, Tokens}"
    and "0 < bundleAmount amounts n" "\<not> (n = Tokens \<and> b_isEstimateTokens b)"
    and "unbundledReserved u n now db = 0"
  shows "withinLimit u n now db'"
proof -
  from assms(1-4) obtain turns messages tokens where c: "parseActualUsage usage = Inr (turns, messages, tokens)"
    "checkCommitMetrics u b [(Turns, turns), (Messages, messages), (Tokens, tokens)] now db = Inr ()"
    "settleCommitted u bId turns messages tokens now db = (Inr b', db')"
    by (rule commitBundle_Inr)
  have "(n, bundleAmount amounts n) \<in> set [(Turns, turns), (Messages, messages), (Tokens, tokens)]"
    using assms(5,6) c(1) by (auto simp: bundleAmount_def)
  from checkCommitMetrics_Inr[OF c(2) this] show ?thesis
    using assms(5-9) c(1) gauge_settleCommitted[OF c(3), of n] findBundleById_Some[OF assms(3)]
      settleCommitted_Inr(2)[OF c(3)]
    by (auto simp: withinLimit_def limitOf_def)
qed

theorem quota_bundle_commit_within_witness:
  "withinLimit ''u'' Tokens 7 (snd (commitBundle ''u'' (JString (bid CHR ''a'')) (sampleUsage 10) 7 bundleDb))"
proof -
  let ?c = "commitBundle ''u'' (JString (bid CHR ''a'')) (sampleUsage 10) 7 bundleDb"
  have "\<not> isl (fst ?c)" unfolding bundleDb_def by code_simp
  then obtain b' db' where c: "?c = (Inr b', db')" by (metis prod.collapse sum.collapse(2))
  have "withinLimit ''u'' Tokens 7 db'"
  proof (rule quota_bundle_commit_within[OF c, where b = "hd (quota_bundles bundleDb)" and amounts = "(1, 1, 10)"])
  qed (unfold bundleDb_def, code_simp+)
  then show ?thesis using c by simp
qed

text \<open>
  With a reservation outside every bundle the commit check is too weak: its \<open>bundle_id\<close> is
  NULL, which \<open>bundle_id != ?\<close> does not select, so eight reserved tokens of a limit of ten
  do not keep a bundle from committing ten, and usage and reservations sum to eighteen.
\<close>

theorem quota_bundle_commit_ignores_unbundled:
  "let db = quotaRun id [(''u'', 0, ReserveBundle (sampleInput 2) sampleIds),
                         (''u'', 1, Reserve (JString ''tokens'') (JNumber (Num 8)) JUndefined (rid CHR ''d''))] sampleDb;
       r = commitBundle ''u'' (JString (bid CHR ''a'')) (sampleUsage 10) 2 db
   in withinLimit ''u'' Tokens 1 db \<and> \<not> isl (fst r) \<and> limitOf ''u'' Tokens (snd r) = 10
      \<and> gauge ''u'' Tokens 2 (snd r) = 18"
  by code_simp

text \<open>
  Renewing extends a bundle whose time has already passed, without a quota check: a bundle
  of two tokens lapses, all ten tokens are consumed meanwhile, and the renewal makes its
  reservation count again, beyond the limit.
\<close>

theorem quota_renew_ignores_quota:
  "let db = quotaRun id [(''u'', 0, ReserveBundle (sampleInput 2) sampleIds),
                         (''u'', 2100000, DirectConsume (JString ''tokens'') (JNumber (Num 10)))] sampleDb;
       r = renewBundle ''u'' (JString (bid CHR ''a'')) JUndefined 2100001 db
   in gauge ''u'' Tokens 2100001 db = 10 \<and> \<not> isl (fst r) \<and> limitOf ''u'' Tokens (snd r) = 10
      \<and> gauge ''u'' Tokens 2100001 (snd r) = 12"
  by code_simp

section \<open>Window resets\<close>

text \<open>
  C36. A reset that is due is scheduled for the first instant of the row's own calendar after
  the clock: whole days or whole windows from the old instant, or whole calendar months; one
  step less would not have passed the clock.
\<close>

theorem quota_reset_next:
  assumes "advanceResetAt (Iso t) row now = Inr (Some t')" "t \<le> now"
  shows "now < t' \<and>
     (if reset_interval row = Some ''monthly''
      then \<exists>k. t' = (advanceUtcMonth ^^ k) t \<and> (\<forall>j<k. (advanceUtcMonth ^^ j) t \<le> now)
      else \<exists>k::nat. \<exists>step. step = (if reset_interval row = Some ''daily'' then 86400 * 1000
                                  else the (window_seconds row) * 1000)
             \<and> t' = t + int k * step \<and> t' - step \<le> now)"
  using assms advanceResetAt_gt[OF assms(1)] advanceMonthly_iterates[of now t]
    advanceBy_steps[of "86400 * 1000" t now] advanceBy_steps[of "the (window_seconds row) * 1000" t now]
  by (auto simp: advanceResetAt_def split: if_splits option.splits) metis+

theorem quota_reset_next_witness:
  "advanceResetAt (Iso 1000) ((plainLimit 5)\<lparr>window_seconds := Some 60\<rparr>) 200000 = Inr (Some 241000)
   \<and> (200000::int) < 241000"
proof -
  have 1: "advanceResetAt (Iso 1000) ((plainLimit 5)\<lparr>window_seconds := Some 60\<rparr>) 200000 = Inr (Some 241000)"
    by code_simp
  from quota_reset_next[OF this] 1 show ?thesis by simp
qed

text \<open>
  A monthly reset lands in the following calendar month (of the next year after December)
  on the same day, or on that month's last day when it is shorter, at the same time of day.
\<close>

theorem advanceUtcMonth_next_month:
  assumes "100 \<le> getUTCFullYear t"
  shows "getUTCMonth (advanceUtcMonth t) = (getUTCMonth t + 1) mod 12
       \<and> getUTCFullYear (advanceUtcMonth t) = getUTCFullYear t + (if getUTCMonth t = 11 then 1 else 0)
       \<and> getUTCDate (advanceUtcMonth t)
           = min (getUTCDate t) (daysInMonth (getUTCFullYear (advanceUtcMonth t)) (getUTCMonth (advanceUtcMonth t)))
       \<and> advanceUtcMonth t mod msPerDay = t mod msPerDay \<and> t < advanceUtcMonth t"
  using assms advanceUtcMonth_date[of t] advanceUtcMonth_day(2)[of t] advanceUtcMonth_gt[of t]
  by (simp add: utcYear_def split: if_splits)

text \<open>The instant is 2024-01-31T12:00:00Z; a month later is the 29th of February.\<close>

theorem advanceUtcMonth_next_month_witness:
  "getUTCMonth (advanceUtcMonth 1706702400000) = 1 \<and> getUTCDate (advanceUtcMonth 1706702400000) = 29"
proof -
  have "getUTCFullYear 1706702400000 = 2024" "getUTCMonth 1706702400000 = 0" "getUTCDate 1706702400000 = 31"
    by code_simp+
  then show ?thesis
    using advanceUtcMonth_next_month[of 1706702400000] by (simp add: daysInMonth_def isLeap_def)
qed

text \<open>
  Reading usage resets a window at most once: a second read at the same clock returns the
  same summary and leaves the ledger alone, and the amounts read are those stored.
\<close>

theorem quota_read_idempotent:
  assumes "getUsage u (JString (metric_name m)) now db = (Inr us, db')"
  shows "getUsage u (JString (metric_name m)) now db' = (Inr us, db')
       \<and> us_used us = usedAmount u m db' \<and> us_reserved us = reservedSum u m now db'
       \<and> us_limit us = limitOf u m db
       \<and> (resetDue u m now db \<longrightarrow> us_used us = 0 \<and> us_reserved us = 0)"
proof -
  have v: "validateQuotaMetric (JString (metric_name m)) = Inr m" by (rule validateQuotaMetric_iff[THEN iffD2]) simp
  with assms have g: "getUsageInternal u m now db = (Inr us, db')"
    by (simp add: getUsage_def del: validateQuotaMetric.simps)
  have "us_used us = 0 \<and> us_reserved us = 0" if "resetDue u m now db"
    using g by (cases rule: getUsageInternal_cases) (use that in \<open>auto simp: reservedSum_resetWindow\<close>)
  then show ?thesis
    using getUsageInternal_not_due[OF getUsageInternal_fresh[OF g]] getUsageInternal_summary[OF g]
      getUsageInternal_limitOf[OF g, of u m] v
    by (simp add: getUsage_def del: validateQuotaMetric.simps)
qed

theorem quota_read_idempotent_witness:
  "let db = reservedDb\<lparr>quota_limits := [(''u'', Tokens) \<mapsto>
         (plainLimit 10)\<lparr>reset_at := Some (Iso 500), window_seconds := Some 60\<rparr>]\<rparr>;
       r = getUsage ''u'' (JString (metric_name Tokens)) 900 db
   in us_reserved (projr (fst r)) = 0 \<and> getUsage ''u'' (JString (metric_name Tokens)) 900 (snd r) = r"
proof -
  let ?db = "reservedDb\<lparr>quota_limits := [(''u'', Tokens) \<mapsto>
         (plainLimit 10)\<lparr>reset_at := Some (Iso 500), window_seconds := Some 60\<rparr>]\<rparr>"
  let ?r = "getUsage ''u'' (JString (metric_name Tokens)) 900 ?db"
  have "\<not> isl (fst ?r)" by code_simp
  then obtain us db' where r: "?r = (Inr us, db')" by (metis prod.collapse sum.collapse(2))
  have "resetDue ''u'' Tokens 900 ?db" by code_simp
  with quota_read_idempotent[OF r] r show ?thesis by simp
qed

end
