(* ===== verification/Event_Buffer.thy ===== *)
theory Event_Buffer
  imports Decimal "HOL-Library.AList"
begin

text \<open>
  The bounded per-session event buffer of the event relay
  (\<open>dsh-event-relay/src/bounded-buffer.ts\<close>). The three JavaScript maps are association
  lists in insertion order. An operation that throws keeps the writes it made before: there
  is no transaction here. The clock of \<open>Date.now()\<close> is an argument.
\<close>

section \<open>State\<close>

text \<open>A session event as the buffer sees it: its sequence number, when it carries one, and the rest.\<close>

record sessionEvent =
  e_seq :: "int option"
  e_data :: string

record relayEnvelope =
  cursor :: string
  seqNo :: int
  sessionId :: string
  event :: sessionEvent
  timestamp :: int

record eventBuffer =
  capacity :: int
  buffers :: "(string \<times> relayEnvelope list) list"
  monotonicSeqs :: "(string \<times> int) list"
  acknowledgedSeqs :: "(string \<times> int) list"

datatype bufferError = RelayBackpressureError string int int | TypeError | RangeError

type_synonym 'a buffer_op = "(eventBuffer, bufferError, 'a) op"

record pollEventsOptions =
  po_sessionId :: string
  po_afterCursor :: "string option"
  po_limit :: "int option"

record pollEventsResult =
  pr_sessionId :: string
  pr_envelopes :: "relayEnvelope list"
  pr_latestCursor :: "string option"
  pr_oldestCursor :: "string option"
  pr_acknowledgedCursor :: "string option"
  pr_remainingCount :: int

section \<open>Operations\<close>

definition parseCursorSeq :: "string \<Rightarrow> int" where
  "parseCursorSeq cur =
     (let part = (if CHR '':'' \<in> set cur then last (split_on CHR '':'' cur) else cur)
      in case parseInt part of None \<Rightarrow> 0 | Some n \<Rightarrow> n)"

definition newEventBuffer :: "number \<Rightarrow> bufferError + eventBuffer" where
  "newEventBuffer cap = (case cap of
      Num n \<Rightarrow> if n \<le> 0 \<or> \<not> isSafeInteger (Num n) then Inl RangeError
        else Inr \<lparr> capacity = n, buffers = [], monotonicSeqs = [], acknowledgedSeqs = [] \<rparr>
    | _ \<Rightarrow> Inl RangeError)"

definition buf :: "eventBuffer \<Rightarrow> string \<Rightarrow> relayEnvelope list" where
  "buf b s = (case map_of (buffers b) s of None \<Rightarrow> [] | Some es \<Rightarrow> es)"

definition getBufferSize :: "eventBuffer \<Rightarrow> string option \<Rightarrow> nat" where
  "getBufferSize b s =
     (if opt_truthy s then length (buf b (the s)) else sum_list (map (length \<circ> snd) (buffers b)))"

definition getAcknowledgedSeq :: "eventBuffer \<Rightarrow> string \<Rightarrow> int" where
  "getAcknowledgedSeq b s = (case map_of (acknowledgedSeqs b) s of None \<Rightarrow> 0 | Some n \<Rightarrow> n)"

definition lastSeq :: "eventBuffer \<Rightarrow> string \<Rightarrow> int" where
  "lastSeq b s = (case map_of (monotonicSeqs b) s of None \<Rightarrow> 0 | Some n \<Rightarrow> n)"

definition trimSession :: "string \<Rightarrow> eventBuffer \<Rightarrow> eventBuffer" where
  "trimSession s b =
     (if buf b s = [] then b
      else let acked = getAcknowledgedSeq b s in
        if acked \<le> 0 then b
        else let remaining = filter (\<lambda>e. seqNo e > acked) (buf b s) in
          if remaining = [] then b\<lparr>buffers := AList.delete s (buffers b)\<rparr>
          else b\<lparr>buffers := AList.update s remaining (buffers b)\<rparr>)"

definition setAcknowledgedSeq :: "string \<Rightarrow> int \<Rightarrow> eventBuffer \<Rightarrow> eventBuffer" where
  "setAcknowledgedSeq s n b =
     trimSession s (b\<lparr>acknowledgedSeqs := AList.update s n (acknowledgedSeqs b)\<rparr>)"

definition getLatestCursor :: "eventBuffer \<Rightarrow> string \<Rightarrow> string option" where
  "getLatestCursor b s = (if buf b s = [] then None else Some (cursor (last (buf b s))))"

definition getOldestCursor :: "eventBuffer \<Rightarrow> string \<Rightarrow> string option" where
  "getOldestCursor b s = (if buf b s = [] then None else Some (cursor (hd (buf b s))))"

text \<open>\<open>findIndex\<close> and assignment: the first envelope with the number is replaced.\<close>

fun replaceFirst :: "int \<Rightarrow> relayEnvelope \<Rightarrow> relayEnvelope list \<Rightarrow> relayEnvelope list" where
  "replaceFirst n e [] = []"
| "replaceFirst n e (x # xs) = (if seqNo x = n then e # xs else x # replaceFirst n e xs)"

text \<open>
  The numbers: an event's own number is taken as it is, otherwise the session's next one.
\<close>

definition nextSeq :: "eventBuffer \<Rightarrow> string \<Rightarrow> sessionEvent \<Rightarrow> int" where
  "nextSeq b s ev =
     (let n = (case e_seq ev of Some k \<Rightarrow> k | None \<Rightarrow> lastSeq b s + 1)
      in if n \<le> lastSeq b s \<and> e_seq ev = None then lastSeq b s + 1 else n)"

text \<open>A session that has no buffer yet gets an empty one; the number is recorded; the envelope.\<close>

definition openSession :: "string \<Rightarrow> eventBuffer \<Rightarrow> eventBuffer" where
  "openSession s b = (case map_of (buffers b) s of
      None \<Rightarrow> b\<lparr>buffers := AList.update s [] (buffers b)\<rparr> | Some _ \<Rightarrow> b)"

definition recordSeq :: "string \<Rightarrow> int \<Rightarrow> eventBuffer \<Rightarrow> eventBuffer" where
  "recordSeq s n b = b\<lparr>monotonicSeqs := AList.update s (max (lastSeq b s) n) (monotonicSeqs b)\<rparr>"

definition envelopeFor :: "string \<Rightarrow> int \<Rightarrow> sessionEvent \<Rightarrow> int \<Rightarrow> relayEnvelope" where
  "envelopeFor s n ev now = \<lparr> cursor = s @ CHR '':'' # show_int n, seqNo = n, sessionId = s,
                              event = ev, timestamp = now \<rparr>"

definition setBuffer :: "string \<Rightarrow> relayEnvelope list \<Rightarrow> eventBuffer \<Rightarrow> eventBuffer" where
  "setBuffer s es b = b\<lparr>buffers := AList.update s es (buffers b)\<rparr>"

definition push :: "string \<Rightarrow> sessionEvent \<Rightarrow> int \<Rightarrow> relayEnvelope buffer_op" where
  "push s ev now b0 =
     (let b1 = openSession s b0;
          n = nextSeq b1 s ev;
          b2 = recordSeq s n b1;
          envelope = envelopeFor s n ev now
      in if \<exists>e \<in> set (buf b2 s). seqNo e = n
         then (Inr envelope, setBuffer s (replaceFirst n envelope (buf b2 s)) b2)
         else let b3 = trimSession s b2 in
           case map_of (buffers b3) s of
             None \<Rightarrow> (Inl TypeError, b3)
           | Some es \<Rightarrow>
               if int (length es) \<ge> capacity b3
               then (Inl (RelayBackpressureError s (capacity b3) (int (length es))), b3)
               else (Inr envelope, setBuffer s (sort_key seqNo (es @ [envelope])) b3))"

definition poll :: "pollEventsOptions \<Rightarrow> eventBuffer \<Rightarrow> pollEventsResult" where
  "poll opts b =
     (let s = po_sessionId opts;
          ackedSeq = getAcknowledgedSeq b s;
          targetSeq = (case po_afterCursor opts of None \<Rightarrow> 0 | Some c \<Rightarrow> parseCursorSeq c);
          filtered = filter (\<lambda>e. seqNo e > targetSeq) (buf b s);
          maxLimit = (case po_limit opts of
             Some l \<Rightarrow> if l > 0 then l else capacity b | None \<Rightarrow> capacity b);
          sliced = take (nat maxLimit) filtered
      in \<lparr> pr_sessionId = s, pr_envelopes = sliced, pr_latestCursor = getLatestCursor b s,
           pr_oldestCursor = getOldestCursor b s,
           pr_acknowledgedCursor = (if ackedSeq > 0 then Some (s @ CHR '':'' # show_int ackedSeq) else None),
           pr_remainingCount = max 0 (int (length filtered) - int (length sliced)) \<rparr>)"

definition ack :: "string \<Rightarrow> string \<Rightarrow> eventBuffer \<Rightarrow> nat \<times> eventBuffer" where
  "ack s cur b =
     (let n = parseCursorSeq cur;
          b1 = (if n > getAcknowledgedSeq b s
                then b\<lparr>acknowledgedSeqs := AList.update s n (acknowledgedSeqs b)\<rparr> else b);
          b2 = trimSession s b1
      in (getBufferSize b2 (Some s), b2))"

text \<open>The loop stops at backpressure and lets any other exception through.\<close>

fun feedHistoricalEvents :: "string \<Rightarrow> (sessionEvent \<times> int) list \<Rightarrow> nat buffer_op" where
  "feedHistoricalEvents s [] b = (Inr 0, b)"
| "feedHistoricalEvents s ((ev, now) # evs) b =
     (case push s ev now b of
        (Inr _, b') \<Rightarrow> (case feedHistoricalEvents s evs b' of
            (Inr n, b'') \<Rightarrow> (Inr (Suc n), b'') | (Inl e, b'') \<Rightarrow> (Inl e, b''))
      | (Inl (RelayBackpressureError _ _ _), b') \<Rightarrow> (Inr 0, b')
      | (Inl e, b') \<Rightarrow> (Inl e, b'))"

definition clear :: "eventBuffer \<Rightarrow> eventBuffer" where
  "clear b = b\<lparr>buffers := [], monotonicSeqs := [], acknowledgedSeqs := []\<rparr>"

text \<open>The commands a relay issues to its buffer.\<close>

datatype bufferCmd =
    Push string sessionEvent int
  | Ack string string
  | SetAck string int
  | Feed string "(sessionEvent \<times> int) list"
  | Clear

fun bufferExec :: "bufferCmd \<Rightarrow> unit buffer_op" where
  "bufferExec (Push s ev now) b = (case push s ev now b of (r, b') \<Rightarrow> (map_sum id (\<lambda>_. ()) r, b'))"
| "bufferExec (Ack s c) b = (Inr (), snd (ack s c b))"
| "bufferExec (SetAck s n) b = (Inr (), setAcknowledgedSeq s n b)"
| "bufferExec (Feed s evs) b = (case feedHistoricalEvents s evs b of (r, b') \<Rightarrow> (map_sum id (\<lambda>_. ()) r, b'))"
| "bufferExec Clear b = (Inr (), clear b)"

definition bufferRun :: "bufferCmd list \<Rightarrow> eventBuffer \<Rightarrow> eventBuffer" where
  "bufferRun cmds b = fold (\<lambda>c d. snd (bufferExec c d)) cmds b"

text \<open>A buffer of capacity two, and an event with the number \<open>n\<close>.\<close>

definition smallBuffer :: eventBuffer where
  "smallBuffer = \<lparr> capacity = 2, buffers = [], monotonicSeqs = [], acknowledgedSeqs = [] \<rparr>"

definition numbered :: "int \<Rightarrow> sessionEvent" where
  "numbered n = \<lparr> e_seq = Some n, e_data = ''x'' \<rparr>"

section \<open>The invariant\<close>

text \<open>
  Each session's envelopes are strictly ordered by number, within the capacity, and labelled
  with the session and the cursor of their number.
\<close>

definition session_wf :: "int \<Rightarrow> string \<Rightarrow> relayEnvelope list \<Rightarrow> bool" where
  "session_wf cap s es \<longleftrightarrow> int (length es) \<le> cap \<and> sorted_wrt (<) (map seqNo es) \<and>
     list_all (\<lambda>e. sessionId e = s \<and> cursor e = s @ CHR '':'' # show_int (seqNo e)) es"

definition buffer_wf :: "eventBuffer \<Rightarrow> bool" where
  "buffer_wf b \<longleftrightarrow> 0 < capacity b \<and> distinct (map fst (buffers b)) \<and>
     (\<forall>s es. map_of (buffers b) s = Some es \<longrightarrow> session_wf (capacity b) s es)"

definition seqs :: "eventBuffer \<Rightarrow> string \<Rightarrow> int list" where
  "seqs b s = map seqNo (buf b s)"

lemma buf_update [simp]:
  "buf (b\<lparr>buffers := AList.update s es (buffers b)\<rparr>) t = (if t = s then es else buf b t)"
  "buf (b\<lparr>buffers := AList.delete s (buffers b)\<rparr>) t = (if t = s then [] else buf b t)"
  by (simp_all add: buf_def update_conv' delete_conv')

lemma buf_frame [simp]:
  "buf (b\<lparr>monotonicSeqs := m\<rparr>) s = buf b s" "buf (b\<lparr>acknowledgedSeqs := a\<rparr>) s = buf b s"
  by (simp_all add: buf_def)

lemma getAck_frame [simp]:
  "getAcknowledgedSeq (b\<lparr>buffers := x\<rparr>) s = getAcknowledgedSeq b s"
  "getAcknowledgedSeq (b\<lparr>monotonicSeqs := y\<rparr>) s = getAcknowledgedSeq b s"
  "getAcknowledgedSeq (b\<lparr>acknowledgedSeqs := AList.update t n (acknowledgedSeqs b)\<rparr>) s
     = (if s = t then n else getAcknowledgedSeq b s)"
  by (simp_all add: getAcknowledgedSeq_def update_conv')

lemma lastSeq_frame [simp]: "lastSeq (b\<lparr>buffers := x\<rparr>) s = lastSeq b s"
  by (simp add: lastSeq_def)

lemma buffer_wf_buf: "buffer_wf b \<Longrightarrow> session_wf (capacity b) s (buf b s)"
  by (cases "map_of (buffers b) s") (auto simp: buffer_wf_def buf_def session_wf_def)

lemma buffer_wf_capacity: "buffer_wf b \<Longrightarrow> 0 < capacity b"
  by (simp add: buffer_wf_def)

lemma buffer_wf_update:
  "buffer_wf b \<Longrightarrow> session_wf (capacity b) s es \<Longrightarrow> buffer_wf (b\<lparr>buffers := AList.update s es (buffers b)\<rparr>)"
  by (auto simp: buffer_wf_def update_conv' distinct_update)

lemma buffer_wf_delete: "buffer_wf b \<Longrightarrow> buffer_wf (b\<lparr>buffers := AList.delete s (buffers b)\<rparr>)"
  by (auto simp: buffer_wf_def delete_conv' distinct_delete split: if_splits)

lemma buffer_wf_frame [simp]:
  "buffer_wf (b\<lparr>monotonicSeqs := m\<rparr>) = buffer_wf b" "buffer_wf (b\<lparr>acknowledgedSeqs := a\<rparr>) = buffer_wf b"
  by (simp_all add: buffer_wf_def)

lemma session_wf_filter: "session_wf cap s es \<Longrightarrow> session_wf cap s (filter P es)"
  using length_filter_le[of P es]
  by (auto simp: session_wf_def sorted_wrt_map sorted_wrt_filter list_all_iff simp del: length_filter_le)

lemma trimSession_frame [simp]:
  "capacity (trimSession s b) = capacity b" "monotonicSeqs (trimSession s b) = monotonicSeqs b"
  "acknowledgedSeqs (trimSession s b) = acknowledgedSeqs b"
  "getAcknowledgedSeq (trimSession s b) t = getAcknowledgedSeq b t"
  "lastSeq (trimSession s b) t = lastSeq b t"
  by (simp_all add: trimSession_def Let_def lastSeq_def)

lemma buf_trimSession:
  "buf (trimSession s b) t =
     (if t = s \<and> 0 < getAcknowledgedSeq b s then filter (\<lambda>e. seqNo e > getAcknowledgedSeq b s) (buf b s) else buf b t)"
  by (auto simp: trimSession_def Let_def)

lemma buffer_wf_trimSession: "buffer_wf b \<Longrightarrow> buffer_wf (trimSession s b)"
  by (auto simp: trimSession_def Let_def intro!: buffer_wf_delete buffer_wf_update session_wf_filter buffer_wf_buf)

lemma seqs_replaceFirst: "seqNo e = n \<Longrightarrow> map seqNo (replaceFirst n e es) = map seqNo es"
  by (induction es) auto

lemma session_wf_replaceFirst:
  assumes "session_wf cap s es" "seqNo e = n" "sessionId e = s" "cursor e = s @ CHR '':'' # show_int n"
  shows "session_wf cap s (replaceFirst n e es)"
proof -
  have "list_all (\<lambda>e. sessionId e = s \<and> cursor e = s @ CHR '':'' # show_int (seqNo e)) (replaceFirst n e xs)"
    if "list_all (\<lambda>e. sessionId e = s \<and> cursor e = s @ CHR '':'' # show_int (seqNo e)) xs" for xs
    using that assms(2-) by (induction xs) auto
  moreover have "length (replaceFirst n e xs) = length xs" for xs by (induction xs) auto
  ultimately show ?thesis using assms(1,2) by (simp add: session_wf_def seqs_replaceFirst)
qed

lemma session_wf_insert:
  assumes "session_wf cap s es" "int (length es) < cap" "\<forall>x \<in> set es. seqNo x \<noteq> seqNo e"
    and "sessionId e = s" "cursor e = s @ CHR '':'' # show_int (seqNo e)"
  shows "session_wf cap s (sort_key seqNo (es @ [e]))"
proof -
  have "sorted_wrt (<) (map seqNo es)" using assms(1) by (simp add: session_wf_def)
  then have "distinct (map seqNo (es @ [e]))"
    using assms(3) by (auto simp: strict_sorted_iff)
  then have "distinct (map seqNo (sort_key seqNo (es @ [e])))"
    by (auto simp: distinct_map simp del: sort_key_simps)
  then have "sorted_wrt (<) (map seqNo (sort_key seqNo (es @ [e])))"
    by (simp add: strict_sorted_iff del: sort_key_simps)
  then show ?thesis using assms
    by (simp add: session_wf_def list_all_iff)
qed

lemma openSession_frame [simp]:
  "buf (openSession s b) t = buf b t" "capacity (openSession s b) = capacity b"
  "monotonicSeqs (openSession s b) = monotonicSeqs b" "acknowledgedSeqs (openSession s b) = acknowledgedSeqs b"
  by (auto simp: openSession_def buf_def update_conv' split: option.splits)

lemma recordSeq_frame [simp]:
  "buf (recordSeq s n b) t = buf b t" "capacity (recordSeq s n b) = capacity b"
  "buffers (recordSeq s n b) = buffers b" "acknowledgedSeqs (recordSeq s n b) = acknowledgedSeqs b"
  by (simp_all add: recordSeq_def)

lemma setBuffer_frame [simp]:
  "buf (setBuffer s es b) t = (if t = s then es else buf b t)" "capacity (setBuffer s es b) = capacity b"
  "monotonicSeqs (setBuffer s es b) = monotonicSeqs b" "acknowledgedSeqs (setBuffer s es b) = acknowledgedSeqs b"
  by (simp_all add: setBuffer_def)

lemma getAck_cong: "acknowledgedSeqs b = acknowledgedSeqs c \<Longrightarrow> getAcknowledgedSeq b s = getAcknowledgedSeq c s"
  by (simp add: getAcknowledgedSeq_def)

lemma lastSeq_cong: "monotonicSeqs b = monotonicSeqs c \<Longrightarrow> lastSeq b s = lastSeq c s"
  by (simp add: lastSeq_def)

lemma lastSeq_openSession [simp]: "lastSeq (openSession s b) t = lastSeq b t"
  by (rule lastSeq_cong) simp

lemma nextSeq_openSession [simp]: "nextSeq (openSession s b) t ev = nextSeq b t ev"
  by (simp add: nextSeq_def Let_def split: option.split)

lemma envelopeFor_simps [simp]:
  "seqNo (envelopeFor s n ev now) = n" "sessionId (envelopeFor s n ev now) = s"
  "cursor (envelopeFor s n ev now) = s @ CHR '':'' # show_int n" "event (envelopeFor s n ev now) = ev"
  by (simp_all add: envelopeFor_def)

text \<open>The state in which a push looks for its number, with what it may drop already dropped.\<close>

definition prepared :: "string \<Rightarrow> sessionEvent \<Rightarrow> eventBuffer \<Rightarrow> eventBuffer" where
  "prepared s ev b = recordSeq s (nextSeq b s ev) (openSession s b)"

lemma prepared_frame [simp]:
  "buf (prepared s ev b) t = buf b t" "capacity (prepared s ev b) = capacity b"
  "getAcknowledgedSeq (prepared s ev b) t = getAcknowledgedSeq b t"
  by (simp_all add: prepared_def getAcknowledgedSeq_def)

text \<open>What a push does, by cases.\<close>

lemma push_cases:
  fixes s ev now b
  defines "n \<equiv> nextSeq b s ev" and "b3 \<equiv> trimSession s (prepared s ev b)"
  defines "env \<equiv> envelopeFor s n ev now"
  obtains (dup) "\<exists>e \<in> set (buf b s). seqNo e = n"
      "push s ev now b = (Inr env, setBuffer s (replaceFirst n env (buf b s)) (prepared s ev b))"
  | (lost) "\<forall>e \<in> set (buf b s). seqNo e \<noteq> n" "map_of (buffers b3) s = None"
      "push s ev now b = (Inl TypeError, b3)"
  | (full) "\<forall>e \<in> set (buf b s). seqNo e \<noteq> n" "capacity b \<le> int (length (buf b3 s))"
      "push s ev now b = (Inl (RelayBackpressureError s (capacity b) (int (length (buf b3 s)))), b3)"
  | (added) "\<forall>e \<in> set (buf b s). seqNo e \<noteq> n" "int (length (buf b3 s)) < capacity b"
      "push s ev now b = (Inr env, setBuffer s (sort_key seqNo (buf b3 s @ [env])) b3)"
proof (cases "\<exists>e \<in> set (buf b s). seqNo e = n")
  case True
  then show thesis by (intro dup) (auto simp: push_def Let_def prepared_def n_def env_def)
next
  case False
  then have p: "push s ev now b = (case map_of (buffers b3) s of
       None \<Rightarrow> (Inl TypeError, b3)
     | Some es \<Rightarrow> if int (length es) \<ge> capacity b
         then (Inl (RelayBackpressureError s (capacity b) (int (length es))), b3)
         else (Inr env, setBuffer s (sort_key seqNo (es @ [env])) b3))"
    by (auto simp: push_def Let_def prepared_def n_def env_def b3_def split: option.split)
  show thesis
  proof (cases "map_of (buffers b3) s")
    case None
    with False p show thesis by (intro lost) auto
  next
    case (Some es)
    then have "buf b3 s = es" by (simp add: buf_def)
    with False p Some show thesis
      by (cases "int (length es) \<ge> capacity b") (auto intro: full added)
  qed
qed

section \<open>Every operation keeps the invariant\<close>

lemma buffer_wf_setBuffer: "buffer_wf b \<Longrightarrow> session_wf (capacity b) s es \<Longrightarrow> buffer_wf (setBuffer s es b)"
  unfolding setBuffer_def by (rule buffer_wf_update)

lemma buffer_wf_prepared: "buffer_wf b \<Longrightarrow> buffer_wf (prepared s ev b)"
  using buffer_wf_update[of b s "[]"]
  by (auto simp: prepared_def recordSeq_def openSession_def session_wf_def split: option.split
      dest: buffer_wf_capacity)

lemma buffer_wf_push:
  assumes "buffer_wf b"
  shows "buffer_wf (snd (push s ev now b))"
proof -
  note p = buffer_wf_prepared[OF assms, of s ev]
  note t = buffer_wf_trimSession[OF p, of s]
  show ?thesis
  proof (cases rule: push_cases[of b s ev now])
    case dup
    have "session_wf (capacity b) s (replaceFirst (nextSeq b s ev) (envelopeFor s (nextSeq b s ev) ev now) (buf b s))"
      by (rule session_wf_replaceFirst[OF buffer_wf_buf[OF assms]]) simp_all
    with dup p show ?thesis by (simp add: buffer_wf_setBuffer)
  next
    case added
    let ?es = "buf (trimSession s (prepared s ev b)) s"
    have "\<forall>e \<in> set ?es. seqNo e \<noteq> nextSeq b s ev" using added(1) by (auto simp: buf_trimSession)
    with added(2) have "session_wf (capacity b) s (sort_key seqNo (?es @ [envelopeFor s (nextSeq b s ev) ev now]))"
      using buffer_wf_buf[OF t, of s] by (intro session_wf_insert) simp_all
    with added(3) t show ?thesis by (simp add: buffer_wf_setBuffer del: sort_key_simps)
  qed (use t in simp_all)
qed

lemma buffer_wf_ack: "buffer_wf b \<Longrightarrow> buffer_wf (snd (ack s c b))"
  by (simp add: ack_def Let_def buffer_wf_trimSession)

lemma buffer_wf_feed: "buffer_wf b \<Longrightarrow> buffer_wf (snd (feedHistoricalEvents s evs b))"
proof (induction s evs b rule: feedHistoricalEvents.induct)
  case (2 s ev now evs b)
  then show ?case
    using buffer_wf_push[of b s ev now]
    by (auto split: prod.splits sum.splits bufferError.splits)
qed simp

lemma buffer_wf_clear: "buffer_wf b \<Longrightarrow> buffer_wf (clear b)"
  by (simp add: clear_def buffer_wf_def)

interpretation relay: invariant_ops bufferExec buffer_wf
proof
  show "buffer_wf (snd (bufferExec c b))" if "buffer_wf b" for c b
    using that
    by (cases c)
       (simp_all add: case_prod_unfold buffer_wf_push buffer_wf_ack buffer_wf_feed buffer_wf_clear
         setAcknowledgedSeq_def buffer_wf_trimSession)
qed

section \<open>Sessions are independent and nothing is lost silently\<close>

text \<open>The session a command is about; \<open>Clear\<close> is about all.\<close>

fun cmdSession :: "bufferCmd \<Rightarrow> string option" where
  "cmdSession (Push s _ _) = Some s"
| "cmdSession (Ack s _) = Some s"
| "cmdSession (SetAck s _) = Some s"
| "cmdSession (Feed s _) = Some s"
| "cmdSession Clear = None"

text \<open>The number up to which a command acknowledges.\<close>

fun ackUpTo :: "bufferCmd \<Rightarrow> int" where
  "ackUpTo (Ack _ c) = parseCursorSeq c"
| "ackUpTo (SetAck _ n) = n"
| "ackUpTo _ = 0"

text \<open>
  Between two states no number above \<open>q\<close> that a session buffers is lost, and acknowledgements
  below \<open>q\<close> stay below; other sessions are untouched.
\<close>

definition keepsAbove :: "string \<Rightarrow> int \<Rightarrow> eventBuffer \<Rightarrow> eventBuffer \<Rightarrow> bool" where
  "keepsAbove s q b b' \<longleftrightarrow> getAcknowledgedSeq b s < q \<longrightarrow> getAcknowledgedSeq b' s < q \<and>
     (\<forall>n \<ge> q. n \<in> set (seqs b s) \<longrightarrow> n \<in> set (seqs b' s))"

definition untouched :: "string \<Rightarrow> eventBuffer \<Rightarrow> eventBuffer \<Rightarrow> bool" where
  "untouched t b b' \<longleftrightarrow> buf b' t = buf b t \<and> getAcknowledgedSeq b' t = getAcknowledgedSeq b t \<and> lastSeq b' t = lastSeq b t"

lemma keepsAbove_refl [simp]: "keepsAbove s q b b"
  by (simp add: keepsAbove_def)

lemma untouched_refl [simp]: "untouched t b b"
  by (simp add: untouched_def)

lemma keepsAbove_trans: "keepsAbove s q a b \<Longrightarrow> keepsAbove s q b c \<Longrightarrow> keepsAbove s q a c"
  by (auto simp: keepsAbove_def)

lemma untouched_trans: "untouched t a b \<Longrightarrow> untouched t b c \<Longrightarrow> untouched t a c"
  by (auto simp: untouched_def)

lemma keepsAbove_trimSession: "keepsAbove s q b (trimSession t b)"
  by (auto simp: keepsAbove_def seqs_def buf_trimSession)

lemma untouched_trimSession: "t \<noteq> s \<Longrightarrow> untouched t b (trimSession s b)"
  by (simp add: untouched_def buf_trimSession)

lemma untouched_prepared: "t \<noteq> s \<Longrightarrow> untouched t b (prepared s ev b)"
  by (simp add: untouched_def prepared_def recordSeq_def lastSeq_def getAcknowledgedSeq_def update_conv')

lemma untouched_push:
  assumes "t \<noteq> s"
  shows "untouched t b (snd (push s ev now b))"
proof -
  note p = untouched_prepared[OF assms, of b ev]
  note u = untouched_trans[OF p untouched_trimSession[OF assms]]
  have set: "untouched t c (setBuffer s es c)" for c es
    using assms by (simp add: untouched_def lastSeq_def getAcknowledgedSeq_def)
  show ?thesis
    by (cases rule: push_cases[of b s ev now])
       (simp_all add: u untouched_trans[OF p set] untouched_trans[OF u set] del: sort_key_simps)
qed

lemma keepsAbove_push: "keepsAbove t q b (snd (push s ev now b))"
proof (cases "t = s")
  case False
  with untouched_push[OF this, of b ev now] show ?thesis by (auto simp: keepsAbove_def untouched_def seqs_def)
next
  case True
  have a: "getAcknowledgedSeq (setBuffer s es c) s = getAcknowledgedSeq c s" for es c
    by (simp add: getAcknowledgedSeq_def)
  have k: "keepsAbove s q b (trimSession s (prepared s ev b))"
    by (auto simp: keepsAbove_def seqs_def buf_trimSession)
  show ?thesis unfolding True
  proof (cases rule: push_cases[of b s ev now])
    case dup
    then show "keepsAbove s q b (snd (push s ev now b))"
      by (simp add: keepsAbove_def seqs_def a seqs_replaceFirst)
  next
    case added
    then show "keepsAbove s q b (snd (push s ev now b))"
      using k by (simp add: keepsAbove_def seqs_def a del: sort_key_simps)
  qed (use k in simp_all)
qed

lemma feed_lift:
  assumes refl: "\<And>a. R a a" and trans: "\<And>a b c. R a b \<Longrightarrow> R b c \<Longrightarrow> R a c"
    and push: "\<And>a ev now. R a (snd (push s ev now a))"
  shows "R b (snd (feedHistoricalEvents s evs b))"
proof (induction evs arbitrary: b)
  case (Cons e evs)
  obtain ev now where [simp]: "e = (ev, now)" by (cases e)
  show ?case
    using push[of b ev now] Cons trans
    by (auto split: prod.splits sum.splits bufferError.splits) (metis snd_conv)+
qed (simp add: refl)

lemma untouched_exec: "cmdSession c \<noteq> Some t \<Longrightarrow> c \<noteq> Clear \<Longrightarrow> untouched t b (snd (bufferExec c b))"
proof (cases c)
  case (Feed s evs)
  assume "cmdSession c \<noteq> Some t"
  with Feed have "untouched t b (snd (feedHistoricalEvents s evs b))"
    by (intro feed_lift[of "untouched t"]) (auto intro: untouched_trans untouched_push)
  with Feed show ?thesis by (simp add: case_prod_unfold)
qed (auto simp: case_prod_unfold untouched_push ack_def Let_def setAcknowledgedSeq_def
      intro!: untouched_trans[OF _ untouched_trimSession],
     auto simp: untouched_def lastSeq_def)

lemma keepsAbove_exec:
  assumes "c \<noteq> Clear" "cmdSession c = Some s \<Longrightarrow> ackUpTo c < q"
  shows "keepsAbove s q b (snd (bufferExec c b))"
proof (cases "cmdSession c = Some s")
  case False
  from untouched_exec[OF this assms(1), of b] show ?thesis by (auto simp: keepsAbove_def untouched_def seqs_def)
next
  case True
  with assms(2) have q: "ackUpTo c < q" by simp
  show ?thesis
  proof (cases c)
    case (Feed t evs)
    have "keepsAbove s q b (snd (feedHistoricalEvents t evs b))"
      by (rule feed_lift[of "keepsAbove s q"]) (auto intro: keepsAbove_trans keepsAbove_push)
    with Feed show ?thesis by (simp add: case_prod_unfold)
  next
    case (Ack t cur)
    with True q show ?thesis
      by (auto simp: ack_def Let_def intro!: keepsAbove_trans[OF _ keepsAbove_trimSession])
         (auto simp: keepsAbove_def seqs_def)
  next
    case (SetAck t n)
    with True q show ?thesis
      by (auto simp: setAcknowledgedSeq_def intro!: keepsAbove_trans[OF _ keepsAbove_trimSession])
         (auto simp: keepsAbove_def seqs_def)
  qed (use assms(1) in \<open>simp_all add: case_prod_unfold keepsAbove_push\<close>)
qed

lemma bufferRun_lift:
  assumes "\<And>a. R a a" "\<And>a b c. R a b \<Longrightarrow> R b c \<Longrightarrow> R a c" "\<And>c a. c \<in> set cmds \<Longrightarrow> R a (snd (bufferExec c a))"
  shows "R b (bufferRun cmds b)"
  using assms(3)
proof (induction cmds arbitrary: b)
  case (Cons c cmds)
  then have "R b (snd (bufferExec c b))" "R (snd (bufferExec c b)) (bufferRun cmds (snd (bufferExec c b)))" by auto
  then show ?case using assms(2) by (simp add: bufferRun_def)
qed (simp add: bufferRun_def assms(1))

section \<open>Theorems\<close>

text \<open>
  From its construction on, and over any sequence of commands, successful or not, every
  session's buffer stays within the capacity, strictly ordered by sequence number, and each
  envelope carries its own session and the cursor of its number.
\<close>

theorem event_buffer_invariant:
  assumes "newEventBuffer cap = Inr b0"
  shows "session_wf (capacity b0) s (buf (bufferRun cmds b0) s) \<and> cap = Num (capacity b0)"
proof -
  have c: "capacity (bufferRun cmds b) = capacity b" for b
  proof -
    have push: "capacity (snd (push s ev now a)) = capacity a" for s ev now a
      by (cases rule: push_cases[of a s ev now]) simp_all
    have "capacity (snd (bufferExec c a)) = capacity a" for c a
      using feed_lift[of "\<lambda>x y. capacity y = capacity x"] push
      by (cases c) (simp_all add: case_prod_unfold ack_def Let_def setAcknowledgedSeq_def clear_def)
    then show ?thesis using bufferRun_lift[of "\<lambda>x y. capacity y = capacity x"] by simp
  qed
  have "buffer_wf b0" "cap = Num (capacity b0)"
    using assms by (auto simp: newEventBuffer_def buffer_wf_def split: number.splits if_splits)
  with relay.run_keeps[OF this(1), of cmds] show ?thesis
    using buffer_wf_buf[of "bufferRun cmds b0" s] c by (simp add: bufferRun_def)
qed

theorem event_buffer_invariant_witness:
  "newEventBuffer (Num 2) = Inr smallBuffer
   \<and> session_wf 2 ''s'' (buf (bufferRun [Push ''s'' (numbered 5) 0, Push ''s'' (numbered 3) 1,
        Push ''s'' (numbered 9) 2] smallBuffer) ''s'')"
proof -
  have n: "newEventBuffer (Num 2) = Inr smallBuffer" by code_simp
  moreover have "capacity smallBuffer = 2" by (simp add: smallBuffer_def)
  ultimately show ?thesis using event_buffer_invariant[OF n] by metis
qed



text \<open>
  Sessions are isolated: commands about other sessions leave a session's events, its
  acknowledged number and its last number as they were.
\<close>

theorem event_buffer_session_isolation:
  assumes "\<forall>c \<in> set cmds. c \<noteq> Clear \<and> cmdSession c \<noteq> Some t"
  shows "untouched t b (bufferRun cmds b)"
  using assms by (intro bufferRun_lift[of "untouched t"]) (auto intro: untouched_trans intro!: untouched_exec)

theorem event_buffer_session_isolation_witness:
  "untouched ''t'' smallBuffer (bufferRun [Push ''s'' (numbered 3) 0, Ack ''s'' ''s:3''] smallBuffer)"
  by (rule event_buffer_session_isolation) simp

lemma filter_suffix:
  assumes "sorted_wrt (<) (map seqNo (xs @ ys))" "xs \<noteq> []"
  shows "filter (\<lambda>e. seqNo e > seqNo (last xs)) (xs @ ys) = ys"
proof -
  have "\<not> seqNo x > seqNo (last xs)" if "x \<in> set xs" for x
    using assms that
    by (induction xs rule: rev_induct) (auto simp: sorted_wrt_append)
  moreover have "seqNo y > seqNo (last xs)" if "y \<in> set ys" for y
    using assms that by (auto simp: sorted_wrt_append)
  ultimately show ?thesis by (simp add: filter_empty_conv)
qed

lemma parseCursorSeq_cursor: "parseCursorSeq (s @ CHR '':'' # show_int n) = n"
  by (simp add: parseCursorSeq_def split_on_append_sep split_on_no_sep[OF show_int_no_colon] parseInt_show_int)

text \<open>
  Polling pages through a session without gap or repetition: a page holds the first events
  after the cursor in order, reports how many are left, and polling again from the cursor of
  its last event returns exactly the events that follow.
\<close>

theorem event_buffer_paging:
  assumes "buffer_wf b" "0 < l"
    and page: "page = poll \<lparr> po_sessionId = s, po_afterCursor = c, po_limit = Some l \<rparr> b"
    and rest: "rest = filter (\<lambda>e. seqNo e > (case c of None \<Rightarrow> 0 | Some x \<Rightarrow> parseCursorSeq x)) (buf b s)"
    and "pr_envelopes page \<noteq> []"
  shows "pr_envelopes page = take (nat l) rest
     \<and> pr_remainingCount page = int (length (drop (nat l) rest))
     \<and> pr_envelopes (poll \<lparr> po_sessionId = s, po_afterCursor = Some (cursor (last (pr_envelopes page))),
         po_limit = Some l' \<rparr> b) = take (nat (if l' > 0 then l' else capacity b)) (drop (nat l) rest)"
proof -
  have w: "session_wf (capacity b) s (buf b s)" by (rule buffer_wf_buf[OF assms(1)])
  have e: "pr_envelopes page = take (nat l) rest" "pr_remainingCount page = int (length (drop (nat l) rest))"
    using assms(2) by (simp_all add: page rest poll_def Let_def)
  have ne: "take (nat l) rest \<noteq> []" using e assms(5) by simp
  have "session_wf (capacity b) s rest" unfolding rest by (rule session_wf_filter[OF w])
  then have sorted: "sorted_wrt (<) (map seqNo (take (nat l) rest @ drop (nat l) rest))"
    and cur: "cursor (last (take (nat l) rest)) = s @ CHR '':'' # show_int (seqNo (last (take (nat l) rest)))"
    using last_in_set[OF ne] by (auto simp: session_wf_def list_all_iff dest: in_set_takeD)
  let ?t = "case c of None \<Rightarrow> 0 | Some x \<Rightarrow> parseCursorSeq x" and ?q = "seqNo (last (take (nat l) rest))"
  have "last (take (nat l) rest) \<in> set rest" using last_in_set[OF ne] by (rule in_set_takeD)
  then have "?q > ?t" unfolding rest by simp
  then have "filter (\<lambda>e. seqNo e > ?q) (buf b s) = filter (\<lambda>e. seqNo e > ?q) rest"
    unfolding rest filter_filter by (intro filter_cong) auto
  also have "\<dots> = drop (nat l) rest" using filter_suffix[OF sorted ne] by simp
  finally show ?thesis
    using e by (simp add: poll_def Let_def cur parseCursorSeq_cursor)
qed

theorem event_buffer_paging_witness:
  "let b = bufferRun [Push ''s'' (numbered 5) 0, Push ''s'' (numbered 3) 1] smallBuffer;
       page = poll \<lparr> po_sessionId = ''s'', po_afterCursor = None, po_limit = Some 1 \<rparr> b
   in map seqNo (pr_envelopes page) = [3] \<and> pr_remainingCount page = 1
      \<and> map seqNo (pr_envelopes (poll \<lparr> po_sessionId = ''s'', po_afterCursor = Some (cursor (last (pr_envelopes page))),
            po_limit = Some 7 \<rparr> b)) = [5]"
proof -
  let ?b = "bufferRun [Push ''s'' (numbered 5) 0, Push ''s'' (numbered 3) 1] smallBuffer"
  let ?p = "poll \<lparr> po_sessionId = ''s'', po_afterCursor = None, po_limit = Some 1 \<rparr> ?b"
  have "buffer_wf smallBuffer" by (simp add: smallBuffer_def buffer_wf_def)
  then have w: "buffer_wf ?b" unfolding bufferRun_def by (rule relay.run_keeps)
  have 1: "pr_envelopes ?p \<noteq> []" "map seqNo (buf ?b ''s'') = [3, 5]" by code_simp+
  then have "map seqNo (filter (\<lambda>e. seqNo e > 0) (buf ?b ''s'')) = [3, 5]"
    by (auto simp: map_eq_Cons_conv)
  with event_buffer_paging[OF w _ refl refl 1(1), of 7] show ?thesis
    by (auto simp: map_eq_Cons_conv Let_def)
qed

text \<open>
  A push can crash: when every buffered event of a session is at or below its acknowledged
  number, trimming deletes the buffer just before its length is read, and the push ends in
  a \<open>TypeError\<close> instead of storing the event. Acknowledging ahead and then pushing two older
  events reaches such a state.
\<close>

theorem event_buffer_push_crash:
  "fst (push ''s'' (numbered 4) 2 (bufferRun [Ack ''s'' ''s:5'', Push ''s'' (numbered 3) 1] smallBuffer))
     = Inl TypeError"
  by code_simp

text \<open>
  Backpressure is loud and harmless: a new number pushed into a session that is full of
  unacknowledged events is refused with \<open>RelayBackpressureError\<close>, naming the session, the
  capacity and the fill, and every buffer stays as it was.
\<close>

theorem event_buffer_backpressure:
  assumes "buffer_wf b" "int (length (buf b s)) = capacity b" "nextSeq b s ev \<notin> set (seqs b s)"
    and "\<forall>n \<in> set (seqs b s). getAcknowledgedSeq b s < n"
  shows "\<exists>b'. push s ev now b = (Inl (RelayBackpressureError s (capacity b) (capacity b)), b')
       \<and> (\<forall>t. buf b' t = buf b t)"
proof -
  have t: "buf (trimSession s (prepared s ev b)) t = buf b t" for t
    using assms(4) by (auto simp: buf_trimSession seqs_def filter_id_conv)
  have ne: "buf b s \<noteq> []" using assms(1,2) by (auto dest: buffer_wf_capacity)
  show ?thesis
  proof (cases rule: push_cases[of b s ev now])
    case lost
    then have "buf (trimSession s (prepared s ev b)) s = []" by (simp add: buf_def)
    with t ne show ?thesis by simp
  next
    case dup
    with assms(3) show ?thesis by (force simp: seqs_def)
  qed (use assms(2,3) t in \<open>auto simp: seqs_def\<close>)
qed

theorem event_buffer_backpressure_witness:
  "let b = bufferRun [Push ''s'' (numbered 5) 0, Push ''s'' (numbered 3) 1] smallBuffer
   in \<exists>b'. push ''s'' (numbered 9) 7 b = (Inl (RelayBackpressureError ''s'' 2 2), b') \<and> (\<forall>t. buf b' t = buf b t)"
proof -
  let ?b = "bufferRun [Push ''s'' (numbered 5) 0, Push ''s'' (numbered 3) 1] smallBuffer"
  have "buffer_wf smallBuffer" by (simp add: smallBuffer_def buffer_wf_def)
  then have w: "buffer_wf ?b" unfolding bufferRun_def by (rule relay.run_keeps)
  have "int (length (buf ?b ''s'')) = capacity ?b" "nextSeq ?b ''s'' (numbered 9) \<notin> set (seqs ?b ''s'')"
    "\<forall>n \<in> set (seqs ?b ''s''). getAcknowledgedSeq ?b ''s'' < n" "capacity ?b = 2" by code_simp+
  with event_buffer_backpressure[OF w this(1-3), of 7] show ?thesis by simp
qed

end
