(* ===== verification/Circuit_Breaker.thy ===== *)
theory Circuit_Breaker
  imports Prelude
begin

text \<open>
  What a circuit breaker promises its callers, as an interface: the breakers of the model
  registry and of the MCP connection pool are two implementations. The clock is an integer
  in milliseconds.
\<close>

datatype circuitState = Closed | Open | HalfOpen

text \<open>
  \<open>permit\<close> asks for permission and may move an open breaker to half-open, \<open>succeed\<close> and \<open>fail\<close>
  record the outcome of a call; \<open>stateOf\<close>, \<open>failures\<close> and \<open>trippedAt\<close> read the breaker. The laws:
  a closed breaker permits everything, an open one nothing until its cooldown has passed
  since it tripped and then a probe; a success closes it; a failure counts, and trips the
  breaker when it was probing or the count reaches the threshold.
\<close>

locale circuit_breaker =
  fixes permit :: "int \<Rightarrow> 's \<Rightarrow> bool \<times> 's"
    and succeed :: "int \<Rightarrow> 's \<Rightarrow> 's"
    and fail :: "int \<Rightarrow> 's \<Rightarrow> 's"
    and stateOf :: "'s \<Rightarrow> circuitState"
    and failures :: "'s \<Rightarrow> int"
    and trippedAt :: "'s \<Rightarrow> int"
    and threshold :: "'s \<Rightarrow> int"
    and cooldown :: "'s \<Rightarrow> int"
  assumes closed_permits: "stateOf s = Closed \<Longrightarrow> fst (permit t s) \<and> stateOf (snd (permit t s)) = Closed"
    and open_denies: "stateOf s = Open \<Longrightarrow> t - trippedAt s < cooldown s \<Longrightarrow>
          \<not> fst (permit t s) \<and> stateOf (snd (permit t s)) = Open \<and> trippedAt (snd (permit t s)) = trippedAt s"
    and open_probes: "stateOf s = Open \<Longrightarrow> cooldown s \<le> t - trippedAt s \<Longrightarrow>
          fst (permit t s) \<and> stateOf (snd (permit t s)) = HalfOpen"
    and permit_frame: "failures (snd (permit t s)) = failures s \<and> threshold (snd (permit t s)) = threshold s
          \<and> cooldown (snd (permit t s)) = cooldown s"
    and succeed_closes: "stateOf (succeed t s) = Closed \<and> failures (succeed t s) = 0"
    and fail_counts: "failures (fail t s) = failures s + 1 \<and> threshold (fail t s) = threshold s
          \<and> cooldown (fail t s) = cooldown s"
    and fail_trips: "stateOf s = HalfOpen \<or> threshold s \<le> failures s + 1 \<Longrightarrow>
          stateOf (fail t s) = Open \<and> trippedAt (fail t s) = t"
    and fail_tolerated: "stateOf s \<noteq> HalfOpen \<Longrightarrow> failures s + 1 < threshold s \<Longrightarrow>
          stateOf (fail t s) = stateOf s"
begin

text \<open>Consecutive failures at the given instants.\<close>

definition failAll :: "int list \<Rightarrow> 's \<Rightarrow> 's" where
  "failAll ts s = fold fail ts s"

lemma failAll_snoc: "failAll (ts @ [t]) s = fail t (failAll ts s)"
  by (simp add: failAll_def)

lemma failAll_counts:
  "failures (failAll ts s) = failures s + int (length ts)" "threshold (failAll ts s) = threshold s"
  "cooldown (failAll ts s) = cooldown s"
  by (induction ts arbitrary: s) (simp_all add: failAll_def fail_counts)

lemma failAll_tolerated:
  "stateOf s = Closed \<Longrightarrow> failures s + int (length ts) < threshold s \<Longrightarrow> stateOf (failAll ts s) = Closed"
proof (induction ts rule: rev_induct)
  case (snoc t ts)
  then show ?case
    by (simp add: failAll_snoc fail_tolerated failAll_counts)
qed (simp add: failAll_def)

lemma failAll_trips:
  assumes "threshold s \<le> failures s + int (length ts) + 1"
  shows "stateOf (failAll (ts @ [t]) s) = Open \<and> trippedAt (failAll (ts @ [t]) s) = t"
  using assms by (simp add: failAll_snoc fail_trips failAll_counts)

text \<open>
  A breaker that has just been closed tolerates fewer consecutive failures than the threshold,
  denies every call for the cooldown after the one that reaches it, then lets a probe through;
  a probe that fails opens it again, one that succeeds closes it.
\<close>

lemma breaker_cycle:
  assumes "int (length ts) < threshold (succeed t0 s)"
  shows "fst (permit t (failAll ts (succeed t0 s)))"
  using failAll_tolerated[of "succeed t0 s" ts] assms by (simp add: succeed_closes closed_permits)

lemma breaker_denies:
  assumes "threshold s \<le> failures s + int (length ts) + 1" "t - t1 < cooldown s"
  shows "\<not> fst (permit t (failAll (ts @ [t1]) s))"
  using failAll_trips[OF assms(1), of t1] assms(2) by (simp add: open_denies failAll_counts)

lemma breaker_probes:
  assumes "threshold s \<le> failures s + int (length ts) + 1" "cooldown s \<le> t - t1"
  shows "fst (permit t (failAll (ts @ [t1]) s))"
    and "stateOf (fail t2 (snd (permit t (failAll (ts @ [t1]) s)))) = Open"
    and "stateOf (succeed t2 (snd (permit t (failAll (ts @ [t1]) s)))) = Closed"
  using failAll_trips[OF assms(1), of t1] assms(2)
  by (simp_all add: open_probes failAll_counts succeed_closes fail_trips)

end

end
