(* ===== verification/Mcp_Breaker.thy ===== *)
theory Mcp_Breaker
  imports Circuit_Breaker
begin

text \<open>
  The circuit breaker in front of a downstream MCP server
  (\<open>platform-service-mcp/src/pool/circuit-breaker.ts\<close>). The callback \<open>onStateChange\<close> is the list
  of the states it was called with, latest last.
\<close>

record mcpBreaker =
  serverId :: string
  failureThreshold :: int
  resetTimeoutMs :: int
  cbState :: circuitState
  consecutiveFailures :: int
  lastFailureTime :: int
  lastError :: "string option"
  stateChanges :: "circuitState list"

definition DEFAULT_CIRCUIT_FAILURE_THRESHOLD :: int where
  "DEFAULT_CIRCUIT_FAILURE_THRESHOLD = 3"

definition DEFAULT_CIRCUIT_RESET_TIMEOUT_MS :: int where
  "DEFAULT_CIRCUIT_RESET_TIMEOUT_MS = 60000"

datatype mcpError = MCP_CIRCUIT_OPEN string int "string option"

definition newCircuitBreaker :: "string \<Rightarrow> int option \<Rightarrow> int option \<Rightarrow> mcpBreaker" where
  "newCircuitBreaker sid thr tmo = \<lparr> serverId = sid,
     failureThreshold = (case thr of None \<Rightarrow> DEFAULT_CIRCUIT_FAILURE_THRESHOLD | Some n \<Rightarrow> n),
     resetTimeoutMs = (case tmo of None \<Rightarrow> DEFAULT_CIRCUIT_RESET_TIMEOUT_MS | Some n \<Rightarrow> n),
     cbState = Closed, consecutiveFailures = 0, lastFailureTime = 0, lastError = None, stateChanges = [] \<rparr>"

definition transition :: "circuitState \<Rightarrow> mcpBreaker \<Rightarrow> mcpBreaker" where
  "transition newState b =
     (if cbState b \<noteq> newState then b\<lparr>cbState := newState, stateChanges := stateChanges b @ [newState]\<rparr> else b)"

definition getState :: "int \<Rightarrow> mcpBreaker \<Rightarrow> circuitState \<times> mcpBreaker" where
  "getState now b =
     (let b' = (if cbState b = Open \<and> now - lastFailureTime b \<ge> resetTimeoutMs b
                then transition HalfOpen b else b)
      in (cbState b', b'))"

definition checkExecutionPermitted :: "int \<Rightarrow> (mcpBreaker, mcpError, unit) op" where
  "checkExecutionPermitted now b =
     (case getState now b of (currentState, b') \<Rightarrow>
        if currentState = Open
        then (Inl (MCP_CIRCUIT_OPEN (serverId b') (consecutiveFailures b') (lastError b')), b')
        else (Inr (), b'))"

definition recordSuccess :: "mcpBreaker \<Rightarrow> mcpBreaker" where
  "recordSuccess b =
     (let b1 = b\<lparr>consecutiveFailures := 0, lastError := None\<rparr>
      in if cbState b1 \<noteq> Closed then transition Closed b1 else b1)"

definition recordFailure :: "string \<Rightarrow> int \<Rightarrow> mcpBreaker \<Rightarrow> mcpBreaker" where
  "recordFailure err now b =
     (let b1 = b\<lparr>consecutiveFailures := consecutiveFailures b + 1, lastFailureTime := now, lastError := Some err\<rparr>
      in if cbState b1 = HalfOpen \<or> consecutiveFailures b1 \<ge> failureThreshold b1 then transition Open b1 else b1)"

definition reset :: "mcpBreaker \<Rightarrow> mcpBreaker" where
  "reset b = transition Closed (b\<lparr>consecutiveFailures := 0, lastError := None\<rparr>)"

definition permitted :: "int \<Rightarrow> mcpBreaker \<Rightarrow> bool \<times> mcpBreaker" where
  "permitted now b = (case checkExecutionPermitted now b of (r, b') \<Rightarrow> (\<not> isl r, b'))"

text \<open>Whether each of a sequence of calls at the given times is permitted, with no outcome recorded in between.\<close>

fun probes :: "int list \<Rightarrow> mcpBreaker \<Rightarrow> bool list" where
  "probes [] b = []"
| "probes (t # ts) b = (case permitted t b of (ok, b') \<Rightarrow> ok # probes ts b')"

lemmas mcp_defs = permitted_def checkExecutionPermitted_def getState_def recordSuccess_def
  recordFailure_def reset_def transition_def Let_def

lemma transition_frame [simp]:
  "cbState (transition st b) = st" "consecutiveFailures (transition st b) = consecutiveFailures b"
  "failureThreshold (transition st b) = failureThreshold b" "resetTimeoutMs (transition st b) = resetTimeoutMs b"
  "lastFailureTime (transition st b) = lastFailureTime b"
  by (simp_all add: transition_def)

interpretation mcp: circuit_breaker permitted "\<lambda>_. recordSuccess" "recordFailure err" cbState
  consecutiveFailures lastFailureTime failureThreshold resetTimeoutMs for err
  by unfold_locales (auto simp: mcp_defs)

text \<open>
  The MCP breaker trips and recovers as specified: after a success it tolerates fewer
  failures in a row than the threshold; the failure that reaches it makes every call within
  the reset timeout throw; after the timeout a call is permitted again, and then one failure
  reopens the breaker and one success closes it.
\<close>

theorem mcp_breaker_cycle:
  assumes "int (length ts) + 1 = failureThreshold b"
    and "tripped = fold (recordFailure err) (ts @ [t1]) (recordSuccess b)"
  shows "fst (permitted t (fold (recordFailure err) ts (recordSuccess b)))
     \<and> (t - t1 < resetTimeoutMs b \<longrightarrow> \<not> fst (permitted t tripped))
     \<and> (resetTimeoutMs b \<le> t - t1 \<longrightarrow> fst (permitted t tripped)
          \<and> cbState (recordFailure err t2 (snd (permitted t tripped))) = Open
          \<and> cbState (recordSuccess (snd (permitted t tripped))) = Closed)"
proof -
  let ?b = "recordSuccess b"
  have f: "failureThreshold ?b = failureThreshold b" "resetTimeoutMs ?b = resetTimeoutMs b" "consecutiveFailures ?b = 0"
    by (simp_all add: mcp_defs)
  have thr: "failureThreshold ?b \<le> consecutiveFailures ?b + int (length ts) + 1" using f assms(1) by simp
  have t: "tripped = mcp.failAll err (ts @ [t1]) ?b" by (simp add: assms(2) mcp.failAll_def)
  have "fst (permitted t (mcp.failAll err ts ?b))"
    by (rule mcp.breaker_cycle) (use f assms(1) in simp)
  moreover have "\<not> fst (permitted t tripped)" if "t - t1 < resetTimeoutMs b"
    unfolding t by (rule mcp.breaker_denies[OF thr]) (use that f in simp)
  moreover have "fst (permitted t tripped) \<and> cbState (recordFailure err t2 (snd (permitted t tripped))) = Open
      \<and> cbState (recordSuccess (snd (permitted t tripped))) = Closed" if "resetTimeoutMs b \<le> t - t1"
    using mcp.breaker_probes[OF thr, of t t1 err] that f unfolding t by auto
  ultimately show ?thesis by (simp add: mcp.failAll_def)
qed

theorem mcp_breaker_cycle_witness:
  "\<not> fst (permitted 100 (fold (recordFailure ''down'') [1, 2, 3] (newCircuitBreaker ''srv'' None None)))
   \<and> fst (permitted 60003 (fold (recordFailure ''down'') [1, 2, 3] (newCircuitBreaker ''srv'' None None)))"
proof -
  let ?b = "newCircuitBreaker ''srv'' None None"
  have "recordSuccess ?b = ?b" "failureThreshold ?b = 3" "resetTimeoutMs ?b = 60000" by code_simp+
  then show ?thesis
    using mcp_breaker_cycle[where ts = "[1, 2]" and b = ?b and err = "''down''" and ?t1.0 = 3 and t = 100, OF _ refl]
      mcp_breaker_cycle[where ts = "[1, 2]" and b = ?b and err = "''down''" and ?t1.0 = 3 and t = 60003, OF _ refl] by auto
qed

lemma probes_half_open: "cbState b = HalfOpen \<Longrightarrow> probes ts b = replicate (length ts) True"
proof (induction ts)
  case (Cons t ts)
  then have "permitted t b = (True, b)" by (simp add: mcp_defs)
  with Cons show ?case by simp
qed simp

text \<open>
  The half-open MCP breaker does not limit probing: once a call has come after the reset
  timeout of a tripped breaker, it and every further call are permitted until an outcome is
  recorded, not only one trial.
\<close>

theorem mcp_half_open_unlimited:
  assumes "cbState b = Open" "resetTimeoutMs b \<le> t - lastFailureTime b"
  shows "probes (t # ts) b = replicate (Suc (length ts)) True"
proof -
  have "permitted t b = (True, transition HalfOpen b)" using assms by (simp add: mcp_defs)
  then show ?thesis by (simp add: probes_half_open)
qed

theorem mcp_half_open_unlimited_witness:
  "probes [60003, 60004, 60005] (fold (recordFailure ''down'') [1, 2, 3] (newCircuitBreaker ''srv'' None None)) = [True, True, True]"
proof -
  let ?b = "fold (recordFailure ''down'') [1, 2, 3] (newCircuitBreaker ''srv'' None None)"
  have "cbState ?b = Open" "resetTimeoutMs ?b = 60000" "lastFailureTime ?b = 3" by code_simp+
  then show ?thesis using mcp_half_open_unlimited[of ?b 60003 "[60004, 60005]"] by simp
qed

end
