(* ===== verification/Model_Breaker.thy ===== *)
theory Model_Breaker
  imports Circuit_Breaker "HOL-Library.AList"
begin

text \<open>
  The circuit breakers per provider and model (\<open>platform-core/src/types/circuit-breaker.ts\<close>):
  the classification of provider errors and the registry \<open>ModelCircuitBreakerRegistry\<close>. The
  registry's map is an association list in insertion order, an entry is updated in place;
  the configuration and the clock are arguments. Instants kept as ISO strings are the
  instants themselves.
\<close>

section \<open>Classifying errors\<close>

record classification =
  isTransient :: bool
  isAuthOrPermanent :: bool
  errorType :: string
  statusCode :: "number option"

text \<open>
  The status code and message read from the error: an object's own fields, or those of its
  \<open>failure\<close> when it has no message.
\<close>

definition readError :: "jsval \<Rightarrow> number option \<times> string" where
  "readError e = (case e of
      JNumber n \<Rightarrow> (Some n, [])
    | JString s \<Rightarrow> (None, s)
    | _ \<Rightarrow> if is_object e then
        (let code = orElse (as_number (js_get e ''status'')) (as_number (js_get e ''statusCode''));
             msg = (case as_string (js_get e ''message'') of None \<Rightarrow> [] | Some m \<Rightarrow> m);
             f = js_get e ''failure''
         in if msg = [] \<and> is_object f then
              (orElse (as_number (js_get f ''statusCode'')) (orElse (as_number (js_get f ''status'')) code),
               case as_string (js_get f ''message'') of None \<Rightarrow> msg | Some m \<Rightarrow> m)
            else (code, msg))
      else (None, []))"

definition num_in :: "number option \<Rightarrow> int list \<Rightarrow> bool" where
  "num_in code ns = (case code of Some (Num i) \<Rightarrow> i \<in> set ns | _ \<Rightarrow> False)"

text \<open>\<open>statusCode >= 500 && statusCode < 600\<close>; a number that is not integral is known by its floor.\<close>

definition is5xx :: "number option \<Rightarrow> bool" where
  "is5xx code = (case code of Some (Num i) \<Rightarrow> 500 \<le> i \<and> i < 600 | Some (Frac f) \<Rightarrow> 500 \<le> f \<and> f < 600 | _ \<Rightarrow> False)"

definition transientAs :: "string \<Rightarrow> number option \<Rightarrow> classification" where
  "transientAs t c = \<lparr> isTransient = True, isAuthOrPermanent = False, errorType = t, statusCode = c \<rparr>"

definition permanentAs :: "string \<Rightarrow> number option \<Rightarrow> classification" where
  "permanentAs t c = \<lparr> isTransient = False, isAuthOrPermanent = True, errorType = t, statusCode = c \<rparr>"

definition authWords :: "string list" where
  "authWords = [''auth'', ''unauthorized'', ''forbidden'', ''api key'', ''invalid_api_key'', ''token expired'']"

definition rateWords :: "string list" where
  "rateWords = [''rate limit'', ''quota exceeded'', ''too many requests'', ''429'']"

definition networkWords :: "string list" where
  "networkWords = [''timeout'', ''etimedout'', ''econnreset'', ''econnrefused'', ''fetch failed'', ''network'',
     ''503'', ''502'', ''504'', ''500'']"

definition classifyError :: "jsval \<Rightarrow> classification" where
  "classifyError err =
     (case readError err of (code, message) \<Rightarrow>
      let msgLower = toLowerCase message in
      if num_in code [401, 403] then permanentAs ''AUTH_FAILURE'' code
      else if num_in code [400, 404, 422] then permanentAs ''INVALID_REQUEST'' code
      else if num_in code [429] then transientAs ''RATE_LIMIT'' code
      else if is5xx code then transientAs ''SERVER_ERROR'' code
      else if list_ex (js_includes msgLower) authWords then permanentAs ''AUTH_FAILURE'' (Some (Num 401))
      else if list_ex (js_includes msgLower) rateWords then transientAs ''RATE_LIMIT'' (Some (Num 429))
      else if list_ex (js_includes msgLower) networkWords then transientAs ''TRANSIENT_NETWORK'' (Some (Num 503))
      else transientAs ''UNKNOWN_TRANSIENT'' (Some (Num 500)))"

section \<open>The registry\<close>

record breakerConfig =
  consecutiveFailuresThreshold :: int
  cooldownDurationMs :: int
  halfOpenMaxTrials :: int

definition DEFAULT_CIRCUIT_BREAKER_CONFIG :: breakerConfig where
  "DEFAULT_CIRCUIT_BREAKER_CONFIG =
     \<lparr> consecutiveFailuresThreshold = 3, cooldownDurationMs = 30000, halfOpenMaxTrials = 1 \<rparr>"

record breakerEntry =
  provider :: string
  model :: string
  state :: circuitState
  consecutiveFailures :: int
  failureCount :: int
  successCount :: int
  totalCalls :: int
  totalLatencyMs :: int
  lastLatencyMs :: "int option"
  lastSuccessAt :: "int option"
  lastFailureAt :: "int option"
  lastErrorType :: "string option"
  trippedAt :: "int option"
  halfOpenTrials :: int

type_synonym registry = "(string \<times> breakerEntry) list"

definition getKey :: "string \<Rightarrow> string \<Rightarrow> string" where
  "getKey p m = p @ ''::'' @ m"

definition newEntry :: "string \<Rightarrow> string \<Rightarrow> breakerEntry" where
  "newEntry p m = \<lparr> provider = p, model = m, state = Closed, consecutiveFailures = 0, failureCount = 0,
     successCount = 0, totalCalls = 0, totalLatencyMs = 0, lastLatencyMs = None, lastSuccessAt = None,
     lastFailureAt = None, lastErrorType = None, trippedAt = None, halfOpenTrials = 0 \<rparr>"

definition getOrCreate :: "string \<Rightarrow> string \<Rightarrow> registry \<Rightarrow> breakerEntry" where
  "getOrCreate p m reg = (case map_of reg (getKey p m) of Some e \<Rightarrow> e | None \<Rightarrow> newEntry p m)"

text \<open>Mutating the entry object in the map, which \<open>getOrCreate\<close> has put there.\<close>

definition putEntry :: "string \<Rightarrow> string \<Rightarrow> breakerEntry \<Rightarrow> registry \<Rightarrow> registry" where
  "putEntry p m e reg = AList.update (getKey p m) e reg"

definition canExecute :: "breakerConfig \<Rightarrow> string \<Rightarrow> string \<Rightarrow> int \<Rightarrow> registry \<Rightarrow> (bool \<times> circuitState) \<times> registry" where
  "canExecute cfg p m now reg =
     (let entry = getOrCreate p m reg; keep = putEntry p m entry reg in
      case state entry of
        Closed \<Rightarrow> ((True, Closed), keep)
      | Open \<Rightarrow>
          (let tripped = (case trippedAt entry of None \<Rightarrow> 0 | Some t \<Rightarrow> t); elapsed = now - tripped in
           if elapsed \<ge> cooldownDurationMs cfg
           then ((True, HalfOpen), putEntry p m (entry\<lparr>state := HalfOpen, halfOpenTrials := 1\<rparr>) reg)
           else ((False, Open), keep))
      | HalfOpen \<Rightarrow>
          if halfOpenTrials entry < halfOpenMaxTrials cfg
          then ((True, HalfOpen), putEntry p m (entry\<lparr>halfOpenTrials := halfOpenTrials entry + 1\<rparr>) reg)
          else ((False, HalfOpen), keep))"

definition recordSuccess :: "string \<Rightarrow> string \<Rightarrow> int \<Rightarrow> int \<Rightarrow> registry \<Rightarrow> registry" where
  "recordSuccess p m latencyMs now reg =
     (let entry = getOrCreate p m reg;
          e1 = entry\<lparr>totalCalls := totalCalls entry + 1, successCount := successCount entry + 1,
                 consecutiveFailures := 0, lastLatencyMs := Some latencyMs,
                 totalLatencyMs := totalLatencyMs entry + latencyMs, lastSuccessAt := Some now\<rparr>;
          e2 = (if state e1 \<noteq> Closed
                then e1\<lparr>state := Closed, trippedAt := None, halfOpenTrials := 0\<rparr> else e1)
      in putEntry p m e2 reg)"

text \<open>The part of \<open>recordFailure\<close> after the classification.\<close>

definition noteFailure ::
  "breakerConfig \<Rightarrow> string \<Rightarrow> string \<Rightarrow> bool \<Rightarrow> string \<Rightarrow> int \<Rightarrow> int \<Rightarrow> registry \<Rightarrow> registry" where
  "noteFailure cfg p m transient kind latencyMs now reg =
     (let entry = getOrCreate p m reg;
          e1 = entry\<lparr>totalCalls := totalCalls entry + 1, failureCount := failureCount entry + 1,
                 lastLatencyMs := Some latencyMs, totalLatencyMs := totalLatencyMs entry + latencyMs,
                 lastFailureAt := Some now, lastErrorType := Some kind\<rparr>;
          e2 = (if transient then
                  (let e = e1\<lparr>consecutiveFailures := consecutiveFailures e1 + 1\<rparr> in
                   if state e = HalfOpen \<or> consecutiveFailures e \<ge> consecutiveFailuresThreshold cfg
                   then e\<lparr>state := Open, trippedAt := Some now, halfOpenTrials := 0\<rparr> else e)
                else e1)
      in putEntry p m e2 reg)"

definition recordFailure ::
  "breakerConfig \<Rightarrow> string \<Rightarrow> string \<Rightarrow> jsval \<Rightarrow> int \<Rightarrow> int \<Rightarrow> registry
   \<Rightarrow> (circuitState \<times> bool \<times> string \<times> int) \<times> registry" where
  "recordFailure cfg p m err latencyMs now reg =
     (let c = classifyError err;
          reg' = noteFailure cfg p m (isTransient c) (errorType c) latencyMs now reg;
          entry = getOrCreate p m reg'
      in ((state entry, isTransient c, errorType c, consecutiveFailures entry), reg'))"

definition resetEntry :: "breakerEntry \<Rightarrow> breakerEntry" where
  "resetEntry e = e\<lparr>state := Closed, consecutiveFailures := 0, trippedAt := None, halfOpenTrials := 0\<rparr>"

definition resetWhere :: "(string \<Rightarrow> bool) \<Rightarrow> registry \<Rightarrow> nat \<times> registry" where
  "resetWhere P reg = (length (filter (P \<circ> fst) reg), map (\<lambda>(k, e). (k, if P k then resetEntry e else e)) reg)"

definition reset :: "string option \<Rightarrow> string option \<Rightarrow> registry \<Rightarrow> nat \<times> registry" where
  "reset p m reg =
     (if opt_truthy p \<and> opt_truthy m then resetWhere (\<lambda>k. k = getKey (the p) (the m)) reg
      else if opt_truthy p then resetWhere (\<lambda>k. startsWith k (the p @ ''::'')) reg
      else resetWhere (\<lambda>_. True) reg)"

definition getCircuitStatus :: "breakerConfig \<Rightarrow> string \<Rightarrow> string \<Rightarrow> int \<Rightarrow> registry \<Rightarrow> circuitState" where
  "getCircuitStatus cfg p m now reg =
     (case map_of reg (getKey p m) of
        None \<Rightarrow> Closed
      | Some entry \<Rightarrow>
          if state entry = Open \<and> now - (case trippedAt entry of None \<Rightarrow> 0 | Some t \<Rightarrow> t) \<ge> cooldownDurationMs cfg
          then HalfOpen else state entry)"

text \<open>The interface's view of one model's breaker.\<close>

definition allowed :: "breakerConfig \<Rightarrow> string \<Rightarrow> string \<Rightarrow> int \<Rightarrow> registry \<Rightarrow> bool \<times> registry" where
  "allowed cfg p m now reg = (case canExecute cfg p m now reg of ((a, _), reg') \<Rightarrow> (a, reg'))"

definition trippedTime :: "string \<Rightarrow> string \<Rightarrow> registry \<Rightarrow> int" where
  "trippedTime p m reg = (case trippedAt (getOrCreate p m reg) of None \<Rightarrow> 0 | Some t \<Rightarrow> t)"

lemma getOrCreate_putEntry [simp]:
  "getOrCreate p m (putEntry p m e reg) = e"
  "getKey p m \<noteq> getKey p' m' \<Longrightarrow> getOrCreate p m (putEntry p' m' e reg) = getOrCreate p m reg"
  by (simp_all add: getOrCreate_def putEntry_def update_conv')

lemmas registry_defs = allowed_def canExecute_def recordSuccess_def noteFailure_def trippedTime_def Let_def

interpretation models: circuit_breaker "allowed cfg p m" "recordSuccess p m lat" "noteFailure cfg p m True kind lat"
  "\<lambda>reg. state (getOrCreate p m reg)" "\<lambda>reg. consecutiveFailures (getOrCreate p m reg)" "trippedTime p m"
  "\<lambda>_. consecutiveFailuresThreshold cfg" "\<lambda>_. cooldownDurationMs cfg" for cfg p m kind lat
  by unfold_locales (auto simp: registry_defs split: circuitState.split option.split)

section \<open>Theorems\<close>

lemma recordFailure_transient:
  "isTransient (classifyError err) \<Longrightarrow> snd (recordFailure cfg p m err lat now reg)
     = noteFailure cfg p m True (errorType (classifyError err)) lat now reg"
  by (simp add: recordFailure_def Let_def)

text \<open>
  C34. The breaker of a model trips and recovers as specified: after a success it tolerates fewer
  transient failures in a row than the threshold; the one that reaches it stops every call of
  that model for the cooldown; after the cooldown a call is let through, and then a transient
  failure reopens the breaker and a success closes it.
\<close>

theorem model_breaker_cycle:
  assumes "isTransient (classifyError err)" "int (length ts) + 1 = consecutiveFailuresThreshold cfg"
    and "start = recordSuccess p m lat t0 reg"
    and "failAt = (\<lambda>t r. snd (recordFailure cfg p m err lat t r))"
    and "tripped = fold failAt (ts @ [t1]) start"
  shows "fst (fst (canExecute cfg p m t (fold failAt ts start)))
     \<and> (t - t1 < cooldownDurationMs cfg \<longrightarrow> \<not> fst (fst (canExecute cfg p m t tripped)))
     \<and> (cooldownDurationMs cfg \<le> t - t1 \<longrightarrow> fst (fst (canExecute cfg p m t tripped))
          \<and> getCircuitStatus cfg p m t2 (failAt t2 (snd (canExecute cfg p m t tripped)))
              = (if cooldownDurationMs cfg \<le> 0 then HalfOpen else Open)
          \<and> getCircuitStatus cfg p m t2 (recordSuccess p m lat t2 (snd (canExecute cfg p m t tripped))) = Closed)"
proof -
  let ?k = "errorType (classifyError err)"
  have f: "failAt = noteFailure cfg p m True ?k lat"
    using assms(1,4) by (simp add: recordFailure_transient fun_eq_iff)
  have c0: "consecutiveFailures (getOrCreate p m start) = 0"
    unfolding assms(3) using models.succeed_closes by blast
  have thr: "consecutiveFailuresThreshold cfg \<le> consecutiveFailures (getOrCreate p m start) + int (length ts) + 1"
    using assms(2) c0 by simp
  have t: "tripped = models.failAll cfg p m ?k lat (ts @ [t1]) start"
    by (simp add: assms(5) models.failAll_def f)
  have a: "fst (fst (canExecute cfg p m x r)) = fst (allowed cfg p m x r)"
    "snd (canExecute cfg p m x r) = snd (allowed cfg p m x r)" for x r
    by (simp_all add: allowed_def case_prod_unfold)
  have st: "map_of (putEntry p m e r) (getKey p m) = Some e" for e r
    by (simp add: putEntry_def update_conv')
  have open1: "getCircuitStatus cfg p m t2 (noteFailure cfg p m True ?k lat t2 r)
      = (if cooldownDurationMs cfg \<le> 0 then HalfOpen else Open)"
    if "state (getOrCreate p m r) = HalfOpen" for r
    using that by (simp add: noteFailure_def Let_def getCircuitStatus_def st)
  have closed1: "getCircuitStatus cfg p m t2 (recordSuccess p m lat t2 r) = Closed" for r
    by (simp add: recordSuccess_def Let_def getCircuitStatus_def st)
  have 1: "fst (allowed cfg p m t (models.failAll cfg p m ?k lat ts start))"
    unfolding assms(3) by (rule models.breaker_cycle) (use assms(2) in simp)
  have 2: "\<not> fst (allowed cfg p m t tripped)" if "t - t1 < cooldownDurationMs cfg"
    unfolding t by (rule models.breaker_denies[OF thr]) (use that in simp)
  have 3: "fst (allowed cfg p m t tripped)" "state (getOrCreate p m (snd (allowed cfg p m t tripped))) = HalfOpen"
    if "cooldownDurationMs cfg \<le> t - t1"
    using models.open_probes[of p m tripped cfg t] models.failAll_trips[OF thr, of ?k lat t1] that
    unfolding t by auto
  show ?thesis using 1 2 3 open1 closed1 by (simp add: a f models.failAll_def)
qed

text \<open>A model with the default configuration, failing three times with status 503.\<close>

theorem model_breaker_cycle_witness:
  "let failAt = (\<lambda>t r. snd (recordFailure DEFAULT_CIRCUIT_BREAKER_CONFIG ''p'' ''m'' (JNumber (Num 503)) 5 t r));
       tripped = fold failAt [1, 2, 3] (recordSuccess ''p'' ''m'' 5 0 [])
   in \<not> fst (fst (canExecute DEFAULT_CIRCUIT_BREAKER_CONFIG ''p'' ''m'' 100 tripped))
      \<and> fst (fst (canExecute DEFAULT_CIRCUIT_BREAKER_CONFIG ''p'' ''m'' 30003 tripped))"
proof -
  let ?c = DEFAULT_CIRCUIT_BREAKER_CONFIG
  have 1: "isTransient (classifyError (JNumber (Num 503)))"
    and 2: "int (length [1, 2::int]) + 1 = consecutiveFailuresThreshold ?c" "cooldownDurationMs ?c = 30000"
    by code_simp+
  show ?thesis
    using model_breaker_cycle[OF 1 2(1) refl refl refl, where p = "''p''" and m = "''m''" and lat = 5 and ?t0.0 = 0
        and reg = "[]" and ?t1.0 = 3 and t = 100]
      model_breaker_cycle[OF 1 2(1) refl refl refl, where p = "''p''" and m = "''m''" and lat = 5 and ?t0.0 = 0
        and reg = "[]" and ?t1.0 = 3 and t = 30003] 2(2)
    by (simp add: Let_def)
qed

lemma noteFailure_permanent:
  "state (getOrCreate p m (noteFailure cfg p m False k lat t reg)) = state (getOrCreate p m reg)"
  "consecutiveFailures (getOrCreate p m (noteFailure cfg p m False k lat t reg)) = consecutiveFailures (getOrCreate p m reg)"
  "halfOpenTrials (getOrCreate p m (noteFailure cfg p m False k lat t reg)) = halfOpenTrials (getOrCreate p m reg)"
  by (simp_all add: noteFailure_def Let_def)

text \<open>
  A probe that ends in a permanent error leaves the breaker stuck: it stays half-open with
  its trials used up, and from then on every call of that model is refused, at any time and
  whatever other permanent errors are recorded; there is no cooldown out of half-open.
\<close>

theorem model_breaker_stuck_half_open:
  assumes "state (getOrCreate p m reg) = HalfOpen" "halfOpenMaxTrials cfg \<le> halfOpenTrials (getOrCreate p m reg)"
    and "\<forall>e \<in> set errs. \<not> isTransient (classifyError e)"
  shows "fst (canExecute cfg p m now (fold (\<lambda>e r. snd (recordFailure cfg p m e lat t r)) errs reg)) = (False, HalfOpen)"
proof -
  have "state (getOrCreate p m (fold (\<lambda>e r. snd (recordFailure cfg p m e lat t r)) errs reg)) = HalfOpen
      \<and> halfOpenMaxTrials cfg \<le> halfOpenTrials (getOrCreate p m (fold (\<lambda>e r. snd (recordFailure cfg p m e lat t r)) errs reg))"
    using assms
    by (induction errs arbitrary: reg) (simp_all add: recordFailure_def Let_def noteFailure_permanent)
  then show ?thesis by (simp add: canExecute_def Let_def)
qed

theorem model_breaker_stuck_half_open_witness:
  "let cfg = DEFAULT_CIRCUIT_BREAKER_CONFIG;
       failAt = (\<lambda>t r. snd (recordFailure cfg ''p'' ''m'' (JNumber (Num 503)) 5 t r));
       probed = snd (canExecute cfg ''p'' ''m'' 40000 (fold failAt [1, 2, 3] []))
   in fst (canExecute cfg ''p'' ''m'' 99999999 (snd (recordFailure cfg ''p'' ''m'' (JNumber (Num 401)) 5 40001 probed)))
        = (False, HalfOpen)"
proof -
  let ?cfg = DEFAULT_CIRCUIT_BREAKER_CONFIG
  let ?r = "snd (canExecute ?cfg ''p'' ''m'' 40000
     (fold (\<lambda>t r. snd (recordFailure ?cfg ''p'' ''m'' (JNumber (Num 503)) 5 t r)) [1, 2, 3] []))"
  have "state (getOrCreate ''p'' ''m'' ?r) = HalfOpen" "halfOpenMaxTrials ?cfg \<le> halfOpenTrials (getOrCreate ''p'' ''m'' ?r)"
    "\<forall>e \<in> set [JNumber (Num 401)]. \<not> isTransient (classifyError e)" by code_simp+
  from model_breaker_stuck_half_open[OF this, of 99999999 5 40001] show ?thesis by (simp add: Let_def)
qed

text \<open>
  Permanent errors never trip a breaker: an error with an authentication or request status,
  whatever its message, is classified as permanent, and recording any number of them leaves
  a closed breaker closed and its count of consecutive failures as it was.
\<close>

theorem model_breaker_permanent_errors:
  assumes "\<forall>e \<in> set errs. num_in (fst (readError e)) [400, 401, 403, 404, 422]"
    and "reg' = fold (\<lambda>e r. snd (recordFailure cfg p m e lat t r)) errs reg"
  shows "state (getOrCreate p m reg') = state (getOrCreate p m reg)
     \<and> consecutiveFailures (getOrCreate p m reg') = consecutiveFailures (getOrCreate p m reg)"
proof -
  have c: "\<not> isTransient (classifyError e)" if "num_in (fst (readError e)) [400, 401, 403, 404, 422]" for e
    using that by (cases "readError e")
      (auto simp: classifyError_def num_in_def permanentAs_def Let_def split: option.splits number.splits)
  show ?thesis
    using assms(1) unfolding assms(2)
    by (induction errs arbitrary: reg) (simp_all add: recordFailure_def Let_def noteFailure_permanent c)
qed

theorem model_breaker_permanent_errors_witness:
  "state (getOrCreate ''p'' ''m'' (fold (\<lambda>e r. snd (recordFailure DEFAULT_CIRCUIT_BREAKER_CONFIG ''p'' ''m'' e 5 0 r))
     (replicate 9 (JObject [(''status'', JNumber (Num 401)), (''message'', JString ''timeout'')])) [])) = Closed"
proof -
  let ?errs = "replicate 9 (JObject [(''status'', JNumber (Num 401)), (''message'', JString ''timeout'')])"
  have "\<forall>e \<in> set ?errs. num_in (fst (readError e)) [400, 401, 403, 404, 422]" by code_simp
  from model_breaker_permanent_errors[OF this refl, where cfg = DEFAULT_CIRCUIT_BREAKER_CONFIG and p = "''p''" and m = "''m''" and lat = 5 and t = 0 and reg = "[]"]
  show ?thesis by (simp add: getOrCreate_def newEntry_def)
qed

end
