(* ===== verification/Delivery_Inbox.thy ===== *)
theory Delivery_Inbox
  imports Prelude "HOL-Library.Char_ord" "HOL-Library.List_Lexorder"
begin

text \<open>
  The delivery inbox \<open>SqliteTenantScopedDeliveryInboxRepository\<close>
  (\<open>platform-storage-sqlite/src/repos/delivery-inbox-repo.ts\<close>): idempotent ingestion of
  deliveries and the compare-and-swap status machine. There is no transaction around an
  operation, so \<open>ingest\<close> is also given statement by statement, for runs in which the
  statements of concurrent calls interleave. Timestamps are the strings the table holds:
  \<open>nowIso\<close> is \<open>new Date().toISOString()\<close> and \<open>sqlNow\<close> is \<open>CURRENT_TIMESTAMP\<close>. A payload is kept
  as the value whose JSON text the table holds.
\<close>

section \<open>Tables\<close>

datatype deliveryStatus = Held | Processing | Delivered | Duplicate | Cancelled | Failed

fun status_text :: "deliveryStatus \<Rightarrow> string" where
  "status_text Held = ''held''"
| "status_text Processing = ''processing''"
| "status_text Delivered = ''delivered''"
| "status_text Duplicate = ''duplicate''"
| "status_text Cancelled = ''cancelled''"
| "status_text Failed = ''failed''"

record inboxEntry =
  ib_id :: string
  ib_user :: string
  ib_route :: string
  ib_message :: string
  ib_delivery :: string
  ib_status :: deliveryStatus
  ib_payload :: "jsval option"
  ib_error :: "string option"
  ib_receivedAt :: string
  ib_processedAt :: "string option"
  ib_createdAt :: string
  ib_updatedAt :: string

record inbox_db =
  session_routes :: "(string \<times> string) list"
  delivery_inbox :: "inboxEntry list"

datatype inboxError =
    NotFoundError string
  | InvalidStateTransitionError string string
  | InboxError string
  | ConstraintFailed

type_synonym 'a inbox_op = "(inbox_db, inboxError, 'a) op"

record ingestInput =
  in_id :: string
  in_routeId :: string
  in_messageId :: string
  in_deliveryId :: string
  in_payload :: jsval
  in_receivedAt :: "string option"

section \<open>Reading\<close>

definition findById :: "string \<Rightarrow> string \<Rightarrow> inbox_db \<Rightarrow> inboxEntry option" where
  "findById u i db = tbl_get (\<lambda>e. ib_id e = i \<and> ib_user e = u) (delivery_inbox db)"

definition findByDeliveryId :: "string \<Rightarrow> string \<Rightarrow> inbox_db \<Rightarrow> inboxEntry option" where
  "findByDeliveryId u d db = tbl_get (\<lambda>e. ib_delivery e = d \<and> ib_user e = u) (delivery_inbox db)"

text \<open>\<open>LIMIT\<close> is added for a truthy number; SQLite takes a negative limit as none.\<close>

definition limited :: "int option \<Rightarrow> 'a list \<Rightarrow> 'a list" where
  "limited limit xs = (case limit of None \<Rightarrow> xs | Some n \<Rightarrow> if n \<le> 0 then xs else take (nat n) xs)"

definition listByStatus :: "deliveryStatus \<Rightarrow> string \<Rightarrow> int option \<Rightarrow> inbox_db \<Rightarrow> inboxEntry list" where
  "listByStatus st u limit db =
     limited limit (sort_key ib_receivedAt (filter (\<lambda>e. ib_user e = u \<and> ib_status e = st) (delivery_inbox db)))"

definition listHeld :: "string \<Rightarrow> int option \<Rightarrow> inbox_db \<Rightarrow> inboxEntry list" where
  "listHeld = listByStatus Held"

definition listProcessing :: "string \<Rightarrow> int option \<Rightarrow> inbox_db \<Rightarrow> inboxEntry list" where
  "listProcessing = listByStatus Processing"

definition listByRouteId ::
  "string \<Rightarrow> string \<Rightarrow> int option \<Rightarrow> int option \<Rightarrow> inbox_db \<Rightarrow> inboxEntry list" where
  "listByRouteId u routeId limit offset db =
     (let rows = sort_key ib_receivedAt (filter (\<lambda>e. ib_route e = routeId \<and> ib_user e = u) (delivery_inbox db))
      in case limit of
           None \<Rightarrow> rows
         | Some n \<Rightarrow> if n = 0 then rows
             else limited (Some n) (case offset of None \<Rightarrow> rows | Some k \<Rightarrow> drop (nat k) rows))"

section \<open>Ingesting\<close>

definition newInboxEntry :: "string \<Rightarrow> ingestInput \<Rightarrow> string \<Rightarrow> string \<Rightarrow> inboxEntry" where
  "newInboxEntry u inp nowIso sqlNow =
     \<lparr> ib_id = in_id inp, ib_user = u, ib_route = in_routeId inp, ib_message = in_messageId inp,
       ib_delivery = in_deliveryId inp, ib_status = Held,
       ib_payload = (if in_payload inp \<noteq> JUndefined \<and> in_payload inp \<noteq> JNull then Some (in_payload inp) else None),
       ib_error = None, ib_receivedAt = (case in_receivedAt inp of Some t \<Rightarrow> t | None \<Rightarrow> nowIso),
       ib_processedAt = None, ib_createdAt = sqlNow, ib_updatedAt = sqlNow \<rparr>"

text \<open>
  The insert fails on a primary key in use, on a second row for \<open>(user_id, delivery_id)\<close>, or
  when the route is gone.
\<close>

definition insertInbox :: "inboxEntry \<Rightarrow> unit inbox_op" where
  "insertInbox e db =
     (if (\<exists>x \<in> set (delivery_inbox db). ib_id x = ib_id e \<or> (ib_user x = ib_user e \<and> ib_delivery x = ib_delivery e))
         \<or> ib_route e \<notin> fst ` set (session_routes db)
      then (Inl ConstraintFailed, db)
      else (Inr (), db\<lparr>delivery_inbox := delivery_inbox db @ [e]\<rparr>))"

text \<open>
  The result is the entry and \<open>isDuplicate\<close>. The identifier drawn when none is given is part of
  the input.
\<close>

definition ingest :: "string \<Rightarrow> ingestInput \<Rightarrow> string \<Rightarrow> string \<Rightarrow> (inboxEntry \<times> bool) inbox_op" where
  "ingest u inp nowIso sqlNow db =
     (if (in_routeId inp, u) \<notin> set (session_routes db) then (Inl (NotFoundError ''Session route not found''), db)
      else case findByDeliveryId u (in_deliveryId inp) db of
        Some existing \<Rightarrow> (Inr (existing, True), db)
      | None \<Rightarrow>
          (case insertInbox (newInboxEntry u inp nowIso sqlNow) db of
             (Inl err, db1) \<Rightarrow>
               (case findByDeliveryId u (in_deliveryId inp) db1 of
                  Some duplicate \<Rightarrow> (Inr (duplicate, True), db1)
                | None \<Rightarrow> (Inl err, db1))
           | (Inr _, db1) \<Rightarrow>
               (case findById u (in_id inp) db1 of
                  None \<Rightarrow> (Inl (InboxError ''Failed to retrieve newly ingested delivery inbox entry''), db1)
                | Some created \<Rightarrow> (Inr (created, False), db1))))"

section \<open>The status machine\<close>

definition checkOwnershipAndGet :: "string \<Rightarrow> string \<Rightarrow> inbox_db \<Rightarrow> inboxError + inboxEntry" where
  "checkOwnershipAndGet u i db = (case findById u i db of
      None \<Rightarrow> Inl (NotFoundError ''Delivery inbox entry not found'') | Some e \<Rightarrow> Inr e)"

text \<open>\<open>UPDATE delivery_inbox SET \<dots> WHERE id = ? AND user_id = ? AND status IN (\<dots>)\<close>.\<close>

definition inStatus :: "string \<Rightarrow> string \<Rightarrow> deliveryStatus set \<Rightarrow> inboxEntry \<Rightarrow> bool" where
  "inStatus u i sts e \<longleftrightarrow> ib_id e = i \<and> ib_user e = u \<and> ib_status e \<in> sts"

definition updateInbox :: "(inboxEntry \<Rightarrow> bool) \<Rightarrow> (inboxEntry \<Rightarrow> inboxEntry) \<Rightarrow> inbox_db \<Rightarrow> nat \<times> inbox_db" where
  "updateInbox P f db =
     (tbl_changes P (delivery_inbox db), db\<lparr>delivery_inbox := tbl_update P f (delivery_inbox db)\<rparr>)"

definition claimHeld :: "string \<Rightarrow> string \<Rightarrow> string \<Rightarrow> inboxEntry option inbox_op" where
  "claimHeld u i sqlNow db =
     (case checkOwnershipAndGet u i db of
        Inl e \<Rightarrow> (Inl e, db)
      | Inr _ \<Rightarrow>
          (case updateInbox (inStatus u i {Held})
                  (\<lambda>e. e\<lparr>ib_status := Processing, ib_updatedAt := sqlNow\<rparr>) db of
             (changes, db1) \<Rightarrow> if changes = 0 then (Inr None, db1) else (Inr (findById u i db1), db1)))"

text \<open>
  The common shape of the other transitions: the update, an error naming the current status when
  it changed nothing, and the row read back.
\<close>

definition casTransition ::
  "string \<Rightarrow> string \<Rightarrow> deliveryStatus set \<Rightarrow> deliveryStatus \<Rightarrow> (inboxEntry \<Rightarrow> inboxEntry) \<Rightarrow> inboxEntry inbox_op" where
  "casTransition u i from target f db =
     (case checkOwnershipAndGet u i db of
        Inl e \<Rightarrow> (Inl e, db)
      | Inr existing \<Rightarrow>
          (case updateInbox (inStatus u i from) (\<lambda>e. (f e)\<lparr>ib_status := target\<rparr>) db of
             (changes, db1) \<Rightarrow>
               if changes = 0 then
                 (Inl (InvalidStateTransitionError
                    (case findById u i db1 of Some current \<Rightarrow> status_text (ib_status current)
                                            | None \<Rightarrow> status_text (ib_status existing))
                    (status_text target)), db1)
               else (case findById u i db1 of
                  None \<Rightarrow> (Inl (NotFoundError ''DeliveryInboxEntry not found after update''), db1)
                | Some updated \<Rightarrow> (Inr updated, db1))))"

definition releaseToHeld :: "string \<Rightarrow> string \<Rightarrow> string option \<Rightarrow> string \<Rightarrow> inboxEntry inbox_op" where
  "releaseToHeld u i err sqlNow =
     casTransition u i {Processing} Held (\<lambda>e. e\<lparr>ib_error := err, ib_updatedAt := sqlNow\<rparr>)"

definition markDelivered :: "string \<Rightarrow> string \<Rightarrow> string option \<Rightarrow> string \<Rightarrow> string \<Rightarrow> inboxEntry inbox_op" where
  "markDelivered u i processedAt nowIso sqlNow =
     casTransition u i {Processing} Delivered
       (\<lambda>e. e\<lparr>ib_processedAt := Some (case processedAt of Some t \<Rightarrow> t | None \<Rightarrow> nowIso), ib_updatedAt := sqlNow\<rparr>)"

definition markDuplicate :: "string \<Rightarrow> string \<Rightarrow> string option \<Rightarrow> string \<Rightarrow> inboxEntry inbox_op" where
  "markDuplicate u i err sqlNow =
     casTransition u i {Held, Processing} Duplicate
       (\<lambda>e. e\<lparr>ib_error := Some (case err of Some x \<Rightarrow> x | None \<Rightarrow> ''Duplicate delivery detected''), ib_updatedAt := sqlNow\<rparr>)"

definition markCancelled :: "string \<Rightarrow> string \<Rightarrow> string option \<Rightarrow> string \<Rightarrow> inboxEntry inbox_op" where
  "markCancelled u i err sqlNow =
     casTransition u i {Held, Processing} Cancelled
       (\<lambda>e. e\<lparr>ib_error := Some (case err of Some x \<Rightarrow> x | None \<Rightarrow> ''Delivery cancelled''), ib_updatedAt := sqlNow\<rparr>)"

definition updateStatus ::
  "string \<Rightarrow> string \<Rightarrow> string \<Rightarrow> string option \<Rightarrow> string option \<Rightarrow> string \<Rightarrow> string \<Rightarrow> inboxEntry inbox_op" where
  "updateStatus u i status err processedAt nowIso sqlNow db =
     (if status = ''processing'' then
        (case claimHeld u i sqlNow db of
           (Inl e, db1) \<Rightarrow> (Inl e, db1)
         | (Inr (Some claimed), db1) \<Rightarrow> (Inr claimed, db1)
         | (Inr None, db1) \<Rightarrow>
             (Inl (InvalidStateTransitionError
                (case findById u i db1 of Some current \<Rightarrow> status_text (ib_status current) | None \<Rightarrow> ''unknown'')
                ''processing''), db1))
      else if status = ''held'' then releaseToHeld u i err sqlNow db
      else if status = ''delivered'' then markDelivered u i processedAt nowIso sqlNow db
      else if status = ''duplicate'' then markDuplicate u i err sqlNow db
      else if status = ''cancelled'' then markCancelled u i err sqlNow db
      else (Inl (InvalidStateTransitionError ''unknown'' status), db))"

section \<open>Commands\<close>

datatype inboxCmd =
    Ingest ingestInput string string
  | Claim string string
  | ReleaseHeld string "string option" string
  | MarkDelivered string "string option" string string
  | MarkDuplicate string "string option" string
  | MarkCancelled string "string option" string
  | UpdateStatus string string "string option" "string option" string string

definition drop_result :: "'a inbox_op \<Rightarrow> unit inbox_op" where
  "drop_result m db = (case m db of (r, db') \<Rightarrow> (map_sum id (\<lambda>_. ()) r, db'))"

fun inboxExec :: "string \<times> inboxCmd \<Rightarrow> unit inbox_op" where
  "inboxExec (u, Ingest inp n s) = drop_result (ingest u inp n s)"
| "inboxExec (u, Claim i s) = drop_result (claimHeld u i s)"
| "inboxExec (u, ReleaseHeld i e s) = drop_result (releaseToHeld u i e s)"
| "inboxExec (u, MarkDelivered i p n s) = drop_result (markDelivered u i p n s)"
| "inboxExec (u, MarkDuplicate i e s) = drop_result (markDuplicate u i e s)"
| "inboxExec (u, MarkCancelled i e s) = drop_result (markCancelled u i e s)"
| "inboxExec (u, UpdateStatus i st e p n s) = drop_result (updateStatus u i st e p n s)"

definition inboxRun :: "(string \<times> inboxCmd) list \<Rightarrow> inbox_db \<Rightarrow> inbox_db" where
  "inboxRun cmds db = fold (\<lambda>c d. snd (inboxExec c d)) cmds db"

section \<open>Ingestion statement by statement\<close>

text \<open>
  Where a call of \<open>ingest\<close> is: before its route check, before its first lookup, before the
  insert, before the lookup in the exception handler, before reading the row back, or done.
\<close>

datatype ingestPc =
    AtRoute | AtLookup | AtInsert | AtCatch inboxError | AtReadBack | Done "inboxError + inboxEntry \<times> bool"

record ingestCall =
  ic_user :: string
  ic_input :: ingestInput
  ic_nowIso :: string
  ic_sqlNow :: string
  ic_pc :: ingestPc

text \<open>One statement of a call: the program counter after it, and the database.\<close>

definition ingestStep :: "ingestCall \<Rightarrow> inbox_db \<Rightarrow> ingestPc \<times> inbox_db" where
  "ingestStep c db =
     (let u = ic_user c; inp = ic_input c in
      case ic_pc c of
        AtRoute \<Rightarrow> (if (in_routeId inp, u) \<notin> set (session_routes db)
                    then Done (Inl (NotFoundError ''Session route not found'')) else AtLookup, db)
      | AtLookup \<Rightarrow> (case findByDeliveryId u (in_deliveryId inp) db of
                      Some existing \<Rightarrow> Done (Inr (existing, True)) | None \<Rightarrow> AtInsert, db)
      | AtInsert \<Rightarrow> (case insertInbox (newInboxEntry u inp (ic_nowIso c) (ic_sqlNow c)) db of
                      (Inl err, db1) \<Rightarrow> (AtCatch err, db1) | (Inr _, db1) \<Rightarrow> (AtReadBack, db1))
      | AtCatch err \<Rightarrow> (case findByDeliveryId u (in_deliveryId inp) db of
                      Some duplicate \<Rightarrow> Done (Inr (duplicate, True)) | None \<Rightarrow> Done (Inl err), db)
      | AtReadBack \<Rightarrow> (case findById u (in_id inp) db of
                      None \<Rightarrow> Done (Inl (InboxError ''Failed to retrieve newly ingested delivery inbox entry''))
                    | Some created \<Rightarrow> Done (Inr (created, False)), db)
      | Done r \<Rightarrow> (Done r, db))"

text \<open>
  A system of concurrent calls over one database: a call executes its next statement, or some
  other command of any tenant executes.
\<close>

inductive inboxStep :: "ingestCall list \<times> inbox_db \<Rightarrow> ingestCall list \<times> inbox_db \<Rightarrow> bool" where
  statement: "k < length cs \<Longrightarrow> ingestStep (cs ! k) db = (pc, db') \<Longrightarrow>
     inboxStep (cs, db) (cs[k := (cs ! k)\<lparr>ic_pc := pc\<rparr>], db')"
| command: "inboxStep (cs, db) (cs, snd (inboxExec cmd db))"

text \<open>States reachable when every call starts at its first statement.\<close>

inductive inboxReachable :: "inbox_db \<Rightarrow> ingestCall list \<times> inbox_db \<Rightarrow> bool" for db0 where
  start: "list_all (\<lambda>c. ic_pc c = AtRoute) cs \<Longrightarrow> inboxReachable db0 (cs, db0)"
| step: "inboxReachable db0 s \<Longrightarrow> inboxStep s s' \<Longrightarrow> inboxReachable db0 s'"

end
