(* ===== verification/Inbox_Theorems.thy ===== *)
theory Inbox_Theorems
  imports Delivery_Inbox
begin

text \<open>
  The theorems about the delivery inbox: its status machine, exclusive claims, tenant isolation,
  and exactly one fresh ingestion per delivery however concurrent calls interleave.
\<close>

section \<open>Sample data\<close>

definition inboxSample :: inbox_db where
  "inboxSample = \<lparr> session_routes = [(''r1'', ''u'')], delivery_inbox = [] \<rparr>"

definition sampleIngest :: "string \<Rightarrow> ingestInput" where
  "sampleIngest i = \<lparr> in_id = i, in_routeId = ''r1'', in_messageId = ''m1'', in_deliveryId = ''d1'',
     in_payload = JUndefined, in_receivedAt = None \<rparr>"

definition sampleCall :: "string \<Rightarrow> ingestCall" where
  "sampleCall i = \<lparr> ic_user = ''u'', ic_input = sampleIngest i, ic_nowIso = ''t'', ic_sqlNow = ''t'', ic_pc = AtRoute \<rparr>"

text \<open>The sample after its delivery has been ingested.\<close>

definition heldSample :: inbox_db where
  "heldSample = snd (ingest ''u'' (sampleIngest ''i1'') ''t'' ''t'' inboxSample)"

section \<open>How one command changes the table\<close>

definition inbox_wf :: "inbox_db \<Rightarrow> bool" where
  "inbox_wf db \<longleftrightarrow> distinct (map ib_id (delivery_inbox db)) \<and>
     distinct (map (\<lambda>e. (ib_user e, ib_delivery e)) (delivery_inbox db))"

text \<open>The edges of the status machine.\<close>

fun edge :: "deliveryStatus \<Rightarrow> deliveryStatus \<Rightarrow> bool" where
  "edge Held t = (t \<in> {Processing, Duplicate, Cancelled})"
| "edge Processing t = (t \<in> {Held, Delivered, Duplicate, Cancelled})"
| "edge _ _ = False"

definition sameKeys :: "inboxEntry \<Rightarrow> inboxEntry \<Rightarrow> bool" where
  "sameKeys e e' \<longleftrightarrow> ib_id e' = ib_id e \<and> ib_user e' = ib_user e \<and> ib_route e' = ib_route e \<and>
     ib_message e' = ib_message e \<and> ib_delivery e' = ib_delivery e \<and> ib_payload e' = ib_payload e \<and>
     ib_receivedAt e' = ib_receivedAt e \<and> ib_createdAt e' = ib_createdAt e"

text \<open>A row after one command of tenant \<open>u\<close>: as before, or moved along an edge.\<close>

definition moved :: "string \<Rightarrow> inboxEntry \<Rightarrow> inboxEntry \<Rightarrow> bool" where
  "moved u e e' \<longleftrightarrow> e' = e \<or> (ib_user e = u \<and> edge (ib_status e) (ib_status e') \<and> sameKeys e e')"

definition inboxEvolves :: "string \<Rightarrow> inbox_db \<Rightarrow> inbox_db \<Rightarrow> bool" where
  "inboxEvolves u db db' \<longleftrightarrow> session_routes db' = session_routes db \<and>
     list_all2 (moved u) (delivery_inbox db) (take (length (delivery_inbox db)) (delivery_inbox db')) \<and>
     list_all (\<lambda>e. ib_user e = u) (drop (length (delivery_inbox db)) (delivery_inbox db')) \<and>
     (inbox_wf db \<longrightarrow> inbox_wf db')"

lemma moved_refl [simp]: "moved u e e"
  by (simp add: moved_def)

lemma moved_keys: "moved u e e' \<Longrightarrow> sameKeys e e'"
  by (auto simp: moved_def sameKeys_def)

lemma moved_final: "moved u e e' \<Longrightarrow> ib_status e \<notin> {Held, Processing} \<Longrightarrow> e' = e"
  by (cases "ib_status e") (auto simp: moved_def)

lemma inboxEvolves_refl [simp]: "inboxEvolves u db db"
  by (simp add: inboxEvolves_def list.rel_refl)

lemma inboxEvolves_update:
  assumes "\<And>st. st \<in> from \<Longrightarrow> edge st t" "\<And>e. sameKeys e (f e)" "\<And>e. ib_status (f e) = t"
  shows "inboxEvolves u db (db\<lparr>delivery_inbox := tbl_update (inStatus u i from) f (delivery_inbox db)\<rparr>)"
proof -
  have r: "list_all2 (moved u) rows (tbl_update (inStatus u i from) f rows)" for rows
    using assms by (induction rows) (auto simp: tbl_update_Cons moved_def inStatus_def)
  have "map ib_id (tbl_update P f rows) = map ib_id rows"
    "map (\<lambda>e. (ib_user e, ib_delivery e)) (tbl_update P f rows) = map (\<lambda>e. (ib_user e, ib_delivery e)) rows" for P rows
    by (rule map_tbl_update; use assms(2) in \<open>simp add: sameKeys_def\<close>)+
  with r show ?thesis
    unfolding inboxEvolves_def inbox_wf_def by simp
qed

lemma inboxEvolves_insert:
  assumes "insertInbox e db = (r, db')" "ib_user e = u"
  shows "inboxEvolves u db db'"
proof (cases r)
  case (Inr x)
  with assms have "db' = db\<lparr>delivery_inbox := delivery_inbox db @ [e]\<rparr>"
    "\<forall>y \<in> set (delivery_inbox db). ib_id y \<noteq> ib_id e \<and> (ib_user y, ib_delivery y) \<noteq> (ib_user e, ib_delivery e)"
    by (auto simp: insertInbox_def split: if_splits)
  then show ?thesis
    using assms(2) unfolding inboxEvolves_def inbox_wf_def by (auto simp: list.rel_refl)
qed (use assms in \<open>auto simp: insertInbox_def split: if_splits\<close>)

lemma ingest_evolves: "inboxEvolves u db (snd (ingest u inp n s db))"
proof (cases "insertInbox (newInboxEntry u inp n s) db")
  case (Pair r db')
  have "inboxEvolves u db db'" by (rule inboxEvolves_insert[OF Pair]) (simp add: newInboxEntry_def)
  with Pair show ?thesis by (auto simp: ingest_def split: option.splits sum.splits)
qed

lemma casTransition_evolves:
  assumes "\<And>st. st \<in> from \<Longrightarrow> edge st t" "\<And>e. sameKeys e (f e)"
  shows "inboxEvolves u db (snd (casTransition u i from t f db))"
proof -
  have "inboxEvolves u db (snd (updateInbox (inStatus u i from) (\<lambda>e. (f e)\<lparr>ib_status := t\<rparr>) db))"
    unfolding updateInbox_def snd_conv
    by (rule inboxEvolves_update) (use assms in \<open>auto simp: sameKeys_def\<close>)
  then show ?thesis
    by (auto simp: casTransition_def updateInbox_def split: sum.split option.split)
qed

lemma claimHeld_evolves: "inboxEvolves u db (snd (claimHeld u i s db))"
proof -
  have "inboxEvolves u db (snd (updateInbox (inStatus u i {Held}) (\<lambda>e. e\<lparr>ib_status := Processing, ib_updatedAt := s\<rparr>) db))"
    unfolding updateInbox_def snd_conv
    by (rule inboxEvolves_update) (auto simp: sameKeys_def)
  then show ?thesis by (auto simp: claimHeld_def updateInbox_def split: sum.split)
qed

lemma marks_evolve:
  "inboxEvolves u db (snd (releaseToHeld u i err s db))" "inboxEvolves u db (snd (markDelivered u i p n s db))"
  "inboxEvolves u db (snd (markDuplicate u i err s db))" "inboxEvolves u db (snd (markCancelled u i err s db))"
  unfolding releaseToHeld_def markDelivered_def markDuplicate_def markCancelled_def
  by (rule casTransition_evolves; auto simp: sameKeys_def)+

lemma snd_updateStatus:
  "snd (updateStatus u i st err p n s db) =
     (if st = ''processing'' then snd (claimHeld u i s db)
      else if st = ''held'' then snd (releaseToHeld u i err s db)
      else if st = ''delivered'' then snd (markDelivered u i p n s db)
      else if st = ''duplicate'' then snd (markDuplicate u i err s db)
      else if st = ''cancelled'' then snd (markCancelled u i err s db) else db)"
proof (cases "st = ''processing''")
  case True
  obtain r db1 where "claimHeld u i s db = (r, db1)" by fastforce
  with True show ?thesis by (simp add: updateStatus_def split: sum.split option.split)
next
  case False
  then show ?thesis by (simp add: updateStatus_def)
qed

lemma updateStatus_evolves: "inboxEvolves u db (snd (updateStatus u i st err p n s db))"
  unfolding snd_updateStatus by (simp add: marks_evolve claimHeld_evolves)

lemma snd_drop_result [simp]: "snd (drop_result m db) = snd (m db)"
  by (simp add: drop_result_def case_prod_unfold)

lemma inboxExec_evolves: "inboxEvolves (fst c) db (snd (inboxExec c db))"
  by (cases c; cases "snd c")
     (auto simp: ingest_evolves claimHeld_evolves marks_evolve updateStatus_evolves)

interpretation inbox: invariant_ops inboxExec inbox_wf
  by unfold_locales (use inboxExec_evolves in \<open>auto simp: inboxEvolves_def\<close>)

lemma inboxRun_Nil [simp]: "inboxRun [] db = db"
  and inboxRun_Cons [simp]: "inboxRun (c # cs) db = inboxRun cs (snd (inboxExec c db))"
  by (simp_all add: inboxRun_def)

text \<open>The row at a position before and after a command.\<close>

lemma inboxEvolves_nth:
  assumes "inboxEvolves u db db'" "k < length (delivery_inbox db)"
  shows "k < length (delivery_inbox db')" "moved u (delivery_inbox db ! k) (delivery_inbox db' ! k)"
  using assms by (auto simp: inboxEvolves_def list_all2_conv_all_nth)

section \<open>Concurrent ingestion\<close>

text \<open>A call that has inserted its row.\<close>

fun inserted :: "ingestPc \<Rightarrow> bool" where
  "inserted AtReadBack = True"
| "inserted (Done (Inr (_, d))) = (\<not> d)"
| "inserted _ = False"

definition callKey :: "ingestCall \<Rightarrow> string \<times> string" where
  "callKey c = (ic_user c, in_deliveryId (ic_input c))"

definition rowKey :: "inboxEntry \<Rightarrow> string \<times> string" where
  "rowKey e = (ib_user e, ib_delivery e)"

text \<open>
  Whoever has inserted has its row in the table, and no two calls have inserted for the same
  delivery of a tenant.
\<close>

definition ingest_inv :: "ingestCall list \<times> inbox_db \<Rightarrow> bool" where
  "ingest_inv s \<longleftrightarrow> (case s of (cs, db) \<Rightarrow> inbox_wf db \<and>
     (\<forall>k < length cs. inserted (ic_pc (cs ! k)) \<longrightarrow> callKey (cs ! k) \<in> rowKey ` set (delivery_inbox db)) \<and>
     (\<forall>j < length cs. \<forall>k < length cs. j \<noteq> k \<longrightarrow> inserted (ic_pc (cs ! j)) \<longrightarrow> inserted (ic_pc (cs ! k)) \<longrightarrow>
        callKey (cs ! j) \<noteq> callKey (cs ! k)))"

lemma evolves_rowKeys:
  assumes "inboxEvolves u db db'"
  shows "rowKey ` set (delivery_inbox db) \<subseteq> rowKey ` set (delivery_inbox db')"
proof
  fix q assume "q \<in> rowKey ` set (delivery_inbox db)"
  then obtain k where k: "k < length (delivery_inbox db)" "q = rowKey (delivery_inbox db ! k)"
    by (auto simp: in_set_conv_nth)
  from inboxEvolves_nth[OF assms k(1)] have "k < length (delivery_inbox db')" "rowKey (delivery_inbox db' ! k) = q"
    using k(2) by (auto simp: rowKey_def sameKeys_def dest!: moved_keys)
  then show "q \<in> rowKey ` set (delivery_inbox db')" by force
qed

lemma ingestStep_evolves: "inboxEvolves (ic_user c) db (snd (ingestStep c db))"
proof (cases "insertInbox (newInboxEntry (ic_user c) (ic_input c) (ic_nowIso c) (ic_sqlNow c)) db")
  case (Pair r db')
  have "inboxEvolves (ic_user c) db db'" by (rule inboxEvolves_insert[OF Pair]) (simp add: newInboxEntry_def)
  with Pair show ?thesis by (auto simp: ingestStep_def Let_def split: ingestPc.split option.split sum.split)
qed

text \<open>A statement after which a call has inserted: it had before, or it just put a new key there.\<close>

lemma ingestStep_inserted:
  assumes "ingestStep c db = (pc, db')" "inserted pc"
  shows "inserted (ic_pc c) \<or> (callKey c \<notin> rowKey ` set (delivery_inbox db) \<and> callKey c \<in> rowKey ` set (delivery_inbox db'))"
proof (cases "ic_pc c")
  case AtInsert
  with assms show ?thesis
    by (auto simp: ingestStep_def Let_def insertInbox_def newInboxEntry_def callKey_def rowKey_def image_iff
        split: if_splits)
qed (use assms in \<open>auto simp: ingestStep_def Let_def split: if_splits option.splits\<close>)

lemma ingest_inv_step:
  assumes "inboxStep s s'" "ingest_inv s"
  shows "ingest_inv s'"
  using assms
proof (cases rule: inboxStep.cases)
  case (statement k cs db pc db')
  let ?cs = "cs[k := (cs ! k)\<lparr>ic_pc := pc\<rparr>]"
  have ev: "inboxEvolves (ic_user (cs ! k)) db db'" using ingestStep_evolves[of "cs ! k" db] statement(4) by simp
  note sub = evolves_rowKeys[OF ev] and ins = ingestStep_inserted[OF statement(4)]
  have inv: "inbox_wf db" "\<And>j. j < length cs \<Longrightarrow> inserted (ic_pc (cs ! j)) \<Longrightarrow> callKey (cs ! j) \<in> rowKey ` set (delivery_inbox db)"
    "\<And>i j. i < length cs \<Longrightarrow> j < length cs \<Longrightarrow> i \<noteq> j \<Longrightarrow> inserted (ic_pc (cs ! i)) \<Longrightarrow> inserted (ic_pc (cs ! j)) \<Longrightarrow>
        callKey (cs ! i) \<noteq> callKey (cs ! j)"
    using assms(2) statement(1) by (auto simp: ingest_inv_def)
  have key [simp]: "callKey (c\<lparr>ic_pc := q\<rparr>) = callKey c" for c q by (simp add: callKey_def)
  have "inbox_wf db'" using ev inv(1) by (simp add: inboxEvolves_def)
  moreover have "callKey (?cs ! j) \<in> rowKey ` set (delivery_inbox db')"
    if "j < length ?cs" "inserted (ic_pc (?cs ! j))" for j
    using that inv(2) sub ins by (cases "j = k") auto
  moreover have new: "callKey (cs ! j) \<noteq> callKey (cs ! k)"
    if "inserted pc" "j < length cs" "j \<noteq> k" "inserted (ic_pc (cs ! j))" for j
    using that ins inv(2)[of j] inv(3)[of j k] statement(3) by metis
  moreover have "callKey (?cs ! i) \<noteq> callKey (?cs ! j)"
    if "i < length ?cs" "j < length ?cs" "i \<noteq> j" "inserted (ic_pc (?cs ! i))" "inserted (ic_pc (?cs ! j))" for i j
    using that inv(3) new by (cases "i = k"; cases "j = k") (auto dest: not_sym)
  ultimately show ?thesis by (simp add: ingest_inv_def statement(2))
next
  case (command cs db cmd)
  then show ?thesis
    using evolves_rowKeys[OF inboxExec_evolves[of cmd db]] inbox.preserves[of db cmd] assms(2)
    by (auto simp: ingest_inv_def)
qed

lemma ingest_inv_reachable:
  assumes "inboxReachable db0 s" "inbox_wf db0"
  shows "ingest_inv s"
  using assms
proof (induction rule: inboxReachable.induct)
  case (start cs)
  then show ?case by (auto simp: ingest_inv_def list_all_length)
qed (auto intro: ingest_inv_step)

section \<open>Claims are exclusive\<close>

definition rowsOf :: "string \<Rightarrow> string \<Rightarrow> inbox_db \<Rightarrow> inboxEntry list" where
  "rowsOf u i db = filter (\<lambda>e. ib_id e = i \<and> ib_user e = u) (delivery_inbox db)"

text \<open>The tenant's row with the identifier exists and is not held.\<close>

definition taken :: "string \<Rightarrow> string \<Rightarrow> inbox_db \<Rightarrow> bool" where
  "taken u i db \<longleftrightarrow> rowsOf u i db \<noteq> [] \<and> list_all (\<lambda>e. ib_status e \<noteq> Held) (rowsOf u i db)"

text \<open>The commands that give a delivery back.\<close>

fun givesBack :: "string \<Rightarrow> string \<Rightarrow> string \<times> inboxCmd \<Rightarrow> bool" where
  "givesBack u i (v, ReleaseHeld j _ _) = (v = u \<and> j = i)"
| "givesBack u i (v, UpdateStatus j st _ _ _ _) = (v = u \<and> j = i \<and> st = ''held'')"
| "givesBack u i _ = False"

lemma rowsOf_update:
  "(\<And>e. sameKeys e (f e)) \<Longrightarrow> rowsOf u i (db\<lparr>delivery_inbox := tbl_update P f (delivery_inbox db)\<rparr>)
     = tbl_update P f (rowsOf u i db)"
  by (simp add: rowsOf_def filter_tbl_update_same sameKeys_def)

lemma rowsOf_keys: "e \<in> set (rowsOf u i db) \<Longrightarrow> ib_id e = i \<and> ib_user e = u"
  by (auto simp: rowsOf_def)

lemma findById_rowsOf: "findById u i db = (case rowsOf u i db of [] \<Rightarrow> None | e # _ \<Rightarrow> Some e)"
proof -
  have "find Q xs = (case filter Q xs of [] \<Rightarrow> None | e # _ \<Rightarrow> Some e)" for Q and xs :: "inboxEntry list"
    by (induction xs) auto
  then show ?thesis by (simp add: findById_def tbl_get_def rowsOf_def)
qed

lemma taken_update:
  assumes "taken u i db" "\<And>e. sameKeys e (f e)" "v = u \<and> j = i \<Longrightarrow> \<forall>e. ib_status (f e) \<noteq> Held"
  shows "taken u i (db\<lparr>delivery_inbox := tbl_update (inStatus v j from) f (delivery_inbox db)\<rparr>)"
proof (cases "v = u \<and> j = i")
  case True
  with assms show ?thesis by (simp add: taken_def rowsOf_update list_all_tbl_update)
next
  case False
  then have "tbl_update (inStatus v j from) f (rowsOf u i db) = rowsOf u i db"
    by (intro tbl_update_none) (auto simp: inStatus_def dest: rowsOf_keys)
  with assms(1,2) show ?thesis by (simp add: taken_def rowsOf_update)
qed

lemma taken_casTransition:
  assumes "taken u i db" "\<And>e. sameKeys e (f e)" "v = u \<and> j = i \<Longrightarrow> t \<noteq> Held"
  shows "taken u i (snd (casTransition v j from t f db))"
proof -
  have "taken u i (snd (updateInbox (inStatus v j from) (\<lambda>e. (f e)\<lparr>ib_status := t\<rparr>) db))"
    unfolding updateInbox_def snd_conv
    by (rule taken_update) (use assms in \<open>auto simp: sameKeys_def\<close>)
  with assms(1) show ?thesis
    by (auto simp: casTransition_def updateInbox_def split: sum.split option.split)
qed

lemma taken_claimHeld: "taken u i db \<Longrightarrow> taken u i (snd (claimHeld v j s db))"
  using taken_update[of u i db "\<lambda>e. e\<lparr>ib_status := Processing, ib_updatedAt := s\<rparr>" v j "{Held}"]
  by (auto simp: claimHeld_def updateInbox_def sameKeys_def split: sum.split)

lemma taken_ingest:
  assumes "taken u i db" 
  shows "taken u i (snd (ingest v inp n s db))"
proof -
  obtain e where e: "e \<in> set (delivery_inbox db)" "ib_id e = i"
    using assms by (auto simp: taken_def rowsOf_def filter_empty_conv)
  have "taken u i (snd (insertInbox x db))" for x
    using assms e by (auto simp: insertInbox_def taken_def rowsOf_def)
  moreover have "snd (ingest v inp n s db) \<in> {db, snd (insertInbox (newInboxEntry v inp n s) db)}"
    by (cases "insertInbox (newInboxEntry v inp n s) db"; cases "fst (insertInbox (newInboxEntry v inp n s) db)")
       (simp_all add: ingest_def split: option.split)
  ultimately show ?thesis using assms by auto
qed

lemma taken_exec:
  assumes "taken u i db" "\<not> givesBack u i c"
  shows "taken u i (snd (inboxExec c db))"
proof -
  have m: "taken u i (snd (markDelivered v j p n s db))" "taken u i (snd (markDuplicate v j er s db))"
    "taken u i (snd (markCancelled v j er s db))"
    "\<not> (v = u \<and> j = i) \<Longrightarrow> taken u i (snd (releaseToHeld v j er s db))" for v j p n s er
    unfolding markDelivered_def markDuplicate_def markCancelled_def releaseToHeld_def
    by (rule taken_casTransition[OF assms(1)]; auto simp: sameKeys_def)+
  show ?thesis
  proof (cases c)
    case (Pair v cmd)
    show ?thesis
    proof (cases cmd)
      case (UpdateStatus j st er p n s)
      with Pair assms(2) have "\<not> (v = u \<and> j = i) \<or> st \<noteq> ''held''" by auto
      then have "taken u i (snd (updateStatus v j st er p n s db))"
        unfolding snd_updateStatus using assms(1) m taken_claimHeld[OF assms(1)] by (elim disjE) simp_all
      with Pair UpdateStatus show ?thesis by simp
    qed (use Pair assms in \<open>simp_all add: m taken_claimHeld taken_ingest\<close>)
  qed
qed

lemma taken_run: "taken u i db \<Longrightarrow> \<forall>c \<in> set cmds. \<not> givesBack u i c \<Longrightarrow> taken u i (inboxRun cmds db)"
  by (induction cmds arbitrary: db) (auto intro: taken_exec)

lemma claimHeld_taken:
  assumes "taken u i db"
  shows "claimHeld u i s db = (Inr None, db)"
proof -
  have n: "\<not> inStatus u i {Held} e" if "e \<in> set (delivery_inbox db)" for e
    using assms that by (auto simp: taken_def rowsOf_def list_all_iff inStatus_def)
  then have "filter (inStatus u i {Held}) (delivery_inbox db) = []" by (simp add: filter_empty_conv)
  moreover obtain e es where "rowsOf u i db = e # es" using assms by (cases "rowsOf u i db") (auto simp: taken_def)
  ultimately show ?thesis
    using n by (simp add: claimHeld_def checkOwnershipAndGet_def findById_rowsOf updateInbox_def tbl_changes_def tbl_update_none)
qed

lemma claimHeld_Inr:
  assumes "claimHeld u i s db = (Inr x, db')"
  shows "rowsOf u i db \<noteq> []"
    and "db' = db\<lparr>delivery_inbox := tbl_update (inStatus u i {Held})
               (\<lambda>e. e\<lparr>ib_status := Processing, ib_updatedAt := s\<rparr>) (delivery_inbox db)\<rparr>"
proof -
  show r: "rowsOf u i db \<noteq> []"
  proof
    assume "rowsOf u i db = []"
    then have "findById u i db = None" by (simp add: findById_rowsOf)
    with assms show False by (simp add: claimHeld_def checkOwnershipAndGet_def)
  qed
  then obtain e where "findById u i db = Some e" by (cases "rowsOf u i db") (auto simp: findById_rowsOf)
  then have "snd (claimHeld u i s db) = db\<lparr>delivery_inbox := tbl_update (inStatus u i {Held})
               (\<lambda>e. e\<lparr>ib_status := Processing, ib_updatedAt := s\<rparr>) (delivery_inbox db)\<rparr>"
    by (simp add: claimHeld_def checkOwnershipAndGet_def updateInbox_def)
  with assms show "db' = db\<lparr>delivery_inbox := tbl_update (inStatus u i {Held})
               (\<lambda>e. e\<lparr>ib_status := Processing, ib_updatedAt := s\<rparr>) (delivery_inbox db)\<rparr>" by simp
qed

lemma claimHeld_takes:
  assumes "claimHeld u i s db = (Inr x, db')"
  shows "taken u i db'"
proof -
  let ?f = "\<lambda>e. e\<lparr>ib_status := Processing, ib_updatedAt := s\<rparr>"
  have "list_all (\<lambda>e. ib_status e \<noteq> Held) (tbl_update (inStatus u i {Held}) ?f rows)"
    if "\<forall>e \<in> set rows. ib_id e = i \<and> ib_user e = u" for rows
    using that by (simp add: tbl_update_def list_all_iff inStatus_def) auto
  moreover have "rowsOf u i db' = tbl_update (inStatus u i {Held}) ?f (rowsOf u i db)"
    unfolding claimHeld_Inr(2)[OF assms] by (rule rowsOf_update) (simp add: sameKeys_def)
  ultimately show ?thesis
    using claimHeld_Inr(1)[OF assms] rowsOf_keys by (auto simp: taken_def)
qed

section \<open>Theorems\<close>

text \<open>
  C9. However the statements of concurrent \<open>ingest\<close> calls interleave with each other and with
  any other commands, at most one call per tenant and delivery reports a fresh ingestion,
  and its row is in the table; every other call that succeeds reports a duplicate.
\<close>

theorem inbox_ingest_exactly_once:
  assumes "inboxReachable db0 (cs, db)" "inbox_wf db0"
    and "j < length cs" "k < length cs" "callKey (cs ! j) = callKey (cs ! k)"
    and "ic_pc (cs ! j) = Done (Inr (e, False))"
  shows "(ic_pc (cs ! k) = Done (Inr (e', False)) \<longrightarrow> k = j)
     \<and> callKey (cs ! j) \<in> rowKey ` set (delivery_inbox db)"
proof -
  have "inserted (ic_pc (cs ! j))" "ic_pc (cs ! k) = Done (Inr (e', False)) \<Longrightarrow> inserted (ic_pc (cs ! k))"
    using assms(6) by simp_all
  with ingest_inv_reachable[OF assms(1,2)] assms(3-5) show ?thesis
    unfolding ingest_inv_def prod.case by metis
qed

theorem inbox_ingest_exactly_once_witness:
  "\<exists>db. inboxReachable inboxSample ([(sampleCall ''i1'')\<lparr>ic_pc := Done (Inr (hd (delivery_inbox db), False))\<rparr>], db)
     \<and> (''u'', ''d1'') \<in> rowKey ` set (delivery_inbox db)"
proof -
  define run where "run = (\<lambda>(c, d). case ingestStep c d of (pc, d') \<Rightarrow> (c\<lparr>ic_pc := pc\<rparr>, d'))"
  have one: "inboxReachable inboxSample ([fst (run p)], snd (run p))" if "inboxReachable inboxSample ([fst p], snd p)" for p
  proof -
    have "inboxStep ([fst p], snd p) ([fst p][0 := ([fst p] ! 0)\<lparr>ic_pc := fst (ingestStep (fst p) (snd p))\<rparr>],
        snd (ingestStep (fst p) (snd p)))"
      by (rule inboxStep.statement) simp_all
    then have "inboxStep ([fst p], snd p) ([fst (run p)], snd (run p))" by (simp add: run_def case_prod_unfold)
    with that show ?thesis by (rule inboxReachable.step)
  qed
  have "inboxReachable inboxSample ([fst ((run ^^ n) (sampleCall ''i1'', inboxSample))], snd ((run ^^ n) (sampleCall ''i1'', inboxSample)))" for n
  proof (induction n)
    case 0
    show ?case by (auto simp: sampleCall_def intro: inboxReachable.start)
  next
    case (Suc n)
    from one[OF this] show ?case by simp
  qed
  from this[of 4] have r: "inboxReachable inboxSample
      ([(sampleCall ''i1'')\<lparr>ic_pc := Done (Inr (hd (delivery_inbox heldSample), False))\<rparr>], heldSample)"
    by (simp add: numeral_eq_Suc run_def ingestStep_def sampleCall_def inboxSample_def sampleIngest_def heldSample_def
        ingest_def findByDeliveryId_def findById_def tbl_get_def insertInbox_def newInboxEntry_def)
  have w: "inbox_wf inboxSample" by (simp add: inbox_wf_def inboxSample_def)
  have "callKey ([(sampleCall ''i1'')\<lparr>ic_pc := Done (Inr (hd (delivery_inbox heldSample), False))\<rparr>] ! 0)
      \<in> rowKey ` set (delivery_inbox heldSample)"
    using inbox_ingest_exactly_once[OF r w, of 0 0] by simp
  with r show ?thesis by (auto simp: callKey_def sampleCall_def sampleIngest_def)
qed

text \<open>
  Run alone, the statements of a call are \<open>ingest\<close>: from its first statement a call reaches
  its outcome within four statements, with the result and the table of the operation.
\<close>

theorem inbox_ingest_refines:
  "((\<lambda>(c, d). case ingestStep c d of (pc, d') \<Rightarrow> (c\<lparr>ic_pc := pc\<rparr>, d')) ^^ 4)
      (\<lparr> ic_user = u, ic_input = inp, ic_nowIso = n, ic_sqlNow = s, ic_pc = AtRoute \<rparr>, db)
   = (\<lparr> ic_user = u, ic_input = inp, ic_nowIso = n, ic_sqlNow = s, ic_pc = Done (fst (ingest u inp n s db)) \<rparr>,
      snd (ingest u inp n s db))"
proof (cases "insertInbox (newInboxEntry u inp n s) db")
  case (Pair r db')
  then show ?thesis
    by (cases r; cases "(in_routeId inp, u) \<in> set (session_routes db)";
        cases "findByDeliveryId u (in_deliveryId inp) db";
        cases "findByDeliveryId u (in_deliveryId inp) db'"; cases "findById u (in_id inp) db'")
       (simp_all add: numeral_eq_Suc ingestStep_def ingest_def)
qed

text \<open>
  The status machine: a command moves each row along an edge of the machine or leaves it
  as it was, and keeps its keys; a row that is delivered, duplicate, cancelled or failed is
  still there unchanged after any run of commands.
\<close>

theorem inbox_status_machine:
  "list_all2 (moved (fst c)) (delivery_inbox db)
       (take (length (delivery_inbox db)) (delivery_inbox (snd (inboxExec c db))))
   \<and> {e \<in> set (delivery_inbox db). ib_status e \<notin> {Held, Processing}} \<subseteq> set (delivery_inbox (inboxRun cmds db))"
proof
  show "list_all2 (moved (fst c)) (delivery_inbox db)
       (take (length (delivery_inbox db)) (delivery_inbox (snd (inboxExec c db))))"
    using inboxExec_evolves[of c db] by (simp add: inboxEvolves_def)
  have step: "e \<in> set (delivery_inbox (snd (inboxExec d db)))"
    if "e \<in> set (delivery_inbox db)" "ib_status e \<notin> {Held, Processing}" for e d db
  proof -
    obtain k where "k < length (delivery_inbox db)" "e = delivery_inbox db ! k"
      using \<open>e \<in> set (delivery_inbox db)\<close> by (auto simp: in_set_conv_nth)
    with inboxEvolves_nth[OF inboxExec_evolves[of d db]] that(2) show ?thesis
      by (metis moved_final nth_mem)
  qed
  show "{e \<in> set (delivery_inbox db). ib_status e \<notin> {Held, Processing}} \<subseteq> set (delivery_inbox (inboxRun cmds db))"
  proof (induction cmds arbitrary: db)
    case (Cons d cmds)
    with step[where d = d and db = db] show ?case by (simp add: subset_iff)
  qed auto
qed

text \<open>
  A claim is exclusive: once a call of \<open>claimHeld\<close> has answered, no later claim of the same
  delivery gets it, through any commands of any tenants that do not give it back.
\<close>

theorem inbox_claim_exclusive:
  assumes "claimHeld u i s db = (Inr x, db')" "\<forall>c \<in> set cmds. \<not> givesBack u i c"
  shows "claimHeld u i s' (inboxRun cmds db') = (Inr None, inboxRun cmds db')"
  by (rule claimHeld_taken[OF taken_run[OF claimHeld_takes[OF assms(1)] assms(2)]])

theorem inbox_claim_exclusive_witness:
  "\<exists>db'. claimHeld ''u'' ''i1'' ''t'' heldSample = (Inr (findById ''u'' ''i1'' db'), db') \<and> findById ''u'' ''i1'' db' \<noteq> None
     \<and> claimHeld ''u'' ''i1'' ''t2'' (inboxRun [(''u'', MarkDelivered ''i1'' None ''t'' ''t'')] db')
         = (Inr None, inboxRun [(''u'', MarkDelivered ''i1'' None ''t'' ''t'')] db')"
proof -
  let ?d = "snd (claimHeld ''u'' ''i1'' ''t'' heldSample)"
  have "fst (claimHeld ''u'' ''i1'' ''t'' heldSample) = Inr (findById ''u'' ''i1'' ?d)" "findById ''u'' ''i1'' ?d \<noteq> None"
    unfolding heldSample_def by code_simp+
  then have c: "claimHeld ''u'' ''i1'' ''t'' heldSample = (Inr (findById ''u'' ''i1'' ?d), ?d)" by (metis prod.collapse)
  with inbox_claim_exclusive[OF this, of "[(''u'', MarkDelivered ''i1'' None ''t'' ''t'')]" "''t2''"]
    \<open>findById ''u'' ''i1'' ?d \<noteq> None\<close> show ?thesis by auto
qed

text \<open>
  A delivery is only marked as delivered by whoever claimed it: outside the status
  \<open>processing\<close> the attempt throws, naming the current status, and changes nothing.
\<close>

theorem inbox_deliver_requires_claim:
  assumes "inbox_wf db" "findById u i db = Some e" "ib_status e \<noteq> Processing"
  shows "markDelivered u i p n s db = (Inl (InvalidStateTransitionError (status_text (ib_status e)) ''delivered''), db)"
proof -
  from assms(2) have e: "e \<in> set (delivery_inbox db)" "ib_id e = i" by (auto simp: findById_def dest: tbl_get_Some)
  have "\<not> inStatus u i {Processing} x" if "x \<in> set (delivery_inbox db)" for x
  proof
    assume x: "inStatus u i {Processing} x"
    then have "x = e" using that e assms(1) by (auto simp: inbox_wf_def inStatus_def distinct_map dest: inj_onD)
    with x assms(3) show False by (simp add: inStatus_def)
  qed
  then have "filter (inStatus u i {Processing}) (delivery_inbox db) = []"
    "tbl_update (inStatus u i {Processing}) f (delivery_inbox db) = delivery_inbox db" for f
    by (simp_all add: filter_empty_conv tbl_update_none)
  then show ?thesis
    using assms(2) by (simp add: markDelivered_def casTransition_def checkOwnershipAndGet_def updateInbox_def tbl_changes_def)
qed

theorem inbox_deliver_requires_claim_witness:
  "markDelivered ''u'' ''i1'' None ''t'' ''t'' heldSample
     = (Inl (InvalidStateTransitionError ''held'' ''delivered''), heldSample)"
proof -
  have w: "inbox_wf heldSample" unfolding heldSample_def by code_simp
  have f: "findById ''u'' ''i1'' heldSample = Some (hd (delivery_inbox heldSample))"
    "ib_status (hd (delivery_inbox heldSample)) = Held" unfolding heldSample_def by code_simp+
  show ?thesis using inbox_deliver_requires_claim[OF w f(1), of None "''t''" "''t''"] f(2) by simp
qed

end
