(* ===== verification/Receipt_Store.thy ===== *)
theory Receipt_Store
  imports Prelude "HOL-Library.Char_ord" "HOL-Library.List_Lexorder"
begin

text \<open>
  The receipt store of an agent host, \<open>SqliteReceiptStore\<close>
  (\<open>dsh-receipt-store-sqlite/src/store.ts\<close>): delivery receipts, session sources, event cursors,
  seed import receipts and the origins of child sessions. An operation takes the store's
  user, the clock as the ISO string it writes, and the store; its strings are the typed
  inputs. Opening the file, its pragmas and migrations are not part of the model:
  \<open>rs_open\<close> says that \<open>init\<close> has succeeded and \<open>close\<close> has not been called. JSON columns are kept
  as the values whose text they hold.
\<close>

section \<open>Tables\<close>

datatype receiptStatus = Pending | ReceiptDelivered | ReceiptFailed

record deliveryReceipt =
  dr_id :: int
  dr_user :: string
  dr_delivery :: string
  dr_message :: string
  dr_route :: string
  dr_status :: receiptStatus
  dr_error :: "string option"
  dr_createdAt :: string
  dr_updatedAt :: string

record sessionSource =
  ss_id :: int
  ss_user :: string
  ss_route :: string
  ss_type :: string
  ss_source :: string
  ss_metadata :: "jsval option"
  ss_createdAt :: string
  ss_updatedAt :: string

record seedReceipt =
  si_user :: string
  si_session :: string
  si_algorithm :: string
  si_checksum :: string
  si_canonicalBytes :: int
  si_eventCount :: int
  si_importedAt :: string

record childOrigin =
  co_user :: string
  co_session :: string
  co_child :: string
  co_turn :: string
  co_createdAt :: string

record receiptStore =
  rs_open :: bool
  rs_receipts :: "deliveryReceipt list"
  rs_sources :: "sessionSource list"
  rs_cursors :: "(string \<times> string \<times> string) \<rightharpoonup> (string \<times> string)"
  rs_seeds :: "(string \<times> string) \<rightharpoonup> seedReceipt"
  rs_childOrigins :: "childOrigin list"
  rs_sharedOrigins :: "(string \<times> string) \<rightharpoonup> string"

text \<open>The mismatch error reports the four compared fields of the two rows; here it carries the rows.\<close>

datatype receiptError =
    ReceiptStoreClosedError
  | ReceiptStoreError string
  | ReceiptNotFoundError string
  | DuplicateDeliveryIdError string
  | SeedImportMismatchError string seedReceipt seedReceipt

type_synonym 'a receipt_op = "(receiptStore, receiptError, 'a) op"

definition ensureOpen :: "'a receipt_op \<Rightarrow> 'a receipt_op" where
  "ensureOpen m s = (if rs_open s then m s else (Inl ReceiptStoreClosedError, s))"

definition close :: "receiptStore \<Rightarrow> receiptStore" where
  "close s = s\<lparr>rs_open := False\<rparr>"

text \<open>\<open>AUTOINCREMENT\<close>: one more than any identifier in the table; rows are never deleted.\<close>

definition nextId :: "int list \<Rightarrow> int" where
  "nextId ids = foldr max ids 0 + 1"

section \<open>Delivery receipts\<close>

record recordReceiptInput =
  rr_deliveryId :: string
  rr_messageId :: string
  rr_routeId :: "string option"
  rr_status :: "receiptStatus option"
  rr_error :: "string option"

definition findReceipt :: "string \<Rightarrow> string \<Rightarrow> receiptStore \<Rightarrow> deliveryReceipt option" where
  "findReceipt u d s = tbl_get (\<lambda>r. dr_user r = u \<and> dr_delivery r = d) (rs_receipts s)"

definition getReceiptByDeliveryId :: "string \<Rightarrow> string \<Rightarrow> deliveryReceipt option receipt_op" where
  "getReceiptByDeliveryId u d = ensureOpen (\<lambda>s. (Inr (if \<not> truthy d then None else findReceipt u d s), s))"

text \<open>\<open>ORDER BY id DESC LIMIT 1\<close>.\<close>

definition getReceiptByMessageId :: "string \<Rightarrow> string \<Rightarrow> deliveryReceipt option receipt_op" where
  "getReceiptByMessageId u m = ensureOpen (\<lambda>s. (Inr (if \<not> truthy m then None
     else (case sort_key (\<lambda>r. - dr_id r) (filter (\<lambda>r. dr_user r = u \<and> dr_message r = m) (rs_receipts s)) of
             [] \<Rightarrow> None | r # _ \<Rightarrow> Some r)), s))"

definition newReceipt :: "string \<Rightarrow> recordReceiptInput \<Rightarrow> string \<Rightarrow> receiptStore \<Rightarrow> deliveryReceipt" where
  "newReceipt u inp now s =
     \<lparr> dr_id = nextId (map dr_id (rs_receipts s)), dr_user = u, dr_delivery = rr_deliveryId inp,
       dr_message = rr_messageId inp, dr_route = (case rr_routeId inp of None \<Rightarrow> [] | Some r \<Rightarrow> r),
       dr_status = (case rr_status inp of None \<Rightarrow> Pending | Some st \<Rightarrow> st),
       dr_error = rr_error inp, dr_createdAt = now, dr_updatedAt = now \<rparr>"

definition recordReceipt :: "string \<Rightarrow> recordReceiptInput \<Rightarrow> string \<Rightarrow> deliveryReceipt option receipt_op" where
  "recordReceipt u inp now = ensureOpen (\<lambda>s.
     if \<not> truthy (rr_deliveryId inp) \<or> \<not> truthy (rr_messageId inp)
     then (Inl (ReceiptStoreError ''deliveryId and messageId are required''), s)
     else if \<exists>r \<in> set (rs_receipts s). dr_user r = u \<and> dr_delivery r = rr_deliveryId inp
     then (Inl (DuplicateDeliveryIdError (rr_deliveryId inp)), s)
     else getReceiptByDeliveryId u (rr_deliveryId inp)
            (s\<lparr>rs_receipts := rs_receipts s @ [newReceipt u inp now s]\<rparr>))"

definition updateReceiptStatus ::
  "string \<Rightarrow> string \<Rightarrow> receiptStatus \<Rightarrow> string option \<Rightarrow> string \<Rightarrow> deliveryReceipt option receipt_op" where
  "updateReceiptStatus u d st err now = ensureOpen (\<lambda>s.
     if \<not> truthy d then (Inl (ReceiptNotFoundError d), s)
     else case findReceipt u d s of
       None \<Rightarrow> (Inl (ReceiptNotFoundError d), s)
     | Some existing \<Rightarrow>
         (let isRow = (\<lambda>r. dr_user r = u \<and> dr_delivery r = d);
              s' = s\<lparr>rs_receipts := tbl_update isRow
                     (\<lambda>r. r\<lparr>dr_status := st, dr_error := err, dr_updatedAt := now\<rparr>) (rs_receipts s)\<rparr>
          in if tbl_changes isRow (rs_receipts s) = 0 then (Inl (ReceiptNotFoundError d), s')
             else getReceiptByDeliveryId u d s'))"

section \<open>Session sources and event cursors\<close>

definition findSource :: "string \<Rightarrow> string \<Rightarrow> string \<Rightarrow> receiptStore \<Rightarrow> sessionSource option" where
  "findSource u t i s = tbl_get (\<lambda>r. ss_user r = u \<and> ss_type r = t \<and> ss_source r = i) (rs_sources s)"

definition getSessionSource :: "string \<Rightarrow> string \<Rightarrow> string \<Rightarrow> sessionSource option receipt_op" where
  "getSessionSource u t i = ensureOpen (\<lambda>s. (Inr (if \<not> truthy t \<or> \<not> truthy i then None else findSource u t i s), s))"

definition recordSessionSource ::
  "string \<Rightarrow> string \<Rightarrow> string \<Rightarrow> string \<Rightarrow> jsval option \<Rightarrow> string \<Rightarrow> sessionSource option receipt_op" where
  "recordSessionSource u routeId sourceType sourceId metadata now = ensureOpen (\<lambda>s.
     if \<not> truthy sourceType \<or> \<not> truthy sourceId \<or> \<not> truthy routeId
     then (Inl (ReceiptStoreError ''routeId, sourceType, and sourceId are required''), s)
     else
       (let isRow = (\<lambda>r. ss_user r = u \<and> ss_type r = sourceType \<and> ss_source r = sourceId);
            rows = (if \<exists>r \<in> set (rs_sources s). isRow r
                    then tbl_update isRow
                           (\<lambda>r. r\<lparr>ss_route := routeId, ss_metadata := metadata, ss_updatedAt := now\<rparr>) (rs_sources s)
                    else rs_sources s @ [\<lparr> ss_id = nextId (map ss_id (rs_sources s)), ss_user = u, ss_route = routeId,
                           ss_type = sourceType, ss_source = sourceId, ss_metadata = metadata,
                           ss_createdAt = now, ss_updatedAt = now \<rparr>])
        in getSessionSource u sourceType sourceId (s\<lparr>rs_sources := rows\<rparr>)))"

definition getSessionSourcesByRouteId :: "string \<Rightarrow> string \<Rightarrow> sessionSource list receipt_op" where
  "getSessionSourcesByRouteId u routeId = ensureOpen (\<lambda>s. (Inr (if \<not> truthy routeId then []
     else sort_key ss_id (filter (\<lambda>r. ss_user r = u \<and> ss_route r = routeId) (rs_sources s))), s))"

definition DEFAULT_CURSOR_CONSUMER :: string where
  "DEFAULT_CURSOR_CONSUMER = ''default''"

definition getEventCursor :: "string \<Rightarrow> string \<Rightarrow> string \<Rightarrow> (string \<times> string) option receipt_op" where
  "getEventCursor u sessionId consumer = ensureOpen (\<lambda>s.
     (Inr (if \<not> truthy sessionId then None else rs_cursors s (u, sessionId, consumer)), s))"

definition setEventCursor ::
  "string \<Rightarrow> string \<Rightarrow> string option \<Rightarrow> string option \<Rightarrow> string \<Rightarrow> (string \<times> string) option receipt_op" where
  "setEventCursor u sessionId cursorValue consumer now = ensureOpen (\<lambda>s.
     let cons = (case consumer of None \<Rightarrow> DEFAULT_CURSOR_CONSUMER | Some c \<Rightarrow> c) in
     if \<not> truthy sessionId \<or> cursorValue = None
     then (Inl (ReceiptStoreError ''sessionId and cursorValue are required''), s)
     else getEventCursor u sessionId cons
            (s\<lparr>rs_cursors := (rs_cursors s)((u, sessionId, cons) \<mapsto> (the cursorValue, now))\<rparr>))"

section \<open>Seed imports\<close>

definition SEED_ALGORITHM :: string where
  "SEED_ALGORITHM = ''sha256-session-events-v1''"

record seedInput =
  sd_sessionId :: string
  sd_algorithm :: "string option"
  sd_checksum :: string
  sd_canonicalBytes :: number
  sd_eventCount :: number
  sd_importedAt :: "string option"

text \<open>Reading a row reports the fixed algorithm, whatever the column holds.\<close>

definition mapSeed :: "seedReceipt \<Rightarrow> seedReceipt" where
  "mapSeed r = r\<lparr>si_algorithm := SEED_ALGORITHM\<rparr>"

definition getSeedImportReceipt :: "string \<Rightarrow> string \<Rightarrow> seedReceipt option receipt_op" where
  "getSeedImportReceipt u sessionId = ensureOpen (\<lambda>s.
     (Inr (if \<not> truthy sessionId then None else map_option mapSeed (rs_seeds s (u, sessionId))), s))"

fun nonNegativeSafe :: "number \<Rightarrow> int option" where
  "nonNegativeSafe (Num i) = (if isSafeInteger (Num i) \<and> 0 \<le> i then Some i else None)"
| "nonNegativeSafe _ = None"

text \<open>The validation of the input, yielding the row to record.\<close>

definition parseSeedInput :: "string \<Rightarrow> seedInput \<Rightarrow> string \<Rightarrow> receiptError + seedReceipt" where
  "parseSeedInput u inp now =
     (let sessionId = js_trim (sd_sessionId inp);
          algorithm = (case sd_algorithm inp of None \<Rightarrow> SEED_ALGORITHM | Some a \<Rightarrow> a);
          checksum = toLowerCase (sd_checksum inp)
      in if sessionId = [] then Inl (ReceiptStoreError ''sessionId is required and must be non-empty'')
         else if algorithm \<noteq> SEED_ALGORITHM then Inl (ReceiptStoreError ''Unsupported algorithm'')
         else if \<not> hex_id [] 64 checksum then Inl (ReceiptStoreError ''Invalid checksum format'')
         else case nonNegativeSafe (sd_canonicalBytes inp) of
           None \<Rightarrow> Inl (ReceiptStoreError ''canonicalBytes must be a non-negative integer'')
         | Some canonicalBytes \<Rightarrow>
             (case nonNegativeSafe (sd_eventCount inp) of
                None \<Rightarrow> Inl (ReceiptStoreError ''eventCount must be a non-negative integer'')
              | Some eventCount \<Rightarrow>
                  Inr \<lparr> si_user = u, si_session = sessionId, si_algorithm = algorithm, si_checksum = checksum,
                        si_canonicalBytes = canonicalBytes, si_eventCount = eventCount,
                        si_importedAt = (case sd_importedAt inp of None \<Rightarrow> now | Some t \<Rightarrow> t) \<rparr>))"

definition sameSeed :: "seedReceipt \<Rightarrow> seedReceipt \<Rightarrow> bool" where
  "sameSeed a b \<longleftrightarrow> si_algorithm a = si_algorithm b \<and> si_checksum a = si_checksum b
     \<and> si_canonicalBytes a = si_canonicalBytes b \<and> si_eventCount a = si_eventCount b"

definition recordSeedImportReceipt :: "string \<Rightarrow> seedInput \<Rightarrow> string \<Rightarrow> seedReceipt receipt_op" where
  "recordSeedImportReceipt u inp now = ensureOpen (\<lambda>s.
     case parseSeedInput u inp now of
       Inl e \<Rightarrow> (Inl e, s)
     | Inr row \<Rightarrow>
         (case rs_seeds s (u, si_session row) of
            Some existingRow \<Rightarrow>
              (let existing = mapSeed existingRow in
               if \<not> sameSeed existing row
               then (Inl (SeedImportMismatchError (si_session row) existing row), s)
               else (Inr existing, s))
          | None \<Rightarrow>
              (let s' = s\<lparr>rs_seeds := (rs_seeds s)((u, si_session row) \<mapsto> row)\<rparr>
               in case getSeedImportReceipt u (si_session row) s' of
                    (Inr (Some inserted), s'') \<Rightarrow> (Inr inserted, s'')
                  | (_, s'') \<Rightarrow> (Inl (ReceiptStoreError ''Failed to retrieve newly inserted seed import receipt''), s''))))"

section \<open>Restart and child origins\<close>

definition recoverAfterRestart :: "string \<Rightarrow> nat receipt_op" where
  "recoverAfterRestart u = ensureOpen (\<lambda>s.
     (Inr (length (filter (\<lambda>r. dr_user r = u \<and> dr_status r = Pending) (rs_receipts s))), s))"

text \<open>
  \<open>INSERT OR REPLACE\<close> into the tenant's table, and a copy in \<open>session_child_origins\<close>, whose key
  does not have the user.
\<close>

definition recordChildOriginSync :: "string \<Rightarrow> string \<Rightarrow> string \<Rightarrow> string \<Rightarrow> string \<Rightarrow> unit receipt_op" where
  "recordChildOriginSync u sessionId childId originTurnId now = ensureOpen (\<lambda>s.
     if \<not> truthy sessionId then (Inl (ReceiptStoreError ''sessionId is required for recordChildOrigin''), s)
     else if \<not> truthy childId then (Inl (ReceiptStoreError ''childId is required for recordChildOrigin''), s)
     else if \<not> truthy originTurnId then (Inl (ReceiptStoreError ''originTurnId is required for recordChildOrigin''), s)
     else (Inr (), s\<lparr>rs_childOrigins := filter (\<lambda>r. \<not> (co_user r = u \<and> co_session r = sessionId \<and> co_child r = childId))
                        (rs_childOrigins s) @
                      [\<lparr> co_user = u, co_session = sessionId, co_child = childId, co_turn = originTurnId,
                         co_createdAt = now \<rparr>],
                    rs_sharedOrigins := (rs_sharedOrigins s)((sessionId, childId) \<mapsto> originTurnId)\<rparr>))"

definition getChildOriginSync :: "string \<Rightarrow> string \<Rightarrow> string \<Rightarrow> string option receipt_op" where
  "getChildOriginSync u sessionId childId = ensureOpen (\<lambda>s.
     (Inr (if \<not> truthy sessionId \<or> \<not> truthy childId then None
           else case tbl_get (\<lambda>r. co_user r = u \<and> co_session r = sessionId \<and> co_child r = childId) (rs_childOrigins s) of
             Some r \<Rightarrow> Some (co_turn r)
           | None \<Rightarrow> rs_sharedOrigins s (sessionId, childId)), s))"

definition listChildOrigins :: "string \<Rightarrow> string \<Rightarrow> childOrigin list receipt_op" where
  "listChildOrigins u sessionId = ensureOpen (\<lambda>s.
     (Inr (if \<not> truthy sessionId then []
           else sort_key co_createdAt (filter (\<lambda>r. co_user r = u \<and> co_session r = sessionId) (rs_childOrigins s))), s))"

text \<open>An open store without rows.\<close>

definition emptyStore :: receiptStore where
  "emptyStore = \<lparr> rs_open = True, rs_receipts = [], rs_sources = [], rs_cursors = Map.empty, rs_seeds = Map.empty,
     rs_childOrigins = [], rs_sharedOrigins = Map.empty \<rparr>"

section \<open>The store as a memory of deliveries\<close>

definition hasReceipt :: "string \<Rightarrow> receiptStore \<Rightarrow> string \<Rightarrow> bool" where
  "hasReceipt u s d \<longleftrightarrow> (u, d) \<in> set (map (\<lambda>r. (dr_user r, dr_delivery r)) (rs_receipts s))"

definition acceptReceipt :: "string \<Rightarrow> recordReceiptInput \<Rightarrow> string \<Rightarrow> string \<Rightarrow> receiptStore \<Rightarrow> bool \<times> receiptStore" where
  "acceptReceipt u inp now d s =
     (case recordReceipt u (inp\<lparr>rr_deliveryId := d\<rparr>) now s of (r, s') \<Rightarrow> (\<not> isl r, s'))"

datatype storeOp =
    UpdateReceipt string string receiptStatus "string option" string
  | RecordSource string string string string "jsval option" string
  | SetCursor string string "string option" "string option" string
  | RecordSeed string seedInput string
  | RecordChild string string string string string
  | CloseStore

fun storeExec :: "storeOp \<Rightarrow> receiptStore \<Rightarrow> receiptStore" where
  "storeExec (UpdateReceipt u d st e n) s = snd (updateReceiptStatus u d st e n s)"
| "storeExec (RecordSource u r t i m n) s = snd (recordSessionSource u r t i m n s)"
| "storeExec (SetCursor u i v c n) s = snd (setEventCursor u i v c n s)"
| "storeExec (RecordSeed u inp n) s = snd (recordSeedImportReceipt u inp n s)"
| "storeExec (RecordChild u i c t n) s = snd (recordChildOriginSync u i c t n s)"
| "storeExec CloseStore s = close s"

text \<open>
  What a client that must act once per delivery needs of a store: accepting a delivery succeeds
  only if it is not remembered and makes it remembered, and nothing makes the store forget.
\<close>

locale delivery_memory =
  fixes remembers :: "'s \<Rightarrow> string \<Rightarrow> bool"
    and accept :: "string \<Rightarrow> 's \<Rightarrow> bool \<times> 's"
    and other :: "'o \<Rightarrow> 's \<Rightarrow> 's"
  assumes accept_new: "accept d s = (True, s') \<Longrightarrow> \<not> remembers s d \<and> remembers s' d"
    and accept_keeps: "remembers s x \<Longrightarrow> remembers (snd (accept d s)) x"
    and other_keeps: "remembers s x \<Longrightarrow> remembers (other q s) x"
begin

text \<open>How many acceptances of \<open>d\<close> succeed in a sequence of acceptances and other operations.\<close>

fun accepted :: "string \<Rightarrow> (string + 'o) list \<Rightarrow> 's \<Rightarrow> nat" where
  "accepted d [] s = 0"
| "accepted d (Inl x # ops) s = (if x = d \<and> fst (accept x s) then 1 else 0) + accepted d ops (snd (accept x s))"
| "accepted d (Inr q # ops) s = accepted d ops (other q s)"

lemma accepted_none: "remembers s d \<Longrightarrow> accepted d ops s = 0"
proof (induction d ops s rule: accepted.induct)
  case (2 d x ops s)
  have "\<not> (x = d \<and> fst (accept x s))"
    using 2(2) accept_new[of x s "snd (accept x s)"] by (auto simp: prod_eq_iff)
  with 2 accept_keeps[of s d x] show ?case by simp
qed (simp_all add: other_keeps)

lemma accepted_at_most_once: "accepted d ops s \<le> 1"
proof (induction d ops s rule: accepted.induct)
  case (2 d x ops s)
  show ?case
  proof (cases "x = d \<and> fst (accept x s)")
    case True
    then have "remembers (snd (accept x s)) d"
      using accept_new[of x s "snd (accept x s)"] by (auto simp: prod_eq_iff)
    with True show ?thesis by (simp add: accepted_none)
  next
    case False
    then have "accepted d (Inl x # ops) s = accepted d ops (snd (accept x s))" by auto
    with 2 show ?thesis by simp
  qed
qed simp_all

end

lemma snd_getReceipt [simp]: "snd (getReceiptByDeliveryId u d s) = s"
  by (simp add: getReceiptByDeliveryId_def ensureOpen_def)

lemma newReceipt_simps [simp]:
  "dr_user (newReceipt u inp now s) = u" "dr_delivery (newReceipt u inp now s) = rr_deliveryId inp"
  "dr_message (newReceipt u inp now s) = rr_messageId inp"
  "dr_status (newReceipt u inp now s) = (case rr_status inp of None \<Rightarrow> Pending | Some st \<Rightarrow> st)"
  by (simp_all add: newReceipt_def)

lemma hasReceipt_iff: "hasReceipt u s d \<longleftrightarrow> (\<exists>r \<in> set (rs_receipts s). dr_user r = u \<and> dr_delivery r = d)"
  by (auto simp: hasReceipt_def image_iff)

lemma recordReceipt_guards:
  "recordReceipt u inp now s =
     (if \<not> rs_open s then (Inl ReceiptStoreClosedError, s)
      else if \<not> truthy (rr_deliveryId inp) \<or> \<not> truthy (rr_messageId inp)
      then (Inl (ReceiptStoreError ''deliveryId and messageId are required''), s)
      else if hasReceipt u s (rr_deliveryId inp) then (Inl (DuplicateDeliveryIdError (rr_deliveryId inp)), s)
      else getReceiptByDeliveryId u (rr_deliveryId inp)
             (s\<lparr>rs_receipts := rs_receipts s @ [newReceipt u inp now s]\<rparr>))"
  by (cases "rs_open s") (simp_all add: recordReceipt_def ensureOpen_def hasReceipt_iff del: bex_simps)

lemma recordReceipt_cases:
  assumes "recordReceipt u inp now s = (r, s')"
  obtains (thrown) e where "r = Inl e" "s' = s"
  | (recorded) x where "r = Inr x" "rs_open s" "truthy (rr_deliveryId inp)" "\<not> hasReceipt u s (rr_deliveryId inp)"
      "s' = s\<lparr>rs_receipts := rs_receipts s @ [newReceipt u inp now s]\<rparr>"
proof (cases "rs_open s \<and> truthy (rr_deliveryId inp) \<and> truthy (rr_messageId inp)
      \<and> \<not> hasReceipt u s (rr_deliveryId inp)")
  case True
  then show thesis
    using assms by (intro recorded) (auto simp: recordReceipt_guards getReceiptByDeliveryId_def ensureOpen_def)
next
  case False
  then show thesis
    using assms by (cases r) (auto simp: recordReceipt_guards split: if_splits intro: thrown)
qed

lemma receipt_keys_update:
  "map (\<lambda>r. (dr_user r, dr_delivery r))
     (tbl_update P (\<lambda>r. r\<lparr>dr_status := st, dr_error := e, dr_updatedAt := n\<rparr>) (rows :: deliveryReceipt list))
   = map (\<lambda>r. (dr_user r, dr_delivery r)) rows"
  by (rule map_tbl_update) simp

lemma updateReceiptStatus_cases:
  assumes "updateReceiptStatus u d st e n s = (r, s')"
  obtains (thrown) x where "r = Inl x" "s' = s"
  | (updated) x where "r = Inr x"
      "s' = s\<lparr>rs_receipts := tbl_update (\<lambda>r. dr_user r = u \<and> dr_delivery r = d)
         (\<lambda>r. r\<lparr>dr_status := st, dr_error := e, dr_updatedAt := n\<rparr>) (rs_receipts s)\<rparr>"
proof -
  consider "\<not> rs_open s" | "rs_open s" "\<not> truthy d \<or> findReceipt u d s = None"
    | row where "rs_open s" "truthy d" "findReceipt u d s = Some row" by blast
  then show thesis
  proof cases
    case 1
    with assms show thesis by (intro thrown) (auto simp: updateReceiptStatus_def ensureOpen_def)
  next
    case 2
    then have "updateReceiptStatus u d st e n s = (Inl (ReceiptNotFoundError d), s)"
      by (elim disjE) (simp_all add: updateReceiptStatus_def ensureOpen_def)
    with assms show thesis by (intro thrown) auto
  next
    case 3
    then have "tbl_changes (\<lambda>r. dr_user r = u \<and> dr_delivery r = d) (rs_receipts s) \<noteq> 0"
      by (auto simp: tbl_changes_def filter_empty_conv findReceipt_def dest!: tbl_get_Some)
    with 3 assms show thesis
      by (intro updated) (auto simp: updateReceiptStatus_def ensureOpen_def getReceiptByDeliveryId_def Let_def)
  qed
qed

lemma hasReceipt_updateReceiptStatus [simp]:
  "hasReceipt u (snd (updateReceiptStatus v d st e n s)) x = hasReceipt u s x"
proof -
  obtain r s' where upd: "updateReceiptStatus v d st e n s = (r, s')" by fastforce
  then show ?thesis
  proof (cases rule: updateReceiptStatus_cases)
    case (thrown x)
    with upd show ?thesis by simp
  next
    case (updated x)
    then show ?thesis by (simp add: upd hasReceipt_def receipt_keys_update del: set_map)
  qed
qed

lemma receipts_recordSessionSource [simp]: "rs_receipts (snd (recordSessionSource u r t i m n s)) = rs_receipts s"
  by (simp add: recordSessionSource_def getSessionSource_def ensureOpen_def Let_def)

lemma receipts_setEventCursor [simp]: "rs_receipts (snd (setEventCursor u i v c n s)) = rs_receipts s"
  by (simp add: setEventCursor_def getEventCursor_def ensureOpen_def Let_def)

lemma receipts_recordSeed [simp]: "rs_receipts (snd (recordSeedImportReceipt u inp n s)) = rs_receipts s"
  by (auto simp: recordSeedImportReceipt_def getSeedImportReceipt_def ensureOpen_def Let_def split: sum.split option.split)

lemma receipts_recordChild [simp]: "rs_receipts (snd (recordChildOriginSync u i c t n s)) = rs_receipts s"
  by (simp add: recordChildOriginSync_def ensureOpen_def)

interpretation memory: delivery_memory "hasReceipt u" "acceptReceipt u inp now" storeExec for u inp now
proof
  show "\<not> hasReceipt u s d \<and> hasReceipt u s' d" if "acceptReceipt u inp now d s = (True, s')" for d s s'
    using that
    by (cases "recordReceipt u (inp\<lparr>rr_deliveryId := d\<rparr>) now s")
       (auto simp: acceptReceipt_def hasReceipt_def elim!: recordReceipt_cases)
  show "hasReceipt u (snd (acceptReceipt u inp now d s)) x" if "hasReceipt u s x" for d s x
    using that
    by (cases "recordReceipt u (inp\<lparr>rr_deliveryId := d\<rparr>) now s")
       (auto simp: acceptReceipt_def hasReceipt_def elim!: recordReceipt_cases)
  show "hasReceipt u (storeExec q s) x" if "hasReceipt u s x" for q s x
    using that by (cases q) (simp_all, simp_all add: hasReceipt_def close_def del: set_map)
qed

end
