(* ===== verification/Receipt_Theorems.thy ===== *)
theory Receipt_Theorems
  imports Receipt_Store
begin

text \<open>
  The receipt store beyond deliveries: the seed of a session is imported once and never replaced,
  and the origin of a child session is read back by the user that recorded it, and by users that
  have none of their own.
\<close>

definition storeRun :: "storeOp list \<Rightarrow> receiptStore \<Rightarrow> receiptStore" where
  "storeRun ops s = fold storeExec ops s"

fun recordsChild :: "string \<Rightarrow> string \<Rightarrow> string \<Rightarrow> storeOp \<Rightarrow> bool" where
  "recordsChild u i c (RecordChild v j e t n) = (v = u \<and> j = i \<and> e = c)"
| "recordsChild u i c _ = False"

definition ownOrigin :: "string \<Rightarrow> string \<Rightarrow> string \<Rightarrow> receiptStore \<Rightarrow> childOrigin option" where
  "ownOrigin u i c s = tbl_get (\<lambda>r. co_user r = u \<and> co_session r = i \<and> co_child r = c) (rs_childOrigins s)"

text \<open>A seed for the concrete runs.\<close>

definition sampleSeed :: seedInput where
  "sampleSeed = \<lparr> sd_sessionId = '' s1 '', sd_algorithm = None, sd_checksum = replicate 64 (CHR ''a''),
     sd_canonicalBytes = Num 10, sd_eventCount = Num 2, sd_importedAt = None \<rparr>"

definition sampleSeedRow :: "string \<Rightarrow> seedReceipt" where
  "sampleSeedRow t = \<lparr> si_user = ''u'', si_session = ''s1'', si_algorithm = SEED_ALGORITHM,
     si_checksum = replicate 64 (CHR ''a''), si_canonicalBytes = 10, si_eventCount = 2, si_importedAt = t \<rparr>"

section \<open>Seeds\<close>

lemma seeds_other_ops [simp]:
  "rs_seeds (snd (updateReceiptStatus u d st e n s)) = rs_seeds s"
  "rs_seeds (snd (recordSessionSource u r t i m n s)) = rs_seeds s"
  "rs_seeds (snd (setEventCursor u i v c n s)) = rs_seeds s"
  "rs_seeds (snd (recordChildOriginSync u i k t n s)) = rs_seeds s"
  "rs_seeds (close s) = rs_seeds s"
proof -
  show "rs_seeds (snd (updateReceiptStatus u d st e n s)) = rs_seeds s"
    by (cases "updateReceiptStatus u d st e n s") (auto elim: updateReceiptStatus_cases)
qed (simp_all add: recordSessionSource_def getSessionSource_def setEventCursor_def getEventCursor_def
       recordChildOriginSync_def ensureOpen_def Let_def close_def)

lemma parseSeed_session: "parseSeedInput u inp now = Inr row \<Longrightarrow> si_session row = js_trim (sd_sessionId inp) \<and> si_session row \<noteq> []"
  by (auto simp: parseSeedInput_def Let_def split: if_splits option.splits)

lemma parseSeed_algorithm: "parseSeedInput u inp now = Inr row \<Longrightarrow> mapSeed row = row"
  by (auto simp: parseSeedInput_def mapSeed_def Let_def split: if_splits option.splits)

text \<open>What recording does once the input has passed the checks.\<close>

lemma recordSeed_eq:
  assumes "rs_open s" "parseSeedInput u inp now = Inr row"
  shows "recordSeedImportReceipt u inp now s =
    (case rs_seeds s (u, js_trim (sd_sessionId inp)) of
       None \<Rightarrow> (Inr row, s\<lparr>rs_seeds := (rs_seeds s)((u, js_trim (sd_sessionId inp)) \<mapsto> row)\<rparr>)
     | Some old \<Rightarrow> ((if sameSeed (mapSeed old) row then Inr (mapSeed old)
                     else Inl (SeedImportMismatchError (si_session row) (mapSeed old) row)), s))"
  using assms parseSeed_session[OF assms(2)] parseSeed_algorithm[OF assms(2)]
  by (auto simp: recordSeedImportReceipt_def getSeedImportReceipt_def ensureOpen_def truthy_def Let_def split: option.split)

lemma recordSeed_Inr:
  assumes "recordSeedImportReceipt u inp now s = (Inr row, s1)"
  shows "\<exists>old. rs_seeds s1 (u, js_trim (sd_sessionId inp)) = Some old \<and> mapSeed old = row"
proof -
  have "rs_open s" using assms by (auto simp: recordSeedImportReceipt_def ensureOpen_def split: if_splits)
  moreover from this obtain new where "parseSeedInput u inp now = Inr new"
    using assms by (auto simp: recordSeedImportReceipt_def ensureOpen_def split: sum.splits)
  ultimately show ?thesis
    using assms parseSeed_algorithm[of u inp now new] by (auto simp: recordSeed_eq split: option.splits if_splits)
qed

lemma recordSeed_keeps:
  "rs_seeds s k = Some old \<Longrightarrow> rs_seeds (snd (recordSeedImportReceipt u inp now s)) k = Some old"
proof (cases "rs_open s \<and> (\<exists>row. parseSeedInput u inp now = Inr row)")
  case True
  then obtain row where "rs_open s" "parseSeedInput u inp now = Inr row" by blast
  then show "rs_seeds s k = Some old \<Longrightarrow> ?thesis" by (auto simp: recordSeed_eq split: option.split)
next
  case False
  then show "rs_seeds s k = Some old \<Longrightarrow> ?thesis"
    by (auto simp: recordSeedImportReceipt_def ensureOpen_def split: sum.split)
qed

lemma storeRun_seeds: "rs_seeds s k = Some old \<Longrightarrow> rs_seeds (storeRun ops s) k = Some old"
proof (induction ops arbitrary: s)
  case (Cons q ops)
  have "rs_seeds (storeExec q s) k = Some old" using Cons.prems by (cases q) (simp_all add: recordSeed_keeps)
  from Cons.IH[OF this] show ?case by (simp add: storeRun_def)
qed (simp add: storeRun_def)

text \<open>
  The seed of a session is imported once: after a successful import, whatever operations
  follow, a valid second import for the session changes nothing; it answers with the first
  receipt if algorithm, checksum, size and event count agree, and with a mismatch error that
  names both otherwise.
\<close>

theorem seed_import_immutable:
  assumes "recordSeedImportReceipt u inp now s = (Inr row, s1)" "rs_open (storeRun ops s1)"
    "parseSeedInput u inp' now' = Inr row'" "js_trim (sd_sessionId inp') = js_trim (sd_sessionId inp)"
  shows "recordSeedImportReceipt u inp' now' (storeRun ops s1) =
    ((if sameSeed row row' then Inr row else Inl (SeedImportMismatchError (si_session row') row row')), storeRun ops s1)"
proof -
  obtain old where "rs_seeds s1 (u, js_trim (sd_sessionId inp)) = Some old" "mapSeed old = row"
    using recordSeed_Inr[OF assms(1)] by blast
  with storeRun_seeds[of s1 "(u, js_trim (sd_sessionId inp))" old ops] assms(4)
  show ?thesis by (simp add: recordSeed_eq[OF assms(2,3)])
qed

lemma sampleSeed_parse: "parseSeedInput ''u'' sampleSeed t = Inr (sampleSeedRow t)"
proof -
  have "js_trim (sd_sessionId sampleSeed) = ''s1''" by code_simp
  moreover have "toLowerCase (sd_checksum sampleSeed) = replicate 64 (CHR ''a'')"
    by (simp add: sampleSeed_def toLowerCase_def lower_char_def map_replicate_const)
  moreover have "hex_id [] 64 (replicate 64 (CHR ''a''))"
    by (simp add: hex_id_def is_lower_hex_def js_simps list_all_iff)
  ultimately show ?thesis
    by (simp add: parseSeedInput_def sampleSeedRow_def Let_def)
       (simp add: sampleSeed_def MAX_SAFE_INTEGER_def)
qed

theorem seed_import_immutable_witness:
  "recordSeedImportReceipt ''u'' sampleSeed ''t2''
     (storeRun [SetCursor ''u'' ''s1'' (Some ''3'') None ''t1''] (snd (recordSeedImportReceipt ''u'' sampleSeed ''t1'' emptyStore)))
   = (Inr (sampleSeedRow ''t1''),
      storeRun [SetCursor ''u'' ''s1'' (Some ''3'') None ''t1''] (snd (recordSeedImportReceipt ''u'' sampleSeed ''t1'' emptyStore)))"
proof -
  have "recordSeedImportReceipt ''u'' sampleSeed ''t1'' emptyStore
      = (Inr (sampleSeedRow ''t1''), emptyStore\<lparr>rs_seeds := [(''u'', js_trim (sd_sessionId sampleSeed)) \<mapsto> sampleSeedRow ''t1'']\<rparr>)"
    by (subst recordSeed_eq[OF _ sampleSeed_parse]) (simp_all add: emptyStore_def)
  moreover have "sameSeed (sampleSeedRow ''t1'') (sampleSeedRow ''t2'')" by (simp add: sameSeed_def sampleSeedRow_def)
  moreover have "rs_open (storeRun [SetCursor ''u'' ''s1'' (Some ''3'') None ''t1''] (emptyStore\<lparr>rs_seeds := m\<rparr>))" for m
    by (simp add: storeRun_def setEventCursor_def getEventCursor_def ensureOpen_def emptyStore_def Let_def)
  ultimately show ?thesis
    using seed_import_immutable[OF _ _ sampleSeed_parse, of sampleSeed "''t1''" emptyStore "sampleSeedRow ''t1''" _
        "[SetCursor ''u'' ''s1'' (Some ''3'') None ''t1'']" "''t2''"]
    by simp
qed

section \<open>Child origins\<close>

lemma getChildOrigin_eq:
  "rs_open s \<Longrightarrow> truthy i \<Longrightarrow> truthy c \<Longrightarrow> getChildOriginSync u i c s =
     (Inr (case ownOrigin u i c s of Some r \<Rightarrow> Some (co_turn r) | None \<Rightarrow> rs_sharedOrigins s (i, c)), s)"
  by (simp add: getChildOriginSync_def ensureOpen_def ownOrigin_def)

lemma origins_other_ops [simp]:
  "rs_childOrigins (snd (updateReceiptStatus u d st e n s)) = rs_childOrigins s"
  "rs_childOrigins (snd (recordSessionSource u r t i m n s)) = rs_childOrigins s"
  "rs_childOrigins (snd (setEventCursor u i v c n s)) = rs_childOrigins s"
  "rs_childOrigins (snd (recordSeedImportReceipt u inp n s)) = rs_childOrigins s"
  "rs_childOrigins (close s) = rs_childOrigins s"
proof -
  show "rs_childOrigins (snd (updateReceiptStatus u d st e n s)) = rs_childOrigins s"
    by (cases "updateReceiptStatus u d st e n s") (auto elim: updateReceiptStatus_cases)
  show "rs_childOrigins (snd (recordSeedImportReceipt u inp n s)) = rs_childOrigins s"
    by (auto simp: recordSeedImportReceipt_def getSeedImportReceipt_def ensureOpen_def Let_def split: sum.split option.split)
qed (simp_all add: recordSessionSource_def getSessionSource_def setEventCursor_def getEventCursor_def
       ensureOpen_def Let_def close_def)

lemma tbl_get_filter:
  "tbl_get P (filter Q rows) = tbl_get (\<lambda>r. P r \<and> Q r) rows"
  by (induction rows) (auto simp: tbl_get_def)

lemma recordChild_Inr:
  assumes "recordChildOriginSync u i c t n s = (Inr x, s1)"
  shows "truthy i \<and> truthy c \<and> rs_open s1 \<and> rs_sharedOrigins s1 (i, c) = Some t
    \<and> map_option co_turn (ownOrigin u i c s1) = Some t"
  using assms
  by (auto simp: recordChildOriginSync_def ensureOpen_def ownOrigin_def tbl_get_append tbl_get_filter split: if_splits)
     (auto simp: tbl_get_def find_None_iff find_Some_iff split: option.splits)

lemma ownOrigin_child:
  assumes "\<not> (v = u \<and> j = i \<and> e = c)"
  shows "ownOrigin u i c (snd (recordChildOriginSync v j e t n s)) = ownOrigin u i c s"
proof -
  have "(co_user r = u \<and> co_session r = i \<and> co_child r = c) \<and> \<not> (co_user r = v \<and> co_session r = j \<and> co_child r = e)
      \<longleftrightarrow> co_user r = u \<and> co_session r = i \<and> co_child r = c" for r :: childOrigin
    using assms by auto
  then show ?thesis
    using assms
    by (auto simp: recordChildOriginSync_def ensureOpen_def ownOrigin_def tbl_get_append tbl_get_filter split: option.split)
       (auto simp: tbl_get_def split: if_splits)
qed

lemma ownOrigin_exec:
  assumes "\<not> recordsChild u i c q"
  shows "ownOrigin u i c (storeExec q s) = ownOrigin u i c s"
proof (cases q)
  case (RecordChild v j e t n)
  with assms ownOrigin_child[of v u j i e c t n s] show ?thesis by simp
qed (simp_all add: ownOrigin_def)

lemma storeRun_origin:
  "list_all (\<lambda>q. \<not> recordsChild u i c q) ops \<Longrightarrow> ownOrigin u i c (storeRun ops s) = ownOrigin u i c s"
proof (induction ops arbitrary: s)
  case (Cons q ops)
  then show ?case using Cons.IH[of "storeExec q s"] ownOrigin_exec[of u i c q s] by (simp add: storeRun_def)
qed (simp add: storeRun_def)

text \<open>
  The origin of a child session is read back: after \<open>u\<close> has recorded it, \<open>u\<close> reads it whatever
  operations follow, other users' included, unless \<open>u\<close> records it anew; and right after the
  recording every user without an origin of its own for that session and child reads the one
  of \<open>u\<close>.
\<close>

theorem child_origin_lookup:
  assumes "recordChildOriginSync u i c t n s = (Inr x, s1)" "list_all (\<lambda>q. \<not> recordsChild u i c q) ops"
    "rs_open (storeRun ops s1)" "v \<noteq> u" "ownOrigin v i c s = None"
  shows "getChildOriginSync u i c (storeRun ops s1) = (Inr (Some t), storeRun ops s1)
    \<and> getChildOriginSync v i c s1 = (Inr (Some t), s1)"
proof -
  note r = recordChild_Inr[OF assms(1)]
  have "ownOrigin v i c s1 = None"
    using ownOrigin_child[of u v i i c c t n s] assms(1,4,5) by simp
  moreover have "ownOrigin u i c (storeRun ops s1) = ownOrigin u i c s1" by (rule storeRun_origin[OF assms(2)])
  ultimately show ?thesis using r assms(3) by (auto simp: getChildOrigin_eq)
qed

theorem child_origin_lookup_witness:
  "let s1 = snd (recordChildOriginSync ''u'' ''s1'' ''c1'' ''turn1'' ''t1'' emptyStore);
       s2 = storeRun [RecordChild ''w'' ''s1'' ''c1'' ''turn2'' ''t2''] s1
   in getChildOriginSync ''u'' ''s1'' ''c1'' s2 = (Inr (Some ''turn1''), s2)
      \<and> getChildOriginSync ''v'' ''s1'' ''c1'' s1 = (Inr (Some ''turn1''), s1)"
proof -
  let ?s1 = "snd (recordChildOriginSync ''u'' ''s1'' ''c1'' ''turn1'' ''t1'' emptyStore)"
  let ?ops = "[RecordChild ''w'' ''s1'' ''c1'' ''turn2'' ''t2'']"
  have "recordChildOriginSync ''u'' ''s1'' ''c1'' ''turn1'' ''t1'' emptyStore = (Inr (), ?s1)"
    by (simp add: recordChildOriginSync_def ensureOpen_def emptyStore_def truthy_def)
  moreover have "list_all (\<lambda>q. \<not> recordsChild ''u'' ''s1'' ''c1'' q) ?ops" "rs_open (storeRun ?ops ?s1)"
    "ownOrigin ''v'' ''s1'' ''c1'' emptyStore = None"
    by code_simp+
  ultimately show ?thesis
    using child_origin_lookup[of "''u''" "''s1''" "''c1''" "''turn1''" "''t1''" emptyStore "()" ?s1 ?ops "''v''"]
    by (simp add: Let_def)
qed

end
