(* ===== verification/Inbound.thy ===== *)
theory Inbound
  imports Receipt_Store
begin

text \<open>
  The inbound service of an agent host (\<open>dsh-inbound/src/service.ts\<close> and \<open>wire-parser.ts\<close>): it
  hands platform messages to agents once per delivery, with the receipt store as its memory.
  The agent registry and the agents are the host's: \<open>calls\<close> is the list of calls the service
  made of them, and \<open>agentThrows\<close> says whether a call throws, with its message. Message
  identifiers that \<open>createUserMessage\<close> draws are arguments.
\<close>

section \<open>State and errors\<close>

datatype agentTarget = Followup | Steer | Inject

datatype agentCall =
    Dispatch string string agentTarget string   \<comment> \<open>delivery, session, target, message identifier\<close>
  | CancelAgent string

record inboundState =
  ib_store :: "receiptStore option"
  ib_agents :: "string list"
  ib_calls :: "agentCall list"

datatype inboundError =
    InboundValidationError string string
  | WireParserError string
  | AgentNotFoundError string
  | PreviousDeliveryFailedError string "string option"
  | SessionSourceRecordFailed string
  | AgentThrew string
  | StoreError receiptError

type_synonym 'a inbound_op = "(inboundState, inboundError, 'a) op"

record inboundSource =
  is_routeId :: "string option"
  is_sourceType :: "string option"
  is_sourceId :: "string option"
  is_metadata :: "jsval option"

record followupRequest =
  fr_deliveryId :: string
  fr_sessionId :: string
  fr_message :: jsval
  fr_source :: "inboundSource option"
  fr_target :: "agentTarget option"

text \<open>Messages the service sends, by the identifier it uses in the receipt.\<close>

record followupResult =
  fo_deliveryId :: string
  fo_messageId :: string
  fo_duplicate :: bool

section \<open>Operations\<close>

text \<open>
  The text of a receipt store error, as it appears in a failed receipt; recording a session
  source throws only the first two.
\<close>

fun receipt_error_text :: "receiptError \<Rightarrow> string" where
  "receipt_error_text ReceiptStoreClosedError = ''Receipt store is closed''"
| "receipt_error_text (ReceiptStoreError m) = m"
| "receipt_error_text _ = []"

text \<open>\<open>buildUserMessage\<close>: the identifier of the message, drawn anew unless one is passed in.\<close>

definition buildUserMessage :: "jsval \<Rightarrow> string \<Rightarrow> inboundError + string" where
  "buildUserMessage rawMsg newId =
     (case rawMsg of
        JString s \<Rightarrow> if js_trim s = [] then Inl (InboundValidationError ''Message text cannot be empty'' ''message'') else Inr newId
      | JArray xs \<Rightarrow> if xs = [] then Inl (InboundValidationError ''Message content blocks array cannot be empty'' ''message'') else Inr newId
      | JObject kvs \<Rightarrow> if js_get (JObject kvs) ''role'' = JString ''user''
          then (case as_string (js_get (JObject kvs) ''id'') of Some i \<Rightarrow> Inr i | None \<Rightarrow> Inr [])
          else Inl (InboundValidationError ''Unsupported message payload format'' ''message'')
      | _ \<Rightarrow> Inl (InboundValidationError ''Unsupported message payload format'' ''message''))"

text \<open>An operation on the store, when there is one; its exceptions are those of the store.\<close>

definition withStore :: "'a receipt_op \<Rightarrow> 'a \<Rightarrow> 'a inbound_op" where
  "withStore m dflt st = (case ib_store st of
      None \<Rightarrow> (Inr dflt, st)
    | Some s \<Rightarrow> (case m s of
        (Inl e, s') \<Rightarrow> (Inl (StoreError e), st\<lparr>ib_store := Some s'\<rparr>)
      | (Inr x, s') \<Rightarrow> (Inr x, st\<lparr>ib_store := Some s'\<rparr>)))"

text \<open>Steps 5 to 7: the session source, the call of the agent, the final receipt.\<close>

definition sourceToRecord :: "followupRequest \<Rightarrow> (string \<times> string \<times> string \<times> jsval option) option" where
  "sourceToRecord req = (case fr_source req of
      None \<Rightarrow> None
    | Some src \<Rightarrow> (case (is_routeId src, is_sourceType src, is_sourceId src) of
        (Some r, Some t, Some i) \<Rightarrow> if truthy r \<and> truthy t \<and> truthy i then Some (r, t, i, is_metadata src) else None
      | _ \<Rightarrow> None))"

definition recordSource :: "string \<Rightarrow> followupRequest \<Rightarrow> string \<Rightarrow> string \<Rightarrow> unit inbound_op" where
  "recordSource u req deliveryId now st =
     (case sourceToRecord req of
        None \<Rightarrow> (Inr (), st)
      | Some (r, t, i, m) \<Rightarrow>
          (case withStore (recordSessionSource u r t i m now) None st of
             (Inr _, st1) \<Rightarrow> (Inr (), st1)
           | (Inl (StoreError e), st1) \<Rightarrow>
               (let errorMsg = ''Failed recording session source: '' @ receipt_error_text e in
                seq (withStore (updateReceiptStatus u deliveryId ReceiptFailed (Some errorMsg) now) None)
                  (\<lambda>_ st2. (Inl (SessionSourceRecordFailed errorMsg), st2)) st1)
           | (Inl e, st1) \<Rightarrow> (Inl e, st1)))"

definition dispatch ::
  "(agentCall \<Rightarrow> string option) \<Rightarrow> string \<Rightarrow> string \<Rightarrow> string \<Rightarrow> agentTarget \<Rightarrow> string \<Rightarrow> string
   \<Rightarrow> followupResult inbound_op" where
  "dispatch agentThrows u deliveryId sessionId target messageId now st =
     (let call = Dispatch deliveryId sessionId target messageId;
          st1 = st\<lparr>ib_calls := ib_calls st @ [call]\<rparr>
      in case agentThrows call of
           Some msg \<Rightarrow>
             seq (withStore (updateReceiptStatus u deliveryId ReceiptFailed (Some msg) now) None)
               (\<lambda>_ st2. (Inl (AgentThrew msg), st2)) st1
         | None \<Rightarrow>
             seq (withStore (updateReceiptStatus u deliveryId ReceiptDelivered None now) None)
               (\<lambda>_ st2. (Inr \<lparr> fo_deliveryId = deliveryId, fo_messageId = messageId, fo_duplicate = False \<rparr>, st2)) st1)"

text \<open>Step 4: the initial receipt; a delivered receipt that appears meanwhile makes it a duplicate.\<close>

definition initialReceipt ::
  "string \<Rightarrow> string \<Rightarrow> string \<Rightarrow> string \<Rightarrow> string \<Rightarrow> followupResult option inbound_op" where
  "initialReceipt u deliveryId messageId routeId now st =
     (case withStore (recordReceipt u \<lparr> rr_deliveryId = deliveryId, rr_messageId = messageId,
              rr_routeId = Some routeId, rr_status = Some Pending, rr_error = None \<rparr> now) None st of
        (Inr _, st1) \<Rightarrow> (Inr None, st1)
      | (Inl err, st1) \<Rightarrow>
          seq (withStore (getReceiptByDeliveryId u deliveryId) None) (\<lambda>existing st2.
            case existing of
              Some r \<Rightarrow> if dr_status r = ReceiptDelivered
                then (Inr (Some \<lparr> fo_deliveryId = deliveryId, fo_messageId = dr_message r, fo_duplicate = True \<rparr>), st2)
                else (Inl err, st2)
            | None \<Rightarrow> (Inl err, st2)) st1)"

text \<open>Steps 2 to 7, once the idempotency check has passed.\<close>

definition deliver ::
  "(agentCall \<Rightarrow> string option) \<Rightarrow> agentTarget \<Rightarrow> string \<Rightarrow> followupRequest \<Rightarrow> string \<Rightarrow> string \<Rightarrow> string \<Rightarrow> string
   \<Rightarrow> followupResult inbound_op" where
  "deliver agentThrows defaultTarget u req deliveryId sessionId newId now st =
     (if sessionId \<notin> set (ib_agents st) then (Inl (AgentNotFoundError sessionId), st)
      else check (buildUserMessage (fr_message req) newId) (\<lambda>messageId.
        seq (initialReceipt u deliveryId messageId
               (case fr_source req of None \<Rightarrow> [] | Some src \<Rightarrow> (case is_routeId src of None \<Rightarrow> [] | Some r \<Rightarrow> r)) now) (\<lambda>dup.
          case dup of
            Some res \<Rightarrow> (\<lambda>st1. (Inr res, st1))
          | None \<Rightarrow>
              seq (recordSource u req deliveryId now) (\<lambda>_.
                dispatch agentThrows u deliveryId sessionId
                  (case fr_target req of Some t \<Rightarrow> t | None \<Rightarrow> defaultTarget) messageId now))) st)"

definition handleFollowup ::
  "(agentCall \<Rightarrow> string option) \<Rightarrow> agentTarget \<Rightarrow> string \<Rightarrow> followupRequest \<Rightarrow> string \<Rightarrow> string \<Rightarrow> followupResult inbound_op" where
  "handleFollowup agentThrows defaultTarget u req newId now st0 =
     (if js_trim (fr_deliveryId req) = [] then (Inl (InboundValidationError ''deliveryId is required'' ''deliveryId''), st0)
      else if js_trim (fr_sessionId req) = [] then (Inl (InboundValidationError ''sessionId is required'' ''sessionId''), st0)
      else
        (let deliveryId = js_trim (fr_deliveryId req); sessionId = js_trim (fr_sessionId req) in
         seq (withStore (getReceiptByDeliveryId u deliveryId) None) (\<lambda>existing st.
           case existing of
             Some r \<Rightarrow>
               (case dr_status r of
                  ReceiptDelivered \<Rightarrow>
                    (Inr \<lparr> fo_deliveryId = deliveryId, fo_messageId = dr_message r, fo_duplicate = True \<rparr>, st)
                | ReceiptFailed \<Rightarrow> (Inl (PreviousDeliveryFailedError deliveryId (dr_error r)), st)
                | Pending \<Rightarrow> deliver agentThrows defaultTarget u req deliveryId sessionId newId now st)
           | None \<Rightarrow> deliver agentThrows defaultTarget u req deliveryId sessionId newId now st) st0))"

record cancelRequest =
  cr_sessionId :: string
  cr_deliveryId :: "string option"

text \<open>The result is \<open>duplicate\<close>.\<close>

definition handleCancel :: "(agentCall \<Rightarrow> string option) \<Rightarrow> string \<Rightarrow> cancelRequest \<Rightarrow> string \<Rightarrow> bool inbound_op" where
  "handleCancel agentThrows u req now st0 =
     (if js_trim (cr_sessionId req) = [] then (Inl (InboundValidationError ''sessionId is required'' ''sessionId''), st0)
      else
        (let sessionId = js_trim (cr_sessionId req);
             deliveryId = map_option js_trim (cr_deliveryId req);
             withId = opt_truthy deliveryId \<and> ib_store st0 \<noteq> None
         in seq (if withId then withStore (getReceiptByDeliveryId u (the deliveryId)) None else (\<lambda>st. (Inr None, st)))
              (\<lambda>existing st.
                 if (case existing of Some r \<Rightarrow> dr_status r = ReceiptDelivered | None \<Rightarrow> False) then (Inr True, st)
                 else if sessionId \<notin> set (ib_agents st) then (Inl (AgentNotFoundError sessionId), st)
                 else
                   (let st1 = st\<lparr>ib_calls := ib_calls st @ [CancelAgent sessionId]\<rparr> in
                    case agentThrows (CancelAgent sessionId) of
                      Some msg \<Rightarrow> (Inl (AgentThrew msg), st1)
                    | None \<Rightarrow>
                        if \<not> withId then (Inr False, st1)
                        else
                          (case withStore (recordReceipt u \<lparr> rr_deliveryId = the deliveryId, rr_messageId = ''cancel'',
                                   rr_routeId = None, rr_status = Some ReceiptDelivered, rr_error = None \<rparr> now) None st1 of
                             (Inr _, st2) \<Rightarrow> (Inr False, st2)
                           | (Inl err, st2) \<Rightarrow>
                               seq (withStore (getReceiptByDeliveryId u (the deliveryId)) None) (\<lambda>again st3.
                                 if (case again of Some r \<Rightarrow> dr_status r = ReceiptDelivered | None \<Rightarrow> False)
                                 then (Inr True, st3) else (Inl err, st3)) st2))) st0))"

section \<open>The wire parser\<close>

definition unwrap :: "jsval \<Rightarrow> jsval" where
  "unwrap obj = (if is_object (js_get obj ''data'') then js_get obj ''data'' else obj)"

fun nonEmptyText :: "jsval \<Rightarrow> string option" where
  "nonEmptyText (JString s) = (if js_trim s = [] then None else Some (js_trim s))"
| "nonEmptyText _ = None"

fun parseTarget :: "jsval \<Rightarrow> agentTarget option option" where
  "parseTarget JUndefined = Some None"
| "parseTarget (JString s) = (if s = ''followup'' then Some (Some Followup) else if s = ''steer'' then Some (Some Steer)
     else if s = ''inject'' then Some (Some Inject) else None)"
| "parseTarget _ = None"

text \<open>
  \<open>source\<close> is passed on unchecked, by a type assertion; \<open>asSource\<close> is what the assertion takes it for.
\<close>

definition parseFollowup :: "(jsval \<Rightarrow> inboundSource option) \<Rightarrow> jsval \<Rightarrow> inboundError + followupRequest" where
  "parseFollowup asSource raw =
     (if \<not> is_object raw then Inl (WireParserError ''Wire payload must be a non-null object'')
      else
        (let obj = unwrap raw in
         case nonEmptyText (js_get obj ''deliveryId'') of
           None \<Rightarrow> Inl (InboundValidationError ''deliveryId is required and must be a non-empty string'' ''deliveryId'')
         | Some deliveryId \<Rightarrow>
        (case nonEmptyText (js_get obj ''sessionId'') of
           None \<Rightarrow> Inl (InboundValidationError ''sessionId is required and must be a non-empty string'' ''sessionId'')
         | Some sessionId \<Rightarrow>
        (let message = (if js_get obj ''message'' \<in> {JUndefined, JNull} then js_get obj ''content'' else js_get obj ''message'') in
         if message \<in> {JUndefined, JNull} then Inl (InboundValidationError ''message/content is required'' ''message'')
         else case parseTarget (js_get obj ''target'') of
           None \<Rightarrow> Inl (InboundValidationError ''Invalid target'' ''target'')
         | Some target \<Rightarrow>
             Inr \<lparr> fr_deliveryId = deliveryId, fr_sessionId = sessionId, fr_message = message,
                   fr_source = asSource (js_get obj ''source''), fr_target = target \<rparr>))))"

definition parseCancel :: "jsval \<Rightarrow> inboundError + cancelRequest" where
  "parseCancel raw =
     (if \<not> is_object raw then Inl (WireParserError ''Wire payload must be a non-null object'')
      else
        (let obj = unwrap raw in
         case nonEmptyText (js_get obj ''sessionId'') of
           None \<Rightarrow> Inl (InboundValidationError ''sessionId is required and must be a non-empty string'' ''sessionId'')
         | Some sessionId \<Rightarrow>
             Inr \<lparr> cr_sessionId = sessionId,
                   cr_deliveryId = (case js_get obj ''deliveryId'' of JString d \<Rightarrow> Some (js_trim d) | _ \<Rightarrow> None) \<rparr>))"

definition parseAndFollowup ::
  "(jsval \<Rightarrow> inboundSource option) \<Rightarrow> (agentCall \<Rightarrow> string option) \<Rightarrow> agentTarget \<Rightarrow> string \<Rightarrow> jsval \<Rightarrow> string \<Rightarrow> string
   \<Rightarrow> followupResult inbound_op" where
  "parseAndFollowup asSource agentThrows defaultTarget u raw newId now =
     check (parseFollowup asSource raw) (\<lambda>req. handleFollowup agentThrows defaultTarget u req newId now)"

definition parseAndCancel :: "(agentCall \<Rightarrow> string option) \<Rightarrow> string \<Rightarrow> jsval \<Rightarrow> string \<Rightarrow> bool inbound_op" where
  "parseAndCancel agentThrows u raw now = check (parseCancel raw) (\<lambda>req. handleCancel agentThrows u req now)"

section \<open>Counting deliveries\<close>

definition isDispatchOf :: "string \<Rightarrow> agentCall \<Rightarrow> bool" where
  "isDispatchOf d c \<longleftrightarrow> (case c of Dispatch d' _ _ _ \<Rightarrow> d' = d | CancelAgent _ \<Rightarrow> False)"

text \<open>How often a delivery was handed to an agent.\<close>

definition dispatches :: "string \<Rightarrow> inboundState \<Rightarrow> nat" where
  "dispatches d st = length (filter (isDispatchOf d) (ib_calls st))"

end
