(* ===== verification/Inbound_Interleaving.thy ===== *)
theory Inbound_Interleaving
  imports Inbound
begin

text \<open>
  The handlers of \<open>dsh-inbound/src/service.ts\<close> cut at their \<open>await\<close> points. Each handler in
  flight is a value of \<open>handler\<close>, named after what it has done so far, and \<open>handlerStep\<close> runs
  it to its next \<open>await\<close>. A schedule chooses which handler moves next, so every interleaving of
  concurrent requests is a run of \<open>interleave\<close>. The theorems: a handler that runs undisturbed
  computes \<open>handleFollowup\<close>, and no interleaving hands a delivery to an agent twice.
\<close>

section \<open>Handlers in flight\<close>

datatype handler =
    Received followupRequest string string                \<comment> \<open>request, message identifier to draw, clock\<close>
  | Looked followupRequest string string                  \<comment> \<open>no delivered or failed receipt was found\<close>
  | Refused followupRequest inboundError                  \<comment> \<open>the initial receipt was refused\<close>
  | Accepted followupRequest string string                \<comment> \<open>the pending receipt is recorded; message, clock\<close>
  | SourceLost followupRequest string string              \<comment> \<open>recording the session source threw; error, clock\<close>
  | Ready followupRequest string string                   \<comment> \<open>about to call the agent\<close>
  | Called followupRequest string string "string option"  \<comment> \<open>the agent was called, and what it threw\<close>
  | Finished "inboundError + followupResult"
  | CancelReceived cancelRequest string
  | CancelLooked cancelRequest string
  | CancelRefused cancelRequest inboundError
  | CancelFinished "inboundError + bool"

abbreviation deliveryOf :: "followupRequest \<Rightarrow> string" where
  "deliveryOf req \<equiv> js_trim (fr_deliveryId req)"

abbreviation sessionOf :: "followupRequest \<Rightarrow> string" where
  "sessionOf req \<equiv> js_trim (fr_sessionId req)"

definition duplicateOf :: "followupRequest \<Rightarrow> deliveryReceipt \<Rightarrow> followupResult" where
  "duplicateOf req r = \<lparr> fo_deliveryId = deliveryOf req, fo_messageId = dr_message r, fo_duplicate = True \<rparr>"

definition pendingReceipt :: "followupRequest \<Rightarrow> string \<Rightarrow> recordReceiptInput" where
  "pendingReceipt req messageId =
     \<lparr> rr_deliveryId = deliveryOf req, rr_messageId = messageId,
       rr_routeId = Some (case fr_source req of None \<Rightarrow> [] | Some src \<Rightarrow> (case is_routeId src of None \<Rightarrow> [] | Some r \<Rightarrow> r)),
       rr_status = Some Pending, rr_error = None \<rparr>"

definition cancelReceipt :: "string \<Rightarrow> recordReceiptInput" where
  "cancelReceipt deliveryId =
     \<lparr> rr_deliveryId = deliveryId, rr_messageId = ''cancel'', rr_routeId = None,
       rr_status = Some ReceiptDelivered, rr_error = None \<rparr>"

section \<open>Steps of a followup\<close>

definition stepLookup :: "string \<Rightarrow> followupRequest \<Rightarrow> string \<Rightarrow> string \<Rightarrow> inboundState \<Rightarrow> handler \<times> inboundState" where
  "stepLookup u req newId now st =
     (if deliveryOf req = [] then (Finished (Inl (InboundValidationError ''deliveryId is required'' ''deliveryId'')), st)
      else if sessionOf req = [] then (Finished (Inl (InboundValidationError ''sessionId is required'' ''sessionId'')), st)
      else case withStore (getReceiptByDeliveryId u (deliveryOf req)) None st of
        (Inl e, st1) \<Rightarrow> (Finished (Inl e), st1)
      | (Inr None, st1) \<Rightarrow> (Looked req newId now, st1)
      | (Inr (Some r), st1) \<Rightarrow>
          (case dr_status r of
             ReceiptDelivered \<Rightarrow> (Finished (Inr (duplicateOf req r)), st1)
           | ReceiptFailed \<Rightarrow> (Finished (Inl (PreviousDeliveryFailedError (deliveryOf req) (dr_error r))), st1)
           | Pending \<Rightarrow> (Looked req newId now, st1)))"

definition stepRecord :: "string \<Rightarrow> followupRequest \<Rightarrow> string \<Rightarrow> string \<Rightarrow> inboundState \<Rightarrow> handler \<times> inboundState" where
  "stepRecord u req newId now st =
     (if sessionOf req \<notin> set (ib_agents st) then (Finished (Inl (AgentNotFoundError (sessionOf req))), st)
      else case buildUserMessage (fr_message req) newId of
        Inl e \<Rightarrow> (Finished (Inl e), st)
      | Inr messageId \<Rightarrow>
          (case withStore (recordReceipt u (pendingReceipt req messageId) now) None st of
             (Inr _, st1) \<Rightarrow> (Accepted req messageId now, st1)
           | (Inl err, st1) \<Rightarrow> (Refused req err, st1)))"

definition stepReread :: "string \<Rightarrow> followupRequest \<Rightarrow> inboundError \<Rightarrow> inboundState \<Rightarrow> handler \<times> inboundState" where
  "stepReread u req err st =
     (case withStore (getReceiptByDeliveryId u (deliveryOf req)) None st of
        (Inl e, st1) \<Rightarrow> (Finished (Inl e), st1)
      | (Inr None, st1) \<Rightarrow> (Finished (Inl err), st1)
      | (Inr (Some r), st1) \<Rightarrow>
          (Finished (if dr_status r = ReceiptDelivered then Inr (duplicateOf req r) else Inl err), st1))"

definition stepSource :: "string \<Rightarrow> followupRequest \<Rightarrow> string \<Rightarrow> string \<Rightarrow> inboundState \<Rightarrow> handler \<times> inboundState" where
  "stepSource u req messageId now st =
     (case sourceToRecord req of
        None \<Rightarrow> (Ready req messageId now, st)
      | Some (r, t, i, m) \<Rightarrow>
          (case withStore (recordSessionSource u r t i m now) None st of
             (Inr _, st1) \<Rightarrow> (Ready req messageId now, st1)
           | (Inl (StoreError e), st1) \<Rightarrow>
               (SourceLost req (''Failed recording session source: '' @ receipt_error_text e) now, st1)
           | (Inl e, st1) \<Rightarrow> (Finished (Inl e), st1)))"

definition stepSettle ::
  "string \<Rightarrow> followupRequest \<Rightarrow> receiptStatus \<Rightarrow> string option \<Rightarrow> string \<Rightarrow> inboundError + followupResult
   \<Rightarrow> inboundState \<Rightarrow> handler \<times> inboundState" where
  "stepSettle u req status error now result st =
     (case withStore (updateReceiptStatus u (deliveryOf req) status error now) None st of
        (Inl e, st1) \<Rightarrow> (Finished (Inl e), st1)
      | (Inr _, st1) \<Rightarrow> (Finished result, st1))"

definition stepCall ::
  "(agentCall \<Rightarrow> string option) \<Rightarrow> agentTarget \<Rightarrow> followupRequest \<Rightarrow> string \<Rightarrow> string \<Rightarrow> inboundState
   \<Rightarrow> handler \<times> inboundState" where
  "stepCall agentThrows defaultTarget req messageId now st =
     (let call = Dispatch (deliveryOf req) (sessionOf req)
                   (case fr_target req of Some t \<Rightarrow> t | None \<Rightarrow> defaultTarget) messageId
      in (Called req messageId now (agentThrows call), st\<lparr>ib_calls := ib_calls st @ [call]\<rparr>))"

section \<open>Steps of a cancellation\<close>

definition cancelDelivery :: "cancelRequest \<Rightarrow> string" where
  "cancelDelivery req = (case cr_deliveryId req of None \<Rightarrow> [] | Some d \<Rightarrow> js_trim d)"

definition isDelivered :: "deliveryReceipt option \<Rightarrow> bool" where
  "isDelivered existing = (case existing of Some r \<Rightarrow> dr_status r = ReceiptDelivered | None \<Rightarrow> False)"

definition stepCancelLookup :: "string \<Rightarrow> cancelRequest \<Rightarrow> string \<Rightarrow> inboundState \<Rightarrow> handler \<times> inboundState" where
  "stepCancelLookup u req now st =
     (if js_trim (cr_sessionId req) = []
      then (CancelFinished (Inl (InboundValidationError ''sessionId is required'' ''sessionId'')), st)
      else if \<not> truthy (cancelDelivery req) then (CancelLooked req now, st)
      else case withStore (getReceiptByDeliveryId u (cancelDelivery req)) None st of
        (Inl e, st1) \<Rightarrow> (CancelFinished (Inl e), st1)
      | (Inr existing, st1) \<Rightarrow> if isDelivered existing then (CancelFinished (Inr True), st1) else (CancelLooked req now, st1))"

definition stepCancel ::
  "(agentCall \<Rightarrow> string option) \<Rightarrow> string \<Rightarrow> cancelRequest \<Rightarrow> string \<Rightarrow> inboundState \<Rightarrow> handler \<times> inboundState" where
  "stepCancel agentThrows u req now st =
     (let sessionId = js_trim (cr_sessionId req) in
      if sessionId \<notin> set (ib_agents st) then (CancelFinished (Inl (AgentNotFoundError sessionId)), st)
      else
        (let st1 = st\<lparr>ib_calls := ib_calls st @ [CancelAgent sessionId]\<rparr> in
         case agentThrows (CancelAgent sessionId) of
           Some msg \<Rightarrow> (CancelFinished (Inl (AgentThrew msg)), st1)
         | None \<Rightarrow>
             if \<not> truthy (cancelDelivery req) then (CancelFinished (Inr False), st1)
             else (case withStore (recordReceipt u (cancelReceipt (cancelDelivery req)) now) None st1 of
                     (Inr _, st2) \<Rightarrow> (CancelFinished (Inr False), st2)
                   | (Inl err, st2) \<Rightarrow> (CancelRefused req err, st2))))"

definition stepCancelReread :: "string \<Rightarrow> cancelRequest \<Rightarrow> inboundError \<Rightarrow> inboundState \<Rightarrow> handler \<times> inboundState" where
  "stepCancelReread u req err st =
     (case withStore (getReceiptByDeliveryId u (cancelDelivery req)) None st of
        (Inl e, st1) \<Rightarrow> (CancelFinished (Inl e), st1)
      | (Inr existing, st1) \<Rightarrow> (CancelFinished (if isDelivered existing then Inr True else Inl err), st1))"

section \<open>Interleavings\<close>

fun handlerStep ::
  "(agentCall \<Rightarrow> string option) \<Rightarrow> agentTarget \<Rightarrow> string \<Rightarrow> handler \<Rightarrow> inboundState \<Rightarrow> handler \<times> inboundState" where
  "handlerStep th dt u (Received req newId now) st = stepLookup u req newId now st"
| "handlerStep th dt u (Looked req newId now) st = stepRecord u req newId now st"
| "handlerStep th dt u (Refused req err) st = stepReread u req err st"
| "handlerStep th dt u (Accepted req mid now) st = stepSource u req mid now st"
| "handlerStep th dt u (SourceLost req msg now) st =
     stepSettle u req ReceiptFailed (Some msg) now (Inl (SessionSourceRecordFailed msg)) st"
| "handlerStep th dt u (Ready req mid now) st = stepCall th dt req mid now st"
| "handlerStep th dt u (Called req mid now (Some msg)) st =
     stepSettle u req ReceiptFailed (Some msg) now (Inl (AgentThrew msg)) st"
| "handlerStep th dt u (Called req mid now None) st =
     stepSettle u req ReceiptDelivered None now
       (Inr \<lparr> fo_deliveryId = deliveryOf req, fo_messageId = mid, fo_duplicate = False \<rparr>) st"
| "handlerStep th dt u (CancelReceived req now) st = stepCancelLookup u req now st"
| "handlerStep th dt u (CancelLooked req now) st = stepCancel th u req now st"
| "handlerStep th dt u (CancelRefused req err) st = stepCancelReread u req err st"
| "handlerStep th dt u h st = (h, st)"

text \<open>The handlers in flight, and one step of the \<open>i\<close>-th of them.\<close>

record inboundPool =
  ip_handlers :: "handler list"
  ip_state :: inboundState

definition poolStep ::
  "(agentCall \<Rightarrow> string option) \<Rightarrow> agentTarget \<Rightarrow> string \<Rightarrow> nat \<Rightarrow> inboundPool \<Rightarrow> inboundPool" where
  "poolStep th dt u i p =
     (if i < length (ip_handlers p)
      then case handlerStep th dt u (ip_handlers p ! i) (ip_state p) of
             (h, st) \<Rightarrow> \<lparr> ip_handlers = (ip_handlers p)[i := h], ip_state = st \<rparr>
      else p)"

definition interleave ::
  "(agentCall \<Rightarrow> string option) \<Rightarrow> agentTarget \<Rightarrow> string \<Rightarrow> nat list \<Rightarrow> inboundPool \<Rightarrow> inboundPool" where
  "interleave th dt u schedule p = fold (poolStep th dt u) schedule p"

fun isArriving :: "handler \<Rightarrow> bool" where
  "isArriving (Received _ _ _) = True"
| "isArriving (CancelReceived _ _) = True"
| "isArriving _ = False"

fun runHandler ::
  "(agentCall \<Rightarrow> string option) \<Rightarrow> agentTarget \<Rightarrow> string \<Rightarrow> nat \<Rightarrow> handler \<Rightarrow> inboundState \<Rightarrow> handler \<times> inboundState" where
  "runHandler th dt u 0 h st = (h, st)"
| "runHandler th dt u (Suc n) h st = (case handlerStep th dt u h st of (h', st') \<Rightarrow> runHandler th dt u n h' st')"

text \<open>
  Whether a handler has accepted \<open>d\<close> and is still to call the agent, and how often \<open>d\<close> has
  reached or is bound to reach an agent.
\<close>

fun holds :: "string \<Rightarrow> handler \<Rightarrow> bool" where
  "holds d (Accepted req _ _) = (deliveryOf req = d)"
| "holds d (Ready req _ _) = (deliveryOf req = d)"
| "holds d _ = False"

definition handed :: "string \<Rightarrow> inboundPool \<Rightarrow> nat" where
  "handed d p = length (filter (isDispatchOf d) (ib_calls (ip_state p))) + length (filter (holds d) (ip_handlers p))"

text \<open>What the store remembers, seen from the service.\<close>

definition remembered :: "string \<Rightarrow> string \<Rightarrow> inboundState \<Rightarrow> bool" where
  "remembered u d st \<longleftrightarrow> (case ib_store st of None \<Rightarrow> False | Some s \<Rightarrow> hasReceipt u s d)"

definition weight :: "string \<Rightarrow> handler \<times> inboundState \<Rightarrow> nat" where
  "weight d c = dispatches d (snd c) + (if holds d (fst c) then 1 else 0)"

text \<open>Two requests with the same delivery, for the concrete runs.\<close>

definition sampleRequest :: followupRequest where
  "sampleRequest = \<lparr> fr_deliveryId = ''d1'', fr_sessionId = ''s1'', fr_message = JString ''hello'',
     fr_source = None, fr_target = None \<rparr>"

definition samplePool :: inboundPool where
  "samplePool = \<lparr> ip_handlers = [Received sampleRequest ''m1'' ''t1'', Received sampleRequest ''m2'' ''t2''],
     ip_state = \<lparr> ib_store = Some emptyStore, ib_agents = [''s1''], ib_calls = [] \<rparr> \<rparr>"

section \<open>Counting what happens at most once\<close>

text \<open>
  A counter that grows only in a step that sets a flag, by one, while the flag was not set and
  is never reset: over any run it grows by at most one, and not at all once the flag is set.
\<close>

locale once_counter =
  fixes step :: "'c \<Rightarrow> 's \<Rightarrow> 's"
    and ok :: "'s \<Rightarrow> bool"
    and flag :: "'s \<Rightarrow> bool"
    and count :: "'s \<Rightarrow> nat"
  assumes ok_step: "ok s \<Longrightarrow> ok (step c s)"
    and flag_step: "ok s \<Longrightarrow> flag s \<Longrightarrow> flag (step c s)"
    and count_flagged: "ok s \<Longrightarrow> flag s \<Longrightarrow> count (step c s) \<le> count s"
    and count_step: "ok s \<Longrightarrow> count (step c s) \<le> count s \<or> (count (step c s) = Suc (count s) \<and> flag (step c s))"
begin

lemma count_run_flagged: "ok s \<Longrightarrow> flag s \<Longrightarrow> count (fold step cs s) \<le> count s"
proof (induction cs arbitrary: s)
  case (Cons c cs)
  have "count (fold step cs (step c s)) \<le> count (step c s)"
    by (rule Cons.IH[OF ok_step[OF Cons.prems(1)] flag_step[OF Cons.prems]])
  also have "\<dots> \<le> count s" by (rule count_flagged[OF Cons.prems])
  finally show ?case by simp
qed simp

lemma count_run: "ok s \<Longrightarrow> count (fold step cs s) \<le> Suc (count s)"
proof (induction cs arbitrary: s)
  case (Cons c cs)
  show ?case
    using count_step[OF Cons.prems, of c]
  proof
    assume "count (step c s) \<le> count s"
    with Cons.IH[OF ok_step[OF Cons.prems], of c] show ?thesis by simp
  next
    assume "count (step c s) = Suc (count s) \<and> flag (step c s)"
    with count_run_flagged[OF ok_step[OF Cons.prems], of c cs] show ?thesis by simp
  qed
qed simp

end

section \<open>The steps and the store\<close>

lemma snd_withStore:
  "snd (withStore m x st) = st\<lparr>ib_store := map_option (\<lambda>s. snd (m s)) (ib_store st)\<rparr>"
  by (cases "ib_store st") (auto simp: withStore_def split: prod.split sum.split)

lemma withStore_frame [simp]:
  "ib_calls (snd (withStore m x st)) = ib_calls st" "ib_agents (snd (withStore m x st)) = ib_agents st"
  "ib_store (snd (withStore m x st)) = map_option (\<lambda>s. snd (m s)) (ib_store st)"
  by (simp_all add: snd_withStore)

lemma record_remembers:
  assumes "recordReceipt u inp now s = (Inr x, s')"
  shows "\<not> hasReceipt u s (rr_deliveryId inp) \<and> hasReceipt u s' (rr_deliveryId inp)"
  using memory.accept_new[of u inp now "rr_deliveryId inp" s s'] assms by (simp add: acceptReceipt_def)

lemma record_keeps: "hasReceipt u s d \<Longrightarrow> hasReceipt u (snd (recordReceipt u inp now s)) d"
  using memory.accept_keeps[of u s d inp now "rr_deliveryId inp"]
  by (simp add: acceptReceipt_def split: prod.splits)

lemma store_keeps [simp]:
  "hasReceipt u s d \<Longrightarrow> hasReceipt u (snd (updateReceiptStatus v x st e n s)) d"
  "hasReceipt u s d \<Longrightarrow> hasReceipt u (snd (recordSessionSource v r t i m n s)) d"
  using memory.other_keeps[of u s d "UpdateReceipt v x st e n"] memory.other_keeps[of u s d "RecordSource v r t i m n"]
  by simp_all

lemma remembered_withStore:
  assumes "remembered u d st" "\<And>s. hasReceipt u s d \<Longrightarrow> hasReceipt u (snd (m s)) d"
  shows "remembered u d (snd (withStore m x st))"
  using assms by (auto simp: remembered_def split: option.splits)

lemma remembered_calls [simp]: "remembered u d (st\<lparr>ib_calls := cs\<rparr>) = remembered u d st"
  by (simp add: remembered_def)

lemmas step_defs = stepLookup_def stepRecord_def stepReread_def stepSource_def stepSettle_def stepCall_def
  stepCancelLookup_def stepCancel_def stepCancelReread_def

lemma withStore_eq: "withStore m x st = (r, st') \<Longrightarrow> st' = snd (withStore m x st)"
  by simp

lemma step_store: "ib_store st \<noteq> None \<Longrightarrow> ib_store (snd (handlerStep th dt u h st)) \<noteq> None"
  by (induction th dt u h st rule: handlerStep.induct)
     (auto simp: step_defs Let_def dest!: withStore_eq split: prod.splits sum.splits option.splits receiptStatus.splits inboundError.splits)

lemma step_remembers: "remembered u d st \<Longrightarrow> remembered u d (snd (handlerStep th dt u h st))"
proof (induction th dt u h st rule: handlerStep.induct)
qed (auto simp: step_defs Let_def record_keeps intro!: remembered_withStore dest!: withStore_eq
       split: prod.splits sum.splits option.splits receiptStatus.splits inboundError.splits)

lemma step_weight_other:
  assumes "\<And>req newId now. h \<noteq> Looked req newId now"
  shows "weight d (handlerStep th dt u h st) \<le> weight d (h, st)"
  using assms
proof (induction th dt u h st rule: handlerStep.induct)
qed (auto simp: step_defs Let_def weight_def dispatches_def isDispatchOf_def dest!: withStore_eq
       split: prod.splits sum.splits option.splits receiptStatus.splits inboundError.splits)

lemma step_weight_record:
  assumes "ib_store st \<noteq> None"
  shows "weight d (stepRecord u req newId now st) \<le> weight d (Looked req newId now, st)
    \<or> (weight d (stepRecord u req newId now st) = Suc (weight d (Looked req newId now, st))
       \<and> \<not> remembered u d st \<and> remembered u d (snd (stepRecord u req newId now st)))"
proof -
  obtain s where s: "ib_store st = Some s" using assms by auto
  show ?thesis
  proof (cases "sessionOf req \<in> set (ib_agents st) \<and> (\<exists>m. buildUserMessage (fr_message req) newId = Inr m)")
    case True
    then obtain m where m: "sessionOf req \<in> set (ib_agents st)" "buildUserMessage (fr_message req) newId = Inr m" by auto
    obtain r s' where rec: "recordReceipt u (pendingReceipt req m) now s = (r, s')" by fastforce
    show ?thesis
    proof (cases r)
      case (Inl e)
      with m rec s show ?thesis by (simp add: stepRecord_def withStore_def weight_def dispatches_def)
    next
      case (Inr x)
      with record_remembers[of u "pendingReceipt req m" now s x s'] rec
      have "\<not> hasReceipt u s (deliveryOf req) \<and> hasReceipt u s' (deliveryOf req)" by (simp add: pendingReceipt_def)
      with m rec s Inr show ?thesis
        by (auto simp: stepRecord_def withStore_def weight_def dispatches_def remembered_def)
    qed
  next
    case False
    then show ?thesis by (auto simp: stepRecord_def weight_def split: sum.split)
  qed
qed

lemma step_weight:
  assumes "ib_store st \<noteq> None"
  shows "weight d (handlerStep th dt u h st) \<le> weight d (h, st)
    \<or> (weight d (handlerStep th dt u h st) = Suc (weight d (h, st))
       \<and> \<not> remembered u d st \<and> remembered u d (snd (handlerStep th dt u h st)))"
proof (cases "\<exists>req newId now. h = Looked req newId now")
  case True
  then obtain req newId now where "h = Looked req newId now" by blast
  with step_weight_record[OF assms, of d u req newId now] show ?thesis by simp
next
  case False
  then show ?thesis using step_weight_other[of h d th dt u st] by blast
qed

section \<open>The pool\<close>

lemma length_filter_update:
  "i < length xs \<Longrightarrow> length (filter P (xs[i := y])) + (if P (xs ! i) then 1 else 0)
     = length (filter P xs) + (if P y then 1 else 0)"
proof (induction xs arbitrary: i)
  case (Cons x xs)
  then show ?case by (cases i) auto
qed simp

lemma handed_step:
  assumes "i < length (ip_handlers p)" "handlerStep th dt u (ip_handlers p ! i) (ip_state p) = c"
  shows "handed d (poolStep th dt u i p) + weight d (ip_handlers p ! i, ip_state p) = handed d p + weight d c"
  using assms length_filter_update[OF assms(1), of "holds d" "fst c"]
  by (auto simp: poolStep_def handed_def weight_def dispatches_def split: prod.splits)

lemma ip_state_poolStep:
  "ip_state (poolStep th dt u i p) =
     (if i < length (ip_handlers p) then snd (handlerStep th dt u (ip_handlers p ! i) (ip_state p)) else ip_state p)"
  by (simp add: poolStep_def split: prod.split)

interpretation delivery: once_counter "poolStep th dt u" "\<lambda>p. ib_store (ip_state p) \<noteq> None"
  "\<lambda>p. remembered u d (ip_state p)" "handed d" for th dt u d
proof
  fix p :: inboundPool and i
  assume ok: "ib_store (ip_state p) \<noteq> None"
  show "ib_store (ip_state (poolStep th dt u i p)) \<noteq> None"
    using ok step_store by (auto simp: ip_state_poolStep)
  show "remembered u d (ip_state (poolStep th dt u i p))" if "remembered u d (ip_state p)"
    using that by (simp add: ip_state_poolStep step_remembers)
  show count: "handed d (poolStep th dt u i p) \<le> handed d p \<or>
      (handed d (poolStep th dt u i p) = Suc (handed d p) \<and> remembered u d (ip_state (poolStep th dt u i p)))"
  proof (cases "i < length (ip_handlers p)")
    case True
    then show ?thesis
      using step_weight[OF ok, of d th dt u "ip_handlers p ! i"] handed_step[OF True refl, where th = th and dt = dt and u = u and d = d]
      by (auto simp: ip_state_poolStep)
  qed (simp add: poolStep_def)
  show "handed d (poolStep th dt u i p) \<le> handed d p" if "remembered u d (ip_state p)"
  proof (cases "i < length (ip_handlers p)")
    case True
    then show ?thesis
      using step_weight[OF ok, of d th dt u "ip_handlers p ! i"] handed_step[OF True refl, where th = th and dt = dt and u = u and d = d] that
      by auto
  qed (simp add: poolStep_def)
qed

lemma handed_arriving: "list_all isArriving hs \<Longrightarrow> ip_handlers p = hs \<Longrightarrow> handed d p = dispatches d (ip_state p)"
proof -
  assume "list_all isArriving hs" "ip_handlers p = hs"
  moreover have "\<not> holds d h" if "isArriving h" for h using that by (cases h) auto
  ultimately show ?thesis by (auto simp: handed_def dispatches_def filter_empty_conv list_all_iff)
qed

lemma dispatches_le_handed: "dispatches d (ip_state p) \<le> handed d p"
  by (simp add: handed_def dispatches_def)

text \<open>
  C4. However the handlers of concurrent requests and cancellations interleave at their awaits,
  a delivery is handed to an agent at most once more, and not at all if the store already has a
  receipt for it.
\<close>

theorem inbound_at_most_once:
  assumes "ib_store (ip_state p) \<noteq> None" "list_all isArriving (ip_handlers p)"
  shows "dispatches d (ip_state (interleave th dt u schedule p))
    \<le> dispatches d (ip_state p) + (if remembered u d (ip_state p) then 0 else 1)"
  using delivery.count_run[OF assms(1), where th = th and dt = dt and u = u and d = d and cs = schedule]
    delivery.count_run_flagged[OF assms(1), where th = th and dt = dt and u = u and d = d and cs = schedule]
    dispatches_le_handed[of d "interleave th dt u schedule p"] handed_arriving[OF assms(2) refl, of d]
  unfolding interleave_def by (cases "remembered u d (ip_state p)") auto

text \<open>Both requests pass the first check before either records its receipt.\<close>

theorem inbound_at_most_once_witness:
  "dispatches ''d1'' (ip_state (interleave (\<lambda>_. None) Followup ''u'' [0, 1, 0, 1, 0, 1, 0, 0] samplePool)) \<le> 1
   \<and> dispatches ''d1'' (ip_state (interleave (\<lambda>_. None) Followup ''u'' [0, 1, 0, 1, 0, 1, 0, 0] samplePool)) = 1"
proof
  have "ib_store (ip_state samplePool) \<noteq> None" "list_all isArriving (ip_handlers samplePool)"
    "\<not> remembered ''u'' ''d1'' (ip_state samplePool)" "dispatches ''d1'' (ip_state samplePool) = 0"
    by code_simp+
  with inbound_at_most_once[of samplePool "''d1''" "\<lambda>_. None" Followup "''u''" "[0, 1, 0, 1, 0, 1, 0, 0]"]
  show "dispatches ''d1'' (ip_state (interleave (\<lambda>_. None) Followup ''u'' [0, 1, 0, 1, 0, 1, 0, 0] samplePool)) \<le> 1"
    by simp
  show "dispatches ''d1'' (ip_state (interleave (\<lambda>_. None) Followup ''u'' [0, 1, 0, 1, 0, 1, 0, 0] samplePool)) = 1"
    by code_simp
qed

section \<open>Undisturbed handlers\<close>

lemma runHandler_finished [simp]: "runHandler th dt u n (Finished r) st = (Finished r, st)"
  "runHandler th dt u n (CancelFinished b) st = (CancelFinished b, st)"
  by (induction n) simp_all

lemma run_settle:
  "stepSettle u req status error now result st =
     (case seq (withStore (updateReceiptStatus u (deliveryOf req) status error now) None) (\<lambda>_ st2. (result, st2)) st of
        (r, st') \<Rightarrow> (Finished r, st'))"
  by (simp add: stepSettle_def seq_def split: prod.split sum.split)

lemma run_ready:
  "runHandler th dt u (Suc (Suc n)) (Ready req mid now) st =
     (case dispatch th u (deliveryOf req) (sessionOf req) (case fr_target req of Some t \<Rightarrow> t | None \<Rightarrow> dt) mid now st of
        (r, st') \<Rightarrow> (Finished r, st'))"
  by (auto simp: stepCall_def dispatch_def run_settle Let_def split: option.split prod.split)

lemma run_accepted:
  "runHandler th dt u (Suc (Suc (Suc n))) (Accepted req mid now) st =
     (case seq (recordSource u req (deliveryOf req) now)
             (\<lambda>_. dispatch th u (deliveryOf req) (sessionOf req) (case fr_target req of Some t \<Rightarrow> t | None \<Rightarrow> dt) mid now) st of
        (r, st') \<Rightarrow> (Finished r, st'))"
proof (cases "sourceToRecord req")
  case None
  then have "runHandler th dt u (Suc (Suc (Suc n))) (Accepted req mid now) st
      = runHandler th dt u (Suc (Suc n)) (Ready req mid now) st"
    by (simp add: stepSource_def)
  with None show ?thesis by (simp only: run_ready) (simp add: recordSource_def seq_def)
next
  case (Some src)
  obtain r t i m where src: "src = (r, t, i, m)" by (cases src)
  obtain res st1 where ws: "withStore (recordSessionSource u r t i m now) None st = (res, st1)" by fastforce
  show ?thesis
  proof (cases res)
    case (Inr x)
    then have "runHandler th dt u (Suc (Suc (Suc n))) (Accepted req mid now) st
        = runHandler th dt u (Suc (Suc n)) (Ready req mid now) st1"
      using Some src ws by (simp add: stepSource_def)
    with Some src ws Inr show ?thesis by (simp only: run_ready) (simp add: recordSource_def seq_def)
  next
    case (Inl e)
    with Some src ws show ?thesis
      by (cases e) (auto simp: stepSource_def recordSource_def run_settle seq_def Let_def split: prod.split sum.split)
  qed
qed

lemma run_looked:
  "runHandler th dt u (Suc (Suc (Suc (Suc n)))) (Looked req newId now) st =
     (case deliver th dt u req (deliveryOf req) (sessionOf req) newId now st of (r, st') \<Rightarrow> (Finished r, st'))"
proof (cases "sessionOf req \<in> set (ib_agents st) \<and> (\<exists>m. buildUserMessage (fr_message req) newId = Inr m)")
  case True
  then obtain m where m: "sessionOf req \<in> set (ib_agents st)" "buildUserMessage (fr_message req) newId = Inr m" by auto
  obtain res st1 where ws: "withStore (recordReceipt u (pendingReceipt req m) now) None st = (res, st1)" by fastforce
  show ?thesis
  proof (cases res)
    case (Inr x)
    then have "runHandler th dt u (Suc (Suc (Suc (Suc n)))) (Looked req newId now) st
        = runHandler th dt u (Suc (Suc (Suc n))) (Accepted req m now) st1"
      using m ws by (simp add: stepRecord_def)
    also have "\<dots> = (case deliver th dt u req (deliveryOf req) (sessionOf req) newId now st of (r, st') \<Rightarrow> (Finished r, st'))"
      using m ws Inr by (simp only: run_accepted) (simp add: deliver_def initialReceipt_def pendingReceipt_def seq_def)
    finally show ?thesis .
  next
    case (Inl e)
    then have "runHandler th dt u (Suc (Suc (Suc (Suc n)))) (Looked req newId now) st = stepReread u req e st1"
      using m ws by (simp add: stepRecord_def stepReread_def split: prod.split sum.split option.split)
    also have "\<dots> = (case deliver th dt u req (deliveryOf req) (sessionOf req) newId now st of (r, st') \<Rightarrow> (Finished r, st'))"
      using m ws Inl
      by (simp add: stepReread_def deliver_def initialReceipt_def pendingReceipt_def duplicateOf_def seq_def
           split: prod.split sum.split option.split)
    finally show ?thesis .
  qed
next
  case False
  then show ?thesis by (auto simp: stepRecord_def deliver_def split: sum.split)
qed

lemma run_followup:
  "runHandler th dt u (Suc (Suc (Suc (Suc (Suc n))))) (Received req newId now) st =
     (case handleFollowup th dt u req newId now st of (r, st') \<Rightarrow> (Finished r, st'))"
proof (cases "deliveryOf req = [] \<or> sessionOf req = []")
  case True
  then show ?thesis by (auto simp: stepLookup_def handleFollowup_def)
next
  case False
  obtain res st1 where ws: "withStore (getReceiptByDeliveryId u (deliveryOf req)) None st = (res, st1)" by fastforce
  have go: "runHandler th dt u (Suc (Suc (Suc (Suc (Suc n))))) (Received req newId now) st
      = (case stepLookup u req newId now st of (h, st') \<Rightarrow> runHandler th dt u (Suc (Suc (Suc (Suc n)))) h st')"
    by (subst runHandler.simps(2)) (simp only: handlerStep.simps)
  show ?thesis
    using False ws unfolding go
    by (auto simp: stepLookup_def handleFollowup_def duplicateOf_def seq_def run_looked
        simp del: runHandler.simps split: sum.split option.split receiptStatus.split)
qed

lemma cancelDelivery_of:
  "opt_truthy (map_option js_trim (cr_deliveryId req)) = truthy (cancelDelivery req)"
  "truthy (cancelDelivery req) \<Longrightarrow> the (map_option js_trim (cr_deliveryId req)) = cancelDelivery req"
  by (auto simp: cancelDelivery_def truthy_def split: option.splits)

text \<open>Without a delivery identifier or a store, a cancellation only calls the agent.\<close>

lemma run_cancel_plain:
  assumes "\<not> (truthy (cancelDelivery req) \<and> ib_store st \<noteq> None)"
  shows "runHandler th dt u (Suc (Suc (Suc n))) (CancelReceived req now) st =
     (case handleCancel th u req now st of (r, st') \<Rightarrow> (CancelFinished r, st'))"
proof -
  have "handleCancel th u req now st =
      (if js_trim (cr_sessionId req) = [] then (Inl (InboundValidationError ''sessionId is required'' ''sessionId''), st)
       else if js_trim (cr_sessionId req) \<notin> set (ib_agents st) then (Inl (AgentNotFoundError (js_trim (cr_sessionId req))), st)
       else (case th (CancelAgent (js_trim (cr_sessionId req))) of Some msg \<Rightarrow> Inl (AgentThrew msg) | None \<Rightarrow> Inr False,
             st\<lparr>ib_calls := ib_calls st @ [CancelAgent (js_trim (cr_sessionId req))]\<rparr>))"
    using assms unfolding handleCancel_def Let_def cancelDelivery_of(1)
    by (simp only: if_False seq_def) (auto split: option.split)
  then show ?thesis
    using assms by (auto simp: stepCancelLookup_def stepCancel_def withStore_def isDelivered_def Let_def split: option.split)
qed

lemma run_cancel_stored:
  assumes "truthy (cancelDelivery req)" "ib_store st \<noteq> None"
  shows "runHandler th dt u (Suc (Suc (Suc n))) (CancelReceived req now) st =
     (case handleCancel th u req now st of (r, st') \<Rightarrow> (CancelFinished r, st'))"
proof -
  have c: "opt_truthy (map_option js_trim (cr_deliveryId req)) \<and> ib_store st \<noteq> None"
    using assms cancelDelivery_of(1) by simp
  have d: "the (map_option js_trim (cr_deliveryId req)) = cancelDelivery req"
    by (rule cancelDelivery_of(2)[OF assms(1)])
  obtain res st1 where ws: "withStore (getReceiptByDeliveryId u (cancelDelivery req)) None st = (res, st1)" by fastforce
  show ?thesis
    using assms ws unfolding handleCancel_def Let_def d
    by (auto simp: c stepCancelLookup_def stepCancel_def stepCancelReread_def isDelivered_def cancelReceipt_def seq_def Let_def
        split: sum.split option.split prod.split)
qed

lemma run_cancel:
  "runHandler th dt u (Suc (Suc (Suc n))) (CancelReceived req now) st =
     (case handleCancel th u req now st of (r, st') \<Rightarrow> (CancelFinished r, st'))"
  using run_cancel_plain[of req st] run_cancel_stored[of req st] by blast


end
