(* ===== verification/Inbound_Theorems.thy ===== *)
theory Inbound_Theorems
  imports Inbound_Interleaving
begin

text \<open>
  What a retry of a delivery sees: once a receipt is there and no handler in flight owns it, no
  interleaving of other requests changes it or hands the delivery to an agent. So a retry after
  a success answers as a duplicate with the first message identifier, and a receipt that was left
  pending refuses every retry.
\<close>

definition receiptIs :: "string \<Rightarrow> string \<Rightarrow> deliveryReceipt \<Rightarrow> inboundState \<Rightarrow> bool" where
  "receiptIs u d r st \<longleftrightarrow> (case ib_store st of None \<Rightarrow> False | Some s \<Rightarrow> rs_open s \<and> findReceipt u d s = Some r)"

text \<open>The handlers that may still write the receipt of \<open>d\<close>.\<close>

fun owns :: "string \<Rightarrow> handler \<Rightarrow> bool" where
  "owns d (Accepted req _ _) = (deliveryOf req = d)"
| "owns d (SourceLost req _ _) = (deliveryOf req = d)"
| "owns d (Ready req _ _) = (deliveryOf req = d)"
| "owns d (Called req _ _ _) = (deliveryOf req = d)"
| "owns d _ = False"

definition settledPool :: "string \<Rightarrow> string \<Rightarrow> deliveryReceipt \<Rightarrow> nat \<Rightarrow> inboundPool \<Rightarrow> bool" where
  "settledPool u d r k p \<longleftrightarrow> receiptIs u d r (ip_state p) \<and> list_all (\<lambda>h. \<not> owns d h) (ip_handlers p)
     \<and> dispatches d (ip_state p) = k"

text \<open>
  Concrete states: one delivered request and its retry; a host that stopped after recording the
  receipt, with the retry that arrives after its restart.
\<close>

definition deliveredPool :: inboundPool where
  "deliveredPool = \<lparr> ip_handlers = [Received sampleRequest ''m2'' ''t2''],
     ip_state = snd (handleFollowup (\<lambda>_. None) Followup ''u'' sampleRequest ''m1'' ''t1'' (ip_state samplePool)) \<rparr>"

definition crashedPool :: inboundPool where
  "crashedPool = \<lparr> ip_handlers = [Received sampleRequest ''m2'' ''t2''],
     ip_state = ip_state (interleave (\<lambda>_. None) Followup ''u'' [0, 0] samplePool) \<rparr>"

definition crashedReceipt :: deliveryReceipt where
  "crashedReceipt = newReceipt ''u'' (pendingReceipt sampleRequest ''m1'') ''t1'' emptyStore"

section \<open>Receipts under the operations of the store\<close>

lemma open_store_ops [simp]:
  "rs_open (snd (getReceiptByDeliveryId u d s)) = rs_open s"
  "rs_open (snd (recordSessionSource u r t i m n s)) = rs_open s"
  by (simp_all add: recordSessionSource_def getSessionSource_def ensureOpen_def Let_def)

lemma open_record [simp]: "rs_open (snd (recordReceipt u inp n s)) = rs_open s"
  by (cases "recordReceipt u inp n s") (auto elim: recordReceipt_cases)

lemma open_update [simp]: "rs_open (snd (updateReceiptStatus u d st e n s)) = rs_open s"
  by (cases "updateReceiptStatus u d st e n s") (auto elim: updateReceiptStatus_cases)

lemma findReceipt_receipts: "rs_receipts s' = rs_receipts s \<Longrightarrow> findReceipt u d s' = findReceipt u d s"
  by (simp add: findReceipt_def)

lemma findReceipt_record_keeps:
  "findReceipt u d s = Some r \<Longrightarrow> findReceipt u d (snd (recordReceipt v inp n s)) = Some r"
  by (cases "recordReceipt v inp n s") (auto simp: findReceipt_def tbl_get_append elim!: recordReceipt_cases)

lemma tbl_get_Cons: "tbl_get P (x # xs) = (if P x then Some x else tbl_get P xs)"
  by (simp add: tbl_get_def)

lemma findReceipt_record_new:
  assumes "recordReceipt u inp n s = (Inr x, s')"
  shows "findReceipt u (rr_deliveryId inp) s' = Some (newReceipt u inp n s)"
proof -
  have "tbl_get (\<lambda>r. dr_user r = u \<and> dr_delivery r = rr_deliveryId inp) (rs_receipts s) = None"
    using record_remembers[OF assms] by (simp add: tbl_get_None hasReceipt_iff)
  with assms show ?thesis
    by (auto simp: findReceipt_def tbl_get_append tbl_get_Cons elim!: recordReceipt_cases)
qed

lemma findReceipt_update_other:
  assumes "x \<noteq> d"
  shows "findReceipt u d (snd (updateReceiptStatus u x st e n s)) = findReceipt u d s"
proof -
  obtain r s' where upd: "updateReceiptStatus u x st e n s = (r, s')" by fastforce
  then show ?thesis
  proof (cases rule: updateReceiptStatus_cases)
    case (updated y)
    have "findReceipt u d s' = map_option (\<lambda>r. if dr_user r = u \<and> dr_delivery r = x
        then r\<lparr>dr_status := st, dr_error := e, dr_updatedAt := n\<rparr> else r) (findReceipt u d s)"
      unfolding findReceipt_def updated(2) by (simp add: tbl_get_update_same)
    with assms upd show ?thesis
      by (cases "findReceipt u d s") (auto simp: findReceipt_def dest!: tbl_get_Some)
  qed (simp add: upd)
qed

lemma findReceipt_update_same:
  assumes "updateReceiptStatus u d st e n s = (Inr x, s')" "findReceipt u d s = Some r"
  shows "findReceipt u d s' = Some (r\<lparr>dr_status := st, dr_error := e, dr_updatedAt := n\<rparr>)"
  using assms(1)
proof (cases rule: updateReceiptStatus_cases)
  case (updated y)
  have "findReceipt u d s' = map_option (\<lambda>r. if dr_user r = u \<and> dr_delivery r = d
      then r\<lparr>dr_status := st, dr_error := e, dr_updatedAt := n\<rparr> else r) (findReceipt u d s)"
    unfolding findReceipt_def updated(2) by (simp add: tbl_get_update_same)
  with assms(2) show ?thesis by (auto simp: findReceipt_def dest!: tbl_get_Some)
qed simp

section \<open>Receipts under the steps of handlers\<close>

lemma receiptIs_withStore:
  assumes "receiptIs u d r st" "\<And>s. findReceipt u d s = Some r \<Longrightarrow> findReceipt u d (snd (m s)) = Some r"
    "\<And>s. rs_open (snd (m s)) = rs_open s"
  shows "receiptIs u d r (snd (withStore m x st))"
  using assms by (auto simp: receiptIs_def split: option.splits)

lemma receiptIs_ops:
  assumes "receiptIs u d r st"
  shows "receiptIs u d r (snd (withStore (getReceiptByDeliveryId u x) y st))"
    "receiptIs u d r (snd (withStore (recordReceipt u inp n) y st))"
    "receiptIs u d r (snd (withStore (recordSessionSource u a t i m n) z st))"
    "x \<noteq> d \<Longrightarrow> receiptIs u d r (snd (withStore (updateReceiptStatus u x status e n) y st))"
  using assms
  by (auto intro!: receiptIs_withStore simp: findReceipt_record_keeps findReceipt_update_other
      findReceipt_receipts[OF receipts_recordSessionSource])

lemma receiptIs_calls [simp]: "receiptIs u d r (st\<lparr>ib_calls := cs\<rparr>) = receiptIs u d r st"
  by (simp add: receiptIs_def)

lemma receiptIs_lookup:
  "receiptIs u d r st \<Longrightarrow> d \<noteq> [] \<Longrightarrow> withStore (getReceiptByDeliveryId u d) None st = (Inr (Some r), st)"
  by (auto simp: receiptIs_def withStore_def getReceiptByDeliveryId_def ensureOpen_def truthy_def split: option.splits)

lemma receiptIs_step:
  assumes "receiptIs u d r st" "\<not> owns d h"
  shows "receiptIs u d r (snd (handlerStep th dt u h st))"
  using assms
proof (induction th dt u h st rule: handlerStep.induct)
qed (auto simp: step_defs Let_def receiptIs_ops dest!: withStore_eq
       split: prod.splits sum.splits option.splits receiptStatus.splits inboundError.splits)

lemma record_refused:
  assumes "receiptIs u (rr_deliveryId inp) r st"
  shows "withStore (recordReceipt u inp n) y st =
    (Inl (StoreError (if truthy (rr_deliveryId inp) \<and> truthy (rr_messageId inp) then DuplicateDeliveryIdError (rr_deliveryId inp)
       else ReceiptStoreError ''deliveryId and messageId are required'')), st)"
proof -
  obtain s where s: "ib_store st = Some s" "rs_open s" "findReceipt u (rr_deliveryId inp) s = Some r"
    using assms by (auto simp: receiptIs_def split: option.splits)
  then have "hasReceipt u s (rr_deliveryId inp)"
    by (auto simp: hasReceipt_iff findReceipt_def dest!: tbl_get_Some)
  with s show ?thesis by (simp add: withStore_def recordReceipt_guards)
qed

lemma owns_step:
  assumes "receiptIs u d r st" "\<not> owns d h"
  shows "\<not> owns d (fst (handlerStep th dt u h st)) \<and> dispatches d (snd (handlerStep th dt u h st)) = dispatches d st"
proof (cases "\<exists>req newId now. h = Looked req newId now \<and> deliveryOf req = d")
  case True
  then obtain req newId now where h: "h = Looked req newId now" "deliveryOf req = d" by blast
  have "receiptIs u (rr_deliveryId (pendingReceipt req m)) r st" for m
    using assms(1) h(2) by (simp add: pendingReceipt_def)
  from record_refused[OF this] show ?thesis
    unfolding h(1) by (simp add: stepRecord_def split: sum.split)
next
  case False
  with assms(2) show ?thesis
  proof (induction th dt u h st rule: handlerStep.induct)
  qed (auto simp: step_defs Let_def dispatches_def isDispatchOf_def dest!: withStore_eq
         split: prod.splits sum.splits option.splits receiptStatus.splits inboundError.splits)
qed

interpretation settled: invariant_ops "\<lambda>i p. (Inr () :: unit + unit, poolStep th dt u i p)" "settledPool u d r k"
  for th dt u d r k
proof
  fix p :: inboundPool and i
  assume inv: "settledPool u d r k p"
  show "settledPool u d r k (snd (Inr () :: unit + unit, poolStep th dt u i p))"
  proof (cases "i < length (ip_handlers p)")
    case True
    let ?h = "ip_handlers p ! i"
    have h: "receiptIs u d r (ip_state p)" "\<not> owns d ?h" "dispatches d (ip_state p) = k"
      using inv True by (auto simp: settledPool_def list_all_length)
    show ?thesis
      using inv True receiptIs_step[OF h(1,2), of th dt] owns_step[OF h(1,2), of th dt] h(3)
      by (auto simp: settledPool_def poolStep_def list_all_length nth_list_update split: prod.split)
  qed (use inv in \<open>simp add: poolStep_def\<close>)
qed

lemma interleave_settled: "settledPool u d r k p \<Longrightarrow> settledPool u d r k (interleave th dt u schedule p)"
  using settled.run_keeps[of u d r k p th dt schedule] by (simp add: interleave_def)

lemma arriving_settled:
  "receiptIs u d r (ip_state p) \<Longrightarrow> list_all isArriving (ip_handlers p) \<Longrightarrow>
     settledPool u d r (dispatches d (ip_state p)) p"
proof -
  have "\<not> owns d h" if "isArriving h" for h using that by (cases h) auto
  then show "receiptIs u d r (ip_state p) \<Longrightarrow> list_all isArriving (ip_handlers p) \<Longrightarrow> ?thesis"
    by (auto simp: settledPool_def list_all_iff)
qed

section \<open>Retries\<close>

lemma initialReceipt_Inr:
  assumes "initialReceipt u d mid routeId now st = (Inr res, st1)" "ib_store st \<noteq> None" "d \<noteq> []"
  obtains (duplicate) r where "res = Some \<lparr> fo_deliveryId = d, fo_messageId = dr_message r, fo_duplicate = True \<rparr>"
      "receiptIs u d r st1" "dr_status r = ReceiptDelivered"
  | (recorded) r where "res = None" "receiptIs u d r st1" "dr_message r = mid"
proof -
  let ?inp = "\<lparr> rr_deliveryId = d, rr_messageId = mid, rr_routeId = Some routeId, rr_status = Some Pending, rr_error = None \<rparr>"
  obtain s where s: "ib_store st = Some s" using assms(2) by auto
  obtain x s' where rec: "recordReceipt u ?inp now s = (x, s')" by fastforce
  from rec show thesis
  proof (cases rule: recordReceipt_cases)
    case (thrown e)
    with assms(1,3) s rec show thesis
      by (auto simp: initialReceipt_def withStore_def seq_def getReceiptByDeliveryId_def ensureOpen_def truthy_def receiptIs_def
          split: if_splits option.splits intro: duplicate)
  next
    case (recorded y)
    with assms(1) s rec findReceipt_record_new[of u ?inp now s y s'] show thesis
      by (intro that(2)[of "newReceipt u ?inp now s"])
         (auto simp: initialReceipt_def withStore_def receiptIs_def)
  qed
qed

lemma recordSource_Inr:
  "recordSource u req d now st = (Inr x, st1) \<Longrightarrow> receiptIs u d r st \<Longrightarrow> receiptIs u d r st1"
  by (auto simp: recordSource_def seq_def Let_def receiptIs_ops dest!: withStore_eq
      split: option.splits prod.splits sum.splits inboundError.splits)

lemma dispatch_Inr:
  assumes "dispatch th u d sid target mid now st = (Inr res, st1)" "receiptIs u d r st"
  shows "fo_messageId res = mid \<and> receiptIs u d (r\<lparr>dr_status := ReceiptDelivered, dr_error := None, dr_updatedAt := now\<rparr>) st1"
proof -
  obtain s where s: "ib_store st = Some s" "rs_open s" "findReceipt u d s = Some r"
    using assms(2) by (auto simp: receiptIs_def split: option.splits)
  obtain x s' where upd: "updateReceiptStatus u d ReceiptDelivered None now s = (x, s')" by fastforce
  then have "rs_open s'" using open_update[of u d ReceiptDelivered None now s] s(2) by simp
  then show ?thesis
    using assms(1) s upd findReceipt_update_same[of u d ReceiptDelivered None now s _ s' r]
    by (cases x) (auto simp: dispatch_def seq_def withStore_def receiptIs_def Let_def split: option.splits prod.splits sum.splits)
qed

lemma deliver_Inr:
  assumes "deliver th dt u req d sid newId now st = (Inr res, st1)" "ib_store st \<noteq> None" "d \<noteq> []"
  shows "\<exists>r. receiptIs u d r st1 \<and> dr_status r = ReceiptDelivered \<and> dr_message r = fo_messageId res"
proof -
  let ?route = "case fr_source req of None \<Rightarrow> [] | Some src \<Rightarrow> (case is_routeId src of None \<Rightarrow> [] | Some r \<Rightarrow> r)"
  let ?target = "case fr_target req of Some t \<Rightarrow> t | None \<Rightarrow> dt"
  obtain mid dup st2 where steps: "initialReceipt u d mid ?route now st = (Inr dup, st2)"
    "(case dup of Some res \<Rightarrow> (\<lambda>st1. (Inr res, st1))
      | None \<Rightarrow> seq (recordSource u req d now) (\<lambda>_. dispatch th u d sid ?target mid now)) st2 = (Inr res, st1)"
    using assms(1) by (auto simp: deliver_def op_iffs split: if_splits)
  from steps(1) assms(2,3) show ?thesis
  proof (cases rule: initialReceipt_Inr)
    case (duplicate r)
    with steps(2) show ?thesis by auto
  next
    case (recorded r)
    with steps(2) obtain y st3 where "recordSource u req d now st2 = (Inr y, st3)"
      "dispatch th u d sid ?target mid now st3 = (Inr res, st1)"
      by (auto simp: op_iffs)
    with recorded recordSource_Inr dispatch_Inr[of th u d sid ?target mid now st3 res st1 r] show ?thesis
      by (intro exI[of _ "r\<lparr>dr_status := ReceiptDelivered, dr_error := None, dr_updatedAt := now\<rparr>"]) auto
  qed
qed

lemma lookup_same: "snd (withStore (getReceiptByDeliveryId u d) None st) = st"
  by (cases "ib_store st") (simp_all add: snd_withStore)

lemma lookup_Some:
  "withStore (getReceiptByDeliveryId u d) None st = (Inr (Some r), st1) \<Longrightarrow> receiptIs u d r st \<and> st1 = st"
  using lookup_same[of u d st]
  by (auto simp: withStore_def receiptIs_def getReceiptByDeliveryId_def ensureOpen_def split: option.splits if_splits)

lemma followup_Inr:
  assumes "handleFollowup th dt u req newId now st = (Inr res, st1)" "ib_store st \<noteq> None"
  shows "deliveryOf req \<noteq> [] \<and> (\<exists>r. receiptIs u (deliveryOf req) r st1
    \<and> dr_status r = ReceiptDelivered \<and> dr_message r = fo_messageId res)"
proof -
  have d: "deliveryOf req \<noteq> []" and s: "sessionOf req \<noteq> []"
    using assms(1) by (auto simp: handleFollowup_def split: if_splits)
  obtain x st2 where ws: "withStore (getReceiptByDeliveryId u (deliveryOf req)) None st = (x, st2)" by fastforce
  have same: "st2 = st" using lookup_same[of u "deliveryOf req" st] ws by simp
  consider "deliver th dt u req (deliveryOf req) (sessionOf req) newId now st = (Inr res, st1)"
    | r where "x = Inr (Some r)" "dr_status r = ReceiptDelivered" "fo_messageId res = dr_message r" "st1 = st"
    using assms(1) ws same d s
    by (auto simp: handleFollowup_def seq_def Let_def split: sum.splits option.splits receiptStatus.splits)
  then show ?thesis
  proof cases
    case 1
    with deliver_Inr[OF 1 assms(2) d] d show ?thesis by blast
  next
    case (2 r)
    with lookup_Some[of u "deliveryOf req" st r st2] ws d show ?thesis by auto
  qed
qed

lemma followup_known:
  assumes "receiptIs u (deliveryOf req) r st" "deliveryOf req \<noteq> []" "sessionOf req \<noteq> []"
  shows "handleFollowup th dt u req newId now st =
    (case dr_status r of
       ReceiptDelivered \<Rightarrow> (Inr (duplicateOf req r), st)
     | ReceiptFailed \<Rightarrow> (Inl (PreviousDeliveryFailedError (deliveryOf req) (dr_error r)), st)
     | Pending \<Rightarrow> deliver th dt u req (deliveryOf req) (sessionOf req) newId now st)"
  using assms receiptIs_lookup[OF assms(1,2)]
  by (simp add: handleFollowup_def duplicateOf_def seq_def split: receiptStatus.split)

text \<open>
  Once a followup has succeeded, a retry of the same delivery, after any interleaving of other
  requests, answers with the identifier of the first message, marked as a duplicate, and changes
  nothing; in between the delivery is handed to no agent.
\<close>

theorem inbound_retry_duplicate:
  assumes "handleFollowup th dt u req newId now st = (Inr res, ip_state p)" "ib_store st \<noteq> None"
    "list_all isArriving (ip_handlers p)" "deliveryOf req' = deliveryOf req" "sessionOf req' \<noteq> []"
  shows "let st' = ip_state (interleave th dt u schedule p) in
    handleFollowup th dt u req' newId' now' st' =
      (Inr \<lparr> fo_deliveryId = deliveryOf req, fo_messageId = fo_messageId res, fo_duplicate = True \<rparr>, st')
    \<and> dispatches (deliveryOf req) st' = dispatches (deliveryOf req) (ip_state p)"
proof -
  obtain r where d: "deliveryOf req \<noteq> []" and r: "receiptIs u (deliveryOf req) r (ip_state p)"
    "dr_status r = ReceiptDelivered" "dr_message r = fo_messageId res"
    using followup_Inr[OF assms(1,2)] by blast
  have "settledPool u (deliveryOf req) r (dispatches (deliveryOf req) (ip_state p)) (interleave th dt u schedule p)"
    by (rule interleave_settled[OF arriving_settled[OF r(1) assms(3)]])
  then show ?thesis
    using followup_known[of u req' r "ip_state (interleave th dt u schedule p)" th dt newId' now'] assms(4,5) d r(2,3)
    by (simp add: settledPool_def duplicateOf_def Let_def)
qed

theorem inbound_retry_duplicate_witness:
  "fst (handleFollowup (\<lambda>_. None) Followup ''u'' sampleRequest ''m3'' ''t3''
      (ip_state (interleave (\<lambda>_. None) Followup ''u'' [0, 0] deliveredPool)))
   = Inr \<lparr> fo_deliveryId = ''d1'', fo_messageId = ''m1'', fo_duplicate = True \<rparr>"
proof -
  have "handleFollowup (\<lambda>_. None) Followup ''u'' sampleRequest ''m1'' ''t1'' (ip_state samplePool)
      = (Inr \<lparr> fo_deliveryId = ''d1'', fo_messageId = ''m1'', fo_duplicate = False \<rparr>, ip_state deliveredPool)"
    by (simp add: deliveredPool_def prod_eq_iff) code_simp
  moreover have "ib_store (ip_state samplePool) \<noteq> None" "list_all isArriving (ip_handlers deliveredPool)"
    "sessionOf sampleRequest \<noteq> []" "deliveryOf sampleRequest = ''d1''"
    by code_simp+
  ultimately show ?thesis
    using inbound_retry_duplicate[of "\<lambda>_. None" Followup "''u''" sampleRequest "''m1''" "''t1''" "ip_state samplePool" _
        deliveredPool sampleRequest "[0, 0]" "''m3''" "''t3''"]
    by (simp add: Let_def)
qed

text \<open>
  A receipt that was left pending, with no handler in flight for it, stays pending whatever
  other requests do: every later followup of that delivery that passes the checks is refused with
  \<open>DuplicateDeliveryIdError\<close>, and the delivery never reaches an agent.
\<close>

theorem inbound_pending_stuck:
  assumes "receiptIs u (deliveryOf req) r (ip_state p)" "dr_status r = Pending" "list_all isArriving (ip_handlers p)"
    "deliveryOf req \<noteq> []" "sessionOf req \<noteq> []" "sessionOf req \<in> set (ib_agents (ip_state (interleave th dt u schedule p)))"
    "buildUserMessage (fr_message req) newId = Inr mid" "mid \<noteq> []"
  shows "let st' = ip_state (interleave th dt u schedule p) in
    handleFollowup th dt u req newId now st' = (Inl (StoreError (DuplicateDeliveryIdError (deliveryOf req))), st')
    \<and> dispatches (deliveryOf req) st' = dispatches (deliveryOf req) (ip_state p)"
proof -
  let ?st = "ip_state (interleave th dt u schedule p)"
  have s: "receiptIs u (deliveryOf req) r ?st" "dispatches (deliveryOf req) ?st = dispatches (deliveryOf req) (ip_state p)"
    using interleave_settled[OF arriving_settled[OF assms(1,3)]] by (simp_all add: settledPool_def)
  have "receiptIs u (rr_deliveryId (pendingReceipt req mid)) r ?st" using s(1) by (simp add: pendingReceipt_def)
  from record_refused[OF this] have
    "withStore (recordReceipt u (pendingReceipt req mid) now) None ?st = (Inl (StoreError (DuplicateDeliveryIdError (deliveryOf req))), ?st)"
    using assms(4,8) by (simp add: pendingReceipt_def truthy_def)
  then have "deliver th dt u req (deliveryOf req) (sessionOf req) newId now ?st
      = (Inl (StoreError (DuplicateDeliveryIdError (deliveryOf req))), ?st)"
    using assms(2,6,7) receiptIs_lookup[OF s(1) assms(4)]
    by (simp add: deliver_def initialReceipt_def pendingReceipt_def seq_def)
  then show ?thesis
    using followup_known[OF s(1) assms(4,5), of th dt newId now] assms(2) s(2) by (simp add: Let_def)
qed

theorem inbound_pending_stuck_witness:
  "fst (handleFollowup (\<lambda>_. None) Followup ''u'' sampleRequest ''m3'' ''t3''
      (ip_state (interleave (\<lambda>_. None) Followup ''u'' [0, 0, 0] crashedPool)))
   = Inl (StoreError (DuplicateDeliveryIdError ''d1''))"
proof -
  have "receiptIs ''u'' (deliveryOf sampleRequest) crashedReceipt (ip_state crashedPool)"
    "dr_status crashedReceipt = Pending" "list_all isArriving (ip_handlers crashedPool)"
    "deliveryOf sampleRequest = ''d1''" "sessionOf sampleRequest \<noteq> []"
    "sessionOf sampleRequest \<in> set (ib_agents (ip_state (interleave (\<lambda>_. None) Followup ''u'' [0, 0, 0] crashedPool)))"
    "buildUserMessage (fr_message sampleRequest) ''m3'' = Inr ''m3''"
    by code_simp+
  then show ?thesis
    using inbound_pending_stuck[of "''u''" sampleRequest crashedReceipt crashedPool "\<lambda>_. None" Followup "[0, 0, 0]" "''m3''" "''m3''" "''t3''"]
    by (simp add: Let_def)
qed

end
