(* ===== verification/Iso_Time.thy ===== *)
theory Iso_Time
  imports Calendar Decimal "HOL-Library.Char_ord" "HOL-Library.List_Lexorder"
begin

text \<open>
  \<open>Date.prototype.toISOString\<close> and its inverse. The tables of the platform hold instants as these
  strings and SQL compares them as text; the theories of the repositories keep the instants
  themselves. Here it is proved that nothing is lost: for years of four digits the string
  determines the instant, and the order of the strings is the order of the instants.
\<close>

section \<open>The format\<close>

fun fixedDigits :: "nat \<Rightarrow> int \<Rightarrow> string" where
  "fixedDigits 0 n = []"
| "fixedDigits (Suc w) n = fixedDigits w (n div 10) @ [digit_char (nat (n mod 10))]"

text \<open>Fields of fixed width, each followed by its separator.\<close>

fun renderFields :: "(nat \<times> string) list \<Rightarrow> int list \<Rightarrow> string" where
  "renderFields ((w, sep) # ps) (n # ns) = fixedDigits w n @ sep @ renderFields ps ns"
| "renderFields _ _ = []"

definition isoLayout :: "(nat \<times> string) list" where
  "isoLayout = [(2, ''-''), (2, ''T''), (2, '':''), (2, '':''), (2, ''.''), (3, ''Z'')]"

definition isoFields :: "instant \<Rightarrow> int list" where
  "isoFields t = [getUTCFullYear t, getUTCMonth t + 1, getUTCDate t, getUTCHours t, getUTCMinutes t,
     getUTCSeconds t, getUTCMilliseconds t]"

definition fourDigitYear :: "instant \<Rightarrow> bool" where
  "fourDigitYear t \<longleftrightarrow> 0 \<le> getUTCFullYear t \<and> getUTCFullYear t \<le> 9999"

text \<open>A year outside 0 to 9999 is written with a sign and six digits.\<close>

definition toISOString :: "instant \<Rightarrow> string" where
  "toISOString t =
     (let y = getUTCFullYear t; rest = renderFields isoLayout (tl (isoFields t)) in
      if fourDigitYear t then fixedDigits 4 y @ ''-'' @ rest
      else (if y < 0 then CHR ''-'' else CHR ''+'') # fixedDigits 6 \<bar>y\<bar> @ ''-'' @ rest)"

section \<open>Reading it back\<close>

definition fieldAt :: "nat \<Rightarrow> nat \<Rightarrow> string \<Rightarrow> int" where
  "fieldAt i w s = int (digits_value (take w (drop i s)))"

definition instantOf :: "int \<Rightarrow> int \<Rightarrow> int \<Rightarrow> int \<Rightarrow> int \<Rightarrow> int \<Rightarrow> int \<Rightarrow> instant" where
  "instantOf y m d h mi s ms =
     (dayFromYear y + monthStart y (m - 1) + d - 1) * msPerDay + h * 3600000 + mi * 60000 + s * 1000 + ms"

text \<open>
  \<open>new Date(s)\<close> for a string in the format \<open>toISOString\<close> writes: the year from the front, the
  other fields from the end.
\<close>

definition readYear :: "string \<Rightarrow> int" where
  "readYear s =
     (case s of
        [] \<Rightarrow> 0
      | c # _ \<Rightarrow> if c = CHR ''-'' then - fieldAt 1 6 s
                 else if c = CHR ''+'' then fieldAt 1 6 s else fieldAt 0 4 s)"

definition readIso :: "string \<Rightarrow> instant" where
  "readIso s =
     (let n = length s - 20 in
      instantOf (readYear s) (fieldAt (n + 1) 2 s) (fieldAt (n + 4) 2 s) (fieldAt (n + 7) 2 s)
        (fieldAt (n + 10) 2 s) (fieldAt (n + 13) 2 s) (fieldAt (n + 16) 3 s))"

section \<open>Fixed-width numbers\<close>

lemma length_fixedDigits [simp]: "length (fixedDigits w n) = w"
  by (induction w arbitrary: n) simp_all

lemma fixedDigits_value:
  "0 \<le> n \<Longrightarrow> n < 10 ^ w \<Longrightarrow> int (digits_value (fixedDigits w n)) = n"
proof (induction w arbitrary: n)
  case 0
  then show ?case by (simp add: digits_value_def)
next
  case (Suc w)
  have "nat (n mod 10) < 10" by simp
  then have "digit_value (digit_char (nat (n mod 10))) = nat (n mod 10)" by (rule digit_char_facts)
  moreover have "n div 10 < 10 ^ w" using Suc.prems by (simp add: div_less_iff_less_mult)
  ultimately show ?case using Suc.IH[of "n div 10"] Suc.prems
    by (simp add: digits_value_snoc del: digit_char.simps)
qed

lemma append_less_iff:
  "length a = length c \<Longrightarrow> a @ b < c @ d \<longleftrightarrow> a < c \<or> (a = c \<and> b < (d :: 'a :: linorder list))"
proof (induction a arbitrary: c)
  case (Cons x a)
  then show ?case by (cases c) auto
qed simp

lemma digit_char_less: "i < 10 \<Longrightarrow> j < 10 \<Longrightarrow> digit_char i < digit_char j \<longleftrightarrow> i < j"
  by (simp add: less_char_def of_char_digit del: digit_char.simps)

lemma fixedDigits_less:
  "0 \<le> n \<Longrightarrow> n < m \<Longrightarrow> m < 10 ^ w \<Longrightarrow> fixedDigits w n < fixedDigits w m"
proof (induction w arbitrary: n m)
  case (Suc w)
  have b: "m div 10 < 10 ^ w" using Suc.prems by (simp add: div_less_iff_less_mult)
  show ?case
  proof (cases "n div 10 = m div 10")
    case True
    with \<open>n < m\<close> have "n mod 10 < m mod 10" using mult_div_mod_eq[of 10 n] mult_div_mod_eq[of 10 m] by linarith
    then have "digit_char (nat (n mod 10)) < digit_char (nat (m mod 10))"
      by (subst digit_char_less) (simp_all del: digit_char.simps)
    with True show ?thesis by (simp add: append_less_iff del: digit_char.simps)
  next
    case False
    with \<open>n < m\<close> have "n div 10 < m div 10" using zdiv_mono1[of n m 10] by linarith
    with Suc.IH[of "n div 10" "m div 10"] Suc.prems(1) b show ?thesis by (simp add: append_less_iff)
  qed
qed simp

text \<open>Fields that fit their widths are ordered as their values are.\<close>

fun fieldsFit :: "(nat \<times> string) list \<Rightarrow> int list \<Rightarrow> bool" where
  "fieldsFit ((w, sep) # ps) (n # ns) = (0 \<le> n \<and> n < 10 ^ w \<and> fieldsFit ps ns)"
| "fieldsFit [] [] = True"
| "fieldsFit _ _ = False"

lemma renderFields_less:
  "fieldsFit ps xs \<Longrightarrow> fieldsFit ps ys \<Longrightarrow> xs < ys \<Longrightarrow> renderFields ps xs < renderFields ps ys"
proof (induction ps xs arbitrary: ys rule: fieldsFit.induct)
  case (1 w sep ps n ns)
  then obtain m ms where ys: "ys = m # ms" by (cases ys) auto
  with 1 show ?case by (auto simp: append_less_iff fixedDigits_less)
qed (auto, case_tac ys, auto)

section \<open>The fields of an instant\<close>

lemma time_fields_range:
  "0 \<le> getUTCHours t" "getUTCHours t \<le> 23" "0 \<le> getUTCMinutes t" "getUTCMinutes t \<le> 59"
  "0 \<le> getUTCSeconds t" "getUTCSeconds t \<le> 59" "0 \<le> getUTCMilliseconds t" "getUTCMilliseconds t \<le> 999"
  using pos_mod_bound[of 24 "t div 3600000"] pos_mod_bound[of 60 "t div 60000"] pos_mod_bound[of 60 "t div 1000"]
    pos_mod_bound[of 1000 t]
  by (simp_all add: getUTCHours_def getUTCMinutes_def getUTCSeconds_def getUTCMilliseconds_def)

lemma instantOf_fields:
  "instantOf (getUTCFullYear t) (getUTCMonth t + 1) (getUTCDate t) (getUTCHours t) (getUTCMinutes t)
     (getUTCSeconds t) (getUTCMilliseconds t) = t"
  using time_of_day[of t] by (simp add: instantOf_def day_decompose[of t])

lemma isoFields_fit: "fourDigitYear t \<Longrightarrow> fieldsFit ((4, ''-'') # isoLayout) (isoFields t)"
  using time_fields_range[of t] getUTCMonth_bounds[of t] getUTCDate_bounds[of t]
    daysInMonth_range[of "getUTCFullYear t" "getUTCMonth t"]
  by (simp add: isoFields_def isoLayout_def fourDigitYear_def)

lemma toISOString_render: "fourDigitYear t \<Longrightarrow> toISOString t = renderFields ((4, ''-'') # isoLayout) (isoFields t)"
  by (simp add: toISOString_def isoFields_def Let_def)

lemma monthStart_mono: "m < m' \<Longrightarrow> 0 \<le> m \<Longrightarrow> m' \<le> 11 \<Longrightarrow> monthStart y m + daysInMonth y m \<le> monthStart y m'"
proof (induction m' rule: int_gr_induct)
  case base
  then show ?case using monthStart_next[of m y] by simp
next
  case (step i)
  then have "monthStart y m + daysInMonth y m \<le> monthStart y i" by simp
  also have "\<dots> \<le> monthStart y (i + 1)"
    using monthStart_next[of i y] daysInMonth_range[of y i] step by linarith
  finally show ?case .
qed

lemma clock_less:
  fixes h mi sec ms h' mi' sec' ms' :: int
  assumes "0 \<le> mi'" "mi \<le> 59" "0 \<le> sec'" "sec \<le> 59" "0 \<le> ms'" "ms \<le> 999"
    and "[h, mi, sec, ms] < [h', mi', sec', ms']"
  shows "h * 3600000 + mi * 60000 + sec * 1000 + ms < h' * 3600000 + mi' * 60000 + sec' * 1000 + ms'"
proof -
  consider "h < h'" | "h = h'" "mi < mi'" | "h = h'" "mi = mi'" "sec < sec'"
    | "h = h'" "mi = mi'" "sec = sec'" "ms < ms'"
    using assms(7) by auto
  then show ?thesis
    using assms(1-6) by cases linarith+
qed

text \<open>The later of two different fields decides.\<close>

lemma isoFields_less:
  assumes "isoFields t < isoFields t'"
  shows "t < t'"
proof -
  have d: "t div msPerDay < t' div msPerDay" if "getUTCFullYear t < getUTCFullYear t'"
    using yearFromDay_bounds[of "t div msPerDay"] yearFromDay_bounds[of "t' div msPerDay"]
      dayFromYear_mono[of "getUTCFullYear t + 1" "getUTCFullYear t'"] that
    by (simp add: getUTCFullYear_def)
  have m: "t div msPerDay < t' div msPerDay"
    if "getUTCFullYear t = getUTCFullYear t'" "getUTCMonth t < getUTCMonth t'"
    using monthStart_mono[of "getUTCMonth t" "getUTCMonth t'" "getUTCFullYear t"] getUTCMonth_bounds[of t]
      getUTCMonth_bounds[of t'] getUTCDate_bounds[of t] getUTCDate_bounds[of t'] day_decompose[of t] day_decompose[of t'] that
    by simp
  have day: "t < t'" if "t div msPerDay < t' div msPerDay"
    using that zdiv_mono1[of t' t msPerDay] by (force simp: msPerDay_def not_less[symmetric])
  have "t div msPerDay < t' div msPerDay \<or>
      (t div msPerDay = t' div msPerDay \<and>
       [getUTCHours t, getUTCMinutes t, getUTCSeconds t, getUTCMilliseconds t]
         < [getUTCHours t', getUTCMinutes t', getUTCSeconds t', getUTCMilliseconds t'])"
    using assms d m day_decompose[of t] day_decompose[of t'] by (auto simp: isoFields_def)
  then show ?thesis
  proof
    assume "t div msPerDay = t' div msPerDay \<and>
       [getUTCHours t, getUTCMinutes t, getUTCSeconds t, getUTCMilliseconds t]
         < [getUTCHours t', getUTCMinutes t', getUTCSeconds t', getUTCMilliseconds t']"
    then have "getUTCHours t * 3600000 + getUTCMinutes t * 60000 + getUTCSeconds t * 1000 + getUTCMilliseconds t
      < getUTCHours t' * 3600000 + getUTCMinutes t' * 60000 + getUTCSeconds t' * 1000 + getUTCMilliseconds t'"
      and same: "t div msPerDay = t' div msPerDay"
      by (blast intro: clock_less time_fields_range)+
    then have "t div msPerDay * msPerDay + getUTCHours t * 3600000 + getUTCMinutes t * 60000
        + getUTCSeconds t * 1000 + getUTCMilliseconds t
      < t' div msPerDay * msPerDay + getUTCHours t' * 3600000 + getUTCMinutes t' * 60000
        + getUTCSeconds t' * 1000 + getUTCMilliseconds t'"
      by (simp only: same add.assoc add_less_cancel_left)
    then show ?thesis
      by (simp only: time_of_day[symmetric])
  qed (rule day)
qed

lemma isoFields_inj: "isoFields t = isoFields t' \<Longrightarrow> t = t'"
proof -
  assume eq: "isoFields t = isoFields t'"
  have "t = instantOf (getUTCFullYear t) (getUTCMonth t + 1) (getUTCDate t) (getUTCHours t) (getUTCMinutes t)
     (getUTCSeconds t) (getUTCMilliseconds t)"
    by (rule instantOf_fields[symmetric])
  also have "\<dots> = instantOf (getUTCFullYear t') (getUTCMonth t' + 1) (getUTCDate t') (getUTCHours t') (getUTCMinutes t')
     (getUTCSeconds t') (getUTCMilliseconds t')"
    using eq unfolding isoFields_def by simp
  also have "\<dots> = t'" by (rule instantOf_fields)
  finally show "t = t'" .
qed

lemma iso_less:
  assumes "fourDigitYear t" "fourDigitYear t'"
  shows "toISOString t < toISOString t' \<longleftrightarrow> t < t'"
proof -
  have less: "a < b \<and> toISOString a < toISOString b" if "isoFields a < isoFields b" "fourDigitYear a" "fourDigitYear b" for a b
    using renderFields_less[OF isoFields_fit isoFields_fit, of a b] isoFields_less[of a b] that
    by (simp add: toISOString_render)
  consider "isoFields t < isoFields t'" | "isoFields t' < isoFields t" | "t = t'"
    using isoFields_inj by (metis not_less_iff_gr_or_eq)
  then show ?thesis
    using less[of t t'] less[of t' t] assms by cases auto
qed

lemma iso_inj: "fourDigitYear t \<Longrightarrow> fourDigitYear t' \<Longrightarrow> toISOString t = toISOString t' \<longleftrightarrow> t = t'"
  using iso_less[of t t'] iso_less[of t' t] by (metis less_irrefl not_less_iff_gr_or_eq)

section \<open>The round trip\<close>

text \<open>Time values are at most 8.64e15 milliseconds from the epoch: six digits hold their years.\<close>

definition validTime :: "instant \<Rightarrow> bool" where
  "validTime t \<longleftrightarrow> \<bar>t\<bar> \<le> 8640000000000000"

lemma validTime_year: "validTime t \<Longrightarrow> \<bar>getUTCFullYear t\<bar> < 1000000"
proof -
  assume v: "validTime t"
  have d: "-100000000 \<le> t div msPerDay" "t div msPerDay \<le> 100000000"
    using v zdiv_mono1[of "-8640000000000000" t msPerDay] zdiv_mono1[of t 8640000000000000 msPerDay]
    by (simp_all add: validTime_def msPerDay_def)
  have up: "getUTCFullYear t < 1000000"
  proof (rule ccontr)
    assume "\<not> ?thesis"
    then have "dayFromYear 1000000 \<le> t div msPerDay"
      using dayFromYear_mono[of 1000000 "getUTCFullYear t"] yearFromDay_bounds[of "t div msPerDay"]
      by (simp add: getUTCFullYear_def)
    with d(2) show False by (simp add: dayFromYear_def)
  qed
  have "- 1000000 < getUTCFullYear t"
  proof (rule ccontr)
    assume "\<not> ?thesis"
    then have "t div msPerDay < dayFromYear (- 999999)"
      using dayFromYear_mono[of "getUTCFullYear t + 1" "- 999999"] yearFromDay_bounds[of "t div msPerDay"]
      by (simp add: getUTCFullYear_def)
    with d(1) show False by (simp add: dayFromYear_def)
  qed
  with up show ?thesis by simp
qed

text \<open>The front of the string is the year; the rest has a fixed length.\<close>

definition isoYear :: "instant \<Rightarrow> string" where
  "isoYear t = (let y = getUTCFullYear t in
     if fourDigitYear t then fixedDigits 4 y
     else (if y < 0 then CHR ''-'' else CHR ''+'') # fixedDigits 6 \<bar>y\<bar>)"

lemma toISOString_year: "toISOString t = isoYear t @ ''-'' @ renderFields isoLayout (tl (isoFields t))"
  by (simp add: toISOString_def isoYear_def Let_def)

lemma fixedDigits_hd: "\<exists>c cs. fixedDigits (Suc w) n = c # cs \<and> is_digit c"
proof (induction w arbitrary: n)
  case 0
  have "nat (n mod 10) < 10" by simp
  then show ?case by (simp add: digit_char_facts del: digit_char.simps)
next
  case (Suc w)
  from Suc[of "n div 10"] show ?case
    by (subst fixedDigits.simps) (auto simp del: digit_char.simps fixedDigits.simps)
qed

lemma is_digit_no_sign: "is_digit c \<Longrightarrow> c \<noteq> CHR ''-'' \<and> c \<noteq> CHR ''+'' \<and> c \<noteq> CHR ''Z'' \<and> \<not> is_space c"
  by (auto simp: is_digit_def is_space_def)

lemma readIso_parts:
  "readIso (p @ ''-'' @ fixedDigits 2 m @ ''-'' @ fixedDigits 2 d @ ''T'' @ fixedDigits 2 h @ '':''
     @ fixedDigits 2 mi @ '':'' @ fixedDigits 2 sec @ ''.'' @ fixedDigits 3 ms @ ''Z'') =
   (let v = (\<lambda>w n. int (digits_value (fixedDigits w n))) in
    instantOf (readYear (p @ ''-'' @ fixedDigits 2 m @ ''-'' @ fixedDigits 2 d @ ''T'' @ fixedDigits 2 h @ '':''
     @ fixedDigits 2 mi @ '':'' @ fixedDigits 2 sec @ ''.'' @ fixedDigits 3 ms @ ''Z''))
      (v 2 m) (v 2 d) (v 2 h) (v 2 mi) (v 2 sec) (v 3 ms))"
  by (simp add: readIso_def fieldAt_def Let_def)

lemma readYear_isoYear: "validTime t \<Longrightarrow> readYear (isoYear t @ rest) = getUTCFullYear t"
proof -
  assume "validTime t"
  then have "\<bar>getUTCFullYear t\<bar> < 10 ^ 6" using validTime_year by simp
  then have six: "int (digits_value (fixedDigits 6 \<bar>getUTCFullYear t\<bar>)) = \<bar>getUTCFullYear t\<bar>"
    by (intro fixedDigits_value) simp_all
  show ?thesis
  proof (cases "fourDigitYear t")
    case True
    then have four: "int (digits_value (fixedDigits 4 (getUTCFullYear t))) = getUTCFullYear t"
      by (intro fixedDigits_value) (simp_all add: fourDigitYear_def)
    obtain c cs where c: "fixedDigits 4 (getUTCFullYear t) = c # cs" "is_digit c"
      using fixedDigits_hd[of 3 "getUTCFullYear t"] by (auto simp: numeral_eq_Suc simp del: fixedDigits.simps)
    have "length cs = 3" using length_fixedDigits[of 4 "getUTCFullYear t"] c(1) by simp
    with True four c is_digit_no_sign[OF c(2)] show ?thesis
      by (simp add: readYear_def isoYear_def fieldAt_def)
  next
    case False
    then show ?thesis
      using six by (auto simp: readYear_def isoYear_def fieldAt_def fourDigitYear_def Let_def)
  qed
qed

lemma isoFields_rest_fit: "fieldsFit isoLayout (tl (isoFields t))"
  using time_fields_range[of t] getUTCMonth_bounds[of t] getUTCDate_bounds[of t]
    daysInMonth_range[of "getUTCFullYear t" "getUTCMonth t"]
  by (simp add: isoFields_def isoLayout_def)

lemma readIso_toISOString: "validTime t \<Longrightarrow> readIso (toISOString t) = t"
proof -
  assume v: "validTime t"
  let ?rest = "''-'' @ renderFields isoLayout (tl (isoFields t))"
  have "readIso (isoYear t @ ?rest) =
      instantOf (readYear (isoYear t @ ?rest)) (getUTCMonth t + 1) (getUTCDate t) (getUTCHours t) (getUTCMinutes t)
        (getUTCSeconds t) (getUTCMilliseconds t)"
    using readIso_parts[of "isoYear t" "getUTCMonth t + 1" "getUTCDate t" "getUTCHours t" "getUTCMinutes t"
        "getUTCSeconds t" "getUTCMilliseconds t"] isoFields_rest_fit[of t]
    by (simp add: isoLayout_def isoFields_def fixedDigits_value Let_def)
  then show ?thesis
    by (simp only: toISOString_year readYear_isoYear[OF v] instantOf_fields)
qed

text \<open>The string has no white space at its ends.\<close>

lemma toISOString_ends: "toISOString t \<noteq> [] \<and> \<not> is_space (hd (toISOString t)) \<and> \<not> is_space (last (toISOString t))"
proof -
  have "\<exists>c cs. isoYear t = c # cs \<and> \<not> is_space c"
    using fixedDigits_hd[of 3 "getUTCFullYear t"] is_digit_no_sign
    by (auto simp: isoYear_def Let_def is_space_def numeral_eq_Suc simp del: fixedDigits.simps)
  moreover have "\<exists>xs. renderFields isoLayout (tl (isoFields t)) = xs @ ''Z''"
    by (simp add: isoLayout_def isoFields_def)
  ultimately show ?thesis by (auto simp: toISOString_year is_space_def)
qed

lemma js_trim_toISOString [simp]: "js_trim (toISOString t) = toISOString t"
  using toISOString_ends[of t] by (simp add: js_trim_no_space)

text \<open>A year beyond 9999 sorts, as text, before every year of four digits.\<close>

lemma iso_extended_less:
  assumes "9999 < getUTCFullYear t" "fourDigitYear t'"
  shows "toISOString t < toISOString t'"
proof -
  obtain c cs where "fixedDigits 4 (getUTCFullYear t') = c # cs" "is_digit c"
    using fixedDigits_hd[of 3 "getUTCFullYear t'"] by (auto simp: numeral_eq_Suc simp del: fixedDigits.simps)
  moreover have "CHR ''+'' < c" using \<open>is_digit c\<close> by (auto simp: is_digit_def less_char_def)
  ultimately show ?thesis
    using assms by (simp add: toISOString_year isoYear_def fourDigitYear_def Let_def)
qed

end
