(* ===== verification/Task_Types.thy ===== *)
theory Task_Types
  imports Iso_Time
begin

text \<open>
  The vocabulary of scheduled tasks (\<open>platform-operations/src/types/task.ts\<close>,
  \<open>platform-operations/src/errors/index.ts\<close>): statuses, priorities, identifiers and their
  validators, and the instants of the task tables. The messages of exceptions are kept without the
  values the source interpolates into them.
\<close>

section \<open>Data\<close>

datatype taskStatus = Pending | Claimed | Running | Completed | Failed | Cancelled

datatype taskPriority = Low | Medium | High | Urgent

fun priority_name :: "taskPriority \<Rightarrow> string" where
  "priority_name Low = ''low''"
| "priority_name Medium = ''medium''"
| "priority_name High = ''high''"
| "priority_name Urgent = ''urgent''"

definition TASK_PRIORITIES :: "taskPriority list" where
  "TASK_PRIORITIES = [Low, Medium, High, Urgent]"

datatype taskScheduleType = Once | Cron | Interval

datatype misfirePolicy = Coalesce | SkipMisfire

datatype overlapPolicy = SkipOverlap

datatype taskRunStatus =
    RunPending | RunClaimed | RunRunning | RunCompleted | RunFailed | RunCancelled | RunTimeout
  | RunAborted | RunLeaseLost

datatype taskError =
    ValidationError string
  | TaskNotFound string
  | TaskAlreadyClaimed string string
  | TaskAlreadyCompleted string
  | TaskLeaseExpired string
  | TaskConflict string string
  | PlatformOperationsError string string
  | ConstraintError
  | OtherError string

section \<open>Text limits\<close>

definition MAX_PROMPT_BYTES :: nat where
  "MAX_PROMPT_BYTES = 65536"

definition TASK_LEASE_EXPIRED :: string where
  "TASK_LEASE_EXPIRED = ''TASK_LEASE_EXPIRED''"

definition TASK_EXECUTION_FAILED :: string where
  "TASK_EXECUTION_FAILED = ''TASK_EXECUTION_FAILED''"

definition TASK_CANCELLED :: string where
  "TASK_CANCELLED = ''TASK_CANCELLED''"

text \<open>
  \<open>MAX_TASK_TIMEOUT_MS\<close>: the first of three environment variables that is set and not empty, when
  it reads as a positive safe integer, else an hour.
\<close>

definition MAX_TASK_TIMEOUT_MS :: "string option list \<Rightarrow> int" where
  "MAX_TASK_TIMEOUT_MS vars =
     (case find opt_truthy vars of
        Some (Some v) \<Rightarrow>
          (case parseInt v of
             Some n \<Rightarrow> if \<bar>n\<bar> \<le> MAX_SAFE_INTEGER \<and> n > 0 then n else 3600000
           | None \<Rightarrow> 3600000)
      | _ \<Rightarrow> 3600000)"

section \<open>Identifiers\<close>

text \<open>A string that reads as the given segments of hexadecimal digits, joined by dashes.\<close>

definition uuid_like :: "string \<Rightarrow> bool" where
  "uuid_like s \<longleftrightarrow> map length (split_on (CHR ''-'') s) = [8, 4, 4, 4, 12] \<and>
     list_all (list_all is_lower_hex) (split_on (CHR ''-'') s)"

definition TASK_ID_REGEX :: "string \<Rightarrow> bool" where
  "TASK_ID_REGEX s \<longleftrightarrow> hex_id ''task_'' 32 s \<or> hex_id ''task_hpc_'' 24 s"

definition SESSION_ID_REGEX :: "string \<Rightarrow> bool" where
  "SESSION_ID_REGEX s \<longleftrightarrow> hex_id ''ses_'' 32 s \<or> hex_id ''import-'' 32 s"

definition SPACE_ID_REGEX :: "string \<Rightarrow> bool" where
  "SPACE_ID_REGEX s \<longleftrightarrow> hex_id ''spc_'' 32 s \<or> hex_id ''impsp_'' 64 s \<or> uuid_like s"

definition IDEMPOTENCY_KEY_REGEX :: "string \<Rightarrow> bool" where
  "IDEMPOTENCY_KEY_REGEX s \<longleftrightarrow> uuid_like s \<and> s ! 14 = CHR ''4'' \<and> s ! 19 \<in> set ''89ab''"

text \<open>A validator of strings by a predicate.\<close>

definition stringWith :: "(string \<Rightarrow> bool) \<Rightarrow> string \<Rightarrow> jsval \<Rightarrow> taskError + string" where
  "stringWith P msg v =
     (case v of JString s \<Rightarrow> if P s then Inr s else Inl (ValidationError msg) | _ \<Rightarrow> Inl (ValidationError msg))"

definition validateTaskId :: "jsval \<Rightarrow> taskError + string" where
  "validateTaskId = stringWith TASK_ID_REGEX ''Invalid task ID format''"

definition validateScheduleId :: "jsval \<Rightarrow> taskError + string" where
  "validateScheduleId = stringWith (hex_id ''sched_'' 32) ''Invalid schedule ID format''"

definition validateRunId :: "jsval \<Rightarrow> taskError + string" where
  "validateRunId = stringWith (hex_id ''run_'' 32) ''Invalid run ID format''"

definition validateTurnId :: "jsval \<Rightarrow> taskError + string" where
  "validateTurnId = stringWith (hex_id ''turn_'' 32) ''Invalid turn ID format''"

definition validateMessageId :: "jsval \<Rightarrow> taskError + string" where
  "validateMessageId = stringWith (hex_id ''msg_'' 32) ''Invalid message ID format''"

definition validateSessionId :: "jsval \<Rightarrow> taskError + string" where
  "validateSessionId = stringWith SESSION_ID_REGEX ''Invalid session ID format''"

definition validateSpaceId :: "jsval \<Rightarrow> taskError + string" where
  "validateSpaceId = stringWith SPACE_ID_REGEX ''Invalid space ID format''"

definition validateIdempotencyKey :: "jsval \<Rightarrow> taskError + string" where
  "validateIdempotencyKey = stringWith IDEMPOTENCY_KEY_REGEX ''Invalid idempotency key format''"

definition validateClaimantId :: "jsval \<Rightarrow> taskError + string" where
  "validateClaimantId =
     stringWith (\<lambda>s. s \<noteq> [] \<and> s = js_trim s \<and> utf8Length s \<le> 256) ''Invalid claimant ID format''"

text \<open>
  \<open>new Date(s)\<close> followed by \<open>toISOString\<close> gives back \<open>s\<close> for the strings \<open>toISOString\<close> writes and for
  no other.
\<close>

definition canonicalIso :: "string \<Rightarrow> bool" where
  "canonicalIso s \<longleftrightarrow> toISOString (readIso s) = s \<and> validTime (readIso s)"

definition validateCanonicalDueDate :: "jsval \<Rightarrow> taskError + string" where
  "validateCanonicalDueDate =
     stringWith (\<lambda>s. s \<noteq> [] \<and> s = js_trim s \<and> canonicalIso s) ''Invalid due date format''"

definition validateTaskTitle :: "jsval \<Rightarrow> taskError + string" where
  "validateTaskTitle v =
     andThen (stringWith (\<lambda>s. s \<noteq> [] \<and> s = js_trim s) ''Invalid task title'' v)
       (\<lambda>s. if utf8Length s > 256 then Inl (ValidationError ''Task title exceeds maximum allowed bytes'') else Inr s)"

definition validateTaskPriority :: "jsval \<Rightarrow> taskError + taskPriority" where
  "validateTaskPriority v =
     (case as_string v of
        None \<Rightarrow> Inl (ValidationError ''Invalid task priority'')
      | Some s \<Rightarrow>
          (case find (\<lambda>p. priority_name p = s) TASK_PRIORITIES of
             None \<Rightarrow> Inl (ValidationError ''Invalid task priority'')
           | Some p \<Rightarrow> Inr p))"

definition is_folder_char :: "char \<Rightarrow> bool" where
  "is_folder_char c \<longleftrightarrow> is_alnum c \<or> c \<in> set ''._-''"

definition validateSpaceFolder :: "jsval \<Rightarrow> taskError + string" where
  "validateSpaceFolder =
     stringWith (\<lambda>s. s \<noteq> [] \<and> s = js_trim s \<and> length s \<le> 128 \<and> list_all is_folder_char s \<and>
         s \<noteq> ''.'' \<and> s \<noteq> ''..'' \<and> \<not> js_includes s ''..'')
       ''Invalid space folder format''"

section \<open>Instants in SQL\<close>

text \<open>
  The tables hold instants as the strings \<open>toISOString\<close> writes, and SQL compares the strings. A
  column here is the instant; \<open>sqlLess\<close> and \<open>sqlLe\<close> compare as SQL does.
\<close>

definition sqlLess :: "instant \<Rightarrow> instant \<Rightarrow> bool" where
  "sqlLess t t' \<longleftrightarrow> toISOString t < toISOString t'"

definition sqlLe :: "instant \<Rightarrow> instant \<Rightarrow> bool" where
  "sqlLe t t' \<longleftrightarrow> toISOString t \<le> toISOString t'"

section \<open>Facts\<close>

lemma stringWith_Inr: "stringWith P msg v = Inr s \<longleftrightarrow> v = JString s \<and> P s"
  by (auto simp: stringWith_def split: jsval.splits)

lemma not_sqlLess [simp]: "\<not> sqlLess t t' \<longleftrightarrow> sqlLe t' t"
  by (auto simp: sqlLess_def sqlLe_def not_less)

lemma not_sqlLe [simp]: "\<not> sqlLe t t' \<longleftrightarrow> sqlLess t' t"
  by (auto simp: sqlLess_def sqlLe_def not_le)

lemma sqlLe_refl [simp]: "sqlLe t t"
  by (simp add: sqlLe_def)

lemma sqlLe_trans: "sqlLe a b \<Longrightarrow> sqlLe b c \<Longrightarrow> sqlLe a c"
  by (auto simp: sqlLe_def)

lemma sqlLe_less_trans: "sqlLe a b \<Longrightarrow> sqlLess b c \<Longrightarrow> sqlLess a c"
  by (auto simp: sqlLe_def sqlLess_def)

lemma sqlLess_iff: "fourDigitYear t \<Longrightarrow> fourDigitYear t' \<Longrightarrow> sqlLess t t' \<longleftrightarrow> t < t'"
  by (simp add: sqlLess_def iso_less)

lemma sqlLe_iff: "fourDigitYear t \<Longrightarrow> fourDigitYear t' \<Longrightarrow> sqlLe t t' \<longleftrightarrow> t \<le> t'"
  using sqlLess_iff[of t' t] not_sqlLess[of t' t] by linarith

lemma canonicalIso_iff: "canonicalIso s \<longleftrightarrow> (\<exists>t. validTime t \<and> s = toISOString t)"
  by (auto simp: canonicalIso_def readIso_toISOString)

lemma canonicalIso_trimmed: "(s \<noteq> [] \<and> s = js_trim s \<and> canonicalIso s) = canonicalIso s"
  using toISOString_ends js_trim_toISOString unfolding canonicalIso_iff by metis

text \<open>
  The due date a task accepts is exactly a string \<open>toISOString\<close> writes for a time value, and
  reading it gives that time value back: \<open>validateCanonicalDueDate\<close> loses nothing.
\<close>

theorem due_date_roundtrip:
  "validateCanonicalDueDate v = Inr s \<longleftrightarrow>
     (\<exists>t. validTime t \<and> v = JString (toISOString t) \<and> s = toISOString t \<and> readIso s = t)"
  unfolding validateCanonicalDueDate_def stringWith_Inr canonicalIso_trimmed unfolding canonicalIso_iff
  using readIso_toISOString by auto

end
