(* ===== verification/Schedule.thy ===== *)
theory Schedule
  imports Task_Types
begin

text \<open>
  \<open>platform-operations/src/tasks/schedule-calculator.ts\<close>: the validators of a schedule and the
  calculation of its next run. What the source takes from outside is a parameter, a record of type
  \<open>taskEnv\<close>: the next occurrence of a cron expression in a time zone strictly after an instant, as
  the package \<open>cron-parser\<close> computes it (\<open>None\<close> where it throws), the time zones \<open>Intl\<close> knows,
  and the environment variables that bound the time of a script.
\<close>

record taskEnv =
  cronNext :: "string \<Rightarrow> string \<Rightarrow> instant \<Rightarrow> instant option"
  knownTimezone :: "string \<Rightarrow> bool"
  budgetVars :: "string option list"

section \<open>Validators\<close>

definition MIN_INTERVAL_SECONDS :: int where
  "MIN_INTERVAL_SECONDS = 60"

definition MAX_INTERVAL_SECONDS :: int where
  "MAX_INTERVAL_SECONDS = 31536000"

definition validateScheduleType :: "jsval \<Rightarrow> taskError + taskScheduleType" where
  "validateScheduleType v =
     (if v = JUndefined \<or> v = JNull then Inr Once
      else if v = JString ''once'' then Inr Once
      else if v = JString ''cron'' then Inr Cron
      else if v = JString ''interval'' then Inr Interval
      else Inl (ValidationError ''Invalid schedule type''))"

text \<open>\<open>s.split(/\s+/).length\<close> of a trimmed string that is not empty.\<close>

fun fieldCount :: "bool \<Rightarrow> string \<Rightarrow> nat" where
  "fieldCount inField [] = (if inField then 1 else 0)"
| "fieldCount inField (c # cs) =
     (if is_space c then (if inField then 1 else 0) + fieldCount False cs else fieldCount True cs)"

definition referenceDate :: instant where
  "referenceDate = 1767225600000"

definition validateCronExpression :: "taskEnv \<Rightarrow> jsval \<Rightarrow> taskError + string" where
  "validateCronExpression env v =
     (case as_string v of
        None \<Rightarrow> Inl (ValidationError ''Cron expression is required and must be a non-empty string.'')
      | Some cron \<Rightarrow>
          let trimmed = js_trim cron in
          if trimmed = [] then Inl (ValidationError ''Cron expression is required and must be a non-empty string.'')
          else if fieldCount False trimmed \<noteq> 5 then Inl (ValidationError ''Cron expression must have exactly 5 fields'')
          else (case cronNext env trimmed ''UTC'' referenceDate of
              None \<Rightarrow> Inl (ValidationError ''Invalid cron expression'')
            | Some t1 \<Rightarrow>
                (case cronNext env trimmed ''UTC'' t1 of
                   None \<Rightarrow> Inl (ValidationError ''Invalid cron expression'')
                 | Some t2 \<Rightarrow>
                     if t2 - t1 < MIN_INTERVAL_SECONDS * 1000
                     then Inl (ValidationError ''Cron expression interval cannot be less than 60 seconds.'')
                     else Inr trimmed)))"

definition validateIntervalSeconds :: "jsval \<Rightarrow> taskError + int" where
  "validateIntervalSeconds v =
     (case v of
        JNumber (Num n) \<Rightarrow>
          if \<not> isSafeInteger (Num n) then Inl (ValidationError ''Interval seconds must be a safe integer.'')
          else if n < MIN_INTERVAL_SECONDS then Inl (ValidationError ''Interval seconds must be at least 60 seconds.'')
          else if n > MAX_INTERVAL_SECONDS then Inl (ValidationError ''Interval seconds cannot exceed 31536000 seconds (1 year).'')
          else Inr n
      | _ \<Rightarrow> Inl (ValidationError ''Interval seconds must be a safe integer.''))"

definition validateMisfirePolicy :: "jsval \<Rightarrow> taskError + misfirePolicy" where
  "validateMisfirePolicy v =
     (if v = JUndefined \<or> v = JNull then Inr Coalesce
      else if v = JString ''coalesce'' then Inr Coalesce
      else if v = JString ''skip'' then Inr SkipMisfire
      else Inl (ValidationError ''Invalid misfire policy''))"

definition validateOverlapPolicy :: "jsval \<Rightarrow> taskError + overlapPolicy" where
  "validateOverlapPolicy v =
     (if v = JUndefined \<or> v = JNull then Inr SkipOverlap
      else if v = JString ''skip'' then Inr SkipOverlap
      else Inl (ValidationError ''Invalid overlap policy''))"

definition validateTimezone :: "taskEnv \<Rightarrow> jsval \<Rightarrow> taskError + string" where
  "validateTimezone env v =
     (if v = JUndefined \<or> v = JNull \<or> v = JString [] then Inr ''UTC''
      else case as_string v of
          None \<Rightarrow> Inl (ValidationError ''Invalid timezone'')
        | Some tz \<Rightarrow> if knownTimezone env tz then Inr tz else Inl (ValidationError ''Invalid timezone''))"

section \<open>The next run\<close>

record scheduleParams =
  p_scheduleType :: taskScheduleType
  p_cronExpression :: "string option"
  p_intervalSeconds :: "int option"
  p_dueDate :: "instant option"
  p_pausedAt :: "instant option"
  p_enabled :: bool
  p_timezone :: "string option"

text \<open>
  \<open>computeNextRun\<close>. The due dates it receives have passed \<open>validateCanonicalDueDate\<close> when they
  were stored, so that checking them again does not throw.
\<close>

definition computeNextRun :: "taskEnv \<Rightarrow> scheduleParams \<Rightarrow> instant \<Rightarrow> instant option" where
  "computeNextRun env p clock =
     (if \<not> p_enabled p \<or> p_pausedAt p \<noteq> None then None
      else case p_scheduleType p of
          Once \<Rightarrow> p_dueDate p
        | Interval \<Rightarrow>
            (case p_intervalSeconds p of
               None \<Rightarrow> None
             | Some n \<Rightarrow> if n = 0 \<or> n < MIN_INTERVAL_SECONDS then None else Some (clock + n * 1000))
        | Cron \<Rightarrow>
            (case p_cronExpression p of
               None \<Rightarrow> None
             | Some e \<Rightarrow>
                 if e = [] then None
                 else (case (if opt_truthy (p_timezone p) then validateTimezone env (JString (the (p_timezone p)))
                             else Inr ''UTC'') of
                     Inl _ \<Rightarrow> None
                   | Inr tz \<Rightarrow> cronNext env e tz clock)))"

section \<open>Facts\<close>

text \<open>What the code relies on of \<open>cron-parser\<close>: the next occurrence is later than the current date.\<close>

definition cronAdvances :: "taskEnv \<Rightarrow> bool" where
  "cronAdvances env \<longleftrightarrow> (\<forall>e tz t t'. cronNext env e tz t = Some t' \<longrightarrow> t < t')"

lemma computeNextRun_later:
  assumes "cronAdvances env" "p_scheduleType p \<noteq> Once" "computeNextRun env p clock = Some t"
  shows "clock < t"
  using assms
  by (auto simp: computeNextRun_def cronAdvances_def MIN_INTERVAL_SECONDS_def
      split: if_splits taskScheduleType.splits option.splits sum.splits)

lemma computeNextRun_off: "\<not> p_enabled p \<or> p_pausedAt p \<noteq> None \<Longrightarrow> computeNextRun env p clock = None"
  by (auto simp: computeNextRun_def)

lemma computeNextRun_interval:
  "p_enabled p \<Longrightarrow> p_pausedAt p = None \<Longrightarrow> p_scheduleType p = Interval \<Longrightarrow> p_intervalSeconds p = Some n \<Longrightarrow>
   MIN_INTERVAL_SECONDS \<le> n \<Longrightarrow> computeNextRun env p clock = Some (clock + n * 1000)"
  by (simp add: computeNextRun_def MIN_INTERVAL_SECONDS_def)

lemma validateIntervalSeconds_Inr:
  "validateIntervalSeconds v = Inr n \<longleftrightarrow> v = JNumber (Num n) \<and> MIN_INTERVAL_SECONDS \<le> n \<and> n \<le> MAX_INTERVAL_SECONDS"
  by (auto simp: validateIntervalSeconds_def MIN_INTERVAL_SECONDS_def MAX_INTERVAL_SECONDS_def MAX_SAFE_INTEGER_def
      split: jsval.splits number.splits if_splits)

lemma validateCronExpression_Inr:
  "validateCronExpression env v = Inr e \<Longrightarrow> e \<noteq> [] \<and> js_trim e = e \<and> fieldCount False e = 5"
  by (auto simp: validateCronExpression_def Let_def split: option.splits if_splits)

text \<open>An environment that meets \<open>cronAdvances\<close>: every expression means every minute.\<close>

definition minuteEnv :: taskEnv where
  "minuteEnv = \<lparr>cronNext = \<lambda>e tz t. Some (t + 60000), knownTimezone = (\<lambda>tz. tz = ''UTC''), budgetVars = []\<rparr>"

lemma minuteEnv_advances: "cronAdvances minuteEnv"
  by (simp add: cronAdvances_def minuteEnv_def)

end
