(* ===== verification/Task_Payload.thy ===== *)
theory Task_Payload
  imports Schedule
begin

text \<open>
  The validators of what clients send about tasks
  (\<open>platform-operations/src/types/task.ts\<close>): the payload of a task, an agent prompt or a script,
  the result a worker reports, and the input of an update.
\<close>

section \<open>Data\<close>

datatype sessionPolicy = Existing_session | Isolated

datatype contextMode = Group_context | Isolated_context

record taskDeliveryTarget =
  d_channel :: string
  d_accountId :: string
  d_nativeContextId :: string

record agentPromptPayload =
  a_prompt :: string
  a_sessionId :: string
  a_sessionPolicy :: sessionPolicy
  a_contextMode :: "contextMode option"
  a_spaceId :: "string option"
  a_spaceFolder :: "string option"
  a_delivery :: "taskDeliveryTarget option"
  a_silent :: "bool option"

record scriptTaskPayload =
  c_command :: string
  c_spaceId :: string
  c_spaceFolder :: "string option"
  c_timeoutMs :: "int option"
  c_delivery :: "taskDeliveryTarget option"
  c_silent :: "bool option"

datatype taskPayload = AgentPrompt agentPromptPayload | Script scriptTaskPayload

record agentPromptResult =
  g_completedAt :: string
  g_turnId :: "string option"
  g_sessionId :: "string option"
  g_spaceId :: "string option"
  g_messageId :: "string option"

record scriptTaskResult =
  x_completedAt :: string
  x_stdout :: string
  x_stderr :: string
  x_exitCode :: int
  x_durationMs :: number
  x_timedOut :: "bool option"
  x_aborted :: "bool option"

datatype taskResult = AgentResult agentPromptResult | ScriptResult scriptTaskResult

section \<open>Parts of a payload\<close>

abbreviation invalid :: "string \<Rightarrow> taskError + 'a" where
  "invalid msg \<equiv> Inl (ValidationError msg)"

fun objectKeys :: "jsval \<Rightarrow> string list" where
  "objectKeys (JObject kvs) = map fst kvs"
| "objectKeys _ = []"

fun isPlainObject :: "jsval \<Rightarrow> bool" where
  "isPlainObject (JObject _) = True"
| "isPlainObject _ = False"

text \<open>A property that may be absent.\<close>

definition optional :: "(jsval \<Rightarrow> taskError + 'a) \<Rightarrow> jsval \<Rightarrow> taskError + 'a option" where
  "optional f v = (if v = JUndefined then Inr None else andThen (f v) (\<lambda>x. Inr (Some x)))"

definition booleanField :: "string \<Rightarrow> jsval \<Rightarrow> taskError + bool" where
  "booleanField msg v = (case v of JBoolean b \<Rightarrow> Inr b | _ \<Rightarrow> invalid msg)"

definition nonEmptyText :: "string \<Rightarrow> jsval \<Rightarrow> taskError + string" where
  "nonEmptyText msg v =
     (case v of JString s \<Rightarrow> if js_trim s = [] then invalid msg else Inr s | _ \<Rightarrow> invalid msg)"

definition limitedText :: "string \<Rightarrow> string \<Rightarrow> jsval \<Rightarrow> taskError + string" where
  "limitedText emptyMsg longMsg v =
     andThen (nonEmptyText emptyMsg v)
       (\<lambda>s. if utf8Length s > MAX_PROMPT_BYTES then invalid longMsg else Inr s)"

definition validTimeoutMs :: "taskEnv \<Rightarrow> jsval \<Rightarrow> taskError + int" where
  "validTimeoutMs env v =
     (case v of
        JNumber (Num n) \<Rightarrow>
          if isSafeInteger (Num n) \<and> 0 < n \<and> n \<le> MAX_TASK_TIMEOUT_MS (budgetVars env) then Inr n
          else invalid ''Invalid timeoutMs''
      | _ \<Rightarrow> invalid ''Invalid timeoutMs'')"

definition validDelivery :: "jsval \<Rightarrow> taskError + taskDeliveryTarget" where
  "validDelivery v =
     (if \<not> isPlainObject v then invalid ''Task payload delivery must be an object''
      else andThen (nonEmptyText ''Task payload delivery channel must be a non-empty string'' (js_get v ''channel'')) (\<lambda>c.
        andThen (nonEmptyText ''Task payload delivery accountId must be a non-empty string'' (js_get v ''accountId'')) (\<lambda>a.
        andThen (nonEmptyText ''Task payload delivery nativeContextId must be a non-empty string''
          (js_get v ''nativeContextId'')) (\<lambda>n.
        Inr \<lparr>d_channel = js_trim c, d_accountId = js_trim a, d_nativeContextId = js_trim n\<rparr>))))"

definition optionalDelivery :: "jsval \<Rightarrow> taskError + taskDeliveryTarget option" where
  "optionalDelivery v = (if v = JNull then Inr None else optional validDelivery v)"

section \<open>Payloads\<close>

definition ALLOWED_AGENT_PROMPT_PAYLOAD_KEYS :: "string list" where
  "ALLOWED_AGENT_PROMPT_PAYLOAD_KEYS = [''type'', ''prompt'', ''sessionId'', ''sessionPolicy'', ''contextMode'',
     ''spaceId'', ''spaceFolder'', ''delivery'', ''silent'']"

definition ALLOWED_SCRIPT_TASK_PAYLOAD_KEYS :: "string list" where
  "ALLOWED_SCRIPT_TASK_PAYLOAD_KEYS = [''type'', ''command'', ''spaceId'', ''spaceFolder'', ''timeoutMs'',
     ''delivery'', ''silent'']"

definition validSessionPolicy :: "jsval \<Rightarrow> taskError + sessionPolicy" where
  "validSessionPolicy v =
     (if v = JString ''existing_session'' then Inr Existing_session
      else if v = JString ''isolated'' then Inr Isolated
      else invalid ''Invalid task payload session policy'')"

definition validContextMode :: "jsval \<Rightarrow> taskError + contextMode" where
  "validContextMode v =
     (if v = JString ''group'' then Inr Group_context
      else if v = JString ''isolated'' then Inr Isolated_context
      else invalid ''Invalid task payload context mode'')"

fun policyOf :: "contextMode \<Rightarrow> sessionPolicy" where
  "policyOf Isolated_context = Isolated"
| "policyOf Group_context = Existing_session"

text \<open>The session policy: as given, or as the context mode says; both must agree.\<close>

definition resolvePolicy ::
  "sessionPolicy option \<Rightarrow> contextMode option \<Rightarrow> taskError + sessionPolicy" where
  "resolvePolicy pol mode =
     (case mode of
        None \<Rightarrow> Inr (case pol of None \<Rightarrow> Existing_session | Some p \<Rightarrow> p)
      | Some m \<Rightarrow>
          (case pol of
             None \<Rightarrow> Inr (policyOf m)
           | Some p \<Rightarrow> if p = policyOf m then Inr p
                      else invalid ''Conflicting sessionPolicy and contextMode in task payload''))"

definition validateScriptTaskPayload :: "taskEnv \<Rightarrow> jsval \<Rightarrow> taskError + taskPayload" where
  "validateScriptTaskPayload env v =
     (if \<not> isPlainObject v then invalid ''Task payload must be a plain object''
      else if \<not> list_all (\<lambda>k. k \<in> set ALLOWED_SCRIPT_TASK_PAYLOAD_KEYS) (objectKeys v)
      then invalid ''Task payload contains unrecognized or forbidden fields''
      else if js_get v ''type'' \<noteq> JString ''script'' then invalid ''Invalid task payload type''
      else if as_string (js_get v ''command'') = None then invalid ''Task payload command must be a string''
      else andThen (limitedText ''Task payload command must not be empty''
          ''Task payload command exceeds maximum allowed size'' (js_get v ''command'')) (\<lambda>command.
        andThen (validateSpaceId (js_get v ''spaceId'')) (\<lambda>spaceId.
        andThen (optional validateSpaceFolder (js_get v ''spaceFolder'')) (\<lambda>folder.
        andThen (optional (validTimeoutMs env) (js_get v ''timeoutMs'')) (\<lambda>timeout.
        andThen (optional (booleanField ''Task payload silent must be a boolean'') (js_get v ''silent'')) (\<lambda>silent.
        andThen (optionalDelivery (js_get v ''delivery'')) (\<lambda>delivery.
        Inr (Script \<lparr>c_command = command, c_spaceId = spaceId, c_spaceFolder = folder, c_timeoutMs = timeout,
          c_delivery = delivery, c_silent = silent\<rparr>))))))))"

definition validateAgentPromptPayload :: "taskEnv \<Rightarrow> jsval \<Rightarrow> taskError + taskPayload" where
  "validateAgentPromptPayload env v =
     (if \<not> isPlainObject v then invalid ''Task payload must be a plain object''
      else if js_get v ''type'' = JString ''script'' then validateScriptTaskPayload env v
      else if \<not> list_all (\<lambda>k. k \<in> set ALLOWED_AGENT_PROMPT_PAYLOAD_KEYS) (objectKeys v)
      then invalid ''Task payload contains unrecognized or forbidden fields''
      else if js_get v ''type'' \<noteq> JString ''agent_prompt'' then invalid ''Invalid task payload type''
      else if as_string (js_get v ''prompt'') = None then invalid ''Task payload prompt must be a string''
      else andThen (limitedText ''Task payload prompt must not be empty''
          ''Task payload prompt exceeds maximum allowed size'' (js_get v ''prompt'')) (\<lambda>prompt.
        andThen (validateSessionId (js_get v ''sessionId'')) (\<lambda>sessionId.
        andThen (optional validSessionPolicy (js_get v ''sessionPolicy'')) (\<lambda>pol.
        andThen (optional validContextMode (js_get v ''contextMode'')) (\<lambda>mode.
        andThen (resolvePolicy pol mode) (\<lambda>policy.
        andThen (optional validateSpaceId (js_get v ''spaceId'')) (\<lambda>spaceId.
        andThen (optional validateSpaceFolder (js_get v ''spaceFolder'')) (\<lambda>folder.
        andThen (optional (booleanField ''Task payload silent must be a boolean'') (js_get v ''silent'')) (\<lambda>silent.
        andThen (optionalDelivery (js_get v ''delivery'')) (\<lambda>delivery.
        Inr (AgentPrompt \<lparr>a_prompt = prompt, a_sessionId = sessionId, a_sessionPolicy = policy,
          a_contextMode = mode, a_spaceId = spaceId, a_spaceFolder = folder, a_delivery = delivery,
          a_silent = silent\<rparr>)))))))))))"

definition validateTaskPayload :: "taskEnv \<Rightarrow> jsval \<Rightarrow> taskError + taskPayload" where
  "validateTaskPayload env v =
     (if \<not> isPlainObject v then invalid ''Task payload must be a plain object''
      else if js_get v ''type'' = JString ''script'' then validateScriptTaskPayload env v
      else validateAgentPromptPayload env v)"

text \<open>The object a validator returns, as \<open>JSON.stringify\<close> stores it and \<open>JSON.parse\<close> reads it.\<close>

definition field :: "string \<Rightarrow> ('a \<Rightarrow> jsval) \<Rightarrow> 'a option \<Rightarrow> (string \<times> jsval) list" where
  "field k f x = (case x of None \<Rightarrow> [] | Some y \<Rightarrow> [(k, f y)])"

definition deliveryObject :: "taskDeliveryTarget \<Rightarrow> jsval" where
  "deliveryObject d = JObject [(''channel'', JString (d_channel d)), (''accountId'', JString (d_accountId d)),
     (''nativeContextId'', JString (d_nativeContextId d))]"

fun policyName :: "sessionPolicy \<Rightarrow> string" where
  "policyName Existing_session = ''existing_session''"
| "policyName Isolated = ''isolated''"

fun modeName :: "contextMode \<Rightarrow> string" where
  "modeName Group_context = ''group''"
| "modeName Isolated_context = ''isolated''"

fun payloadObject :: "taskPayload \<Rightarrow> jsval" where
  "payloadObject (AgentPrompt p) = JObject
     ([(''type'', JString ''agent_prompt''), (''prompt'', JString (a_prompt p)),
       (''sessionId'', JString (a_sessionId p)), (''sessionPolicy'', JString (policyName (a_sessionPolicy p)))]
      @ field ''contextMode'' (\<lambda>m. JString (modeName m)) (a_contextMode p)
      @ field ''spaceId'' JString (a_spaceId p) @ field ''spaceFolder'' JString (a_spaceFolder p)
      @ field ''delivery'' deliveryObject (a_delivery p) @ field ''silent'' JBoolean (a_silent p))"
| "payloadObject (Script p) = JObject
     ([(''type'', JString ''script''), (''command'', JString (c_command p)), (''spaceId'', JString (c_spaceId p))]
      @ field ''spaceFolder'' JString (c_spaceFolder p)
      @ field ''timeoutMs'' (\<lambda>n. JNumber (Num n)) (c_timeoutMs p)
      @ field ''delivery'' deliveryObject (c_delivery p) @ field ''silent'' JBoolean (c_silent p))"

definition present :: "('a \<Rightarrow> jsval) \<Rightarrow> 'a option \<Rightarrow> jsval" where
  "present f x = (case x of None \<Rightarrow> JUndefined | Some y \<Rightarrow> f y)"

section \<open>Results\<close>

definition ALLOWED_AGENT_PROMPT_RESULT_KEYS :: "string list" where
  "ALLOWED_AGENT_PROMPT_RESULT_KEYS = [''status'', ''completedAt'', ''turnId'', ''sessionId'', ''spaceId'', ''messageId'']"

definition ALLOWED_SCRIPT_TASK_RESULT_KEYS :: "string list" where
  "ALLOWED_SCRIPT_TASK_RESULT_KEYS = [''status'', ''completedAt'', ''stdout'', ''stderr'', ''exitCode'', ''durationMs'',
     ''timedOut'', ''aborted'']"

fun num_negative :: "number \<Rightarrow> bool" where
  "num_negative (Num i) = (i < 0)"
| "num_negative (Frac f) = (f < 0)"
| "num_negative NegInf = True"
| "num_negative _ = False"

fun as_boolean :: "jsval \<Rightarrow> bool option" where
  "as_boolean (JBoolean b) = Some b"
| "as_boolean _ = None"

definition canonicalTimestamp :: "jsval \<Rightarrow> taskError + string" where
  "canonicalTimestamp =
     stringWith (\<lambda>s. s \<noteq> [] \<and> s = js_trim s \<and> canonicalIso s)
       ''Task dispatch result completedAt must be a canonical ISO timestamp''"

definition hasKey :: "jsval \<Rightarrow> string \<Rightarrow> bool" where
  "hasKey v k \<longleftrightarrow> k \<in> set (objectKeys v)"

definition validateScriptTaskResult :: "jsval \<Rightarrow> taskError + taskResult" where
  "validateScriptTaskResult v =
     (if \<not> isPlainObject v then invalid ''Task dispatch result must be a plain object''
      else if \<not> list_all (\<lambda>k. k \<in> set ALLOWED_SCRIPT_TASK_RESULT_KEYS) (objectKeys v)
      then invalid ''Task dispatch result contains unrecognized or forbidden fields''
      else if js_get v ''status'' \<noteq> JString ''completed'' then invalid ''Task dispatch result status must be completed''
      else andThen (canonicalTimestamp (js_get v ''completedAt'')) (\<lambda>completedAt.
        case as_string (js_get v ''stdout'') of
          None \<Rightarrow> invalid ''Task dispatch result stdout must be a string''
        | Some stdout \<Rightarrow>
            (case as_string (js_get v ''stderr'') of
               None \<Rightarrow> invalid ''Task dispatch result stderr must be a string''
             | Some stderr \<Rightarrow>
                 (case js_get v ''exitCode'' of
                    JNumber (Num code) \<Rightarrow>
                      (case as_number (js_get v ''durationMs'') of
                         None \<Rightarrow> invalid ''Task dispatch result durationMs must be a non-negative number''
                       | Some d \<Rightarrow>
                           if num_negative d then invalid ''Task dispatch result durationMs must be a non-negative number''
                           else Inr (ScriptResult \<lparr>x_completedAt = completedAt, x_stdout = stdout, x_stderr = stderr,
                             x_exitCode = code, x_durationMs = d, x_timedOut = as_boolean (js_get v ''timedOut''),
                             x_aborted = as_boolean (js_get v ''aborted'')\<rparr>))
                  | _ \<Rightarrow> invalid ''Task dispatch result exitCode must be an integer''))))"

definition validateAgentPromptResult :: "jsval \<Rightarrow> taskError + taskResult" where
  "validateAgentPromptResult v =
     (if \<not> isPlainObject v then invalid ''Task dispatch result must be a plain object''
      else if hasKey v ''stdout'' \<or> hasKey v ''exitCode'' then validateScriptTaskResult v
      else if \<not> list_all (\<lambda>k. k \<in> set ALLOWED_AGENT_PROMPT_RESULT_KEYS) (objectKeys v)
      then invalid ''Task dispatch result contains unrecognized or forbidden fields''
      else if js_get v ''status'' \<noteq> JString ''completed'' then invalid ''Task dispatch result status must be completed''
      else andThen (canonicalTimestamp (js_get v ''completedAt'')) (\<lambda>completedAt.
        Inr (AgentResult \<lparr>g_completedAt = completedAt, g_turnId = as_string (js_get v ''turnId''),
          g_sessionId = as_string (js_get v ''sessionId''), g_spaceId = as_string (js_get v ''spaceId''),
          g_messageId = as_string (js_get v ''messageId'')\<rparr>)))"

definition validateTaskResult :: "jsval \<Rightarrow> taskError + taskResult" where
  "validateTaskResult v =
     (if \<not> isPlainObject v then invalid ''Task dispatch result must be a plain object''
      else if hasKey v ''stdout'' \<or> hasKey v ''exitCode'' then validateScriptTaskResult v
      else validateAgentPromptResult v)"

fun completedAt :: "taskResult \<Rightarrow> string" where
  "completedAt (AgentResult g) = g_completedAt g"
| "completedAt (ScriptResult x) = x_completedAt x"

section \<open>Updates\<close>

record updateTaskInput =
  u_title :: "string option"
  u_description :: "string option option"
  u_assignee :: "string option option"
  u_priority :: "taskPriority option"
  u_prompt :: "string option"
  u_command :: "string option"
  u_timeoutMs :: "int option"
  u_silent :: "bool option"
  u_dueDate :: "string option option"
  u_scheduleType :: "taskScheduleType option"
  u_cronExpression :: "string option option"
  u_intervalSeconds :: "int option option"
  u_timezone :: "string option"
  u_misfirePolicy :: "misfirePolicy option"
  u_overlapPolicy :: "overlapPolicy option"

definition ALLOWED_UPDATE_TASK_KEYS :: "string list" where
  "ALLOWED_UPDATE_TASK_KEYS = [''title'', ''description'', ''assignee'', ''priority'', ''prompt'', ''command'',
     ''script_command'', ''timeoutMs'', ''silent'', ''payload'', ''dueDate'', ''scheduleType'', ''cronExpression'',
     ''intervalSeconds'', ''timezone'', ''misfirePolicy'', ''overlapPolicy'']"

definition FORBIDDEN_IMMUTABLE_UPDATE_KEYS :: "string list" where
  "FORBIDDEN_IMMUTABLE_UPDATE_KEYS = [''id'', ''userId'', ''user_id'', ''createdAt'', ''updatedAt'', ''claimCount'',
     ''claimantId'', ''leaseExpiresAt'', ''leaseDurationMs'', ''maxRetries'', ''status'', ''currentRun'', ''result'',
     ''error'', ''errorCode'', ''idempotencyKey'']"

fun checkUpdateKeys :: "string list \<Rightarrow> taskError + unit" where
  "checkUpdateKeys [] = Inr ()"
| "checkUpdateKeys (k # ks) =
     (if k \<in> set FORBIDDEN_IMMUTABLE_UPDATE_KEYS then
        invalid (if k = ''userId'' \<or> k = ''user_id'' then ''Task ownership is immutable''
                 else if k = ''status'' then ''Field \"status\" is immutable and cannot be directly updated''
                 else if k = ''updatedAt'' then ''Field \"updatedAt\" is managed automatically and cannot be updated''
                 else ''Field is immutable and cannot be updated'')
      else if k \<notin> set ALLOWED_UPDATE_TASK_KEYS then invalid ''Task update input contains unrecognized field''
      else checkUpdateKeys ks)"

fun checkPayloadKeys :: "string list \<Rightarrow> taskError + unit" where
  "checkPayloadKeys [] = Inr ()"
| "checkPayloadKeys (k # ks) =
     (if k \<in> set [''sessionId'', ''sessionPolicy'', ''contextMode'', ''spaceId'', ''spaceFolder'', ''delivery'']
      then invalid ''Task session and space bindings are immutable''
      else if k \<notin> set [''prompt'', ''type'', ''command'', ''script_command'', ''timeoutMs'', ''silent'']
      then invalid ''Field of the payload is immutable and cannot be updated''
      else checkPayloadKeys ks)"

text \<open>A property that is a string or null, and one that is null or passes a validator.\<close>

definition nullable :: "(jsval \<Rightarrow> taskError + 'a) \<Rightarrow> jsval \<Rightarrow> taskError + 'a option" where
  "nullable f v = (if v = JNull then Inr None else andThen (f v) (\<lambda>x. Inr (Some x)))"

definition anyString :: "string \<Rightarrow> jsval \<Rightarrow> taskError + string" where
  "anyString msg = stringWith (\<lambda>_. True) msg"

definition updateCommand :: "jsval \<Rightarrow> taskError + string option" where
  "updateCommand v =
     (let c = js_get v ''command''; sc = js_get v ''script_command'' in
      if c = JUndefined \<and> sc = JUndefined then Inr None
      else andThen (limitedText ''Task command must be a non-empty string'' ''Task command exceeds maximum allowed size''
             (if c = JNull \<or> c = JUndefined then sc else c)) (\<lambda>x. Inr (Some x)))"

text \<open>A value given at the root and in the payload must be the same; the payload's is kept.\<close>

definition mergeField :: "string \<Rightarrow> 'a option \<Rightarrow> 'a option \<Rightarrow> taskError + 'a option" where
  "mergeField msg root inner =
     (case inner of
        None \<Rightarrow> Inr root
      | Some y \<Rightarrow> if root \<noteq> None \<and> root \<noteq> Some y then invalid msg else Inr (Some y))"

definition mergePayload ::
  "taskEnv \<Rightarrow> jsval \<Rightarrow> string option \<Rightarrow> string option \<Rightarrow> int option \<Rightarrow> bool option
   \<Rightarrow> taskError + string option \<times> string option \<times> int option \<times> bool option" where
  "mergePayload env v prompt command timeout silent =
     (if v = JUndefined \<or> v = JNull then Inr (prompt, command, timeout, silent)
      else if \<not> isPlainObject v then invalid ''Task payload must be a plain object''
      else andThen (checkPayloadKeys (objectKeys v)) (\<lambda>_.
        if js_get v ''type'' \<notin> {JUndefined, JString ''agent_prompt'', JString ''script''}
        then invalid ''Task payload type is immutable''
        else andThen (optional (limitedText ''Task payload prompt must be a non-empty string''
               ''Task payload prompt exceeds maximum allowed size'') (js_get v ''prompt'')) (\<lambda>p.
          andThen (mergeField ''Conflicting prompt values provided in root and payload'' prompt p) (\<lambda>prompt'.
          andThen (optional (limitedText ''Task payload command must be a non-empty string''
               ''Task payload command exceeds maximum allowed size'') (js_get v ''command'')) (\<lambda>c.
          andThen (mergeField ''Conflicting command values provided in root and payload'' command c) (\<lambda>command'.
          andThen (optional (validTimeoutMs env) (js_get v ''timeoutMs'')) (\<lambda>t.
          andThen (mergeField ''Conflicting timeoutMs values provided in root and payload'' timeout t) (\<lambda>timeout'.
          andThen (optional (booleanField ''Task payload silent must be a boolean'') (js_get v ''silent'')) (\<lambda>s.
          andThen (mergeField ''Conflicting silent values provided in root and payload'' silent s) (\<lambda>silent'.
          Inr (prompt', command', timeout', silent')))))))))))"

definition noUpdate :: updateTaskInput where
  "noUpdate = \<lparr>u_title = None, u_description = None, u_assignee = None, u_priority = None, u_prompt = None,
     u_command = None, u_timeoutMs = None, u_silent = None, u_dueDate = None, u_scheduleType = None,
     u_cronExpression = None, u_intervalSeconds = None, u_timezone = None, u_misfirePolicy = None,
     u_overlapPolicy = None\<rparr>"

definition validateUpdateTaskInput :: "taskEnv \<Rightarrow> jsval \<Rightarrow> taskError + updateTaskInput" where
  "validateUpdateTaskInput env v =
     (if \<not> isPlainObject v then invalid ''Task update input must be a plain object''
      else andThen (checkUpdateKeys (objectKeys v)) (\<lambda>_.
        andThen (optional validateTaskTitle (js_get v ''title'')) (\<lambda>title.
        andThen (optional (nullable (anyString ''Task description must be a string or null'')) (js_get v ''description'')) (\<lambda>descr.
        andThen (optional (nullable (anyString ''Task assignee must be a string or null'')) (js_get v ''assignee'')) (\<lambda>assignee.
        andThen (optional validateTaskPriority (js_get v ''priority'')) (\<lambda>priority.
        andThen (optional (limitedText ''Task prompt must be a non-empty string'' ''Task prompt exceeds maximum allowed size'')
          (js_get v ''prompt'')) (\<lambda>prompt.
        andThen (updateCommand v) (\<lambda>command.
        andThen (optional (validTimeoutMs env) (js_get v ''timeoutMs'')) (\<lambda>timeout.
        andThen (optional (booleanField ''Task silent must be a boolean'') (js_get v ''silent'')) (\<lambda>silent.
        andThen (mergePayload env (js_get v ''payload'') prompt command timeout silent) (\<lambda>(prompt', command', timeout', silent').
        andThen (optional (nullable validateCanonicalDueDate) (js_get v ''dueDate'')) (\<lambda>dueDate.
        andThen (optional validateScheduleType (js_get v ''scheduleType'')) (\<lambda>schedType.
        andThen (optional (nullable (validateCronExpression env)) (js_get v ''cronExpression'')) (\<lambda>cron.
        andThen (optional (nullable validateIntervalSeconds) (js_get v ''intervalSeconds'')) (\<lambda>interval.
        andThen (optional (validateTimezone env) (js_get v ''timezone'')) (\<lambda>tz.
        andThen (optional validateMisfirePolicy (js_get v ''misfirePolicy'')) (\<lambda>misfire.
        andThen (optional validateOverlapPolicy (js_get v ''overlapPolicy'')) (\<lambda>overlap.
        let u = \<lparr>u_title = title, u_description = descr, u_assignee = assignee, u_priority = priority,
                  u_prompt = prompt', u_command = command', u_timeoutMs = timeout', u_silent = silent',
                  u_dueDate = dueDate, u_scheduleType = schedType, u_cronExpression = cron,
                  u_intervalSeconds = interval, u_timezone = tz, u_misfirePolicy = misfire, u_overlapPolicy = overlap\<rparr>
        in if u = noUpdate then invalid ''At least one editable field must be provided for task update''
           else Inr u))))))))))))))))))"

section \<open>What the validators accept\<close>

lemma optional_Inr:
  "optional f v = Inr r \<longleftrightarrow> (v = JUndefined \<and> r = None) \<or> (v \<noteq> JUndefined \<and> (\<exists>x. f v = Inr x \<and> r = Some x))"
  by (auto simp: optional_def andThen_Inr_iff)

lemma booleanField_Inr: "booleanField msg v = Inr b \<longleftrightarrow> v = JBoolean b"
  by (auto simp: booleanField_def split: jsval.splits)

lemma nonEmptyText_Inr: "nonEmptyText msg v = Inr s \<longleftrightarrow> v = JString s \<and> js_trim s \<noteq> []"
  by (auto simp: nonEmptyText_def split: jsval.splits)

lemma limitedText_Inr:
  "limitedText m m' v = Inr s \<longleftrightarrow> v = JString s \<and> js_trim s \<noteq> [] \<and> utf8Length s \<le> MAX_PROMPT_BYTES"
  by (cases v) (auto simp: limitedText_def nonEmptyText_def)

lemma validTimeoutMs_Inr:
  "validTimeoutMs env v = Inr n \<longleftrightarrow> v = JNumber (Num n) \<and> isSafeInteger (Num n) \<and> 0 < n \<and>
     n \<le> MAX_TASK_TIMEOUT_MS (budgetVars env)"
  by (auto simp: validTimeoutMs_def split: jsval.splits number.splits)

definition deliveryOk :: "taskDeliveryTarget \<Rightarrow> bool" where
  "deliveryOk d \<longleftrightarrow> list_all (\<lambda>s. s \<noteq> [] \<and> js_trim s = s) [d_channel d, d_accountId d, d_nativeContextId d]"

lemma validDelivery_Inr: "validDelivery v = Inr d \<Longrightarrow> deliveryOk d"
  by (auto simp: validDelivery_def andThen_Inr_iff nonEmptyText_Inr deliveryOk_def split: if_splits)

lemma optionalDelivery_Inr: "optionalDelivery v = Inr d \<Longrightarrow> pred_option deliveryOk d"
  by (auto simp: optionalDelivery_def optional_Inr dest: validDelivery_Inr split: if_splits)

lemma validDelivery_deliveryObject: "deliveryOk d \<Longrightarrow> validDelivery (deliveryObject d) = Inr d"
  by (simp add: validDelivery_def deliveryObject_def deliveryOk_def nonEmptyText_def)

lemma optionalDelivery_field:
  "pred_option deliveryOk d \<Longrightarrow>
   optionalDelivery (present deliveryObject d) = Inr d"
proof (cases d)
  case (Some x)
  have "deliveryObject x \<noteq> JUndefined" "deliveryObject x \<noteq> JNull" by (simp_all add: deliveryObject_def)
  moreover assume "pred_option deliveryOk d"
  ultimately show ?thesis
    using Some by (simp add: optionalDelivery_def optional_def present_def validDelivery_deliveryObject)
qed (simp add: optionalDelivery_def optional_def present_def)

text \<open>The fields of an accepted payload.\<close>

definition folderOk :: "string \<Rightarrow> bool" where
  "folderOk s \<longleftrightarrow> validateSpaceFolder (JString s) = Inr s"

definition timeoutOk :: "taskEnv \<Rightarrow> int \<Rightarrow> bool" where
  "timeoutOk env n \<longleftrightarrow> isSafeInteger (Num n) \<and> 0 < n \<and> n \<le> MAX_TASK_TIMEOUT_MS (budgetVars env)"

definition promptOk :: "string \<Rightarrow> bool" where
  "promptOk s \<longleftrightarrow> js_trim s \<noteq> [] \<and> utf8Length s \<le> MAX_PROMPT_BYTES"

fun payloadOk :: "taskEnv \<Rightarrow> taskPayload \<Rightarrow> bool" where
  "payloadOk env (AgentPrompt p) \<longleftrightarrow> promptOk (a_prompt p) \<and> SESSION_ID_REGEX (a_sessionId p) \<and>
     pred_option (\<lambda>m. a_sessionPolicy p = policyOf m) (a_contextMode p) \<and>
     pred_option SPACE_ID_REGEX (a_spaceId p) \<and> pred_option folderOk (a_spaceFolder p) \<and>
     pred_option deliveryOk (a_delivery p)"
| "payloadOk env (Script p) \<longleftrightarrow> promptOk (c_command p) \<and> SPACE_ID_REGEX (c_spaceId p) \<and>
     pred_option folderOk (c_spaceFolder p) \<and> pred_option (timeoutOk env) (c_timeoutMs p) \<and>
     pred_option deliveryOk (c_delivery p)"

lemmas validator_simps = andThen_Inr_iff optional_Inr limitedText_Inr stringWith_Inr promptOk_def folderOk_def
  validateSessionId_def validateSpaceId_def validateSpaceFolder_def validTimeoutMs_Inr timeoutOk_def

lemma validateScriptTaskPayload_Ok: "validateScriptTaskPayload env v = Inr p \<Longrightarrow> payloadOk env p \<and> (\<exists>c. p = Script c)"
  by (auto simp: validateScriptTaskPayload_def validator_simps split: if_splits dest: optionalDelivery_Inr)

lemma resolvePolicy_Ok: "resolvePolicy pol mode = Inr p \<Longrightarrow> pred_option (\<lambda>m. p = policyOf m) mode"
  by (auto simp: resolvePolicy_def split: option.splits if_splits)

lemma validateAgentPromptPayload_Ok: "validateAgentPromptPayload env v = Inr p \<Longrightarrow> payloadOk env p"
  by (auto simp: validateAgentPromptPayload_def validator_simps split: if_splits
      dest!: optionalDelivery_Inr resolvePolicy_Ok dest: validateScriptTaskPayload_Ok)

lemma validateTaskPayload_Ok: "validateTaskPayload env v = Inr p \<Longrightarrow> payloadOk env p"
  by (auto simp: validateTaskPayload_def split: if_splits
      dest: validateScriptTaskPayload_Ok validateAgentPromptPayload_Ok)

section \<open>Reading a stored payload\<close>

lemma map_of_field [simp]: "map_of (field k f x) k' = (if k' = k then map_option f x else None)"
  by (cases x) (auto simp: field_def)

lemma field_keys: "set (map fst (field k f x)) \<subseteq> {k}"
  by (cases x) (auto simp: field_def)

lemma optional_field:
  "(\<And>y. x = Some y \<Longrightarrow> f (g y) = Inr y \<and> g y \<noteq> JUndefined) \<Longrightarrow>
   optional f (present g x) = Inr x"
  by (cases x) (auto simp: optional_def present_def)

lemma payload_get:
  "js_get (payloadObject (Script c)) k =
     (if k = ''type'' then JString ''script'' else if k = ''command'' then JString (c_command c)
      else if k = ''spaceId'' then JString (c_spaceId c)
      else if k = ''spaceFolder'' then (present JString (c_spaceFolder c))
      else if k = ''timeoutMs'' then (present (\<lambda>n. JNumber (Num n)) (c_timeoutMs c))
      else if k = ''delivery'' then (present deliveryObject (c_delivery c))
      else if k = ''silent'' then (present JBoolean (c_silent c))
      else JUndefined)"
  "js_get (payloadObject (AgentPrompt p)) k =
     (if k = ''type'' then JString ''agent_prompt'' else if k = ''prompt'' then JString (a_prompt p)
      else if k = ''sessionId'' then JString (a_sessionId p)
      else if k = ''sessionPolicy'' then JString (policyName (a_sessionPolicy p))
      else if k = ''contextMode'' then (present (\<lambda>m. JString (modeName m)) (a_contextMode p))
      else if k = ''spaceId'' then (present JString (a_spaceId p))
      else if k = ''spaceFolder'' then (present JString (a_spaceFolder p))
      else if k = ''delivery'' then (present deliveryObject (a_delivery p))
      else if k = ''silent'' then (present JBoolean (a_silent p))
      else JUndefined)"
  by (auto simp: map_add_def present_def split: option.splits)

lemma payload_keys:
  "set (objectKeys (payloadObject (Script c))) \<subseteq> set ALLOWED_SCRIPT_TASK_PAYLOAD_KEYS"
  "set (objectKeys (payloadObject (AgentPrompt p))) \<subseteq> set ALLOWED_AGENT_PROMPT_PAYLOAD_KEYS"
  by (auto simp: ALLOWED_SCRIPT_TASK_PAYLOAD_KEYS_def ALLOWED_AGENT_PROMPT_PAYLOAD_KEYS_def field_def split: option.splits)

lemma payload_plain: "isPlainObject (payloadObject p)"
  by (cases p) auto

lemma read_folder:
  "pred_option folderOk x \<Longrightarrow> optional validateSpaceFolder (present JString x) = Inr x"
  by (rule optional_field) (auto simp: folderOk_def)

lemma read_spaceId:
  "pred_option SPACE_ID_REGEX x \<Longrightarrow> optional validateSpaceId (present JString x) = Inr x"
  by (rule optional_field) (auto simp: validateSpaceId_def stringWith_def)

lemma read_timeout:
  "pred_option (timeoutOk env) n \<Longrightarrow>
   optional (validTimeoutMs env) (present (\<lambda>n. JNumber (Num n)) n) = Inr n"
  by (rule optional_field) (auto simp: validTimeoutMs_Inr timeoutOk_def)

lemma read_silent:
  "optional (booleanField msg) (present JBoolean b) = Inr b"
  by (rule optional_field) (auto simp: booleanField_def)

lemma read_mode:
  "optional validContextMode (present (\<lambda>m. JString (modeName m)) m) = Inr m"
  by (rule optional_field, case_tac y) (auto simp: validContextMode_def)

lemma read_policy: "optional validSessionPolicy (JString (policyName pol)) = Inr (Some pol)"
  by (cases pol) (simp_all add: validSessionPolicy_def optional_def)

lemmas fields_read = read_folder read_spaceId read_timeout read_silent read_mode read_policy optionalDelivery_field

lemma script_read: "payloadOk env (Script c) \<Longrightarrow> validateScriptTaskPayload env (payloadObject (Script c)) = Inr (Script c)"
  using payload_keys(1)[of c]
  by (simp add: validateScriptTaskPayload_def payload_plain payload_get list_all_iff subset_iff fields_read
      limitedText_def nonEmptyText_def promptOk_def validateSpaceId_def stringWith_def
      del: payloadObject.simps)

lemma resolvePolicy_Some: "pred_option (\<lambda>m. pol = policyOf m) m \<Longrightarrow> resolvePolicy (Some pol) m = Inr pol"
  by (cases m) (simp_all add: resolvePolicy_def)

lemma agent_read:
  "payloadOk env (AgentPrompt p) \<Longrightarrow> validateAgentPromptPayload env (payloadObject (AgentPrompt p)) = Inr (AgentPrompt p)"
  using payload_keys(2)[of p]
  by (simp add: validateAgentPromptPayload_def payload_plain payload_get list_all_iff subset_iff fields_read
      limitedText_def nonEmptyText_def promptOk_def validateSessionId_def stringWith_def
      resolvePolicy_Some del: payloadObject.simps)


lemma session_id_example: "SESSION_ID_REGEX (''ses_'' @ replicate 32 (CHR ''a''))"
  by (simp add: SESSION_ID_REGEX_def hex_id_def list_all_iff is_lower_hex_def)


section \<open>What an update may change\<close>

lemma checkUpdateKeys_Inr:
  "checkUpdateKeys ks = Inr x \<Longrightarrow>
   set ks \<subseteq> set ALLOWED_UPDATE_TASK_KEYS \<and> set ks \<inter> set FORBIDDEN_IMMUTABLE_UPDATE_KEYS = {}"
  by (induction ks) (auto split: if_splits)

lemma checkPayloadKeys_Inr:
  "checkPayloadKeys ks = Inr x \<Longrightarrow> set ks \<subseteq> {''prompt'', ''type'', ''command'', ''script_command'', ''timeoutMs'', ''silent''}"
  by (induction ks) (auto split: if_splits)

lemma mergeField_Inr:
  "mergeField msg root inner = Inr r \<Longrightarrow> pred_option P root \<Longrightarrow> pred_option P inner \<Longrightarrow> pred_option P r"
  by (auto simp: mergeField_def split: option.splits if_splits)

lemma optional_pred: "optional f v = Inr r \<Longrightarrow> (\<And>x. f v = Inr x \<Longrightarrow> P x) \<Longrightarrow> pred_option P r"
  by (auto simp: optional_Inr)

lemma nullable_pred: "nullable f v = Inr r \<Longrightarrow> (\<And>x. f v = Inr x \<Longrightarrow> P x) \<Longrightarrow> pred_option P r"
  by (auto simp: nullable_def andThen_Inr_iff split: if_splits)

definition titleOk :: "string \<Rightarrow> bool" where
  "titleOk s \<longleftrightarrow> s \<noteq> [] \<and> js_trim s = s \<and> utf8Length s \<le> 256"

definition cronOk :: "string \<Rightarrow> bool" where
  "cronOk e \<longleftrightarrow> js_trim e = e \<and> fieldCount False e = 5"

definition intervalOk :: "int \<Rightarrow> bool" where
  "intervalOk n \<longleftrightarrow> MIN_INTERVAL_SECONDS \<le> n \<and> n \<le> MAX_INTERVAL_SECONDS"

definition updateOk :: "taskEnv \<Rightarrow> updateTaskInput \<Rightarrow> bool" where
  "updateOk env u \<longleftrightarrow> u \<noteq> noUpdate \<and> pred_option titleOk (u_title u) \<and> pred_option promptOk (u_prompt u) \<and>
     pred_option promptOk (u_command u) \<and> pred_option (timeoutOk env) (u_timeoutMs u) \<and>
     pred_option (pred_option canonicalIso) (u_dueDate u) \<and> pred_option (pred_option cronOk) (u_cronExpression u) \<and>
     pred_option (pred_option intervalOk) (u_intervalSeconds u)"

lemma mergePayload_Inr:
  assumes "mergePayload env v p c t s = Inr (p', c', t', s')"
    and "pred_option promptOk p" "pred_option promptOk c" "pred_option (timeoutOk env) t"
  shows "pred_option promptOk p' \<and> pred_option promptOk c' \<and> pred_option (timeoutOk env) t' \<and>
    set (objectKeys v) \<inter> {''sessionId'', ''sessionPolicy'', ''contextMode'', ''spaceId'', ''spaceFolder'', ''delivery''} = {}"
proof (cases "v = JUndefined \<or> v = JNull")
  case True
  with assms show ?thesis by (auto simp: mergePayload_def)
next
  case False
  with assms(1) obtain x ip ic it where
    keys: "checkPayloadKeys (objectKeys v) = Inr x"
    and p: "optional (limitedText ''Task payload prompt must be a non-empty string''
               ''Task payload prompt exceeds maximum allowed size'') (js_get v ''prompt'') = Inr ip"
      "mergeField ''Conflicting prompt values provided in root and payload'' p ip = Inr p'"
    and c: "optional (limitedText ''Task payload command must be a non-empty string''
               ''Task payload command exceeds maximum allowed size'') (js_get v ''command'') = Inr ic"
      "mergeField ''Conflicting command values provided in root and payload'' c ic = Inr c'"
    and t: "optional (validTimeoutMs env) (js_get v ''timeoutMs'') = Inr it"
      "mergeField ''Conflicting timeoutMs values provided in root and payload'' t it = Inr t'"
    by (auto simp: mergePayload_def andThen_Inr_iff split: if_splits)
  have "pred_option promptOk ip" "pred_option promptOk ic" "pred_option (timeoutOk env) it"
    using p(1) c(1) t(1) by (auto simp: optional_Inr limitedText_Inr promptOk_def validTimeoutMs_Inr timeoutOk_def)
  then show ?thesis
    using mergeField_Inr[OF p(2)] mergeField_Inr[OF c(2)] mergeField_Inr[OF t(2)] assms checkPayloadKeys_Inr[OF keys]
    by auto
qed

lemma validateUpdate_facts:
  assumes "validateUpdateTaskInput env v = Inr u"
  shows "updateOk env u \<and> set (objectKeys v) \<subseteq> set ALLOWED_UPDATE_TASK_KEYS \<and>
    set (objectKeys v) \<inter> set FORBIDDEN_IMMUTABLE_UPDATE_KEYS = {} \<and>
    set (objectKeys (js_get v ''payload'')) \<inter>
      {''sessionId'', ''sessionPolicy'', ''contextMode'', ''spaceId'', ''spaceFolder'', ''delivery''} = {}"
proof -
  from assms obtain x p c t s p' c' t' s' where
    keys: "checkUpdateKeys (objectKeys v) = Inr x"
    and title: "optional validateTaskTitle (js_get v ''title'') = Inr (u_title u)"
    and p: "optional (limitedText ''Task prompt must be a non-empty string'' ''Task prompt exceeds maximum allowed size'')
          (js_get v ''prompt'') = Inr p"
    and c: "updateCommand v = Inr c"
    and t: "optional (validTimeoutMs env) (js_get v ''timeoutMs'') = Inr t"
    and m: "mergePayload env (js_get v ''payload'') p c t s = Inr (u_prompt u, u_command u, u_timeoutMs u, s')"
    and due: "optional (nullable validateCanonicalDueDate) (js_get v ''dueDate'') = Inr (u_dueDate u)"
    and cron: "optional (nullable (validateCronExpression env)) (js_get v ''cronExpression'') = Inr (u_cronExpression u)"
    and interval: "optional (nullable validateIntervalSeconds) (js_get v ''intervalSeconds'') = Inr (u_intervalSeconds u)"
    and "u \<noteq> noUpdate"
    by (auto simp: validateUpdateTaskInput_def andThen_Inr_iff Let_def split: if_splits prod.splits)
  have "pred_option promptOk p" "pred_option promptOk c" "pred_option (timeoutOk env) t"
    using p c t by (auto simp: optional_Inr limitedText_Inr promptOk_def validTimeoutMs_Inr timeoutOk_def updateCommand_def
        andThen_Inr_iff Let_def split: if_splits)
  from mergePayload_Inr[OF m this]
  have merged: "pred_option promptOk (u_prompt u)" "pred_option promptOk (u_command u)" "pred_option (timeoutOk env) (u_timeoutMs u)"
    "set (objectKeys (js_get v ''payload'')) \<inter>
      {''sessionId'', ''sessionPolicy'', ''contextMode'', ''spaceId'', ''spaceFolder'', ''delivery''} = {}"
    by auto
  have "pred_option titleOk (u_title u)"
    using title by (rule optional_pred) (auto simp: validateTaskTitle_def andThen_Inr_iff stringWith_Inr titleOk_def split: if_splits)
  moreover have "pred_option (pred_option canonicalIso) (u_dueDate u)"
    using due by (rule optional_pred, elim nullable_pred) (auto simp: validateCanonicalDueDate_def stringWith_Inr)
  moreover have "pred_option (pred_option cronOk) (u_cronExpression u)"
    using cron by (rule optional_pred, elim nullable_pred) (auto simp: cronOk_def dest: validateCronExpression_Inr)
  moreover have "pred_option (pred_option intervalOk) (u_intervalSeconds u)"
    using interval by (rule optional_pred, elim nullable_pred) (auto simp: intervalOk_def validateIntervalSeconds_Inr)
  ultimately show ?thesis
    using merged \<open>u \<noteq> noUpdate\<close> checkUpdateKeys_Inr[OF keys] by (auto simp: updateOk_def)
qed

lemma update_example:
  "validateUpdateTaskInput minuteEnv (JObject [(''title'', JString ''t''), (''payload'', JObject [(''prompt'', JString ''hi'')])])
     = Inr (noUpdate\<lparr>u_title := Some ''t'', u_prompt := Some ''hi''\<rparr>)"
proof -
  let ?v = "JObject [(''title'', JString ''t''), (''payload'', JObject [(''prompt'', JString ''hi'')])]"
  have "checkUpdateKeys (objectKeys ?v) = Inr ()"
    by (simp add: FORBIDDEN_IMMUTABLE_UPDATE_KEYS_def ALLOWED_UPDATE_TASK_KEYS_def)
  moreover have "mergePayload minuteEnv (js_get ?v ''payload'') None None None None = Inr (Some ''hi'', None, None, None)"
    by (simp add: mergePayload_def optional_def limitedText_def nonEmptyText_def js_trim_def is_space_def utf8Length_def
        MAX_PROMPT_BYTES_def mergeField_def)
  moreover have "validateTaskTitle (JString ''t'') = Inr ''t''"
    by (simp add: validateTaskTitle_def stringWith_def js_trim_def is_space_def utf8Length_def)
  ultimately show ?thesis
    by (simp add: validateUpdateTaskInput_def optional_def updateCommand_def noUpdate_def)
qed



end
