(* ===== verification/Task_Store.thy ===== *)
theory Task_Store
  imports Task_Payload "HOL-Library.Product_Lexorder"
begin

text \<open>
  The tables of scheduled tasks and the operations of the tenant-scoped repository that do not deal
  with leases (\<open>platform-storage-sqlite/src/repos/task-repo.ts\<close>, the tables of
  \<open>platform-storage-sqlite/src/schema/migrations.ts\<close> and the row readers of \<open>utils/db.ts\<close>): create,
  update, the queries, delete, pause and resume. The schema is the migrated one, with schedules and
  runs; the branches for databases before migration 018 are not modelled. JSON columns hold the
  values written; clocks and generated identifiers are arguments.
\<close>

section \<open>Rows\<close>

record taskRow =
  t_id :: string
  t_user :: string
  t_key :: "string option"
  t_title :: string
  t_description :: "string option"
  t_assignee :: "string option"
  t_priority :: taskPriority
  t_status :: taskStatus
  t_payload :: taskPayload
  t_result :: "taskResult option"
  t_error :: "string option"
  t_claimant :: "string option"
  t_lease :: "instant option"
  t_leaseMs :: int
  t_claims :: int
  t_maxRetries :: int
  t_due :: "instant option"
  t_type :: taskScheduleType
  t_cron :: "string option"
  t_interval :: "int option"
  t_next :: "instant option"
  t_tz :: string
  t_created :: instant
  t_updated :: instant
  t_completed :: "instant option"

record scheduleRow =
  s_id :: string
  s_task :: string
  s_user :: string
  s_type :: taskScheduleType
  s_cron :: "string option"
  s_interval :: "int option"
  s_next :: "instant option"
  s_last :: "instant option"
  s_tz :: string
  s_enabled :: bool
  s_paused :: "instant option"
  s_misfire :: misfirePolicy
  s_overlap :: overlapPolicy
  s_created :: instant
  s_updated :: instant

record runRow =
  r_id :: string
  r_task :: string
  r_schedule :: "string option"
  r_user :: string
  r_attempt :: nat
  r_status :: taskRunStatus
  r_claimant :: "string option"
  r_lease :: "instant option"
  r_scheduledFor :: "instant option"
  r_started :: "instant option"
  r_completed :: "instant option"
  r_delivery :: "string option"
  r_turn :: "string option"
  r_session :: "string option"
  r_errorCode :: "string option"
  r_error :: "string option"
  r_tokens :: "int \<times> int \<times> int"
  r_created :: instant
  r_updated :: instant

record taskDb =
  db_tasks :: "taskRow list"
  db_schedules :: "scheduleRow list"
  db_runs :: "runRow list"

text \<open>What the operations return: the task with its schedule and its latest run.\<close>

record taskView =
  v_task :: taskRow
  v_schedule :: "scheduleRow option"
  v_currentRun :: "runRow option"

section \<open>Statements the operations share\<close>

definition ownTask :: "string \<Rightarrow> string \<Rightarrow> taskRow \<Rightarrow> bool" where
  "ownTask uid tid t \<longleftrightarrow> t_id t = tid \<and> t_user t = uid"

definition ownSchedule :: "string \<Rightarrow> string \<Rightarrow> scheduleRow \<Rightarrow> bool" where
  "ownSchedule uid tid s \<longleftrightarrow> s_task s = tid \<and> s_user s = uid"

definition ownRun :: "string \<Rightarrow> string \<Rightarrow> runRow \<Rightarrow> bool" where
  "ownRun uid tid r \<longleftrightarrow> r_task r = tid \<and> r_user r = uid"

definition getTask :: "string \<Rightarrow> string \<Rightarrow> taskDb \<Rightarrow> taskRow option" where
  "getTask uid tid db = tbl_get (ownTask uid tid) (db_tasks db)"

definition scheduleOf :: "string \<Rightarrow> string \<Rightarrow> taskDb \<Rightarrow> scheduleRow option" where
  "scheduleOf uid tid db = tbl_get (ownSchedule uid tid) (db_schedules db)"

text \<open>\<open>LEFT JOIN task_schedules s ON t.id = s.task_id\<close>.\<close>

definition joined :: "taskDb \<Rightarrow> taskRow \<Rightarrow> scheduleRow option" where
  "joined db t = tbl_get (\<lambda>s. s_task s = t_id t) (db_schedules db)"

definition updateTask :: "string \<Rightarrow> string \<Rightarrow> (taskRow \<Rightarrow> taskRow) \<Rightarrow> taskDb \<Rightarrow> taskDb" where
  "updateTask uid tid f db = db\<lparr>db_tasks := tbl_update (ownTask uid tid) f (db_tasks db)\<rparr>"

definition updateSchedule :: "string \<Rightarrow> string \<Rightarrow> (scheduleRow \<Rightarrow> scheduleRow) \<Rightarrow> taskDb \<Rightarrow> taskDb" where
  "updateSchedule uid tid f db = db\<lparr>db_schedules := tbl_update (ownSchedule uid tid) f (db_schedules db)\<rparr>"

definition updateRuns :: "(runRow \<Rightarrow> bool) \<Rightarrow> (runRow \<Rightarrow> runRow) \<Rightarrow> taskDb \<Rightarrow> taskDb" where
  "updateRuns P f db = db\<lparr>db_runs := tbl_update P f (db_runs db)\<rparr>"

definition activeStatus :: "taskStatus \<Rightarrow> bool" where
  "activeStatus st \<longleftrightarrow> st = Claimed \<or> st = Running"

definition activeRunStatus :: "taskRunStatus \<Rightarrow> bool" where
  "activeRunStatus st \<longleftrightarrow> st = RunClaimed \<or> st = RunRunning"

definition terminal :: "taskStatus \<Rightarrow> bool" where
  "terminal st \<longleftrightarrow> st = Completed \<or> st = Failed \<or> st = Cancelled"

text \<open>A run in progress: its status is active and its lease has no end or has not ended.\<close>

definition liveRun :: "instant \<Rightarrow> string \<Rightarrow> string \<Rightarrow> runRow \<Rightarrow> bool" where
  "liveRun now uid tid r \<longleftrightarrow> ownRun uid tid r \<and> activeRunStatus (r_status r) \<and>
     (case r_lease r of None \<Rightarrow> True | Some l \<Rightarrow> sqlLess now l)"

text \<open>\<open>String(claimant_id || 'unknown')\<close>.\<close>

definition claimantName :: "string option \<Rightarrow> string" where
  "claimantName c = (if opt_truthy c then the c else ''unknown'')"

definition currentRun :: "string \<Rightarrow> string \<Rightarrow> taskDb \<Rightarrow> runRow option" where
  "currentRun uid tid db =
     firstMax (\<lambda>r. (r_attempt r, toISOString (r_created r))) (filter (ownRun uid tid) (db_runs db))"

definition attachScheduleAndRun :: "string \<Rightarrow> taskRow \<Rightarrow> taskDb \<Rightarrow> taskView" where
  "attachScheduleAndRun uid t db =
     \<lparr>v_task = t, v_schedule = scheduleOf uid (t_id t) db, v_currentRun = currentRun uid (t_id t) db\<rparr>"

text \<open>\<open>SELECT * \<dots>\<close> of the task the operation changed, then \<open>attachScheduleAndRun\<close>.\<close>

definition refetch :: "string \<Rightarrow> string \<Rightarrow> (taskDb, taskError, taskView) op" where
  "refetch uid tid db =
     (case getTask uid tid db of
        None \<Rightarrow> (Inl (OtherError ''TypeError''), db)
      | Some t \<Rightarrow> (Inr (attachScheduleAndRun uid t db), db))"

section \<open>Create\<close>

record createTaskInput =
  i_id :: jsval
  i_idempotencyKey :: jsval
  i_title :: jsval
  i_description :: "string option"
  i_assignee :: "string option"
  i_priority :: jsval
  i_payload :: jsval
  i_leaseDurationMs :: "int option"
  i_maxRetries :: "int option"
  i_dueDate :: jsval
  i_scheduleType :: jsval
  i_cronExpression :: jsval
  i_intervalSeconds :: jsval
  i_timezone :: jsval
  i_misfirePolicy :: jsval
  i_overlapPolicy :: jsval

fun js_truthy :: "jsval \<Rightarrow> bool" where
  "js_truthy JUndefined = False"
| "js_truthy JNull = False"
| "js_truthy (JBoolean b) = b"
| "js_truthy (JNumber n) = (n \<noteq> Num 0 \<and> n \<noteq> NaN)"
| "js_truthy (JString s) = (s \<noteq> [])"
| "js_truthy _ = True"

text \<open>\<open>x !== undefined && x !== null ? f(x) : none\<close>.\<close>

definition given :: "(jsval \<Rightarrow> taskError + 'a) \<Rightarrow> jsval \<Rightarrow> taskError + 'a option" where
  "given f v = (if v = JUndefined \<or> v = JNull then Inr None else andThen (f v) (\<lambda>x. Inr (Some x)))"

definition given_or :: "'a option \<Rightarrow> 'a \<Rightarrow> 'a" where
  "given_or x d = (case x of None \<Rightarrow> d | Some y \<Rightarrow> y)"

text \<open>The due date, cron expression and interval, each for its type of schedule only.\<close>

definition scheduleInput ::
  "taskEnv \<Rightarrow> taskScheduleType \<Rightarrow> createTaskInput \<Rightarrow> taskError + string option \<times> string option \<times> int option" where
  "scheduleInput env ty input =
     (case ty of
        Once \<Rightarrow> andThen (given validateCanonicalDueDate (i_dueDate input)) (\<lambda>d. Inr (d, None, None))
      | Cron \<Rightarrow> andThen (validateCronExpression env (i_cronExpression input)) (\<lambda>e. Inr (None, Some e, None))
      | Interval \<Rightarrow> andThen (validateIntervalSeconds (i_intervalSeconds input)) (\<lambda>n. Inr (None, None, Some n)))"

definition requiredPayload :: "taskEnv \<Rightarrow> jsval \<Rightarrow> taskError + taskPayload" where
  "requiredPayload env v =
     (if v = JUndefined \<or> v = JNull then invalid ''Task payload is required and must be an agent_prompt payload''
      else validateAgentPromptPayload env v)"

text \<open>The rows \<open>create\<close> inserts, from the validated input.\<close>

definition buildRows ::
  "taskEnv \<Rightarrow> string \<Rightarrow> createTaskInput \<Rightarrow> instant \<Rightarrow> string \<Rightarrow> string \<Rightarrow> string \<Rightarrow> string option \<Rightarrow> taskPriority option
   \<Rightarrow> taskPayload \<Rightarrow> taskScheduleType \<Rightarrow> string option \<Rightarrow> string option \<Rightarrow> int option \<Rightarrow> misfirePolicy \<Rightarrow> overlapPolicy \<Rightarrow> string
   \<Rightarrow> taskRow \<times> scheduleRow" where
  "buildRows env uid input now schedId title tid key priority payload schedType due cron interval misfire overlap tz =
     (let dueAt = map_option readIso due;
         nextRunAt = computeNextRun env \<lparr>p_scheduleType = schedType, p_cronExpression = cron, p_intervalSeconds = interval,
           p_dueDate = dueAt, p_pausedAt = None, p_enabled = True, p_timezone = Some tz\<rparr> now
     in (\<lparr>t_id = tid, t_user = uid, t_key = key, t_title = title, t_description = i_description input,
          t_assignee = i_assignee input, t_priority = given_or priority Medium, t_status = Pending,
          t_payload = payload, t_result = None, t_error = None, t_claimant = None, t_lease = None,
          t_leaseMs = (case i_leaseDurationMs input of None \<Rightarrow> 60000 | Some n \<Rightarrow> if n = 0 then 60000 else n),
          t_claims = 0, t_maxRetries = given_or (i_maxRetries input) 3, t_due = dueAt,
          t_type = schedType, t_cron = cron, t_interval = interval, t_next = nextRunAt, t_tz = tz,
          t_created = now, t_updated = now, t_completed = None\<rparr>,
         \<lparr>s_id = schedId, s_task = tid, s_user = uid, s_type = schedType, s_cron = cron, s_interval = interval,
          s_next = nextRunAt, s_last = None, s_tz = tz, s_enabled = True, s_paused = None, s_misfire = misfire,
          s_overlap = overlap, s_created = now, s_updated = now\<rparr>))"

definition createRows ::
  "taskEnv \<Rightarrow> string \<Rightarrow> createTaskInput \<Rightarrow> instant \<Rightarrow> string \<Rightarrow> string \<Rightarrow> taskError + taskRow \<times> scheduleRow" where
  "createRows env uid input now newId schedId =
     andThen (validateTaskTitle (i_title input)) (\<lambda>title.
     andThen (if i_id input = JUndefined then Inr newId else validateTaskId (i_id input)) (\<lambda>tid.
     andThen (given validateIdempotencyKey (i_idempotencyKey input)) (\<lambda>key.
     andThen (given validateTaskPriority (i_priority input)) (\<lambda>priority.
     andThen (requiredPayload env (i_payload input)) (\<lambda>payload.
     andThen (validateScheduleType (i_scheduleType input)) (\<lambda>schedType.
     andThen (scheduleInput env schedType input) (\<lambda>(due, cron, interval).
     andThen (if js_truthy (i_misfirePolicy input) then validateMisfirePolicy (i_misfirePolicy input) else Inr Coalesce) (\<lambda>misfire.
     andThen (if js_truthy (i_overlapPolicy input) then validateOverlapPolicy (i_overlapPolicy input) else Inr SkipOverlap) (\<lambda>overlap.
     andThen (validateTimezone env (i_timezone input)) (\<lambda>tz.
     Inr (buildRows env uid input now schedId title tid key priority payload schedType due cron interval misfire overlap tz)))))))))))"

text \<open>The constraints of the tables: primary keys and the unique columns.\<close>

definition insertTask :: "taskRow \<Rightarrow> (taskDb, taskError, unit) op" where
  "insertTask t db =
     (if \<exists>t' \<in> set (db_tasks db). t_id t' = t_id t \<or> (t_user t' = t_user t \<and> t_key t \<noteq> None \<and> t_key t' = t_key t)
      then (Inl ConstraintError, db) else (Inr (), db\<lparr>db_tasks := db_tasks db @ [t]\<rparr>))"

definition insertSchedule :: "scheduleRow \<Rightarrow> (taskDb, taskError, unit) op" where
  "insertSchedule s db =
     (if \<exists>s' \<in> set (db_schedules db). s_id s' = s_id s \<or> s_task s' = s_task s
      then (Inl ConstraintError, db) else (Inr (), db\<lparr>db_schedules := db_schedules db @ [s]\<rparr>))"

definition insertRun :: "runRow \<Rightarrow> (taskDb, taskError, unit) op" where
  "insertRun r db =
     (if \<exists>r' \<in> set (db_runs db). r_id r' = r_id r
      then (Inl ConstraintError, db) else (Inr (), db\<lparr>db_runs := db_runs db @ [r]\<rparr>))"

definition findById :: "string \<Rightarrow> jsval \<Rightarrow> (taskDb, taskError, taskView option) op" where
  "findById uid idv db =
     (case validateTaskId idv of
        Inl e \<Rightarrow> (Inl e, db)
      | Inr tid \<Rightarrow> (Inr (map_option (\<lambda>t. attachScheduleAndRun uid t db) (getTask uid tid db)), db))"

definition create ::
  "taskEnv \<Rightarrow> string \<Rightarrow> createTaskInput \<Rightarrow> instant \<Rightarrow> string \<Rightarrow> string \<Rightarrow> (taskDb, taskError, taskView) op" where
  "create env uid input now newId schedId db =
     (case createRows env uid input now newId schedId of
        Inl e \<Rightarrow> (Inl e, db)
      | Inr (t, s) \<Rightarrow>
          (case withImmediateTransactionSync (seq (insertTask t) (\<lambda>_. insertSchedule s)) db of
             (Inl ConstraintError, db') \<Rightarrow>
               (Inl (TaskConflict (t_id t) ''Task with idempotency key already exists for tenant''), db')
           | (Inl _, db') \<Rightarrow> (Inl (PlatformOperationsError ''Database operation failed'' ''UNKNOWN_ERROR''), db')
           | (Inr _, db') \<Rightarrow>
               (case findById uid (JString (t_id t)) db' of
                  (Inl e, db'') \<Rightarrow> (Inl e, db'')
                | (Inr None, db'') \<Rightarrow> (Inl (OtherError ''Failed to retrieve newly created task''), db'')
                | (Inr (Some v), db'') \<Rightarrow> (Inr v, db''))))"

section \<open>Update\<close>

text \<open>The row a schedule change leaves; a value not given keeps the one stored.\<close>

record scheduleConfig =
  k_type :: taskScheduleType
  k_cron :: "string option"
  k_interval :: "int option"
  k_due :: "instant option"
  k_next :: "instant option"
  k_tz :: string
  k_misfire :: misfirePolicy
  k_overlap :: overlapPolicy

definition scheduleConfigOf ::
  "taskEnv \<Rightarrow> updateTaskInput \<Rightarrow> taskRow \<Rightarrow> scheduleRow option \<Rightarrow> instant \<Rightarrow> taskError + scheduleConfig" where
  "scheduleConfigOf env u t so now =
     (let schedType = given_or (u_scheduleType u) (case so of None \<Rightarrow> t_type t | Some s \<Rightarrow> s_type s);
          cron = given_or (u_cronExpression u) (case so of None \<Rightarrow> t_cron t | Some s \<Rightarrow> s_cron s);
          interval = given_or (u_intervalSeconds u) (case so of None \<Rightarrow> t_interval t | Some s \<Rightarrow> s_interval s);
          tz = given_or (u_timezone u) (case so of None \<Rightarrow> t_tz t | Some s \<Rightarrow> s_tz s);
          due = given_or (map_option (map_option readIso) (u_dueDate u)) (t_due t);
          misfire = given_or (u_misfirePolicy u) (case so of None \<Rightarrow> Coalesce | Some s \<Rightarrow> s_misfire s);
          overlap = given_or (u_overlapPolicy u) (case so of None \<Rightarrow> SkipOverlap | Some s \<Rightarrow> s_overlap s);
          changed = (u_scheduleType u \<noteq> None \<or> u_cronExpression u \<noteq> None \<or> u_intervalSeconds u \<noteq> None \<or>
            u_dueDate u \<noteq> None \<or> u_timezone u \<noteq> None);
          effCron = (if schedType = Cron then cron else None);
          effInterval = (if schedType = Interval then interval else None);
          effDue = (if schedType = Once then due else None)
      in if schedType = Cron \<and> \<not> opt_truthy cron
         then invalid ''Cron expression is required for cron schedule type''
         else if schedType = Interval \<and> (interval = None \<or> interval = Some 0)
         then invalid ''Interval seconds is required for interval schedule type''
         else Inr \<lparr>k_type = schedType, k_cron = effCron, k_interval = effInterval, k_due = effDue,
           k_next = (if changed
             then computeNextRun env \<lparr>p_scheduleType = schedType, p_cronExpression = effCron,
                    p_intervalSeconds = effInterval, p_dueDate = effDue,
                    p_pausedAt = (case so of None \<Rightarrow> None | Some s \<Rightarrow> s_paused s),
                    p_enabled = (case so of None \<Rightarrow> True | Some s \<Rightarrow> s_enabled s), p_timezone = Some tz\<rparr> now
             else (case so of None \<Rightarrow> t_next t | Some s \<Rightarrow> s_next s)),
           k_tz = tz, k_misfire = misfire, k_overlap = overlap\<rparr>)"

definition applyUpdate :: "updateTaskInput \<Rightarrow> agentPromptPayload \<Rightarrow> scheduleConfig \<Rightarrow> instant \<Rightarrow> taskRow \<Rightarrow> taskRow" where
  "applyUpdate u p k now t = t\<lparr>
     t_title := given_or (u_title u) (t_title t), t_description := given_or (u_description u) (t_description t),
     t_assignee := given_or (u_assignee u) (t_assignee t), t_priority := given_or (u_priority u) (t_priority t),
     t_payload := AgentPrompt (p\<lparr>a_prompt := given_or (u_prompt u) (a_prompt p)\<rparr>),
     t_due := k_due k, t_type := k_type k, t_cron := k_cron k, t_interval := k_interval k, t_next := k_next k,
     t_tz := k_tz k, t_updated := now\<rparr>"

definition writeSchedule :: "string \<Rightarrow> string \<Rightarrow> scheduleConfig \<Rightarrow> instant \<Rightarrow> string \<Rightarrow> (taskDb, taskError, unit) op" where
  "writeSchedule uid tid k now schedId db =
     (case scheduleOf uid tid db of
        Some _ \<Rightarrow>
          (Inr (), updateSchedule uid tid (\<lambda>s. s\<lparr>s_type := k_type k, s_cron := k_cron k, s_interval := k_interval k,
             s_next := k_next k, s_tz := k_tz k, s_misfire := k_misfire k, s_overlap := k_overlap k, s_updated := now\<rparr>) db)
      | None \<Rightarrow>
          insertSchedule \<lparr>s_id = schedId, s_task = tid, s_user = uid, s_type = k_type k, s_cron = k_cron k,
            s_interval = k_interval k, s_next = k_next k, s_last = None, s_tz = k_tz k, s_enabled = True, s_paused = None,
            s_misfire = k_misfire k, s_overlap = k_overlap k, s_created = now, s_updated = now\<rparr> db)"

definition updateAllowed :: "string \<Rightarrow> string \<Rightarrow> taskRow \<Rightarrow> instant \<Rightarrow> taskDb \<Rightarrow> taskError + unit" where
  "updateAllowed uid tid t now db =
     (if activeStatus (t_status t) then Inl (TaskAlreadyClaimed tid (claimantName (t_claimant t)))
      else case tbl_get (liveRun now uid tid) (db_runs db) of
          Some r \<Rightarrow> Inl (TaskAlreadyClaimed tid (claimantName (if opt_truthy (r_claimant r) then r_claimant r else t_claimant t)))
        | None \<Rightarrow>
            (if (case scheduleOf uid tid db of None \<Rightarrow> t_type t | Some s \<Rightarrow> s_type s) = Once then
               if terminal (t_status t) then Inl (TaskAlreadyCompleted tid) else Inr ()
             else if t_status t = Cancelled \<or> t_status t = Failed
             then Inl (TaskConflict tid ''Recurring task cannot be modified'')
             else Inr ()))"

definition update ::
  "taskEnv \<Rightarrow> string \<Rightarrow> jsval \<Rightarrow> jsval \<Rightarrow> instant \<Rightarrow> string \<Rightarrow> (taskDb, taskError, taskView) op" where
  "update env uid idv input now schedId =
     check (validateTaskId idv) (\<lambda>tid.
     check (validateUpdateTaskInput env input) (\<lambda>u.
     withImmediateTransactionSync (\<lambda>db.
       case getTask uid tid db of
         None \<Rightarrow> (Inl (TaskNotFound tid), db)
       | Some t \<Rightarrow>
           check (updateAllowed uid tid t now db) (\<lambda>_.
             case t_payload t of
               Script _ \<Rightarrow> (\<lambda>db. (Inl (OtherError ''Corrupted task row: missing or invalid agent_prompt payload''), db))
             | AgentPrompt p \<Rightarrow>
                 check (scheduleConfigOf env u t (scheduleOf uid tid db) now) (\<lambda>k db.
                   seq (writeSchedule uid tid k now schedId) (\<lambda>_. refetch uid tid)
                     (updateTask uid tid (applyUpdate u p k now) db))) db)))"

section \<open>Queries\<close>

definition findByIdempotencyKey :: "string \<Rightarrow> jsval \<Rightarrow> (taskDb, taskError, taskView option) op" where
  "findByIdempotencyKey uid keyv db =
     (case validateIdempotencyKey keyv of
        Inl e \<Rightarrow> (Inl e, db)
      | Inr key \<Rightarrow>
          (Inr (map_option (\<lambda>t. attachScheduleAndRun uid t db)
             (tbl_get (\<lambda>t. t_user t = uid \<and> t_key t = Some key) (db_tasks db))), db))"

record taskQuery =
  q_status :: "taskStatus list option"
  q_assignee :: "string option"
  q_priority :: "taskPriority option"
  q_scheduleType :: "taskScheduleType option"
  q_limit :: "int option"
  q_offset :: "int option"

text \<open>\<open>LIMIT l OFFSET o\<close>: a negative limit is none, a negative offset is 0.\<close>

definition sqlPage :: "int option \<Rightarrow> int option \<Rightarrow> 'r list \<Rightarrow> 'r list" where
  "sqlPage limit off rows =
     (case limit of
        None \<Rightarrow> rows
      | Some l \<Rightarrow>
          let rest = drop (case off of None \<Rightarrow> 0 | Some n \<Rightarrow> nat n) rows
          in if l < 0 then rest else take (nat l) rest)"

definition orderDesc :: "('r \<Rightarrow> 'k :: linorder) \<Rightarrow> 'r list \<Rightarrow> 'r list" where
  "orderDesc k rows = rev (sort_key k (rev rows))"

definition listTasks :: "string \<Rightarrow> taskQuery \<Rightarrow> taskDb \<Rightarrow> taskView list" where
  "listTasks uid q db =
     map (\<lambda>t. attachScheduleAndRun uid t db)
       (sqlPage (q_limit q) (q_offset q)
         (orderDesc (\<lambda>t. toISOString (t_created t))
           (filter (\<lambda>t. t_user t = uid \<and>
               (case q_status q of None \<Rightarrow> True | Some sts \<Rightarrow> t_status t \<in> set sts) \<and>
               (opt_truthy (q_assignee q) \<longrightarrow> t_assignee t = q_assignee q) \<and>
               (case q_priority q of None \<Rightarrow> True | Some p \<Rightarrow> t_priority t = p) \<and>
               (case q_scheduleType q of None \<Rightarrow> True | Some ty \<Rightarrow> t_type t = ty)) (db_tasks db))))"

definition getSchedule :: "string \<Rightarrow> jsval \<Rightarrow> taskDb \<Rightarrow> taskError + scheduleRow option" where
  "getSchedule uid idv db = andThen (validateTaskId idv) (\<lambda>tid. Inr (scheduleOf uid tid db))"

record taskRunsList =
  l_items :: "runRow list"
  l_total :: nat
  l_limit :: int
  l_offset :: int

definition listRuns ::
  "string \<Rightarrow> jsval \<Rightarrow> taskRunStatus list option \<Rightarrow> int option \<Rightarrow> int option \<Rightarrow> taskDb \<Rightarrow> taskError + taskRunsList" where
  "listRuns uid idv statuses limit off db =
     andThen (validateTaskId idv) (\<lambda>tid.
       let l = given_or limit 50; n = given_or off 0;
           rows = filter (\<lambda>r. ownRun uid tid r \<and> (case statuses of None \<Rightarrow> True | Some sts \<Rightarrow> r_status r \<in> set sts)) (db_runs db)
       in Inr \<lparr>l_items = sqlPage (Some l) (Some n) (orderDesc (\<lambda>r. (r_attempt r, toISOString (r_created r))) rows),
            l_total = length rows, l_limit = l, l_offset = n\<rparr>)"

definition getRun :: "string \<Rightarrow> jsval \<Rightarrow> taskDb \<Rightarrow> taskError + runRow option" where
  "getRun uid idv db =
     andThen (validateRunId idv) (\<lambda>tid. Inr (tbl_get (\<lambda>r. r_id r = tid \<and> r_user r = uid) (db_runs db)))"

section \<open>Delete, pause and resume\<close>

text \<open>Deleting a task deletes its schedule and runs (\<open>ON DELETE CASCADE\<close>).\<close>

definition deleteTask :: "string \<Rightarrow> jsval \<Rightarrow> (taskDb, taskError, bool) op" where
  "deleteTask uid idv =
     check (validateTaskId idv) (\<lambda>tid. withImmediateTransactionSync (\<lambda>db.
       case getTask uid tid db of
         None \<Rightarrow> (Inl (TaskNotFound tid), db)
       | Some t \<Rightarrow>
           if activeStatus (t_status t) then (Inl (TaskConflict tid ''Cannot delete task while in this status''), db)
           else if tbl_get (\<lambda>r. ownRun uid tid r \<and> activeRunStatus (r_status r)) (db_runs db) \<noteq> None
           then (Inl (TaskConflict tid ''Task has an active execution run''), db)
           else (Inr True,
             \<lparr>db_tasks = filter (\<lambda>t. \<not> ownTask uid tid t) (db_tasks db),
              db_schedules = filter (\<lambda>s. s_task s \<noteq> tid) (db_schedules db),
              db_runs = filter (\<lambda>r. r_task r \<noteq> tid) (db_runs db)\<rparr>)))"

definition pause :: "string \<Rightarrow> jsval \<Rightarrow> instant \<Rightarrow> (taskDb, taskError, taskView) op" where
  "pause uid idv now =
     check (validateTaskId idv) (\<lambda>tid. withImmediateTransactionSync (\<lambda>db.
       case getTask uid tid db of
         None \<Rightarrow> (Inl (TaskNotFound tid), db)
       | Some t \<Rightarrow>
           refetch uid tid
             (updateTask uid tid (\<lambda>t. t\<lparr>t_updated := now\<rparr>)
               (updateSchedule uid tid (\<lambda>s. s\<lparr>s_enabled := False, s_paused := Some now, s_updated := now\<rparr>) db))))"

definition resume :: "taskEnv \<Rightarrow> string \<Rightarrow> jsval \<Rightarrow> instant \<Rightarrow> (taskDb, taskError, taskView) op" where
  "resume env uid idv now =
     check (validateTaskId idv) (\<lambda>tid. withImmediateTransactionSync (\<lambda>db.
       case getTask uid tid db of
         None \<Rightarrow> (Inl (TaskNotFound tid), db)
       | Some t \<Rightarrow>
           let so = scheduleOf uid tid db;
               nextRunAt = computeNextRun env
                 \<lparr>p_scheduleType = (case so of None \<Rightarrow> t_type t | Some s \<Rightarrow> s_type s),
                  p_cronExpression = orElse (Option.bind so s_cron) (t_cron t),
                  p_intervalSeconds = orElse (Option.bind so s_interval) (t_interval t),
                  p_dueDate = t_due t, p_pausedAt = None, p_enabled = True,
                  p_timezone = Some (case so of None \<Rightarrow> t_tz t | Some s \<Rightarrow> s_tz s)\<rparr> now
           in refetch uid tid
                (updateTask uid tid (\<lambda>t. t\<lparr>t_status := Pending, t_claimant := None, t_lease := None, t_claims := 0,
                   t_completed := None, t_next := nextRunAt, t_updated := now\<rparr>)
                 (updateSchedule uid tid (\<lambda>s. s\<lparr>s_enabled := True, s_paused := None, s_next := nextRunAt,
                    s_updated := now\<rparr>) db))))"

end
