(* ===== verification/Task_Lease.thy ===== *)
theory Task_Lease
  imports Task_Store
begin

text \<open>
  The operations of the tenant-scoped task repository that deal with leases
  (\<open>platform-storage-sqlite/src/repos/task-repo.ts\<close>): claiming a task, renewing its lease, settling
  it (complete, fail, cancel), recovering expired leases, and running it by hand.
\<close>

section \<open>Recurring tasks\<close>

definition hasSchedule :: "string option \<Rightarrow> int option \<Rightarrow> bool" where
  "hasSchedule cron interval \<longleftrightarrow> opt_truthy cron \<or> (case interval of None \<Rightarrow> False | Some n \<Rightarrow> n > 0)"

text \<open>As \<open>claim\<close> and \<open>recoverExpiredLeases\<close> decide it, on the joined rows.\<close>

definition joinedType :: "taskRow \<Rightarrow> scheduleRow option \<Rightarrow> taskScheduleType" where
  "joinedType t so = (case so of None \<Rightarrow> t_type t | Some s \<Rightarrow> s_type s)"

definition joinedCron :: "taskRow \<Rightarrow> scheduleRow option \<Rightarrow> string option" where
  "joinedCron t so = (let c = Option.bind so s_cron in if opt_truthy c then c else t_cron t)"

definition joinedInterval :: "taskRow \<Rightarrow> scheduleRow option \<Rightarrow> int option" where
  "joinedInterval t so = orElse (Option.bind so s_interval) (t_interval t)"

definition joinedRecurring :: "taskRow \<Rightarrow> scheduleRow option \<Rightarrow> bool" where
  "joinedRecurring t so \<longleftrightarrow> joinedType t so \<noteq> Once \<or> hasSchedule (joinedCron t so) (joinedInterval t so)"

text \<open>As \<open>complete\<close>, \<open>fail\<close> and \<open>createManualRun\<close> decide it: the schedule's columns where there is one.\<close>

definition rowCron :: "taskRow \<Rightarrow> scheduleRow option \<Rightarrow> string option" where
  "rowCron t so = (case so of None \<Rightarrow> t_cron t | Some s \<Rightarrow> s_cron s)"

definition rowInterval :: "taskRow \<Rightarrow> scheduleRow option \<Rightarrow> int option" where
  "rowInterval t so = (case so of None \<Rightarrow> t_interval t | Some s \<Rightarrow> s_interval s)"

definition rowRecurring :: "taskRow \<Rightarrow> scheduleRow option \<Rightarrow> bool" where
  "rowRecurring t so \<longleftrightarrow> t_type t \<noteq> Once \<or> (case so of None \<Rightarrow> False | Some s \<Rightarrow> s_type s \<noteq> Once) \<or>
     hasSchedule (rowCron t so) (rowInterval t so)"

text \<open>\<open>COALESCE(s.next_run_at, t.next_run_at)\<close>.\<close>

definition nextRunOf :: "taskRow \<Rightarrow> scheduleRow option \<Rightarrow> instant option" where
  "nextRunOf t so = orElse (Option.bind so s_next) (t_next t)"

definition scheduleOn :: "scheduleRow option \<Rightarrow> bool" where
  "scheduleOn so \<longleftrightarrow> (case so of None \<Rightarrow> True | Some s \<Rightarrow> s_enabled s \<and> s_paused s = None)"

section \<open>Claim\<close>

record claimTaskInput =
  cl_claimantId :: jsval
  cl_leaseDurationMs :: int
  cl_preferredTaskId :: jsval
  cl_now :: instant

text \<open>
  The checks of a claim that names its task: \<open>Some\<close> the task, \<open>None\<close> when it is not to be claimed
  now. The only overlap policy is \<open>skip\<close>.
\<close>

definition claimPreferred :: "string \<Rightarrow> string \<Rightarrow> instant \<Rightarrow> taskDb \<Rightarrow> taskError + string option" where
  "claimPreferred uid tid now db =
     (case getTask uid tid db of
        None \<Rightarrow> Inl (TaskNotFound tid)
      | Some t \<Rightarrow>
          let so = joined db t in
          if t_status t = Cancelled then Inl (TaskAlreadyCompleted tid)
          else if \<not> joinedRecurring t so \<and> (t_status t = Completed \<or> t_status t = Failed)
          then Inl (TaskAlreadyCompleted tid)
          else if \<not> scheduleOn so then Inr None
          else if activeStatus (t_status t) \<and> (case t_lease t of None \<Rightarrow> False | Some l \<Rightarrow> l > now) then Inr None
          else if tbl_get (liveRun now uid tid) (db_runs db) \<noteq> None then Inr None
          else if (case orElse (nextRunOf t so) (t_due t) of None \<Rightarrow> False | Some d \<Rightarrow> d > now) then Inr None
          else Inr (Some tid))"

text \<open>The general queue: the tasks a worker may take, and the order of the queue.\<close>

definition isDue :: "instant \<Rightarrow> taskRow \<Rightarrow> scheduleRow option \<Rightarrow> bool" where
  "isDue now t so \<longleftrightarrow>
     (case nextRunOf t so of
        Some n \<Rightarrow> sqlLe n now
      | None \<Rightarrow> (case t_due t of None \<Rightarrow> True | Some d \<Rightarrow> sqlLe d now))"

definition eligible :: "string \<Rightarrow> instant \<Rightarrow> taskDb \<Rightarrow> taskRow \<Rightarrow> bool" where
  "eligible uid now db t \<longleftrightarrow>
     (let so = joined db t in
      t_user t = uid \<and> scheduleOn so \<and>
      ((t_status t = Pending \<and> isDue now t so) \<or>
       (activeStatus (t_status t) \<and> (case t_lease t of None \<Rightarrow> False | Some l \<Rightarrow> sqlLe l now) \<and>
        t_claims t < t_maxRetries t \<and> isDue now t so)) \<and>
      \<not> (\<exists>r \<in> set (db_runs db). liveRun now (t_user t) (t_id t) r))"

fun priorityRank :: "taskPriority \<Rightarrow> nat" where
  "priorityRank Urgent = 1"
| "priorityRank High = 2"
| "priorityRank Medium = 3"
| "priorityRank Low = 4"

definition queueKey :: "taskDb \<Rightarrow> taskRow \<Rightarrow> nat \<times> string \<times> string" where
  "queueKey db t =
     (priorityRank (t_priority t),
      (case orElse (nextRunOf t (joined db t)) (t_due t) of
         Some d \<Rightarrow> toISOString d
       | None \<Rightarrow> ''9999-99-99T99:99:99.999Z''),
      toISOString (t_created t))"

definition claimNext :: "string \<Rightarrow> instant \<Rightarrow> taskDb \<Rightarrow> string option" where
  "claimNext uid now db = map_option t_id (firstMin (queueKey db) (filter (eligible uid now db) (db_tasks db)))"

text \<open>The writes of a claim: a run, the task's lease, and the next run of a recurring schedule.\<close>

definition newRun ::
  "string \<Rightarrow> string \<Rightarrow> string \<Rightarrow> scheduleRow option \<Rightarrow> string \<Rightarrow> instant \<Rightarrow> instant \<Rightarrow> instant \<Rightarrow> taskDb \<Rightarrow> runRow" where
  "newRun uid tid runId so claimant lease scheduledFor now db =
     \<lparr>r_id = runId, r_task = tid, r_schedule = map_option s_id so, r_user = uid,
      r_attempt = length (filter (ownRun uid tid) (db_runs db)) + 1, r_status = RunClaimed,
      r_claimant = Some claimant, r_lease = Some lease, r_scheduledFor = Some scheduledFor, r_started = Some now,
      r_completed = None, r_delivery = None, r_turn = None, r_session = None, r_errorCode = None, r_error = None,
      r_tokens = (0, 0, 0), r_created = now, r_updated = now\<rparr>"

definition subsequentRun :: "taskEnv \<Rightarrow> taskRow \<Rightarrow> scheduleRow option \<Rightarrow> instant \<Rightarrow> instant \<Rightarrow> instant option" where
  "subsequentRun env t so scheduledFor now =
     (if joinedType t so = Once then None
      else computeNextRun env
        \<lparr>p_scheduleType = joinedType t so, p_cronExpression = orElse (Option.bind so s_cron) (t_cron t),
         p_intervalSeconds = joinedInterval t so, p_dueDate = None, p_pausedAt = None, p_enabled = True,
         p_timezone = Some (case so of None \<Rightarrow> t_tz t | Some s \<Rightarrow> s_tz s)\<rparr> (max now scheduledFor))"

definition takeLease ::
  "taskEnv \<Rightarrow> string \<Rightarrow> string \<Rightarrow> string \<Rightarrow> int \<Rightarrow> instant \<Rightarrow> string \<Rightarrow> (taskDb, taskError, taskView) op" where
  "takeLease env uid tid claimant leaseMs now runId db =
     (case getTask uid tid db of
        None \<Rightarrow> (Inl (OtherError ''TypeError''), db)
      | Some t \<Rightarrow>
          let so = scheduleOf uid tid db;
              lease = now + leaseMs;
              scheduledFor = given_or (orElse (nextRunOf t so) (t_due t)) now;
              nextRun = orElse (subsequentRun env t so scheduledFor now) (nextRunOf t so)
          in seq (insertRun (newRun uid tid runId so claimant lease scheduledFor now db)) (\<lambda>_ db.
               refetch uid tid
                 (updateSchedule uid tid (\<lambda>s. s\<lparr>s_next := nextRun, s_last := Some now, s_updated := now\<rparr>)
                   (updateTask uid tid (\<lambda>t. t\<lparr>t_status := Claimed, t_claimant := Some claimant, t_lease := Some lease,
                      t_leaseMs := leaseMs, t_claims := t_claims t + 1, t_completed := None, t_next := nextRun,
                      t_updated := now\<rparr>) db))) db)"

definition claim :: "taskEnv \<Rightarrow> string \<Rightarrow> claimTaskInput \<Rightarrow> string \<Rightarrow> (taskDb, taskError, taskView option) op" where
  "claim env uid input runId =
     check (validateClaimantId (cl_claimantId input)) (\<lambda>claimant.
     check (given validateTaskId (cl_preferredTaskId input)) (\<lambda>preferred.
     withImmediateTransactionSync (\<lambda>db.
       check (case preferred of
                Some tid \<Rightarrow> claimPreferred uid tid (cl_now input) db
              | None \<Rightarrow> Inr (claimNext uid (cl_now input) db)) (\<lambda>target.
         case target of
           None \<Rightarrow> (\<lambda>db. (Inr None, db))
         | Some tid \<Rightarrow>
             seq (takeLease env uid tid claimant (cl_leaseDurationMs input) (cl_now input) runId)
               (\<lambda>v db. (Inr (Some v), db))) db)))"

section \<open>Renew\<close>

text \<open>The task is claimed by \<open>claimant\<close>.\<close>

definition heldBy :: "string \<Rightarrow> string \<Rightarrow> string \<Rightarrow> taskRow \<Rightarrow> bool" where
  "heldBy uid tid claimant t \<longleftrightarrow> ownTask uid tid t \<and> t_claimant t = Some claimant \<and> activeStatus (t_status t)"

definition runIdMatches :: "string option \<Rightarrow> runRow \<Rightarrow> bool" where
  "runIdMatches runId r \<longleftrightarrow> (opt_truthy runId \<longrightarrow> r_id r = the runId)"

definition renewable :: "string \<Rightarrow> string \<Rightarrow> string \<Rightarrow> instant \<Rightarrow> taskRow \<Rightarrow> bool" where
  "renewable uid tid claimant now t \<longleftrightarrow>
     heldBy uid tid claimant t \<and> (case t_lease t of None \<Rightarrow> False | Some l \<Rightarrow> sqlLess now l)"

definition renewRefused :: "string \<Rightarrow> string \<Rightarrow> string \<Rightarrow> instant \<Rightarrow> taskDb \<Rightarrow> taskError" where
  "renewRefused uid tid claimant now db =
     (case getTask uid tid db of
        None \<Rightarrow> TaskNotFound tid
      | Some t \<Rightarrow>
          if terminal (t_status t) then TaskAlreadyCompleted tid
          else if t_claimant t \<noteq> Some claimant then TaskAlreadyClaimed tid (claimantName (t_claimant t))
          else if (case t_lease t of None \<Rightarrow> True | Some l \<Rightarrow> l \<le> now) then TaskLeaseExpired tid
          else TaskAlreadyClaimed tid (claimantName (t_claimant t)))"

definition renewLease ::
  "string \<Rightarrow> jsval \<Rightarrow> jsval \<Rightarrow> int \<Rightarrow> string option \<Rightarrow> instant \<Rightarrow> (taskDb, taskError, taskView) op" where
  "renewLease uid idv claimantv leaseMs runId now =
     check (validateTaskId idv) (\<lambda>tid.
     check (validateClaimantId claimantv) (\<lambda>claimant.
     withImmediateTransactionSync (\<lambda>db.
       if tbl_get (renewable uid tid claimant now) (db_tasks db) = None
       then (Inl (renewRefused uid tid claimant now db), db)
       else refetch uid tid
         (updateRuns (\<lambda>r. ownRun uid tid r \<and> r_claimant r = Some claimant \<and> activeRunStatus (r_status r) \<and>
              (case r_lease r of None \<Rightarrow> False | Some l \<Rightarrow> sqlLess now l) \<and> runIdMatches runId r)
            (\<lambda>r. r\<lparr>r_lease := Some (now + leaseMs), r_updated := now\<rparr>)
            (db\<lparr>db_tasks := tbl_update (renewable uid tid claimant now)
               (\<lambda>t. t\<lparr>t_lease := Some (now + leaseMs), t_leaseMs := leaseMs, t_updated := now\<rparr>) (db_tasks db)\<rparr>)))))"

section \<open>Complete and fail\<close>

text \<open>
  What both read first: whether the task recurs, and the time of its next run, computed anew when
  the stored one has passed.
\<close>

definition settledNext :: "taskEnv \<Rightarrow> taskRow \<Rightarrow> scheduleRow option \<Rightarrow> instant \<Rightarrow> instant option" where
  "settledNext env t so clock =
     (let existing = nextRunOf t so; cron = rowCron t so in
      if rowRecurring t so \<and> (case existing of None \<Rightarrow> True | Some n \<Rightarrow> n \<le> clock)
      then computeNextRun env
        \<lparr>p_scheduleType = (if joinedType t so \<noteq> Once then joinedType t so else if opt_truthy cron then Cron else Interval),
         p_cronExpression = cron, p_intervalSeconds = rowInterval t so, p_dueDate = None,
         p_pausedAt = Option.bind so s_paused, p_enabled = (case so of None \<Rightarrow> True | Some s \<Rightarrow> s_enabled s),
         p_timezone = Some (case so of None \<Rightarrow> t_tz t | Some s \<Rightarrow> s_tz s)\<rparr> clock
      else existing)"

definition settleable :: "string \<Rightarrow> string \<Rightarrow> string \<Rightarrow> instant \<Rightarrow> taskRow \<Rightarrow> bool" where
  "settleable uid tid claimant clock t \<longleftrightarrow>
     heldBy uid tid claimant t \<and> (case t_lease t of None \<Rightarrow> False | Some l \<Rightarrow> sqlLe clock l)"

definition settleRefused :: "string \<Rightarrow> string \<Rightarrow> instant \<Rightarrow> taskRow \<Rightarrow> taskError" where
  "settleRefused tid claimant clock t =
     (if terminal (t_status t) then TaskAlreadyCompleted tid
      else if t_claimant t \<noteq> Some claimant then TaskAlreadyClaimed tid (claimantName (t_claimant t))
      else if (case t_lease t of None \<Rightarrow> True | Some l \<Rightarrow> l < clock) then TaskLeaseExpired tid
      else TaskAlreadyCompleted tid)"

text \<open>
  The statements of a settlement: \<open>UPDATE platform_tasks \<dots> WHERE \<dots> RETURNING *\<close>, the runs of the
  claimant, the next run of the schedule. \<open>setTask\<close> and \<open>setRun\<close> are the columns the caller writes.
\<close>

definition settle ::
  "taskEnv \<Rightarrow> string \<Rightarrow> string \<Rightarrow> string \<Rightarrow> string option \<Rightarrow> instant
   \<Rightarrow> (bool \<Rightarrow> instant option \<Rightarrow> taskRow \<Rightarrow> taskRow) \<Rightarrow> (runRow \<Rightarrow> runRow) \<Rightarrow> (taskDb, taskError, taskView) op" where
  "settle env uid tid claimant runId clock setTask setRun =
     withImmediateTransactionSync (\<lambda>db.
       case getTask uid tid db of
         None \<Rightarrow> (Inl (TaskNotFound tid), db)
       | Some t \<Rightarrow>
           let so = scheduleOf uid tid db; recurring = rowRecurring t so; next = settledNext env t so clock in
           if tbl_get (settleable uid tid claimant clock) (db_tasks db) = None
           then (Inl (settleRefused tid claimant clock t), db)
           else refetch uid tid
             ((if recurring \<and> next \<noteq> None
               then updateSchedule uid tid (\<lambda>s. s\<lparr>s_next := next, s_updated := clock\<rparr>) else (\<lambda>db. db))
              (updateRuns (\<lambda>r. ownRun uid tid r \<and> r_claimant r = Some claimant \<and> activeRunStatus (r_status r) \<and>
                  runIdMatches runId r) setRun
                (db\<lparr>db_tasks := tbl_update (settleable uid tid claimant clock) (setTask recurring next) (db_tasks db)\<rparr>))))"

definition completeTask :: "taskResult \<Rightarrow> instant \<Rightarrow> bool \<Rightarrow> instant option \<Rightarrow> taskRow \<Rightarrow> taskRow" where
  "completeTask result clock recurring next t = t\<lparr>
     t_status := (if recurring then Pending else Completed), t_result := Some result, t_error := None,
     t_claimant := None, t_lease := None, t_claims := (if recurring then 0 else t_claims t),
     t_next := (if recurring then next else t_next t), t_updated := clock,
     t_completed := (if recurring then None else Some clock)\<rparr>"

definition completeRun :: "taskResult \<Rightarrow> int \<times> int \<times> int \<Rightarrow> instant \<Rightarrow> runRow \<Rightarrow> runRow" where
  "completeRun result usage clock r = r\<lparr>
     r_status := RunCompleted, r_completed := Some clock,
     r_delivery := (case result of AgentResult g \<Rightarrow> g_messageId g | ScriptResult _ \<Rightarrow> None),
     r_turn := (case result of AgentResult g \<Rightarrow> g_turnId g | ScriptResult _ \<Rightarrow> None),
     r_session := (case result of AgentResult g \<Rightarrow> g_sessionId g | ScriptResult _ \<Rightarrow> None),
     r_tokens := usage, r_updated := clock\<rparr>"

text \<open>Without a clock of the caller the time of completion is the one the result reports.\<close>

definition complete ::
  "taskEnv \<Rightarrow> string \<Rightarrow> jsval \<Rightarrow> jsval \<Rightarrow> jsval \<Rightarrow> string option \<Rightarrow> int \<times> int \<times> int \<Rightarrow> instant option
   \<Rightarrow> (taskDb, taskError, taskView) op" where
  "complete env uid idv claimantv resultv runId usage now =
     check (validateTaskId idv) (\<lambda>tid.
     check (validateClaimantId claimantv) (\<lambda>claimant.
     check (validateAgentPromptResult resultv) (\<lambda>result.
       let clock = given_or now (readIso (completedAt result)) in
       settle env uid tid claimant runId clock (completeTask result clock) (completeRun result usage clock))))"

definition failTask :: "string \<Rightarrow> bool \<Rightarrow> instant \<Rightarrow> bool \<Rightarrow> instant option \<Rightarrow> taskRow \<Rightarrow> taskRow" where
  "failTask err retryable clock recurring next t =
     (let final = (\<not> retryable \<or> t_claims t \<ge> t_maxRetries t) in t\<lparr>
      t_status := (if recurring then Pending else if final then Failed else Pending),
      t_claimant := None, t_lease := None, t_error := Some err,
      t_claims := (if recurring then 0 else t_claims t), t_next := (if recurring then next else t_next t),
      t_updated := clock, t_completed := (if recurring then None else if final then Some clock else None)\<rparr>)"

definition failRun :: "string \<Rightarrow> string option \<Rightarrow> instant \<Rightarrow> runRow \<Rightarrow> runRow" where
  "failRun err code clock r = r\<lparr>
     r_status := RunFailed, r_completed := Some clock, r_errorCode := Some (given_or code TASK_EXECUTION_FAILED),
     r_error := Some err, r_updated := clock\<rparr>"

definition fail ::
  "taskEnv \<Rightarrow> string \<Rightarrow> jsval \<Rightarrow> jsval \<Rightarrow> string \<Rightarrow> bool \<Rightarrow> string option \<Rightarrow> string option \<Rightarrow> instant
   \<Rightarrow> (taskDb, taskError, taskView) op" where
  "fail env uid idv claimantv err retryable runId code clock =
     check (validateTaskId idv) (\<lambda>tid.
     check (validateClaimantId claimantv) (\<lambda>claimant.
       settle env uid tid claimant runId clock (failTask err retryable clock) (failRun err code clock)))"

section \<open>Cancel\<close>

definition cancel :: "string \<Rightarrow> jsval \<Rightarrow> instant \<Rightarrow> (taskDb, taskError, taskView) op" where
  "cancel uid idv now =
     check (validateTaskId idv) (\<lambda>tid. withImmediateTransactionSync (\<lambda>db.
       let open_task = (\<lambda>t. ownTask uid tid t \<and> \<not> terminal (t_status t));
           db' = updateRuns (\<lambda>r. ownRun uid tid r \<and> (r_status r = RunPending \<or> activeRunStatus (r_status r)))
               (\<lambda>r. r\<lparr>r_status := RunCancelled, r_errorCode := Some TASK_CANCELLED, r_error := Some TASK_CANCELLED,
                  r_completed := Some now, r_updated := now\<rparr>)
             (updateSchedule uid tid (\<lambda>s. s\<lparr>s_enabled := False, s_paused := Some now, s_updated := now\<rparr>)
               (db\<lparr>db_tasks := tbl_update open_task
                 (\<lambda>t. t\<lparr>t_status := Cancelled, t_error := Some TASK_CANCELLED, t_claimant := None, t_lease := None,
                    t_updated := now, t_completed := Some now\<rparr>) (db_tasks db)\<rparr>))
       in if tbl_get open_task (db_tasks db) \<noteq> None then refetch uid tid db'
          else case getTask uid tid db' of
              None \<Rightarrow> (Inl (TaskNotFound tid), db')
            | Some t \<Rightarrow> if terminal (t_status t) then (Inl (TaskAlreadyCompleted tid), db') else refetch uid tid db'))"

section \<open>Recovery of expired leases\<close>

record taskRecoveryResult =
  v_taskIds :: "string list"
  v_retriedIds :: "string list"
  v_failedIds :: "string list"

definition expired :: "instant \<Rightarrow> taskRow \<Rightarrow> bool" where
  "expired now t \<longleftrightarrow> activeStatus (t_status t) \<and> (case t_lease t of None \<Rightarrow> False | Some l \<Rightarrow> sqlLe l now)"

definition recoveredNext :: "taskEnv \<Rightarrow> taskRow \<Rightarrow> scheduleRow option \<Rightarrow> instant \<Rightarrow> instant option" where
  "recoveredNext env t so now =
     (let existing = nextRunOf t so; cron = joinedCron t so in
      if (case existing of None \<Rightarrow> True | Some n \<Rightarrow> n \<le> now)
      then computeNextRun env
        \<lparr>p_scheduleType = (if joinedType t so \<noteq> Once then joinedType t so else if opt_truthy cron then Cron else Interval),
         p_cronExpression = cron, p_intervalSeconds = joinedInterval t so, p_dueDate = None,
         p_pausedAt = Option.bind so s_paused, p_enabled = (case so of None \<Rightarrow> True | Some s \<Rightarrow> s_enabled s),
         p_timezone = Some (let z = (case so of None \<Rightarrow> [] | Some s \<Rightarrow> s_tz s) in
           if z \<noteq> [] then z else if t_tz t \<noteq> [] then t_tz t else ''UTC'')\<rparr> now
      else existing)"

text \<open>One expired task, as the query read it with its schedule.\<close>

definition recoverTask ::
  "taskEnv \<Rightarrow> string \<Rightarrow> instant \<Rightarrow> taskRow \<times> scheduleRow option \<Rightarrow> taskDb \<times> taskRecoveryResult \<Rightarrow> taskDb \<times> taskRecoveryResult" where
  "recoverTask env uid now tso acc =
     (let t = fst tso; so = snd tso; db = fst acc;
          res = (snd acc)\<lparr>v_taskIds := v_taskIds (snd acc) @ [t_id t]\<rparr> in
      if joinedRecurring t so then
        let next = recoveredNext env t so now in
        (updateSchedule uid (t_id t) (\<lambda>s. s\<lparr>s_next := next, s_updated := now\<rparr>)
           (updateTask uid (t_id t) (\<lambda>t. t\<lparr>t_status := Pending, t_claimant := None, t_lease := None, t_claims := 0,
              t_completed := None, t_error := Some ''Task lease expired'', t_next := next, t_updated := now\<rparr>) db),
         res\<lparr>v_retriedIds := v_retriedIds res @ [t_id t]\<rparr>)
      else if t_claims t \<ge> t_maxRetries t then
        (updateTask uid (t_id t) (\<lambda>t. t\<lparr>t_status := Failed, t_lease := None, t_updated := now, t_completed := Some now,
              t_error := Some ''Task lease expired: max retries exhausted''\<rparr>) db,
         res\<lparr>v_failedIds := v_failedIds res @ [t_id t]\<rparr>)
      else
        (updateTask uid (t_id t) (\<lambda>t. t\<lparr>t_status := Pending, t_claimant := None, t_lease := None, t_updated := now\<rparr>) db,
         res\<lparr>v_retriedIds := v_retriedIds res @ [t_id t]\<rparr>))"

definition expiredTasks :: "string \<Rightarrow> instant \<Rightarrow> taskDb \<Rightarrow> (taskRow \<times> scheduleRow option) list" where
  "expiredTasks uid now db = map (\<lambda>t. (t, joined db t)) (filter (\<lambda>t. t_user t = uid \<and> expired now t) (db_tasks db))"

definition failExpiredRun :: "instant \<Rightarrow> runRow \<Rightarrow> runRow" where
  "failExpiredRun now r = r\<lparr>r_status := RunFailed, r_errorCode := Some TASK_LEASE_EXPIRED,
     r_error := Some ''Execution lease expired'', r_completed := Some now, r_updated := now\<rparr>"

definition expiredRun :: "instant \<Rightarrow> runRow \<Rightarrow> bool" where
  "expiredRun now r \<longleftrightarrow> activeRunStatus (r_status r) \<and> (case r_lease r of None \<Rightarrow> False | Some l \<Rightarrow> sqlLe l now)"

definition recoverExpiredLeases :: "taskEnv \<Rightarrow> string \<Rightarrow> instant \<Rightarrow> (taskDb, taskError, taskRecoveryResult) op" where
  "recoverExpiredLeases env uid now =
     withImmediateTransactionSync (\<lambda>db.
       let (db', res) = fold (recoverTask env uid now) (expiredTasks uid now db)
             (db, \<lparr>v_taskIds = [], v_retriedIds = [], v_failedIds = []\<rparr>)
       in (Inr res, updateRuns (\<lambda>r. r_user r = uid \<and> expiredRun now r) (failExpiredRun now) db'))"

section \<open>Running a task by hand\<close>

definition manualRefused :: "string \<Rightarrow> string \<Rightarrow> taskRow \<Rightarrow> scheduleRow option \<Rightarrow> instant \<Rightarrow> taskDb \<Rightarrow> taskError option" where
  "manualRefused uid tid t so now db =
     (if t_status t = Cancelled then Some (TaskAlreadyCompleted tid)
      else if \<not> rowRecurring t so \<and> (t_status t = Completed \<or> t_status t = Failed) then Some (TaskAlreadyCompleted tid)
      else if activeStatus (t_status t) \<and> (case t_lease t of None \<Rightarrow> False | Some l \<Rightarrow> l > now)
      then Some (TaskAlreadyClaimed tid (claimantName (t_claimant t)))
      else case tbl_get (\<lambda>r. ownRun uid tid r \<and> activeRunStatus (r_status r) \<and>
                  (case r_lease r of None \<Rightarrow> False | Some l \<Rightarrow> sqlLess now l)) (db_runs db) of
          Some r \<Rightarrow>
            Some (TaskAlreadyClaimed tid (claimantName (if opt_truthy (r_claimant r) then r_claimant r else t_claimant t)))
        | None \<Rightarrow> None)"

definition createManualRun ::
  "string \<Rightarrow> jsval \<Rightarrow> string \<Rightarrow> int \<Rightarrow> instant \<Rightarrow> string \<Rightarrow> (taskDb, taskError, taskView \<times> runRow) op" where
  "createManualRun uid idv claimant leaseMs now runId =
     check (validateTaskId idv) (\<lambda>tid. withImmediateTransactionSync (\<lambda>db.
       case getTask uid tid db of
         None \<Rightarrow> (Inl (TaskNotFound tid), db)
       | Some t \<Rightarrow>
           let so = scheduleOf uid tid db; run = newRun uid tid runId so claimant (now + leaseMs) now now db in
           (case manualRefused uid tid t so now db of
              Some e \<Rightarrow> (Inl e, db)
            | None \<Rightarrow>
                seq (insertRun run) (\<lambda>_ db.
                  seq (refetch uid tid) (\<lambda>v db. (Inr (v, run), db))
                    (updateTask uid tid (\<lambda>t. t\<lparr>t_status := Claimed, t_claimant := Some claimant,
                       t_lease := Some (now + leaseMs), t_leaseMs := leaseMs, t_claims := t_claims t + 1,
                       t_updated := now\<rparr>) db)) db)))"

end
