(* ===== verification/Task_Steps.thy ===== *)
theory Task_Steps
  imports Task_Lease
begin

text \<open>
  The task repository as a state machine: \<open>taskStep\<close> has one rule for every way an operation changes
  the tables, with the guards the operation checked, and every operation is shown to take one of
  these steps or to leave the tables as they were. The invariants of the tables are proved on the
  steps. A label says what the step does about leases.
\<close>

section \<open>Steps\<close>

datatype taskLabel =
    TakeLease string string instant bool
  | RenewLease instant
  | Settle string string
  | NoLease

inductive taskStep :: "taskEnv \<Rightarrow> string \<Rightarrow> taskLabel \<Rightarrow> taskDb \<Rightarrow> taskDb \<Rightarrow> bool" for env uid where
  step_create:
    "createRows env uid input now newId schedId = Inr (t, s) \<Longrightarrow>
     \<forall>t' \<in> set (db_tasks db). t_id t' \<noteq> t_id t \<and> \<not> (t_user t' = t_user t \<and> t_key t \<noteq> None \<and> t_key t' = t_key t) \<Longrightarrow>
     \<forall>s' \<in> set (db_schedules db). s_id s' \<noteq> s_id s \<and> s_task s' \<noteq> s_task s \<Longrightarrow>
     taskStep env uid NoLease db (db\<lparr>db_tasks := db_tasks db @ [t], db_schedules := db_schedules db @ [s]\<rparr>)"
| step_update:
    "getTask uid tid db = Some t \<Longrightarrow> updateAllowed uid tid t now db = Inr () \<Longrightarrow> updateOk env u \<Longrightarrow>
     scheduleConfigOf env u t (scheduleOf uid tid db) now = Inr k \<Longrightarrow>
     writeSchedule uid tid k now schedId (updateTask uid tid (applyUpdate u p k now) db) = (Inr (), db') \<Longrightarrow>
     taskStep env uid NoLease db db'"
| step_delete:
    "getTask uid tid db = Some t \<Longrightarrow> \<not> activeStatus (t_status t) \<Longrightarrow>
     taskStep env uid NoLease db
       \<lparr>db_tasks = filter (\<lambda>t. \<not> ownTask uid tid t) (db_tasks db),
        db_schedules = filter (\<lambda>s. s_task s \<noteq> tid) (db_schedules db),
        db_runs = filter (\<lambda>r. r_task r \<noteq> tid) (db_runs db)\<rparr>"
| step_pause:
    "taskStep env uid NoLease db
       (updateTask uid tid (\<lambda>t. t\<lparr>t_updated := now\<rparr>)
         (updateSchedule uid tid (\<lambda>s. s\<lparr>s_enabled := False, s_paused := Some now, s_updated := now\<rparr>) db))"
| step_resume:
    "taskStep env uid NoLease db
       (updateTask uid tid (\<lambda>t. t\<lparr>t_status := Pending, t_claimant := None, t_lease := None, t_claims := 0,
          t_completed := None, t_next := next, t_updated := now\<rparr>)
        (updateSchedule uid tid (\<lambda>s. s\<lparr>s_enabled := True, s_paused := None, s_next := next, s_updated := now\<rparr>) db))"
| step_claim:
    "getTask uid tid db = Some t \<Longrightarrow> named \<or> eligible uid now db t \<Longrightarrow>
     \<not> terminal (t_status t) \<or> t_status t \<noteq> Cancelled \<Longrightarrow>
     \<forall>r \<in> set (db_runs db). \<not> liveRun now uid tid r \<Longrightarrow> \<forall>r \<in> set (db_runs db). r_id r \<noteq> runId \<Longrightarrow>
     taskStep env uid (TakeLease uid tid now named) db
       (updateSchedule uid tid (\<lambda>s. s\<lparr>s_next := next, s_last := Some now, s_updated := now\<rparr>)
         (updateTask uid tid (\<lambda>t. t\<lparr>t_status := Claimed, t_claimant := Some claimant, t_lease := Some (now + leaseMs),
            t_leaseMs := leaseMs, t_claims := t_claims t + 1, t_completed := None, t_next := next, t_updated := now\<rparr>)
          (db\<lparr>db_runs := db_runs db @ [newRun uid tid runId so claimant (now + leaseMs) scheduledFor now db]\<rparr>)))"
| step_manual:
    "getTask uid tid db = Some t \<Longrightarrow> manualRefused uid tid t so now db = None \<Longrightarrow>
     \<forall>r \<in> set (db_runs db). r_id r \<noteq> runId \<Longrightarrow>
     taskStep env uid (TakeLease uid tid now True) db
       (updateTask uid tid (\<lambda>t. t\<lparr>t_status := Claimed, t_claimant := Some claimant, t_lease := Some (now + leaseMs),
          t_leaseMs := leaseMs, t_claims := t_claims t + 1, t_updated := now\<rparr>)
        (db\<lparr>db_runs := db_runs db @ [newRun uid tid runId so claimant (now + leaseMs) now now db]\<rparr>))"
| step_renew:
    "taskStep env uid (RenewLease now) db
       (updateRuns (\<lambda>r. ownRun uid tid r \<and> r_claimant r = Some claimant \<and> activeRunStatus (r_status r) \<and>
            (case r_lease r of None \<Rightarrow> False | Some l \<Rightarrow> sqlLess now l) \<and> runIdMatches runId r)
          (\<lambda>r. r\<lparr>r_lease := Some (now + leaseMs), r_updated := now\<rparr>)
          (db\<lparr>db_tasks := tbl_update (renewable uid tid claimant now)
             (\<lambda>t. t\<lparr>t_lease := Some (now + leaseMs), t_leaseMs := leaseMs, t_updated := now\<rparr>) (db_tasks db)\<rparr>))"
| step_settle:
    "getTask uid tid db = Some t \<Longrightarrow> settleable uid tid claimant clock t \<Longrightarrow>
     setTask = completeTask result clock \<or> setTask = failTask err retryable clock \<Longrightarrow>
     (\<And>r. \<not> activeRunStatus (r_status (setRun r)) \<and> r_id (setRun r) = r_id r \<and> r_task (setRun r) = r_task r \<and>
        r_user (setRun r) = r_user r \<and> r_lease (setRun r) = r_lease r) \<Longrightarrow>
     f = (\<lambda>db. db) \<or> f = updateSchedule uid tid (\<lambda>s. s\<lparr>s_next := next, s_updated := clock\<rparr>) \<Longrightarrow>
     taskStep env uid (Settle uid tid) db
       (f (updateRuns (\<lambda>r. ownRun uid tid r \<and> r_claimant r = Some claimant \<and> activeRunStatus (r_status r) \<and>
             runIdMatches runId r) setRun
          (db\<lparr>db_tasks := tbl_update (settleable uid tid claimant clock)
             (setTask (rowRecurring t (scheduleOf uid tid db)) next) (db_tasks db)\<rparr>)))"
| step_cancel:
    "taskStep env uid NoLease db
       (updateRuns (\<lambda>r. ownRun uid tid r \<and> (r_status r = RunPending \<or> activeRunStatus (r_status r)))
          (\<lambda>r. r\<lparr>r_status := RunCancelled, r_errorCode := Some TASK_CANCELLED, r_error := Some TASK_CANCELLED,
             r_completed := Some now, r_updated := now\<rparr>)
        (updateSchedule uid tid (\<lambda>s. s\<lparr>s_enabled := False, s_paused := Some now, s_updated := now\<rparr>)
          (db\<lparr>db_tasks := tbl_update (\<lambda>t. ownTask uid tid t \<and> \<not> terminal (t_status t))
            (\<lambda>t. t\<lparr>t_status := Cancelled, t_error := Some TASK_CANCELLED, t_claimant := None, t_lease := None,
               t_updated := now, t_completed := Some now\<rparr>) (db_tasks db)\<rparr>)))"
| step_recover:
    "fold (recoverTask env uid now) (expiredTasks uid now db) (db, r0) = (db', res) \<Longrightarrow>
     taskStep env uid NoLease db (updateRuns (\<lambda>r. r_user r = uid \<and> expiredRun now r) (failExpiredRun now) db')"

section \<open>The operations take steps\<close>

lemma refetch_Inr: "refetch uid tid db = (Inr v, db') \<Longrightarrow> db' = db"
  by (auto simp: refetch_def split: option.splits)

lemma getTask_own: "getTask uid tid db = Some t \<Longrightarrow> t \<in> set (db_tasks db) \<and> t_id t = tid \<and> t_user t = uid"
  by (auto simp: getTask_def ownTask_def dest: tbl_get_Some)

lemma insertRun_Inr:
  "insertRun r db = (Inr x, db') \<longleftrightarrow> (\<forall>r' \<in> set (db_runs db). r_id r' \<noteq> r_id r) \<and> db' = db\<lparr>db_runs := db_runs db @ [r]\<rparr>"
  by (auto simp: insertRun_def)

lemma insertTask_Inr:
  "insertTask t db = (Inr x, db') \<longleftrightarrow>
     (\<forall>t' \<in> set (db_tasks db). t_id t' \<noteq> t_id t \<and> \<not> (t_user t' = t_user t \<and> t_key t \<noteq> None \<and> t_key t' = t_key t)) \<and>
     db' = db\<lparr>db_tasks := db_tasks db @ [t]\<rparr>"
  by (auto simp: insertTask_def)

lemma insertSchedule_Inr:
  "insertSchedule s db = (Inr x, db') \<longleftrightarrow>
     (\<forall>s' \<in> set (db_schedules db). s_id s' \<noteq> s_id s \<and> s_task s' \<noteq> s_task s) \<and>
     db' = db\<lparr>db_schedules := db_schedules db @ [s]\<rparr>"
  by (auto simp: insertSchedule_def)

lemma create_step:
  assumes "create env uid input now newId schedId db = (res, db')"
  shows "db' = db \<or> taskStep env uid NoLease db db'"
proof (cases "createRows env uid input now newId schedId")
  case (Inr ts)
  obtain t s where ts: "ts = (t, s)" by force
  obtain r db1 where tx: "withImmediateTransactionSync (seq (insertTask t) (\<lambda>_. insertSchedule s)) db = (r, db1)"
    by fastforce
  have "db' = db1"
    using assms Inr ts tx by (auto simp: create_def findById_def split: sum.splits taskError.splits option.splits)
  moreover have "db1 = db \<or> taskStep env uid NoLease db db1"
  proof (cases r)
    case (Inl e)
    with tx show ?thesis by (auto dest: transaction_Inl)
  next
    case r: (Inr x)
    with tx have "seq (insertTask t) (\<lambda>_. insertSchedule s) db = (Inr x, db1)" by simp
    with step_create[OF Inr[unfolded ts]] show ?thesis
      by (auto simp: seq_Inr_iff insertTask_Inr insertSchedule_Inr)
  qed
  ultimately show ?thesis by simp
qed (use assms in \<open>auto simp: create_def\<close>)

lemma transaction_same:
  "withImmediateTransactionSync a db = (r, db') \<Longrightarrow> db' = db \<or> (\<exists>x. r = Inr x \<and> a db = (Inr x, db'))"
  by (auto simp: withImmediateTransactionSync_def split: prod.splits sum.splits)

lemma check_same: "check r f db = (x, db') \<Longrightarrow> db' = db \<or> (\<exists>y. r = Inr y \<and> f y db = (x, db'))"
  by (auto simp: check_def split: sum.splits)

lemma update_step:
  assumes "update env uid idv input now schedId db = (res, db')"
  shows "db' = db \<or> taskStep env uid NoLease db db'"
proof (cases "db' = db")
  case False
  with assms obtain tid u x where u: "validateUpdateTaskInput env input = Inr u" and
    body: "(case getTask uid tid db of
         None \<Rightarrow> (Inl (TaskNotFound tid), db)
       | Some t \<Rightarrow>
           check (updateAllowed uid tid t now db) (\<lambda>_.
             case t_payload t of
               Script _ \<Rightarrow> (\<lambda>db. (Inl (OtherError ''Corrupted task row: missing or invalid agent_prompt payload''), db))
             | AgentPrompt p \<Rightarrow>
                 check (scheduleConfigOf env u t (scheduleOf uid tid db) now) (\<lambda>k db.
                   seq (writeSchedule uid tid k now schedId) (\<lambda>_. refetch uid tid)
                     (updateTask uid tid (applyUpdate u p k now) db))) db) = (Inr x, db')"
    unfolding update_def by (fast dest!: check_same transaction_same)
  then obtain t p k where t: "getTask uid tid db = Some t" "updateAllowed uid tid t now db = Inr ()"
      "scheduleConfigOf env u t (scheduleOf uid tid db) now = Inr k"
    and "seq (writeSchedule uid tid k now schedId) (\<lambda>_. refetch uid tid) (updateTask uid tid (applyUpdate u p k now) db) = (Inr x, db')"
    by (auto simp: check_Inr_iff split: option.splits taskPayload.splits)
  then have "writeSchedule uid tid k now schedId (updateTask uid tid (applyUpdate u p k now) db) = (Inr (), db')"
    by (auto simp: seq_Inr_iff dest: refetch_Inr)
  moreover have "updateOk env u" using validateUpdate_facts[OF u] by blast
  ultimately show ?thesis using step_update[OF t(1,2) _ t(3)] by blast
qed simp


lemma delete_step:
  assumes "deleteTask uid idv db = (res, db')"
  shows "db' = db \<or> taskStep env uid NoLease db db'"
  using assms unfolding deleteTask_def
  by (auto dest!: check_same transaction_same intro: step_delete split: option.splits if_splits)

lemma pause_step:
  assumes "pause uid idv now db = (res, db')"
  shows "db' = db \<or> taskStep env uid NoLease db db'"
  using assms unfolding pause_def
  by (auto dest!: check_same transaction_same refetch_Inr intro: step_pause split: option.splits)

lemma resume_step:
  assumes "resume env uid idv now db = (res, db')"
  shows "db' = db \<or> taskStep env uid NoLease db db'"
  using assms unfolding resume_def
  by (auto dest!: check_same transaction_same refetch_Inr intro: step_resume simp: Let_def split: option.splits)

lemma cancel_step:
  assumes "cancel uid idv now db = (res, db')"
  shows "db' = db \<or> taskStep env uid NoLease db db'"
  using assms unfolding cancel_def
  by (auto dest!: check_same transaction_same refetch_Inr intro: step_cancel simp: Let_def split: option.splits if_splits)

lemma recover_step:
  assumes "recoverExpiredLeases env uid now db = (res, db')"
  shows "taskStep env uid NoLease db db'"
  using assms unfolding recoverExpiredLeases_def
  by (auto simp: withImmediateTransactionSync_def Let_def intro: step_recover split: prod.splits)

lemma renew_step:
  assumes "renewLease uid idv claimantv leaseMs runId now db = (res, db')"
  shows "db' = db \<or> taskStep env uid (RenewLease now) db db'"
  using assms unfolding renewLease_def
  by (auto dest!: check_same transaction_same refetch_Inr intro: step_renew split: if_splits)

lemma completeRun_frame:
  "\<not> activeRunStatus (r_status (completeRun result usage clock r)) \<and> r_id (completeRun result usage clock r) = r_id r \<and>
   r_task (completeRun result usage clock r) = r_task r \<and> r_user (completeRun result usage clock r) = r_user r \<and>
   r_lease (completeRun result usage clock r) = r_lease r"
  by (simp add: completeRun_def activeRunStatus_def)

lemma failRun_frame:
  "\<not> activeRunStatus (r_status (failRun err code clock r)) \<and> r_id (failRun err code clock r) = r_id r \<and>
   r_task (failRun err code clock r) = r_task r \<and> r_user (failRun err code clock r) = r_user r \<and>
   r_lease (failRun err code clock r) = r_lease r"
  by (simp add: failRun_def activeRunStatus_def)

lemma settleable_own: "settleable uid tid claimant clock t \<Longrightarrow> ownTask uid tid t"
  by (simp add: settleable_def heldBy_def)

lemma getTask_unique:
  assumes "distinct (map t_id (db_tasks db))" "t \<in> set (db_tasks db)" "ownTask uid tid t"
  shows "getTask uid tid db = Some t"
  using assms tbl_get_map_distinct[of t_id "db_tasks db" t "\<lambda>x. t_user x = uid"]
  by (simp add: getTask_def ownTask_def[abs_def])

lemma settle_step:
  assumes "settle env uid tid claimant runId clock setTask setRun db = (res, db')"
    and d: "distinct (map t_id (db_tasks db))"
    and setTask: "setTask = completeTask result clock \<or> setTask = failTask err retryable clock"
    and setRun: "\<And>r. \<not> activeRunStatus (r_status (setRun r)) \<and> r_id (setRun r) = r_id r \<and> r_task (setRun r) = r_task r \<and>
        r_user (setRun r) = r_user r \<and> r_lease (setRun r) = r_lease r"
  shows "(\<exists>e. res = Inl e) \<and> db' = db \<or> (\<exists>v. res = Inr v) \<and> taskStep env uid (Settle uid tid) db db'"
proof (cases res)
  case (Inl e)
  with assms(1) show ?thesis unfolding settle_def by (auto dest: transaction_Inl)
next
  case (Inr v)
  with assms(1) obtain t t' where t: "getTask uid tid db = Some t"
    and t': "tbl_get (settleable uid tid claimant clock) (db_tasks db) = Some t'"
    and db': "db' = (if rowRecurring t (scheduleOf uid tid db) \<and> settledNext env t (scheduleOf uid tid db) clock \<noteq> None
        then updateSchedule uid tid (\<lambda>s. s\<lparr>s_next := settledNext env t (scheduleOf uid tid db) clock, s_updated := clock\<rparr>)
        else (\<lambda>db. db))
      (updateRuns (\<lambda>r. ownRun uid tid r \<and> r_claimant r = Some claimant \<and> activeRunStatus (r_status r) \<and> runIdMatches runId r)
        setRun (db\<lparr>db_tasks := tbl_update (settleable uid tid claimant clock)
          (setTask (rowRecurring t (scheduleOf uid tid db)) (settledNext env t (scheduleOf uid tid db) clock)) (db_tasks db)\<rparr>))"
    unfolding settle_def by (auto simp: Let_def dest!: refetch_Inr split: option.splits if_splits)
  have "t' \<in> set (db_tasks db)" "settleable uid tid claimant clock t'" using tbl_get_Some[OF t'] by auto
  then have "getTask uid tid db = Some t'" by (intro getTask_unique[OF d] settleable_own)
  with t \<open>settleable uid tid claimant clock t'\<close> have "settleable uid tid claimant clock t" by simp
  with step_settle[OF t _ setTask setRun] db' Inr show ?thesis by auto
qed

lemma complete_step:
  assumes "complete env uid idv claimantv resultv runId usage now db = (res, db')"
    and "distinct (map t_id (db_tasks db))"
  shows "(\<exists>e. res = Inl e) \<and> db' = db \<or>
    (\<exists>v tid. res = Inr v \<and> validateTaskId idv = Inr tid \<and> taskStep env uid (Settle uid tid) db db')"
  using assms settle_step[OF _ assms(2) disjI1[OF refl] completeRun_frame]
  by (auto simp: complete_def check_def Let_def split: sum.splits)

lemma fail_step:
  assumes "fail env uid idv claimantv err retryable runId code clock db = (res, db')"
    and "distinct (map t_id (db_tasks db))"
  shows "(\<exists>e. res = Inl e) \<and> db' = db \<or>
    (\<exists>v tid. res = Inr v \<and> validateTaskId idv = Inr tid \<and> taskStep env uid (Settle uid tid) db db')"
  using assms settle_step[OF _ assms(2) disjI2[OF refl] failRun_frame]
  by (auto simp: fail_def check_def split: sum.splits)

lemma claimNext_Some:
  assumes "claimNext uid now db = Some tid" "distinct (map t_id (db_tasks db))"
  obtains t where "getTask uid tid db = Some t" "eligible uid now db t"
    "\<And>t'. t' \<in> set (db_tasks db) \<Longrightarrow> eligible uid now db t' \<Longrightarrow> queueKey db t \<le> queueKey db t'"
proof -
  from assms(1) obtain t where t: "firstMin (queueKey db) (filter (eligible uid now db) (db_tasks db)) = Some t" "t_id t = tid"
    by (auto simp: claimNext_def)
  from firstMin_Some[OF t(1)] have e: "t \<in> set (db_tasks db)" "eligible uid now db t"
    and least: "\<And>t'. t' \<in> set (db_tasks db) \<Longrightarrow> eligible uid now db t' \<Longrightarrow> queueKey db t \<le> queueKey db t'"
    by auto
  have "getTask uid tid db = Some t"
    using e t(2) assms(2) by (intro getTask_unique) (auto simp: ownTask_def eligible_def Let_def)
  from that[OF this e(2) least] show thesis by blast
qed

lemma claimPreferred_Some:
  assumes "claimPreferred uid tid' now db = Inr (Some tid)"
  shows "tid' = tid \<and> (\<exists>t. getTask uid tid db = Some t \<and> t_status t \<noteq> Cancelled) \<and> (\<forall>r \<in> set (db_runs db). \<not> liveRun now uid tid r)"
  using assms by (auto simp: claimPreferred_def tbl_get_None Let_def split: option.splits if_splits)

lemma takeLease_Inr:
  assumes "takeLease env uid tid claimant leaseMs now runId db = (Inr v, db')"
  obtains t so scheduledFor nextRun where "getTask uid tid db = Some t" "\<forall>r \<in> set (db_runs db). r_id r \<noteq> runId"
    "db' = updateSchedule uid tid (\<lambda>s. s\<lparr>s_next := nextRun, s_last := Some now, s_updated := now\<rparr>)
         (updateTask uid tid (\<lambda>t. t\<lparr>t_status := Claimed, t_claimant := Some claimant, t_lease := Some (now + leaseMs),
            t_leaseMs := leaseMs, t_claims := t_claims t + 1, t_completed := None, t_next := nextRun, t_updated := now\<rparr>)
          (db\<lparr>db_runs := db_runs db @ [newRun uid tid runId so claimant (now + leaseMs) scheduledFor now db]\<rparr>))"
  using assms
  by (auto simp: takeLease_def Let_def seq_Inr_iff insertRun_Inr newRun_def dest!: refetch_Inr split: option.splits)

lemma claim_step:
  assumes "claim env uid input runId db = (res, db')"
    and d: "distinct (map t_id (db_tasks db))"
  shows "(\<forall>v. res \<noteq> Inr (Some v)) \<and> db' = db \<or>
    (\<exists>v tid named. res = Inr (Some v) \<and> (\<not> named \<or> cl_preferredTaskId input = JString tid) \<and>
      taskStep env uid (TakeLease uid tid (cl_now input) named) db db')"
proof -
  define now where "now = cl_now input"
  obtain claimant preferred where
    "db' = db \<and> (\<forall>v. res \<noteq> Inr (Some v)) \<or> given validateTaskId (cl_preferredTaskId input) = Inr preferred \<and>
      withImmediateTransactionSync (\<lambda>db.
       check (case preferred of Some tid \<Rightarrow> claimPreferred uid tid now db | None \<Rightarrow> Inr (claimNext uid now db))
         (\<lambda>target. case target of
           None \<Rightarrow> (\<lambda>db. (Inr None, db))
         | Some tid \<Rightarrow> seq (takeLease env uid tid claimant (cl_leaseDurationMs input) now runId) (\<lambda>v db. (Inr (Some v), db))) db) db
      = (res, db')"
    using assms(1) unfolding claim_def now_def by (auto simp: check_def split: sum.splits)
  then consider (same) "db' = db" "\<forall>v. res \<noteq> Inr (Some v)"
    | (taken) tid v where "given validateTaskId (cl_preferredTaskId input) = Inr preferred"
        "(case preferred of Some tid \<Rightarrow> claimPreferred uid tid now db | None \<Rightarrow> Inr (claimNext uid now db)) = Inr (Some tid)"
        "takeLease env uid tid claimant (cl_leaseDurationMs input) now runId db = (Inr v, db')" "res = Inr (Some v)"
    by (cases res) (auto simp: transaction_Inl_iff check_Inr_iff seq_Inr_iff dest!: transaction_Inl split: option.splits)
  then show ?thesis
  proof cases
    case same
    then show ?thesis by blast
  next
    case taken
    obtain t so scheduledFor nextRun where
      t: "getTask uid tid db = Some t" and fresh: "\<forall>r \<in> set (db_runs db). r_id r \<noteq> runId"
      and db': "db' = updateSchedule uid tid (\<lambda>s. s\<lparr>s_next := nextRun, s_last := Some now, s_updated := now\<rparr>)
         (updateTask uid tid (\<lambda>t. t\<lparr>t_status := Claimed, t_claimant := Some claimant, t_lease := Some (now + cl_leaseDurationMs input),
            t_leaseMs := cl_leaseDurationMs input, t_claims := t_claims t + 1, t_completed := None, t_next := nextRun, t_updated := now\<rparr>)
          (db\<lparr>db_runs := db_runs db @ [newRun uid tid runId so claimant (now + cl_leaseDurationMs input) scheduledFor now db]\<rparr>))"
      by (rule takeLease_Inr[OF taken(3)])
    define named where "named = (preferred \<noteq> None)"
    have "(\<forall>r \<in> set (db_runs db). \<not> liveRun now uid tid r) \<and> t_status t \<noteq> Cancelled \<and>
      (named \<or> eligible uid now db t) \<and> (\<not> named \<or> cl_preferredTaskId input = JString tid)"
    proof (cases preferred)
      case None
      with taken(2) have "claimNext uid now db = Some tid" by simp
      then obtain t' where "getTask uid tid db = Some t'" "eligible uid now db t'" by (rule claimNext_Some[OF _ d])
      with t have el: "eligible uid now db t" by simp
      then have "t_status t \<noteq> Cancelled" "\<forall>r \<in> set (db_runs db). \<not> liveRun now (t_user t) (t_id t) r"
        unfolding eligible_def Let_def activeStatus_def by auto
      with el getTask_own[OF t] None show ?thesis by (simp add: named_def)
    next
      case (Some tid')
      with taken(2) have "claimPreferred uid tid' now db = Inr (Some tid)" by simp
      from claimPreferred_Some[OF this] Some taken(1) t show ?thesis
        by (auto simp: named_def given_def andThen_Inr_iff validateTaskId_def stringWith_Inr split: if_splits)
    qed
    then have live: "\<forall>r \<in> set (db_runs db). \<not> liveRun now uid tid r" and st: "t_status t \<noteq> Cancelled"
      and nm: "named \<or> eligible uid now db t" and pref: "\<not> named \<or> cl_preferredTaskId input = JString tid"
      by blast+
    from step_claim[OF t nm _ live fresh] st db' taken(4) pref show ?thesis unfolding now_def by blast
  qed
qed

lemma manual_step:
  assumes "createManualRun uid idv claimant leaseMs now runId db = (res, db')"
  shows "(\<exists>e. res = Inl e) \<and> db' = db \<or>
    (\<exists>v tid. res = Inr v \<and> validateTaskId idv = Inr tid \<and> taskStep env uid (TakeLease uid tid now True) db db')"
proof (cases res)
  case (Inl e)
  with assms show ?thesis by (auto simp: createManualRun_def check_def dest: transaction_Inl split: sum.splits)
next
  case (Inr v)
  with assms obtain tid t where tid: "validateTaskId idv = Inr tid" and t: "getTask uid tid db = Some t"
    and guards: "manualRefused uid tid t (scheduleOf uid tid db) now db = None" "\<forall>r \<in> set (db_runs db). r_id r \<noteq> runId"
    and "db' = updateTask uid tid (\<lambda>t. t\<lparr>t_status := Claimed, t_claimant := Some claimant, t_lease := Some (now + leaseMs),
          t_leaseMs := leaseMs, t_claims := t_claims t + 1, t_updated := now\<rparr>)
        (db\<lparr>db_runs := db_runs db @ [newRun uid tid runId (scheduleOf uid tid db) claimant (now + leaseMs) now now db]\<rparr>)"
    by (auto simp: createManualRun_def check_Inr_iff Let_def seq_Inr_iff insertRun_Inr newRun_def dest!: refetch_Inr
        split: option.splits)
  with step_manual[OF t guards] Inr show ?thesis by blast
qed

end
