(* ===== verification/Task_Invariants.thy ===== *)
theory Task_Invariants
  imports Task_Steps
begin

text \<open>
  The invariant of the task tables and its preservation by every operation: keys are unique, every
  schedule and run belongs to a task of the same tenant, the schedule columns of a task and of its
  schedule row agree, a claimed task has a claimant and a lease, and a recurring task is never in the
  status \<open>failed\<close>.
\<close>

section \<open>Commands\<close>

datatype taskCmd =
    CreateTask createTaskInput instant string string
  | UpdateTask jsval jsval instant string
  | DeleteTask jsval
  | PauseTask jsval instant
  | ResumeTask jsval instant
  | ClaimTask claimTaskInput string
  | RenewTask jsval jsval int "string option" instant
  | CompleteTask jsval jsval jsval "string option" "int \<times> int \<times> int" "instant option"
  | FailTask jsval jsval string bool "string option" "string option" instant
  | CancelTask jsval instant
  | RecoverTasks instant
  | ManualRun jsval string int instant string

fun execTask :: "taskEnv \<Rightarrow> string \<Rightarrow> taskCmd \<Rightarrow> taskDb \<Rightarrow> taskDb" where
  "execTask env uid (CreateTask input now newId schedId) db = snd (create env uid input now newId schedId db)"
| "execTask env uid (UpdateTask idv input now schedId) db = snd (update env uid idv input now schedId db)"
| "execTask env uid (DeleteTask idv) db = snd (deleteTask uid idv db)"
| "execTask env uid (PauseTask idv now) db = snd (pause uid idv now db)"
| "execTask env uid (ResumeTask idv now) db = snd (resume env uid idv now db)"
| "execTask env uid (ClaimTask input runId) db = snd (claim env uid input runId db)"
| "execTask env uid (RenewTask idv claimant ms runId now) db = snd (renewLease uid idv claimant ms runId now db)"
| "execTask env uid (CompleteTask idv claimant result runId usage now) db =
     snd (complete env uid idv claimant result runId usage now db)"
| "execTask env uid (FailTask idv claimant err retryable runId code now) db =
     snd (fail env uid idv claimant err retryable runId code now db)"
| "execTask env uid (CancelTask idv now) db = snd (cancel uid idv now db)"
| "execTask env uid (RecoverTasks now) db = snd (recoverExpiredLeases env uid now db)"
| "execTask env uid (ManualRun idv claimant ms now runId) db = snd (createManualRun uid idv claimant ms now runId db)"

text \<open>A history: commands of any tenants, one transaction after the other.\<close>

fun execTasks :: "taskEnv \<Rightarrow> (string \<times> taskCmd) list \<Rightarrow> taskDb \<Rightarrow> taskDb" where
  "execTasks env [] db = db"
| "execTasks env ((uid, c) # cs) db = execTasks env cs (execTask env uid c db)"

definition emptyTasks :: taskDb where
  "emptyTasks = \<lparr>db_tasks = [], db_schedules = [], db_runs = []\<rparr>"

text \<open>The clock of a command that takes or renews a lease, and whether it may take one.\<close>

fun cmdClock :: "taskCmd \<Rightarrow> instant option" where
  "cmdClock (ClaimTask input _) = Some (cl_now input)"
| "cmdClock (RenewTask _ _ _ _ now) = Some now"
| "cmdClock (ManualRun _ _ _ now _) = Some now"
| "cmdClock _ = None"

fun takesLease :: "taskCmd \<Rightarrow> bool" where
  "takesLease (ClaimTask _ _) = True"
| "takesLease (ManualRun _ _ _ _ _) = True"
| "takesLease _ = False"

fun namesTask :: "taskCmd \<Rightarrow> bool" where
  "namesTask (ClaimTask input _) = (cl_preferredTaskId input \<noteq> JUndefined \<and> cl_preferredTaskId input \<noteq> JNull)"
| "namesTask (ManualRun _ _ _ _ _) = True"
| "namesTask _ = False"

fun labelFits :: "taskCmd \<Rightarrow> taskLabel \<Rightarrow> bool" where
  "labelFits c (TakeLease u tid now named) = (cmdClock c = Some now \<and> takesLease c \<and> (named \<longrightarrow> namesTask c))"
| "labelFits c (RenewLease now) = (cmdClock c = Some now)"
| "labelFits c _ = True"

section \<open>The invariant\<close>

definition taskKey :: "taskRow \<Rightarrow> string \<times> string \<times> taskScheduleType \<times> string option \<times> int option \<times> string" where
  "taskKey t = (t_id t, t_user t, t_type t, t_cron t, t_interval t, t_tz t)"

definition scheduleKey :: "scheduleRow \<Rightarrow> string \<times> string \<times> taskScheduleType \<times> string option \<times> int option \<times> string" where
  "scheduleKey s = (s_task s, s_user s, s_type s, s_cron s, s_interval s, s_tz s)"

definition shapeOk :: "taskScheduleType \<Rightarrow> string option \<Rightarrow> int option \<Rightarrow> bool" where
  "shapeOk ty cron interval \<longleftrightarrow> (if ty = Cron then opt_truthy cron else cron = None) \<and>
     (if ty = Interval then interval \<noteq> None \<and> pred_option intervalOk interval else interval = None)"

definition leaseOk :: "taskStatus \<Rightarrow> string option \<Rightarrow> instant option \<Rightarrow> bool" where
  "leaseOk st claimant lease \<longleftrightarrow> (activeStatus st \<longrightarrow> claimant \<noteq> None \<and> lease \<noteq> None) \<and>
     (st = Pending \<longrightarrow> claimant = None \<and> lease = None)"

definition rowOk :: "taskRow \<Rightarrow> bool" where
  "rowOk t \<longleftrightarrow> shapeOk (t_type t) (t_cron t) (t_interval t) \<and> leaseOk (t_status t) (t_claimant t) (t_lease t) \<and>
     (t_status t = Failed \<longrightarrow> t_type t = Once)"

definition runOk :: "taskRow list \<Rightarrow> runRow \<Rightarrow> bool" where
  "runOk ts r \<longleftrightarrow> r_lease r \<noteq> None \<and> (r_task r, r_user r) \<in> (\<lambda>t. (t_id t, t_user t)) ` set ts"

definition taskInv :: "taskDb \<Rightarrow> bool" where
  "taskInv db \<longleftrightarrow> distinct (map t_id (db_tasks db)) \<and> distinct (map s_task (db_schedules db)) \<and>
     distinct (map r_id (db_runs db)) \<and> taskKey ` set (db_tasks db) = scheduleKey ` set (db_schedules db) \<and>
     list_all (runOk (db_tasks db)) (db_runs db) \<and> list_all rowOk (db_tasks db)"

section \<open>Facts under the invariant\<close>

lemma fst_keys: "fst (taskKey t) = t_id t" "fst (scheduleKey s) = s_task s"
  by (simp_all add: taskKey_def scheduleKey_def)

lemma taskInv_empty: "taskInv emptyTasks"
  by (simp add: taskInv_def emptyTasks_def)

lemma taskInv_distinct: "taskInv db \<Longrightarrow> distinct (map t_id (db_tasks db))"
  by (simp add: taskInv_def)

lemma taskInv_rowOk: "taskInv db \<Longrightarrow> t \<in> set (db_tasks db) \<Longrightarrow> rowOk t"
  by (simp add: taskInv_def list_all_iff)

lemma taskInv_same_task: "taskInv db \<Longrightarrow> t \<in> set (db_tasks db) \<Longrightarrow> t' \<in> set (db_tasks db) \<Longrightarrow> t_id t = t_id t' \<Longrightarrow> t = t'"
  by (auto simp: taskInv_def distinct_map dest: inj_onD)

text \<open>The schedule row of a task is found, by the join and by the tenant's query, and agrees with it.\<close>

lemma taskInv_schedule:
  assumes "taskInv db" "t \<in> set (db_tasks db)"
  obtains s where "s \<in> set (db_schedules db)" "scheduleKey s = taskKey t" "joined db t = Some s" "scheduleOf (t_user t) (t_id t) db = Some s"
proof -
  from assms have "taskKey t \<in> scheduleKey ` set (db_schedules db)" by (auto simp: taskInv_def)
  then obtain s where s: "s \<in> set (db_schedules db)" "scheduleKey s = taskKey t" by auto
  have d: "distinct (map s_task (db_schedules db))" using assms by (simp add: taskInv_def)
  have id: "s_task s = t_id t" "s_user s = t_user t" using s(2) by (simp_all add: scheduleKey_def taskKey_def)
  have "joined db t = Some s"
    using tbl_get_map_distinct[OF d s(1), of "\<lambda>_. True"] id by (simp add: joined_def)
  moreover have "scheduleOf (t_user t) (t_id t) db = Some s"
    using tbl_get_map_distinct[OF d s(1), of "\<lambda>x. s_user x = t_user t"] id by (simp add: scheduleOf_def ownSchedule_def[abs_def])
  ultimately show thesis using that s by blast
qed

text \<open>However the code decides it, a task recurs exactly when its schedule type is not \<open>once\<close>.\<close>

lemma hasSchedule_type: "shapeOk ty cron interval \<Longrightarrow> hasSchedule cron interval \<Longrightarrow> ty \<noteq> Once"
  by (auto simp: shapeOk_def hasSchedule_def split: if_splits)

lemma recurring_type:
  assumes "taskInv db" "t \<in> set (db_tasks db)"
  shows "joinedRecurring t (joined db t) \<longleftrightarrow> t_type t \<noteq> Once"
    and "rowRecurring t (scheduleOf (t_user t) (t_id t) db) \<longleftrightarrow> t_type t \<noteq> Once"
proof -
  obtain s where s: "scheduleKey s = taskKey t" "joined db t = Some s" "scheduleOf (t_user t) (t_id t) db = Some s"
    using taskInv_schedule[OF assms] by blast
  have k: "s_type s = t_type t" "s_cron s = t_cron t" "s_interval s = t_interval t"
    using s(1) by (simp_all add: scheduleKey_def taskKey_def)
  have "shapeOk (t_type t) (t_cron t) (t_interval t)" using taskInv_rowOk[OF assms] by (simp add: rowOk_def)
  from hasSchedule_type[OF this] s(2,3) k
  show "joinedRecurring t (joined db t) \<longleftrightarrow> t_type t \<noteq> Once"
    and "rowRecurring t (scheduleOf (t_user t) (t_id t) db) \<longleftrightarrow> t_type t \<noteq> Once"
    by (auto simp: joinedRecurring_def rowRecurring_def joinedType_def joinedCron_def joinedInterval_def rowCron_def
        rowInterval_def orElse_def Let_def split: option.splits)
qed

section \<open>Preservation\<close>

text \<open>Writes that keep the keys of tasks and schedules.\<close>

lemma map_via: "map k xs = map k ys \<Longrightarrow> (\<And>x. f x = g (k x)) \<Longrightarrow> map f xs = map f ys"
  by (metis list.map_comp map_cong comp_apply)

lemma taskInv_frame:
  assumes inv: "taskInv db"
    and tasks: "map taskKey (db_tasks db') = map taskKey (db_tasks db)" "list_all rowOk (db_tasks db')"
    and schedules: "map scheduleKey (db_schedules db') = map scheduleKey (db_schedules db)"
    and runs: "distinct (map r_id (db_runs db'))" "list_all (runOk (db_tasks db)) (db_runs db')"
  shows "taskInv db'"
proof -
  have "map t_id (db_tasks db') = map t_id (db_tasks db)"
    by (rule map_via[OF tasks(1), of _ fst]) (simp add: taskKey_def)
  moreover have "map s_task (db_schedules db') = map s_task (db_schedules db)"
    by (rule map_via[OF schedules, of _ fst]) (simp add: scheduleKey_def)
  moreover have "taskKey ` set (db_tasks db') = scheduleKey ` set (db_schedules db')"
    using inv arg_cong[OF tasks(1), of set] arg_cong[OF schedules, of set] by (simp add: taskInv_def)
  moreover have "(\<lambda>t. (t_id t, t_user t)) ` set (db_tasks db') = (\<lambda>t. (t_id t, t_user t)) ` set (db_tasks db)"
  proof -
    have "map (\<lambda>t. (t_id t, t_user t)) (db_tasks db') = map (\<lambda>t. (t_id t, t_user t)) (db_tasks db)"
      by (rule map_via[OF tasks(1), of _ "\<lambda>(a, b, _). (a, b)"]) (simp add: taskKey_def)
    from arg_cong[OF this, of set] show ?thesis by simp
  qed
  ultimately show ?thesis using inv tasks(2) runs by (simp add: taskInv_def list_all_iff runOk_def)
qed

text \<open>The tables after a statement.\<close>

lemma update_tables [simp]:
  "db_tasks (updateTask uid tid f db) = tbl_update (ownTask uid tid) f (db_tasks db)"
  "db_schedules (updateTask uid tid f db) = db_schedules db"
  "db_runs (updateTask uid tid f db) = db_runs db"
  "db_schedules (updateSchedule uid tid g db) = tbl_update (ownSchedule uid tid) g (db_schedules db)"
  "db_tasks (updateSchedule uid tid g db) = db_tasks db"
  "db_runs (updateSchedule uid tid g db) = db_runs db"
  "db_runs (updateRuns P h db) = tbl_update P h (db_runs db)"
  "db_tasks (updateRuns P h db) = db_tasks db"
  "db_schedules (updateRuns P h db) = db_schedules db"
  by (simp_all add: updateTask_def updateSchedule_def updateRuns_def)

lemma keys_tbl_update:
  "(\<And>t. taskKey (f t) = taskKey t) \<Longrightarrow> map taskKey (tbl_update P f ts) = map taskKey ts"
  "(\<And>s. scheduleKey (g s) = scheduleKey s) \<Longrightarrow> map scheduleKey (tbl_update Q g ss) = map scheduleKey ss"
  by (auto intro: map_tbl_update)

lemma runs_tbl_update:
  assumes "distinct (map r_id rs)" "list_all (runOk ts) rs"
    and "\<And>r. r_id (h r) = r_id r \<and> r_task (h r) = r_task r \<and> r_user (h r) = r_user r \<and> (r_lease r \<noteq> None \<longrightarrow> r_lease (h r) \<noteq> None)"
  shows "distinct (map r_id (tbl_update P h rs)) \<and> list_all (runOk ts) (tbl_update P h rs)"
  using assms by (auto simp: map_tbl_update runOk_def intro!: list_all_tbl_update)

lemma runs_snoc:
  assumes "distinct (map r_id rs)" "list_all (runOk ts) rs" "\<forall>r' \<in> set rs. r_id r' \<noteq> r_id r" "runOk ts r"
  shows "distinct (map r_id (rs @ [r])) \<and> list_all (runOk ts) (rs @ [r])"
  using assms by auto

lemma newRun_ok:
  assumes "getTask uid tid db = Some t"
  shows "runOk (db_tasks db) (newRun uid tid runId so claimant lease scheduledFor now db')"
  using getTask_own[OF assms] by (force simp: runOk_def newRun_def)

lemma taskInv_runs: "taskInv db \<Longrightarrow> distinct (map r_id (db_runs db)) \<and> list_all (runOk (db_tasks db)) (db_runs db)"
  by (simp add: taskInv_def)

lemma taskInv_rows: "taskInv db \<Longrightarrow> list_all rowOk (db_tasks db)"
  by (simp add: taskInv_def)

text \<open>A task whose lease is taken, renewed or given back keeps its key and is well formed.\<close>

lemma rowOk_Claimed: "rowOk t \<Longrightarrow> rowOk (t\<lparr>t_status := Claimed, t_claimant := Some c, t_lease := Some l, t_leaseMs := ms,
    t_claims := n, t_completed := None, t_next := x, t_updated := now\<rparr>)"
  "rowOk t \<Longrightarrow> rowOk (t\<lparr>t_status := Claimed, t_claimant := Some c, t_lease := Some l, t_leaseMs := ms, t_claims := n, t_updated := now\<rparr>)"
  by (simp_all add: rowOk_def leaseOk_def)

lemma inv_pause: "taskInv db \<Longrightarrow>
  taskInv (updateTask uid tid (\<lambda>t. t\<lparr>t_updated := now\<rparr>)
    (updateSchedule uid tid (\<lambda>s. s\<lparr>s_enabled := False, s_paused := Some now, s_updated := now\<rparr>) db))"
  by (rule taskInv_frame)
     (auto simp: keys_tbl_update taskKey_def scheduleKey_def rowOk_def taskInv_runs dest: taskInv_rows intro!: list_all_tbl_update)

lemma inv_resume: "taskInv db \<Longrightarrow>
  taskInv (updateTask uid tid (\<lambda>t. t\<lparr>t_status := Pending, t_claimant := None, t_lease := None, t_claims := 0,
          t_completed := None, t_next := next, t_updated := now\<rparr>)
        (updateSchedule uid tid (\<lambda>s. s\<lparr>s_enabled := True, s_paused := None, s_next := next, s_updated := now\<rparr>) db))"
  by (rule taskInv_frame)
     (auto simp: keys_tbl_update taskKey_def scheduleKey_def rowOk_def leaseOk_def activeStatus_def taskInv_runs
       dest: taskInv_rows intro!: list_all_tbl_update)

lemma list_all_tbl_update_mem:
  "list_all A rows \<Longrightarrow> (\<And>r. r \<in> set rows \<Longrightarrow> P r \<Longrightarrow> A r \<Longrightarrow> A (f r)) \<Longrightarrow> list_all A (tbl_update P f rows)"
  by (auto simp: list_all_iff set_tbl_update)

lemma runs_newRun:
  assumes "taskInv db" "getTask uid tid db = Some t" "\<forall>r \<in> set (db_runs db). r_id r \<noteq> runId"
  shows "distinct (map r_id (db_runs db @ [newRun uid tid runId so claimant lease scheduledFor now db]))"
    and "list_all (runOk (db_tasks db)) (db_runs db @ [newRun uid tid runId so claimant lease scheduledFor now db])"
  using taskInv_runs[OF assms(1)] assms(3) newRun_ok[OF assms(2)] by (auto simp: newRun_def)

lemma inv_claim:
  assumes "taskInv db" "getTask uid tid db = Some t" "\<forall>r \<in> set (db_runs db). r_id r \<noteq> runId"
  shows "taskInv (updateSchedule uid tid (\<lambda>s. s\<lparr>s_next := next, s_last := Some now, s_updated := now\<rparr>)
         (updateTask uid tid (\<lambda>t. t\<lparr>t_status := Claimed, t_claimant := Some claimant, t_lease := Some (now + leaseMs),
            t_leaseMs := leaseMs, t_claims := t_claims t + 1, t_completed := None, t_next := next, t_updated := now\<rparr>)
          (db\<lparr>db_runs := db_runs db @ [newRun uid tid runId so claimant (now + leaseMs) scheduledFor now db]\<rparr>)))"
  by (rule taskInv_frame[OF assms(1)], insert assms(1) runs_newRun[OF assms])
     (auto simp: keys_tbl_update taskKey_def scheduleKey_def rowOk_Claimed dest: taskInv_rows intro!: list_all_tbl_update)

lemma inv_manual:
  assumes "taskInv db" "getTask uid tid db = Some t" "\<forall>r \<in> set (db_runs db). r_id r \<noteq> runId"
  shows "taskInv (updateTask uid tid (\<lambda>t. t\<lparr>t_status := Claimed, t_claimant := Some claimant, t_lease := Some (now + leaseMs),
          t_leaseMs := leaseMs, t_claims := t_claims t + 1, t_updated := now\<rparr>)
        (db\<lparr>db_runs := db_runs db @ [newRun uid tid runId so claimant (now + leaseMs) now now db]\<rparr>))"
  by (rule taskInv_frame[OF assms(1)], insert assms(1) runs_newRun[OF assms])
     (auto simp: keys_tbl_update taskKey_def rowOk_Claimed dest: taskInv_rows intro!: list_all_tbl_update)

lemma inv_renew:
  assumes "taskInv db"
  shows "taskInv (updateRuns P (\<lambda>r. r\<lparr>r_lease := Some l, r_updated := now\<rparr>)
    (db\<lparr>db_tasks := tbl_update (renewable uid tid claimant now)
       (\<lambda>t. t\<lparr>t_lease := Some l, t_leaseMs := ms, t_updated := now\<rparr>) (db_tasks db)\<rparr>))"
  using assms
proof (rule taskInv_frame)
  show "list_all rowOk (db_tasks (updateRuns P (\<lambda>r. r\<lparr>r_lease := Some l, r_updated := now\<rparr>)
    (db\<lparr>db_tasks := tbl_update (renewable uid tid claimant now)
       (\<lambda>t. t\<lparr>t_lease := Some l, t_leaseMs := ms, t_updated := now\<rparr>) (db_tasks db)\<rparr>)))"
    using taskInv_rows[OF assms]
    by (auto intro!: list_all_tbl_update simp: rowOk_def leaseOk_def renewable_def heldBy_def activeStatus_def)
qed (use runs_tbl_update[of "db_runs db" "db_tasks db" "\<lambda>r. r\<lparr>r_lease := Some l, r_updated := now\<rparr>" P] taskInv_runs[OF assms]
     in \<open>auto simp: keys_tbl_update taskKey_def\<close>)

lemma inv_cancel:
  assumes "taskInv db"
  shows "taskInv (updateRuns P (\<lambda>r. r\<lparr>r_status := RunCancelled, r_errorCode := Some TASK_CANCELLED, r_error := Some TASK_CANCELLED,
             r_completed := Some now, r_updated := now\<rparr>)
        (updateSchedule uid tid (\<lambda>s. s\<lparr>s_enabled := False, s_paused := Some now, s_updated := now\<rparr>)
          (db\<lparr>db_tasks := tbl_update Q
            (\<lambda>t. t\<lparr>t_status := Cancelled, t_error := Some TASK_CANCELLED, t_claimant := None, t_lease := None,
               t_updated := now, t_completed := Some now\<rparr>) (db_tasks db)\<rparr>)))"
    (is "taskInv (updateRuns P ?h (updateSchedule uid tid ?g (db\<lparr>db_tasks := tbl_update Q ?f (db_tasks db)\<rparr>)))")
  using assms
proof (rule taskInv_frame)
  show "list_all rowOk (db_tasks (updateRuns P ?h (updateSchedule uid tid ?g (db\<lparr>db_tasks := tbl_update Q ?f (db_tasks db)\<rparr>))))"
    using taskInv_rows[OF assms] by (auto intro!: list_all_tbl_update simp: rowOk_def leaseOk_def activeStatus_def)
qed (use runs_tbl_update[of "db_runs db" "db_tasks db" ?h P] taskInv_runs[OF assms]
     in \<open>auto simp: keys_tbl_update taskKey_def scheduleKey_def\<close>)

text \<open>Settling: only a task that does not recur becomes failed.\<close>

lemma completeTask_ok:
  "taskKey (completeTask result clock recurring next t) = taskKey t"
  "rowOk t \<Longrightarrow> rowOk (completeTask result clock recurring next t)"
  by (simp_all add: completeTask_def taskKey_def rowOk_def leaseOk_def activeStatus_def)

lemma failTask_ok:
  "taskKey (failTask err retryable clock recurring next t) = taskKey t"
  "rowOk t \<Longrightarrow> recurring \<or> t_type t = Once \<Longrightarrow> rowOk (failTask err retryable clock recurring next t)"
  by (auto simp add: failTask_def taskKey_def rowOk_def leaseOk_def activeStatus_def Let_def)

lemma setTask_ok:
  assumes "setTask = completeTask result clock \<or> setTask = failTask err retryable clock"
    and "rowOk t" "recurring \<longleftrightarrow> t_type t \<noteq> Once"
  shows "taskKey (setTask recurring next t) = taskKey t" "rowOk (setTask recurring next t)"
  using assms(1) completeTask_ok failTask_ok assms(2,3) by auto

lemma map_tbl_update_mem: "(\<And>r. r \<in> set rows \<Longrightarrow> P r \<Longrightarrow> g (f r) = g r) \<Longrightarrow> map g (tbl_update P f rows) = map g rows"
  by (simp add: tbl_update_def)

lemma inv_settle:
  assumes inv: "taskInv db" and t: "getTask uid tid db = Some t"
    and setTask: "setTask = completeTask result clock \<or> setTask = failTask err retryable clock"
    and setRun: "\<And>r. \<not> activeRunStatus (r_status (setRun r)) \<and> r_id (setRun r) = r_id r \<and> r_task (setRun r) = r_task r \<and>
        r_user (setRun r) = r_user r \<and> r_lease (setRun r) = r_lease r"
    and f: "f = (\<lambda>db. db) \<or> f = updateSchedule uid tid (\<lambda>s. s\<lparr>s_next := next, s_updated := clock\<rparr>)"
  shows "taskInv (f (updateRuns P setRun (db\<lparr>db_tasks := tbl_update (settleable uid tid claimant clock)
      (setTask (rowRecurring t (scheduleOf uid tid db)) next) (db_tasks db)\<rparr>)))"
proof -
  let ?upd = "tbl_update (settleable uid tid claimant clock) (setTask (rowRecurring t (scheduleOf uid tid db)) next) (db_tasks db)"
  have own: "t \<in> set (db_tasks db)" "t_id t = tid" "t_user t = uid" using getTask_own[OF t] by auto
  have rec: "rowRecurring t (scheduleOf uid tid db) \<longleftrightarrow> t_type t \<noteq> Once" using recurring_type(2)[OF inv own(1)] own by simp
  have same: "t' = t" if "t' \<in> set (db_tasks db)" "settleable uid tid claimant clock t'" for t'
    using taskInv_same_task[OF inv that(1) own(1)] settleable_own[OF that(2)] own by (simp add: ownTask_def)
  have ok: "taskKey (setTask (rowRecurring t (scheduleOf uid tid db)) next t) = taskKey t"
    "rowOk (setTask (rowRecurring t (scheduleOf uid tid db)) next t)"
    using setTask_ok[OF setTask taskInv_rowOk[OF inv own(1)] rec] by auto
  have keys: "map taskKey ?upd = map taskKey (db_tasks db)"
    by (rule map_tbl_update_mem) (use same ok in auto)
  have rows: "list_all rowOk ?upd"
    by (rule list_all_tbl_update_mem[OF taskInv_rows[OF inv]]) (use same ok in auto)
  have tables: "db_tasks (f db1) = db_tasks db1" "db_runs (f db1) = db_runs db1"
    "map scheduleKey (db_schedules (f db1)) = map scheduleKey (db_schedules db1)" for db1
    using f by (auto simp: keys_tbl_update scheduleKey_def)
  show ?thesis
    by (rule taskInv_frame[OF inv])
       (use keys rows runs_tbl_update[of "db_runs db" "db_tasks db" setRun P] taskInv_runs[OF inv] setRun in \<open>auto simp: tables\<close>)
qed

text \<open>Create.\<close>

lemma scheduleInput_ok: "scheduleInput env ty input = Inr (due, cron, interval) \<Longrightarrow> shapeOk ty cron interval"
  by (cases ty) (auto simp: scheduleInput_def andThen_Inr_iff shapeOk_def validateIntervalSeconds_Inr intervalOk_def truthy_def
      dest: validateCronExpression_Inr)

lemma buildRows_ok:
  assumes "buildRows env uid input now schedId title tid key priority payload schedType due cron interval misfire overlap tz = (t, s)"
  shows "taskKey t = scheduleKey s" "shapeOk schedType cron interval \<Longrightarrow> rowOk t" "t_user t = uid" "t_status t = Pending"
    "t_claims t = 0" "t_maxRetries t = given_or (i_maxRetries input) 3"
proof -
  have ts: "t = fst (buildRows env uid input now schedId title tid key priority payload schedType due cron interval misfire overlap tz)"
    "s = snd (buildRows env uid input now schedId title tid key priority payload schedType due cron interval misfire overlap tz)"
    using assms by simp_all
  show "taskKey t = scheduleKey s" "shapeOk schedType cron interval \<Longrightarrow> rowOk t" "t_user t = uid" "t_status t = Pending"
    "t_claims t = 0" "t_maxRetries t = given_or (i_maxRetries input) 3"
    unfolding ts buildRows_def Let_def
    by (simp_all add: taskKey_def scheduleKey_def rowOk_def leaseOk_def activeStatus_def)
qed

lemma createRows_Inr:
  assumes "createRows env uid input now newId schedId = Inr (t, s)"
  obtains title tid key priority payload schedType due cron interval misfire overlap tz where
    "scheduleInput env schedType input = Inr (due, cron, interval)"
    "buildRows env uid input now schedId title tid key priority payload schedType due cron interval misfire overlap tz = (t, s)"
  using assms unfolding createRows_def andThen_Inr_iff split_beta sum.inject by (elim exE conjE) (metis prod.collapse)

lemma createRows_ok:
  assumes "createRows env uid input now newId schedId = Inr (t, s)"
  shows "taskKey t = scheduleKey s" "rowOk t" "t_user t = uid" "t_status t = Pending" "t_claims t = 0"
    "t_maxRetries t = given_or (i_maxRetries input) 3"
proof -
  obtain title tid key priority payload schedType due cron interval misfire overlap tz where
    sched: "scheduleInput env schedType input = Inr (due, cron, interval)" and
    rows: "buildRows env uid input now schedId title tid key priority payload schedType due cron interval misfire overlap tz = (t, s)"
    by (rule createRows_Inr[OF assms])
  show "taskKey t = scheduleKey s" "rowOk t" "t_user t = uid" "t_status t = Pending" "t_claims t = 0"
    "t_maxRetries t = given_or (i_maxRetries input) 3"
    using buildRows_ok[OF rows] scheduleInput_ok[OF sched] by simp_all
qed

lemma inv_create:
  assumes inv: "taskInv db" and rows: "createRows env uid input now newId schedId = Inr (t, s)"
    and fresh: "\<forall>t' \<in> set (db_tasks db). t_id t' \<noteq> t_id t \<and> \<not> (t_user t' = t_user t \<and> t_key t \<noteq> None \<and> t_key t' = t_key t)"
      "\<forall>s' \<in> set (db_schedules db). s_id s' \<noteq> s_id s \<and> s_task s' \<noteq> s_task s"
  shows "taskInv (db\<lparr>db_tasks := db_tasks db @ [t], db_schedules := db_schedules db @ [s]\<rparr>)"
proof -
  have "runOk (db_tasks db @ [t]) r" if "runOk (db_tasks db) r" for r using that by (auto simp: runOk_def)
  then have "list_all (runOk (db_tasks db @ [t])) (db_runs db)"
    using inv by (auto simp: taskInv_def list_all_iff)
  then show ?thesis
    using inv createRows_ok[OF rows] fresh by (force simp: taskInv_def)
qed

text \<open>Delete.\<close>

lemma inv_delete:
  assumes inv: "taskInv db" and t: "getTask uid tid db = Some t"
  shows "taskInv \<lparr>db_tasks = filter (\<lambda>t. \<not> ownTask uid tid t) (db_tasks db),
        db_schedules = filter (\<lambda>s. s_task s \<noteq> tid) (db_schedules db), db_runs = filter (\<lambda>r. r_task r \<noteq> tid) (db_runs db)\<rparr>"
proof -
  have own: "t \<in> set (db_tasks db)" "t_id t = tid" "t_user t = uid" using getTask_own[OF t] by auto
  have same: "t' = t" if "t' \<in> set (db_tasks db)" "t_id t' = tid" for t'
    using taskInv_same_task[OF inv that(1) own(1)] that(2) own(2) by simp
  have "(\<not> ownTask uid tid t') = (t_id t' \<noteq> tid)" if "t' \<in> set (db_tasks db)" for t'
    using same[OF that] own by (auto simp: ownTask_def)
  then have tasks: "filter (\<lambda>t. \<not> ownTask uid tid t) (db_tasks db) = filter (\<lambda>t. t_id t \<noteq> tid) (db_tasks db)"
    by (rule filter_cong[OF refl])
  have keys: "taskKey ` {t \<in> set (db_tasks db). t_id t \<noteq> tid} = {k \<in> taskKey ` set (db_tasks db). fst k \<noteq> tid}"
    "scheduleKey ` {s \<in> set (db_schedules db). s_task s \<noteq> tid} = {k \<in> scheduleKey ` set (db_schedules db). fst k \<noteq> tid}"
    using fst_keys by (auto intro: image_eqI)
  have "runOk (filter (\<lambda>t. t_id t \<noteq> tid) (db_tasks db)) r" if "runOk (db_tasks db) r" "r_task r \<noteq> tid" for r
    using that by (auto simp: runOk_def)
  then have "list_all (runOk (filter (\<lambda>t. t_id t \<noteq> tid) (db_tasks db))) (filter (\<lambda>r. r_task r \<noteq> tid) (db_runs db))"
    using taskInv_runs[OF inv] by (auto simp: list_all_iff)
  moreover have "list_all rowOk (filter (\<lambda>t. t_id t \<noteq> tid) (db_tasks db))"
    using taskInv_rows[OF inv] by (auto simp: list_all_iff)
  moreover have "taskKey ` set (filter (\<lambda>t. t_id t \<noteq> tid) (db_tasks db)) = scheduleKey ` set (filter (\<lambda>s. s_task s \<noteq> tid) (db_schedules db))"
    using inv unfolding taskInv_def set_filter keys by (elim conjE) (simp only:)
  ultimately show ?thesis
    using inv unfolding tasks taskInv_def by (simp only: taskDb.simps distinct_map_filter)
qed

text \<open>Update: the row of the task and the row of its schedule get the same schedule.\<close>

lemma scheduleConfigOf_shape:
  assumes k: "scheduleConfigOf env u t so now = Inr k" and u: "updateOk env u"
    and shape: "shapeOk (t_type t) (t_cron t) (t_interval t)"
    and so: "\<And>s. so = Some s \<Longrightarrow> s_type s = t_type t \<and> s_cron s = t_cron t \<and> s_interval s = t_interval t"
  shows "shapeOk (k_type k) (k_cron k) (k_interval k)"
proof -
  define ty where "ty = given_or (u_scheduleType u) (case so of None \<Rightarrow> t_type t | Some s \<Rightarrow> s_type s)"
  define cron where "cron = given_or (u_cronExpression u) (case so of None \<Rightarrow> t_cron t | Some s \<Rightarrow> s_cron s)"
  define interval where "interval = given_or (u_intervalSeconds u) (case so of None \<Rightarrow> t_interval t | Some s \<Rightarrow> s_interval s)"
  have "k_type k = ty" "k_cron k = (if ty = Cron then cron else None)" "k_interval k = (if ty = Interval then interval else None)"
    and "ty = Cron \<longrightarrow> opt_truthy cron" "ty = Interval \<longrightarrow> interval \<noteq> None"
    using k unfolding scheduleConfigOf_def Let_def ty_def[symmetric] cron_def[symmetric] interval_def[symmetric]
    by (auto split: if_splits)
  moreover have "pred_option intervalOk (t_interval t)"
    using shape by (auto simp: shapeOk_def split: if_splits)
  then have "pred_option intervalOk interval"
    using u so by (cases "u_intervalSeconds u"; cases so) (auto simp: interval_def given_or_def updateOk_def)
  ultimately show ?thesis by (auto simp: shapeOk_def)
qed

lemma updateAllowed_status:
  assumes "updateAllowed uid tid t now db = Inr ()"
  shows "\<not> activeStatus (t_status t) \<and> t_status t \<noteq> Failed"
  using assms by (auto simp: updateAllowed_def terminal_def split: if_splits option.splits)

definition rekey :: "string \<Rightarrow> string \<Rightarrow> scheduleConfig \<Rightarrow> string \<times> string \<times> taskScheduleType \<times> string option \<times> int option \<times> string
    \<Rightarrow> string \<times> string \<times> taskScheduleType \<times> string option \<times> int option \<times> string" where
  "rekey uid tid k x = (if fst x = tid \<and> fst (snd x) = uid then (tid, uid, k_type k, k_cron k, k_interval k, k_tz k) else x)"

lemma rekey_map:
  "map taskKey (tbl_update (ownTask uid tid) (applyUpdate u p k now) ts) = map (rekey uid tid k) (map taskKey ts)"
  "map scheduleKey (tbl_update (ownSchedule uid tid)
     (\<lambda>s. s\<lparr>s_type := k_type k, s_cron := k_cron k, s_interval := k_interval k, s_next := x, s_tz := k_tz k,
        s_misfire := m, s_overlap := ov, s_updated := now\<rparr>) ss) = map (rekey uid tid k) (map scheduleKey ss)"
  by (simp_all add: tbl_update_def rekey_def taskKey_def scheduleKey_def applyUpdate_def ownTask_def ownSchedule_def)

lemma fst_rekey: "fst (rekey uid tid k x) = fst x"
  by (simp add: rekey_def)

lemma inv_update:
  assumes inv: "taskInv db" and t: "getTask uid tid db = Some t" and allowed: "updateAllowed uid tid t now db = Inr ()"
    and u: "updateOk env u" and k: "scheduleConfigOf env u t (scheduleOf uid tid db) now = Inr k"
    and w: "writeSchedule uid tid k now schedId (updateTask uid tid (applyUpdate u p k now) db) = (Inr (), db')"
  shows "taskInv db'"
proof -
  have own: "t \<in> set (db_tasks db)" "t_id t = tid" "t_user t = uid" using getTask_own[OF t] by auto
  have same: "t' = t" if "t' \<in> set (db_tasks db)" "ownTask uid tid t'" for t'
    using taskInv_same_task[OF inv that(1) own(1)] that(2) own by (simp add: ownTask_def)
  obtain s where s: "scheduleKey s = taskKey t" "scheduleOf uid tid db = Some s"
    using taskInv_schedule[OF inv own(1)] own by blast
  have shape: "shapeOk (k_type k) (k_cron k) (k_interval k)"
    using scheduleConfigOf_shape[OF k u] taskInv_rowOk[OF inv own(1)] s by (simp add: rowOk_def scheduleKey_def taskKey_def)
  have "scheduleOf uid tid (updateTask uid tid (applyUpdate u p k now) db) = Some s"
    using s(2) by (simp add: scheduleOf_def)
  with w have db': "db' = updateSchedule uid tid (\<lambda>s. s\<lparr>s_type := k_type k, s_cron := k_cron k, s_interval := k_interval k,
      s_next := k_next k, s_tz := k_tz k, s_misfire := k_misfire k, s_overlap := k_overlap k, s_updated := now\<rparr>)
      (updateTask uid tid (applyUpdate u p k now) db)"
    by (simp add: writeSchedule_def)
  have keys: "map taskKey (db_tasks db') = map (rekey uid tid k) (map taskKey (db_tasks db))"
    "map scheduleKey (db_schedules db') = map (rekey uid tid k) (map scheduleKey (db_schedules db))"
    by (simp_all only: db' update_tables rekey_map)
  have ids: "map t_id (db_tasks db') = map t_id (db_tasks db)" "map s_task (db_schedules db') = map s_task (db_schedules db)"
    using arg_cong[OF keys(1), of "map fst"] arg_cong[OF keys(2), of "map fst"]
    by (simp_all add: fst_keys fst_rekey comp_def)
  have "taskKey ` set (db_tasks db') = scheduleKey ` set (db_schedules db')"
    using inv arg_cong[OF keys(1), of set] arg_cong[OF keys(2), of set] by (simp add: taskInv_def image_image[symmetric])
  moreover have "(\<lambda>t. (t_id t, t_user t)) ` set (db_tasks db') = (\<lambda>t. (t_id t, t_user t)) ` set (db_tasks db)"
  proof -
    have "map (\<lambda>t. (t_id t, t_user t)) (db_tasks db') = map (\<lambda>t. (t_id t, t_user t)) (db_tasks db)"
      unfolding db' update_tables by (rule map_tbl_update) (simp add: applyUpdate_def)
    from arg_cong[OF this, of set] show ?thesis by simp
  qed
  moreover have "list_all rowOk (db_tasks db')"
  proof -
    have "rowOk (applyUpdate u p k now t)"
      using taskInv_rowOk[OF inv own(1)] shape updateAllowed_status[OF allowed] by (simp add: rowOk_def applyUpdate_def)
    then show ?thesis
      unfolding db' update_tables using list_all_tbl_update_mem[OF taskInv_rows[OF inv]] same by blast
  qed
  moreover have "db_runs db' = db_runs db" by (simp add: db')
  ultimately show ?thesis
    using inv ids by (simp add: taskInv_def list_all_iff runOk_def)
qed

text \<open>Recovery, one task after the other.\<close>

lemma inv_updateTask:
  assumes "taskInv db" "\<And>t. taskKey (f t) = taskKey t"
    "\<And>t. t \<in> set (db_tasks db) \<Longrightarrow> ownTask uid tid t \<Longrightarrow> rowOk t \<Longrightarrow> rowOk (f t)"
  shows "taskInv (updateTask uid tid f db)"
  by (rule taskInv_frame[OF assms(1)])
     (use assms taskInv_runs[OF assms(1)] list_all_tbl_update_mem[OF taskInv_rows[OF assms(1)]] in \<open>auto simp: keys_tbl_update\<close>)

lemma inv_updateSchedule:
  assumes "taskInv db" "\<And>s. scheduleKey (g s) = scheduleKey s"
  shows "taskInv (updateSchedule uid tid g db)"
  by (rule taskInv_frame[OF assms(1)])
     (use assms taskInv_runs[OF assms(1)] taskInv_rows[OF assms(1)] in \<open>auto simp: keys_tbl_update\<close>)

lemma recoverTask_inv:
  assumes inv: "taskInv (fst acc)" and rec: "joinedRecurring t so \<longleftrightarrow> t_type t \<noteq> Once"
    and key: "\<And>r. r \<in> set (db_tasks (fst acc)) \<Longrightarrow> t_id r = t_id t \<Longrightarrow> t_type r = t_type t"
  shows "taskInv (fst (recoverTask env uid now (t, so) acc))"
    "map taskKey (db_tasks (fst (recoverTask env uid now (t, so) acc))) = map taskKey (db_tasks (fst acc))"
proof -
  have "taskInv (updateTask uid (t_id t) (\<lambda>t. t\<lparr>t_status := Pending, t_claimant := None, t_lease := None, t_claims := 0,
      t_completed := None, t_error := Some ''Task lease expired'', t_next := x, t_updated := now\<rparr>) (fst acc))" for x
    by (rule inv_updateTask[OF inv]) (simp_all add: taskKey_def rowOk_def leaseOk_def activeStatus_def)
  then have 1: "taskInv (updateSchedule uid (t_id t) (\<lambda>s. s\<lparr>s_next := x, s_updated := now\<rparr>)
     (updateTask uid (t_id t) (\<lambda>t. t\<lparr>t_status := Pending, t_claimant := None, t_lease := None, t_claims := 0,
      t_completed := None, t_error := Some ''Task lease expired'', t_next := x, t_updated := now\<rparr>) (fst acc)))" for x
    by (rule inv_updateSchedule) (simp add: scheduleKey_def)
  have 2: "taskInv (updateTask uid (t_id t) (\<lambda>t. t\<lparr>t_status := Pending, t_claimant := None, t_lease := None, t_updated := now\<rparr>) (fst acc))"
    by (rule inv_updateTask[OF inv]) (simp_all add: taskKey_def rowOk_def leaseOk_def activeStatus_def)
  have 3: "taskInv (updateTask uid (t_id t) (\<lambda>t. t\<lparr>t_status := Failed, t_lease := None, t_updated := now, t_completed := Some now,
      t_error := Some ''Task lease expired: max retries exhausted''\<rparr>) (fst acc))" if "t_type t = Once"
    by (rule inv_updateTask[OF inv]) (use key that in \<open>auto simp: taskKey_def rowOk_def leaseOk_def activeStatus_def ownTask_def\<close>)
  show "taskInv (fst (recoverTask env uid now (t, so) acc))"
    using 1 2 3 rec by (simp add: recoverTask_def Let_def)
  show "map taskKey (db_tasks (fst (recoverTask env uid now (t, so) acc))) = map taskKey (db_tasks (fst acc))"
    by (simp add: recoverTask_def Let_def keys_tbl_update taskKey_def)
qed

lemma fold_recover_inv:
  assumes "taskInv (fst acc)" "map taskKey (db_tasks (fst acc)) = map taskKey (db_tasks db0)" "taskInv db0"
    and "\<And>t so. (t, so) \<in> set xs \<Longrightarrow> t \<in> set (db_tasks db0) \<and> so = joined db0 t"
  shows "taskInv (fst (fold (recoverTask env uid now) xs acc)) \<and>
    map taskKey (db_tasks (fst (fold (recoverTask env uid now) xs acc))) = map taskKey (db_tasks db0)"
  using assms
proof (induction xs arbitrary: acc)
  case (Cons x xs)
  obtain t so where x: "x = (t, so)" by force
  have t: "t \<in> set (db_tasks db0)" "so = joined db0 t" using Cons.prems(4) x by auto
  have key: "t_type r = t_type t" if "r \<in> set (db_tasks (fst acc))" "t_id r = t_id t" for r
  proof -
    have "taskKey r \<in> set (map taskKey (db_tasks (fst acc)))" using that(1) by simp
    then obtain r0 where "r0 \<in> set (db_tasks db0)" "taskKey r0 = taskKey r" using Cons.prems(2) by auto
    moreover from this have "t_id r0 = t_id t" "t_type r0 = t_type r" using that(2) by (simp_all add: taskKey_def)
    ultimately show ?thesis using taskInv_same_task[OF \<open>taskInv db0\<close> _ t(1), of r0] by simp
  qed
  have "joinedRecurring t so \<longleftrightarrow> t_type t \<noteq> Once" using recurring_type(1)[OF \<open>taskInv db0\<close> t(1)] t(2) by simp
  note step = recoverTask_inv[OF Cons.prems(1) this key]
  have "taskInv (fst (fold (recoverTask env uid now) xs (recoverTask env uid now x acc))) \<and>
    map taskKey (db_tasks (fst (fold (recoverTask env uid now) xs (recoverTask env uid now x acc)))) = map taskKey (db_tasks db0)"
  proof (rule Cons.IH)
    show "taskInv (fst (recoverTask env uid now x acc))" using step(1) x by simp
    show "map taskKey (db_tasks (fst (recoverTask env uid now x acc))) = map taskKey (db_tasks db0)"
      using step(2) x Cons.prems(2) by simp
    show "taskInv db0" by fact
    show "t' \<in> set (db_tasks db0) \<and> so' = joined db0 t'" if "(t', so') \<in> set xs" for t' so'
      using Cons.prems(4)[of t' so'] that by simp
  qed
  then show ?case by simp
qed simp

lemma inv_recover:
  assumes inv: "taskInv db" and "fold (recoverTask env uid now) (expiredTasks uid now db) (db, r0) = (db', res)"
  shows "taskInv (updateRuns P (failExpiredRun now) db')"
proof -
  have "t \<in> set (db_tasks db) \<and> so = joined db t" if "(t, so) \<in> set (expiredTasks uid now db)" for t so
    using that by (auto simp: expiredTasks_def)
  then have "taskInv (fst (fold (recoverTask env uid now) (expiredTasks uid now db) (db, r0)))"
    using fold_recover_inv[of "(db, r0)" db "expiredTasks uid now db" env uid now] inv by simp
  then have inv': "taskInv db'" using assms(2) by simp
  then show ?thesis
    by (rule taskInv_frame)
       (use runs_tbl_update[of "db_runs db'" "db_tasks db'" "failExpiredRun now" P] taskInv_runs[OF inv'] taskInv_rows[OF inv']
        in \<open>auto simp: failExpiredRun_def\<close>)
qed

section \<open>Every operation keeps the invariant\<close>

lemma taskStep_inv: "taskStep env uid l db db' \<Longrightarrow> taskInv db \<Longrightarrow> taskInv db'"
proof (induction rule: taskStep.induct)
  case step_create
  then show ?case by (blast intro: inv_create)
next
  case step_update
  then show ?case by (blast intro: inv_update)
next
  case step_delete
  then show ?case by (blast intro: inv_delete)
next
  case step_settle
  show ?case by (rule inv_settle[OF step_settle(6,1,3,4,5)])
next
  case step_recover
  then show ?case by (blast intro: inv_recover)
qed (rule inv_pause inv_resume inv_claim inv_manual inv_renew inv_cancel; assumption)+

lemma execTask_step:
  assumes "distinct (map t_id (db_tasks db))"
  shows "execTask env uid c db = db \<or> (\<exists>l. taskStep env uid l db (execTask env uid c db) \<and> labelFits c l)"
proof (cases c)
  case (CreateTask input now newId schedId)
  obtain res db' where e: "create env uid input now newId schedId db = (res, db')" by force
  with CreateTask create_step[OF e] show ?thesis by fastforce
next
  case (UpdateTask idv input now schedId)
  obtain res db' where e: "update env uid idv input now schedId db = (res, db')" by force
  with UpdateTask update_step[OF e] show ?thesis by fastforce
next
  case (DeleteTask idv)
  obtain res db' where e: "deleteTask uid idv db = (res, db')" by force
  with DeleteTask delete_step[OF e, of env] show ?thesis by fastforce
next
  case (PauseTask idv now)
  obtain res db' where e: "pause uid idv now db = (res, db')" by force
  with PauseTask pause_step[OF e, of env] show ?thesis by fastforce
next
  case (ResumeTask idv now)
  obtain res db' where e: "resume env uid idv now db = (res, db')" by force
  with ResumeTask resume_step[OF e] show ?thesis by fastforce
next
  case (ClaimTask input runId)
  obtain res db' where e: "claim env uid input runId db = (res, db')" by force
  with ClaimTask claim_step[OF e assms] show ?thesis by fastforce
next
  case (RenewTask idv claimant ms runId now)
  obtain res db' where e: "renewLease uid idv claimant ms runId now db = (res, db')" by force
  with RenewTask renew_step[OF e, of env] show ?thesis by fastforce
next
  case (CompleteTask idv claimant result runId usage now)
  obtain res db' where e: "complete env uid idv claimant result runId usage now db = (res, db')" by force
  with CompleteTask complete_step[OF e assms] show ?thesis by fastforce
next
  case (FailTask idv claimant err retryable runId code now)
  obtain res db' where e: "fail env uid idv claimant err retryable runId code now db = (res, db')" by force
  with FailTask fail_step[OF e assms] show ?thesis by fastforce
next
  case (CancelTask idv now)
  obtain res db' where e: "cancel uid idv now db = (res, db')" by force
  with CancelTask cancel_step[OF e, of env] show ?thesis by fastforce
next
  case (RecoverTasks now)
  obtain res db' where e: "recoverExpiredLeases env uid now db = (res, db')" by force
  with RecoverTasks recover_step[OF e] show ?thesis by fastforce
next
  case (ManualRun idv claimant ms now runId)
  obtain res db' where e: "createManualRun uid idv claimant ms now runId db = (res, db')" by force
  with ManualRun manual_step[OF e, of env] show ?thesis by fastforce
qed

lemma execTask_inv: "taskInv db \<Longrightarrow> taskInv (execTask env uid c db)"
  using execTask_step[OF taskInv_distinct] taskStep_inv by metis

interpretation tasks: invariant_ops "\<lambda>(uid, c) db. (Inr () :: unit + unit, execTask env uid c db)" taskInv for env
  by unfold_locales (auto intro: execTask_inv)

lemma execTasks_fold: "execTasks env cs db = fold (\<lambda>c st. snd ((\<lambda>(uid, c) db. (Inr () :: unit + unit, execTask env uid c db)) c st)) cs db"
  by (induction env cs db rule: execTasks.induct) simp_all

lemma execTasks_inv: "taskInv db \<Longrightarrow> taskInv (execTasks env cs db)"
  unfolding execTasks_fold by (rule tasks.run_keeps)

end
