(* ===== verification/Task_Theorems.thy ===== *)
theory Task_Theorems
  imports Task_Invariants
begin

text \<open>
  What the task repository promises: the tables stay consistent, a task has at most one live run, a
  claim is settled at most once, the queue serves the most urgent due task, expired leases are
  recovered, tenants do not see each other, and retries are bounded.
\<close>

section \<open>Live runs\<close>

definition cmdClocks :: "(string \<times> taskCmd) list \<Rightarrow> instant list" where
  "cmdClocks cs = List.map_filter (\<lambda>(uid, c). cmdClock c) cs"

definition liveRuns :: "instant \<Rightarrow> string \<Rightarrow> string \<Rightarrow> taskDb \<Rightarrow> runRow list" where
  "liveRuns now uid tid db = filter (liveRun now uid tid) (db_runs db)"

definition singleLive :: "instant \<Rightarrow> taskDb \<Rightarrow> bool" where
  "singleLive now db \<longleftrightarrow> (\<forall>uid tid. length (liveRuns now uid tid db) \<le> 1)"

lemma length_filter_mono: "(\<And>x. x \<in> set xs \<Longrightarrow> P x \<Longrightarrow> Q x) \<Longrightarrow> length (filter P xs) \<le> length (filter Q xs)"
  by (induction xs) auto

lemma liveRun_earlier: "sqlLe now now' \<Longrightarrow> liveRun now' uid tid r \<Longrightarrow> liveRun now uid tid r"
  by (auto simp: liveRun_def intro: sqlLe_less_trans split: option.splits)

lemma singleLive_later: "singleLive now db \<Longrightarrow> sqlLe now now' \<Longrightarrow> singleLive now' db"
proof -
  assume one: "singleLive now db" and le: "sqlLe now now'"
  have "length (filter (liveRun now' uid tid) (db_runs db)) \<le> length (filter (liveRun now uid tid) (db_runs db))" for uid tid
    using liveRun_earlier[OF le] by (rule length_filter_mono)
  with one show ?thesis unfolding singleLive_def liveRuns_def by (blast intro: le_trans)
qed

lemma liveRuns_tbl_update:
  assumes "\<And>r. P r \<Longrightarrow> liveRun now uid tid (h r) \<Longrightarrow> liveRun now uid tid r"
  shows "length (filter (liveRun now uid tid) (tbl_update P h rs)) \<le> length (filter (liveRun now uid tid) rs)"
  using assms by (induction rs) (auto simp: table_simps)

lemma singleLive_update:
  assumes "singleLive now db" "db_runs db' = tbl_update P h (db_runs db)"
    and "\<And>r uid tid. P r \<Longrightarrow> liveRun now uid tid (h r) \<Longrightarrow> liveRun now uid tid r"
  shows "singleLive now db'"
  using assms(1) liveRuns_tbl_update[of P now _ _ h "db_runs db"] assms(3)
  unfolding singleLive_def liveRuns_def assms(2) by (meson le_trans)

lemma singleLive_updateRuns:
  "singleLive now db \<Longrightarrow> db_runs db0 = db_runs db \<Longrightarrow>
   (\<And>r uid tid. P r \<Longrightarrow> liveRun now uid tid (h r) \<Longrightarrow> liveRun now uid tid r) \<Longrightarrow> singleLive now (updateRuns P h db0)"
  by (rule singleLive_update[of now db _ P h]) simp_all

lemma singleLive_same: "singleLive now db \<Longrightarrow> db_runs db' = db_runs db \<Longrightarrow> singleLive now db'"
  by (simp add: singleLive_def liveRuns_def)

lemma singleLive_new:
  assumes "singleLive now db" "db_runs db' = db_runs db @ [newRun uid tid runId so claimant lease scheduledFor t0 db0]"
    and "\<forall>r \<in> set (db_runs db). \<not> liveRun now uid tid r"
  shows "singleLive now db'"
proof -
  have "length (filter (liveRun now u i) (db_runs db')) \<le> 1" for u i
  proof (cases "u = uid \<and> i = tid")
    case True
    with assms(3) have "filter (liveRun now u i) (db_runs db) = []" by (simp add: filter_empty_conv)
    with assms(2) show ?thesis by simp
  next
    case False
    then have "\<not> liveRun now u i (newRun uid tid runId so claimant lease scheduledFor t0 db0)"
      by (auto simp: liveRun_def ownRun_def newRun_def)
    with assms(1,2) show ?thesis by (simp add: singleLive_def liveRuns_def)
  qed
  then show ?thesis by (simp add: singleLive_def liveRuns_def)
qed

lemma manualRefused_live:
  assumes inv: "taskInv db" and "manualRefused uid tid t so now db = None"
  shows "\<forall>r \<in> set (db_runs db). \<not> liveRun now uid tid r"
proof -
  have "\<forall>r \<in> set (db_runs db). \<not> (ownRun uid tid r \<and> activeRunStatus (r_status r) \<and>
      (case r_lease r of None \<Rightarrow> False | Some l \<Rightarrow> sqlLess now l))"
    using assms(2) by (auto simp: manualRefused_def tbl_get_None split: if_splits option.splits)
  moreover have "\<forall>r \<in> set (db_runs db). r_lease r \<noteq> None"
    using taskInv_runs[OF inv] by (auto simp: list_all_iff runOk_def)
  ultimately show ?thesis unfolding liveRun_def by (metis option.case_eq_if)
qed

lemma recoverTask_runs: "db_runs (fst (recoverTask env uid now x acc)) = db_runs (fst acc)"
  by (simp add: recoverTask_def Let_def)

lemma fold_recoverTask_runs: "db_runs (fst (fold (recoverTask env uid now) xs acc)) = db_runs (fst acc)"
  by (induction xs arbitrary: acc) (simp_all add: recoverTask_runs)

lemma writeSchedule_runs: "writeSchedule uid tid k now schedId db = (r, db') \<Longrightarrow> db_runs db' = db_runs db"
  by (auto simp: writeSchedule_def insertSchedule_def split: option.splits if_splits)

fun labelClock :: "taskLabel \<Rightarrow> instant \<Rightarrow> instant" where
  "labelClock (TakeLease u tid now named) _ = now"
| "labelClock (RenewLease now) _ = now"
| "labelClock _ prior = prior"

lemma taskStep_singleLive:
  assumes "taskStep env uid l db db'" "taskInv db" "singleLive (labelClock l now) db"
  shows "singleLive (labelClock l now) db'"
  using assms
proof cases
  case (step_update tid t now' u k schedId p)
  with assms(3) show ?thesis by (auto elim!: singleLive_same dest: writeSchedule_runs)
next
  case (step_delete tid t)
  have fewer: "length (filter Q (filter R rs)) \<le> length (filter Q rs)" for Q R and rs :: "runRow list"
    by (induction rs) auto
  have "db_runs db' = filter (\<lambda>r. r_task r \<noteq> tid) (db_runs db)" using step_delete(2) by simp
  with assms(3) fewer show ?thesis
    unfolding singleLive_def liveRuns_def by (metis le_trans)
next
  case (step_claim tid t named now' runId nx claimant leaseMs so scheduledFor)
  with assms(3) show ?thesis by (auto intro: singleLive_new)
next
  case (step_manual tid t so now' runId claimant leaseMs)
  with assms(3) manualRefused_live[OF assms(2), of uid tid t so now'] show ?thesis by (auto intro: singleLive_new)
next
  case (step_renew now' tid claimant runId leaseMs)
  have "singleLive (labelClock l now) (updateRuns P (\<lambda>r. r\<lparr>r_lease := Some (now' + leaseMs), r_updated := now'\<rparr>)
      (db\<lparr>db_tasks := ts\<rparr>))" if "\<And>r. P r \<Longrightarrow> liveRun now' uid tid r" for P ts
    using that step_renew(1) by (intro singleLive_updateRuns[OF assms(3)]) (auto simp: liveRun_def ownRun_def)
  then show ?thesis
    unfolding step_renew(2) by (auto simp: liveRun_def split: option.splits)
next
  case (step_settle tid t claimant clock setTask result err retryable setRun f nx runId)
  have f: "db_runs (f x) = db_runs x" for x using step_settle(7) by auto
  have "singleLive (labelClock l now) (updateRuns P setRun (db\<lparr>db_tasks := ts\<rparr>))" for P ts
    using step_settle(6) by (intro singleLive_updateRuns[OF assms(3)]) (auto simp: liveRun_def)
  then show ?thesis unfolding step_settle(2) by (rule singleLive_same) (rule f)
next
  case (step_cancel tid now')
  show ?thesis
    unfolding step_cancel(2) by (rule singleLive_updateRuns[OF assms(3)]) (simp_all add: liveRun_def activeRunStatus_def)
next
  case (step_recover now' r0 db1 res)
  have "db_runs db1 = db_runs db" using fold_recoverTask_runs[of env uid now' _ "(db, r0)"] step_recover(3) by (metis fst_conv)
  then show ?thesis
    unfolding step_recover(2)
    by (intro singleLive_updateRuns[OF assms(3)]) (simp_all add: liveRun_def activeRunStatus_def failExpiredRun_def)
qed (auto elim!: singleLive_same)

lemma execTask_singleLive:
  assumes "taskInv db" "singleLive now db" "\<And>c'. cmdClock c = Some c' \<Longrightarrow> sqlLe now c'"
  shows "singleLive (case cmdClock c of None \<Rightarrow> now | Some c' \<Rightarrow> c') (execTask env uid c db)"
proof -
  let ?now = "case cmdClock c of None \<Rightarrow> now | Some c' \<Rightarrow> c'"
  have later: "singleLive ?now db" using assms(2,3) singleLive_later by (cases "cmdClock c") auto
  show ?thesis
  proof (cases "execTask env uid c db = db")
    case False
    then obtain l where l: "taskStep env uid l db (execTask env uid c db)" "labelFits c l"
      using execTask_step[OF taskInv_distinct[OF assms(1)]] by blast
    have "labelClock l ?now = ?now" using l(2) by (cases l) auto
    with taskStep_singleLive[OF l(1) assms(1), of ?now] later show ?thesis by simp
  qed (use later in simp)
qed

lemma execTasks_singleLive:
  assumes "taskInv db" "singleLive now db" "sorted_wrt sqlLe (now # cmdClocks cs @ [fin])"
  shows "singleLive fin (execTasks env cs db)"
  using assms
proof (induction cs arbitrary: db now)
  case Nil
  then show ?case by (auto simp: cmdClocks_def map_filter_simps intro: singleLive_later)
next
  case (Cons x cs)
  obtain uid c where x: "x = (uid, c)" by force
  let ?now = "case cmdClock c of None \<Rightarrow> now | Some c' \<Rightarrow> c'"
  have "singleLive ?now (execTask env uid c db)"
    using Cons.prems by (intro execTask_singleLive) (auto simp: cmdClocks_def map_filter_simps x)
  moreover have "sorted_wrt sqlLe (?now # cmdClocks cs @ [fin])"
    using Cons.prems(3) by (cases "cmdClock c") (auto simp: cmdClocks_def map_filter_simps x)
  ultimately show ?case
    using Cons.IH[OF execTask_inv[OF Cons.prems(1)]] by (simp add: x)
qed

text \<open>
  C2. A task never has two live runs. Whatever the tenants' workers do (claim, run by hand, renew,
  settle, cancel, pause, recover), as long as the clocks of the commands that take or renew leases do
  not go backwards, at most one run of a task is claimed or running with a lease that has not ended.
\<close>

theorem task_single_live_run:
  assumes "sorted (cmdClocks cs @ [now])" "list_all fourDigitYear (cmdClocks cs @ [now])"
  shows "length (liveRuns now uid tid (execTasks env cs emptyTasks)) \<le> 1"
proof -
  have "sorted_wrt sqlLe (cmdClocks cs @ [now])"
  proof (rule sorted_wrt_mono_rel[OF _ assms(1)])
    show "sqlLe x y" if "x \<in> set (cmdClocks cs @ [now])" "y \<in> set (cmdClocks cs @ [now])" "x \<le> y" for x y
      using assms(2) that sqlLe_iff[of x y] by (auto simp: list_all_iff)
  qed
  then have s: "sorted_wrt sqlLe (hd (cmdClocks cs @ [now]) # cmdClocks cs @ [now])"
    by (cases "cmdClocks cs @ [now]") auto
  have "singleLive t emptyTasks" for t by (simp add: singleLive_def liveRuns_def emptyTasks_def)
  from execTasks_singleLive[OF taskInv_empty this s, of env] show ?thesis by (simp add: singleLive_def)
qed

theorem task_single_live_run_witness:
  "let cs = [(''u'', ClaimTask \<lparr>cl_claimantId = JString ''w'', cl_leaseDurationMs = 60000, cl_preferredTaskId = JNull,
        cl_now = 1767225600000\<rparr> ''run_1''), (''u'', RecoverTasks 1767225700000)]
   in length (liveRuns 1767225700000 ''u'' ''task_1'' (execTasks minuteEnv cs emptyTasks)) \<le> 1"
proof -
  have "fourDigitYear 1767225600000" "fourDigitYear 1767225700000" by code_simp+
  then show ?thesis
    unfolding Let_def by (intro task_single_live_run) (simp_all add: cmdClocks_def map_filter_simps)
qed

section \<open>Settlement\<close>

text \<open>The command settles the task: it completes or fails it, and the repository accepts that.\<close>

fun settles :: "taskEnv \<Rightarrow> string \<Rightarrow> taskCmd \<Rightarrow> taskDb \<Rightarrow> bool" where
  "settles env uid (CompleteTask idv claimant result runId usage now) db =
     (\<not> isl (fst (complete env uid idv claimant result runId usage now db)))"
| "settles env uid (FailTask idv claimant err retryable runId code now) db =
     (\<not> isl (fst (fail env uid idv claimant err retryable runId code now db)))"
| "settles _ _ _ _ = False"

fun settledTask :: "taskCmd \<Rightarrow> jsval" where
  "settledTask (CompleteTask idv _ _ _ _ _) = idv"
| "settledTask (FailTask idv _ _ _ _ _ _) = idv"
| "settledTask _ = JUndefined"

definition idle :: "string \<Rightarrow> taskDb \<Rightarrow> bool" where
  "idle tid db \<longleftrightarrow> (\<forall>t \<in> set (db_tasks db). t_id t = tid \<longrightarrow> \<not> activeStatus (t_status t))"

lemma settles_step:
  assumes "taskInv db" "settles env uid c db"
  obtains tid where "validateTaskId (settledTask c) = Inr tid" "taskStep env uid (Settle uid tid) db (execTask env uid c db)"
proof (cases c)
  case (CompleteTask idv claimant result runId usage now)
  obtain r db' where e: "complete env uid idv claimant result runId usage now db = (r, db')" by force
  with complete_step[OF e taskInv_distinct[OF assms(1)]] assms(2) CompleteTask that show ?thesis by auto
next
  case (FailTask idv claimant err retryable runId code now)
  obtain r db' where e: "fail env uid idv claimant err retryable runId code now db = (r, db')" by force
  with fail_step[OF e taskInv_distinct[OF assms(1)]] assms(2) FailTask that show ?thesis by auto
qed (use assms(2) in auto)

lemma setTask_idle:
  assumes "setTask = completeTask result clock \<or> setTask = failTask err retryable clock"
  shows "\<not> activeStatus (t_status (setTask recurring nx t)) \<and> t_id (setTask recurring nx t) = t_id t"
  using assms by (auto simp: completeTask_def failTask_def activeStatus_def Let_def split: if_splits)

lemma settle_idle:
  assumes "taskStep env uid (Settle uid tid) db db'" "taskInv db"
  shows "\<not> idle tid db" "idle tid db'"
proof -
  have "\<not> idle tid db \<and> idle tid db'"
    using assms(1)
  proof cases
    case (step_settle t claimant clock setTask result err retryable setRun f nx runId)
    have own: "t \<in> set (db_tasks db)" "t_id t = tid" using getTask_own[OF step_settle(2)] by auto
    have f: "db_tasks (f x) = db_tasks x" for x using step_settle(6) by auto
    have "activeStatus (t_status t)" using step_settle(3) by (simp add: settleable_def heldBy_def)
    moreover have "settleable uid tid claimant clock r" if "r \<in> set (db_tasks db)" "t_id r = tid" for r
      using taskInv_same_task[OF assms(2) that(1) own(1)] that(2) own(2) step_settle(3) by simp
    ultimately show ?thesis
      using own setTask_idle[OF step_settle(4)] step_settle(1) by (auto simp: idle_def f set_tbl_update)
  qed
  then show "\<not> idle tid db" "idle tid db'" by auto
qed

lemma idle_tbl_update:
  assumes "idle tid db" "db_tasks db' = tbl_update P f (db_tasks db)"
    and "\<And>t. P t \<Longrightarrow> t_id (f t) = t_id t \<and> (activeStatus (t_status (f t)) \<longrightarrow> activeStatus (t_status t))"
  shows "idle tid db'"
  using assms by (auto simp: idle_def set_tbl_update)

lemma idle_recoverTask: "idle tid (fst acc) \<Longrightarrow> idle tid (fst (recoverTask env uid now x acc))"
  by (auto simp: recoverTask_def Let_def idle_def set_tbl_update activeStatus_def)

lemma idle_fold_recoverTask: "idle tid (fst acc) \<Longrightarrow> idle tid (fst (fold (recoverTask env uid now) xs acc))"
  by (induction xs arbitrary: acc) (simp_all add: idle_recoverTask)

lemma idle_same: "idle tid db \<Longrightarrow> db_tasks db' = db_tasks db \<Longrightarrow> idle tid db'"
  by (simp add: idle_def)

lemma writeSchedule_tasks: "writeSchedule uid tid k now schedId db = (r, db') \<Longrightarrow> db_tasks db' = db_tasks db"
  by (auto simp: writeSchedule_def insertSchedule_def split: option.splits if_splits)

lemma taskStep_idle:
  assumes "taskStep env uid l db db'" "\<And>u i now named. l \<noteq> TakeLease u i now named" "idle tid db"
  shows "idle tid db'"
  using assms(1)
proof cases
  case (step_create input now newId schedId t s)
  with createRows_ok(4)[OF step_create(3)] assms(3) show ?thesis by (auto simp: idle_def activeStatus_def)
next
  case (step_update tid' t now u k schedId p)
  have "db_tasks db' = tbl_update (ownTask uid tid') (applyUpdate u p k now) (db_tasks db)"
    using writeSchedule_tasks[OF step_update(6)] by simp
  with assms(3) show ?thesis by (rule idle_tbl_update) (simp add: applyUpdate_def)
next
  case (step_settle tid' t claimant clock setTask result err retryable setRun f nx runId)
  have f: "db_tasks (f x) = db_tasks x" for x using step_settle(7) by auto
  show ?thesis
    by (rule idle_tbl_update[OF assms(3), where P = "settleable uid tid' claimant clock"
          and f = "setTask (rowRecurring t (scheduleOf uid tid' db)) nx"])
       (use setTask_idle[OF step_settle(5)] in \<open>auto simp: step_settle(2) f\<close>)
next
  case (step_recover now r0 db1 res)
  from idle_fold_recoverTask[of tid "(db, r0)"] assms(3) step_recover(3) have "idle tid db1" by (metis fst_conv)
  with step_recover(2) show ?thesis by (auto elim: idle_same)
next
  case (step_delete tid' t)
  with assms(3) show ?thesis by (simp add: idle_def)
next
  case (step_pause tid' now)
  show ?thesis
    unfolding step_pause(2) by (rule idle_tbl_update[OF assms(3)], simp only: update_tables) simp
next
  case (step_resume tid' nx now)
  show ?thesis
    unfolding step_resume(2) by (rule idle_tbl_update[OF assms(3)], simp only: update_tables) (simp add: activeStatus_def)
next
  case (step_renew now tid' claimant runId leaseMs)
  show ?thesis
    unfolding step_renew(2)
    by (rule idle_tbl_update[OF assms(3), where P = "renewable uid tid' claimant now" and
          f = "\<lambda>t. t\<lparr>t_lease := Some (now + leaseMs), t_leaseMs := leaseMs, t_updated := now\<rparr>"]) simp_all
next
  case (step_cancel tid' now)
  show ?thesis
    unfolding step_cancel(2)
    by (rule idle_tbl_update[OF assms(3), where P = "\<lambda>t. ownTask uid tid' t \<and> \<not> terminal (t_status t)" and
          f = "\<lambda>t. t\<lparr>t_status := Cancelled, t_error := Some TASK_CANCELLED, t_claimant := None, t_lease := None,
               t_updated := now, t_completed := Some now\<rparr>"]) (simp_all add: activeStatus_def)
qed (use assms(2) in blast)+

lemma execTasks_idle:
  assumes "taskInv db" "idle tid db" "list_all (\<lambda>(u, c). \<not> takesLease c) cs"
  shows "idle tid (execTasks env cs db)"
  using assms
proof (induction cs arbitrary: db)
  case (Cons x cs)
  obtain uid c where x: "x = (uid, c)" by force
  have "idle tid (execTask env uid c db)"
  proof (cases "execTask env uid c db = db")
    case False
    then obtain l where l: "taskStep env uid l db (execTask env uid c db)" "labelFits c l"
      using execTask_step[OF taskInv_distinct[OF Cons.prems(1)]] by blast
    moreover have "l \<noteq> TakeLease u i now named" for u i now named using l(2) Cons.prems(3) x by auto
    ultimately show ?thesis using taskStep_idle Cons.prems(2) by blast
  qed (use Cons.prems in simp)
  then show ?case using Cons execTask_inv x by simp
qed simp

text \<open>
  C3. A claim is settled at most once. After a completion or failure of a task has been accepted, no
  further completion or failure of it is accepted, whoever reports it and whatever else happens,
  until the task is claimed or run by hand again.
\<close>

theorem task_settled_once:
  assumes "taskInv db" "settles env uid c db" "list_all (\<lambda>(u, c). \<not> takesLease c) cs"
    and "settledTask c' = settledTask c"
  shows "\<not> settles env uid' c' (execTasks env cs (execTask env uid c db))"
proof
  let ?db = "execTasks env cs (execTask env uid c db)"
  assume again: "settles env uid' c' ?db"
  obtain tid where tid: "validateTaskId (settledTask c) = Inr tid" "taskStep env uid (Settle uid tid) db (execTask env uid c db)"
    by (rule settles_step[OF assms(1,2)])
  have inv: "taskInv (execTask env uid c db)" using assms(1) by (rule execTask_inv)
  have "idle tid ?db" using execTasks_idle[OF inv settle_idle(2)[OF tid(2) assms(1)] assms(3)] .
  moreover obtain tid' where "validateTaskId (settledTask c') = Inr tid'" "taskStep env uid' (Settle uid' tid') ?db (execTask env uid' c' ?db)"
    by (rule settles_step[OF execTasks_inv[OF inv] again])
  ultimately show False using settle_idle(1)[OF _ execTasks_inv[OF inv]] tid(1) assms(4) by auto
qed

text \<open>Tables with one claimed task, and the failure its worker reports.\<close>

definition exampleId :: string where
  "exampleId = ''task_'' @ replicate 32 (CHR ''a'')"

definition exampleTask :: taskRow where
  "exampleTask = \<lparr>t_id = exampleId, t_user = ''u'', t_key = None, t_title = ''t'', t_description = None, t_assignee = None,
     t_priority = Medium, t_status = Claimed,
     t_payload = AgentPrompt \<lparr>a_prompt = ''hi'', a_sessionId = ''s'', a_sessionPolicy = Existing_session, a_contextMode = None,
       a_spaceId = None, a_spaceFolder = None, a_delivery = None, a_silent = None\<rparr>,
     t_result = None, t_error = None, t_claimant = Some ''w'', t_lease = Some 60000, t_leaseMs = 60000, t_claims = 1,
     t_maxRetries = 3, t_due = None, t_type = Once, t_cron = None, t_interval = None, t_next = None, t_tz = ''UTC'',
     t_created = 0, t_updated = 0, t_completed = None\<rparr>"

definition exampleSchedule :: scheduleRow where
  "exampleSchedule = \<lparr>s_id = ''sched'', s_task = exampleId, s_user = ''u'', s_type = Once, s_cron = None, s_interval = None,
     s_next = None, s_last = None, s_tz = ''UTC'', s_enabled = True, s_paused = None, s_misfire = Coalesce,
     s_overlap = SkipOverlap, s_created = 0, s_updated = 0\<rparr>"

definition exampleDb :: taskDb where
  "exampleDb = \<lparr>db_tasks = [exampleTask], db_schedules = [exampleSchedule], db_runs = []\<rparr>"

lemma exampleId_valid [simp]: "validateTaskId (JString exampleId) = Inr exampleId"
  by (simp add: validateTaskId_def stringWith_def TASK_ID_REGEX_def hex_id_def exampleId_def list_all_iff is_lower_hex_def)

lemma example_claimant [simp]: "validateClaimantId (JString ''w'') = Inr ''w''"
  by (simp add: validateClaimantId_def stringWith_def js_trim_def is_space_def utf8Length_def)

lemma example_lease: "sqlLe 1000 60000" "sqlLess 1000 60000"
proof -
  have "fourDigitYear 1000" "fourDigitYear 60000" by code_simp+
  then show "sqlLe 1000 60000" "sqlLess 1000 60000" by (simp_all add: sqlLe_iff sqlLess_iff)
qed

lemma exampleDb_inv: "taskInv exampleDb"
  by (simp add: taskInv_def exampleDb_def exampleTask_def exampleSchedule_def taskKey_def scheduleKey_def rowOk_def shapeOk_def
      leaseOk_def activeStatus_def)

lemma example_settles: "settles env ''u'' (FailTask (JString exampleId) (JString ''w'') ''boom'' True None None 1000) exampleDb"
  by (simp add: fail_def settle_def withImmediateTransactionSync_def exampleDb_def getTask_def tbl_get_def ownTask_def exampleTask_def
      settleable_def heldBy_def activeStatus_def example_lease scheduleOf_def ownSchedule_def exampleSchedule_def rowRecurring_def
      hasSchedule_def rowCron_def rowInterval_def refetch_def updateRuns_def table_simps failTask_def Let_def)

theorem task_settled_once_witness:
  "let c = FailTask (JString exampleId) (JString ''w'') ''boom'' True None None 1000 in
   settles minuteEnv ''u'' c exampleDb \<and>
   \<not> settles minuteEnv ''u'' c (execTasks minuteEnv [(''u'', RecoverTasks 2000)] (execTask minuteEnv ''u'' c exampleDb))"
  unfolding Let_def
  using example_settles[of minuteEnv]
    task_settled_once[OF exampleDb_inv example_settles, of "[(''u'', RecoverTasks 2000)]"
      "FailTask (JString exampleId) (JString ''w'') ''boom'' True None None 1000" minuteEnv "''u''"]
  by simp

end
