(* ===== verification/Task_Guarantees.thy ===== *)
theory Task_Guarantees
  imports Task_Theorems
begin

text \<open>
  Further guarantees of the task repository: which task a worker gets, what the recovery of expired
  leases leaves, the isolation of tenants and the bound on retries.
\<close>

section \<open>What recovery does to each row\<close>

definition recoveredRow :: "taskEnv \<Rightarrow> instant \<Rightarrow> taskRow \<Rightarrow> scheduleRow option \<Rightarrow> taskRow \<Rightarrow> taskRow" where
  "recoveredRow env now t so r =
     (if joinedRecurring t so then
        r\<lparr>t_status := Pending, t_claimant := None, t_lease := None, t_claims := 0, t_completed := None,
          t_error := Some ''Task lease expired'', t_next := recoveredNext env t so now, t_updated := now\<rparr>
      else if t_claims t \<ge> t_maxRetries t then
        r\<lparr>t_status := Failed, t_lease := None, t_updated := now, t_completed := Some now,
          t_error := Some ''Task lease expired: max retries exhausted''\<rparr>
      else r\<lparr>t_status := Pending, t_claimant := None, t_lease := None, t_updated := now\<rparr>)"

definition recoverRow :: "taskEnv \<Rightarrow> string \<Rightarrow> instant \<Rightarrow> taskRow \<times> scheduleRow option \<Rightarrow> taskRow \<Rightarrow> taskRow" where
  "recoverRow env uid now x r = (if ownTask uid (t_id (fst x)) r then recoveredRow env now (fst x) (snd x) r else r)"

lemma recoveredRow_own: "ownTask uid tid (recoveredRow env now t so r) = ownTask uid tid r"
  by (simp add: recoveredRow_def ownTask_def)

lemma recoverRow_own: "ownTask uid (t_id (fst x)) r \<Longrightarrow> recoverRow env uid now x r = recoveredRow env now (fst x) (snd x) r"
  and recoverRow_other: "\<not> ownTask uid (t_id (fst x)) r \<Longrightarrow> recoverRow env uid now x r = r"
  by (simp_all add: recoverRow_def)

lemma recoverTask_tasks:
  "db_tasks (fst (recoverTask env uid now x acc)) = map (recoverRow env uid now x) (db_tasks (fst acc))"
  by (simp add: recoverTask_def Let_def tbl_update_def recoverRow_def recoveredRow_def)

lemma fold_recover_tasks:
  "db_tasks (fst (fold (recoverTask env uid now) xs acc)) = map (fold (recoverRow env uid now) xs) (db_tasks (fst acc))"
  by (induction xs arbitrary: acc) (simp_all add: recoverTask_tasks comp_def)

lemma fold_recoverRow_other:
  "(\<And>x. x \<in> set xs \<Longrightarrow> \<not> ownTask uid (t_id (fst x)) r) \<Longrightarrow> fold (recoverRow env uid now) xs r = r"
  by (induction xs) (simp_all add: recoverRow_other)

lemma fold_recoverRow_own:
  assumes "distinct (map (t_id \<circ> fst) xs)" "x \<in> set xs" "ownTask uid (t_id (fst x)) r"
  shows "fold (recoverRow env uid now) xs r = recoveredRow env now (fst x) (snd x) r"
  using assms
proof (induction xs)
  case (Cons y ys)
  show ?case
  proof (cases "y = x")
    case True
    have "\<not> ownTask uid (t_id (fst z)) (recoveredRow env now (fst x) (snd x) r)" if "z \<in> set ys" for z
      using Cons.prems(1,3) that True unfolding recoveredRow_own by (auto simp: ownTask_def)
    then have "fold (recoverRow env uid now) ys (recoveredRow env now (fst x) (snd x) r) = recoveredRow env now (fst x) (snd x) r"
      by (rule fold_recoverRow_other)
    with True Cons.prems(3) show ?thesis by (simp add: recoverRow_own)
  next
    case False
    have "x \<in> set ys" using False Cons.prems(2) by simp
    then have "(t_id \<circ> fst) x \<in> set (map (t_id \<circ> fst) ys)" unfolding set_map by (rule imageI)
    moreover have "(t_id \<circ> fst) y \<notin> set (map (t_id \<circ> fst) ys)"
      using Cons.prems(1) unfolding list.map(2) distinct.simps(2) by (rule conjunct1)
    ultimately have "(t_id \<circ> fst) y \<noteq> (t_id \<circ> fst) x" by metis
    then have "t_id (fst y) \<noteq> t_id (fst x)" unfolding comp_apply .
    with Cons.prems(3) have "\<not> ownTask uid (t_id (fst y)) r" by (simp add: ownTask_def)
    with False Cons show ?thesis by (simp add: recoverRow_other)
  qed
qed simp

lemma recover_tasks:
  assumes inv: "taskInv db" and "recoverExpiredLeases env uid now db = (res, db')"
  shows "db_tasks db' = map (\<lambda>t. if t_user t = uid \<and> expired now t then recoveredRow env now t (joined db t) t else t) (db_tasks db)"
proof -
  have ids: "distinct (map (t_id \<circ> fst) (expiredTasks uid now db))"
    using taskInv_distinct[OF inv] by (simp add: expiredTasks_def comp_def distinct_map_filter)
  have "fold (recoverRow env uid now) (expiredTasks uid now db) t =
      (if t_user t = uid \<and> expired now t then recoveredRow env now t (joined db t) t else t)" if t: "t \<in> set (db_tasks db)" for t
  proof (cases "t_user t = uid \<and> expired now t")
    case True
    with t have "(t, joined db t) \<in> set (expiredTasks uid now db)" by (simp add: expiredTasks_def)
    from fold_recoverRow_own[OF ids this, of uid t] True show ?thesis by (simp add: ownTask_def)
  next
    case False
    have "\<not> ownTask uid (t_id (fst x)) t" if "x \<in> set (expiredTasks uid now db)" for x
      using False that taskInv_same_task[OF inv t] by (auto simp: expiredTasks_def ownTask_def)
    then have "fold (recoverRow env uid now) (expiredTasks uid now db) t = t" by (rule fold_recoverRow_other)
    with False show ?thesis by (simp only: if_False)
  qed
  moreover have "db_tasks db' = map (fold (recoverRow env uid now) (expiredTasks uid now db)) (db_tasks db)"
    using assms(2) fold_recover_tasks[of env uid now "expiredTasks uid now db"
        "(db, \<lparr>v_taskIds = [], v_retriedIds = [], v_failedIds = []\<rparr>)"]
    by (auto simp: recoverExpiredLeases_def withImmediateTransactionSync_def Let_def split: prod.splits)
  ultimately show ?thesis by simp
qed

lemma recover_runs:
  assumes "recoverExpiredLeases env uid now db = (res, db')"
  shows "db_runs db' = tbl_update (\<lambda>r. r_user r = uid \<and> expiredRun now r) (failExpiredRun now) (db_runs db)"
  using assms fold_recoverTask_runs[of env uid now "expiredTasks uid now db"
      "(db, \<lparr>v_taskIds = [], v_retriedIds = [], v_failedIds = []\<rparr>)"]
  by (auto simp: recoverExpiredLeases_def withImmediateTransactionSync_def Let_def split: prod.splits)

text \<open>The row of a task before and after the recovery of a tenant's leases.\<close>

definition recoveredAs :: "string \<Rightarrow> instant \<Rightarrow> taskRow \<Rightarrow> taskRow \<Rightarrow> bool" where
  "recoveredAs uid now t t' \<longleftrightarrow> t_id t' = t_id t \<and>
     (if t_user t = uid \<and> expired now t then
        if t_type t = Once \<and> t_maxRetries t \<le> t_claims t then t_status t' = Failed
        else t_status t' = Pending \<and> t_claimant t' = None \<and> t_claims t' = (if t_type t = Once then t_claims t else 0)
      else t' = t)"

lemma recoveredRow_as:
  assumes "taskInv db" "t \<in> set (db_tasks db)" "t_user t = uid" "expired now t"
  shows "recoveredAs uid now t (recoveredRow env now t (joined db t) t)"
  using recurring_type(1)[OF assms(1,2)] assms(3,4)
  by (cases "t_type t = Once"; cases "t_maxRetries t \<le> t_claims t") (simp_all add: recoveredAs_def recoveredRow_def)

lemma not_recovered_as: "\<not> (t_user t = uid \<and> expired now t) \<Longrightarrow> recoveredAs uid now t t"
  by (simp only: recoveredAs_def if_False simp_thms)

text \<open>
  \<open>recoverExpiredLeases\<close> leaves the tenant no task and no run whose lease has expired. Each such
  task goes back to the queue, a recurring one with its attempts forgotten; only a task that does not
  recur and has used up its retries fails. Every other task is left as it was.
\<close>

theorem task_recovery:
  assumes inv: "taskInv db" and rec: "recoverExpiredLeases env uid now db = (res, db')"
  shows "(\<forall>t \<in> set (db_tasks db'). t_user t = uid \<longrightarrow> \<not> expired now t) \<and>
    (\<forall>r \<in> set (db_runs db'). r_user r = uid \<longrightarrow> \<not> expiredRun now r) \<and>
    list_all2 (recoveredAs uid now) (db_tasks db) (db_tasks db')"
proof -
  note tasks = recover_tasks[OF assms]
  have "\<not> expired now (recoveredRow env now t (joined db t) t)" for t
    by (simp add: recoveredRow_def expired_def activeStatus_def)
  then have "t_user (if t_user t = uid \<and> expired now t then recoveredRow env now t (joined db t) t else t) = uid \<longrightarrow>
      \<not> expired now (if t_user t = uid \<and> expired now t then recoveredRow env now t (joined db t) t else t)" for t
    by (cases "t_user t = uid \<and> expired now t") simp_all
  then have "\<forall>t \<in> set (db_tasks db'). t_user t = uid \<longrightarrow> \<not> expired now t"
    unfolding tasks set_map ball_simps by blast
  moreover have "\<forall>r \<in> set (db_runs db'). r_user r = uid \<longrightarrow> \<not> expiredRun now r"
  proof -
    have "\<not> expiredRun now (failExpiredRun now r)" for r by (simp add: failExpiredRun_def expiredRun_def activeRunStatus_def)
    then show ?thesis unfolding recover_runs[OF rec] set_tbl_update by blast
  qed
  moreover have "list_all2 (recoveredAs uid now) (db_tasks db) (db_tasks db')"
    unfolding tasks list_all2_map2 list_all2_same
  proof
    fix t assume t: "t \<in> set (db_tasks db)"
    show "recoveredAs uid now t (if t_user t = uid \<and> expired now t then recoveredRow env now t (joined db t) t else t)"
      using recoveredRow_as[OF inv t] not_recovered_as[of t uid now] by (cases "t_user t = uid \<and> expired now t") simp_all
  qed
  ultimately show ?thesis by blast
qed

theorem task_recovery_witness:
  "let db' = snd (recoverExpiredLeases minuteEnv ''u'' 60000 exampleDb) in
   expired 60000 exampleTask \<and> list_all2 (recoveredAs ''u'' 60000) (db_tasks exampleDb) (db_tasks db')"
  unfolding Let_def
  using task_recovery[OF exampleDb_inv prod.collapse[symmetric], of minuteEnv "''u''" 60000]
  by (simp add: expired_def exampleTask_def activeStatus_def)

section \<open>Tenants\<close>

text \<open>The rows of the other tenants.\<close>

definition othersRows :: "string \<Rightarrow> taskDb \<Rightarrow> taskRow list \<times> scheduleRow list \<times> runRow list" where
  "othersRows uid db = (filter (\<lambda>t. t_user t \<noteq> uid) (db_tasks db), filter (\<lambda>s. s_user s \<noteq> uid) (db_schedules db),
     filter (\<lambda>r. r_user r \<noteq> uid) (db_runs db))"

lemma others_updateTask: "(\<And>t. t_user (f t) = t_user t) \<Longrightarrow> othersRows uid (updateTask uid tid f db) = othersRows uid db"
  by (simp add: othersRows_def) (rule filter_tbl_update_other, simp add: ownTask_def)

lemma others_updateSchedule: "(\<And>s. s_user (g s) = s_user s) \<Longrightarrow> othersRows uid (updateSchedule uid tid g db) = othersRows uid db"
  by (simp add: othersRows_def) (rule filter_tbl_update_other, simp add: ownSchedule_def)

lemma others_updateRuns:
  "(\<And>r. P r \<Longrightarrow> r_user r = uid) \<Longrightarrow> (\<And>r. r_user (h r) = r_user r) \<Longrightarrow> othersRows uid (updateRuns P h db) = othersRows uid db"
  by (simp add: othersRows_def filter_tbl_update_other)

lemma others_tasks:
  "(\<And>t. P t \<Longrightarrow> t_user t = uid) \<Longrightarrow> (\<And>t. t_user (f t) = t_user t) \<Longrightarrow>
   othersRows uid (db\<lparr>db_tasks := tbl_update P f (db_tasks db)\<rparr>) = othersRows uid db"
  by (simp add: othersRows_def filter_tbl_update_other)

lemma others_newRun:
  "othersRows uid (db\<lparr>db_runs := db_runs db @ [newRun uid tid runId so claimant lease scheduledFor now db0]\<rparr>) = othersRows uid db"
  by (simp add: othersRows_def newRun_def)

lemma others_recoverTask: "othersRows uid (fst (recoverTask env uid now x acc)) = othersRows uid (fst acc)"
  by (simp add: recoverTask_def Let_def others_updateTask others_updateSchedule)

lemma others_fold_recoverTask: "othersRows uid (fst (fold (recoverTask env uid now) xs acc)) = othersRows uid (fst acc)"
  by (induction xs arbitrary: acc) (simp_all add: others_recoverTask)

lemma others_delete:
  assumes inv: "taskInv db" and t: "getTask uid tid db = Some t"
  shows "othersRows uid \<lparr>db_tasks = filter (\<lambda>t. \<not> ownTask uid tid t) (db_tasks db),
        db_schedules = filter (\<lambda>s. s_task s \<noteq> tid) (db_schedules db), db_runs = filter (\<lambda>r. r_task r \<noteq> tid) (db_runs db)\<rparr>
    = othersRows uid db"
proof -
  have own: "t \<in> set (db_tasks db)" "t_id t = tid" "t_user t = uid" using getTask_own[OF t] by auto
  have same: "t_user t' = uid" if "t' \<in> set (db_tasks db)" "t_id t' = tid" for t'
    using taskInv_same_task[OF inv that(1) own(1)] that(2) own by simp
  have "s_user s = uid" if "s \<in> set (db_schedules db)" "s_task s = tid" for s
  proof -
    have "scheduleKey s \<in> taskKey ` set (db_tasks db)" using inv that(1) by (auto simp: taskInv_def)
    then obtain t' where "t' \<in> set (db_tasks db)" "taskKey t' = scheduleKey s" by auto
    with same[of t'] that(2) show ?thesis by (simp add: taskKey_def scheduleKey_def)
  qed
  moreover have "r_user r = uid" if "r \<in> set (db_runs db)" "r_task r = tid" for r
    using taskInv_runs[OF inv] that same by (force simp: list_all_iff runOk_def)
  ultimately show ?thesis
    by (auto simp: othersRows_def ownTask_def intro!: filter_cong)
qed

lemma others_setTask:
  assumes "setTask = completeTask result clock \<or> setTask = failTask err retryable clock"
  shows "t_user (setTask recurring nx t) = t_user t"
  using assms by (auto simp: completeTask_def failTask_def Let_def)

lemma others_writeSchedule:
  "writeSchedule uid tid k now schedId db = (Inr x, db') \<Longrightarrow> othersRows uid db' = othersRows uid db"
  by (auto simp: writeSchedule_def insertSchedule_Inr others_updateSchedule split: option.splits) (simp add: othersRows_def)

lemma taskStep_others:
  assumes "taskStep env uid l db db'" "taskInv db"
  shows "othersRows uid db' = othersRows uid db"
  using assms(1)
proof cases
  case (step_create input now newId schedId t s)
  have "t_user t = uid" "s_user s = uid"
    using createRows_ok(1,3)[OF step_create(3)] by (simp_all add: taskKey_def scheduleKey_def)
  then show ?thesis unfolding step_create(2) by (simp add: othersRows_def)
next
  case (step_update tid t now u k schedId p)
  then show ?thesis using others_writeSchedule[OF step_update(6)] by (simp add: others_updateTask applyUpdate_def)
next
  case (step_delete tid t)
  then show ?thesis using others_delete[OF assms(2)] by simp
next
  case (step_settle tid t claimant clock setTask result err retryable setRun f nx runId)
  have f: "othersRows uid (f x) = othersRows uid x" for x using step_settle(7) by (auto simp: others_updateSchedule)
  have "othersRows uid (db\<lparr>db_tasks := tbl_update (settleable uid tid claimant clock) (setTask rc nx) (db_tasks db)\<rparr>) = othersRows uid db" for rc
    by (rule others_tasks) (use settleable_own others_setTask[OF step_settle(5)] in \<open>auto simp: ownTask_def\<close>)
  moreover have "othersRows uid (updateRuns (\<lambda>r. ownRun uid tid r \<and> r_claimant r = Some claimant \<and>
      activeRunStatus (r_status r) \<and> runIdMatches runId r) setRun x) = othersRows uid x" for x
    by (rule others_updateRuns) (use step_settle(6) in \<open>auto simp: ownRun_def\<close>)
  ultimately show ?thesis unfolding step_settle(2) f by simp
next
  case (step_recover now r0 db1 res)
  have "othersRows uid db1 = othersRows uid db"
    using others_fold_recoverTask[of uid env now _ "(db, r0)"] step_recover(3) by (metis fst_conv)
  moreover have "r_user (failExpiredRun now r) = r_user r" for r by (simp add: failExpiredRun_def)
  ultimately show ?thesis
    unfolding step_recover(2)
    using others_updateRuns[of "\<lambda>r. r_user r = uid \<and> expiredRun now r" uid "failExpiredRun now" db1] by simp
next
  case (step_renew now tid claimant runId leaseMs)
  have "othersRows uid (db\<lparr>db_tasks := tbl_update (renewable uid tid claimant now) h (db_tasks db)\<rparr>) = othersRows uid db"
    if "\<And>t. t_user (h t) = t_user t" for h
    using that by (intro others_tasks) (auto simp: renewable_def heldBy_def ownTask_def)
  then show ?thesis
    unfolding step_renew(2) by (intro trans[OF others_updateRuns]) (simp_all add: ownRun_def)
next
  case (step_cancel tid now)
  have "othersRows uid (db\<lparr>db_tasks := tbl_update (\<lambda>t. ownTask uid tid t \<and> \<not> terminal (t_status t)) h (db_tasks db)\<rparr>) = othersRows uid db"
    if "\<And>t. t_user (h t) = t_user t" for h
    using that by (intro others_tasks) (auto simp: ownTask_def)
  then show ?thesis
    unfolding step_cancel(2) by (intro trans[OF others_updateRuns]) (simp_all add: ownRun_def others_updateSchedule)
qed (simp_all add: others_updateTask others_updateSchedule others_newRun)

text \<open>
  C26. A tenant's operations do not touch the rows of any other tenant: whatever command a tenant's
  repository runs, the tasks, schedules and runs of the others stay exactly as they were.
\<close>

theorem task_tenant_isolation:
  assumes "taskInv db"
  shows "othersRows uid (execTask env uid c db) = othersRows uid db"
  using execTask_step[OF taskInv_distinct[OF assms]] taskStep_others[OF _ assms] by metis

theorem task_tenant_isolation_witness:
  "let db' = execTask minuteEnv ''v'' (CancelTask (JString exampleId) 1000) exampleDb in
   othersRows ''v'' db' = ([exampleTask], [exampleSchedule], [])"
proof -
  have "othersRows ''v'' exampleDb = ([exampleTask], [exampleSchedule], [])"
    by (simp add: othersRows_def exampleDb_def exampleTask_def exampleSchedule_def)
  then show ?thesis unfolding Let_def unfolding task_tenant_isolation[OF exampleDb_inv] .
qed

section \<open>Retries\<close>

definition retryOk :: "taskRow \<Rightarrow> bool" where
  "retryOk t \<longleftrightarrow> (1 \<le> t_maxRetries t \<longrightarrow> t_claims t \<le> t_maxRetries t \<and> (t_status t = Pending \<longrightarrow> t_claims t < t_maxRetries t))"

lemma retryOk_setTask:
  assumes "setTask = completeTask result clock \<or> setTask = failTask err retryable clock"
  shows "retryOk t \<Longrightarrow> activeStatus (t_status t) \<Longrightarrow> retryOk (setTask recurring nx t)"
  using assms by (auto simp: completeTask_def failTask_def retryOk_def Let_def split: if_splits)

lemma retryOk_recoveredRow: "retryOk t \<Longrightarrow> retryOk (recoveredRow env now t so t)"
  by (simp add: recoveredRow_def retryOk_def)

lemma retryOk_keep:
  "retryOk t \<Longrightarrow> t_maxRetries (f t) = t_maxRetries t \<Longrightarrow> t_claims (f t) = t_claims t \<Longrightarrow>
   t_status (f t) = t_status t \<or> t_status (f t) = Cancelled \<Longrightarrow> retryOk (f t)"
  by (auto simp: retryOk_def)

lemma table_select: "db_tasks (db\<lparr>db_tasks := ts\<rparr>) = ts" "db_tasks (db\<lparr>db_runs := rs\<rparr>) = db_tasks db"
  by simp_all

lemma recover_step_tasks:
  assumes "taskInv db" "fold (recoverTask env uid now) (expiredTasks uid now db) (db, r0) = (db', res)"
  shows "\<forall>t' \<in> set (db_tasks db'). \<exists>t \<in> set (db_tasks db). t' = t \<or> (\<exists>so. t' = recoveredRow env now t so t)"
proof -
  obtain res' db1 where r: "recoverExpiredLeases env uid now db = (res', db1)" by force
  have "map (fold (recoverRow env uid now) (expiredTasks uid now db)) (db_tasks db) = db_tasks db'"
    using fold_recover_tasks[of env uid now "expiredTasks uid now db" "(db, r0)"] assms(2) by simp
  moreover have "db_tasks db1 = map (fold (recoverRow env uid now) (expiredTasks uid now db)) (db_tasks db)"
    using r fold_recover_tasks[of env uid now "expiredTasks uid now db" "(db, \<lparr>v_taskIds = [], v_retriedIds = [], v_failedIds = []\<rparr>)"]
    by (auto simp: recoverExpiredLeases_def withImmediateTransactionSync_def Let_def split: prod.splits)
  ultimately have "db_tasks db' = db_tasks db1" by simp
  then show ?thesis unfolding recover_tasks[OF assms(1) r] by auto
qed

lemma taskStep_retryOk:
  assumes "taskStep env uid l db db'" "taskInv db" "\<And>u i now. l \<noteq> TakeLease u i now True" "\<forall>t \<in> set (db_tasks db). retryOk t"
  shows "\<forall>t \<in> set (db_tasks db'). retryOk t"
  using assms(1)
proof cases
  case (step_create input now newId schedId t s)
  with createRows_ok(5)[OF step_create(3)] assms(4) show ?thesis by (auto simp: retryOk_def)
next
  case (step_update tid t now u k schedId p)
  have tasks: "db_tasks db' = tbl_update (ownTask uid tid) (applyUpdate u p k now) (db_tasks db)"
    using writeSchedule_tasks[OF step_update(6)] by simp
  have "retryOk (applyUpdate u p k now t)" if "retryOk t" for t
    using that by (rule retryOk_keep) (simp_all add: applyUpdate_def)
  with assms(4) show ?thesis unfolding tasks set_tbl_update by blast
next
  case (step_settle tid t claimant clock setTask result err retryable setRun f nx runId)
  have f: "db_tasks (f x) = db_tasks x" for x using step_settle(7) by auto
  have "retryOk (setTask rc nx r)" if "retryOk r" "settleable uid tid claimant clock r" for r rc
    using retryOk_setTask[OF step_settle(5) that(1)] that(2) by (simp add: settleable_def heldBy_def)
  with assms(4) show ?thesis unfolding step_settle(2) f update_tables table_select set_tbl_update by blast
next
  case (step_claim tid t named now runId nx leaseMs claimant so scheduledFor)
  have el: "eligible uid now db t" using step_claim(1,4) assms(3) by auto
  have own: "t \<in> set (db_tasks db)" "t_id t = tid" "t_user t = uid" using getTask_own[OF step_claim(3)] by auto
  have same: "r = t" if "r \<in> set (db_tasks db)" "ownTask uid tid r" for r
    using taskInv_same_task[OF assms(2) that(1) own(1)] that(2) own by (simp add: ownTask_def)
  have "t_claims t < t_maxRetries t \<or> t_status t = Pending"
    using el unfolding eligible_def Let_def by auto
  then have "retryOk (t\<lparr>t_status := Claimed, t_claimant := Some claimant, t_lease := Some (now + leaseMs), t_leaseMs := leaseMs,
      t_claims := t_claims t + 1, t_completed := None, t_next := nx, t_updated := now\<rparr>)"
    using assms(4) own(1) by (auto simp: retryOk_def)
  with same assms(4) show ?thesis
    unfolding step_claim(2) update_tables table_select set_tbl_update by blast
next
  case (step_recover now r0 db1 res)
  from recover_step_tasks[OF assms(2) step_recover(3)] assms(4) have "\<forall>t \<in> set (db_tasks db1). retryOk t"
    by (metis retryOk_recoveredRow)
  with step_recover(2) show ?thesis by simp
next
  case (step_manual tid t so now runId claimant leaseMs)
  with assms(3) show ?thesis by blast
next
  case (step_delete tid t)
  with assms(4) show ?thesis by simp
next
  case (step_pause tid now)
  have "retryOk (t\<lparr>t_updated := now\<rparr>)" if "retryOk t" for t using that by (simp add: retryOk_def)
  with assms(4) show ?thesis unfolding step_pause(2) update_tables set_tbl_update by blast
next
  case (step_resume tid now nx)
  have "retryOk (t\<lparr>t_status := Pending, t_claimant := None, t_lease := None, t_claims := 0,
          t_completed := None, t_next := nx, t_updated := now\<rparr>)" for t by (simp add: retryOk_def)
  with assms(4) show ?thesis unfolding step_resume(2) update_tables set_tbl_update by blast
next
  case (step_renew now tid claimant runId leaseMs)
  have "retryOk (t\<lparr>t_lease := Some (now + leaseMs), t_leaseMs := leaseMs, t_updated := now\<rparr>)" if "retryOk t" for t
    using that by (simp add: retryOk_def)
  with assms(4) show ?thesis unfolding step_renew(2) update_tables table_select set_tbl_update by blast
next
  case (step_cancel tid now)
  have "retryOk (t\<lparr>t_status := Cancelled, t_error := Some TASK_CANCELLED, t_claimant := None, t_lease := None,
               t_updated := now, t_completed := Some now\<rparr>)" if "retryOk t" for t
    using that by (simp add: retryOk_def)
  with assms(4) show ?thesis unfolding step_cancel(2) update_tables table_select set_tbl_update by blast
qed

lemma execTasks_retryOk:
  assumes "taskInv db" "\<forall>t \<in> set (db_tasks db). retryOk t" "list_all (\<lambda>(u, c). \<not> namesTask c) cs"
  shows "\<forall>t \<in> set (db_tasks (execTasks env cs db)). retryOk t"
  using assms
proof (induction cs arbitrary: db)
  case (Cons x cs)
  obtain uid c where x: "x = (uid, c)" by force
  have "\<forall>t \<in> set (db_tasks (execTask env uid c db)). retryOk t"
  proof (cases "execTask env uid c db = db")
    case False
    then obtain l where l: "taskStep env uid l db (execTask env uid c db)" "labelFits c l"
      using execTask_step[OF taskInv_distinct[OF Cons.prems(1)]] by blast
    moreover have "l \<noteq> TakeLease u i now True" for u i now using l(2) Cons.prems(3) x by auto
    ultimately show ?thesis using taskStep_retryOk Cons.prems(1,2) by blast
  qed (use Cons.prems in simp)
  then show ?case using Cons.IH[OF execTask_inv[OF Cons.prems(1)]] Cons.prems(3) x by simp
qed simp



section \<open>The tables\<close>


section \<open>The queue\<close>

text \<open>The row of a task as a claim leaves it.\<close>

definition claimedBy :: "string \<Rightarrow> instant \<Rightarrow> int \<Rightarrow> taskRow \<Rightarrow> taskRow \<Rightarrow> bool" where
  "claimedBy claimant now leaseMs t t' \<longleftrightarrow> t_id t' = t_id t \<and> t_user t' = t_user t \<and> t_payload t' = t_payload t \<and>
     t_status t' = Claimed \<and> t_claimant t' = Some claimant \<and> t_lease t' = Some (now + leaseMs) \<and> t_claims t' = t_claims t + 1"

lemma takeLease_claimed:
  assumes t: "getTask uid tid db = Some t" and fresh: "\<forall>r \<in> set (db_runs db). r_id r \<noteq> runId"
  obtains v db' where "takeLease env uid tid claimant leaseMs now runId db = (Inr v, db')" "claimedBy claimant now leaseMs t (v_task v)"
    "\<exists>r. db_runs db' = db_runs db @ [r] \<and> r_id r = runId \<and> r_task r = tid \<and> r_claimant r = Some claimant \<and> r_status r = RunClaimed"
proof -
  define so where "so = scheduleOf uid tid db"
  define scheduledFor where "scheduledFor = given_or (orElse (nextRunOf t so) (t_due t)) now"
  define nx where "nx = orElse (subsequentRun env t so scheduledFor now) (nextRunOf t so)"
  define f :: "taskRow \<Rightarrow> taskRow" where "f = (\<lambda>t. t\<lparr>t_status := Claimed, t_claimant := Some claimant, t_lease := Some (now + leaseMs),
                      t_leaseMs := leaseMs, t_claims := t_claims t + 1, t_completed := None, t_next := nx, t_updated := now\<rparr>)"
  define r where "r = newRun uid tid runId so claimant (now + leaseMs) scheduledFor now db"
  define db' where "db' = updateSchedule uid tid (\<lambda>s. s\<lparr>s_next := nx, s_last := Some now, s_updated := now\<rparr>)
    (updateTask uid tid f (db\<lparr>db_runs := db_runs db @ [r]\<rparr>))"
  have own: "ownTask uid tid (f x) = ownTask uid tid x" for x by (simp add: f_def ownTask_def)
  have "getTask uid tid db' = map_option (\<lambda>t. if ownTask uid tid t then f t else t) (getTask uid tid db)"
    using own by (simp add: getTask_def db'_def tbl_get_update_same)
  then have "getTask uid tid db' = Some (f t)"
    using t getTask_own[OF t] by (simp add: ownTask_def)
  then have "refetch uid tid db' = (Inr (attachScheduleAndRun uid (f t) db'), db')" by (simp add: refetch_def)
  moreover have "insertRun r db = (Inr (), db\<lparr>db_runs := db_runs db @ [r]\<rparr>)"
    unfolding insertRun_Inr using fresh by (simp add: r_def newRun_def)
  ultimately have "takeLease env uid tid claimant leaseMs now runId db = (Inr (attachScheduleAndRun uid (f t) db'), db')"
    unfolding takeLease_def t option.case Let_def so_def[symmetric] scheduledFor_def[symmetric] nx_def[symmetric]
      f_def[symmetric] r_def[symmetric]
    by (simp add: seq_def db'_def[symmetric])
  moreover have "claimedBy claimant now leaseMs t (f t)" by (simp add: claimedBy_def f_def)
  moreover have "db_runs db' = db_runs db @ [r]" by (simp add: db'_def)
  ultimately show thesis using that[of "attachScheduleAndRun uid (f t) db'" db'] by (auto simp: attachScheduleAndRun_def r_def newRun_def)
qed

text \<open>
  A claim that names no task serves the queue. When some task is eligible it takes one that comes
  first by priority, due time and age, and returns it claimed for the worker with a new run; when no
  task is eligible it returns nothing and changes nothing.
\<close>

theorem task_claim_serves_queue:
  assumes inv: "taskInv db" and claimant: "validateClaimantId (cl_claimantId input) = Inr claimant"
    and unnamed: "cl_preferredTaskId input = JNull" and fresh: "\<forall>r \<in> set (db_runs db). r_id r \<noteq> runId"
    and res: "claim env uid input runId db = (res, db')"
  shows "if \<exists>t \<in> set (db_tasks db). eligible uid (cl_now input) db t
    then \<exists>t \<in> set (db_tasks db). \<exists>v. eligible uid (cl_now input) db t \<and>
      (\<forall>t' \<in> set (db_tasks db). eligible uid (cl_now input) db t' \<longrightarrow> queueKey db t \<le> queueKey db t') \<and>
      res = Inr (Some v) \<and> claimedBy claimant (cl_now input) (cl_leaseDurationMs input) t (v_task v) \<and>
      (\<exists>r. db_runs db' = db_runs db @ [r] \<and> r_id r = runId \<and> r_task r = t_id t \<and> r_claimant r = Some claimant \<and> r_status r = RunClaimed)
    else res = Inr None \<and> db' = db"
proof -
  let ?now = "cl_now input"
  have given: "given validateTaskId (cl_preferredTaskId input) = Inr None" by (simp add: given_def unnamed)
  show ?thesis
  proof (cases "claimNext uid ?now db")
    case None
    then have "\<not> (\<exists>t \<in> set (db_tasks db). eligible uid ?now db t)"
      by (auto simp: claimNext_def filter_empty_conv)
    moreover have "res = Inr None \<and> db' = db"
      using res None by (simp add: claim_def claimant given withImmediateTransactionSync_def)
    ultimately show ?thesis by simp
  next
    case (Some tid)
    then obtain t where t: "getTask uid tid db = Some t" "eligible uid ?now db t"
      and least: "\<And>t'. t' \<in> set (db_tasks db) \<Longrightarrow> eligible uid ?now db t' \<Longrightarrow> queueKey db t \<le> queueKey db t'"
      by (rule claimNext_Some[OF _ taskInv_distinct[OF inv]]) blast
    obtain v db1 where v: "takeLease env uid tid claimant (cl_leaseDurationMs input) ?now runId db = (Inr v, db1)"
        "claimedBy claimant ?now (cl_leaseDurationMs input) t (v_task v)"
        "\<exists>r. db_runs db1 = db_runs db @ [r] \<and> r_id r = runId \<and> r_task r = tid \<and> r_claimant r = Some claimant \<and> r_status r = RunClaimed"
      by (rule takeLease_claimed[OF t(1) fresh])
    have "res = Inr (Some v) \<and> db' = db1"
      using res Some v(1) by (simp add: claim_def claimant given withImmediateTransactionSync_def seq_def)
    with t(2) least v(2,3) getTask_own[OF t(1)] show ?thesis by (auto intro!: bexI[of _ t])
  qed
qed

lemma example_eligible: "eligible ''u'' 70000 exampleDb exampleTask"
proof -
  have "fourDigitYear 60000" "fourDigitYear 70000" by code_simp+
  then have "sqlLe 60000 70000" by (simp add: sqlLe_iff)
  then show ?thesis
    by (simp add: eligible_def exampleDb_def exampleTask_def exampleSchedule_def joined_def tbl_get_def scheduleOn_def activeStatus_def
        isDue_def nextRunOf_def orElse_def)
qed

theorem task_claim_serves_queue_witness:
  "\<exists>v. fst (claim minuteEnv ''u'' \<lparr>cl_claimantId = JString ''w'', cl_leaseDurationMs = 60000, cl_preferredTaskId = JNull,
       cl_now = 70000\<rparr> ''run_1'' exampleDb) = Inr (Some v) \<and> claimedBy ''w'' 70000 60000 exampleTask (v_task v)"
proof -
  let ?input = "\<lparr>cl_claimantId = JString ''w'', cl_leaseDurationMs = 60000, cl_preferredTaskId = JNull, cl_now = 70000\<rparr>"
  have db: "db_tasks exampleDb = [exampleTask]" "db_runs exampleDb = []" by (simp_all add: exampleDb_def)
  obtain res db' where e: "claim minuteEnv ''u'' ?input ''run_1'' exampleDb = (res, db')" by force
  have ex: "\<exists>t \<in> set (db_tasks exampleDb). eligible ''u'' (cl_now ?input) exampleDb t" using example_eligible db by simp
  have "\<exists>t \<in> set (db_tasks exampleDb). \<exists>v. res = Inr (Some v) \<and> claimedBy ''w'' (cl_now ?input) (cl_leaseDurationMs ?input) t (v_task v)"
    using task_claim_serves_queue[OF exampleDb_inv _ _ _ e, of "''w''"] ex db(2) by (simp only: if_True) auto
  with e db(1) show ?thesis by simp
qed

section \<open>Where the code falls short\<close>

text \<open>
  A due date beyond the year 9999 passes validation, but its text sorts before every date of
  today: the queue takes the task for due at once, long before its time.
\<close>

theorem task_due_beyond_9999:
  assumes "nextRunOf t so = Some d" "9999 < getUTCFullYear d" "fourDigitYear now"
  shows "isDue now t so \<and> now < d"
proof -
  have "isoFields now < isoFields d" using assms(2,3) by (simp add: isoFields_def fourDigitYear_def)
  then have "now < d" by (rule isoFields_less)
  moreover have "sqlLe d now" using iso_extended_less[OF assms(2,3)] by (simp add: sqlLe_def)
  ultimately show ?thesis using assms(1) by (simp add: isDue_def)
qed

theorem task_due_beyond_9999_witness:
  "isDue 1767225600000 (exampleTask\<lparr>t_next := Some 253402300800000\<rparr>) None \<and> (1767225600000 :: int) < 253402300800000"
proof (rule task_due_beyond_9999)
  show "nextRunOf (exampleTask\<lparr>t_next := Some 253402300800000\<rparr>) None = Some 253402300800000"
    by (simp add: nextRunOf_def orElse_def)
  show "9999 < getUTCFullYear 253402300800000" by code_simp
  show "fourDigitYear 1767225600000" by code_simp
qed

text \<open>
  A script task cannot be edited: \<open>update\<close> takes only agent prompts for valid rows and answers
  every edit of a task that \<open>create\<close> accepted with a script payload with an internal error.
\<close>

theorem task_update_script_refused:
  assumes "validateTaskId idv = Inr tid" "validateUpdateTaskInput env input = Inr u" "getTask uid tid db = Some t"
    and "updateAllowed uid tid t now db = Inr ()" "t_payload t = Script p"
  shows "update env uid idv input now schedId db =
    (Inl (OtherError ''Corrupted task row: missing or invalid agent_prompt payload''), db)"
  using assms by (simp add: update_def withImmediateTransactionSync_def)

theorem task_update_script_refused_witness:
  "let script = \<lparr>c_command = ''ls'', c_spaceId = ''s'', c_spaceFolder = None, c_timeoutMs = None, c_delivery = None, c_silent = None\<rparr>;
       db = exampleDb\<lparr>db_tasks := [exampleTask\<lparr>t_status := Pending, t_payload := Script script\<rparr>]\<rparr>
   in update minuteEnv ''u'' (JString exampleId)
        (JObject [(''title'', JString ''t''), (''payload'', JObject [(''prompt'', JString ''hi'')])]) 1000 ''sched_2'' db =
      (Inl (OtherError ''Corrupted task row: missing or invalid agent_prompt payload''), db)"
  unfolding Let_def
  by (rule task_update_script_refused[OF exampleId_valid update_example, where t = "exampleTask\<lparr>t_status := Pending,
        t_payload := Script \<lparr>c_command = ''ls'', c_spaceId = ''s'', c_spaceFolder = None, c_timeoutMs = None,
          c_delivery = None, c_silent = None\<rparr>\<rparr>"])
     (simp_all add: getTask_def tbl_get_def exampleDb_def ownTask_def exampleTask_def updateAllowed_def activeStatus_def
       scheduleOf_def ownSchedule_def exampleSchedule_def terminal_def)

end
