(* ===== verification/Bytes.thy ===== *)
theory Bytes
  imports Prelude "HOL-Library.Word"
begin

text \<open>
  Buffers and the encodings of Node's \<open>Buffer\<close> that the sources use: ASCII, UTF-8 and base64url.
  A buffer is a list of bytes; text is a list of characters below 256.
\<close>

type_synonym byte = "8 word"

section \<open>ASCII and UTF-8\<close>

text \<open>\<open>buffer.write(s, 'ascii')\<close> and \<open>buffer.toString('ascii')\<close>, which clears the highest bit.\<close>

definition asciiBytes :: "string \<Rightarrow> byte list" where
  "asciiBytes s = map (\<lambda>c. word_of_nat (of_char c)) s"

definition asciiText :: "byte list \<Rightarrow> string" where
  "asciiText bs = map (\<lambda>b. char_of (unat b mod 128)) bs"

definition utf8Char :: "char \<Rightarrow> byte list" where
  "utf8Char c =
     (let n = of_char c :: nat in
      if n < 128 then [word_of_nat n] else [word_of_nat (192 + n div 64), word_of_nat (128 + n mod 64)])"

definition utf8Bytes :: "string \<Rightarrow> byte list" where
  "utf8Bytes s = concat (map utf8Char s)"

fun utf8Text :: "byte list \<Rightarrow> string option" where
  "utf8Text [] = Some []"
| "utf8Text (b # bs) =
     (if unat b < 128 then map_option (Cons (char_of (unat b))) (utf8Text bs)
      else case bs of
          [] \<Rightarrow> None
        | b' # bs' \<Rightarrow>
            if (unat b = 194 \<or> unat b = 195) \<and> 128 \<le> unat b' \<and> unat b' < 192
            then map_option (Cons (char_of ((unat b - 192) * 64 + (unat b' - 128)))) (utf8Text bs') else None)"

section \<open>Base64url\<close>

text \<open>\<open>toString('base64url')\<close>, without padding, and \<open>Buffer.from(s, 'base64url')\<close> for text of the
  alphabet; a single character left over is ignored.\<close>

definition base64Alphabet :: string where
  "base64Alphabet = ''ABCDEFGHIJKLMNOPQRSTUVWXYZabcdefghijklmnopqrstuvwxyz0123456789-_''"

definition base64Char :: "nat \<Rightarrow> char" where
  "base64Char n = base64Alphabet ! n"

definition base64Index :: "char \<Rightarrow> nat" where
  "base64Index c = length (takeWhile (\<lambda>x. x \<noteq> c) base64Alphabet)"

fun base64Encode :: "byte list \<Rightarrow> string" where
  "base64Encode [] = []"
| "base64Encode [a] = [base64Char (unat a div 4), base64Char (unat a mod 4 * 16)]"
| "base64Encode [a, b] =
     [base64Char (unat a div 4), base64Char (unat a mod 4 * 16 + unat b div 16), base64Char (unat b mod 16 * 4)]"
| "base64Encode (a # b # c # bs) =
     base64Char (unat a div 4) # base64Char (unat a mod 4 * 16 + unat b div 16) #
     base64Char (unat b mod 16 * 4 + unat c div 64) # base64Char (unat c mod 64) # base64Encode bs"

fun base64Decode :: "string \<Rightarrow> byte list" where
  "base64Decode (w # x # y # z # s) =
     word_of_nat (base64Index w * 4 + base64Index x div 16) #
     word_of_nat (base64Index x mod 16 * 16 + base64Index y div 4) #
     word_of_nat (base64Index y mod 4 * 64 + base64Index z) # base64Decode s"
| "base64Decode [w, x, y] =
     [word_of_nat (base64Index w * 4 + base64Index x div 16), word_of_nat (base64Index x mod 16 * 16 + base64Index y div 4)]"
| "base64Decode [w, x] = [word_of_nat (base64Index w * 4 + base64Index x div 16)]"
| "base64Decode _ = []"

section \<open>Hexadecimal\<close>

text \<open>\<open>toString('hex')\<close>, in lower case, and \<open>Buffer.from(s, 'hex')\<close> for lower-case digits; a
  single digit left over is ignored.\<close>

definition hexChar :: "nat \<Rightarrow> char" where
  "hexChar n = char_of (if n < 10 then 48 + n else 87 + n)"

definition hexDigit :: "char \<Rightarrow> nat" where
  "hexDigit c = (if is_digit c then of_char c - 48 else of_char c - 87)"

definition hexEncode :: "byte list \<Rightarrow> string" where
  "hexEncode bs = concat (map (\<lambda>b. [hexChar (unat b div 16), hexChar (unat b mod 16)]) bs)"

fun hexDecode :: "string \<Rightarrow> byte list" where
  "hexDecode (x # y # s) = word_of_nat (hexDigit x * 16 + hexDigit y) # hexDecode s"
| "hexDecode _ = []"

section \<open>Facts\<close>

lemma of_char_less: "(of_char c :: nat) < 256"
  using of_char_mod_256[of c] by (metis mod_less_divisor zero_less_numeral)

lemma unat_byte: "n < 256 \<Longrightarrow> unat (word_of_nat n :: byte) = n"
  by (simp add: unat_of_nat)

lemma ascii_roundtrip: "list_all (\<lambda>c. of_char c < (128 :: nat)) s \<Longrightarrow> asciiText (asciiBytes s) = s"
  by (induction s) (simp_all add: asciiText_def asciiBytes_def unat_byte)

lemma ascii_append: "asciiText (a @ b) = asciiText a @ asciiText b" "asciiBytes (s @ t) = asciiBytes s @ asciiBytes t"
  by (simp_all add: asciiText_def asciiBytes_def)

lemma length_asciiBytes [simp]: "length (asciiBytes s) = length s"
  by (simp add: asciiBytes_def)

lemma utf8Text_char: "utf8Text (utf8Char c @ bs) = map_option (Cons c) (utf8Text bs)"
proof (cases "(of_char c :: nat) < 128")
  case True
  then show ?thesis by (simp add: utf8Char_def Let_def unat_byte)
next
  case False
  let ?n = "of_char c :: nat"
  have n: "?n < 256" by (rule of_char_less)
  have "?n div 64 = 2 \<or> ?n div 64 = 3" using False n by linarith
  moreover have "unat (word_of_nat (192 + ?n div 64) :: byte) = 192 + ?n div 64"
    "unat (word_of_nat (128 + ?n mod 64) :: byte) = 128 + ?n mod 64"
    using n by (intro unat_byte; linarith)+
  moreover have "?n div 64 * 64 + ?n mod 64 = ?n" by simp
  ultimately show ?thesis using False by (auto simp: utf8Char_def Let_def)
qed

lemma utf8Text_append: "utf8Text (utf8Bytes s @ bs) = map_option ((@) s) (utf8Text bs)"
  by (induction s) (simp_all add: utf8Bytes_def utf8Text_char option.map_comp comp_def option.map_ident)

lemma char_of_zero [simp]: "char_of (0 :: nat) = CHR 0x00"
  by (simp add: char_of_def)

lemma unat_byte_less: "unat (b :: byte) < 256"
  using unsigned_less[of b, where 'a = nat] by simp

lemma word_of_unat [simp]: "word_of_nat (unat (b :: byte)) = b"
  by simp

lemma of_char_char_of: "n < 256 \<Longrightarrow> of_char (char_of n :: char) = (n :: nat)"
  by simp

lemma utf8Text_Some: "utf8Text bs = Some s \<Longrightarrow> utf8Bytes s = bs"
proof (induction bs arbitrary: s rule: utf8Text.induct)
  case (2 b bs)
  show ?case
  proof (cases "unat b < 128")
    case True
    then obtain s' where s': "utf8Text bs = Some s'" "s = char_of (unat b) # s'" using "2.prems" by auto
    with "2.IH"(1)[OF True] True show ?thesis by (simp add: utf8Bytes_def utf8Char_def Let_def)
  next
    case False
    then obtain b' bs' s' where bs: "bs = b' # bs'" and b: "unat b = 194 \<or> unat b = 195" "128 \<le> unat b'" "unat b' < 192"
      and s': "utf8Text bs' = Some s'" "s = char_of ((unat b - 192) * 64 + (unat b' - 128)) # s'"
      using "2.prems" by (auto split: list.splits if_splits)
    define n where "n = (unat b - 192) * 64 + (unat b' - 128)"
    obtain k where k: "unat b' = 128 + k" "k < 64" 
      using b by (intro that[of "unat b' - 128"]) simp_all
    have n: "n < 256" "\<not> n < 128" "192 + n div 64 = unat b" "128 + n mod 64 = unat b'"
      using b(1) k by (auto simp: n_def)
    have "utf8Char (char_of n) = [b, b']" using n by (simp add: utf8Char_def Let_def)
    moreover have "utf8Bytes s' = bs'" using "2.IH"(2)[OF False bs _ s'(1)] b by blast
    ultimately show ?thesis by (simp add: bs s'(2) utf8Bytes_def n_def)
  qed
qed (simp add: utf8Bytes_def)

lemma utf8Bytes_inj: "utf8Bytes s = utf8Bytes t \<longleftrightarrow> s = t"
proof
  assume "utf8Bytes s = utf8Bytes t"
  then show "s = t" using utf8Text_append[of s "[]"] utf8Text_append[of t "[]"] by simp
qed simp

lemma utf8_roundtrip: "utf8Text (utf8Bytes s) = Some s"
  using utf8Text_append[of s "[]"] by simp

lemma length_utf8Bytes_ascii: "list_all (\<lambda>c. of_char c < (128 :: nat)) s \<Longrightarrow> length (utf8Bytes s) = length s"
  by (induction s) (simp_all add: utf8Bytes_def utf8Char_def Let_def)

lemma base64_alphabet: "length base64Alphabet = 64" "distinct base64Alphabet"
  by (simp_all add: base64Alphabet_def)

lemma index_char: "n < 64 \<Longrightarrow> base64Index (base64Char n) = n"
proof -
  assume n: "n < 64"
  have "takeWhile (\<lambda>x. x \<noteq> base64Alphabet ! n) base64Alphabet = take n base64Alphabet"
  proof (rule takeWhile_eq_take_P_nth)
    show "base64Alphabet ! i \<noteq> base64Alphabet ! n" if "i < n" "i < length base64Alphabet" for i
      using that n base64_alphabet by (simp add: nth_eq_iff_index_eq)
  qed simp
  then show ?thesis using n by (simp add: base64Index_def base64Char_def base64_alphabet)
qed

lemma base64_roundtrip: "base64Decode (base64Encode bs) = bs"
proof (induction bs rule: base64Encode.induct)
  case (2 a)
  have "unat a div 4 < 64" "unat a mod 4 * 16 < 64" "unat a div 4 * 4 + unat a mod 4 * 16 div 16 = unat a"
    using unat_byte_less[of a] by auto
  then show ?case by (simp add: index_char)
next
  case (3 a b)
  have i: "unat a div 4 < 64" "unat a mod 4 * 16 + unat b div 16 < 64" "unat b mod 16 * 4 < 64"
    using unat_byte_less[of a] unat_byte_less[of b] by auto
  have "unat a div 4 * 4 + (unat a mod 4 * 16 + unat b div 16) div 16 = unat a"
    "(unat a mod 4 * 16 + unat b div 16) mod 16 * 16 + unat b mod 16 * 4 div 4 = unat b"
    using unat_byte_less[of b] by auto
  then show ?case using i by (simp add: index_char)
next
  case (4 a b c bs)
  have i: "unat a div 4 < 64" "unat a mod 4 * 16 + unat b div 16 < 64" "unat b mod 16 * 4 + unat c div 64 < 64" "unat c mod 64 < 64"
    using unat_byte_less[of a] unat_byte_less[of b] unat_byte_less[of c] by auto
  have "unat a div 4 * 4 + (unat a mod 4 * 16 + unat b div 16) div 16 = unat a"
    "(unat a mod 4 * 16 + unat b div 16) mod 16 * 16 + (unat b mod 16 * 4 + unat c div 64) div 4 = unat b"
    "(unat b mod 16 * 4 + unat c div 64) mod 4 * 64 + unat c mod 64 = unat c"
    using unat_byte_less[of b] unat_byte_less[of c] by auto
  then show ?case using i 4 by (simp add: index_char)
qed simp

lemma base64Char_in: "n < 64 \<Longrightarrow> base64Char n \<in> set base64Alphabet"
  by (simp add: base64Char_def base64_alphabet)

lemma base64Encode_chars: "set (base64Encode bs) \<subseteq> set base64Alphabet"
proof (induction bs rule: base64Encode.induct)
  case (2 a)
  then show ?case using unat_byte_less[of a] by (auto intro!: base64Char_in)
next
  case (3 a b)
  then show ?case using unat_byte_less[of a] unat_byte_less[of b] by (auto intro!: base64Char_in)
next
  case (4 a b c bs)
  then show ?case using unat_byte_less[of a] unat_byte_less[of b] unat_byte_less[of c] by (auto intro!: base64Char_in)
qed simp

lemma base64Encode_length: "length (base64Encode bs) \<le> 2 * length bs" "bs \<noteq> [] \<Longrightarrow> base64Encode bs \<noteq> []"
  by (induction bs rule: base64Encode.induct) simp_all

lemma of_hexChar: "n < 16 \<Longrightarrow> of_char (hexChar n) = (if n < 10 then 48 + n else 87 + n)"
  by (simp add: hexChar_def)

lemma hexDigit_hexChar: "n < 16 \<Longrightarrow> hexDigit (hexChar n) = n"
  by (simp add: hexDigit_def is_digit_def of_hexChar)

lemma hexChar_lower_hex: "n < 16 \<Longrightarrow> is_lower_hex (hexChar n)"
  by (simp add: is_lower_hex_def of_hexChar)

lemma hexDigit_less: "is_lower_hex c \<Longrightarrow> hexDigit c < 16"
  by (auto simp: is_lower_hex_def hexDigit_def is_digit_def)

lemma hexChar_hexDigit: "is_lower_hex c \<Longrightarrow> hexChar (hexDigit c) = c"
  by (auto simp: is_lower_hex_def hexDigit_def is_digit_def hexChar_def)

lemma length_hexEncode [simp]: "length (hexEncode bs) = 2 * length bs"
  by (induction bs) (simp_all add: hexEncode_def)

lemma hexEncode_lower_hex: "list_all is_lower_hex (hexEncode bs)"
proof (induction bs)
  case (Cons b bs)
  then show ?case using unat_byte_less[of b] by (simp add: hexEncode_def hexChar_lower_hex less_mult_imp_div_less)
qed (simp add: hexEncode_def)

lemma hex_roundtrip: "hexDecode (hexEncode bs) = bs"
proof (induction bs)
  case (Cons b bs)
  have "unat b div 16 < 16" using unat_byte_less[of b] by (simp add: less_mult_imp_div_less)
  then show ?case using Cons by (simp add: hexEncode_def hexDigit_hexChar)
qed (simp add: hexEncode_def)

lemma hexDecode_value: "list_all is_lower_hex s \<Longrightarrow> even (length s) \<Longrightarrow> hexEncode (hexDecode s) = s"
proof (induction s rule: hexDecode.induct)
  case (1 x y s)
  then have less: "hexDigit x < 16" "hexDigit y < 16" using hexDigit_less by simp_all
  then have "unat (word_of_nat (hexDigit x * 16 + hexDigit y) :: byte) = hexDigit x * 16 + hexDigit y"
    by (intro unat_byte) linarith
  then show ?case using 1 less by (simp add: hexEncode_def hexChar_hexDigit)
qed (simp_all add: hexEncode_def)

lemma length_hexDecode [simp]: "length (hexDecode s) = length s div 2"
  by (induction s rule: hexDecode.induct) simp_all

end
