(* ===== verification/Tar_Codec.thy ===== *)
theory Tar_Codec
  imports Bytes
begin

text \<open>
  The archive format of backups (\<open>backup-restore/src/tar\<close>): the validator of archive paths, the
  header fields, the writer and the reader. A buffer is a list of bytes. Strings hold characters
  below 256, on which \<open>normalize('NFC')\<close> is the identity; a name in an archive that decodes to
  other characters is outside the model, and reading it ends with \<open>UndecodedName\<close>. The messages of
  exceptions are kept without the values the source interpolates into them.
\<close>

datatype tarError = BackupArchiveError string | BackupPathSafetyError string | UndecodedName

record backupLimits =
  maxFileSize :: int
  maxTotalSize :: int
  maxFileCount :: nat

definition DEFAULT_LIMITS :: backupLimits where
  "DEFAULT_LIMITS = \<lparr>maxFileSize = 1073741824, maxTotalSize = 10737418240, maxFileCount = 100000\<rparr>"

definition BLOCK_SIZE :: nat where
  "BLOCK_SIZE = 512"

section \<open>Text and bytes\<close>

text \<open>\<open>s.replace(/\0.*$/, '')\<close>: from the first null after which no line ends.\<close>

fun stripNul :: "string \<Rightarrow> string" where
  "stripNul [] = []"
| "stripNul (c # cs) =
     (if c = CHR 0x00 \<and> list_all (\<lambda>x. x \<noteq> CHR 0x0A \<and> x \<noteq> CHR 0x0D) cs then [] else c # stripNul cs)"

definition lowerCasePath :: "string \<Rightarrow> string" where
  "lowerCasePath s = toLowerCase s"

section \<open>Archive paths\<close>

fun dropDotSlash :: "string \<Rightarrow> string" where
  "dropDotSlash (a # b # s) = (if a = CHR ''.'' \<and> b = CHR ''/'' then dropDotSlash s else a # b # s)"
| "dropDotSlash s = s"

definition isControl :: "char \<Rightarrow> bool" where
  "isControl c \<longleftrightarrow> of_char c < (32 :: nat) \<or> of_char c = (127 :: nat)"

definition normalizeAndValidateArchivePath :: "string \<Rightarrow> tarError + string" where
  "normalizeAndValidateArchivePath rawPath =
     (if rawPath = [] then Inl (BackupPathSafetyError ''Archive entry path must be a non-empty string'')
      else
        let slashes = map (\<lambda>c. if c = CHR 0x5C then CHR ''/'' else c) rawPath;
            normalized = js_trim (dropDotSlash (dropWhile (\<lambda>c. c = CHR ''/'') slashes));
            segments = filter (\<lambda>s. s \<noteq> []) (split_on (CHR ''/'') normalized)
        in if normalized = [] then Inl (BackupPathSafetyError ''Unsafe empty normalized archive path'')
           else if list_ex isControl normalized
           then Inl (BackupPathSafetyError ''Archive path contains invalid control characters'')
           else if segments = [] then Inl (BackupPathSafetyError ''Unsafe normalized archive path'')
           else if list_ex (\<lambda>s. s = ''..'' \<or> s = ''.'') segments
           then Inl (BackupPathSafetyError ''Path traversal detected in archive path'')
           else Inr (join_with (CHR ''/'') segments))"

section \<open>Header fields\<close>

definition sub :: "nat \<Rightarrow> nat \<Rightarrow> byte list \<Rightarrow> byte list" where
  "sub off n buf = take n (drop off buf)"

definition writeAt :: "nat \<Rightarrow> byte list \<Rightarrow> byte list \<Rightarrow> byte list" where
  "writeAt off bs buf = take off buf @ bs @ drop (off + length bs) buf"

definition is_octal :: "char \<Rightarrow> bool" where
  "is_octal c \<longleftrightarrow> (48 :: nat) \<le> of_char c \<and> of_char c \<le> (55 :: nat)"

definition octalValue :: "string \<Rightarrow> nat" where
  "octalValue ds = foldl (\<lambda>n c. 8 * n + (of_char c - 48)) 0 ds"

definition parseOctalDigits :: "string \<Rightarrow> int" where
  "parseOctalDigits s = int (octalValue (takeWhile is_octal s))"

text \<open>\<open>parseInt(clean, 8)\<close>, where no digits (\<open>NaN\<close>) count as 0.\<close>

definition parseOctal :: "byte list \<Rightarrow> int" where
  "parseOctal field =
     (case js_trim (filter (\<lambda>c. c \<noteq> CHR 0x00) (asciiText field)) of
        [] \<Rightarrow> 0
      | c # cs \<Rightarrow>
          if c = CHR ''-'' then - parseOctalDigits cs
          else if c = CHR ''+'' then parseOctalDigits cs
          else parseOctalDigits (c # cs))"

fun showOctalNat :: "nat \<Rightarrow> string" where
  "showOctalNat n = (if n < 8 then [char_of (48 + n)] else showOctalNat (n div 8) @ [char_of (48 + n mod 8)])"

declare showOctalNat.simps [simp del]

definition showOctal :: "int \<Rightarrow> string" where
  "showOctal i = (if i < 0 then CHR ''-'' # showOctalNat (nat (- i)) else showOctalNat (nat i))"

definition padStart :: "nat \<Rightarrow> string \<Rightarrow> string" where
  "padStart n s = replicate (n - length s) (CHR ''0'') @ s"

text \<open>The field of \<open>n\<close> bytes that \<open>writeOctal\<close> writes.\<close>

definition octalField :: "nat \<Rightarrow> int \<Rightarrow> byte list" where
  "octalField n v = asciiBytes (take (n - 1) (padStart (n - 1) (showOctal v))) @ [0]"

definition writeOctal :: "nat \<Rightarrow> nat \<Rightarrow> int \<Rightarrow> byte list \<Rightarrow> byte list" where
  "writeOctal off n v buf = writeAt off (octalField n v) buf"

definition computeHeaderChecksum :: "byte list \<Rightarrow> nat" where
  "computeHeaderChecksum h =
     sum_list (map (\<lambda>i. if 148 \<le> i \<and> i < 156 then 32 else unat (h ! i)) [0..<BLOCK_SIZE])"

section \<open>The writer\<close>

record tarFilePayload =
  f_path :: string
  f_data :: "byte list"
  f_mode :: "int option"
  f_mtime :: "int option"
  f_uid :: "int option"
  f_gid :: "int option"

record tarWriter =
  tw_limits :: backupLimits
  tw_seen :: "string list"
  tw_seenLower :: "string list"
  tw_chunks :: "byte list list"
  tw_totalBytes :: int
  tw_fileCount :: nat

definition newTarWriter :: "backupLimits \<Rightarrow> tarWriter" where
  "newTarWriter limits = \<lparr>tw_limits = limits, tw_seen = [], tw_seenLower = [], tw_chunks = [],
     tw_totalBytes = 0, tw_fileCount = 0\<rparr>"

definition optOr :: "'a option \<Rightarrow> 'a \<Rightarrow> 'a" where
  "optOr x d = (case x of None \<Rightarrow> d | Some y \<Rightarrow> y)"

text \<open>The data of an entry, filled up with zeros to whole blocks.\<close>

definition padding :: "byte list \<Rightarrow> byte list" where
  "padding data = (if length data mod BLOCK_SIZE = 0 then [] else replicate (BLOCK_SIZE - length data mod BLOCK_SIZE) 0)"

definition setChecksum :: "byte list \<Rightarrow> byte list" where
  "setChecksum h = writeOctal 148 8 (int (computeHeaderChecksum h)) h"

definition longLinkHeader :: "byte list \<Rightarrow> byte list" where
  "longLinkHeader data =
     setChecksum (writeAt 263 (asciiBytes ''00'') (writeAt 257 (asciiBytes ''ustar'' @ [0]) (writeAt 156 [76]
       (writeOctal 136 12 0 (writeOctal 124 12 (int (length data)) (writeOctal 116 8 0 (writeOctal 108 8 0
         (writeOctal 100 8 0 (writeAt 0 (asciiBytes ''././@LongLink'') (replicate BLOCK_SIZE 0))))))))))"

definition writeGnuLongLink :: "byte list \<Rightarrow> byte list list" where
  "writeGnuLongLink pathBuffer =
     (let longLinkData = pathBuffer @ [0]
      in [longLinkHeader longLinkData, longLinkData, padding longLinkData])"

definition fileHeader :: "byte list \<Rightarrow> int \<Rightarrow> int \<Rightarrow> int \<Rightarrow> nat \<Rightarrow> int \<Rightarrow> byte list" where
  "fileHeader pathBuffer mode uid gid fileSize mtime =
     setChecksum (writeAt 297 (asciiBytes ''enkeep'') (writeAt 265 (asciiBytes ''enkeep'')
       (writeAt 263 (asciiBytes ''00'') (writeAt 257 (asciiBytes ''ustar'' @ [0]) (writeAt 156 [48]
         (writeOctal 136 12 mtime (writeOctal 124 12 (int fileSize) (writeOctal 116 8 gid (writeOctal 108 8 uid
           (writeOctal 100 8 (mode mod 4096) (writeAt 0 (take 100 pathBuffer) (replicate BLOCK_SIZE 0))))))))))))"

text \<open>The chunks of a file, when its path and size have passed; \<open>now\<close> is in seconds.\<close>

definition fileChunks :: "int \<Rightarrow> string \<Rightarrow> tarFilePayload \<Rightarrow> byte list list" where
  "fileChunks now path file =
     (let pathBuffer = utf8Bytes path; data = f_data file in
      (if length pathBuffer > 100 then writeGnuLongLink pathBuffer else []) @
      [fileHeader pathBuffer (optOr (f_mode file) 384) (optOr (f_uid file) 0) (optOr (f_gid file) 0) (length data)
         (optOr (f_mtime file) now)] @
      (if data = [] then [] else [data, padding data]))"

text \<open>\<open>addFile\<close>. A file that is refused late has been counted all the same.\<close>

definition addFile :: "int \<Rightarrow> tarFilePayload \<Rightarrow> (tarWriter, tarError, unit) op" where
  "addFile now file w =
     (case normalizeAndValidateArchivePath (f_path file) of
        Inl e \<Rightarrow> (Inl e, w)
      | Inr path \<Rightarrow>
          if path \<in> set (tw_seen w) then (Inl (BackupArchiveError ''Duplicate archive entry detected''), w)
          else if lowerCasePath path \<in> set (tw_seenLower w)
          then (Inl (BackupArchiveError ''Case collision detected in archive entries''), w)
          else
            let w1 = w\<lparr>tw_seen := path # tw_seen w, tw_seenLower := lowerCasePath path # tw_seenLower w,
                  tw_fileCount := tw_fileCount w + 1\<rparr>;
                size = int (length (f_data file));
                w2 = w1\<lparr>tw_totalBytes := tw_totalBytes w + size\<rparr>
            in if tw_fileCount w1 > maxFileCount (tw_limits w)
               then (Inl (BackupArchiveError ''Archive file count exceeds limit''), w1)
               else if size > maxFileSize (tw_limits w)
               then (Inl (BackupArchiveError ''File exceeds max file size''), w1)
               else if tw_totalBytes w2 > maxTotalSize (tw_limits w)
               then (Inl (BackupArchiveError ''Total archive size exceeds limit''), w2)
               else (Inr (), w2\<lparr>tw_chunks := tw_chunks w @ fileChunks now path file\<rparr>))"

definition finalize :: "tarWriter \<Rightarrow> byte list" where
  "finalize w = concat (tw_chunks w @ [replicate (BLOCK_SIZE * 2) 0])"

section \<open>The reader\<close>

record extractedTarEntry =
  x_path :: string
  x_data :: "byte list"
  x_mode :: int
  x_uid :: int
  x_gid :: int
  x_mtime :: int
  x_size :: int

record readerState =
  rd_entries :: "extractedTarEntry list"
  rd_seen :: "string list"
  rd_seenLower :: "string list"
  rd_totalBytes :: int
  rd_pendingLongName :: "string option"

definition newReader :: readerState where
  "newReader = \<lparr>rd_entries = [], rd_seen = [], rd_seenLower = [], rd_totalBytes = 0, rd_pendingLongName = None\<rparr>"

definition decodeName :: "byte list \<Rightarrow> tarError + string" where
  "decodeName bs = (case utf8Text bs of None \<Rightarrow> Inl UndecodedName | Some s \<Rightarrow> Inr (stripNul s))"

definition rawName :: "byte list \<Rightarrow> string option \<Rightarrow> tarError + string" where
  "rawName h pending =
     (if opt_truthy pending then Inr (the pending)
      else andThen (decodeName (sub 345 155 h)) (\<lambda>prefix.
           andThen (decodeName (sub 0 100 h)) (\<lambda>namePart.
           Inr (if prefix \<noteq> [] then prefix @ CHR ''/'' # namePart else namePart))))"

text \<open>The types of entries that are refused.\<close>

definition typeRefused :: "nat \<Rightarrow> tarError option" where
  "typeRefused t =
     (if t = 49 \<or> t = 104 then Some (BackupArchiveError ''Unsafe backup archive entry: Hard link entry rejected'')
      else if t = 50 \<or> t = 115 then Some (BackupArchiveError ''Unsafe backup archive entry: Symbolic link entry rejected'')
      else if t = 51 \<or> t = 52 \<or> t = 54
      then Some (BackupArchiveError ''Unsafe backup archive entry: Special device/FIFO file rejected'')
      else if t \<noteq> 48 \<and> t \<noteq> 0 \<and> t \<noteq> 53
      then Some (BackupArchiveError ''Unsupported or unsafe backup archive entry typeflag'')
      else None)"

text \<open>A regular file whose path has passed.\<close>

definition storeEntry ::
  "backupLimits \<Rightarrow> byte list \<Rightarrow> byte list \<Rightarrow> int \<Rightarrow> string \<Rightarrow> readerState \<Rightarrow> tarError + readerState" where
  "storeEntry limits h fileData fileSize path st =
     (if path \<in> set (rd_seen st) then Inl (BackupArchiveError ''Duplicate entry detected in backup archive'')
      else if lowerCasePath path \<in> set (rd_seenLower st)
      then Inl (BackupArchiveError ''Case collision detected in backup archive'')
      else
        let entries = rd_entries st @ [\<lparr>x_path = path, x_data = fileData, x_mode = parseOctal (sub 100 8 h),
              x_uid = parseOctal (sub 108 8 h), x_gid = parseOctal (sub 116 8 h), x_mtime = parseOctal (sub 136 12 h),
              x_size = fileSize\<rparr>];
            total = rd_totalBytes st + fileSize
        in if length entries > maxFileCount limits then Inl (BackupArchiveError ''Archive file count exceeds limit'')
           else if total > maxTotalSize limits
           then Inl (BackupArchiveError ''Total uncompressed archive size exceeds limit'')
           else Inr (st\<lparr>rd_entries := entries, rd_seen := path # rd_seen st,
                  rd_seenLower := lowerCasePath path # rd_seenLower st, rd_totalBytes := total\<rparr>))"

definition readEntry ::
  "backupLimits \<Rightarrow> byte list \<Rightarrow> byte list \<Rightarrow> int \<Rightarrow> readerState \<Rightarrow> tarError + readerState" where
  "readEntry limits h fileData fileSize st =
     (let t = unat (h ! 156) in
      if t = 76 then andThen (decodeName fileData) (\<lambda>longName. Inr (st\<lparr>rd_pendingLongName := Some longName\<rparr>))
      else case typeRefused t of
          Some e \<Rightarrow> Inl e
        | None \<Rightarrow>
            andThen (rawName h (rd_pendingLongName st)) (\<lambda>raw.
            andThen (normalizeAndValidateArchivePath raw) (\<lambda>path.
              let st1 = st\<lparr>rd_pendingLongName := None\<rparr> in
              if t = 53 then Inr st1 else storeEntry limits h fileData fileSize path st1)))"

definition paddedSize :: "nat \<Rightarrow> nat" where
  "paddedSize n = (n + BLOCK_SIZE - 1) div BLOCK_SIZE * BLOCK_SIZE"

text \<open>The loop of \<open>readAllEntries\<close> over the blocks that are left.\<close>

function readBlocks :: "backupLimits \<Rightarrow> byte list \<Rightarrow> readerState \<Rightarrow> tarError + readerState" where
  "readBlocks limits buf st =
     (if buf = [] then Inr st
      else
        let h = take BLOCK_SIZE buf; rest = drop BLOCK_SIZE buf; size = parseOctal (sub 124 12 h) in
        if list_all (\<lambda>b. b = 0) h then readBlocks limits rest st
        else if parseOctal (sub 148 8 h) \<noteq> int (computeHeaderChecksum h)
        then Inl (BackupArchiveError ''Corrupted backup archive header: Checksum mismatch'')
        else if size < 0 then Inl (BackupArchiveError ''Invalid negative file size in archive entry'')
        else if size > maxFileSize limits
        then Inl (BackupArchiveError ''Archive entry size exceeds max file size limit'')
        else if paddedSize (nat size) > length rest
        then Inl (BackupArchiveError ''Corrupted archive: Entry data extends beyond archive boundary'')
        else (case readEntry limits h (take (nat size) rest) size st of
            Inl e \<Rightarrow> Inl e
          | Inr st' \<Rightarrow> readBlocks limits (drop (paddedSize (nat size)) rest) st'))"
  by pat_completeness auto

termination
  by (relation "measure (\<lambda>(limits, buf, st). length buf)") (auto simp: BLOCK_SIZE_def)

declare readBlocks.simps [simp del]

definition readAllEntries :: "backupLimits \<Rightarrow> byte list \<Rightarrow> tarError + extractedTarEntry list" where
  "readAllEntries limits buf =
     (if buf = [] then Inl (BackupArchiveError ''Backup archive is empty (0 bytes)'')
      else if length buf mod BLOCK_SIZE \<noteq> 0
      then Inl (BackupArchiveError ''Corrupted backup archive: Length is not a multiple of the block size'')
      else andThen (readBlocks limits buf newReader) (\<lambda>st.
        if rd_entries st = [] then Inl (BackupArchiveError ''Backup archive contains no valid file entries'')
        else Inr (rd_entries st)))"

end
