(* ===== verification/Tar_Theorems.thy ===== *)
theory Tar_Theorems
  imports Tar_Codec
begin

text \<open>
  The archive format of backups: what the writer packs the reader unpacks, the reader accepts only
  safe paths within the limits, and a damaged header is noticed.
\<close>

section \<open>Text and bytes\<close>

lemma utf8Text_zeros: "utf8Text (replicate k 0) = Some (replicate k (CHR 0x00))"
  by (induction k) simp_all

lemma stripNul_zeros:
  "CHR 0x00 \<notin> set s \<Longrightarrow> stripNul (s @ replicate k (CHR 0x00)) = s"
proof (induction s)
  case Nil
  then show ?case by (cases k) (simp_all add: list_all_iff)
qed auto

lemma decodeName_zeros:
  "CHR 0x00 \<notin> set s \<Longrightarrow> decodeName (utf8Bytes s @ replicate k 0) = Inr s"
  by (simp add: decodeName_def utf8Text_append utf8Text_zeros stripNul_zeros)

section \<open>Fields of a buffer\<close>

lemma length_writeAt [simp]: "off + length bs \<le> length buf \<Longrightarrow> length (writeAt off bs buf) = length buf"
  by (simp add: writeAt_def)

lemma sub_writeAt_same: "off + length bs \<le> length buf \<Longrightarrow> n = length bs \<Longrightarrow> sub off n (writeAt off bs buf) = bs"
  by (simp add: sub_def writeAt_def)

lemma sub_writeAt_before: "a + n \<le> off \<Longrightarrow> off + length bs \<le> length buf \<Longrightarrow> sub a n (writeAt off bs buf) = sub a n buf"
  by (simp add: sub_def writeAt_def drop_take min_def) linarith

lemma sub_writeAt_after: "off + length bs \<le> a \<Longrightarrow> off + length bs \<le> length buf \<Longrightarrow> sub a n (writeAt off bs buf) = sub a n buf"
  by (simp add: sub_def writeAt_def min_def)

lemma nth_writeAt_other:
  "i < off \<or> off + length bs \<le> i \<Longrightarrow> off + length bs \<le> length buf \<Longrightarrow> i < length buf \<Longrightarrow> writeAt off bs buf ! i = buf ! i"
  by (auto simp: writeAt_def nth_append min_def)

lemma nth_sub: "i < length buf \<Longrightarrow> buf ! i = hd (sub i 1 buf)"
  by (simp add: sub_def hd_drop_conv_nth take_Suc_conv_app_nth hd_take)

section \<open>Octal fields\<close>

lemma octal_digit: "(d :: nat) < 8 \<Longrightarrow> of_char (char_of (48 + d) :: char) = 48 + d"
  by (simp add: of_char_of)

lemma is_octal_digit: "(d :: nat) < 8 \<Longrightarrow> is_octal (char_of (48 + d))"
  using octal_digit[of d] by (simp add: is_octal_def del: of_char_of)

lemma showOctalNat_digits: "list_all is_octal (showOctalNat n)"
  by (induction n rule: showOctalNat.induct) (subst showOctalNat.simps, simp add: is_octal_digit)

lemma octalValue_snoc: "octalValue (ds @ [c]) = 8 * octalValue ds + (of_char c - 48)"
  by (simp add: octalValue_def)

lemma octalValue_show: "octalValue (showOctalNat n) = n"
proof (induction n rule: showOctalNat.induct)
  case (1 n)
  show ?case
  proof (cases "n < 8")
    case True
    then show ?thesis by (subst showOctalNat.simps) (simp add: octalValue_def octal_digit)
  next
    case False
    with 1 show ?thesis by (subst showOctalNat.simps) (simp add: octalValue_snoc octal_digit)
  qed
qed

lemma octalValue_zeros: "octalValue (replicate k (CHR ''0'') @ ds) = octalValue ds"
  by (induction k) (simp_all add: octalValue_def)

lemma length_showOctal: "n < 8 ^ k \<Longrightarrow> 0 < k \<Longrightarrow> length (showOctalNat n) \<le> k"
proof (induction k arbitrary: n)
  case (Suc k)
  show ?case
  proof (cases "n < 8")
    case True
    then show ?thesis by (subst showOctalNat.simps) simp
  next
    case False
    then have "n div 8 < 8 ^ k" "0 < k" using Suc.prems by (auto simp: less_mult_imp_div_less mult.commute intro: gr0I)
    then show ?thesis using Suc.IH[of "n div 8"] False by (subst showOctalNat.simps) simp
  qed
qed simp

lemma is_octal_facts: "is_octal c \<Longrightarrow> of_char c < (128 :: nat)" "is_octal c \<Longrightarrow> \<not> is_space c"
  "is_octal c \<Longrightarrow> c \<noteq> CHR 0x00" "is_octal c \<Longrightarrow> c \<noteq> CHR ''-''" "is_octal c \<Longrightarrow> c \<noteq> CHR ''+''"
  by (auto simp: is_octal_def is_space_def)

lemma parseOctal_digits:
  assumes "list_all is_octal ds" "ds \<noteq> []"
  shows "parseOctal (asciiBytes ds @ [0]) = int (octalValue ds)"
proof -
  have asc: "asciiText (asciiBytes ds @ [0]) = ds @ [CHR 0x00]"
    using assms(1) ascii_roundtrip[of ds] by (simp add: ascii_append) (simp add: asciiText_def list_all_iff is_octal_facts)
  have "filter (\<lambda>c. c \<noteq> CHR 0x00) ds = ds"
    using assms(1) by (auto simp: filter_id_conv list_all_iff dest: is_octal_facts(3))
  moreover have "js_trim ds = ds"
    using assms by (intro js_trim_no_space) (auto simp: list_all_iff is_octal_facts(2))
  moreover have "parseOctalDigits ds = int (octalValue ds)"
    using assms(1) by (simp add: parseOctalDigits_def list_all_iff takeWhile_eq_all_conv[THEN iffD2])
  moreover obtain c cs where "ds = c # cs" using assms(2) by (cases ds) auto
  ultimately show ?thesis
    using assms(1) unfolding parseOctal_def asc filter_append
    by (simp add: is_octal_facts)
qed

lemma octalField_roundtrip:
  assumes "0 \<le> v" "v < 8 ^ (n - 1)" "1 < n"
  shows "parseOctal (octalField n v) = v" "length (octalField n v) = n"
proof -
  let ?ds = "replicate (n - 1 - length (showOctalNat (nat v))) (CHR ''0'') @ showOctalNat (nat v)"
  have "nat v < 8 ^ (n - 1)" using assms by (simp add: nat_less_iff)
  then have len: "length (showOctalNat (nat v)) \<le> n - 1" using assms(3) by (intro length_showOctal) auto
  then have f: "octalField n v = asciiBytes ?ds @ [0]"
    using assms(1) by (simp add: octalField_def padStart_def showOctal_def)
  show "length (octalField n v) = n" using len assms(3) by (simp add: f)
  have "list_all is_octal ?ds" using showOctalNat_digits[of "nat v"] by (simp add: list_all_append) (simp add: list_all_iff is_octal_def)
  moreover have "?ds \<noteq> []" by (subst showOctalNat.simps) simp
  ultimately show "parseOctal (octalField n v) = v"
    using assms(1) parseOctal_digits[of ?ds] by (simp only: f octalValue_zeros octalValue_show) simp
qed

lemma length_octalField [simp]: "1 < n \<Longrightarrow> length (octalField n v) = n"
  by (simp add: octalField_def padStart_def)

section \<open>Headers\<close>

lemma sum_list_bound: "(\<And>x. x \<in> set xs \<Longrightarrow> f x \<le> (k :: nat)) \<Longrightarrow> sum_list (map f xs) \<le> length xs * k"
  by (induction xs) (simp_all add: add_mono)

lemma checksum_bound: "computeHeaderChecksum h < 8 ^ 7"
proof -
  have "unat (b :: byte) < 2 ^ LENGTH(8)" for b by (rule unsigned_less)
  then have "unat (b :: byte) < 256" for b by simp
  then have "unat (b :: byte) \<le> 255" for b by (simp add: less_Suc_eq_le[symmetric])
  then have "sum_list (map (\<lambda>i. if 148 \<le> i \<and> i < 156 then 32 else unat (h ! i)) [0..<512]) \<le> length [0..<512] * 255"
    by (intro sum_list_bound) simp
  then show ?thesis by (simp add: computeHeaderChecksum_def BLOCK_SIZE_def del: upt_Suc)
qed

lemma checksum_cong:
  "(\<And>i. i < 512 \<Longrightarrow> i < 148 \<or> 156 \<le> i \<Longrightarrow> h ! i = h' ! i) \<Longrightarrow> computeHeaderChecksum h = computeHeaderChecksum h'"
  unfolding computeHeaderChecksum_def BLOCK_SIZE_def by (rule arg_cong[of _ _ sum_list]) (auto intro!: map_cong)

lemma setChecksum:
  assumes "length h = 512"
  shows "length (setChecksum h) = 512" "parseOctal (sub 148 8 (setChecksum h)) = int (computeHeaderChecksum (setChecksum h))"
    and "a + n \<le> 148 \<or> 156 \<le> a \<Longrightarrow> sub a n (setChecksum h) = sub a n h"
proof -
  have "int (computeHeaderChecksum h) < 8 ^ (8 - 1)" using checksum_bound[of h] by simp
  note field = octalField_roundtrip[OF _ this, simplified]
  show "length (setChecksum h) = 512" by (simp add: setChecksum_def writeOctal_def assms)
  have "computeHeaderChecksum (setChecksum h) = computeHeaderChecksum h"
    by (rule checksum_cong) (auto simp: setChecksum_def writeOctal_def assms nth_writeAt_other)
  then show "parseOctal (sub 148 8 (setChecksum h)) = int (computeHeaderChecksum (setChecksum h))"
    by (simp add: setChecksum_def writeOctal_def sub_writeAt_same assms field)
  show "sub a n (setChecksum h) = sub a n h" if "a + n \<le> 148 \<or> 156 \<le> a"
    using that by (auto simp: setChecksum_def writeOctal_def assms sub_writeAt_before sub_writeAt_after)
qed

lemma sub_replicate: "sub a n (replicate k x) = replicate (min n (k - a)) x"
  by (simp add: sub_def)

text \<open>A block; the fields of one that is written field by field.\<close>

definition block :: "byte list \<Rightarrow> bool" where
  "block h \<longleftrightarrow> length h = 512"

lemma block_rules:
  "block (replicate BLOCK_SIZE 0)" "block h \<Longrightarrow> off + length bs \<le> 512 \<Longrightarrow> block (writeAt off bs h)"
  "block h \<Longrightarrow> block (setChecksum h)"
  by (simp_all add: block_def BLOCK_SIZE_def setChecksum)

lemma field_same: "block h \<Longrightarrow> off + length bs \<le> 512 \<Longrightarrow> n = length bs \<Longrightarrow> sub off n (writeAt off bs h) = bs"
  by (simp add: block_def sub_writeAt_same)

lemma field_other:
  "block h \<Longrightarrow> off + length bs \<le> 512 \<Longrightarrow> a + n \<le> off \<or> off + length bs \<le> a \<Longrightarrow> sub a n (writeAt off bs h) = sub a n h"
  by (auto simp: block_def sub_writeAt_before sub_writeAt_after)

lemma field_checksum:
  "block h \<Longrightarrow> parseOctal (sub 148 8 (setChecksum h)) = int (computeHeaderChecksum (setChecksum h))"
  "block h \<Longrightarrow> a + n \<le> 148 \<or> 156 \<le> a \<Longrightarrow> sub a n (setChecksum h) = sub a n h"
  by (simp_all add: block_def setChecksum)

lemma field_name:
  "length bs \<le> 100 \<Longrightarrow> sub 0 100 (writeAt 0 bs (replicate BLOCK_SIZE 0)) = bs @ replicate (100 - length bs) 0"
  by (simp add: sub_def writeAt_def min_def BLOCK_SIZE_def)

lemma sub_block: "a + n \<le> 512 \<Longrightarrow> sub a n (replicate BLOCK_SIZE x) = replicate n x"
  by (simp add: sub_replicate BLOCK_SIZE_def)

lemmas field_rules = block_rules field_same field_other field_checksum field_name writeOctal_def

lemma fileHeader_fields:
  fixes p mode uid gid n mtime
  defines "h \<equiv> fileHeader p mode uid gid n mtime"
  shows "block h" "parseOctal (sub 148 8 h) = int (computeHeaderChecksum h)"
    "sub 0 100 h = take 100 p @ replicate (100 - length p) 0" "sub 345 155 h = replicate 155 0"
    "sub 100 8 h = octalField 8 (mode mod 4096)" "sub 108 8 h = octalField 8 uid" "sub 116 8 h = octalField 8 gid"
    "sub 124 12 h = octalField 12 (int n)" "sub 136 12 h = octalField 12 mtime" "sub 156 1 h = [48]"
  unfolding h_def fileHeader_def by (simp_all add: field_rules sub_block)

lemma longLinkHeader_fields:
  fixes d
  defines "h \<equiv> longLinkHeader d"
  shows "block h" "parseOctal (sub 148 8 h) = int (computeHeaderChecksum h)"
    "sub 124 12 h = octalField 12 (int (length d))" "sub 156 1 h = [76]"
  unfolding h_def longLinkHeader_def by (simp_all add: field_rules)

section \<open>Paths\<close>

text \<open>
  A path that stays below the directory it is unpacked to: relative, without empty segments and
  without \<open>.\<close> or \<open>..\<close>, and free of control characters and backslashes.
\<close>

definition safePath :: "string \<Rightarrow> bool" where
  "safePath p \<longleftrightarrow> list_all (\<lambda>s. s \<noteq> [] \<and> s \<noteq> ''.'' \<and> s \<noteq> ''..'') (split_on (CHR ''/'') p) \<and>
     list_all (\<lambda>c. \<not> isControl c \<and> c \<noteq> CHR 0x5C) p"

lemma set_join_with: "set (join_with c segs) \<subseteq> insert c (\<Union> (set ` set segs))"
  by (induction c segs rule: join_with.induct) auto

lemma set_split_on: "s \<in> set (split_on c p) \<Longrightarrow> set s \<subseteq> set p"
  by (induction c p arbitrary: s rule: split_on.induct) (fastforce split: if_splits list.splits)+

lemma set_dropDotSlash: "set (dropDotSlash s) \<subseteq> set s"
  by (induction s rule: dropDotSlash.induct) auto

lemma set_js_trim: "set (js_trim s) \<subseteq> set s"
  unfolding js_trim_def by (metis set_dropWhileD set_rev subsetI)

lemma normalize_safe:
  assumes "normalizeAndValidateArchivePath raw = Inr p"
  shows "safePath p"
proof -
  define slashes where "slashes = map (\<lambda>c. if c = CHR 0x5C then CHR ''/'' else c) raw"
  define norm where "norm = js_trim (dropDotSlash (dropWhile (\<lambda>c. c = CHR ''/'') slashes))"
  define segs where "segs = filter (\<lambda>s. s \<noteq> []) (split_on (CHR ''/'') norm)"
  have facts: "\<not> list_ex isControl norm" "segs \<noteq> []" "\<not> list_ex (\<lambda>s. s = ''..'' \<or> s = ''.'') segs"
    "p = join_with (CHR ''/'') segs"
    using assms unfolding normalizeAndValidateArchivePath_def Let_def slashes_def[symmetric] norm_def[symmetric] segs_def[symmetric]
    by (auto split: if_splits)
  have split: "split_on (CHR ''/'') p = segs"
    unfolding facts(4) using facts(2) by (rule split_join) (auto simp: segs_def list_all_iff dest: split_on_parts)
  have "set norm \<subseteq> set slashes"
    unfolding norm_def using set_js_trim set_dropDotSlash set_dropWhileD by (metis subset_trans subsetI)
  then have "CHR 0x5C \<notin> set norm" by (auto simp: slashes_def)
  moreover have "set p \<subseteq> insert (CHR ''/'') (set norm)"
    unfolding facts(4) using set_join_with[of "CHR ''/''" segs] set_split_on[of _ "CHR ''/''" norm] by (fastforce simp: segs_def)
  moreover have "\<not> isControl (CHR ''/'')" by (simp add: isControl_def)
  ultimately have "list_all (\<lambda>c. \<not> isControl c \<and> c \<noteq> CHR 0x5C) p" using facts(1) by (fastforce simp: list_all_iff list_ex_iff)
  then show ?thesis using facts(3) by (auto simp: safePath_def split segs_def list_all_iff list_ex_iff)
qed

lemma safePath_not_Nil: "safePath p \<Longrightarrow> p \<noteq> []"
  by (auto simp: safePath_def)

lemma normalize_id:
  assumes safe: "safePath p" and trim: "js_trim p = p"
  shows "normalizeAndValidateArchivePath p = Inr p"
proof -
  have segs: "\<forall>s \<in> set (split_on (CHR ''/'') p). s \<noteq> [] \<and> s \<noteq> ''.'' \<and> s \<noteq> ''..''"
    and chars: "\<forall>c \<in> set p. \<not> isControl c \<and> c \<noteq> CHR 0x5C" using safe by (auto simp: safePath_def list_all_iff)
  have "map (\<lambda>c. if c = CHR 0x5C then CHR ''/'' else c) p = p" by (rule map_idI) (use chars in simp)
  moreover have "dropWhile (\<lambda>c. c = CHR ''/'') p = p"
  proof (cases p)
    case (Cons c cs)
    then have "c \<noteq> CHR ''/''" using bspec[OF segs, of "[]"] by auto
    then show ?thesis by (simp add: Cons)
  qed simp
  moreover have "dropDotSlash p = p"
  proof (cases p rule: dropDotSlash.cases)
    case (1 a b s)
    then have "\<not> (a = CHR ''.'' \<and> b = CHR ''/'')" using bspec[OF segs, of "''.''"] by auto
    then show ?thesis unfolding 1 by (simp only: dropDotSlash.simps if_False)
  qed simp_all
  ultimately have norm:
    "js_trim (dropDotSlash (dropWhile (\<lambda>c. c = CHR ''/'') (map (\<lambda>c. if c = CHR 0x5C then CHR ''/'' else c) p))) = p"
    using trim by argo
  have filter: "filter (\<lambda>s. s \<noteq> []) (split_on (CHR ''/'') p) = split_on (CHR ''/'') p" using segs by (simp add: filter_id_conv)
  have "\<not> list_ex isControl p" "\<not> list_ex (\<lambda>s. s = ''..'' \<or> s = ''.'') (split_on (CHR ''/'') p)"
    using segs chars by (auto simp: list_ex_iff)
  then show ?thesis
    unfolding normalizeAndValidateArchivePath_def Let_def norm filter join_split_on
    using safePath_not_Nil[OF safe] by simp
qed

section \<open>Reading what was written\<close>

lemma paddedSize_padding: "paddedSize (length d) = length d + length (padding d)"
proof -
  have "(n + 511) div 512 * 512 = (if n mod 512 = 0 then n else n + (512 - n mod 512))" for n :: nat
  proof (cases "n mod 512 = 0")
    case True
    then show ?thesis by (auto simp: mod_eq_0_iff_dvd)
  next
    case False
    define q r where "q = n div 512" and "r = n mod 512"
    have n: "n = q * 512 + r" "0 < r" "r < 512" using False by (simp_all add: q_def r_def)
    have "(q * 512 + r + 511) div 512 = q + 1" by (rule div_nat_eqI) (use n in simp_all)
    then show ?thesis using n False unfolding r_def[symmetric] by simp
  qed
  from this[of "length d"] show ?thesis by (simp add: paddedSize_def padding_def BLOCK_SIZE_def add.commute)
qed

lemma readBlocks_Nil: "readBlocks limits [] st = Inr st"
  by (subst readBlocks.simps) simp

lemma readBlocks_zeros: "readBlocks limits (replicate (BLOCK_SIZE * 2) 0) st = Inr st"
proof -
  have "readBlocks limits (replicate (512 + n) 0) st = readBlocks limits (replicate n 0) st" for n
    by (subst readBlocks.simps) (simp add: BLOCK_SIZE_def list_all_iff)
  from this[of 512] this[of 0] show ?thesis by (simp add: BLOCK_SIZE_def readBlocks_Nil)
qed

text \<open>One entry of an archive: a header that is in order, and the data it announces.\<close>

lemma readBlocks_entry:
  assumes "block h" "parseOctal (sub 148 8 h) = int (computeHeaderChecksum h)" "sub 124 12 h = octalField 12 (int (length d))"
    and "sub 156 1 h = [t]" "t \<noteq> 0" "int (length d) \<le> maxFileSize limits" "length d < 8 ^ 11"
  shows "readBlocks limits (h @ d @ padding d @ rest) st =
    (case readEntry limits h d (int (length d)) st of Inl e \<Rightarrow> Inl e | Inr st' \<Rightarrow> readBlocks limits rest st')"
proof -
  have len: "length h = 512" using assms(1) by (simp add: block_def)
  have "h ! 156 = t" using nth_sub[of 156 h] assms(4) by (simp add: len)
  then have "t \<in> set h" using nth_mem[of 156 h] by (simp add: len)
  then have nz: "\<not> list_all (\<lambda>b. b = 0) h" using assms(5) unfolding list_all_iff by blast
  have "int (length d) < 8 ^ (12 - 1)" using of_nat_less_iff[of "length d" "8 ^ 11", where 'a = int] assms(7) by simp
  then have size: "parseOctal (sub 124 12 h) = int (length d)" using octalField_roundtrip(1)[of "int (length d)" 12] assms(3) by simp
  have split: "take BLOCK_SIZE (h @ d @ padding d @ rest) = h" "drop BLOCK_SIZE (h @ d @ padding d @ rest) = d @ padding d @ rest"
    by (simp_all add: len BLOCK_SIZE_def)
  have drop: "drop (length d + length (padding d)) (d @ padding d @ rest) = rest" by simp
  have "h @ d @ padding d @ rest \<noteq> []" using len by auto
  then show ?thesis
    unfolding readBlocks.simps[of limits "h @ d @ padding d @ rest"] Let_def split size nat_int paddedSize_padding drop
    using nz assms(2,6) by (simp only: if_False not_less) simp
qed

lemma safePath_no_nul: "safePath p \<Longrightarrow> CHR 0x00 \<notin> set p"
proof -
  have "isControl (CHR 0x00)" by (simp add: isControl_def)
  then show "safePath p \<Longrightarrow> CHR 0x00 \<notin> set p" unfolding safePath_def list_all_iff by blast
qed

lemma length_utf8Bytes: "p \<noteq> [] \<Longrightarrow> utf8Bytes p \<noteq> []"
  by (cases p) (simp_all add: utf8Bytes_def utf8Char_def Let_def)

lemma typeRefused_file [simp]: "typeRefused 48 = None"
  by (simp add: typeRefused_def)

lemma nth_156: "block h \<Longrightarrow> sub 156 1 h = [t] \<Longrightarrow> h ! 156 = t"
  using nth_sub[of 156 h] by (simp add: block_def)

lemma fileChunks_concat: "concat (fileChunks now path f) =
   (if length (utf8Bytes path) > 100
    then longLinkHeader (utf8Bytes path @ [0]) @ (utf8Bytes path @ [0]) @ padding (utf8Bytes path @ [0]) else []) @
   fileHeader (utf8Bytes path) (optOr (f_mode f) 384) (optOr (f_uid f) 0) (optOr (f_gid f) 0) (length (f_data f))
     (optOr (f_mtime f) now) @ f_data f @ padding (f_data f)"
  by (simp add: fileChunks_def writeGnuLongLink_def Let_def padding_def)

text \<open>The file is stored under what the validator makes of the path that was written.\<close>

lemma readBlocks_file:
  assumes path: "safePath path" and pending: "rd_pendingLongName st = None"
    and data: "int (length (f_data f)) \<le> maxFileSize limits" "length (f_data f) < 8 ^ 11"
    and long: "length (utf8Bytes path) > 100 \<Longrightarrow> int (length (utf8Bytes path)) < maxFileSize limits \<and> length (utf8Bytes path) + 1 < 8 ^ 11"
  shows "readBlocks limits (concat (fileChunks now path f) @ rest) st =
    (case andThen (normalizeAndValidateArchivePath path) (\<lambda>q. storeEntry limits
        (fileHeader (utf8Bytes path) (optOr (f_mode f) 384) (optOr (f_uid f) 0) (optOr (f_gid f) 0) (length (f_data f))
          (optOr (f_mtime f) now)) (f_data f) (int (length (f_data f))) q st)
      of Inl e \<Rightarrow> Inl e | Inr st' \<Rightarrow> readBlocks limits rest st')"
proof -
  define h where "h = fileHeader (utf8Bytes path) (optOr (f_mode f) 384) (optOr (f_uid f) 0) (optOr (f_gid f) 0) (length (f_data f))
     (optOr (f_mtime f) now)"
  note fields = fileHeader_fields[of "utf8Bytes path" "optOr (f_mode f) 384" "optOr (f_uid f) 0" "optOr (f_gid f) 0"
      "length (f_data f)" "optOr (f_mtime f) now", folded h_def]
  have t: "h ! 156 = 48" using fields(1,10) by (rule nth_156)
  note step = readBlocks_entry[OF fields(1,2,8,10) _ data, simplified]
  have read: "readBlocks limits (h @ f_data f @ padding (f_data f) @ rest) st' =
      (case andThen (normalizeAndValidateArchivePath path) (\<lambda>q. storeEntry limits h (f_data f) (int (length (f_data f))) q st)
       of Inl e \<Rightarrow> Inl e | Inr st' \<Rightarrow> readBlocks limits rest st')"
    if "rawName h (rd_pendingLongName st') = Inr path" "st'\<lparr>rd_pendingLongName := None\<rparr> = st" for st'
    using that by (simp add: step readEntry_def Let_def t)
  have nul: "CHR 0x00 \<notin> set path" using path by (rule safePath_no_nul)
  show ?thesis
  proof (cases "length (utf8Bytes path) > 100")
    case False
    have "decodeName (sub 345 155 h) = Inr []" unfolding fields(4) using decodeName_zeros[of "[]" 155] by (simp add: utf8Bytes_def)
    moreover have "decodeName (sub 0 100 h) = Inr path"
      unfolding fields(3) using decodeName_zeros[OF nul, of "100 - length (utf8Bytes path)"] False by simp
    ultimately have "rawName h (rd_pendingLongName st) = Inr path" by (simp add: rawName_def pending)
    moreover have "st\<lparr>rd_pendingLongName := None\<rparr> = st" using pending by (cases st) simp
    ultimately show ?thesis using read[of st] False unfolding fileChunks_concat h_def[symmetric] by simp
  next
    case True
    let ?d = "utf8Bytes path @ [0]" and ?st = "st\<lparr>rd_pendingLongName := Some path\<rparr>"
    note link = longLinkHeader_fields[of ?d]
    have l: "longLinkHeader ?d ! 156 = 76" using link(1,4) by (rule nth_156)
    have "decodeName ?d = Inr path" using decodeName_zeros[OF nul, of 1] by simp
    then have "readEntry limits (longLinkHeader ?d) ?d (int (length ?d)) st = Inr ?st" by (simp add: readEntry_def Let_def l)
    moreover have "int (length ?d) \<le> maxFileSize limits" "length ?d < 8 ^ 11" using long[OF True] by simp_all
    ultimately have "readBlocks limits (longLinkHeader ?d @ ?d @ padding ?d @ r) st = readBlocks limits r ?st" for r
      using readBlocks_entry[OF link(1,2,3,4), of limits r st] by simp
    moreover have "rawName h (rd_pendingLongName ?st) = Inr path" using safePath_not_Nil[OF path] by (simp add: rawName_def truthy_def)
    moreover have "?st\<lparr>rd_pendingLongName := None\<rparr> = st" using pending by (cases st) simp
    ultimately show ?thesis using read[of ?st] True unfolding fileChunks_concat h_def[symmetric] by simp
  qed
qed

section \<open>The round trip\<close>

definition archivePath :: "tarFilePayload \<Rightarrow> string" where
  "archivePath f = (case normalizeAndValidateArchivePath (f_path f) of Inr p \<Rightarrow> p | Inl _ \<Rightarrow> [])"

text \<open>What the reader should find for a file.\<close>

definition entryOf :: "int \<Rightarrow> tarFilePayload \<Rightarrow> extractedTarEntry" where
  "entryOf now f = \<lparr>x_path = archivePath f, x_data = f_data f, x_mode = optOr (f_mode f) 384 mod 4096,
     x_uid = optOr (f_uid f) 0, x_gid = optOr (f_gid f) 0, x_mtime = optOr (f_mtime f) now, x_size = int (length (f_data f))\<rparr>"

text \<open>The numbers fit their fields, the path begins and ends without white space, and a long path
  passes for an entry of its own.\<close>

definition fits :: "int \<Rightarrow> backupLimits \<Rightarrow> tarFilePayload \<Rightarrow> bool" where
  "fits now limits f \<longleftrightarrow>
     optOr (f_uid f) 0 \<in> {0..<8 ^ 7} \<and> optOr (f_gid f) 0 \<in> {0..<8 ^ 7} \<and> optOr (f_mtime f) now \<in> {0..<8 ^ 11} \<and>
     js_trim (archivePath f) = archivePath f \<and>
     (length (utf8Bytes (archivePath f)) > 100 \<longrightarrow> int (length (utf8Bytes (archivePath f))) < maxFileSize limits)"

fun addFiles :: "int \<Rightarrow> tarFilePayload list \<Rightarrow> (tarWriter, tarError, unit) op" where
  "addFiles now [] w = (Inr (), w)"
| "addFiles now (f # fs) w = seq (addFile now f) (\<lambda>_. addFiles now fs) w"

text \<open>The reader's state follows the writer's.\<close>

definition mirrors :: "tarWriter \<Rightarrow> readerState \<Rightarrow> bool" where
  "mirrors w st \<longleftrightarrow> tw_seen w = rd_seen st \<and> tw_seenLower w = rd_seenLower st \<and> tw_totalBytes w = rd_totalBytes st \<and>
     tw_fileCount w = length (rd_entries st) \<and> rd_pendingLongName st = None"

lemma addFile_Inr:
  assumes "addFile now f w = (Inr (), w')"
  shows "normalizeAndValidateArchivePath (f_path f) = Inr (archivePath f)" "safePath (archivePath f)"
    "archivePath f \<notin> set (tw_seen w)" "lowerCasePath (archivePath f) \<notin> set (tw_seenLower w)"
    "tw_fileCount w + 1 \<le> maxFileCount (tw_limits w)" "int (length (f_data f)) \<le> maxFileSize (tw_limits w)"
    "tw_totalBytes w + int (length (f_data f)) \<le> maxTotalSize (tw_limits w)"
    "w' = w\<lparr>tw_seen := archivePath f # tw_seen w, tw_seenLower := lowerCasePath (archivePath f) # tw_seenLower w,
       tw_fileCount := tw_fileCount w + 1, tw_totalBytes := tw_totalBytes w + int (length (f_data f)),
       tw_chunks := tw_chunks w @ fileChunks now (archivePath f) f\<rparr>"
proof -
  obtain path where path: "normalizeAndValidateArchivePath (f_path f) = Inr path"
    using assms by (cases "normalizeAndValidateArchivePath (f_path f)") (simp_all add: addFile_def)
  then have [simp]: "archivePath f = path" by (simp add: archivePath_def)
  show "normalizeAndValidateArchivePath (f_path f) = Inr (archivePath f)" "safePath (archivePath f)"
    using path normalize_safe[OF path] by simp_all
  show "archivePath f \<notin> set (tw_seen w)" "lowerCasePath (archivePath f) \<notin> set (tw_seenLower w)"
    "tw_fileCount w + 1 \<le> maxFileCount (tw_limits w)" "int (length (f_data f)) \<le> maxFileSize (tw_limits w)"
    "tw_totalBytes w + int (length (f_data f)) \<le> maxTotalSize (tw_limits w)"
    "w' = w\<lparr>tw_seen := archivePath f # tw_seen w, tw_seenLower := lowerCasePath (archivePath f) # tw_seenLower w,
       tw_fileCount := tw_fileCount w + 1, tw_totalBytes := tw_totalBytes w + int (length (f_data f)),
       tw_chunks := tw_chunks w @ fileChunks now (archivePath f) f\<rparr>"
    using assms by (simp_all add: addFile_def path Let_def split: if_splits)
qed

lemma addFile_read:
  assumes add: "addFile now f w = (Inr (), w')" and fits: "fits now (tw_limits w) f"
    and small: "maxFileSize (tw_limits w) < 8 ^ 11" and mirror: "mirrors w st"
  obtains st' where "mirrors w' st'" "rd_entries st' = rd_entries st @ [entryOf now f]" "tw_limits w' = tw_limits w"
    "\<And>rest. readBlocks (tw_limits w) (concat (fileChunks now (archivePath f) f) @ rest) st = readBlocks (tw_limits w) rest st'"
proof -
  note a = addFile_Inr[OF add]
  let ?p = "archivePath f"
  define h where "h = fileHeader (utf8Bytes ?p) (optOr (f_mode f) 384) (optOr (f_uid f) 0) (optOr (f_gid f) 0)
    (length (f_data f)) (optOr (f_mtime f) now)"
  note fields = fileHeader_fields[of "utf8Bytes ?p" "optOr (f_mode f) 384" "optOr (f_uid f) 0" "optOr (f_gid f) 0"
      "length (f_data f)" "optOr (f_mtime f) now", folded h_def]
  have f: "optOr (f_uid f) 0 \<in> {0..<8 ^ 7}" "optOr (f_gid f) 0 \<in> {0..<8 ^ 7}" "optOr (f_mtime f) now \<in> {0..<8 ^ 11}" "js_trim ?p = ?p"
    using fits by (simp_all add: fits_def)
  have nums: "parseOctal (sub 100 8 h) = optOr (f_mode f) 384 mod 4096" "parseOctal (sub 108 8 h) = optOr (f_uid f) 0"
    "parseOctal (sub 116 8 h) = optOr (f_gid f) 0" "parseOctal (sub 136 12 h) = optOr (f_mtime f) now"
    unfolding fields using f octalField_roundtrip(1)[of "optOr (f_mode f) 384 mod 4096" 8]
    by (auto intro!: octalField_roundtrip(1))
  define st' where "st' = st\<lparr>rd_entries := rd_entries st @ [entryOf now f], rd_seen := ?p # rd_seen st,
    rd_seenLower := lowerCasePath ?p # rd_seenLower st, rd_totalBytes := rd_totalBytes st + int (length (f_data f))\<rparr>"
  have store: "storeEntry (tw_limits w) h (f_data f) (int (length (f_data f))) ?p st = Inr st'"
    using a(3,4,5,7) mirror by (simp add: storeEntry_def Let_def mirrors_def nums st'_def entryOf_def)
  have small_int: "n < 8 ^ 11" if "int n \<le> maxFileSize (tw_limits w)" for n
    using that small of_nat_less_iff[of n "8 ^ 11", where 'a = int] by simp
  have long: "int (length (utf8Bytes ?p)) < maxFileSize (tw_limits w) \<and> length (utf8Bytes ?p) + 1 < 8 ^ 11"
    if "length (utf8Bytes ?p) > 100"
    using fits that small_int[of "length (utf8Bytes ?p) + 1"] by (simp add: fits_def)
  have "rd_pendingLongName st = None" using mirror by (simp add: mirrors_def)
  from readBlocks_file[OF a(2) this a(6) small_int[OF a(6)] long]
  have "readBlocks (tw_limits w) (concat (fileChunks now ?p f) @ rest) st = readBlocks (tw_limits w) rest st'" for rest
    by (simp add: normalize_id[OF a(2) f(4)] store[unfolded h_def])
  moreover have "mirrors w' st'" using mirror by (simp add: a(8) mirrors_def st'_def)
  ultimately show thesis by (rule that[rotated 3]) (simp_all add: st'_def a(8))
qed

lemma entry_blocks: "block h \<Longrightarrow> 512 dvd length (h @ d @ padding d)"
proof -
  have "512 dvd paddedSize (length d)" by (simp add: paddedSize_def BLOCK_SIZE_def)
  then show "block h \<Longrightarrow> 512 dvd length (h @ d @ padding d)" by (simp add: block_def paddedSize_padding)
qed

lemma fileChunks_blocks: "512 dvd length (concat (fileChunks now path f))"
proof -
  have "512 dvd length a \<Longrightarrow> 512 dvd length b \<Longrightarrow> 512 dvd length ((if c then a else []) @ b)" for a b :: "byte list" and c
    by (cases c) (simp_all add: dvd_add)
  then show ?thesis
    unfolding fileChunks_concat using entry_blocks[OF longLinkHeader_fields(1)] entry_blocks[OF fileHeader_fields(1)] by blast
qed

lemma addFiles_read:
  assumes "addFiles now files w = (Inr (), w')" "list_all (fits now (tw_limits w)) files"
    and "maxFileSize (tw_limits w) < 8 ^ 11" "mirrors w st"
  obtains st' chunks where "rd_entries st' = rd_entries st @ map (entryOf now) files" "tw_chunks w' = tw_chunks w @ chunks"
    "512 dvd length (concat chunks)"
    "\<And>rest. readBlocks (tw_limits w) (concat chunks @ rest) st = readBlocks (tw_limits w) rest st'"
  using assms
proof (induction files arbitrary: w st thesis)
  case Nil
  show ?case by (rule Nil(1)[of st "[]"]) (use Nil in simp_all)
next
  case (Cons f fs)
  obtain w1 where add: "addFile now f w = (Inr (), w1)" and rest: "addFiles now fs w1 = (Inr (), w')"
    using Cons.prems(2) by (auto simp: seq_Inr_iff)
  have f: "fits now (tw_limits w) f" "list_all (fits now (tw_limits w)) fs" using Cons.prems(3) by simp_all
  obtain st1 where st1: "mirrors w1 st1" "rd_entries st1 = rd_entries st @ [entryOf now f]" "tw_limits w1 = tw_limits w"
    "\<And>rest. readBlocks (tw_limits w) (concat (fileChunks now (archivePath f) f) @ rest) st = readBlocks (tw_limits w) rest st1"
    using addFile_read[OF add f(1) Cons.prems(4,5)] by metis
  show ?case
  proof (rule Cons.IH[OF _ rest, of st1])
    fix st' chunks
    assume "rd_entries st' = rd_entries st1 @ map (entryOf now) fs" "tw_chunks w' = tw_chunks w1 @ chunks"
      and "512 dvd length (concat chunks)" "\<And>rest. readBlocks (tw_limits w1) (concat chunks @ rest) st1 = readBlocks (tw_limits w1) rest st'"
    then show thesis
      by (intro Cons.prems(1)[of st' "fileChunks now (archivePath f) f @ chunks"]) (use fileChunks_blocks[of now "archivePath f" f] in \<open>simp_all add: st1 addFile_Inr(8)[OF add] dvd_add\<close>)
  qed (use f(2) Cons.prems(4) st1 in simp_all)
qed

lemma read_back:
  assumes add: "addFiles now files (newTarWriter limits) = (Inr (), w)" and "files \<noteq> []"
    and fits: "list_all (fits now limits) files" and small: "maxFileSize limits < 8 ^ 11"
  shows "readAllEntries limits (finalize w) = Inr (map (entryOf now) files)"
proof -
  have "mirrors (newTarWriter limits) newReader" by (simp add: mirrors_def newTarWriter_def newReader_def)
  moreover have limits: "tw_limits (newTarWriter limits) = limits" "tw_chunks (newTarWriter limits) = []" by (simp_all add: newTarWriter_def)
  ultimately obtain st chunks where st: "rd_entries st = rd_entries newReader @ map (entryOf now) files"
    "tw_chunks w = chunks" "512 dvd length (concat chunks)"
    "\<And>rest. readBlocks limits (concat chunks @ rest) newReader = readBlocks limits rest st"
    using addFiles_read[OF add, of newReader] fits small by (metis append_Nil)
  have "readBlocks limits (finalize w) newReader = Inr st"
    using st(4)[of "replicate (BLOCK_SIZE * 2) 0"] by (simp add: finalize_def st(2) readBlocks_zeros)
  moreover have "length (finalize w) mod BLOCK_SIZE = 0" "finalize w \<noteq> []"
    using st(3) by (auto simp: finalize_def st(2) BLOCK_SIZE_def mod_eq_0_iff_dvd intro!: dvd_add)
  ultimately show ?thesis using st(1) \<open>files \<noteq> []\<close> by (simp add: readAllEntries_def newReader_def)
qed

text \<open>
  C7. What a backup packs it unpacks: when the writer has accepted a list of files, the reader finds
  exactly these files in the finished archive, in order, with their paths, contents, modes, owners
  and times. The numbers must fit the octal fields and the paths must not begin or end with white
  space once normalised; long paths go through an entry of their own.
\<close>

theorem tar_roundtrip:
  assumes add: "addFiles now files (newTarWriter limits) = (Inr (), w)" and "files \<noteq> []"
    and fits: "list_all (fits now limits) files" and small: "maxFileSize limits < 8 ^ 11"
  shows "readAllEntries limits (finalize w) = Inr (map (entryOf now) files)"
  using assms by (rule read_back)

definition sampleFile :: "string \<Rightarrow> tarFilePayload" where
  "sampleFile p = \<lparr>f_path = p, f_data = [1, 2, 3], f_mode = Some 420, f_mtime = None, f_uid = None, f_gid = None\<rparr>"

lemma normalize_sample: "normalizeAndValidateArchivePath ''./a/b'' = Inr ''a/b''"
  "normalizeAndValidateArchivePath ''a'' = Inr ''a''" "normalizeAndValidateArchivePath ''a /'' = Inr ''a ''"
  "normalizeAndValidateArchivePath ''a '' = Inr ''a''"
  by code_simp+

lemma add_sample:
  assumes "normalizeAndValidateArchivePath p = Inr q" "q \<notin> set (tw_seen w)" "lowerCasePath q \<notin> set (tw_seenLower w)"
    and "tw_fileCount w < 10" "tw_totalBytes w < 10" "tw_limits w = DEFAULT_LIMITS"
  shows "addFile now (sampleFile p) w = (Inr (), w\<lparr>tw_seen := q # tw_seen w, tw_seenLower := lowerCasePath q # tw_seenLower w,
    tw_fileCount := tw_fileCount w + 1, tw_totalBytes := tw_totalBytes w + 3,
    tw_chunks := tw_chunks w @ fileChunks now q (sampleFile p)\<rparr>)"
  using assms by (simp add: addFile_def sampleFile_def DEFAULT_LIMITS_def Let_def)

definition sampleEntry :: extractedTarEntry where
  "sampleEntry = \<lparr>x_path = ''a/b'', x_data = [1, 2, 3], x_mode = 420, x_uid = 0, x_gid = 0, x_mtime = 7, x_size = 3\<rparr>"

lemma sample_written:
  "addFiles 7 [sampleFile ''./a/b''] (newTarWriter DEFAULT_LIMITS) =
     (Inr (), snd (addFile 7 (sampleFile ''./a/b'') (newTarWriter DEFAULT_LIMITS)))"
  by (simp add: seq_def add_sample[OF normalize_sample(1)] newTarWriter_def)

lemma sample_facts:
  "list_all (fits 7 DEFAULT_LIMITS) [sampleFile ''./a/b'']" "maxFileSize DEFAULT_LIMITS < 8 ^ 11"
  "map (entryOf 7) [sampleFile ''./a/b''] = [sampleEntry]"
proof -
  have path: "archivePath (sampleFile ''./a/b'') = ''a/b''" by (simp add: archivePath_def sampleFile_def normalize_sample)
  have "js_trim ''a/b'' = ''a/b''" "\<not> length (utf8Bytes ''a/b'') > 100" by code_simp+
  then show "list_all (fits 7 DEFAULT_LIMITS) [sampleFile ''./a/b'']"
    by (simp add: fits_def path) (simp add: sampleFile_def optOr_def)
  show "map (entryOf 7) [sampleFile ''./a/b''] = [sampleEntry]"
    unfolding entryOf_def sampleEntry_def using path by (simp add: sampleFile_def optOr_def)
qed (simp add: DEFAULT_LIMITS_def)

theorem tar_roundtrip_witness:
  "\<exists>w. addFiles 7 [sampleFile ''./a/b''] (newTarWriter DEFAULT_LIMITS) = (Inr (), w) \<and>
     readAllEntries DEFAULT_LIMITS (finalize w) = Inr [sampleEntry]"
  using tar_roundtrip[OF sample_written _ sample_facts(1,2)] sample_written sample_facts(3) by auto

section \<open>What the reader accepts\<close>

definition entriesOk :: "backupLimits \<Rightarrow> extractedTarEntry list \<Rightarrow> bool" where
  "entriesOk limits xs \<longleftrightarrow>
     list_all (\<lambda>x. safePath (x_path x) \<and> x_size x = int (length (x_data x)) \<and> x_size x \<le> maxFileSize limits) xs \<and>
     distinct (map (\<lambda>x. lowerCasePath (x_path x)) xs) \<and> length xs \<le> maxFileCount limits"

definition readerOk :: "backupLimits \<Rightarrow> readerState \<Rightarrow> bool" where
  "readerOk limits st \<longleftrightarrow> entriesOk limits (rd_entries st) \<and>
     set (rd_seenLower st) = set (map (\<lambda>x. lowerCasePath (x_path x)) (rd_entries st)) \<and>
     rd_totalBytes st = sum_list (map x_size (rd_entries st)) \<and>
     (rd_entries st \<noteq> [] \<longrightarrow> rd_totalBytes st \<le> maxTotalSize limits)"

lemma storeEntry_ok:
  assumes "storeEntry limits h d n path st = Inr st'" "readerOk limits st" "safePath path" "n = int (length d)" "n \<le> maxFileSize limits"
  shows "readerOk limits st'"
  using assms by (auto simp: storeEntry_def Let_def readerOk_def entriesOk_def split: if_splits)

lemma readEntry_ok:
  assumes "readEntry limits h d n st = Inr st'" "readerOk limits st" "n = int (length d)" "n \<le> maxFileSize limits"
  shows "readerOk limits st'"
proof -
  have pending: "readerOk limits (st\<lparr>rd_pendingLongName := x\<rparr>)" for x
    using assms(2) by (cases st) (simp add: readerOk_def)
  show ?thesis
    using assms(1) storeEntry_ok[OF _ pending _ assms(3,4)] normalize_safe pending
    by (auto simp: readEntry_def Let_def andThen_Inr_iff split: if_splits option.splits)
qed

lemma readBlocks_ok: "readBlocks limits buf st = Inr st' \<Longrightarrow> readerOk limits st \<Longrightarrow> readerOk limits st'"
proof (induction limits buf st rule: readBlocks.induct)
  case (1 limits buf st)
  let ?h = "take BLOCK_SIZE buf" and ?rest = "drop BLOCK_SIZE buf"
  let ?n = "parseOctal (sub 124 12 ?h)"
  note eq = 1(3)[unfolded readBlocks.simps[of limits buf] Let_def]
  consider "buf = []" "st' = st"
    | "buf \<noteq> []" "list_all (\<lambda>b. b = 0) ?h" "readBlocks limits ?rest st = Inr st'"
    | st1 where "buf \<noteq> []" "\<not> list_all (\<lambda>b. b = 0) ?h" "parseOctal (sub 148 8 ?h) = int (computeHeaderChecksum ?h)"
        "\<not> ?n < 0" "\<not> ?n > maxFileSize limits" "\<not> paddedSize (nat ?n) > length ?rest"
        "readEntry limits ?h (take (nat ?n) ?rest) ?n st = Inr st1"
        "readBlocks limits (drop (paddedSize (nat ?n)) ?rest) st1 = Inr st'"
    using eq by (auto split: if_splits sum.splits)
  then show ?case
  proof cases
    case 1
    then show ?thesis using \<open>readerOk limits st\<close> by simp
  next
    case 2
    then show ?thesis using "1.IH"(1) \<open>readerOk limits st\<close> by simp
  next
    case 3
    have "nat ?n \<le> paddedSize (nat ?n)" by (simp add: paddedSize_def BLOCK_SIZE_def)
    then have "?n = int (length (take (nat ?n) ?rest))" using 3(4,6) by simp
    from readEntry_ok[OF 3(7) \<open>readerOk limits st\<close> this] 3(5) have "readerOk limits st1" by simp
    then show ?thesis using "1.IH"(2)[OF 3(1) refl refl refl 3(2) _ 3(4,5,6)] 3(3,7,8) by simp
  qed
qed

text \<open>
  C37. An archive the reader accepts is safe to unpack. Every path stays below the target directory
  (relative, no empty segments, no \<open>.\<close> or \<open>..\<close>, no control characters or backslashes), no two paths
  are equal even when case is ignored, every entry has the announced size, and the number of files,
  each size and the total are within the limits.
\<close>

theorem tar_entries_safe:
  assumes "readAllEntries limits buf = Inr entries"
  shows "entriesOk limits entries \<and> sum_list (map x_size entries) \<le> maxTotalSize limits \<and> entries \<noteq> []"
proof -
  obtain st where st: "readBlocks limits buf newReader = Inr st" "rd_entries st = entries" "entries \<noteq> []"
    using assms by (auto simp: readAllEntries_def andThen_Inr_iff split: if_splits)
  have "readerOk limits newReader" by (simp add: readerOk_def entriesOk_def newReader_def)
  from readBlocks_ok[OF st(1) this] st(2,3) show ?thesis by (auto simp: readerOk_def)
qed

theorem tar_entries_safe_witness:
  "\<exists>w entries. addFiles 7 [sampleFile ''./a/b''] (newTarWriter DEFAULT_LIMITS) = (Inr (), w) \<and>
     readAllEntries DEFAULT_LIMITS (finalize w) = Inr entries \<and> entriesOk DEFAULT_LIMITS entries \<and> map x_path entries = [''a/b'']"
proof -
  obtain w where w: "addFiles 7 [sampleFile ''./a/b''] (newTarWriter DEFAULT_LIMITS) = (Inr (), w)"
    "readAllEntries DEFAULT_LIMITS (finalize w) = Inr [sampleEntry]"
    using read_back[OF sample_written _ sample_facts(1,2)] sample_written sample_facts(3) by auto
  from w tar_entries_safe[OF w(2)] show ?thesis by (auto simp: sampleEntry_def)
qed

section \<open>Damaged headers\<close>

lemma sum_list_change:
  assumes "distinct xs" "i \<in> set xs" "\<And>x. x \<in> set xs \<Longrightarrow> x \<noteq> i \<Longrightarrow> f x = g x" "f i \<noteq> (g i :: nat)"
  shows "sum_list (map f xs) \<noteq> sum_list (map g xs)"
proof -
  obtain ys zs where xs: "xs = ys @ i # zs" using assms(2) split_list by fast
  have "map f ys = map g ys" "map f zs = map g zs" using assms(1,3) by (auto simp: xs)
  then have "sum_list (map f ys) = sum_list (map g ys)" "sum_list (map f zs) = sum_list (map g zs)" by (simp_all only:)
  then show ?thesis using assms(4) unfolding xs by simp
qed

lemma checksum_change:
  assumes "block h" "i < 512" "i < 148 \<or> 156 \<le> i" "b \<noteq> h ! i"
  shows "computeHeaderChecksum (h[i := b]) \<noteq> computeHeaderChecksum h"
  unfolding computeHeaderChecksum_def BLOCK_SIZE_def
proof (rule sum_list_change[where i = i])
  show "(if 148 \<le> i \<and> i < 156 then 32 else unat (h[i := b] ! i)) \<noteq> (if 148 \<le> i \<and> i < 156 then 32 else unat (h ! i))"
    using assms unsigned_word_eqI[of b "h ! i"] by (auto simp: block_def)
qed (use assms in auto)

text \<open>
  A damaged header does not go unnoticed: when one byte of a header that was in order is changed
  to any other value, outside the checksum field itself, reading the archive at that block fails
  with a checksum mismatch, unless the block has become all zeros.
\<close>

theorem tar_header_damage:
  assumes h: "block h" "parseOctal (sub 148 8 h) = int (computeHeaderChecksum h)"
    and i: "i < 512" "i < 148 \<or> 156 \<le> i" "b \<noteq> h ! i" and nz: "\<not> list_all (\<lambda>x. x = 0) (h[i := b])"
  shows "readBlocks limits (h[i := b] @ rest) st = Inl (BackupArchiveError ''Corrupted backup archive header: Checksum mismatch'')"
proof -
  have "sub 148 8 (h[i := b]) = sub 148 8 h"
    using i(2) by (auto simp: sub_def drop_update_swap take_update_swap list_update_beyond)
  then have "parseOctal (sub 148 8 (h[i := b])) \<noteq> int (computeHeaderChecksum (h[i := b]))"
    using checksum_change[OF h(1) i] h(2) by simp
  moreover have "take BLOCK_SIZE (h[i := b] @ rest) = h[i := b]" "h[i := b] @ rest \<noteq> []" using h(1) by (auto simp: block_def BLOCK_SIZE_def)
  ultimately show ?thesis using nz by (subst readBlocks.simps) (simp add: Let_def)
qed

theorem tar_header_damage_witness:
  "let h = longLinkHeader [1] in
   readBlocks DEFAULT_LIMITS (h[156 := 48] @ [1] @ padding [1]) newReader =
     Inl (BackupArchiveError ''Corrupted backup archive header: Checksum mismatch'')"
proof -
  note link = longLinkHeader_fields[of "[1]"]
  have t: "longLinkHeader [1] ! 156 = 76" using link(1,4) by (rule nth_156)
  have "length (longLinkHeader [1]) = 512" using link(1) by (simp add: block_def)
  then have "48 \<in> set ((longLinkHeader [1])[156 := 48])" by (simp add: set_update_memI)
  then have "\<not> list_all (\<lambda>x. x = 0) ((longLinkHeader [1])[156 := 48])" unfolding list_all_iff by fastforce
  then show ?thesis unfolding Let_def by (intro tar_header_damage[OF link(1,2)]) (use t in simp_all)
qed

section \<open>Archives that cannot be read\<close>

text \<open>
  Normalising a path is not idempotent: white space is trimmed before the empty segments are
  dropped. So the writer accepts the paths \<open>a\<close> and \<open>a /\<close> as different files, stores the second under
  a name with a blank at its end, and the reader, which trims that name, rejects the finished
  backup as having a duplicate entry.
\<close>

theorem tar_unreadable_backup:
  "\<exists>w. addFiles now [sampleFile ''a'', sampleFile ''a /''] (newTarWriter DEFAULT_LIMITS) = (Inr (), w) \<and>
     readAllEntries DEFAULT_LIMITS (finalize w) = Inl (BackupArchiveError ''Duplicate entry detected in backup archive'')"
proof -
  have lower: "lowerCasePath ''a '' \<noteq> lowerCasePath ''a''" by (simp add: lowerCasePath_def toLowerCase_def)
  define w where "w = snd (addFiles now [sampleFile ''a'', sampleFile ''a /''] (newTarWriter DEFAULT_LIMITS))"
  have add: "addFiles now [sampleFile ''a'', sampleFile ''a /''] (newTarWriter DEFAULT_LIMITS) = (Inr (), w)"
    and chunks: "tw_chunks w = fileChunks now ''a'' (sampleFile ''a'') @ fileChunks now ''a '' (sampleFile ''a /'')"
    unfolding w_def using lower
    by (simp_all add: seq_def add_sample[OF normalize_sample(2)] add_sample[OF normalize_sample(3)] newTarWriter_def)
  have safe: "safePath ''a''" "safePath ''a ''" using normalize_safe[OF normalize_sample(2)] normalize_safe[OF normalize_sample(3)] .
  have short: "\<not> length (utf8Bytes ''a'') > 100" "\<not> length (utf8Bytes ''a '') > 100" by (simp_all add: utf8Bytes_def utf8Char_def Let_def)
  have data: "int (length (f_data (sampleFile p))) \<le> maxFileSize DEFAULT_LIMITS" "length (f_data (sampleFile p)) < 8 ^ 11" for p
    by (simp_all add: sampleFile_def DEFAULT_LIMITS_def)
  obtain st where st: "rd_seen st = [''a'']" "rd_pendingLongName st = None"
    "\<And>rest. readBlocks DEFAULT_LIMITS (concat (fileChunks now ''a'' (sampleFile ''a'')) @ rest) newReader = readBlocks DEFAULT_LIMITS rest st"
  proof -
    have "\<exists>st. storeEntry DEFAULT_LIMITS h (f_data (sampleFile ''a'')) (int (length (f_data (sampleFile ''a'')))) ''a'' newReader = Inr st \<and>
        rd_seen st = [''a''] \<and> rd_pendingLongName st = None" for h
      by (simp add: storeEntry_def newReader_def Let_def DEFAULT_LIMITS_def sampleFile_def)
    then obtain st where "storeEntry DEFAULT_LIMITS (fileHeader (utf8Bytes ''a'') (optOr (f_mode (sampleFile ''a'')) 384)
        (optOr (f_uid (sampleFile ''a'')) 0) (optOr (f_gid (sampleFile ''a'')) 0) (length (f_data (sampleFile ''a'')))
        (optOr (f_mtime (sampleFile ''a'')) now)) (f_data (sampleFile ''a'')) (int (length (f_data (sampleFile ''a'')))) ''a'' newReader = Inr st"
      "rd_seen st = [''a'']" "rd_pendingLongName st = None" by metis
    moreover have "rd_pendingLongName newReader = None" by (simp add: newReader_def)
    ultimately show thesis
      using readBlocks_file[OF safe(1) _ data, of newReader] short(1) by (intro that[of st]) (simp_all add: normalize_sample)
  qed
  have "readBlocks DEFAULT_LIMITS (concat (fileChunks now ''a '' (sampleFile ''a /'')) @ rest) st =
      Inl (BackupArchiveError ''Duplicate entry detected in backup archive'')" for rest
    using readBlocks_file[OF safe(2) st(2) data] short(2) by (simp add: normalize_sample storeEntry_def st(1))
  then have "readBlocks DEFAULT_LIMITS (finalize w) newReader = Inl (BackupArchiveError ''Duplicate entry detected in backup archive'')"
    by (simp add: finalize_def chunks st(3))
  moreover have "512 dvd length (finalize w)" "finalize w \<noteq> []"
    using fileChunks_blocks by (auto simp: finalize_def chunks BLOCK_SIZE_def intro!: dvd_add)
  ultimately show ?thesis using add by (auto simp: readAllEntries_def BLOCK_SIZE_def)
qed

end
