(* ===== verification/Tool_Naming.thy ===== *)
theory Tool_Naming
  imports Prelude
begin

text \<open>
  The public names of MCP tools (\<open>platform-service-mcp/src/naming.ts\<close>): a name is
  \<open>mcp__<slug>__<tool>\<close>, built from the key of a contribution and the name its server gives the
  tool, and taken apart again to find the server a call is for.
\<close>

section \<open>Names\<close>

abbreviation (input) underscore :: char where
  "underscore \<equiv> CHR ''_''"

definition slugChar :: "char \<Rightarrow> bool" where
  "slugChar c \<longleftrightarrow> is_alnum c \<or> c = underscore \<or> c = CHR ''-''"

definition toolChar :: "char \<Rightarrow> bool" where
  "toolChar c \<longleftrightarrow> slugChar c \<or> c = CHR ''.''"

definition ALLOWED_SLUG_PATTERN :: "string \<Rightarrow> bool" where
  "ALLOWED_SLUG_PATTERN s \<longleftrightarrow> s \<noteq> [] \<and> list_all slugChar s"

definition ALLOWED_RAW_TOOL_PATTERN :: "string \<Rightarrow> bool" where
  "ALLOWED_RAW_TOOL_PATTERN s \<longleftrightarrow> s \<noteq> [] \<and> list_all toolChar s"

text \<open>\<open>replace(/_{2,}/g, '_')\<close>: every run of underscores becomes one.\<close>

fun collapseUnderscores :: "string \<Rightarrow> string" where
  "collapseUnderscores (a # b # s) =
     (if a = underscore \<and> b = underscore then collapseUnderscores (b # s) else a # collapseUnderscores (b # s))"
| "collapseUnderscores s = s"

text \<open>\<open>replace(/^_+|_+$/g, '')\<close>.\<close>

definition trimUnderscores :: "string \<Rightarrow> string" where
  "trimUnderscores s = rev (dropWhile (\<lambda>c. c = underscore) (rev (dropWhile (\<lambda>c. c = underscore) s)))"

definition sanitize :: "(char \<Rightarrow> bool) \<Rightarrow> string \<Rightarrow> string \<Rightarrow> string" where
  "sanitize P fallback s =
     (let trimmed = trimUnderscores (collapseUnderscores (map (\<lambda>c. if P c then c else underscore) s))
      in if trimmed = [] then fallback else trimmed)"

definition toContributionKeySlug :: "string \<Rightarrow> string" where
  "toContributionKeySlug rawKey = (if rawKey = [] then ''server'' else sanitize slugChar ''server'' rawKey)"

definition sanitizeRawToolName :: "string \<Rightarrow> string" where
  "sanitizeRawToolName rawName = (if rawName = [] then ''tool'' else sanitize toolChar ''tool'' rawName)"

definition buildCanonicalToolName :: "string \<Rightarrow> string \<Rightarrow> string" where
  "buildCanonicalToolName contributionKey rawToolName =
     ''mcp__'' @ toContributionKeySlug contributionKey @ ''__'' @ sanitizeRawToolName rawToolName"

text \<open>\<open>name.split('__')\<close>.\<close>

fun splitDouble :: "string \<Rightarrow> string list" where
  "splitDouble (a # b # s) =
     (if a = underscore \<and> b = underscore then [] # splitDouble s
      else case splitDouble (b # s) of [] \<Rightarrow> [[a]] | p # ps \<Rightarrow> (a # p) # ps)"
| "splitDouble s = [s]"

definition isValidCanonicalToolName :: "string \<Rightarrow> bool" where
  "isValidCanonicalToolName name \<longleftrightarrow> startsWith name ''mcp__'' \<and>
     (case splitDouble name of
        [pre, slug, rawToolName] \<Rightarrow> pre = ''mcp'' \<and> ALLOWED_SLUG_PATTERN slug \<and> ALLOWED_RAW_TOOL_PATTERN rawToolName
      | _ \<Rightarrow> False)"

definition parseCanonicalToolName :: "string \<Rightarrow> (string \<times> string) option" where
  "parseCanonicalToolName name =
     (if isValidCanonicalToolName name then Some (splitDouble name ! 1, splitDouble name ! 2) else None)"

section \<open>Sanitised names\<close>

text \<open>No two underscores in a row, and none at either end.\<close>

definition single :: "string \<Rightarrow> bool" where
  "single s \<longleftrightarrow> successively (\<lambda>a b. \<not> (a = underscore \<and> b = underscore)) s"

definition plain :: "string \<Rightarrow> bool" where
  "plain s \<longleftrightarrow> s \<noteq> [] \<and> single s \<and> hd s \<noteq> underscore \<and> last s \<noteq> underscore"

lemma hd_collapse: "s \<noteq> [] \<Longrightarrow> collapseUnderscores s \<noteq> [] \<and> hd (collapseUnderscores s) = hd s"
  by (induction s rule: collapseUnderscores.induct) auto

lemma set_collapse: "set (collapseUnderscores s) \<subseteq> set s"
  by (induction s rule: collapseUnderscores.induct) auto

lemma single_collapse: "single (collapseUnderscores s)"
proof (induction s rule: collapseUnderscores.induct)
  case (1 a b s)
  then show ?case using hd_collapse[of "b # s"] by (auto simp: single_def successively_Cons)
qed (simp_all add: single_def)

lemma collapse_single: "single s \<Longrightarrow> collapseUnderscores s = s"
  by (induction s rule: collapseUnderscores.induct) (auto simp: single_def)

lemma single_drop: "single s \<Longrightarrow> single (dropWhile P s)"
  unfolding single_def by (metis successively_append_iff takeWhile_dropWhile_id)

lemma single_rev: "single (rev s) \<longleftrightarrow> single s"
  unfolding single_def successively_rev by (rule successively_cong) auto

lemma trim_plain:
  assumes "single s" "trimUnderscores s \<noteq> []"
  shows "plain (trimUnderscores s)"
proof -
  let ?d = "dropWhile (\<lambda>c. c = underscore)"
  have ne: "?d (rev (?d s)) \<noteq> []" using assms(2) by (simp add: trimUnderscores_def)
  have "last (trimUnderscores s) \<noteq> underscore"
    unfolding trimUnderscores_def last_rev using hd_dropWhile[OF ne] .
  moreover have "hd (trimUnderscores s) \<noteq> underscore"
  proof -
    obtain u where "rev (?d s) = u @ ?d (rev (?d s))" by (metis takeWhile_dropWhile_id)
    then have "?d s = rev (?d (rev (?d s))) @ rev u" by (metis rev_append rev_rev_ident)
    then have "hd (?d s) = hd (trimUnderscores s)" using ne unfolding trimUnderscores_def by (metis hd_append2 rev_is_Nil_conv)
    moreover have "?d s \<noteq> []" using ne by (metis dropWhile.simps(1) rev.simps(1))
    ultimately show ?thesis using hd_dropWhile[of "\<lambda>c. c = underscore" s] by simp
  qed
  moreover have "single (trimUnderscores s)"
    unfolding trimUnderscores_def single_rev by (intro single_drop) (simp add: single_rev single_drop assms(1))
  ultimately show ?thesis using assms(2) by (simp add: plain_def)
qed

lemma trim_id: "plain s \<Longrightarrow> trimUnderscores s = s"
  by (simp add: plain_def trimUnderscores_def dropWhile_hd hd_rev)

lemma set_trim: "set (trimUnderscores s) \<subseteq> set s"
  unfolding trimUnderscores_def set_rev by (metis set_dropWhileD set_rev subsetI)

lemma sanitize_plain:
  assumes "plain fallback" "P underscore" "list_all P fallback"
  shows "plain (sanitize P fallback s)" "list_all P (sanitize P fallback s)"
proof -
  let ?m = "map (\<lambda>c. if P c then c else underscore) s"
  show "plain (sanitize P fallback s)"
    using trim_plain[OF single_collapse, of ?m] assms(1) by (simp add: sanitize_def Let_def)
  have "set (trimUnderscores (collapseUnderscores ?m)) \<subseteq> set ?m" using set_trim set_collapse by (metis subset_trans)
  moreover have "\<forall>c \<in> set ?m. P c" using assms(2) by auto
  ultimately have "list_all P (trimUnderscores (collapseUnderscores ?m))" unfolding list_all_iff by blast
  then show "list_all P (sanitize P fallback s)" using assms(3) by (simp only: sanitize_def Let_def split: if_split) blast
qed

lemma sanitize_id: "plain s \<Longrightarrow> list_all P s \<Longrightarrow> sanitize P fallback s = s"
proof -
  assume s: "plain s" "list_all P s"
  have "map (\<lambda>c. if P c then c else underscore) s = s" by (rule map_idI) (use s(2) in \<open>simp add: list_all_iff\<close>)
  then show ?thesis using s(1) trim_id[OF s(1)] collapse_single[of s] by (auto simp: sanitize_def Let_def plain_def)
qed

lemma slug_plain: "plain (toContributionKeySlug k)" "list_all slugChar (toContributionKeySlug k)"
proof -
  have f: "plain ''server''" "slugChar underscore" "list_all slugChar ''server''"
    by (simp_all add: plain_def single_def slugChar_def is_alnum_def)
  show "plain (toContributionKeySlug k)" "list_all slugChar (toContributionKeySlug k)"
    using sanitize_plain[of "''server''" slugChar, OF f] f by (simp_all add: toContributionKeySlug_def)
qed

lemma tool_plain: "plain (sanitizeRawToolName t)" "list_all toolChar (sanitizeRawToolName t)"
proof -
  have f: "plain ''tool''" "toolChar underscore" "list_all toolChar ''tool''"
    by (simp_all add: plain_def single_def toolChar_def slugChar_def is_alnum_def)
  show "plain (sanitizeRawToolName t)" "list_all toolChar (sanitizeRawToolName t)"
    using sanitize_plain[of "''tool''" toolChar, OF f] f by (simp_all add: sanitizeRawToolName_def)
qed

section \<open>Taking names apart\<close>

lemma splitDouble_not_Nil [simp]: "splitDouble s \<noteq> []"
  by (induction s rule: splitDouble.induct) (auto split: list.splits)

lemma splitDouble_single: "single s \<Longrightarrow> splitDouble s = [s]"
  by (induction s rule: splitDouble.induct) (auto simp: single_def)

lemma splitDouble_append:
  "p \<noteq> [] \<Longrightarrow> single p \<Longrightarrow> last p \<noteq> underscore \<Longrightarrow> splitDouble (p @ underscore # underscore # s) = p # splitDouble s"
  by (induction p rule: splitDouble.induct) (auto simp: single_def)

lemma build_parts:
  "splitDouble (buildCanonicalToolName k t) = [''mcp'', toContributionKeySlug k, sanitizeRawToolName t]"
proof -
  have "single ''mcp''" by (simp add: single_def)
  then show ?thesis
    using splitDouble_append[of "''mcp''" "toContributionKeySlug k @ ''__'' @ sanitizeRawToolName t"]
      splitDouble_append[of "toContributionKeySlug k" "sanitizeRawToolName t"] slug_plain[of k] tool_plain[of t]
    by (simp add: buildCanonicalToolName_def plain_def splitDouble_single)
qed

text \<open>Joining the parts again with the separator.\<close>

fun joinDouble :: "string list \<Rightarrow> string" where
  "joinDouble [] = []"
| "joinDouble [p] = p"
| "joinDouble (p # ps) = p @ ''__'' @ joinDouble ps"

lemma joinDouble_Cons: "ps \<noteq> [] \<Longrightarrow> joinDouble (p # ps) = p @ ''__'' @ joinDouble ps"
  by (cases ps) simp_all

lemma join_splitDouble: "joinDouble (splitDouble s) = s"
proof (induction s rule: splitDouble.induct)
  case (1 a b s)
  show ?case
  proof (cases "a = underscore \<and> b = underscore")
    case True
    with 1(1) show ?thesis by (simp add: joinDouble_Cons)
  next
    case False
    obtain p ps where "splitDouble (b # s) = p # ps" by (cases "splitDouble (b # s)") simp_all
    then show ?thesis using 1(2)[OF False] False by (cases ps) auto
  qed
qed simp_all

lemma build_valid: "isValidCanonicalToolName (buildCanonicalToolName k t)"
  using slug_plain[of k] tool_plain[of t]
  by (simp add: isValidCanonicalToolName_def build_parts ALLOWED_SLUG_PATTERN_def ALLOWED_RAW_TOOL_PATTERN_def plain_def)
    (simp add: buildCanonicalToolName_def)

text \<open>
  A tool name that was built is canonical and is taken apart into exactly the sanitised key and
  tool name it was built from, whatever characters the key and the tool name held; sanitising once
  more changes neither.
\<close>

theorem tool_name_roundtrip:
  "parseCanonicalToolName (buildCanonicalToolName key tool) = Some (toContributionKeySlug key, sanitizeRawToolName tool) \<and>
   toContributionKeySlug (toContributionKeySlug key) = toContributionKeySlug key \<and>
   sanitizeRawToolName (sanitizeRawToolName tool) = sanitizeRawToolName tool"
proof (intro conjI)
  show "parseCanonicalToolName (buildCanonicalToolName key tool) = Some (toContributionKeySlug key, sanitizeRawToolName tool)"
    by (simp add: parseCanonicalToolName_def build_valid build_parts)
  show "toContributionKeySlug (toContributionKeySlug key) = toContributionKeySlug key"
    using slug_plain[of key] sanitize_id[OF slug_plain] by (simp add: toContributionKeySlug_def[of "toContributionKeySlug key"] plain_def)
  show "sanitizeRawToolName (sanitizeRawToolName tool) = sanitizeRawToolName tool"
    using tool_plain[of tool] sanitize_id[OF tool_plain] by (simp add: sanitizeRawToolName_def[of "sanitizeRawToolName tool"] plain_def)
qed

text \<open>
  The key and tool name of an accepted name determine it: a canonical name is the text
  \<open>mcp__\<close>, key, \<open>__\<close>, tool of the parts it is taken apart into, so that two different canonical
  names never lead to the same server and tool.
\<close>

theorem tool_name_unambiguous:
  assumes "parseCanonicalToolName name = Some (slug, tool)"
  shows "name = ''mcp__'' @ slug @ ''__'' @ tool \<and> ALLOWED_SLUG_PATTERN slug \<and> ALLOWED_RAW_TOOL_PATTERN tool"
proof -
  have valid: "isValidCanonicalToolName name" and parts: "slug = splitDouble name ! 1" "tool = splitDouble name ! 2"
    using assms by (auto simp: parseCanonicalToolName_def split: if_splits)
  then obtain a b where "splitDouble name = [''mcp'', a, b]" "ALLOWED_SLUG_PATTERN a" "ALLOWED_RAW_TOOL_PATTERN b"
    by (auto simp: isValidCanonicalToolName_def split: list.splits)
  with join_splitDouble[of name] parts show ?thesis by auto
qed

theorem tool_name_unambiguous_witness:
  "''mcp__web__search'' = ''mcp__'' @ ''web'' @ ''__'' @ ''search'' \<and> ALLOWED_SLUG_PATTERN ''web''"
proof -
  have "parseCanonicalToolName ''mcp__web__search'' = Some (''web'', ''search'')"
    by (simp add: parseCanonicalToolName_def isValidCanonicalToolName_def ALLOWED_SLUG_PATTERN_def
        ALLOWED_RAW_TOOL_PATTERN_def toolChar_def slugChar_def is_alnum_def)
  from tool_name_unambiguous[OF this] show ?thesis by simp
qed

text \<open>
  Sanitising does not prevent collisions: two different contribution keys can give the same
  public name for a tool, so a call by that name cannot tell the servers apart.
\<close>

theorem tool_name_collision:
  "\<exists>key key'. key \<noteq> key' \<and> buildCanonicalToolName key tool = buildCanonicalToolName key' tool"
proof -
  have "toContributionKeySlug ''web.search'' = toContributionKeySlug ''web_search''" 
    by (simp add: toContributionKeySlug_def sanitize_def trimUnderscores_def slugChar_def is_alnum_def)
  then have "buildCanonicalToolName ''web.search'' tool = buildCanonicalToolName ''web_search'' tool"
    by (simp add: buildCanonicalToolName_def)
  then show ?thesis by (intro exI[of _ "''web.search''"] exI[of _ "''web_search''"] conjI) simp_all
qed

end
