(* ===== verification/Auth_Store.thy ===== *)
theory Auth_Store
  imports Iso_Time
begin

text \<open>
  Users, login sessions and the authentication audit log: their types
  (\<open>platform-core/src/types\<close>) and their SQLite repositories
  (\<open>platform-storage-sqlite/src/repos/user-repo.ts\<close>, \<open>session-repo.ts\<close>, \<open>audit-repo.ts\<close>). A table is the
  list of its rows in order of \<open>rowid\<close>. Text columns that hold times are kept as text, since two
  different formats meet in them: \<open>toISOString\<close> of the sources and \<open>CURRENT_TIMESTAMP\<close> of SQLite.
\<close>

section \<open>Rows\<close>

datatype userRole = Admin | RegularUser

datatype userStatus = ActiveUser | DisabledUser

datatype userLocale = EnLocale | ZhCnLocale

datatype userTheme = DarkTheme | LightTheme | EyeCareTheme

record user =
  u_id :: string
  u_username :: string
  u_passwordHash :: string
  u_role :: userRole
  u_status :: userStatus
  u_displayName :: "string option"
  u_locale :: userLocale
  u_theme :: userTheme
  u_mustChangePassword :: bool
  u_createdAt :: string
  u_updatedAt :: string

record userSession =
  us_id :: string
  us_userId :: string
  us_tokenHash :: string
  us_expiresAt :: string
  us_createdAt :: string
  us_lastSeenAt :: string
  us_revokedAt :: "string option"
  us_userAgent :: "string option"
  us_ipAddress :: "string option"

text \<open>The actions of the audit log that the authentication service writes; the others are
  \<open>OtherAction\<close>.\<close>

datatype authAuditAction = LoginSuccess | LoginFailure | AccountDisabled | SessionRevoked | OtherAction string

record authAuditLog =
  al_id :: string
  al_userId :: "string option"
  al_username :: "string option"
  al_action :: authAuditAction
  al_ipAddress :: "string option"
  al_userAgent :: "string option"
  al_details :: "string option"
  al_createdAt :: string

record authDb =
  users :: "user list"
  userSessions :: "userSession list"
  authAuditLogs :: "authAuditLog list"

datatype authError =
    NotFoundError string
  | UnauthorizedError string
  | PlainError string
  | ConstraintError

text \<open>What an operation takes from outside: the clock, and the values \<open>randomUUID\<close> and \<open>randomBytes\<close>
  return when it asks for a user or session identifier, an audit identifier and a token.\<close>

record authEnv =
  ae_now :: instant
  ae_rowId :: string
  ae_auditId :: string
  ae_token :: string

text \<open>\<open>CURRENT_TIMESTAMP\<close> and \<open>datetime\<close> of SQLite: seconds, and a blank where ISO 8601 has a \<open>T\<close>.\<close>

definition sqliteLayout :: "(nat \<times> string) list" where
  "sqliteLayout = [(4, ''-''), (2, ''-''), (2, '' ''), (2, '':''), (2, '':''), (2, '''')]"

definition sqliteTimestamp :: "instant \<Rightarrow> string" where
  "sqliteTimestamp t = renderFields sqliteLayout (isoFields t)"

text \<open>\<open>LIMIT\<close> and \<open>OFFSET\<close>; a limit of zero is not truthy and means none, and without a limit there is
  no offset.\<close>

definition limitOffset :: "nat option \<Rightarrow> nat option \<Rightarrow> 'a list \<Rightarrow> 'a list" where
  "limitOffset limit offset xs =
     (case limit of
        None \<Rightarrow> xs
      | Some n \<Rightarrow> if n = 0 then xs
                  else take n (case offset of None \<Rightarrow> xs | Some k \<Rightarrow> if k = 0 then xs else drop k xs))"

section \<open>Users\<close>

definition findUserById :: "string \<Rightarrow> authDb \<Rightarrow> user option" where
  "findUserById id' db = tbl_get (\<lambda>u. u_id u = id') (users db)"

definition findByUsername :: "string \<Rightarrow> authDb \<Rightarrow> user option" where
  "findByUsername username db = tbl_get (\<lambda>u. u_username u = username) (users db)"

record createUserInput =
  cu_id :: "string option"
  cu_username :: string
  cu_passwordHash :: string
  cu_role :: "userRole option"
  cu_status :: "userStatus option"
  cu_displayName :: "string option option"
  cu_locale :: "userLocale option"
  cu_theme :: "userTheme option"
  cu_mustChangePassword :: "bool option"

definition orDefault :: "'a option \<Rightarrow> 'a \<Rightarrow> 'a" where
  "orDefault v d = (case v of None \<Rightarrow> d | Some x \<Rightarrow> x)"

definition newUser :: "authEnv \<Rightarrow> createUserInput \<Rightarrow> user" where
  "newUser env input = \<lparr>
     u_id = orDefault (cu_id input) (ae_rowId env),
     u_username = cu_username input,
     u_passwordHash = cu_passwordHash input,
     u_role = orDefault (cu_role input) RegularUser,
     u_status = orDefault (cu_status input) ActiveUser,
     u_displayName = orDefault (cu_displayName input) None,
     u_locale = orDefault (cu_locale input) EnLocale,
     u_theme = orDefault (cu_theme input) DarkTheme,
     u_mustChangePassword = orDefault (cu_mustChangePassword input) False,
     u_createdAt = sqliteTimestamp (ae_now env),
     u_updatedAt = sqliteTimestamp (ae_now env)\<rparr>"

definition createUser :: "authEnv \<Rightarrow> createUserInput \<Rightarrow> (authDb, authError, user) op" where
  "createUser env input db =
     (let row = newUser env input in
      if findUserById (u_id row) db \<noteq> None \<or> findByUsername (u_username row) db \<noteq> None then (Inl ConstraintError, db)
      else let db' = db\<lparr>users := users db @ [row]\<rparr> in
           case findUserById (u_id row) db' of
             None \<Rightarrow> (Inl (PlainError ''Failed to retrieve newly created user''), db')
           | Some u \<Rightarrow> (Inr u, db'))"

record updateUserInput =
  uu_passwordHash :: "string option"
  uu_role :: "userRole option"
  uu_status :: "userStatus option"
  uu_displayName :: "string option option"
  uu_locale :: "userLocale option"
  uu_theme :: "userTheme option"
  uu_mustChangePassword :: "bool option"

definition setUser :: "authEnv \<Rightarrow> updateUserInput \<Rightarrow> user \<Rightarrow> user" where
  "setUser env input u = u\<lparr>
     u_updatedAt := sqliteTimestamp (ae_now env),
     u_passwordHash := orDefault (uu_passwordHash input) (u_passwordHash u),
     u_role := orDefault (uu_role input) (u_role u),
     u_status := orDefault (uu_status input) (u_status u),
     u_displayName := orDefault (uu_displayName input) (u_displayName u),
     u_locale := orDefault (uu_locale input) (u_locale u),
     u_theme := orDefault (uu_theme input) (u_theme u),
     u_mustChangePassword := orDefault (uu_mustChangePassword input) (u_mustChangePassword u)\<rparr>"

definition updateUser :: "authEnv \<Rightarrow> string \<Rightarrow> updateUserInput \<Rightarrow> (authDb, authError, user) op" where
  "updateUser env id' input db =
     (case findUserById id' db of
        None \<Rightarrow> (Inl (NotFoundError ''User not found''), db)
      | Some _ \<Rightarrow>
          let db' = db\<lparr>users := tbl_update (\<lambda>u. u_id u = id') (setUser env input) (users db)\<rparr> in
          case findUserById id' db' of
            None \<Rightarrow> (Inl (NotFoundError ''User not found''), db')
          | Some u \<Rightarrow> (Inr u, db'))"

definition listUsers :: "userRole option \<Rightarrow> userStatus option \<Rightarrow> nat option \<Rightarrow> nat option \<Rightarrow> authDb \<Rightarrow> user list" where
  "listUsers role status limit offset db =
     limitOffset limit offset
       (sort_key u_createdAt
         (filter (\<lambda>u. (role = None \<or> role = Some (u_role u)) \<and> (status = None \<or> status = Some (u_status u))) (users db)))"

definition countUsers :: "authDb \<Rightarrow> nat" where
  "countUsers db = length (users db)"

section \<open>Sessions\<close>

definition findSessionById :: "string \<Rightarrow> authDb \<Rightarrow> userSession option" where
  "findSessionById id' db = tbl_get (\<lambda>s. us_id s = id') (userSessions db)"

definition findByTokenHash :: "string \<Rightarrow> authDb \<Rightarrow> userSession option" where
  "findByTokenHash tokenHash db = tbl_get (\<lambda>s. us_tokenHash s = tokenHash) (userSessions db)"

text \<open>The \<open>INSERT\<close> fails on the primary key, the unique token hash and the foreign key to users.\<close>

definition newSession ::
  "authEnv \<Rightarrow> string \<Rightarrow> string \<Rightarrow> string \<Rightarrow> string option \<Rightarrow> string option \<Rightarrow> userSession" where
  "newSession env userId tokenHash expiresAt ipAddress userAgent = \<lparr>
     us_id = ae_rowId env, us_userId = userId, us_tokenHash = tokenHash, us_expiresAt = expiresAt,
     us_createdAt = sqliteTimestamp (ae_now env), us_lastSeenAt = sqliteTimestamp (ae_now env), us_revokedAt = None,
     us_userAgent = userAgent, us_ipAddress = ipAddress\<rparr>"

definition sessionInsertable :: "userSession \<Rightarrow> authDb \<Rightarrow> bool" where
  "sessionInsertable row db \<longleftrightarrow> findSessionById (us_id row) db = None \<and> findByTokenHash (us_tokenHash row) db = None \<and>
     findUserById (us_userId row) db \<noteq> None"

definition createUserSession ::
  "authEnv \<Rightarrow> string \<Rightarrow> string \<Rightarrow> string \<Rightarrow> string option \<Rightarrow> string option \<Rightarrow> (authDb, authError, userSession) op" where
  "createUserSession env userId tokenHash expiresAt ipAddress userAgent db =
     (let row = newSession env userId tokenHash expiresAt ipAddress userAgent in
      if \<not> sessionInsertable row db then (Inl ConstraintError, db)
      else let db' = db\<lparr>userSessions := userSessions db @ [row]\<rparr> in
           case findSessionById (us_id row) db' of
             None \<Rightarrow> (Inl (PlainError ''Failed to retrieve newly created user session''), db')
           | Some s \<Rightarrow> (Inr s, db'))"

definition setSession :: "string option \<Rightarrow> string option option \<Rightarrow> userSession \<Rightarrow> userSession" where
  "setSession lastSeenAt revokedAt s = s\<lparr>
     us_lastSeenAt := orDefault lastSeenAt (us_lastSeenAt s),
     us_revokedAt := orDefault revokedAt (us_revokedAt s)\<rparr>"

definition updateUserSession ::
  "string \<Rightarrow> string option \<Rightarrow> string option option \<Rightarrow> (authDb, authError, userSession) op" where
  "updateUserSession id' lastSeenAt revokedAt db =
     (case findSessionById id' db of
        None \<Rightarrow> (Inl (NotFoundError ''User session not found''), db)
      | Some _ \<Rightarrow>
          let db' = db\<lparr>userSessions := tbl_update (\<lambda>s. us_id s = id') (setSession lastSeenAt revokedAt) (userSessions db)\<rparr> in
          case findSessionById id' db' of
            None \<Rightarrow> (Inl (NotFoundError ''User session not found''), db')
          | Some s \<Rightarrow> (Inr s, db'))"

definition revoke :: "string \<Rightarrow> string \<Rightarrow> authDb \<Rightarrow> authDb" where
  "revoke id' revokedAt db =
     db\<lparr>userSessions := tbl_update (\<lambda>s. us_id s = id') (\<lambda>s. s\<lparr>us_revokedAt := Some revokedAt\<rparr>) (userSessions db)\<rparr>"

definition openSessionOf :: "string \<Rightarrow> userSession \<Rightarrow> bool" where
  "openSessionOf userId s \<longleftrightarrow> us_userId s = userId \<and> us_revokedAt s = None"

definition revokeAllForUser :: "string \<Rightarrow> string \<Rightarrow> authDb \<Rightarrow> nat \<times> authDb" where
  "revokeAllForUser userId revokedAt db =
     (tbl_changes (openSessionOf userId) (userSessions db),
      db\<lparr>userSessions := tbl_update (openSessionOf userId) (\<lambda>s. s\<lparr>us_revokedAt := Some revokedAt\<rparr>) (userSessions db)\<rparr>)"

definition deleteExpired :: "string \<Rightarrow> authDb \<Rightarrow> nat \<times> authDb" where
  "deleteExpired now db =
     (let dead = (\<lambda>s. us_expiresAt s < now \<or> us_revokedAt s \<noteq> None) in
      (tbl_changes dead (userSessions db), db\<lparr>userSessions := filter (\<lambda>s. \<not> dead s) (userSessions db)\<rparr>))"

text \<open>\<open>ORDER BY created_at DESC\<close>, earlier rows first among equal times.\<close>

definition sortDescending :: "('a \<Rightarrow> string) \<Rightarrow> 'a list \<Rightarrow> 'a list" where
  "sortDescending k xs = rev (sort_key k (rev xs))"

definition listSessionsByUserId :: "authEnv \<Rightarrow> string \<Rightarrow> bool \<Rightarrow> authDb \<Rightarrow> userSession list" where
  "listSessionsByUserId env userId activeOnly db =
     sortDescending us_createdAt
       (filter (\<lambda>s. us_userId s = userId \<and>
          (activeOnly \<longrightarrow> us_revokedAt s = None \<and> sqliteTimestamp (ae_now env) \<le> us_expiresAt s)) (userSessions db))"

section \<open>Audit log\<close>

definition newAuditLog ::
  "authEnv \<Rightarrow> string option \<Rightarrow> string option \<Rightarrow> authAuditAction \<Rightarrow> string option \<Rightarrow> string option \<Rightarrow> string option \<Rightarrow> authAuditLog" where
  "newAuditLog env userId username action ipAddress userAgent details = \<lparr>
     al_id = ae_auditId env, al_userId = userId, al_username = username, al_action = action,
     al_ipAddress = ipAddress, al_userAgent = userAgent, al_details = details,
     al_createdAt = sqliteTimestamp (ae_now env)\<rparr>"

definition auditInsertable :: "authAuditLog \<Rightarrow> authDb \<Rightarrow> bool" where
  "auditInsertable row db \<longleftrightarrow> tbl_get (\<lambda>a. al_id a = al_id row) (authAuditLogs db) = None \<and>
     (case al_userId row of None \<Rightarrow> True | Some uid \<Rightarrow> findUserById uid db \<noteq> None)"

definition createAuditLog :: "authAuditLog \<Rightarrow> (authDb, authError, authAuditLog) op" where
  "createAuditLog row db =
     (if \<not> auditInsertable row db then (Inl ConstraintError, db)
      else let db' = db\<lparr>authAuditLogs := authAuditLogs db @ [row]\<rparr> in
           case tbl_get (\<lambda>a. al_id a = al_id row) (authAuditLogs db') of
             None \<Rightarrow> (Inl (PlainError ''Failed to retrieve newly created audit log''), db')
           | Some a \<Rightarrow> (Inr a, db'))"

text \<open>\<open>ORDER BY created_at DESC, rowid DESC\<close>.\<close>

definition newestFirst :: "authAuditLog list \<Rightarrow> authAuditLog list" where
  "newestFirst rows = rev (sort_key al_createdAt rows)"

definition listAuditByUserId :: "string \<Rightarrow> nat option \<Rightarrow> nat option \<Rightarrow> authDb \<Rightarrow> authAuditLog list" where
  "listAuditByUserId userId limit offset db =
     limitOffset limit offset (newestFirst (filter (\<lambda>a. al_userId a = Some userId) (authAuditLogs db)))"

definition listRecentAudit :: "authAuditAction option \<Rightarrow> nat option \<Rightarrow> nat option \<Rightarrow> authDb \<Rightarrow> authAuditLog list" where
  "listRecentAudit action limit offset db =
     limitOffset limit offset
       (newestFirst (filter (\<lambda>a. action = None \<or> action = Some (al_action a)) (authAuditLogs db)))"

text \<open>An empty user name or address is not truthy and does not restrict the count.\<close>

definition matchesFailure :: "string option \<Rightarrow> string option \<Rightarrow> authAuditLog \<Rightarrow> bool" where
  "matchesFailure username ipAddress a \<longleftrightarrow>
     (opt_truthy username \<longrightarrow> al_username a = username) \<and> (opt_truthy ipAddress \<longrightarrow> al_ipAddress a = ipAddress)"

definition countRecentFailures :: "authEnv \<Rightarrow> string option \<Rightarrow> string option \<Rightarrow> int option \<Rightarrow> authDb \<Rightarrow> nat" where
  "countRecentFailures env username ipAddress windowSeconds db =
     (let since = sqliteTimestamp (ae_now env - orDefault windowSeconds 900 * 1000) in
      length (filter (\<lambda>a. (al_action a = LoginFailure \<or> al_action a = AccountDisabled) \<and> since \<le> al_createdAt a \<and>
        matchesFailure username ipAddress a) (authAuditLogs db)))"

end
