(* ===== verification/Password_Hash.thy ===== *)
theory Password_Hash
  imports Bytes Decimal
begin

text \<open>
  Password hashes (\<open>platform-auth/src/password/scrypt.ts\<close>). The key derivation function is the crypto
  library's and a parameter: it takes the password, the salt, the key length and the work factors,
  and may fail. The salt that \<open>randomBytes\<close> draws is an argument.
\<close>

unbundle bit_operations_syntax

section \<open>Options and bounds\<close>

record scryptOptions =
  so_cost :: "number option"
  so_blockSize :: "number option"
  so_parallelization :: "number option"
  so_keyLength :: "number option"
  so_saltLength :: "number option"

definition DEFAULT_COST :: int where "DEFAULT_COST = 16384"

definition DEFAULT_BLOCK_SIZE :: int where "DEFAULT_BLOCK_SIZE = 8"

definition DEFAULT_PARALLELIZATION :: int where "DEFAULT_PARALLELIZATION = 1"

definition DEFAULT_KEY_LENGTH :: int where "DEFAULT_KEY_LENGTH = 64"

definition DEFAULT_SALT_LENGTH :: int where "DEFAULT_SALT_LENGTH = 16"

definition MIN_COST :: int where "MIN_COST = 16384"

definition MAX_COST :: int where "MAX_COST = 262144"

definition MIN_BLOCK_SIZE :: int where "MIN_BLOCK_SIZE = 8"

definition MAX_BLOCK_SIZE :: int where "MAX_BLOCK_SIZE = 16"

definition MIN_PARALLELIZATION :: int where "MIN_PARALLELIZATION = 1"

definition MAX_PARALLELIZATION :: int where "MAX_PARALLELIZATION = 4"

definition MAX_PASSWORD_BYTES :: nat where "MAX_PASSWORD_BYTES = 1024"

definition MAX_SCRYPT_MEM :: int where "MAX_SCRYPT_MEM = 512 * 1024 * 1024"

definition isPowerOfTwo :: "int \<Rightarrow> bool" where
  "isPowerOfTwo n \<longleftrightarrow> 0 < n \<and> n AND (n - 1) = 0"

text \<open>A work factor: a safe integer within its bounds.\<close>

fun boundedInt :: "number \<Rightarrow> int \<Rightarrow> int \<Rightarrow> int option" where
  "boundedInt (Num n) lo hi = (if isSafeInteger (Num n) \<and> lo \<le> n \<and> n \<le> hi then Some n else None)"
| "boundedInt _ lo hi = None"

definition optionOr :: "number option \<Rightarrow> int \<Rightarrow> number" where
  "optionOr v d = (case v of None \<Rightarrow> Num d | Some n \<Rightarrow> n)"

type_synonym scrypt = "string \<Rightarrow> byte list \<Rightarrow> nat \<Rightarrow> int \<Rightarrow> int \<Rightarrow> int \<Rightarrow> int \<Rightarrow> byte list option"

section \<open>Hashing\<close>

definition hashText :: "int \<Rightarrow> int \<Rightarrow> int \<Rightarrow> byte list \<Rightarrow> byte list \<Rightarrow> string" where
  "hashText cost blockSize parallelization salt derivedKey =
     join_with CHR ''$''
       [''scrypt'', show_int cost, show_int blockSize, show_int parallelization, hexEncode salt, hexEncode derivedKey]"

definition hashPassword :: "scrypt \<Rightarrow> byte list \<Rightarrow> string \<Rightarrow> scryptOptions \<Rightarrow> string + string" where
  "hashPassword scrypt salt plaintext options =
     (if \<not> truthy plaintext then Inl ''Password must be a non-empty string''
      else let byteLen = utf8Length plaintext in
      if byteLen < 1 \<or> MAX_PASSWORD_BYTES < byteLen then Inl ''Password must be a non-empty string of at most 1024 bytes''
      else case boundedInt (optionOr (so_cost options) DEFAULT_COST) MIN_COST MAX_COST of
        None \<Rightarrow> Inl ''Invalid scrypt cost option: must be power of 2 between 16384 and 262144''
      | Some cost \<Rightarrow>
      if \<not> isPowerOfTwo cost then Inl ''Invalid scrypt cost option: must be power of 2 between 16384 and 262144''
      else case boundedInt (optionOr (so_blockSize options) DEFAULT_BLOCK_SIZE) MIN_BLOCK_SIZE MAX_BLOCK_SIZE of
        None \<Rightarrow> Inl ''Invalid scrypt blockSize option: must be integer between 8 and 16''
      | Some blockSize \<Rightarrow>
      case boundedInt (optionOr (so_parallelization options) DEFAULT_PARALLELIZATION) MIN_PARALLELIZATION MAX_PARALLELIZATION of
        None \<Rightarrow> Inl ''Invalid scrypt parallelization option: must be integer between 1 and 4''
      | Some parallelization \<Rightarrow>
      if optionOr (so_keyLength options) DEFAULT_KEY_LENGTH \<noteq> Num DEFAULT_KEY_LENGTH
      then Inl ''Invalid scrypt keyLength option: must be 64''
      else if optionOr (so_saltLength options) DEFAULT_SALT_LENGTH \<noteq> Num DEFAULT_SALT_LENGTH
      then Inl ''Invalid scrypt saltLength option: must be 16''
      else case scrypt plaintext salt (nat DEFAULT_KEY_LENGTH) cost blockSize parallelization MAX_SCRYPT_MEM of
        None \<Rightarrow> Inl ''scrypt failed''
      | Some derivedKey \<Rightarrow> Inr (hashText cost blockSize parallelization salt derivedKey))"

section \<open>Verifying\<close>

definition HEX_LOWER_32_REGEX :: "string \<Rightarrow> bool" where
  "HEX_LOWER_32_REGEX s \<longleftrightarrow> length s = 32 \<and> list_all is_lower_hex s"

definition HEX_LOWER_128_REGEX :: "string \<Rightarrow> bool" where
  "HEX_LOWER_128_REGEX s \<longleftrightarrow> length s = 128 \<and> list_all is_lower_hex s"

definition verifyParts :: "scrypt \<Rightarrow> string \<Rightarrow> string \<Rightarrow> string \<Rightarrow> string \<Rightarrow> string \<Rightarrow> string \<Rightarrow> bool" where
  "verifyParts scrypt plaintext costStr blockSizeStr parallelizationStr saltHex hashHex =
     (if \<not> canonicalInt costStr \<or> \<not> canonicalInt blockSizeStr \<or> \<not> canonicalInt parallelizationStr then False
      else case boundedInt (Num (int (digits_value costStr))) MIN_COST MAX_COST of
        None \<Rightarrow> False
      | Some cost \<Rightarrow>
      if \<not> isPowerOfTwo cost then False
      else case boundedInt (Num (int (digits_value blockSizeStr))) MIN_BLOCK_SIZE MAX_BLOCK_SIZE of
        None \<Rightarrow> False
      | Some blockSize \<Rightarrow>
      case boundedInt (Num (int (digits_value parallelizationStr))) MIN_PARALLELIZATION MAX_PARALLELIZATION of
        None \<Rightarrow> False
      | Some parallelization \<Rightarrow>
      if \<not> HEX_LOWER_32_REGEX saltHex then False
      else let salt = hexDecode saltHex in
      if length salt \<noteq> 16 \<or> hexEncode salt \<noteq> saltHex then False
      else if \<not> HEX_LOWER_128_REGEX hashHex then False
      else let storedDerivedKey = hexDecode hashHex in
      if length storedDerivedKey \<noteq> 64 \<or> hexEncode storedDerivedKey \<noteq> hashHex then False
      else case scrypt plaintext salt (length storedDerivedKey) cost blockSize parallelization MAX_SCRYPT_MEM of
        None \<Rightarrow> False
      | Some derivedKey \<Rightarrow>
          if length derivedKey \<noteq> length storedDerivedKey then False else derivedKey = storedDerivedKey)"

definition verifyPassword :: "scrypt \<Rightarrow> string \<Rightarrow> string \<Rightarrow> bool" where
  "verifyPassword scrypt plaintext storedHash =
     (let pwdByteLen = utf8Length plaintext in
      if pwdByteLen < 1 \<or> MAX_PASSWORD_BYTES < pwdByteLen then False
      else case split_on CHR ''$'' storedHash of
          [tag, costStr, blockSizeStr, parallelizationStr, saltHex, hashHex] \<Rightarrow>
            if tag \<noteq> ''scrypt'' then False
            else verifyParts scrypt plaintext costStr blockSizeStr parallelizationStr saltHex hashHex
        | _ \<Rightarrow> False)"

section \<open>The bit trick\<close>

lemma and_pred_double: "(2 * m) AND (2 * m - 1) = 2 * (m AND (m - 1))" for m :: int
proof -
  have "(2 * m - 1) div 2 = m - 1" by presburger
  then show ?thesis by (simp add: and_rec[of "2 * m"])
qed

lemma and_pred_odd: "(2 * m + 1) AND (2 * m) = 2 * (m :: int)"
  by (simp add: and_rec[of "2 * m + 1"])

lemma isPowerOfTwo_iff: "isPowerOfTwo n \<longleftrightarrow> (\<exists>k. n = 2 ^ k)"
proof (induction "nat n" arbitrary: n rule: less_induct)
  case less
  consider (nonpos) "n \<le> 0" | (even) m where "n = 2 * m" "0 < m" | (odd) m where "n = 2 * m + 1" "0 \<le> m"
    by (metis dvd_def even_two_times_div_two int_one_le_iff_zero_less linorder_not_le mult_le_0_iff not_numeral_le_zero odd_two_times_div_two_succ pos_imp_zdiv_nonneg_iff zero_less_numeral zero_less_mult_pos)
  then show ?case
  proof cases
    case nonpos
    then show ?thesis by (metis isPowerOfTwo_def not_le zero_less_numeral zero_less_power)
  next
    case even
    have "isPowerOfTwo n \<longleftrightarrow> isPowerOfTwo m" using even by (simp add: isPowerOfTwo_def and_pred_double)
    also have "\<dots> \<longleftrightarrow> (\<exists>k. m = 2 ^ k)" using less[of m] even by simp
    also have "\<dots> \<longleftrightarrow> (\<exists>k. n = 2 ^ k)"
    proof
      assume "\<exists>k. n = 2 ^ k"
      then obtain k where k: "n = 2 ^ k" by blast
      then have "k \<noteq> 0" using even by (intro notI) simp
      then obtain j where "k = Suc j" by (cases k) simp_all
      then show "\<exists>k. m = 2 ^ k" using k even by auto
    next
      assume "\<exists>k. m = 2 ^ k"
      then show "\<exists>k. n = 2 ^ k" using even by (metis power_Suc)
    qed
    finally show ?thesis .
  next
    case odd
    have "isPowerOfTwo n \<longleftrightarrow> m = 0" using odd and_pred_odd[of m] by (simp add: isPowerOfTwo_def)
    also have "\<dots> \<longleftrightarrow> (\<exists>k. n = 2 ^ k)"
    proof
      assume "\<exists>k. n = 2 ^ k"
      then obtain k where k: "2 * m + 1 = 2 ^ k" using odd by metis
      have "odd ((2 :: int) ^ k)" unfolding k[symmetric] by simp
      then have "k = 0" by simp
      then show "m = 0" using k by simp
    qed (use odd in \<open>auto intro: exI[of _ 0]\<close>)
    finally show ?thesis .
  qed
qed

section \<open>Verification accepts exactly the hashes of the password\<close>

lemma boundedInt_iff:
  "boundedInt v lo hi = Some n \<longleftrightarrow> v = Num n \<and> isSafeInteger (Num n) \<and> lo \<le> n \<and> n \<le> hi"
  by (cases v) auto

lemma boundedInt_Num: "lo \<le> n \<Longrightarrow> n \<le> hi \<Longrightarrow> isSafeInteger (Num n) \<Longrightarrow> boundedInt (Num n) lo hi = Some n"
  by simp

definition workFactors :: "int \<Rightarrow> int \<Rightarrow> int \<Rightarrow> bool" where
  "workFactors cost blockSize parallelization \<longleftrightarrow>
     MIN_COST \<le> cost \<and> cost \<le> MAX_COST \<and> isPowerOfTwo cost \<and> MIN_BLOCK_SIZE \<le> blockSize \<and> blockSize \<le> MAX_BLOCK_SIZE \<and>
     MIN_PARALLELIZATION \<le> parallelization \<and> parallelization \<le> MAX_PARALLELIZATION"

lemma workFactors_pos:
  "workFactors c b p \<Longrightarrow> 0 < c \<and> 0 < b \<and> 0 < p \<and>
     isSafeInteger (Num c) \<and> isSafeInteger (Num b) \<and> isSafeInteger (Num p)"
  by (simp add: workFactors_def MIN_COST_def MAX_COST_def MIN_BLOCK_SIZE_def MAX_BLOCK_SIZE_def MIN_PARALLELIZATION_def
    MAX_PARALLELIZATION_def MAX_SAFE_INTEGER_def)

lemma hash_parts:
  "workFactors c b p \<Longrightarrow> split_on CHR ''$'' (hashText c b p salt key) =
     [''scrypt'', show_int c, show_int b, show_int p, hexEncode salt, hexEncode key]"
proof -
  assume w: "workFactors c b p"
  have hex: "CHR ''$'' \<notin> set (hexEncode bs)" for bs
    using hexEncode_lower_hex[of bs] unfolding list_all_iff by (auto simp: is_lower_hex_def)
  have "CHR ''$'' \<notin> set (show_nat n)" for n
    using show_nat_digits[of n] unfolding list_all_iff by (auto simp: is_digit_def)
  then show ?thesis unfolding hashText_def using hex workFactors_pos[OF w] by (intro split_join) (simp_all add: show_int_def)
qed

lemma show_int_value: "canonicalInt s \<Longrightarrow> show_int (int (digits_value s)) = s"
  by (simp add: show_int_def canonicalInt_value)

lemma canonical_show_int: "0 < i \<Longrightarrow> canonicalInt (show_int i) \<and> int (digits_value (show_int i)) = i"
  by (simp add: show_int_def canonicalInt_show digits_value_show_nat)

lemma verifyParts_iff:
  "verifyParts scrypt plaintext cs bs ps saltHex hashHex \<longleftrightarrow>
     (\<exists>c b p salt key. workFactors c b p \<and> length salt = 16 \<and> length key = 64 \<and>
        cs = show_int c \<and> bs = show_int b \<and> ps = show_int p \<and> saltHex = hexEncode salt \<and> hashHex = hexEncode key \<and>
        scrypt plaintext salt 64 c b p MAX_SCRYPT_MEM = Some key)"
proof
  assume v: "verifyParts scrypt plaintext cs bs ps saltHex hashHex"
  have canon: "canonicalInt cs" "canonicalInt bs" "canonicalInt ps"
    using v by (auto simp: verifyParts_def split: if_splits)
  have w: "workFactors (int (digits_value cs)) (int (digits_value bs)) (int (digits_value ps))"
    using v by (auto simp: verifyParts_def workFactors_def boundedInt_iff simp del: boundedInt.simps split: if_splits option.splits)
  have hex: "HEX_LOWER_32_REGEX saltHex" "HEX_LOWER_128_REGEX hashHex"
    "hexEncode (hexDecode saltHex) = saltHex" "hexEncode (hexDecode hashHex) = hashHex"
    using v by (auto simp: verifyParts_def Let_def split: if_splits option.splits)
  have len: "length (hexDecode saltHex) = 16" "length (hexDecode hashHex) = 64"
    using hex(1,2) by (simp_all add: HEX_LOWER_32_REGEX_def HEX_LOWER_128_REGEX_def)
  have key: "scrypt plaintext (hexDecode saltHex) 64 (int (digits_value cs)) (int (digits_value bs)) (int (digits_value ps)) MAX_SCRYPT_MEM
      = Some (hexDecode hashHex)"
    using v len by (auto simp: verifyParts_def Let_def split: if_splits option.splits)
  show "\<exists>c b p salt key. workFactors c b p \<and> length salt = 16 \<and> length key = 64 \<and>
        cs = show_int c \<and> bs = show_int b \<and> ps = show_int p \<and> saltHex = hexEncode salt \<and> hashHex = hexEncode key \<and>
        scrypt plaintext salt 64 c b p MAX_SCRYPT_MEM = Some key"
    using w len key hex(3,4) canon
    by (intro exI[of _ "int (digits_value cs)"] exI[of _ "int (digits_value bs)"] exI[of _ "int (digits_value ps)"]
        exI[of _ "hexDecode saltHex"] exI[of _ "hexDecode hashHex"]) (simp add: show_int_value)
next
  assume "\<exists>c b p salt key. workFactors c b p \<and> length salt = 16 \<and> length key = 64 \<and>
        cs = show_int c \<and> bs = show_int b \<and> ps = show_int p \<and> saltHex = hexEncode salt \<and> hashHex = hexEncode key \<and>
        scrypt plaintext salt 64 c b p MAX_SCRYPT_MEM = Some key"
  then obtain c b p salt key where e: "workFactors c b p" "length salt = 16" "length key = 64"
    "cs = show_int c" "bs = show_int b" "ps = show_int p" "saltHex = hexEncode salt" "hashHex = hexEncode key"
    "scrypt plaintext salt 64 c b p MAX_SCRYPT_MEM = Some key" by blast
  have canon: "canonicalInt cs" "canonicalInt bs" "canonicalInt ps" "int (digits_value cs) = c"
    "int (digits_value bs) = b" "int (digits_value ps) = p"
    using workFactors_pos[OF e(1)] canonical_show_int by (simp_all add: e(4-6))
  have "boundedInt (Num c) MIN_COST MAX_COST = Some c" "boundedInt (Num b) MIN_BLOCK_SIZE MAX_BLOCK_SIZE = Some b"
    "boundedInt (Num p) MIN_PARALLELIZATION MAX_PARALLELIZATION = Some p" "isPowerOfTwo c"
    using e(1) workFactors_pos[OF e(1)] by (auto simp: workFactors_def boundedInt_iff simp del: boundedInt.simps)
  then show "verifyParts scrypt plaintext cs bs ps saltHex hashHex"
    using e(2,3,9) canon hexEncode_lower_hex
    by (simp add: verifyParts_def e(7,8) hex_roundtrip HEX_LOWER_32_REGEX_def HEX_LOWER_128_REGEX_def Let_def del: boundedInt.simps)
qed

lemma verifyPassword_iff:
  "verifyPassword scrypt plaintext stored \<longleftrightarrow>
     1 \<le> utf8Length plaintext \<and> utf8Length plaintext \<le> MAX_PASSWORD_BYTES \<and>
     (\<exists>c b p salt key. workFactors c b p \<and> length salt = 16 \<and> length key = 64 \<and> stored = hashText c b p salt key \<and>
        scrypt plaintext salt 64 c b p MAX_SCRYPT_MEM = Some key)"
proof
  assume v: "verifyPassword scrypt plaintext stored"
  then obtain cs bs ps sh hh where parts: "split_on CHR ''$'' stored = [''scrypt'', cs, bs, ps, sh, hh]"
    and ok: "verifyParts scrypt plaintext cs bs ps sh hh"
    by (auto simp: verifyPassword_def Let_def split: if_splits list.splits)
  have stored: "stored = join_with CHR ''$'' [''scrypt'', cs, bs, ps, sh, hh]" using parts by (simp only: split_on_iff)
  obtain c b p salt key where e: "workFactors c b p" "length salt = 16" "length key = 64" "cs = show_int c" "bs = show_int b"
    "ps = show_int p" "sh = hexEncode salt" "hh = hexEncode key" "scrypt plaintext salt 64 c b p MAX_SCRYPT_MEM = Some key"
    using ok unfolding verifyParts_iff by blast
  have "stored = hashText c b p salt key" unfolding stored hashText_def e(4-8) ..
  moreover have "1 \<le> utf8Length plaintext" "utf8Length plaintext \<le> MAX_PASSWORD_BYTES"
    using v by (auto simp: verifyPassword_def Let_def simp del: One_nat_def split: if_splits)
  ultimately show "1 \<le> utf8Length plaintext \<and> utf8Length plaintext \<le> MAX_PASSWORD_BYTES \<and>
     (\<exists>c b p salt key. workFactors c b p \<and> length salt = 16 \<and> length key = 64 \<and> stored = hashText c b p salt key \<and>
        scrypt plaintext salt 64 c b p MAX_SCRYPT_MEM = Some key)"
    using e(1-3,9) by blast
next
  assume a: "1 \<le> utf8Length plaintext \<and> utf8Length plaintext \<le> MAX_PASSWORD_BYTES \<and>
     (\<exists>c b p salt key. workFactors c b p \<and> length salt = 16 \<and> length key = 64 \<and> stored = hashText c b p salt key \<and>
        scrypt plaintext salt 64 c b p MAX_SCRYPT_MEM = Some key)"
  then obtain c b p salt key where e: "workFactors c b p" "length salt = 16" "length key = 64" "stored = hashText c b p salt key"
    "scrypt plaintext salt 64 c b p MAX_SCRYPT_MEM = Some key" by blast
  have "verifyParts scrypt plaintext (show_int c) (show_int b) (show_int p) (hexEncode salt) (hexEncode key)"
    unfolding verifyParts_iff using e by blast
  then show "verifyPassword scrypt plaintext stored"
    using a hash_parts[OF e(1)] by (simp add: verifyPassword_def Let_def e(4) not_less)
qed

lemma hashPassword_iff:
  "(\<exists>options. hashPassword scrypt salt plaintext options = Inr stored) \<longleftrightarrow>
     plaintext \<noteq> [] \<and> 1 \<le> utf8Length plaintext \<and> utf8Length plaintext \<le> MAX_PASSWORD_BYTES \<and>
     (\<exists>c b p key. workFactors c b p \<and> stored = hashText c b p salt key \<and>
        scrypt plaintext salt 64 c b p MAX_SCRYPT_MEM = Some key)"
proof
  assume "\<exists>options. hashPassword scrypt salt plaintext options = Inr stored"
  then show "plaintext \<noteq> [] \<and> 1 \<le> utf8Length plaintext \<and> utf8Length plaintext \<le> MAX_PASSWORD_BYTES \<and>
     (\<exists>c b p key. workFactors c b p \<and> stored = hashText c b p salt key \<and> scrypt plaintext salt 64 c b p MAX_SCRYPT_MEM = Some key)"
    by (auto simp: hashPassword_def truthy_def Let_def workFactors_def boundedInt_iff DEFAULT_KEY_LENGTH_def not_less
      simp del: boundedInt.simps split: if_splits option.splits)
next
  assume a: "plaintext \<noteq> [] \<and> 1 \<le> utf8Length plaintext \<and> utf8Length plaintext \<le> MAX_PASSWORD_BYTES \<and>
     (\<exists>c b p key. workFactors c b p \<and> stored = hashText c b p salt key \<and> scrypt plaintext salt 64 c b p MAX_SCRYPT_MEM = Some key)"
  then obtain c b p key where e: "workFactors c b p" "stored = hashText c b p salt key"
    "scrypt plaintext salt 64 c b p MAX_SCRYPT_MEM = Some key" by blast
  let ?o = "\<lparr>so_cost = Some (Num c), so_blockSize = Some (Num b), so_parallelization = Some (Num p),
      so_keyLength = None, so_saltLength = None\<rparr>"
  have "boundedInt (Num c) MIN_COST MAX_COST = Some c" "boundedInt (Num b) MIN_BLOCK_SIZE MAX_BLOCK_SIZE = Some b"
    "boundedInt (Num p) MIN_PARALLELIZATION MAX_PARALLELIZATION = Some p" "isPowerOfTwo c"
    using e(1) workFactors_pos[OF e(1)] by (auto simp: workFactors_def boundedInt_iff simp del: boundedInt.simps)
  then have "hashPassword scrypt salt plaintext ?o = Inr stored"
    using a e(2,3) by (simp add: hashPassword_def truthy_def optionOr_def Let_def DEFAULT_KEY_LENGTH_def DEFAULT_SALT_LENGTH_def
      not_less del: boundedInt.simps)
  then show "\<exists>options. hashPassword scrypt salt plaintext options = Inr stored" by blast
qed

text \<open>
  C23. A password is accepted for a stored hash exactly when hashing that password, with some
  salt of 16 bytes and some work factors that \<open>hashPassword\<close> allows, yields this very text, for a key
  derivation function that returns keys of the requested length. In particular every hash the
  platform stores verifies with its own password, work factors outside the bounds are refused, and
  no second spelling of a hash (leading zeros, upper-case digits, extra fields) is accepted.
\<close>

theorem password_verified_iff:
  assumes "\<And>pw salt len c b p mem key. scrypt pw salt len c b p mem = Some key \<Longrightarrow> length key = len"
  shows "verifyPassword scrypt plaintext stored \<longleftrightarrow>
     (\<exists>salt options. length salt = 16 \<and> hashPassword scrypt salt plaintext options = Inr stored)"
proof
  assume "verifyPassword scrypt plaintext stored"
  then obtain c b p salt key where e: "1 \<le> utf8Length plaintext" "utf8Length plaintext \<le> MAX_PASSWORD_BYTES"
    "workFactors c b p" "length salt = 16" "stored = hashText c b p salt key" "scrypt plaintext salt 64 c b p MAX_SCRYPT_MEM = Some key"
    unfolding verifyPassword_iff by blast
  have "plaintext \<noteq> []" using e(1) by (auto simp: utf8Length_def)
  then have "\<exists>options. hashPassword scrypt salt plaintext options = Inr stored"
    unfolding hashPassword_iff using e(1-3,5,6) by blast
  then show "\<exists>salt options. length salt = 16 \<and> hashPassword scrypt salt plaintext options = Inr stored" using e(4) by blast
next
  assume "\<exists>salt options. length salt = 16 \<and> hashPassword scrypt salt plaintext options = Inr stored"
  then obtain salt where salt: "length salt = 16" "\<exists>options. hashPassword scrypt salt plaintext options = Inr stored" by blast
  show "verifyPassword scrypt plaintext stored"
    using salt(1) salt(2)[unfolded hashPassword_iff] assms unfolding verifyPassword_iff by blast
qed

definition exampleScrypt :: scrypt where
  "exampleScrypt pw salt len c b p mem = Some (replicate len (word_of_nat (length pw)))"

theorem password_verified_iff_witness:
  "verifyPassword exampleScrypt ''secret'' (hashText 16384 8 1 (replicate 16 7) (replicate 64 6))"
proof -
  have "workFactors 16384 8 1"
    using isPowerOfTwo_iff[of 16384] by (auto simp: workFactors_def MIN_COST_def MAX_COST_def MIN_BLOCK_SIZE_def
      MAX_BLOCK_SIZE_def MIN_PARALLELIZATION_def MAX_PARALLELIZATION_def intro: exI[of _ 14])
  moreover have "exampleScrypt ''secret'' (replicate 16 7) 64 16384 8 1 MAX_SCRYPT_MEM = Some (replicate 64 6)"
    by (simp add: exampleScrypt_def)
  ultimately have "\<exists>options. hashPassword exampleScrypt (replicate 16 7) ''secret'' options =
      Inr (hashText 16384 8 1 (replicate 16 7) (replicate 64 6))"
    unfolding hashPassword_iff by (auto simp: utf8Length_def MAX_PASSWORD_BYTES_def)
  then show ?thesis
    by (subst password_verified_iff) (auto simp: exampleScrypt_def intro: exI[of _ "replicate 16 7"])
qed

end
