(* ===== verification/Session_Cookie.thy ===== *)
theory Session_Cookie
  imports Bytes Decimal
begin

text \<open>
  The signed session cookie (\<open>platform-auth/src/session/cookie.ts\<close>): what the platform hands out after
  a login and accepts as proof of it afterwards. HMAC-SHA256, which is the crypto library's, is the
  parameter \<open>hmac\<close>: the base64url text of the digest for a secret and a payload. The clock is the
  parameter \<open>now\<close>.
\<close>

section \<open>Formats\<close>

definition is_base64url :: "char \<Rightarrow> bool" where
  "is_base64url c \<longleftrightarrow> is_alnum c \<or> c = CHR ''_'' \<or> c = CHR ''-''"

definition BASE64URL_PAYLOAD_REGEX :: "string \<Rightarrow> bool" where
  "BASE64URL_PAYLOAD_REGEX s \<longleftrightarrow> 1 \<le> length s \<and> length s \<le> 1024 \<and> list_all is_base64url s"

definition BASE64URL_SIGNATURE_REGEX :: "string \<Rightarrow> bool" where
  "BASE64URL_SIGNATURE_REGEX s \<longleftrightarrow> length s = 43 \<and> list_all is_base64url s"

definition CANONICAL_EXPIRES_AT_REGEX :: "string \<Rightarrow> bool" where
  "CANONICAL_EXPIRES_AT_REGEX s \<longleftrightarrow> canonicalInt s \<and> length s \<le> 16"

definition ID_OR_TOKEN_REGEX :: "string \<Rightarrow> bool" where
  "ID_OR_TOKEN_REGEX s \<longleftrightarrow> 1 \<le> length s \<and> length s \<le> 128 \<and> list_all is_base64url s"

definition MAX_PAYLOAD_BYTES :: nat where
  "MAX_PAYLOAD_BYTES = 1024"

definition MIN_SECRET_LEN :: nat where
  "MIN_SECRET_LEN = 16"

section \<open>Signing and verifying\<close>

type_synonym hmac = "string \<Rightarrow> string \<Rightarrow> string"

definition signPayload :: "hmac \<Rightarrow> string \<Rightarrow> string \<Rightarrow> string" where
  "signPayload hmac payload secret = hmac secret payload"

definition verifySignature :: "hmac \<Rightarrow> string \<Rightarrow> string \<Rightarrow> string \<Rightarrow> bool" where
  "verifySignature hmac payload signature secret =
     (if \<not> truthy payload \<or> \<not> truthy signature \<or> \<not> truthy secret \<or> length secret < MIN_SECRET_LEN \<or>
         \<not> BASE64URL_PAYLOAD_REGEX payload \<or> \<not> BASE64URL_SIGNATURE_REGEX signature
      then False
      else let expectedBuf = utf8Bytes (signPayload hmac payload secret);
               actualBuf = utf8Bytes signature in
           if length expectedBuf \<noteq> length actualBuf \<or> length expectedBuf \<noteq> 43 then False
           else expectedBuf = actualBuf)"

definition createSignedCookieValue :: "hmac \<Rightarrow> string \<Rightarrow> string \<Rightarrow> number \<Rightarrow> string \<Rightarrow> string + string" where
  "createSignedCookieValue hmac sessionId token expiresAt secret =
     (if \<not> ID_OR_TOKEN_REGEX sessionId \<or> \<not> ID_OR_TOKEN_REGEX token \<or> \<not> isSafeInteger expiresAt \<or>
         \<not> num_gt expiresAt 0 \<or> length secret < MIN_SECRET_LEN
      then Inl ''Invalid arguments for createSignedCookieValue''
      else case expiresAt of
          Num e \<Rightarrow>
            let rawPayload = sessionId @ ''.'' @ token @ ''.'' @ show_int e;
                encodedPayload = base64Encode (utf8Bytes rawPayload);
                signature = signPayload hmac encodedPayload secret in
            Inr (encodedPayload @ ''.'' @ signature)
        | _ \<Rightarrow> Inl ''Invalid arguments for createSignedCookieValue'')"

record parsedSessionPayload =
  psp_sessionId :: string
  psp_token :: string
  psp_expiresAt :: int

text \<open>
  The part after the signature was accepted. \<open>toString('utf8')\<close> replaces malformed bytes by U+FFFD,
  which none of the formats below contains: such a payload is refused whatever its parts are.
  \<open>Number\<close> of at most 16 digits is exact up to \<open>2\<^sup>5\<^sup>3\<close> and stays unsafe above.
\<close>

definition decodePayload :: "int \<Rightarrow> string \<Rightarrow> parsedSessionPayload option" where
  "decodePayload now encodedPayload =
     (let payloadBuf = base64Decode encodedPayload in
      if length payloadBuf < 1 \<or> MAX_PAYLOAD_BYTES < length payloadBuf then None
      else if base64Encode payloadBuf \<noteq> encodedPayload then None
      else case utf8Text payloadBuf of
          None \<Rightarrow> None
        | Some rawPayload \<Rightarrow>
           (case split_on CHR ''.'' rawPayload of
              [sessionId, token, expiresAtStr] \<Rightarrow>
                if \<not> ID_OR_TOKEN_REGEX sessionId \<or> \<not> ID_OR_TOKEN_REGEX token then None
                else if \<not> CANONICAL_EXPIRES_AT_REGEX expiresAtStr then None
                else let expiresAt = int (digits_value expiresAtStr) in
                     if \<not> isSafeInteger (Num expiresAt) then None
                     else if expiresAt < now then None
                     else Some \<lparr>psp_sessionId = sessionId, psp_token = token, psp_expiresAt = expiresAt\<rparr>
            | _ \<Rightarrow> None))"

definition verifyAndDecodeCookieValue :: "hmac \<Rightarrow> int \<Rightarrow> string \<Rightarrow> string \<Rightarrow> parsedSessionPayload option" where
  "verifyAndDecodeCookieValue hmac now signedCookieValue secret =
     (if \<not> truthy signedCookieValue \<or> \<not> truthy secret \<or> length secret < MIN_SECRET_LEN then None
      else case split_on CHR ''.'' signedCookieValue of
          [encodedPayload, signature] \<Rightarrow>
            if \<not> truthy encodedPayload \<or> \<not> truthy signature then None
            else if \<not> BASE64URL_PAYLOAD_REGEX encodedPayload \<or> \<not> BASE64URL_SIGNATURE_REGEX signature then None
            else if \<not> verifySignature hmac encodedPayload signature secret then None
            else decodePayload now encodedPayload
        | _ \<Rightarrow> None)"

section \<open>Headers\<close>

record cookieOptions =
  co_path :: "string option"
  co_maxAgeSeconds :: "int option"
  co_httpOnly :: "bool option"
  co_secure :: "bool option"
  co_sameSite :: "string option"

fun join_str :: "string \<Rightarrow> string list \<Rightarrow> string" where
  "join_str sep [] = []"
| "join_str sep [p] = p"
| "join_str sep (p # q # ps) = p @ sep @ join_str sep (q # ps)"

definition buildSetCookieHeader :: "string \<Rightarrow> string \<Rightarrow> cookieOptions \<Rightarrow> string" where
  "buildSetCookieHeader name v options =
     (let path = case_option ''/'' (\<lambda>p. p) (co_path options);
          httpOnly = (co_httpOnly options \<noteq> Some False);
          sameSite = case_option ''Strict'' (\<lambda>s. s) (co_sameSite options);
          secure = case_option True (\<lambda>b. b) (co_secure options);
          maxAge = case_option (86400 * 7) (\<lambda>n. n) (co_maxAgeSeconds options) in
      join_str ''; ''
       ([name @ ''='' @ v, ''Path='' @ path, ''Max-Age='' @ show_int maxAge, ''SameSite='' @ sameSite] @
        (if httpOnly then [''HttpOnly''] else []) @ (if secure then [''Secure''] else [])))"

text \<open>A \<open>Cookie\<close> header as Node passes it: one string, several, or none.\<close>

datatype cookieHeader = NoHeader | OneHeader string | ManyHeaders "string list"

definition is_ows :: "char \<Rightarrow> bool" where
  "is_ows c \<longleftrightarrow> c = CHR 0x09 \<or> c = CHR '' ''"

definition cookiePair :: "string \<Rightarrow> (string \<times> string) option" where
  "cookiePair pair =
     (let leadingTrimmed = dropWhile is_ows pair in
      if leadingTrimmed = [] then None
      else if CHR ''='' \<notin> set leadingTrimmed then None
      else Some (js_trim (takeWhile (\<lambda>c. c \<noteq> CHR ''='') leadingTrimmed),
                 tl (dropWhile (\<lambda>c. c \<noteq> CHR ''='') leadingTrimmed)))"

fun scanPairs :: "string \<Rightarrow> string option \<Rightarrow> string list \<Rightarrow> string option" where
  "scanPairs cookieName foundVal [] = foundVal"
| "scanPairs cookieName foundVal (pair # pairs) =
     (case cookiePair pair of
        None \<Rightarrow> scanPairs cookieName foundVal pairs
      | Some (key, val) \<Rightarrow>
          if key = cookieName
          then (case foundVal of Some _ \<Rightarrow> None | None \<Rightarrow> scanPairs cookieName (Some val) pairs)
          else scanPairs cookieName foundVal pairs)"

definition rawHeader :: "cookieHeader \<Rightarrow> string" where
  "rawHeader h = (case h of NoHeader \<Rightarrow> [] | OneHeader s \<Rightarrow> s | ManyHeaders ss \<Rightarrow> join_str ''; '' ss)"

definition parseCookieFromHeader :: "cookieHeader \<Rightarrow> string \<Rightarrow> string option" where
  "parseCookieFromHeader cookieHeader cookieName =
     (if cookieHeader = NoHeader \<or> cookieHeader = OneHeader [] then None
      else let raw = rawHeader cookieHeader in
           if raw = [] then None else scanPairs cookieName None (split_on CHR '';'' raw))"

section \<open>The cookie that is accepted\<close>

lemma base64url_ascii: "is_base64url c \<Longrightarrow> of_char c < (128 :: nat) \<and> c \<noteq> CHR ''.''"
  by (auto simp: is_base64url_def is_alnum_def)

lemma alphabet_base64url: "c \<in> set base64Alphabet \<Longrightarrow> is_base64url c"
proof -
  assume c: "c \<in> set base64Alphabet"
  have "list_all is_base64url base64Alphabet" by (simp add: base64Alphabet_def is_base64url_def is_alnum_def)
  then show ?thesis using c by (simp add: list_all_iff)
qed

lemma base64Encode_base64url: "list_all is_base64url (base64Encode bs)"
  using base64Encode_chars[of bs] alphabet_base64url unfolding list_all_iff by blast

lemma base64url_no_dot: "list_all is_base64url s \<Longrightarrow> CHR ''.'' \<notin> set s"
  using base64url_ascii unfolding list_all_iff by blast

lemma base64url_utf8_length: "list_all is_base64url s \<Longrightarrow> length (utf8Bytes s) = length s"
  using length_utf8Bytes_ascii[of s] base64url_ascii unfolding list_all_iff by blast

lemma verifySignature_iff:
  "verifySignature hmac payload signature secret \<longleftrightarrow>
     MIN_SECRET_LEN \<le> length secret \<and> BASE64URL_PAYLOAD_REGEX payload \<and> BASE64URL_SIGNATURE_REGEX signature \<and>
     signature = hmac secret payload"
proof -
  have "length (utf8Bytes signature) = 43" if "BASE64URL_SIGNATURE_REGEX signature"
    using that base64url_utf8_length[of signature] by (simp add: BASE64URL_SIGNATURE_REGEX_def)
  moreover have "payload \<noteq> []" if "BASE64URL_PAYLOAD_REGEX payload" using that by (auto simp: BASE64URL_PAYLOAD_REGEX_def)
  moreover have "signature \<noteq> []" if "BASE64URL_SIGNATURE_REGEX signature" using that by (auto simp: BASE64URL_SIGNATURE_REGEX_def)
  moreover have "secret \<noteq> []" if "MIN_SECRET_LEN \<le> length secret" using that by (auto simp: MIN_SECRET_LEN_def)
  ultimately show ?thesis
    by (auto simp: verifySignature_def Let_def truthy_def signPayload_def utf8Bytes_inj not_less)
qed

lemma verify_iff:
  "verifyAndDecodeCookieValue hmac now cookie secret = Some p \<longleftrightarrow>
     (\<exists>enc. cookie = enc @ ''.'' @ hmac secret enc \<and> MIN_SECRET_LEN \<le> length secret \<and>
        BASE64URL_PAYLOAD_REGEX enc \<and> BASE64URL_SIGNATURE_REGEX (hmac secret enc) \<and> decodePayload now enc = Some p)"
proof
  assume v: "verifyAndDecodeCookieValue hmac now cookie secret = Some p"
  then obtain enc sig where parts: "split_on CHR ''.'' cookie = [enc, sig]"
    and ok: "verifySignature hmac enc sig secret" "decodePayload now enc = Some p"
    by (auto simp: verifyAndDecodeCookieValue_def split: if_splits list.splits)
  then show "\<exists>enc. cookie = enc @ ''.'' @ hmac secret enc \<and> MIN_SECRET_LEN \<le> length secret \<and>
        BASE64URL_PAYLOAD_REGEX enc \<and> BASE64URL_SIGNATURE_REGEX (hmac secret enc) \<and> decodePayload now enc = Some p"
    by (intro exI[of _ enc]) (auto simp: split_on_iff verifySignature_iff)
next
  assume "\<exists>enc. cookie = enc @ ''.'' @ hmac secret enc \<and> MIN_SECRET_LEN \<le> length secret \<and>
        BASE64URL_PAYLOAD_REGEX enc \<and> BASE64URL_SIGNATURE_REGEX (hmac secret enc) \<and> decodePayload now enc = Some p"
  then obtain enc where enc: "cookie = enc @ ''.'' @ hmac secret enc" "MIN_SECRET_LEN \<le> length secret"
    "BASE64URL_PAYLOAD_REGEX enc" "BASE64URL_SIGNATURE_REGEX (hmac secret enc)" "decodePayload now enc = Some p" by blast
  have "CHR ''.'' \<notin> set enc" "CHR ''.'' \<notin> set (hmac secret enc)"
    using enc(3,4) base64url_no_dot by (auto simp: BASE64URL_PAYLOAD_REGEX_def BASE64URL_SIGNATURE_REGEX_def)
  then have "split_on CHR ''.'' cookie = [enc, hmac secret enc]" by (simp add: split_on_iff enc(1))
  moreover have "verifySignature hmac enc (hmac secret enc) secret" using enc by (simp add: verifySignature_iff)
  moreover have "enc \<noteq> []" "hmac secret enc \<noteq> []" "secret \<noteq> []"
    using enc(2-4) by (auto simp: BASE64URL_PAYLOAD_REGEX_def BASE64URL_SIGNATURE_REGEX_def MIN_SECRET_LEN_def)
  ultimately show "verifyAndDecodeCookieValue hmac now cookie secret = Some p"
    using enc(2-5) by (simp add: verifyAndDecodeCookieValue_def truthy_def enc(1))
qed

definition sessionText :: "parsedSessionPayload \<Rightarrow> string" where
  "sessionText p = psp_sessionId p @ ''.'' @ psp_token p @ ''.'' @ show_int (psp_expiresAt p)"

definition validSession :: "parsedSessionPayload \<Rightarrow> bool" where
  "validSession p \<longleftrightarrow> ID_OR_TOKEN_REGEX (psp_sessionId p) \<and> ID_OR_TOKEN_REGEX (psp_token p) \<and>
     0 < psp_expiresAt p \<and> psp_expiresAt p \<le> MAX_SAFE_INTEGER"

lemma canonical_show:
  "0 < e \<Longrightarrow> e \<le> MAX_SAFE_INTEGER \<Longrightarrow> CANONICAL_EXPIRES_AT_REGEX (show_int e) \<and> int (digits_value (show_int e)) = e"
  using show_nat_length[of "nat e" 15] canonicalInt_show[of "nat e"]
  by (simp add: CANONICAL_EXPIRES_AT_REGEX_def show_int_def MAX_SAFE_INTEGER_def digits_value_show_nat)

lemma canonical_read:
  "CANONICAL_EXPIRES_AT_REGEX s \<Longrightarrow> show_int (int (digits_value s)) = s \<and> 0 < digits_value s"
  by (simp add: CANONICAL_EXPIRES_AT_REGEX_def show_int_def canonicalInt_value)

lemma id_no_dot: "ID_OR_TOKEN_REGEX s \<Longrightarrow> CHR ''.'' \<notin> set s"
  using base64url_no_dot by (simp add: ID_OR_TOKEN_REGEX_def)

lemma digits_no_dot: "CHR ''.'' \<notin> set (show_nat n)"
  using show_nat_digits[of n] unfolding list_all_iff by (auto simp: is_digit_def)

lemma session_bytes_length:
  assumes "validSession p"
  shows "1 \<le> length (utf8Bytes (sessionText p))" "length (utf8Bytes (sessionText p)) \<le> 274"
proof -
  have digits: "list_all (\<lambda>c. of_char c < (128 :: nat)) (show_int (psp_expiresAt p))"
    using show_nat_digits[of "nat (psp_expiresAt p)"] assms by (auto simp: show_int_def validSession_def list_all_iff is_digit_def)
  have ids: "list_all (\<lambda>c. of_char c < (128 :: nat)) (psp_sessionId p)" "list_all (\<lambda>c. of_char c < (128 :: nat)) (psp_token p)"
    using assms base64url_ascii unfolding validSession_def ID_OR_TOKEN_REGEX_def list_all_iff by blast+
  have "length (utf8Bytes (sessionText p)) = length (sessionText p)"
    using digits ids by (intro length_utf8Bytes_ascii) (simp add: sessionText_def)
  moreover have "length (show_int (psp_expiresAt p)) \<le> 16"
    using assms canonical_show[of "psp_expiresAt p"] by (simp add: validSession_def CANONICAL_EXPIRES_AT_REGEX_def)
  ultimately show "1 \<le> length (utf8Bytes (sessionText p))" "length (utf8Bytes (sessionText p)) \<le> 274"
    using assms by (simp_all add: sessionText_def validSession_def ID_OR_TOKEN_REGEX_def)
qed

lemma decode_iff:
  "decodePayload now enc = Some p \<longleftrightarrow>
     enc = base64Encode (utf8Bytes (sessionText p)) \<and> validSession p \<and> now \<le> psp_expiresAt p"
proof
  assume d: "decodePayload now enc = Some p"
  then obtain raw sid tok e where raw: "base64Encode (base64Decode enc) = enc" "utf8Text (base64Decode enc) = Some raw"
    "split_on CHR ''.'' raw = [sid, tok, e]" "ID_OR_TOKEN_REGEX sid" "ID_OR_TOKEN_REGEX tok" "CANONICAL_EXPIRES_AT_REGEX e"
    "isSafeInteger (Num (int (digits_value e)))" "now \<le> int (digits_value e)"
    "p = \<lparr>psp_sessionId = sid, psp_token = tok, psp_expiresAt = int (digits_value e)\<rparr>"
    by (auto simp: decodePayload_def Let_def not_less simp del: isSafeInteger.simps split: if_splits option.splits list.splits)
  have "sessionText p = raw" using raw(3) canonical_read[OF raw(6)] by (simp add: sessionText_def raw(9) split_on_iff)
  then have "enc = base64Encode (utf8Bytes (sessionText p))" using raw(1) utf8Text_Some[OF raw(2)] by simp
  then show "enc = base64Encode (utf8Bytes (sessionText p)) \<and> validSession p \<and> now \<le> psp_expiresAt p"
    using raw(4-8) canonical_read[OF raw(6)] by (simp add: raw(9) validSession_def)
next
  assume a: "enc = base64Encode (utf8Bytes (sessionText p)) \<and> validSession p \<and> now \<le> psp_expiresAt p"
  then have v: "ID_OR_TOKEN_REGEX (psp_sessionId p)" "ID_OR_TOKEN_REGEX (psp_token p)" "0 < psp_expiresAt p"
    "psp_expiresAt p \<le> MAX_SAFE_INTEGER" by (simp_all add: validSession_def)
  have "split_on CHR ''.'' (sessionText p) = [psp_sessionId p, psp_token p, show_int (psp_expiresAt p)]"
    using id_no_dot[OF v(1)] id_no_dot[OF v(2)] digits_no_dot v(3) by (simp add: split_on_iff sessionText_def show_int_def)
  then show "decodePayload now enc = Some p"
    using a v canonical_show[OF v(3,4)] session_bytes_length[of p]
    by (auto simp: decodePayload_def Let_def base64_roundtrip utf8_roundtrip MAX_PAYLOAD_BYTES_def not_less)
qed

lemma create_iff:
  "createSignedCookieValue hmac (psp_sessionId p) (psp_token p) (Num (psp_expiresAt p)) secret = Inr cookie \<longleftrightarrow>
     validSession p \<and> MIN_SECRET_LEN \<le> length secret \<and>
     cookie = base64Encode (utf8Bytes (sessionText p)) @ ''.'' @ hmac secret (base64Encode (utf8Bytes (sessionText p)))"
  by (auto simp: createSignedCookieValue_def Let_def validSession_def sessionText_def signPayload_def not_less not_le)

lemma encoded_payload: "validSession p \<Longrightarrow> BASE64URL_PAYLOAD_REGEX (base64Encode (utf8Bytes (sessionText p)))"
  using session_bytes_length[of p] base64Encode_length(1)[of "utf8Bytes (sessionText p)"]
    base64Encode_length(2)[of "utf8Bytes (sessionText p)"] base64Encode_base64url[of "utf8Bytes (sessionText p)"]
  by (auto simp: BASE64URL_PAYLOAD_REGEX_def Suc_le_eq)

lemma verified_created:
  "verifyAndDecodeCookieValue hmac now cookie secret = Some p \<Longrightarrow>
     createSignedCookieValue hmac (psp_sessionId p) (psp_token p) (Num (psp_expiresAt p)) secret = Inr cookie \<and>
     now \<le> psp_expiresAt p"
  unfolding verify_iff decode_iff create_iff by blast

lemma created_verified:
  assumes "\<And>k m. length (hmac k m) = 43 \<and> list_all is_base64url (hmac k m)"
    and "createSignedCookieValue hmac (psp_sessionId p) (psp_token p) (Num (psp_expiresAt p)) secret = Inr cookie"
    and "now \<le> psp_expiresAt p"
  shows "verifyAndDecodeCookieValue hmac now cookie secret = Some p"
  using assms encoded_payload[of p] unfolding verify_iff decode_iff create_iff BASE64URL_SIGNATURE_REGEX_def by blast

text \<open>
  C22. A session cookie is accepted exactly when the platform issued it: for a keyed hash whose
  digests are 43 base64url characters, verifying a cookie value yields a session if and only if that
  value is what \<open>createSignedCookieValue\<close> produces for this session under the same secret and the
  session has not expired. So issued cookies round-trip, and no second spelling of a cookie (another
  base64 form, a leading zero, an extra part, another charset) passes with a valid signature.
\<close>

theorem cookie_accepted_iff:
  assumes "\<And>k m. length (hmac k m) = 43 \<and> list_all is_base64url (hmac k m)"
  shows "verifyAndDecodeCookieValue hmac now cookie secret = Some p \<longleftrightarrow>
     createSignedCookieValue hmac (psp_sessionId p) (psp_token p) (Num (psp_expiresAt p)) secret = Inr cookie \<and>
     now \<le> psp_expiresAt p"
  using verified_created created_verified[of hmac, OF assms] by blast

definition exampleHash :: hmac where
  "exampleHash k m = map (\<lambda>i. base64Char ((length k + 7 * length m + i) mod 64)) [0..<43]"

lemma exampleHash_digest: "length (exampleHash k m) = 43 \<and> list_all is_base64url (exampleHash k m)"
  by (auto simp: exampleHash_def list_all_iff intro!: alphabet_base64url base64Char_in)

lemma example_number: "show_int 5 = ''5''"
  by code_simp

lemma example_payload: "base64Encode (utf8Bytes ''s.t.5'') = ''cy50LjU''"
  by (simp add: utf8Bytes_def utf8Char_def base64Char_def base64Alphabet_def)

lemma example_signature: "exampleHash ''0123456789abcdef'' ''cy50LjU'' = ''BCDEFGHIJKLMNOPQRSTUVWXYZabcdefghijklmnopqr''"
  by (simp add: exampleHash_def base64Char_def base64Alphabet_def upt_rec)

theorem cookie_accepted_iff_witness:
  "verifyAndDecodeCookieValue exampleHash 4 ''cy50LjU.BCDEFGHIJKLMNOPQRSTUVWXYZabcdefghijklmnopqr'' ''0123456789abcdef'' =
     Some \<lparr>psp_sessionId = ''s'', psp_token = ''t'', psp_expiresAt = 5\<rparr>"
  by (subst cookie_accepted_iff[of exampleHash, OF exampleHash_digest])
    (subst create_iff, simp add: validSession_def sessionText_def example_number example_payload example_signature
      ID_OR_TOKEN_REGEX_def MIN_SECRET_LEN_def is_base64url_def is_alnum_def MAX_SAFE_INTEGER_def)

section \<open>The cookie header\<close>

text \<open>The reference: all pairs of the header in order; the cookie is the value of the only pair
  of that name.\<close>

definition cookiePairs :: "string \<Rightarrow> (string \<times> string) list" where
  "cookiePairs raw = List.map_filter cookiePair (split_on CHR '';'' raw)"

lemma map_filter_Cons: "List.map_filter f (x # xs) = (case f x of None \<Rightarrow> List.map_filter f xs | Some y \<Rightarrow> y # List.map_filter f xs)"
  by (simp add: map_filter_simps split: option.splits)

lemma scanPairs_found:
  "scanPairs name (Some v) pairs = Some w \<longleftrightarrow>
     v = w \<and> filter (\<lambda>kv. fst kv = name) (List.map_filter cookiePair pairs) = []"
  by (induction pairs) (auto simp: map_filter_simps map_filter_Cons split: option.splits)

lemma scanPairs_start:
  "scanPairs name None pairs = Some w \<longleftrightarrow>
     filter (\<lambda>kv. fst kv = name) (List.map_filter cookiePair pairs) = [(name, w)]"
  by (induction pairs) (auto simp: map_filter_simps map_filter_Cons scanPairs_found split: option.splits)

lemma parseCookie_iff:
  "parseCookieFromHeader h name = Some v \<longleftrightarrow>
     filter (\<lambda>kv. fst kv = name) (cookiePairs (rawHeader h)) = [(name, v)]"
proof -
  have "cookiePairs [] = []" by (simp add: cookiePairs_def map_filter_simps cookiePair_def Let_def)
  then show ?thesis
    by (auto simp: parseCookieFromHeader_def rawHeader_def Let_def scanPairs_start[folded cookiePairs_def] cookiePairs_def
      split: cookieHeader.splits)
qed

text \<open>
  Reading a cookie out of the request agrees with the reference: a value is found exactly when
  it belongs to the only pair of that name in the whole header (several header lines are one), so a
  second cookie of the same name, wherever it stands, makes the platform see none.
\<close>

theorem cookie_header_unique_pair:
  "parseCookieFromHeader h name = Some v \<longleftrightarrow>
     filter (\<lambda>kv. fst kv = name) (cookiePairs (rawHeader h)) = [(name, v)]"
  by (rule parseCookie_iff)

end
