(* ===== verification/Auth_Service.thy ===== *)
theory Auth_Service
  imports Auth_Store Password_Hash Session_Cookie
begin

text \<open>
  The authentication service (\<open>platform-auth/src/service/auth-service.ts\<close>) and the role policy
  (\<open>platform-auth/src/policy/roles.ts\<close>): login, cookie and token authentication, revocation,
  logout and rotation over the tables of \<open>Auth_Store\<close>. The functions of the crypto library are
  fields of the service: \<open>as_sha\<close> is the hexadecimal SHA-256 of a text, \<open>as_hmac\<close> and \<open>as_scrypt\<close> are as
  in \<open>Session_Cookie\<close> and \<open>Password_Hash\<close>. One operation runs without another request in between.
\<close>

section \<open>Configuration\<close>

record authServiceConfig =
  ac_cookieSecret :: string
  ac_sessionTtlSeconds :: "int option"
  ac_cookieName :: "string option"
  ac_cookieSecure :: "bool option"
  ac_cookieSameSite :: "string option"
  ac_cookiePath :: "string option"

record authService =
  as_sha :: "string \<Rightarrow> string"
  as_hmac :: hmac
  as_scrypt :: scrypt
  as_cookieSecret :: string
  as_sessionTtlSeconds :: int
  as_cookieName :: string
  as_cookieSecure :: bool
  as_cookieSameSite :: string
  as_cookiePath :: string

definition DEFAULT_SESSION_TTL_SECONDS :: int where
  "DEFAULT_SESSION_TTL_SECONDS = 7 * 24 * 60 * 60"

definition DEFAULT_COOKIE_NAME :: string where
  "DEFAULT_COOKIE_NAME = ''enkeep_session''"

definition newAuthService :: "(string \<Rightarrow> string) \<Rightarrow> hmac \<Rightarrow> scrypt \<Rightarrow> authServiceConfig \<Rightarrow> authError + authService" where
  "newAuthService sha hmac scrypt config =
     (if \<not> truthy (ac_cookieSecret config) \<or> length (ac_cookieSecret config) < 16
      then Inl (PlainError ''AuthService requires a cookieSecret of at least 16 characters'')
      else Inr \<lparr>as_sha = sha, as_hmac = hmac, as_scrypt = scrypt,
        as_cookieSecret = ac_cookieSecret config,
        as_sessionTtlSeconds = orDefault (ac_sessionTtlSeconds config) DEFAULT_SESSION_TTL_SECONDS,
        as_cookieName = orDefault (ac_cookieName config) DEFAULT_COOKIE_NAME,
        as_cookieSecure = orDefault (ac_cookieSecure config) True,
        as_cookieSameSite = orDefault (ac_cookieSameSite config) ''Strict'',
        as_cookiePath = orDefault (ac_cookiePath config) ''/''\<rparr>)"

section \<open>Validation\<close>

definition HEX_LOWER_64_REGEX :: "string \<Rightarrow> bool" where
  "HEX_LOWER_64_REGEX s \<longleftrightarrow> length s = 64 \<and> list_all is_lower_hex s"

definition hasControlChars :: "string \<Rightarrow> bool" where
  "hasControlChars s \<longleftrightarrow> list_ex (\<lambda>c. of_char c < (32 :: nat) \<or> of_char c = (127 :: nat)) s"

definition MAX_USERNAME_LEN :: nat where "MAX_USERNAME_LEN = 128"

definition MAX_IP_LEN :: nat where "MAX_IP_LEN = 45"

definition MAX_USER_AGENT_LEN :: nat where "MAX_USER_AGENT_LEN = 512"

definition DUMMY_SCRYPT_HASH :: string where
  "DUMMY_SCRYPT_HASH = ''scrypt$16384$8$1$'' @ concat (replicate 2 ''0123456789abcdef'') @ ''$'' @
     concat (replicate 8 ''0123456789abcdef'')"

record authContext =
  cx_ipAddress :: "string option"
  cx_userAgent :: "string option"

definition sanitizeContextIp :: "string option \<Rightarrow> string option" where
  "sanitizeContextIp ip =
     (case ip of
        None \<Rightarrow> None
      | Some s \<Rightarrow> if \<not> truthy s then None else if MAX_IP_LEN < length s \<or> hasControlChars s then None else Some s)"

definition sanitizeContextUserAgent :: "string option \<Rightarrow> string option" where
  "sanitizeContextUserAgent ua =
     (case ua of
        None \<Rightarrow> None
      | Some s \<Rightarrow> if \<not> truthy s then None else if MAX_USER_AGENT_LEN < length s \<or> hasControlChars s then None else Some s)"

definition isValidUsername :: "string \<Rightarrow> bool" where
  "isValidUsername username =
     (if username = [] \<or> MAX_USERNAME_LEN < length username then False
      else if hasControlChars username then False else True)"

definition isValidPassword :: "string \<Rightarrow> bool" where
  "isValidPassword password =
     (if password = [] then False
      else let byteLen = utf8Length password in
           if byteLen < 1 \<or> MAX_PASSWORD_BYTES < byteLen then False else True)"

section \<open>Sessions and cookies\<close>

record sessionResult =
  sr_session :: userSession
  sr_sessionToken :: string
  sr_cookieHeader :: string

text \<open>The steps \<open>login\<close> and \<open>createSession\<close> share: draw a token, store the hash of it with the time it
  expires, and sign the cookie. \<open>toISOString\<close> throws for a time outside the range of \<open>Date\<close>.\<close>

definition issueSession ::
  "authService \<Rightarrow> authEnv \<Rightarrow> string \<Rightarrow> string option \<Rightarrow> string option \<Rightarrow> (authDb, authError, sessionResult) op" where
  "issueSession svc env userId ipAddress userAgent =
     (let token = ae_token env;
          tokenHash = as_sha svc token;
          expiresAtMs = ae_now env + as_sessionTtlSeconds svc * 1000 in
      if \<not> validTime expiresAtMs then (\<lambda>db. (Inl (PlainError ''Invalid time value''), db))
      else seq (createUserSession env userId tokenHash (toISOString expiresAtMs) ipAddress userAgent) (\<lambda>session.
           check (map_sum PlainError (\<lambda>v. v)
               (createSignedCookieValue (as_hmac svc) (us_id session) token (Num expiresAtMs) (as_cookieSecret svc)))
             (\<lambda>signedCookieValue db.
               (Inr \<lparr>sr_session = session, sr_sessionToken = token,
                  sr_cookieHeader = buildSetCookieHeader (as_cookieName svc) signedCookieValue
                    \<lparr>co_path = Some (as_cookiePath svc), co_maxAgeSeconds = Some (as_sessionTtlSeconds svc),
                     co_httpOnly = Some True, co_secure = Some (as_cookieSecure svc),
                     co_sameSite = Some (as_cookieSameSite svc)\<rparr>\<rparr>, db))))"

definition createSession ::
  "authService \<Rightarrow> authEnv \<Rightarrow> string \<Rightarrow> authContext \<Rightarrow> (authDb, authError, sessionResult) op" where
  "createSession svc env userId context =
     issueSession svc env userId (sanitizeContextIp (cx_ipAddress context)) (sanitizeContextUserAgent (cx_userAgent context))"

section \<open>Login\<close>

record loginResult =
  lr_user :: user
  lr_session :: userSession
  lr_sessionToken :: string
  lr_cookieHeader :: string

text \<open>An attempt that fails is logged, then refused with the same words whatever was wrong. The
  verification of a dummy hash, which only takes time, has no effect to model.\<close>

definition refuseLogin :: "authAuditLog \<Rightarrow> (authDb, authError, 'a) op" where
  "refuseLogin row = seq (createAuditLog row) (\<lambda>_ db. (Inl (UnauthorizedError ''Invalid username or password''), db))"

definition login ::
  "authService \<Rightarrow> authEnv \<Rightarrow> string \<Rightarrow> string \<Rightarrow> authContext \<Rightarrow> (authDb, authError, loginResult) op" where
  "login svc env username password context db =
     (let ipAddress = sanitizeContextIp (cx_ipAddress context);
          userAgent = sanitizeContextUserAgent (cx_userAgent context) in
      if \<not> isValidUsername username \<or> \<not> isValidPassword password
      then refuseLogin (newAuditLog env None None LoginFailure ipAddress userAgent (Some ''invalid_credentials'')) db
      else case findByUsername username db of
        None \<Rightarrow> refuseLogin (newAuditLog env None None LoginFailure ipAddress userAgent (Some ''user_not_found'')) db
      | Some user \<Rightarrow>
          if \<not> verifyPassword (as_scrypt svc) password (u_passwordHash user)
          then refuseLogin (newAuditLog env (Some (u_id user)) (Some (u_username user)) LoginFailure ipAddress userAgent
                 (Some ''invalid_password'')) db
          else if u_status user = DisabledUser
          then refuseLogin (newAuditLog env (Some (u_id user)) (Some (u_username user)) AccountDisabled ipAddress userAgent
                 (Some ''account_disabled_at_login'')) db
          else seq (issueSession svc env (u_id user) ipAddress userAgent) (\<lambda>issued.
               seq (createAuditLog
                      (newAuditLog env (Some (u_id user)) (Some (u_username user)) LoginSuccess ipAddress userAgent None))
                 (\<lambda>_ db'. (Inr \<lparr>lr_user = user, lr_session = sr_session issued, lr_sessionToken = sr_sessionToken issued,
                             lr_cookieHeader = sr_cookieHeader issued\<rparr>, db'))) db)"

section \<open>Authentication\<close>

datatype sessionAuthResult = Authenticated user userSession | NotAuthenticated string

definition invalidSession :: sessionAuthResult where
  "invalidSession = NotAuthenticated ''Invalid session''"

text \<open>The comparison of the two hashes through buffers of 32 bytes.\<close>

definition tokenHashMatches :: "string \<Rightarrow> string \<Rightarrow> bool" where
  "tokenHashMatches expectedHash storedHash =
     (if \<not> HEX_LOWER_64_REGEX storedHash then False
      else if \<not> HEX_LOWER_64_REGEX expectedHash then False
      else let expectedBuf = hexDecode expectedHash; actualBuf = hexDecode storedHash in
           \<not> (length expectedBuf \<noteq> 32 \<or> length actualBuf \<noteq> 32 \<or> hexEncode expectedBuf \<noteq> expectedHash \<or>
              hexEncode actualBuf \<noteq> storedHash \<or> expectedBuf \<noteq> actualBuf))"

definition authenticateToken ::
  "authService \<Rightarrow> authEnv \<Rightarrow> string \<Rightarrow> string \<Rightarrow> authContext \<Rightarrow> (authDb, authError, sessionAuthResult) op" where
  "authenticateToken svc env sessionId token context db =
     (let ipAddress = sanitizeContextIp (cx_ipAddress context);
          userAgent = sanitizeContextUserAgent (cx_userAgent context) in
      if \<not> truthy sessionId \<or> \<not> truthy token then (Inr invalidSession, db)
      else case findSessionById sessionId db of
        None \<Rightarrow> (Inr invalidSession, db)
      | Some session \<Rightarrow>
          if opt_truthy (us_revokedAt session) then (Inr invalidSession, db)
          else if readIso (us_expiresAt session) < ae_now env then (Inr invalidSession, db)
          else if \<not> tokenHashMatches (as_sha svc token) (us_tokenHash session) then (Inr invalidSession, db)
          else case findUserById (us_userId session) db of
            None \<Rightarrow> (Inr invalidSession, db)
          | Some user \<Rightarrow>
              if u_status user = DisabledUser
              then seq (createAuditLog (newAuditLog env (Some (u_id user)) (Some (u_username user)) AccountDisabled ipAddress
                      userAgent (Some ''account_disabled_during_session_auth'')))
                    (\<lambda>_ db'. (Inr invalidSession, db')) db
              else seq (updateUserSession (us_id session) (Some (toISOString (ae_now env))) None)
                    (\<lambda>_ db'. (Inr (Authenticated user session), db')) db)"

definition authenticateCookie ::
  "authService \<Rightarrow> authEnv \<Rightarrow> cookieHeader \<Rightarrow> authContext \<Rightarrow> (authDb, authError, sessionAuthResult) op" where
  "authenticateCookie svc env header context db =
     (case parseCookieFromHeader header (as_cookieName svc) of
        None \<Rightarrow> (Inr invalidSession, db)
      | Some rawCookie \<Rightarrow>
          if \<not> truthy rawCookie then (Inr invalidSession, db)
          else case verifyAndDecodeCookieValue (as_hmac svc) (ae_now env) rawCookie (as_cookieSecret svc) of
            None \<Rightarrow> (Inr invalidSession, db)
          | Some payload \<Rightarrow> authenticateToken svc env (psp_sessionId payload) (psp_token payload) context db)"

section \<open>Revocation, logout and rotation\<close>

definition revokeSession :: "authEnv \<Rightarrow> string \<Rightarrow> string option \<Rightarrow> (authDb, authError, unit) op" where
  "revokeSession env sessionId revokedAt db =
     (Inr (), revoke sessionId (orDefault revokedAt (toISOString (ae_now env))) db)"

definition revokeAllUserSessions :: "authEnv \<Rightarrow> string \<Rightarrow> string option \<Rightarrow> (authDb, authError, nat) op" where
  "revokeAllUserSessions env userId revokedAt db =
     (let (n, db') = revokeAllForUser userId (orDefault revokedAt (toISOString (ae_now env))) db in (Inr n, db'))"

definition logout :: "authEnv \<Rightarrow> string \<Rightarrow> authContext \<Rightarrow> (authDb, authError, unit) op" where
  "logout env sessionId context db =
     (case findSessionById sessionId db of
        None \<Rightarrow> (Inr (), db)
      | Some session \<Rightarrow>
          let db' = revoke sessionId (toISOString (ae_now env)) db in
          seq (createAuditLog (newAuditLog env (Some (us_userId session))
                  (map_option u_username (findUserById (us_userId session) db')) SessionRevoked
                  (sanitizeContextIp (cx_ipAddress context)) (sanitizeContextUserAgent (cx_userAgent context)) None))
            (\<lambda>_ db''. (Inr (), db'')) db')"

definition rotateSession ::
  "authService \<Rightarrow> authEnv \<Rightarrow> string \<Rightarrow> authContext \<Rightarrow> (authDb, authError, sessionResult) op" where
  "rotateSession svc env userId context db =
     (let db' = snd (revokeAllForUser userId (toISOString (ae_now env)) db) in
      seq (createSession svc env userId context) (\<lambda>newSessionResult db''.
        seq (createAuditLog (newAuditLog env (Some userId) (map_option u_username (findUserById userId db'')) SessionRevoked
                (sanitizeContextIp (cx_ipAddress context)) (sanitizeContextUserAgent (cx_userAgent context)) None))
          (\<lambda>_ db'''. (Inr newSessionResult, db''')) db'') db')"

section \<open>Roles\<close>

datatype executionMode = HostMode | ContainerMode

definition canManageHostRuntime :: "user \<Rightarrow> bool" where
  "canManageHostRuntime user \<longleftrightarrow> u_role user = Admin \<and> u_status user = ActiveUser"

definition canExecuteOnHost :: "user \<Rightarrow> bool" where
  "canExecuteOnHost user = canManageHostRuntime user"

definition hasPermission :: "user \<Rightarrow> string \<Rightarrow> bool" where
  "hasPermission user permission = (if permission = ''manage_host_runtime'' then canManageHostRuntime user else False)"

definition resolveExecutionMode :: "user \<Rightarrow> executionMode option \<Rightarrow> executionMode" where
  "resolveExecutionMode user requestedMode =
     (if requestedMode = Some HostMode then (if canManageHostRuntime user then HostMode else ContainerMode)
      else ContainerMode)"

end
