(* ===== verification/Auth_Steps.thy ===== *)
theory Auth_Steps
  imports Auth_Service
begin

text \<open>
  The service as a state machine. Each operation of \<open>Auth_Service\<close> is shown to be a sequence of
  elementary moves on the tables; invariants and the lasting effect of a revocation are proved for
  the moves, once, by rule induction.
\<close>

section \<open>Operations\<close>

datatype authOp =
    Login string string authContext
  | AuthenticateCookie cookieHeader authContext
  | AuthenticateToken string string authContext
  | RevokeSession string "string option"
  | RevokeAllUserSessions string "string option"
  | Logout string authContext
  | CreateSession string authContext
  | RotateSession string authContext
  | CreateUser createUserInput
  | UpdateUser string updateUserInput
  | DeleteExpired string

fun authStep :: "authService \<Rightarrow> authEnv \<times> authOp \<Rightarrow> authDb \<Rightarrow> authDb" where
  "authStep svc (env, Login username password ctx) db = snd (login svc env username password ctx db)"
| "authStep svc (env, AuthenticateCookie header ctx) db = snd (authenticateCookie svc env header ctx db)"
| "authStep svc (env, AuthenticateToken sid token ctx) db = snd (authenticateToken svc env sid token ctx db)"
| "authStep svc (env, RevokeSession sid at') db = snd (revokeSession env sid at' db)"
| "authStep svc (env, RevokeAllUserSessions uid at') db = snd (revokeAllUserSessions env uid at' db)"
| "authStep svc (env, Logout sid ctx) db = snd (logout env sid ctx db)"
| "authStep svc (env, CreateSession uid ctx) db = snd (createSession svc env uid ctx db)"
| "authStep svc (env, RotateSession uid ctx) db = snd (rotateSession svc env uid ctx db)"
| "authStep svc (env, CreateUser input) db = snd (createUser env input db)"
| "authStep svc (env, UpdateUser uid input) db = snd (updateUser env uid input db)"
| "authStep svc (env, DeleteExpired now) db = snd (deleteExpired now db)"

definition runAuth :: "authService \<Rightarrow> (authEnv \<times> authOp) list \<Rightarrow> authDb \<Rightarrow> authDb" where
  "runAuth svc ops db = fold (authStep svc) ops db"

text \<open>An explicit time of revocation is not the empty text, which the service would read as "not
  revoked".\<close>

fun datedRevocation :: "authOp \<Rightarrow> bool" where
  "datedRevocation (RevokeSession _ (Some t)) = truthy t"
| "datedRevocation (RevokeAllUserSessions _ (Some t)) = truthy t"
| "datedRevocation _ = True"

section \<open>Elementary moves\<close>

inductive authMove :: "string \<Rightarrow> authDb \<Rightarrow> authDb \<Rightarrow> bool" for rowId where
  issue: "sessionInsertable row db \<Longrightarrow> us_id row = rowId \<Longrightarrow> us_revokedAt row = None \<Longrightarrow>
     validTime t \<Longrightarrow> us_expiresAt row = toISOString t \<Longrightarrow>
     authMove rowId db (db\<lparr>userSessions := userSessions db @ [row]\<rparr>)"
| touch: "authMove rowId db
     (db\<lparr>userSessions := tbl_update (\<lambda>s. us_id s = sid) (setSession (Some t) None) (userSessions db)\<rparr>)"
| withdraw: "truthy t \<Longrightarrow> authMove rowId db
     (db\<lparr>userSessions := tbl_update P (\<lambda>s. s\<lparr>us_revokedAt := Some t\<rparr>) (userSessions db)\<rparr>)"
| purge: "authMove rowId db (db\<lparr>userSessions := filter P (userSessions db)\<rparr>)"
| audit: "auditInsertable a db \<Longrightarrow> authMove rowId db (db\<lparr>authAuditLogs := authAuditLogs db @ [a]\<rparr>)"
| enrol: "findUserById (u_id u) db = None \<Longrightarrow> findByUsername (u_username u) db = None \<Longrightarrow>
     authMove rowId db (db\<lparr>users := users db @ [u]\<rparr>)"
| amend: "authMove rowId db (db\<lparr>users := tbl_update (\<lambda>u. u_id u = uid) (setUser env input) (users db)\<rparr>)"

abbreviation authMoves :: "string \<Rightarrow> authDb \<Rightarrow> authDb \<Rightarrow> bool" where
  "authMoves rowId \<equiv> (authMove rowId)\<^sup>*\<^sup>*"

lemma toISOString_truthy [simp]: "truthy (toISOString t)"
  using toISOString_ends[of t] by (simp add: truthy_def)

lemma tbl_get_snoc: "tbl_get P (xs @ [x]) = (case tbl_get P xs of Some y \<Rightarrow> Some y | None \<Rightarrow> if P x then Some x else None)"
  unfolding tbl_get_append by (auto simp: tbl_get_def split: option.splits)

lemma createAuditLog_eq:
  "createAuditLog row db =
     (if auditInsertable row db then (Inr row, db\<lparr>authAuditLogs := authAuditLogs db @ [row]\<rparr>) else (Inl ConstraintError, db))"
  by (auto simp: createAuditLog_def auditInsertable_def tbl_get_snoc split: option.splits)

lemma createUserSession_eq:
  "createUserSession env uid h e ip ua db =
     (let row = newSession env uid h e ip ua in
      if sessionInsertable row db then (Inr row, db\<lparr>userSessions := userSessions db @ [row]\<rparr>) else (Inl ConstraintError, db))"
  by (auto simp: createUserSession_def sessionInsertable_def findSessionById_def tbl_get_snoc Let_def split: option.splits)

lemma updateUserSession_snd:
  "snd (updateUserSession sid t r db) = db \<or>
   snd (updateUserSession sid t r db) =
     db\<lparr>userSessions := tbl_update (\<lambda>s. us_id s = sid) (setSession t r) (userSessions db)\<rparr>"
  by (auto simp: updateUserSession_def Let_def split: option.splits)

lemma audit_move: "authMoves rowId db (snd (createAuditLog row db))"
  by (auto simp: createAuditLog_eq intro: authMove.audit)

lemma refuse_move: "authMoves rowId db (snd (refuseLogin row db))"
  by (auto simp: refuseLogin_def seq_def createAuditLog_eq intro: authMove.audit)

lemma issueSession_cases:
  obtains (refused) e where "issueSession svc env uid ip ua db = (Inl e, db)"
  | (stored) row out where "issueSession svc env uid ip ua db = (out, db\<lparr>userSessions := userSessions db @ [row]\<rparr>)"
      "row = newSession env uid (as_sha svc (ae_token env)) (toISOString (ae_now env + as_sessionTtlSeconds svc * 1000)) ip ua"
      "sessionInsertable row db" "validTime (ae_now env + as_sessionTtlSeconds svc * 1000)"
proof -
  let ?row = "newSession env uid (as_sha svc (ae_token env)) (toISOString (ae_now env + as_sessionTtlSeconds svc * 1000)) ip ua"
  show thesis
  proof (cases "validTime (ae_now env + as_sessionTtlSeconds svc * 1000) \<and> sessionInsertable ?row db")
    case True
    then have "snd (issueSession svc env uid ip ua db) = db\<lparr>userSessions := userSessions db @ [?row]\<rparr>"
      by (simp add: issueSession_def createUserSession_eq seq_def Let_def check_def split: sum.splits)
    then show thesis using True by (intro stored[OF _ refl, of "fst (issueSession svc env uid ip ua db)"]) (simp_all add: prod_eq_iff)
  next
    case False
    then have "\<exists>e. issueSession svc env uid ip ua db = (Inl e, db)"
      by (auto simp: issueSession_def createUserSession_eq seq_def Let_def)
    then show thesis using refused by blast
  qed
qed

lemma issue_move: "authMoves (ae_rowId env) db (snd (issueSession svc env uid ip ua db))"
  by (rule issueSession_cases[of svc env uid ip ua db])
    (auto simp: newSession_def intro!: r_into_rtranclp authMove.issue)

lemma touch_move: "authMoves rowId db (snd (updateUserSession sid (Some t) None db))"
  using updateUserSession_snd[of sid "Some t" None db] by (auto intro: r_into_rtranclp[of "authMove rowId", OF authMove.touch])

lemma seq_moves:
  assumes "authMoves rowId db (snd (m db))" "\<And>x db'. m db = (Inr x, db') \<Longrightarrow> authMoves rowId db' (snd (f x db'))"
  shows "authMoves rowId db (snd (seq m f db))"
proof (cases "m db")
  case (Pair out db')
  then show ?thesis using assms by (cases out) (auto simp: seq_def intro: rtranclp_trans)
qed

lemma token_move: "authMoves rowId db (snd (authenticateToken svc env sid token ctx db))"
  by (auto simp: authenticateToken_def Let_def intro!: seq_moves audit_move touch_move split: option.splits)

lemma cookie_move: "authMoves rowId db (snd (authenticateCookie svc env header ctx db))"
  by (auto simp: authenticateCookie_def intro: token_move split: option.splits)

lemma login_move: "authMoves (ae_rowId env) db (snd (login svc env username password ctx db))"
  by (auto simp: login_def Let_def intro!: refuse_move seq_moves issue_move audit_move split: option.splits)

lemma revoke_move: "truthy t \<Longrightarrow> authMoves rowId db (revoke sid t db)"
  by (auto simp: revoke_def intro!: r_into_rtranclp authMove.withdraw)

lemma revokeAll_move: "truthy t \<Longrightarrow> authMoves rowId db (snd (revokeAllForUser uid t db))"
  by (auto simp: revokeAllForUser_def intro!: r_into_rtranclp authMove.withdraw)

lemma logout_move: "authMoves rowId db (snd (logout env sid ctx db))"
proof (cases "findSessionById sid db")
  case (Some s)
  have "authMoves rowId db (revoke sid (toISOString (ae_now env)) db)" by (rule revoke_move) simp
  then show ?thesis using Some
    by (auto simp: logout_def Let_def intro!: rtranclp_trans[OF _ seq_moves] audit_move)
qed (simp add: logout_def)

lemma rotate_move: "authMoves (ae_rowId env) db (snd (rotateSession svc env uid ctx db))"
proof -
  let ?db = "snd (revokeAllForUser uid (toISOString (ae_now env)) db)"
  have "authMoves (ae_rowId env) db ?db" by (rule revokeAll_move) simp
  moreover have "authMoves (ae_rowId env) ?db (snd (rotateSession svc env uid ctx db))"
    unfolding rotateSession_def Let_def createSession_def by (intro seq_moves issue_move audit_move) simp
  ultimately show ?thesis by (rule rtranclp_trans)
qed

lemma createUser_move: "authMoves rowId db (snd (createUser env input db))"
  by (auto simp: createUser_def Let_def intro!: r_into_rtranclp authMove.enrol split: option.splits)

lemma updateUser_move: "authMoves rowId db (snd (updateUser env uid input db))"
  by (auto simp: updateUser_def Let_def intro!: r_into_rtranclp authMove.amend split: option.splits)

lemma step_moves: "datedRevocation op \<Longrightarrow> authMoves (ae_rowId env) db (authStep svc (env, op) db)"
proof (cases op)
  case (RevokeSession sid at')
  assume "datedRevocation op"
  then show ?thesis using RevokeSession
    by (cases at') (auto simp: revokeSession_def orDefault_def intro: revoke_move)
next
  case (RevokeAllUserSessions uid at')
  assume "datedRevocation op"
  then show ?thesis using RevokeAllUserSessions
    by (cases at') (auto simp: revokeAllUserSessions_def orDefault_def case_prod_beta intro: revokeAll_move)
next
  case (DeleteExpired t)
  then show ?thesis by (auto simp: deleteExpired_def Let_def intro!: r_into_rtranclp authMove.purge)
qed (auto simp: createSession_def
    intro: login_move cookie_move token_move logout_move issue_move rotate_move createUser_move updateUser_move)

section \<open>Invariant\<close>

text \<open>Identifiers, user names and token hashes are unique, every session belongs to a user, expires at
  a time the service wrote, and is revoked, if at all, at a time that is not empty.\<close>

definition sessionWf :: "user list \<Rightarrow> userSession \<Rightarrow> bool" where
  "sessionWf us s \<longleftrightarrow> us_userId s \<in> set (map u_id us) \<and> us_revokedAt s \<noteq> Some [] \<and>
     (\<exists>t. validTime t \<and> us_expiresAt s = toISOString t)"

definition authWf :: "authDb \<Rightarrow> bool" where
  "authWf db \<longleftrightarrow> distinct (map u_id (users db)) \<and> distinct (map u_username (users db)) \<and>
     distinct (map us_id (userSessions db)) \<and> distinct (map us_tokenHash (userSessions db)) \<and>
     distinct (map al_id (authAuditLogs db)) \<and> list_all (sessionWf (users db)) (userSessions db)"

lemma authWf_sessions:
  assumes "authWf db" "map us_id ss = map us_id (userSessions db)" "map us_tokenHash ss = map us_tokenHash (userSessions db)"
    "list_all (sessionWf (users db)) ss"
  shows "authWf (db\<lparr>userSessions := ss\<rparr>)"
  using assms by (simp add: authWf_def)

lemma sessionWf_cong: "map u_id us = map u_id us' \<Longrightarrow> sessionWf us = sessionWf us'"
  by (intro ext) (simp add: sessionWf_def)

lemma move_authWf: "authMove rowId db db' \<Longrightarrow> authWf db \<Longrightarrow> authWf db'"
proof (induction rule: authMove.induct)
  case (issue row db t)
  then have "us_id row \<notin> set (map us_id (userSessions db))" "us_tokenHash row \<notin> set (map us_tokenHash (userSessions db))"
    "us_userId row \<in> set (map u_id (users db))"
    by (force simp: sessionInsertable_def findSessionById_def findByTokenHash_def findUserById_def tbl_get_None)+
  then show ?case using issue by (auto simp: authWf_def sessionWf_def)
next
  case (touch db sid t)
  have "list_all (sessionWf (users db)) (tbl_update (\<lambda>s. us_id s = sid) (setSession (Some t) None) (userSessions db))"
    using touch by (intro list_all_tbl_update) (auto simp: authWf_def sessionWf_def setSession_def orDefault_def)
  then show ?case using touch by (intro authWf_sessions) (auto intro!: map_tbl_update simp: setSession_def)
next
  case (withdraw t db P)
  have "list_all (sessionWf (users db)) (tbl_update P (\<lambda>s. s\<lparr>us_revokedAt := Some t\<rparr>) (userSessions db))"
    using withdraw by (intro list_all_tbl_update) (auto simp: authWf_def sessionWf_def truthy_def)
  then show ?case using withdraw by (intro authWf_sessions) (auto intro!: map_tbl_update)
next
  case (purge db P)
  then show ?case by (auto simp: authWf_def distinct_map_filter list_all_iff)
next
  case (audit a db)
  then show ?case by (auto simp: authWf_def auditInsertable_def tbl_get_None)
next
  case (enrol u db)
  then have "u_id u \<notin> set (map u_id (users db))" "u_username u \<notin> set (map u_username (users db))"
    by (auto simp: findUserById_def findByUsername_def tbl_get_None)
  then show ?case using enrol by (auto simp: authWf_def sessionWf_def list_all_iff)
next
  case (amend db uid env input)
  have "map u_id (tbl_update (\<lambda>u. u_id u = uid) (setUser env input) (users db)) = map u_id (users db)"
    "map u_username (tbl_update (\<lambda>u. u_id u = uid) (setUser env input) (users db)) = map u_username (users db)"
    by (auto intro!: map_tbl_update simp: setUser_def)
  then show ?case using amend sessionWf_cong[of "tbl_update (\<lambda>u. u_id u = uid) (setUser env input) (users db)" "users db"]
    by (simp add: authWf_def)
qed

lemma moves_authWf: "authMoves rowId db db' \<Longrightarrow> authWf db \<Longrightarrow> authWf db'"
  by (induction rule: rtranclp_induct) (auto intro: move_authWf)

lemma run_authWf: "list_all (\<lambda>(env, op). datedRevocation op) ops \<Longrightarrow> authWf db \<Longrightarrow> authWf (runAuth svc ops db)"
  unfolding runAuth_def by (induction ops arbitrary: db) (auto intro: moves_authWf[OF step_moves])

section \<open>Revocation lasts\<close>

definition lockedOut :: "string \<Rightarrow> authDb \<Rightarrow> bool" where
  "lockedOut sid db \<longleftrightarrow> (\<forall>s \<in> set (userSessions db). us_id s = sid \<longrightarrow> opt_truthy (us_revokedAt s))"

lemma set_tbl_update_cases: "x \<in> set (tbl_update P f xs) \<Longrightarrow> x \<in> set xs \<or> (\<exists>y \<in> set xs. P y \<and> x = f y)"
  by (auto simp: tbl_update_def split: if_splits)

lemma move_lockedOut: "authMove rowId db db' \<Longrightarrow> sid \<noteq> rowId \<Longrightarrow> lockedOut sid db \<Longrightarrow> lockedOut sid db'"
  by (induction rule: authMove.induct)
    (auto simp: lockedOut_def setSession_def orDefault_def dest!: set_tbl_update_cases)

lemma moves_lockedOut: "authMoves rowId db db' \<Longrightarrow> sid \<noteq> rowId \<Longrightarrow> lockedOut sid db \<Longrightarrow> lockedOut sid db'"
  by (induction rule: rtranclp_induct) (auto intro: move_lockedOut)

lemma run_lockedOut:
  "list_all (\<lambda>(env, op). ae_rowId env \<noteq> sid \<and> datedRevocation op) ops \<Longrightarrow> lockedOut sid db \<Longrightarrow>
     lockedOut sid (runAuth svc ops db)"
  unfolding runAuth_def
proof (induction ops arbitrary: db)
  case (Cons eo ops)
  obtain env op where eo: "eo = (env, op)" by (cases eo)
  have "lockedOut sid (authStep svc eo db)"
    unfolding eo using Cons.prems by (intro moves_lockedOut[OF step_moves[of op env]]) (auto simp: eo)
  then show ?case using Cons by simp
qed simp

section \<open>What authentication accepts\<close>

lemma tokenHashMatches_iff: "tokenHashMatches e h \<longleftrightarrow> e = h \<and> HEX_LOWER_64_REGEX h"
proof
  assume "e = h \<and> HEX_LOWER_64_REGEX h"
  then show "tokenHashMatches e h"
    by (simp add: tokenHashMatches_def Let_def HEX_LOWER_64_REGEX_def hexDecode_value)
qed (auto simp: tokenHashMatches_def Let_def split: if_splits)

lemma authenticateToken_accepts:
  assumes "fst (authenticateToken svc env sid token ctx db) = Inr (Authenticated u s)"
  shows "s \<in> set (userSessions db) \<and> us_id s = sid \<and> \<not> opt_truthy (us_revokedAt s) \<and> ae_now env \<le> readIso (us_expiresAt s) \<and>
     us_tokenHash s = as_sha svc token \<and> u \<in> set (users db) \<and> u_id u = us_userId s \<and> u_status u = ActiveUser"
  using assms
  by (auto simp: authenticateToken_def Let_def seq_def invalidSession_def tokenHashMatches_iff findSessionById_def findUserById_def
      dest: tbl_get_Some split: if_splits option.splits prod.splits sum.splits) (metis userStatus.exhaust)+

lemma authenticateCookie_accepts:
  assumes "fst (authenticateCookie svc env header ctx db) = Inr (Authenticated u s)"
  obtains v p where "parseCookieFromHeader header (as_cookieName svc) = Some v"
    "verifyAndDecodeCookieValue (as_hmac svc) (ae_now env) v (as_cookieSecret svc) = Some p"
    "fst (authenticateToken svc env (psp_sessionId p) (psp_token p) ctx db) = Inr (Authenticated u s)"
  using assms by (auto simp: authenticateCookie_def invalidSession_def split: if_splits option.splits)

lemma lockedOut_refuses:
  assumes "lockedOut sid db"
  shows "fst (authenticateToken svc env sid token ctx db) \<noteq> Inr (Authenticated u s)"
    and "fst (authenticateCookie svc env header ctx db) = Inr (Authenticated u s) \<Longrightarrow> us_id s \<noteq> sid"
proof -
  show t: "fst (authenticateToken svc env sid token ctx db) \<noteq> Inr (Authenticated u s)" for token
    using authenticateToken_accepts[of svc env sid token ctx db u s] assms by (auto simp: lockedOut_def)
  assume "fst (authenticateCookie svc env header ctx db) = Inr (Authenticated u s)"
  then obtain p :: parsedSessionPayload where "fst (authenticateToken svc env (psp_sessionId p) (psp_token p) ctx db) = Inr (Authenticated u s)"
    by (rule authenticateCookie_accepts) blast
  then show "us_id s \<noteq> sid" using t authenticateToken_accepts by metis
qed

end
