(* ===== verification/Auth_Theorems.thy ===== *)
theory Auth_Theorems
  imports Auth_Steps
begin

text \<open>The guarantees of the authentication service, and one place where it falls short.\<close>

section \<open>An example\<close>

definition exampleService :: authService where
  "exampleService = \<lparr>as_sha = (\<lambda>t. hexEncode (replicate 32 (word_of_nat (length t)))), as_hmac = exampleHash,
     as_scrypt = exampleScrypt, as_cookieSecret = ''0123456789abcdef'', as_sessionTtlSeconds = 604800,
     as_cookieName = ''enkeep_session'', as_cookieSecure = True, as_cookieSameSite = ''Strict'', as_cookiePath = ''/''\<rparr>"

definition exampleUser :: user where
  "exampleUser = \<lparr>u_id = ''u1'', u_username = ''alice'',
     u_passwordHash = hashText 16384 8 1 (replicate 16 7) (replicate 64 6), u_role = RegularUser, u_status = ActiveUser,
     u_displayName = None, u_locale = EnLocale, u_theme = DarkTheme, u_mustChangePassword = False, u_createdAt = [], u_updatedAt = []\<rparr>"

definition exampleDb :: authDb where
  "exampleDb = \<lparr>users = [exampleUser], userSessions = [], authAuditLogs = []\<rparr>"

definition exampleEnv :: "string \<Rightarrow> instant \<Rightarrow> authEnv" where
  "exampleEnv i t = \<lparr>ae_now = t, ae_rowId = i, ae_auditId = i, ae_token = ''t''\<rparr>"

definition exampleContext :: authContext where
  "exampleContext = \<lparr>cx_ipAddress = None, cx_userAgent = None\<rparr>"

definition exampleLogin :: "(authError + loginResult) \<times> authDb" where
  "exampleLogin = login exampleService (exampleEnv ''s1'' 0) ''alice'' ''secret'' exampleContext exampleDb"

lemma example_crypto:
  "length (as_hmac exampleService k m) = 43 \<and> list_all is_base64url (as_hmac exampleService k m)"
  "HEX_LOWER_64_REGEX (as_sha exampleService t)"
  using exampleHash_digest[of k m] hexEncode_lower_hex by (simp_all add: exampleService_def HEX_LOWER_64_REGEX_def)

lemma example_name:
  "js_trim (as_cookieName exampleService) = as_cookieName exampleService"
  "CHR ''='' \<notin> set (as_cookieName exampleService)" "CHR '';'' \<notin> set (as_cookieName exampleService)"
  by (simp_all add: exampleService_def js_trim_def is_space_def)

lemma example_wf: "authWf exampleDb"
  by (simp add: authWf_def exampleDb_def)

lemma example_password: "verifyPassword exampleScrypt ''secret'' (u_passwordHash exampleUser)"
proof -
  have "workFactors 16384 8 1"
    using isPowerOfTwo_iff[of 16384] by (auto simp: workFactors_def MIN_COST_def MAX_COST_def MIN_BLOCK_SIZE_def
      MAX_BLOCK_SIZE_def MIN_PARALLELIZATION_def MAX_PARALLELIZATION_def intro: exI[of _ 14])
  moreover have "exampleScrypt ''secret'' (replicate 16 7) 64 16384 8 1 MAX_SCRYPT_MEM = Some (replicate 64 6)"
    by (simp add: exampleScrypt_def)
  ultimately show ?thesis
    unfolding verifyPassword_iff exampleUser_def
    by (intro conjI exI[of _ 16384] exI[of _ 8] exI[of _ 1] exI[of _ "replicate 16 7"] exI[of _ "replicate 64 6"])
      (simp_all add: utf8Length_def MAX_PASSWORD_BYTES_def)
qed

lemma example_signed:
  "\<exists>v. createSignedCookieValue exampleHash ''s1'' ''t'' (Num 604800000) ''0123456789abcdef'' = Inr v"
  by (simp add: createSignedCookieValue_def ID_OR_TOKEN_REGEX_def is_base64url_def is_alnum_def MAX_SAFE_INTEGER_def
    MIN_SECRET_LEN_def Let_def)

lemma example_login: "\<exists>r. exampleLogin = (Inr r, snd exampleLogin)"
proof -
  obtain v where v: "createSignedCookieValue exampleHash ''s1'' ''t'' (Num 604800000) ''0123456789abcdef'' = Inr v"
    using example_signed by blast
  have "validTime 604800000" by (simp add: validTime_def)
  moreover have "isValidUsername ''alice''" "isValidPassword ''secret''" "findByUsername ''alice'' exampleDb = Some exampleUser"
    by (simp_all add: isValidUsername_def MAX_USERNAME_LEN_def hasControlChars_def isValidPassword_def utf8Length_def
      MAX_PASSWORD_BYTES_def findByUsername_def exampleDb_def exampleUser_def tbl_get_def)
  moreover have "sessionInsertable (newSession (exampleEnv ''s1'' 0) (u_id exampleUser) h e ip ua) exampleDb" for h e ip ua
    by (simp add: sessionInsertable_def findSessionById_def findByTokenHash_def findUserById_def exampleDb_def newSession_def tbl_get_def)
  moreover have "auditInsertable (newAuditLog (exampleEnv ''s1'' 0) (Some (u_id exampleUser)) n a ip ua d)
      (exampleDb\<lparr>userSessions := ss\<rparr>)" for n a ip ua d ss
    by (simp add: auditInsertable_def findUserById_def exampleDb_def newAuditLog_def tbl_get_def)
  moreover have "u_status exampleUser = ActiveUser" by (simp add: exampleUser_def)
  ultimately have "\<exists>r db'. exampleLogin = (Inr r, db')"
    using v example_password
    by (simp add: exampleLogin_def login_def Let_def issueSession_def createUserSession_eq seq_def createAuditLog_eq
      exampleService_def exampleEnv_def newSession_def)
  then show ?thesis by (metis snd_conv)
qed

section \<open>Soundness\<close>

text \<open>
  C5. Whoever is authenticated by a cookie presented a genuine one. When \<open>authenticateCookie\<close> accepts
  a request as user \<open>u\<close> in session \<open>s\<close>, the header holds exactly one cookie of the configured name, its
  value is what the platform signs for this session and a token whose hash is stored in the row of \<open>s\<close>,
  neither the cookie nor the session has expired, the session has not been revoked, and \<open>u\<close> is its
  owner and not disabled.
\<close>

theorem auth_cookie_genuine:
  assumes "fst (authenticateCookie svc env header ctx db) = Inr (Authenticated u s)"
  shows "\<exists>cookie token e.
     filter (\<lambda>kv. fst kv = as_cookieName svc) (cookiePairs (rawHeader header)) = [(as_cookieName svc, cookie)] \<and>
     createSignedCookieValue (as_hmac svc) (us_id s) token (Num e) (as_cookieSecret svc) = Inr cookie \<and>
     ae_now env \<le> e \<and> as_sha svc token = us_tokenHash s \<and>
     s \<in> set (userSessions db) \<and> \<not> opt_truthy (us_revokedAt s) \<and> ae_now env \<le> readIso (us_expiresAt s) \<and>
     u \<in> set (users db) \<and> u_id u = us_userId s \<and> u_status u = ActiveUser"
proof -
  obtain v p where v: "parseCookieFromHeader header (as_cookieName svc) = Some v"
    "verifyAndDecodeCookieValue (as_hmac svc) (ae_now env) v (as_cookieSecret svc) = Some p"
    "fst (authenticateToken svc env (psp_sessionId p) (psp_token p) ctx db) = Inr (Authenticated u s)"
    using authenticateCookie_accepts[OF assms] by blast
  then show ?thesis
    using verified_created[OF v(2)] authenticateToken_accepts[OF v(3)]
    by (intro exI[of _ v] exI[of _ "psp_token p"] exI[of _ "psp_expiresAt p"]) (simp add: parseCookie_iff)
qed

section \<open>Login and authentication fit together\<close>

lemma until_char:
  "c \<notin> set xs \<Longrightarrow> takeWhile (\<lambda>x. x \<noteq> c) (xs @ c # ys) = xs"
  "c \<notin> set xs \<Longrightarrow> dropWhile (\<lambda>x. x \<noteq> c) (xs @ c # ys) = c # ys"
  by (induction xs) auto

lemma cookie_chars:
  assumes "createSignedCookieValue hmac sid token n secret = Inr v" "list_all is_base64url (hmac secret (takeWhile (\<lambda>c. c \<noteq> CHR ''.'') v))"
  shows "CHR '';'' \<notin> set v \<and> v \<noteq> []"
proof -
  obtain enc where v: "v = enc @ CHR ''.'' # hmac secret enc" "list_all is_base64url enc"
    using assms(1) base64Encode_base64url by (auto simp: createSignedCookieValue_def signPayload_def Let_def split: if_splits number.splits)
  have "takeWhile (\<lambda>c. c \<noteq> CHR ''.'') v = enc"
    using base64url_no_dot[OF v(2)] by (simp add: v(1) until_char)
  then have "list_all is_base64url (hmac secret enc)" using assms(2) by simp
  moreover have "CHR '';'' \<notin> set s" if "list_all is_base64url s" for s
    using that unfolding list_all_iff by (auto simp: is_base64url_def is_alnum_def)
  ultimately show ?thesis using v by auto
qed

lemma cookiePair_made:
  assumes "js_trim name = name" "CHR ''='' \<notin> set name"
  shows "cookiePair (name @ ''='' @ v) = Some (name, v)"
proof -
  have "dropWhile is_ows (name @ ''='' @ v) = name @ ''='' @ v"
  proof (cases name)
    case (Cons c cs)
    have "dropWhile is_space name \<noteq> []" using assms(1) Cons by (metis js_trim_def dropWhile.simps(1) rev_is_Nil_conv list.distinct(1))
    have "\<not> is_space c"
    proof
      assume "is_space c"
      then have "length (dropWhile is_space name) \<le> length cs" using length_dropWhile_le[of is_space cs] Cons by simp
      moreover have "length (js_trim name) \<le> length (dropWhile is_space name)"
        unfolding js_trim_def using length_dropWhile_le[of is_space "rev (dropWhile is_space name)"] by simp
      ultimately show False using assms(1) Cons by simp
    qed
    then have "\<not> is_ows c" by (auto simp: is_ows_def is_space_def)
    then show ?thesis using Cons by simp
  qed (simp add: is_ows_def)
  moreover have "takeWhile (\<lambda>c. c \<noteq> CHR ''='') (name @ ''='' @ v) = name"
    using assms(2) by (simp add: until_char)
  moreover have "dropWhile (\<lambda>c. c \<noteq> CHR ''='') (name @ ''='' @ v) = CHR ''='' # v"
    using assms(2) by (simp add: until_char)
  ultimately show ?thesis using assms by (simp add: cookiePair_def Let_def)
qed

lemma parse_made_cookie:
  assumes "js_trim name = name" "CHR ''='' \<notin> set name" "CHR '';'' \<notin> set name" "CHR '';'' \<notin> set v"
  shows "parseCookieFromHeader (OneHeader (name @ ''='' @ v)) name = Some v"
proof -
  have "split_on CHR '';'' (name @ ''='' @ v) = [name @ ''='' @ v]" using assms(3,4) by (intro split_on_no_sep) simp
  then show ?thesis using cookiePair_made[OF assms(1,2), of v] by (simp add: parseCookieFromHeader_def rawHeader_def)
qed

lemma set_cookie_pair:
  "CHR '';'' \<notin> set name \<Longrightarrow> CHR '';'' \<notin> set v \<Longrightarrow>
     takeWhile (\<lambda>c. c \<noteq> CHR '';'') (buildSetCookieHeader name v options) = name @ ''='' @ v"
  using until_char(1)[of "CHR '';''" "name @ ''='' @ v"] by (simp add: buildSetCookieHeader_def Let_def)

lemma touch_succeeds:
  "findSessionById sid db = Some s \<Longrightarrow> \<exists>s' db'. updateUserSession sid (Some t) None db = (Inr s', db')"
  by (auto simp: updateUserSession_def findSessionById_def Let_def tbl_get_update_same setSession_def split: option.splits)

lemma authenticateToken_succeeds:
  assumes "findSessionById sid db = Some s" "us_id s = sid" "\<not> opt_truthy (us_revokedAt s)" "ae_now env \<le> readIso (us_expiresAt s)"
    "us_tokenHash s = as_sha svc token" "HEX_LOWER_64_REGEX (as_sha svc token)"
    "findUserById (us_userId s) db = Some u" "u_status u = ActiveUser" "truthy sid" "truthy token"
  shows "fst (authenticateToken svc env sid token ctx db) = Inr (Authenticated u s)"
proof -
  obtain s' db' where "updateUserSession sid (Some (toISOString (ae_now env))) None db = (Inr s', db')"
    using touch_succeeds[OF assms(1)] by blast
  then show ?thesis using assms by (simp add: authenticateToken_def Let_def tokenHashMatches_iff seq_def not_less)
qed

lemma issueSession_Inr:
  assumes "issueSession svc env uid ip ua db = (Inr r, db')"
  obtains v where "db' = db\<lparr>userSessions := userSessions db @ [sr_session r]\<rparr>" "sessionInsertable (sr_session r) db"
    "sr_session r = newSession env uid (as_sha svc (ae_token env)) (toISOString (ae_now env + as_sessionTtlSeconds svc * 1000)) ip ua"
    "validTime (ae_now env + as_sessionTtlSeconds svc * 1000)" "sr_sessionToken r = ae_token env"
    "createSignedCookieValue (as_hmac svc) (ae_rowId env) (ae_token env) (Num (ae_now env + as_sessionTtlSeconds svc * 1000))
       (as_cookieSecret svc) = Inr v"
    "\<exists>options. sr_cookieHeader r = buildSetCookieHeader (as_cookieName svc) v options"
proof -
  let ?e = "ae_now env + as_sessionTtlSeconds svc * 1000"
  have valid: "validTime ?e" using assms by (auto simp: issueSession_def Let_def split: if_splits)
  let ?row = "newSession env uid (as_sha svc (ae_token env)) (toISOString ?e) ip ua"
  let ?signed = "createSignedCookieValue (as_hmac svc) (us_id ?row) (ae_token env) (Num ?e) (as_cookieSecret svc)"
  have ins: "sessionInsertable ?row db" using assms valid by (auto simp: issueSession_def createUserSession_eq seq_def Let_def split: if_splits)
  show thesis
  proof (cases ?signed)
    case (Inl e)
    then show thesis using assms valid ins by (simp add: issueSession_def createUserSession_eq seq_def Let_def)
  next
    case (Inr v)
    then have "r = \<lparr>sr_session = ?row, sr_sessionToken = ae_token env, sr_cookieHeader = sr_cookieHeader r\<rparr>"
      "db' = db\<lparr>userSessions := userSessions db @ [?row]\<rparr>"
      "\<exists>options. sr_cookieHeader r = buildSetCookieHeader (as_cookieName svc) v options"
      using assms valid ins by (auto simp: issueSession_def createUserSession_eq seq_def Let_def)
    then show thesis using that[of v] valid ins Inr by (metis newSession_def sessionResult.select_convs(1,2) userSession.select_convs(1))
  qed
qed

lemma login_Inr:
  assumes "login svc env username password ctx db = (Inr r, db')"
  obtains issued where "findByUsername username db = Some (lr_user r)"
    "verifyPassword (as_scrypt svc) password (u_passwordHash (lr_user r))" "u_status (lr_user r) = ActiveUser"
    "issueSession svc env (u_id (lr_user r)) (sanitizeContextIp (cx_ipAddress ctx)) (sanitizeContextUserAgent (cx_userAgent ctx)) db
       = (Inr issued, db'\<lparr>authAuditLogs := authAuditLogs db\<rparr>)"
    "lr_session r = sr_session issued" "lr_sessionToken r = sr_sessionToken issued" "lr_cookieHeader r = sr_cookieHeader issued"
proof -
  have refuse: "refuseLogin row db \<noteq> (Inr r, db')" for row by (auto simp: refuseLogin_def seq_def split: prod.splits sum.splits)
  let ?ip = "sanitizeContextIp (cx_ipAddress ctx)" and ?ua = "sanitizeContextUserAgent (cx_userAgent ctx)"
  obtain u where u: "findByUsername username db = Some u" "verifyPassword (as_scrypt svc) password (u_passwordHash u)"
    "u_status u = ActiveUser"
    and run: "seq (issueSession svc env (u_id u) ?ip ?ua) (\<lambda>issued.
         seq (createAuditLog (newAuditLog env (Some (u_id u)) (Some (u_username u)) LoginSuccess ?ip ?ua None))
           (\<lambda>_ db'. (Inr \<lparr>lr_user = u, lr_session = sr_session issued, lr_sessionToken = sr_sessionToken issued,
              lr_cookieHeader = sr_cookieHeader issued\<rparr>, db'))) db = (Inr r, db')"
    using assms refuse by (auto simp: login_def Let_def split: if_splits option.splits) (metis userStatus.exhaust)
  obtain issued db1 where i: "issueSession svc env (u_id u) ?ip ?ua db = (Inr issued, db1)"
    and r: "r = \<lparr>lr_user = u, lr_session = sr_session issued, lr_sessionToken = sr_sessionToken issued,
              lr_cookieHeader = sr_cookieHeader issued\<rparr>" "\<exists>a. db' = db1\<lparr>authAuditLogs := authAuditLogs db1 @ [a]\<rparr>"
    using run by (auto simp: seq_Inr_iff createAuditLog_eq split: if_splits)
  obtain v where "db1 = db\<lparr>userSessions := userSessions db @ [sr_session issued]\<rparr>" using issueSession_Inr[OF i] by metis
  then have "db1 = db'\<lparr>authAuditLogs := authAuditLogs db\<rparr>" using r(2) by auto
  then show thesis using that[of issued] u i r(1) by simp
qed

lemma login_then_cookie:
  assumes crypto: "\<And>k m. length (as_hmac svc k m) = 43 \<and> list_all is_base64url (as_hmac svc k m)" "\<And>t. HEX_LOWER_64_REGEX (as_sha svc t)"
    and name: "js_trim (as_cookieName svc) = as_cookieName svc" "CHR ''='' \<notin> set (as_cookieName svc)" "CHR '';'' \<notin> set (as_cookieName svc)"
    and wf: "authWf db"
    and login: "login svc env username password ctx db = (Inr r, db')"
    and time: "ae_now env' \<le> ae_now env + as_sessionTtlSeconds svc * 1000"
  shows "fst (authenticateCookie svc env' (OneHeader (takeWhile (\<lambda>c. c \<noteq> CHR '';'') (lr_cookieHeader r))) ctx' db') =
     Inr (Authenticated (lr_user r) (lr_session r))"
proof -
  let ?e = "ae_now env + as_sessionTtlSeconds svc * 1000"
  obtain issued where u: "findByUsername username db = Some (lr_user r)" "u_status (lr_user r) = ActiveUser"
    and i: "issueSession svc env (u_id (lr_user r)) (sanitizeContextIp (cx_ipAddress ctx)) (sanitizeContextUserAgent (cx_userAgent ctx)) db
       = (Inr issued, db'\<lparr>authAuditLogs := authAuditLogs db\<rparr>)" and r: "lr_session r = sr_session issued" "lr_cookieHeader r = sr_cookieHeader issued"
    using login_Inr[OF login] by metis
  obtain v options where db': "db'\<lparr>authAuditLogs := authAuditLogs db\<rparr> = db\<lparr>userSessions := userSessions db @ [sr_session issued]\<rparr>"
    and ins: "sessionInsertable (sr_session issued) db"
    and row: "sr_session issued = newSession env (u_id (lr_user r)) (as_sha svc (ae_token env)) (toISOString ?e)
       (sanitizeContextIp (cx_ipAddress ctx)) (sanitizeContextUserAgent (cx_userAgent ctx))"
    and valid: "validTime ?e"
    and v: "createSignedCookieValue (as_hmac svc) (ae_rowId env) (ae_token env) (Num ?e) (as_cookieSecret svc) = Inr v"
    and header: "sr_cookieHeader issued = buildSetCookieHeader (as_cookieName svc) v options"
    using issueSession_Inr[OF i] by metis
  have chars: "CHR '';'' \<notin> set v" "v \<noteq> []" using cookie_chars[OF v] crypto(1) by auto
  have cookie: "parseCookieFromHeader (OneHeader (takeWhile (\<lambda>c. c \<noteq> CHR '';'') (lr_cookieHeader r))) (as_cookieName svc) = Some v"
    using set_cookie_pair[OF name(3) chars(1)] parse_made_cookie[OF name chars(1)] by (simp add: r(2) header)
  let ?p = "\<lparr>psp_sessionId = ae_rowId env, psp_token = ae_token env, psp_expiresAt = ?e\<rparr>"
  have verified: "verifyAndDecodeCookieValue (as_hmac svc) (ae_now env') v (as_cookieSecret svc) = Some ?p"
    using v time crypto(1) by (intro created_verified) simp_all
  have ids: "truthy (ae_rowId env)" "truthy (ae_token env)"
    using v by (auto simp: createSignedCookieValue_def ID_OR_TOKEN_REGEX_def truthy_def split: if_splits)
  have tables: "users db' = users db" "userSessions db' = userSessions db @ [sr_session issued]"
    using arg_cong[OF db', of users] arg_cong[OF db', of userSessions] by simp_all
  have "findSessionById (ae_rowId env) db' = Some (sr_session issued)"
    using ins row tables(2) by (simp add: findSessionById_def sessionInsertable_def tbl_get_snoc newSession_def)
  moreover have "findUserById (u_id (lr_user r)) db' = Some (lr_user r)"
    using u(1) wf tbl_get_map_distinct[of u_id "users db" "lr_user r" "\<lambda>_. True"]
    by (auto simp: findUserById_def findByUsername_def tables(1) authWf_def dest: tbl_get_Some)
  ultimately have "fst (authenticateToken svc env' (ae_rowId env) (ae_token env) ctx' db') = Inr (Authenticated (lr_user r) (sr_session issued))"
    using u(2) ids crypto(2) time readIso_toISOString[OF valid] by (intro authenticateToken_succeeds) (simp_all add: row newSession_def)
  then show ?thesis using cookie verified chars(2) by (simp add: authenticateCookie_def truthy_def r(1))
qed

text \<open>
  C6. Logging in works. From a well-formed database, after a successful login the cookie of the
  \<open>Set-Cookie\<close> header (its part before the first semicolon), sent back in any request until the session
  expires, authenticates the same user in the session just created. The crypto functions only have to
  return digests of the documented lengths and alphabets.
\<close>

theorem auth_login_then_cookie:
  assumes "\<And>k m. length (as_hmac svc k m) = 43 \<and> list_all is_base64url (as_hmac svc k m)" "\<And>t. HEX_LOWER_64_REGEX (as_sha svc t)"
    and "js_trim (as_cookieName svc) = as_cookieName svc" "CHR ''='' \<notin> set (as_cookieName svc)" "CHR '';'' \<notin> set (as_cookieName svc)"
    and "authWf db"
    and "login svc env username password ctx db = (Inr r, db')"
    and "ae_now env' \<le> ae_now env + as_sessionTtlSeconds svc * 1000"
  shows "fst (authenticateCookie svc env' (OneHeader (takeWhile (\<lambda>c. c \<noteq> CHR '';'') (lr_cookieHeader r))) ctx' db') =
     Inr (Authenticated (lr_user r) (lr_session r))"
  by (rule login_then_cookie[OF assms])

theorem auth_login_then_cookie_witness:
  "\<exists>r. exampleLogin = (Inr r, snd exampleLogin) \<and>
     fst (authenticateCookie exampleService (exampleEnv ''x'' 604800000)
        (OneHeader (takeWhile (\<lambda>c. c \<noteq> CHR '';'') (lr_cookieHeader r))) exampleContext (snd exampleLogin)) =
     Inr (Authenticated (lr_user r) (lr_session r))"
proof -
  obtain r where r: "exampleLogin = (Inr r, snd exampleLogin)" using example_login by blast
  have "ae_now (exampleEnv ''x'' 604800000) \<le> ae_now (exampleEnv ''s1'' 0) + as_sessionTtlSeconds exampleService * 1000"
    by (simp add: exampleEnv_def exampleService_def)
  from auth_login_then_cookie[OF example_crypto example_name example_wf r[unfolded exampleLogin_def] this]
  show ?thesis using r unfolding exampleLogin_def by blast
qed

lemma example_authenticated:
  "\<exists>header u s. fst (authenticateCookie exampleService (exampleEnv ''x'' 0) header exampleContext (snd exampleLogin)) =
     Inr (Authenticated u s)"
proof -
  obtain r where r: "exampleLogin = (Inr r, snd exampleLogin)" using example_login by blast
  have "ae_now (exampleEnv ''x'' 0) \<le> ae_now (exampleEnv ''s1'' 0) + as_sessionTtlSeconds exampleService * 1000"
    by (simp add: exampleEnv_def exampleService_def)
  from login_then_cookie[OF example_crypto example_name example_wf r[unfolded exampleLogin_def] this]
  show ?thesis unfolding exampleLogin_def by blast
qed

theorem auth_cookie_genuine_witness:
  "\<exists>header u s cookie. fst (authenticateCookie exampleService (exampleEnv ''x'' 0) header exampleContext (snd exampleLogin)) =
       Inr (Authenticated u s) \<and>
     filter (\<lambda>kv. fst kv = ''enkeep_session'') (cookiePairs (rawHeader header)) = [(''enkeep_session'', cookie)] \<and>
     s \<in> set (userSessions (snd exampleLogin)) \<and> u_id u = us_userId s"
proof -
  obtain header u s where a: "fst (authenticateCookie exampleService (exampleEnv ''x'' 0) header exampleContext (snd exampleLogin)) =
      Inr (Authenticated u s)" using example_authenticated by blast
  have name: "as_cookieName exampleService = ''enkeep_session''" by (simp add: exampleService_def)
  show ?thesis using a auth_cookie_genuine[OF a, unfolded name] by blast
qed

section \<open>Logout and rotation are final\<close>

lemma revoke_lockedOut: "truthy t \<Longrightarrow> lockedOut sid (revoke sid t db)"
  unfolding lockedOut_def
proof (intro ballI impI)
  fix s
  assume t: "truthy t" and s: "s \<in> set (userSessions (revoke sid t db))" "us_id s = sid"
  have "s \<in> (\<lambda>x. if us_id x = sid then x\<lparr>us_revokedAt := Some t\<rparr> else x) ` set (userSessions db)"
    using s(1) by (simp add: revoke_def tbl_update_def)
  then obtain x where "s = (if us_id x = sid then x\<lparr>us_revokedAt := Some t\<rparr> else x)" by (rule imageE)
  then show "opt_truthy (us_revokedAt s)" using t s(2) by (cases "us_id x = sid") simp_all
qed

lemma seq_lockedOut:
  assumes "lockedOut sid (snd (m s))" "\<And>x t. lockedOut sid t \<Longrightarrow> lockedOut sid (snd (f x t))"
  shows "lockedOut sid (snd (seq m f s))"
proof (cases "m s")
  case (Pair out t)
  then show ?thesis using assms by (cases out) (simp_all add: seq_def)
qed

lemma audit_lockedOut: "lockedOut sid d \<Longrightarrow> lockedOut sid (snd (createAuditLog a d))"
  by (simp add: createAuditLog_eq lockedOut_def)

lemma logout_lockedOut: "lockedOut sid (snd (logout env sid ctx db))"
proof (cases "findSessionById sid db")
  case None
  then have "lockedOut sid db" by (auto simp: lockedOut_def findSessionById_def tbl_get_None)
  then show ?thesis by (simp add: logout_def None)
next
  case (Some s)
  have "lockedOut sid (revoke sid (toISOString (ae_now env)) db)" by (rule revoke_lockedOut) simp
  then show ?thesis unfolding logout_def Some Let_def option.case by (intro seq_lockedOut audit_lockedOut) simp_all
qed



lemma revokeAll_lockedOut:
  assumes "authWf db" "s \<in> set (userSessions db)" "us_userId s = uid" "truthy t"
  shows "lockedOut (us_id s) (snd (revokeAllForUser uid t db))"
proof -
  have "opt_truthy (us_revokedAt s')" if m: "s' \<in> set (userSessions (snd (revokeAllForUser uid t db)))" "us_id s' = us_id s" for s'
  proof -
    obtain x where x: "x \<in> set (userSessions db)" "s' = (if openSessionOf uid x then x\<lparr>us_revokedAt := Some t\<rparr> else x)"
      using m(1) by (auto simp: revokeAllForUser_def tbl_update_def)
    have "us_id x = us_id s" using m(2) x(2) by (simp split: if_splits)
    then have "x = s" using assms(1,2) x(1) by (auto simp: authWf_def distinct_map dest: inj_onD)
    moreover have "us_revokedAt s \<noteq> Some []" using assms(1,2) by (auto simp: authWf_def list_all_iff sessionWf_def)
    ultimately show ?thesis using x(2) assms(3,4)
      by (cases "us_revokedAt s") (auto simp: openSessionOf_def truthy_def)
  qed
  then show ?thesis by (auto simp: lockedOut_def)
qed

lemma rotate_lockedOut:
  assumes wf: "authWf db" and s: "s \<in> set (userSessions db)" "us_userId s = uid"
  shows "lockedOut (us_id s) (snd (rotateSession svc env uid ctx db))"
proof -
  let ?db = "snd (revokeAllForUser uid (toISOString (ae_now env)) db)"
  let ?issue = "issueSession svc env uid (sanitizeContextIp (cx_ipAddress ctx)) (sanitizeContextUserAgent (cx_userAgent ctx)) ?db"
  have old: "lockedOut (us_id s) ?db" using wf s by (intro revokeAll_lockedOut) simp_all
  have ids: "map us_id (userSessions ?db) = map us_id (userSessions db)"
    by (simp add: revokeAllForUser_def map_tbl_update)
  have new: "lockedOut (us_id s) (snd ?issue)"
  proof (rule issueSession_cases[of svc env uid "sanitizeContextIp (cx_ipAddress ctx)" "sanitizeContextUserAgent (cx_userAgent ctx)" ?db])
    fix row out
    assume a: "?issue = (out, ?db\<lparr>userSessions := userSessions ?db @ [row]\<rparr>)" "sessionInsertable row ?db"
    have "us_id row \<notin> set (map us_id (userSessions ?db))"
      using a(2) by (auto simp: sessionInsertable_def findSessionById_def tbl_get_None)
    then have "us_id row \<noteq> us_id s" using s(1) unfolding ids by force
    then show ?thesis using old by (auto simp: a(1) lockedOut_def)
  qed (use old in simp)
  show ?thesis unfolding rotateSession_def createSession_def Let_def
    by (intro seq_lockedOut new audit_lockedOut) simp_all
qed

text \<open>
  Rotation closes every older session. After \<open>rotateSession\<close> of a user in a well-formed database
  (a password change calls it), even if it throws half-way, and after any sequence of later
  operations, no session that user had before authenticates again.
\<close>

theorem auth_rotation_final:
  assumes "authWf db" "old \<in> set (userSessions db)" "us_userId old = uid"
    and "list_all (\<lambda>(env, op). ae_rowId env \<noteq> us_id old \<and> datedRevocation op) ops"
  shows "fst (authenticateToken svc env (us_id old) token ctx (runAuth svc ops (snd (rotateSession svc env0 uid ctx0 db))))
       \<noteq> Inr (Authenticated u s)
     \<and> (fst (authenticateCookie svc env header ctx (runAuth svc ops (snd (rotateSession svc env0 uid ctx0 db)))) = Inr (Authenticated u s)
          \<longrightarrow> us_id s \<noteq> us_id old)"
  using lockedOut_refuses[OF run_lockedOut[OF assms(4) rotate_lockedOut[OF assms(1-3)]]] by blast

definition exampleOpen :: authDb where
  "exampleOpen = exampleDb\<lparr>userSessions :=
     [newSession (exampleEnv ''s1'' 0) ''u1'' (as_sha exampleService ''t'') (toISOString 604800000) None None]\<rparr>"

lemma example_open: "authWf exampleOpen"
  by (auto simp: exampleOpen_def authWf_def sessionWf_def exampleDb_def newSession_def exampleUser_def validTime_def
    intro: exI[of _ 604800000])

theorem auth_rotation_final_witness:
  "fst (authenticateToken exampleService (exampleEnv ''x'' 0) ''s1'' ''t'' exampleContext
     (runAuth exampleService [(exampleEnv ''s3'' 5, Login ''alice'' ''secret'' exampleContext)]
       (snd (rotateSession exampleService (exampleEnv ''s2'' 1) ''u1'' exampleContext exampleOpen)))) \<noteq>
     Inr (Authenticated exampleUser (hd (userSessions exampleOpen)))"
proof -
  let ?s = "newSession (exampleEnv ''s1'' 0) ''u1'' (as_sha exampleService ''t'') (toISOString 604800000) None None"
  have s: "?s \<in> set (userSessions exampleOpen)" "us_userId ?s = ''u1''" "us_id ?s = ''s1''"
    by (simp_all add: exampleOpen_def newSession_def exampleEnv_def)
  have "list_all (\<lambda>(env, op). ae_rowId env \<noteq> us_id ?s \<and> datedRevocation op)
      [(exampleEnv ''s3'' 5, Login ''alice'' ''secret'' exampleContext)]" unfolding s(3) by (simp add: exampleEnv_def)
  from auth_rotation_final[OF example_open s(1,2) this] show ?thesis unfolding s(3) by blast
qed

section \<open>Well-formed tables\<close>

text \<open>
  Every operation of the service and of the user and session repositories keeps the tables well
  formed, in any order: identifiers, user names and token hashes stay unique, every session belongs to a
  user and carries an expiry the service can read back.
\<close>

theorem auth_tables_wellformed:
  assumes "authWf db" "list_all (\<lambda>(env, op). datedRevocation op) ops"
  shows "authWf (runAuth svc ops db)"
  by (rule run_authWf[OF assms(2,1)])

theorem auth_tables_wellformed_witness:
  "authWf (runAuth exampleService [(exampleEnv ''s1'' 0, Login ''alice'' ''secret'' exampleContext),
     (exampleEnv ''s2'' 1, RotateSession ''u1'' exampleContext)] exampleDb)"
  by (rule auth_tables_wellformed[OF example_wf]) simp

section \<open>Failed logins\<close>

lemma refuseLogin_eq:
  "refuseLogin row db =
     (if auditInsertable row db
      then (Inl (UnauthorizedError ''Invalid username or password''), db\<lparr>authAuditLogs := authAuditLogs db @ [row]\<rparr>)
      else (Inl ConstraintError, db))"
  by (simp add: refuseLogin_def seq_def createAuditLog_eq)

lemma auditInsertable_fresh:
  "ae_auditId env \<notin> al_id ` set (authAuditLogs db) \<Longrightarrow> (\<And>i. uid = Some i \<Longrightarrow> findUserById i db \<noteq> None) \<Longrightarrow>
     auditInsertable (newAuditLog env uid name act ip ua d) db"
  by (force simp: auditInsertable_def newAuditLog_def tbl_get_None split: option.splits)

definition refusedLogin :: "string \<Rightarrow> authDb \<Rightarrow> (authError + loginResult) \<times> authDb \<Rightarrow> bool" where
  "refusedLogin username db out \<longleftrightarrow>
     (\<exists>row. out = (Inl (UnauthorizedError ''Invalid username or password''), db\<lparr>authAuditLogs := authAuditLogs db @ [row]\<rparr>) \<and>
        al_action row \<in> {LoginFailure, AccountDisabled} \<and>
        (al_username row \<noteq> None \<longrightarrow> al_username row = Some username \<and> findByUsername username db \<noteq> None))"

lemma refuse_unknown:
  assumes "ae_auditId env \<notin> al_id ` set (authAuditLogs db)"
  shows "refusedLogin username db (refuseLogin (newAuditLog env None None LoginFailure ip ua d) db)"
  using auditInsertable_fresh[of env db None None LoginFailure ip ua d] assms
  by (auto simp: refusedLogin_def refuseLogin_eq newAuditLog_def[where env = env])

lemma refuse_known:
  assumes "ae_auditId env \<notin> al_id ` set (authAuditLogs db)" "findByUsername username db = Some u"
    and "act \<in> {LoginFailure, AccountDisabled}"
  shows "refusedLogin username db (refuseLogin (newAuditLog env (Some (u_id u)) (Some (u_username u)) act ip ua d) db)"
proof -
  have u: "u \<in> set (users db)" "u_username u = username" using assms(2) tbl_get_Some by (fastforce simp: findByUsername_def)+
  then have "findUserById (u_id u) db \<noteq> None" by (auto simp: findUserById_def tbl_get_None)
  then have "auditInsertable (newAuditLog env (Some (u_id u)) (Some (u_username u)) act ip ua d) db"
    using assms(1) by (intro auditInsertable_fresh) simp_all
  then show ?thesis using assms(2,3) u(2) by (auto simp: refusedLogin_def refuseLogin_eq newAuditLog_def[where env = env])
qed

text \<open>
  A login with wrong credentials, for an unknown name, with malformed input or for a disabled
  account is always refused with the same error, creates no session and changes no user, and adds
  exactly one entry to the audit log. That entry names a user only when a user of that name exists, so
  what was typed as an unknown name is never stored.
\<close>

theorem auth_login_refused:
  assumes "ae_auditId env \<notin> al_id ` set (authAuditLogs db)"
    and "\<not> (\<exists>u. isValidUsername username \<and> isValidPassword password \<and> findByUsername username db = Some u \<and>
            verifyPassword (as_scrypt svc) password (u_passwordHash u) \<and> u_status u = ActiveUser)"
  shows "\<exists>row. login svc env username password ctx db =
       (Inl (UnauthorizedError ''Invalid username or password''), db\<lparr>authAuditLogs := authAuditLogs db @ [row]\<rparr>) \<and>
     al_action row \<in> {LoginFailure, AccountDisabled} \<and>
     (al_username row \<noteq> None \<longrightarrow> al_username row = Some username \<and> findByUsername username db \<noteq> None)"
proof -
  have "refusedLogin username db (login svc env username password ctx db)"
  proof (cases "isValidUsername username \<and> isValidPassword password")
    case False
    then show ?thesis using refuse_unknown[OF assms(1)] by (auto simp: login_def Let_def)
  next
    case valid: True
    show ?thesis
    proof (cases "findByUsername username db")
      case None
      then show ?thesis using valid refuse_unknown[OF assms(1)] by (simp add: login_def Let_def)
    next
      case (Some u)
      have "\<not> verifyPassword (as_scrypt svc) password (u_passwordHash u) \<or> u_status u = DisabledUser"
        using assms(2) valid Some by (cases "u_status u") auto
      then show ?thesis using valid Some refuse_known[OF assms(1) Some] by (auto simp: login_def Let_def)
    qed
  qed
  then show ?thesis unfolding refusedLogin_def .
qed

theorem auth_login_refused_witness:
  "\<exists>row. login exampleService (exampleEnv ''s1'' 0) ''bob'' ''secret'' exampleContext exampleDb =
       (Inl (UnauthorizedError ''Invalid username or password''), exampleDb\<lparr>authAuditLogs := [row]\<rparr>) \<and> al_username row = None"
proof -
  have "findByUsername ''bob'' exampleDb = None" by (simp add: findByUsername_def exampleDb_def exampleUser_def tbl_get_def)
  moreover have "authAuditLogs exampleDb = []" by (simp add: exampleDb_def)
  ultimately show ?thesis
    using auth_login_refused[of "exampleEnv ''s1'' 0" exampleDb "''bob''" "''secret''" exampleService exampleContext] by auto
qed

section \<open>Active sessions are listed by text\<close>

lemma same_day_text:
  assumes "fourDigitYear t" "getUTCFullYear t = getUTCFullYear now" "getUTCMonth t = getUTCMonth now" "getUTCDate t = getUTCDate now"
  shows "sqliteTimestamp now < toISOString t"
proof -
  have "CHR '' '' < CHR ''T''" by (simp add: less_char_def)
  then show ?thesis using assms
    by (simp add: sqliteTimestamp_def sqliteLayout_def toISOString_render isoLayout_def isoFields_def append_less_iff)
qed

text \<open>
  The filter \<open>activeOnly\<close> compares two formats of time as text, \<open>expires_at\<close> with a \<open>T\<close> between date
  and time and \<open>CURRENT_TIMESTAMP\<close> with a blank there: a session that is not revoked is listed as active
  until the end of the UTC day it expires on, however long ago that was.
\<close>

theorem auth_expired_listed_active:
  assumes "s \<in> set (userSessions db)" "us_userId s = uid" "us_revokedAt s = None" "us_expiresAt s = toISOString t" "fourDigitYear t"
    and "getUTCFullYear t = getUTCFullYear (ae_now env)" "getUTCMonth t = getUTCMonth (ae_now env)" "getUTCDate t = getUTCDate (ae_now env)"
  shows "s \<in> set (listSessionsByUserId env uid True db)"
  using assms same_day_text[of t "ae_now env"] by (simp add: listSessionsByUserId_def sortDescending_def)

lemma example_day:
  "fourDigitYear 0" "getUTCFullYear 0 = getUTCFullYear 86399999" "getUTCMonth 0 = getUTCMonth 86399999" "getUTCDate 0 = getUTCDate 86399999"
  by code_simp+

theorem auth_expired_listed_active_witness:
  "\<exists>s. s \<in> set (listSessionsByUserId (exampleEnv ''x'' 86399999) ''u1'' True
        (exampleDb\<lparr>userSessions := [newSession (exampleEnv ''s1'' 0) ''u1'' ''h'' (toISOString 0) None None]\<rparr>)) \<and>
     us_expiresAt s = toISOString 0"
  using example_day
  by (intro exI[of _ "newSession (exampleEnv ''s1'' 0) ''u1'' ''h'' (toISOString 0) None None"] conjI
      auth_expired_listed_active[where t = 0]) (simp_all add: newSession_def exampleEnv_def)

end
