(* ===== verification/Rate_Limiter.thy ===== *)
theory Rate_Limiter
  imports Auth_Service
begin

text \<open>
  The limiter of failed logins (\<open>FailedLoginRateLimiter\<close> in \<open>platform-server/src/safety/limits.ts\<close>) and
  the login route that drives it (\<open>platform-server/src/server/handler.ts\<close>). The cache is a JavaScript
  \<open>Map\<close>: keys in the order they were first set.
\<close>

section \<open>The cache\<close>

type_synonym cache = "(string \<times> int list) list"

definition cacheGet :: "string \<Rightarrow> cache \<Rightarrow> int list" where
  "cacheGet k m = (case map_of m k of None \<Rightarrow> [] | Some ts \<Rightarrow> ts)"

definition cacheDelete :: "string \<Rightarrow> cache \<Rightarrow> cache" where
  "cacheDelete k m = filter (\<lambda>kv. fst kv \<noteq> k) m"

definition cacheSet :: "string \<Rightarrow> int list \<Rightarrow> cache \<Rightarrow> cache" where
  "cacheSet k ts m = (if k \<in> set (map fst m) then map (\<lambda>kv. if fst kv = k then (k, ts) else kv) m else m @ [(k, ts)])"

record rateLimiter =
  rl_maxFailedLogins :: int
  rl_windowSeconds :: int
  rl_memoryCache :: cache

definition maxCacheEntries :: nat where
  "maxCacheEntries = 5000"

definition newRateLimiter :: "int option \<Rightarrow> int option \<Rightarrow> rateLimiter" where
  "newRateLimiter maxFailedLogins windowSeconds =
     \<lparr>rl_maxFailedLogins = orDefault maxFailedLogins 5, rl_windowSeconds = orDefault windowSeconds 900, rl_memoryCache = []\<rparr>"

section \<open>Checking and recording\<close>

definition inWindow :: "int \<Rightarrow> rateLimiter \<Rightarrow> int \<Rightarrow> bool" where
  "inWindow nowMs rl t \<longleftrightarrow> nowMs - t < rl_windowSeconds rl * 1000"

definition cleanKey :: "string \<Rightarrow> int \<Rightarrow> rateLimiter \<Rightarrow> int list \<times> rateLimiter" where
  "cleanKey key nowMs rl =
     (let valid = filter (inWindow nowMs rl) (cacheGet key (rl_memoryCache rl)) in
      (valid, rl\<lparr>rl_memoryCache := (if length valid = 0 then cacheDelete key (rl_memoryCache rl)
                                     else cacheSet key valid (rl_memoryCache rl))\<rparr>))"

definition cleanUser :: "string \<Rightarrow> string" where
  "cleanUser username = js_trim (toLowerCase username)"

definition cleanIp :: "string option \<Rightarrow> string" where
  "cleanIp ipAddress = js_trim (if opt_truthy ipAddress then the ipAddress else ''127.0.0.1'')"

definition pairKey :: "string \<Rightarrow> string option \<Rightarrow> string" where
  "pairKey username ipAddress = ''pair:'' @ cleanIp ipAddress @ '':'' @ cleanUser username"

definition ipKey :: "string option \<Rightarrow> string" where
  "ipKey ipAddress = ''ip:'' @ cleanIp ipAddress"

datatype limitError = TooManyRequests | AuditUnavailable

text \<open>\<open>storage\<close> is the count of recent failures for a user name and an address that the audit log
  answers: absent without a storage, \<open>None\<close> when the query throws.\<close>

definition checkLimit ::
  "(string \<Rightarrow> string \<Rightarrow> int \<Rightarrow> nat option) option \<Rightarrow> int \<Rightarrow> string \<Rightarrow> string option \<Rightarrow> (rateLimiter, limitError, unit) op" where
  "checkLimit storage nowMs username ipAddress rl =
     (let (pairFailures, rl1) = cleanKey (pairKey username ipAddress) nowMs rl;
          (ipFailures, rl2) = cleanKey (ipKey ipAddress) nowMs rl1 in
      if rl_maxFailedLogins rl \<le> int (length pairFailures) \<or> rl_maxFailedLogins rl * 10 \<le> int (length ipFailures)
      then (Inl TooManyRequests, rl2)
      else case storage of
          None \<Rightarrow> (Inr (), rl2)
        | Some count \<Rightarrow>
            (case count (cleanUser username) (cleanIp ipAddress) (rl_windowSeconds rl) of
               None \<Rightarrow> (Inl AuditUnavailable, rl2)
             | Some dbCount \<Rightarrow>
                 if rl_maxFailedLogins rl \<le> int dbCount then (Inl TooManyRequests, rl2) else (Inr (), rl2)))"

definition evictOldest :: "cache \<Rightarrow> cache" where
  "evictOldest m = (if maxCacheEntries \<le> length m \<and> m \<noteq> [] \<and> truthy (fst (hd m)) then cacheDelete (fst (hd m)) m else m)"

definition addFailure :: "string \<Rightarrow> int \<Rightarrow> rateLimiter \<Rightarrow> rateLimiter" where
  "addFailure key nowMs rl =
     (let (timestamps, rl1) = cleanKey key nowMs rl in
      rl1\<lparr>rl_memoryCache := cacheSet key (timestamps @ [nowMs]) (rl_memoryCache rl1)\<rparr>)"

definition recordFailure :: "int \<Rightarrow> string \<Rightarrow> string option \<Rightarrow> rateLimiter \<Rightarrow> rateLimiter" where
  "recordFailure nowMs username ipAddress rl =
     addFailure (ipKey ipAddress) nowMs
       (addFailure (pairKey username ipAddress) nowMs (rl\<lparr>rl_memoryCache := evictOldest (rl_memoryCache rl)\<rparr>))"

section \<open>The login route\<close>

datatype routeError = BadRequest string | Limited limitError | LoginError authError

definition auditCount :: "authEnv \<Rightarrow> authDb \<Rightarrow> string \<Rightarrow> string \<Rightarrow> int \<Rightarrow> nat option" where
  "auditCount env db username ipAddress windowSeconds =
     Some (countRecentFailures env (Some username) (Some ipAddress) (Some windowSeconds) db)"

text \<open>The route after the CSRF check and the parsing of the body: the formats of the two fields, the
  limiter, the login, and the record of a failure whatever the login threw.\<close>

definition loginRoute ::
  "authService \<Rightarrow> authEnv \<Rightarrow> jsval \<Rightarrow> jsval \<Rightarrow> string \<Rightarrow> string option \<Rightarrow> rateLimiter \<times> authDb \<Rightarrow>
     (routeError + loginResult) \<times> rateLimiter \<times> authDb" where
  "loginRoute svc env rawUsername rawPassword clientIp userAgent st =
     (let (rl, db) = st in
      case as_string rawUsername of
        None \<Rightarrow> (Inl (BadRequest ''Invalid username format''), st)
      | Some username \<Rightarrow>
      if length username = 0 \<or> username \<noteq> js_trim username \<or> 64 < length username
      then (Inl (BadRequest ''Invalid username format''), st)
      else case as_string rawPassword of
        None \<Rightarrow> (Inl (BadRequest ''Invalid password format''), st)
      | Some password \<Rightarrow>
      if length password = 0 \<or> 256 < length password then (Inl (BadRequest ''Invalid password format''), st)
      else case checkLimit (Some (auditCount env db)) (ae_now env) username (Some clientIp) rl of
        (Inl e, rl') \<Rightarrow> (Inl (Limited e), (rl', db))
      | (Inr _, rl') \<Rightarrow>
          (case login svc env username password \<lparr>cx_ipAddress = Some clientIp, cx_userAgent = userAgent\<rparr> db of
             (Inl e, db') \<Rightarrow> (Inl (LoginError e), (recordFailure (ae_now env) username (Some clientIp) rl', db'))
           | (Inr r, db') \<Rightarrow> (Inr r, (rl', db'))))"

section \<open>The cache as a map\<close>

lemma cacheGet_delete: "cacheGet k (cacheDelete j m) = (if k = j then [] else cacheGet k m)"
  by (induction m) (auto simp: cacheGet_def cacheDelete_def)

lemma cacheGet_set: "cacheGet k (cacheSet j ts m) = (if k = j then ts else cacheGet k m)"
proof -
  have "map_of (map (\<lambda>kv. if fst kv = j then (j, ts) else kv) m) k = (if k = j then (if j \<in> fst ` set m then Some ts else None) else map_of m k)"
    by (induction m) force+
  moreover have "map_of m k = None" if "k \<notin> fst ` set m" using that by (simp add: map_of_eq_None_iff)
  ultimately show ?thesis
    by (cases "j \<in> fst ` set m"; cases "k = j") (simp_all add: cacheGet_def cacheSet_def map_add_def split: option.splits)
qed

lemma cleanKey_valid: "fst (cleanKey key now rl) = filter (inWindow now rl) (cacheGet key (rl_memoryCache rl))"
  by (simp add: cleanKey_def Let_def)

lemma cleanKey_cache:
  "cacheGet k (rl_memoryCache (snd (cleanKey key now rl))) =
     (if k = key then filter (inWindow now rl) (cacheGet key (rl_memoryCache rl)) else cacheGet k (rl_memoryCache rl))"
  by (auto simp: cleanKey_def Let_def cacheGet_delete cacheGet_set)

lemma cleanKey_frame [simp]:
  "rl_windowSeconds (snd (cleanKey key now rl)) = rl_windowSeconds rl" "rl_maxFailedLogins (snd (cleanKey key now rl)) = rl_maxFailedLogins rl"
  by (simp_all add: cleanKey_def Let_def)

lemma addFailure_cache:
  "cacheGet k (rl_memoryCache (addFailure key now rl)) =
     (if k = key then filter (inWindow now rl) (cacheGet key (rl_memoryCache rl)) @ [now] else cacheGet k (rl_memoryCache rl))"
  using cleanKey_cache[of k key now rl] cleanKey_valid[of key now rl]
  by (auto simp: addFailure_def case_prod_beta cacheGet_set)

lemma addFailure_frame [simp]:
  "rl_windowSeconds (addFailure key now rl) = rl_windowSeconds rl" "rl_maxFailedLogins (addFailure key now rl) = rl_maxFailedLogins rl"
  by (simp_all add: addFailure_def case_prod_beta)

lemma recordFailure_frame [simp]:
  "rl_windowSeconds (recordFailure now u ip rl) = rl_windowSeconds rl" "rl_maxFailedLogins (recordFailure now u ip rl) = rl_maxFailedLogins rl"
  by (simp_all add: recordFailure_def)

lemma inWindow_cong: "rl_windowSeconds rl = rl_windowSeconds rl' \<Longrightarrow> inWindow now rl = inWindow now rl'"
  by (intro ext) (simp add: inWindow_def)

section \<open>The limiter counts failures in a sliding window\<close>

type_synonym failure = "int \<times> string \<times> string option"

definition failAt :: "failure \<Rightarrow> int" where
  "failAt f = fst f"

definition failPair :: "failure \<Rightarrow> string" where
  "failPair f = pairKey (fst (snd f)) (snd (snd f))"

definition failIp :: "failure \<Rightarrow> string" where
  "failIp f = ipKey (snd (snd f))"

definition recordAll :: "failure list \<Rightarrow> rateLimiter \<Rightarrow> rateLimiter" where
  "recordAll fs rl = fold (\<lambda>f. recordFailure (fst f) (fst (snd f)) (snd (snd f))) fs rl"

definition keyTimes :: "string \<Rightarrow> failure list \<Rightarrow> int list" where
  "keyTimes k fs = map failAt (filter (\<lambda>f. failPair f = k \<or> failIp f = k) fs)"

lemma keys_differ [simp]: "pairKey u ip \<noteq> ipKey ip'" "ipKey ip' \<noteq> pairKey u ip"
  by (simp_all add: pairKey_def ipKey_def)

lemma length_cacheSet: "length (cacheSet k ts m) = (if k \<in> set (map fst m) then length m else Suc (length m))"
  by (simp add: cacheSet_def)

lemma cacheGet_present: "cacheGet k m \<noteq> [] \<Longrightarrow> k \<in> set (map fst m)"
  by (auto simp: cacheGet_def map_of_eq_None_iff split: option.splits) (force dest: map_of_SomeD)

lemma length_cleanKey: "length (rl_memoryCache (snd (cleanKey key now rl))) \<le> length (rl_memoryCache rl)"
proof (cases "filter (inWindow now rl) (cacheGet key (rl_memoryCache rl)) = []")
  case True
  then show ?thesis by (simp add: cleanKey_def Let_def cacheDelete_def)
next
  case False
  then have "cacheGet key (rl_memoryCache rl) \<noteq> []" by auto
  then show ?thesis using False cacheGet_present[of key "rl_memoryCache rl"] by (auto simp: cleanKey_def Let_def length_cacheSet)
qed

lemma length_addFailure: "length (rl_memoryCache (addFailure key now rl)) \<le> Suc (length (rl_memoryCache rl))"
  using length_cleanKey[of key now rl] by (auto simp: addFailure_def case_prod_beta length_cacheSet)

lemma recordFailure_small:
  assumes "length (rl_memoryCache rl) < maxCacheEntries"
  shows "length (rl_memoryCache (recordFailure now u ip rl)) \<le> length (rl_memoryCache rl) + 2"
    "cacheGet k (rl_memoryCache (recordFailure now u ip rl)) =
       (if k = pairKey u ip \<or> k = ipKey ip then filter (inWindow now rl) (cacheGet k (rl_memoryCache rl)) @ [now]
        else cacheGet k (rl_memoryCache rl))"
proof -
  have e: "rl\<lparr>rl_memoryCache := evictOldest (rl_memoryCache rl)\<rparr> = rl" using assms by (simp add: evictOldest_def)
  show "length (rl_memoryCache (recordFailure now u ip rl)) \<le> length (rl_memoryCache rl) + 2"
    unfolding recordFailure_def e
    using length_addFailure[of "ipKey ip" now "addFailure (pairKey u ip) now rl"] length_addFailure[of "pairKey u ip" now rl] by simp
  show "cacheGet k (rl_memoryCache (recordFailure now u ip rl)) =
       (if k = pairKey u ip \<or> k = ipKey ip then filter (inWindow now rl) (cacheGet k (rl_memoryCache rl)) @ [now]
        else cacheGet k (rl_memoryCache rl))"
    unfolding recordFailure_def e addFailure_cache
    by (auto simp: addFailure_cache inWindow_cong[of "addFailure (pairKey u ip) now rl" rl])
qed

lemma filter_window: "now \<le> now' \<Longrightarrow> filter (inWindow now' rl) (filter (inWindow now rl) ts) = filter (inWindow now' rl) ts"
  by (induction ts) (auto simp: inWindow_def)

definition counts :: "failure list \<Rightarrow> rateLimiter \<Rightarrow> bool" where
  "counts fs rl \<longleftrightarrow> length (rl_memoryCache rl) \<le> 2 * length fs \<and>
     (\<forall>now k. (\<forall>f \<in> set fs. failAt f \<le> now) \<longrightarrow>
        filter (inWindow now rl) (cacheGet k (rl_memoryCache rl)) = filter (inWindow now rl) (keyTimes k fs))"

lemma counts_step:
  assumes c: "counts fs rl" and time: "\<forall>g \<in> set fs. failAt g \<le> failAt f" and n: "length fs < 2500"
  shows "counts (fs @ [f]) (recordFailure (fst f) (fst (snd f)) (snd (snd f)) rl)"
proof -
  let ?rl = "recordFailure (fst f) (fst (snd f)) (snd (snd f)) rl"
  have small: "length (rl_memoryCache rl) < maxCacheEntries" using c n by (simp add: counts_def maxCacheEntries_def)
  have "filter (inWindow now ?rl) (cacheGet k (rl_memoryCache ?rl)) = filter (inWindow now ?rl) (keyTimes k (fs @ [f]))"
    if now: "\<forall>g \<in> set (fs @ [f]). failAt g \<le> now" for now k
  proof -
    have w: "inWindow now ?rl = inWindow now rl" by (rule inWindow_cong) simp
    have old: "filter (inWindow now rl) (cacheGet k (rl_memoryCache rl)) = filter (inWindow now rl) (keyTimes k fs)"
      using c now by (simp add: counts_def)
    have "fst f \<le> now" using now by (simp add: failAt_def)
    then show ?thesis
      using old filter_window[of "fst f" now rl "cacheGet k (rl_memoryCache rl)"]
      by (auto simp: w recordFailure_small(2)[OF small] keyTimes_def failPair_def failIp_def failAt_def)
  qed
  then show ?thesis
    using c recordFailure_small(1)[OF small, of "fst f" "fst (snd f)" "snd (snd f)"] by (auto simp: counts_def)
qed

lemma counts_all:
  "sorted (map failAt fs) \<Longrightarrow> length fs \<le> 2500 \<Longrightarrow> counts fs (recordAll fs (newRateLimiter mx w))"
proof (induction fs rule: rev_induct)
  case Nil
  then show ?case by (simp add: counts_def recordAll_def newRateLimiter_def cacheGet_def keyTimes_def)
next
  case (snoc f fs)
  then have "counts fs (recordAll fs (newRateLimiter mx w))" by (simp add: sorted_append)
  moreover have "\<forall>g \<in> set fs. failAt g \<le> failAt f" using snoc.prems(1) by (auto simp: sorted_append)
  ultimately show ?case using counts_step[of fs _ f] snoc.prems(2) by (simp add: recordAll_def)
qed

lemma recordAll_frame [simp]:
  "rl_windowSeconds (recordAll fs rl) = rl_windowSeconds rl" "rl_maxFailedLogins (recordAll fs rl) = rl_maxFailedLogins rl"
  by (induction fs arbitrary: rl) (simp_all add: recordAll_def)

lemma checkLimit_memory:
  "fst (checkLimit None now u ip rl) =
     (if rl_maxFailedLogins rl \<le> int (length (filter (inWindow now rl) (cacheGet (pairKey u ip) (rl_memoryCache rl)))) \<or>
         rl_maxFailedLogins rl * 10 \<le> int (length (filter (inWindow now rl) (cacheGet (ipKey ip) (rl_memoryCache rl))))
      then Inl TooManyRequests else Inr ())"
proof -
  let ?rl = "snd (cleanKey (pairKey u ip) now rl)"
  have "inWindow now ?rl = inWindow now rl" by (rule inWindow_cong) simp
  then have "fst (cleanKey (ipKey ip) now ?rl) = filter (inWindow now rl) (cacheGet (ipKey ip) (rl_memoryCache rl))"
    by (simp add: cleanKey_valid cleanKey_cache)
  then show ?thesis by (simp add: checkLimit_def case_prod_beta Let_def cleanKey_valid)
qed


lemma example_clean: "cleanUser ''Bob'' = ''bob''" "cleanUser ''bob'' = ''bob''"
  by code_simp+


section \<open>The bound of the cache\<close>

lemma addFailure_fresh:
  assumes "key \<notin> set (map fst (rl_memoryCache rl))"
  shows "rl_memoryCache (addFailure key now rl) = rl_memoryCache rl @ [(key, [now])]"
proof -
  have "cacheGet key (rl_memoryCache rl) = []" using assms cacheGet_present by blast
  moreover have "cacheDelete key (rl_memoryCache rl) = rl_memoryCache rl"
    unfolding cacheDelete_def using assms by (intro filter_True) auto
  ultimately show ?thesis using assms by (simp add: addFailure_def cleanKey_def Let_def cacheSet_def)
qed

lemma evictOldest_cases:
  assumes "distinct (map fst m)"
  shows "evictOldest m = m \<or> evictOldest m = tl m"
proof (cases m)
  case (Cons kv r)
  have "\<forall>x \<in> set r. fst x \<noteq> fst kv" using assms Cons by (metis distinct.simps(2) image_eqI list.map(2) list.set_map)
  then have "cacheDelete (fst kv) (kv # r) = r" unfolding cacheDelete_def by (simp add: filter_True)
  then show ?thesis by (simp add: evictOldest_def Cons)
qed (simp add: evictOldest_def)

lemma record_fresh_grows:
  assumes "distinct (map fst (rl_memoryCache rl))"
    "pairKey u ip \<notin> set (map fst (rl_memoryCache rl))" "ipKey ip \<notin> set (map fst (rl_memoryCache rl))"
  shows "Suc (length (rl_memoryCache rl)) \<le> length (rl_memoryCache (recordFailure now u ip rl))"
    "distinct (map fst (rl_memoryCache (recordFailure now u ip rl)))"
    "set (map fst (rl_memoryCache (recordFailure now u ip rl))) \<subseteq> insert (pairKey u ip) (insert (ipKey ip) (set (map fst (rl_memoryCache rl))))"
proof -
  let ?m = "evictOldest (rl_memoryCache rl)"
  have m: "?m = rl_memoryCache rl \<or> ?m = tl (rl_memoryCache rl)" by (rule evictOldest_cases[OF assms(1)])
  then have sub: "set ?m \<subseteq> set (rl_memoryCache rl)" by (cases "rl_memoryCache rl") auto
  have d: "distinct (map fst ?m)" using m assms(1) by (auto simp: distinct_tl map_tl)
  have new: "pairKey u ip \<notin> set (map fst ?m)" "ipKey ip \<notin> set (map fst ?m)" using assms(2,3) sub by auto
  have "rl_memoryCache (recordFailure now u ip rl) = ?m @ [(pairKey u ip, [now]), (ipKey ip, [now])]"
    using new by (simp add: recordFailure_def addFailure_fresh)
  then show "Suc (length (rl_memoryCache rl)) \<le> length (rl_memoryCache (recordFailure now u ip rl))"
    "distinct (map fst (rl_memoryCache (recordFailure now u ip rl)))"
    "set (map fst (rl_memoryCache (recordFailure now u ip rl))) \<subseteq> insert (pairKey u ip) (insert (ipKey ip) (set (map fst (rl_memoryCache rl))))"
    using m d new sub by (auto simp: image_subset_iff)
qed

lemma show_nat_no_space: "\<not> is_space c" if "c \<in> set (show_nat n)"
  using show_nat_digits[of n] that digit_not_space unfolding list_all_iff by blast

lemma cleanIp_number: "cleanIp (Some (show_nat i)) = show_nat i"
  using show_nat_no_space[of "hd (show_nat i)" i] show_nat_no_space[of "last (show_nat i)" i]
  by (simp add: cleanIp_def truthy_def js_trim_no_space)

definition distinctAttempts :: "int \<Rightarrow> string \<Rightarrow> nat \<Rightarrow> failure list" where
  "distinctAttempts t u n = map (\<lambda>i. (t, u, Some (show_nat i))) [0..<n]"

lemma attempts_grow:
  "n \<le> length (rl_memoryCache (recordAll (distinctAttempts t u n) (newRateLimiter mx w))) \<and>
   distinct (map fst (rl_memoryCache (recordAll (distinctAttempts t u n) (newRateLimiter mx w)))) \<and>
   set (map fst (rl_memoryCache (recordAll (distinctAttempts t u n) (newRateLimiter mx w)))) \<subseteq>
     (\<Union>i \<in> {..<n}. {pairKey u (Some (show_nat i)), ipKey (Some (show_nat i))})"
proof (induction n)
  case 0
  then show ?case by (simp add: recordAll_def distinctAttempts_def newRateLimiter_def)
next
  case (Suc n)
  let ?rl = "recordAll (distinctAttempts t u n) (newRateLimiter mx w)"
  have step: "recordAll (distinctAttempts t u (Suc n)) (newRateLimiter mx w) = recordFailure t u (Some (show_nat n)) ?rl"
    by (simp add: recordAll_def distinctAttempts_def)
  have new: "pairKey u (Some (show_nat n)) \<noteq> pairKey u (Some (show_nat i))" "ipKey (Some (show_nat n)) \<noteq> ipKey (Some (show_nat i))"
    if "i < n" for i using that by (simp_all add: pairKey_def ipKey_def cleanIp_number)
  have fresh: "pairKey u (Some (show_nat n)) \<notin> set (map fst (rl_memoryCache ?rl))"
    "ipKey (Some (show_nat n)) \<notin> set (map fst (rl_memoryCache ?rl))"
    using Suc new by (auto dest!: subsetD[of "set _"])
  show ?case unfolding step
    using record_fresh_grows[OF _ fresh, of t] Suc by (auto simp: lessThan_Suc)
qed

text \<open>
  The cache of the limiter has no bound. Recording a failure removes at most one key and adds two:
  after failures from \<open>n\<close> different addresses it holds at least \<open>n\<close> entries, for every \<open>n\<close>, although it
  is meant to keep at most 5000.
\<close>

theorem limiter_cache_unbounded:
  "n \<le> length (rl_memoryCache (recordAll (distinctAttempts t u n) (newRateLimiter mx w)))"
  using attempts_grow by blast

section \<open>The audit log and the spelling of names\<close>

text \<open>
  Across a restart the limiter forgets users whose name is not written in lower case: it looks
  the name up in the audit log in lower case, but the log keeps the name as the account has it. With
  a fresh cache an attempt for such a name passes, however many failures for it the log holds.
\<close>

theorem limiter_restart_forgets:
  assumes "cleanUser name \<noteq> name" "truthy (cleanUser name)" "0 < mx"
    and "list_all (\<lambda>a. al_username a = None \<or> al_username a = Some name) (authAuditLogs db)"
  shows "fst (checkLimit (Some (auditCount env db)) now name ip (newRateLimiter (Some mx) w)) = Inr ()"
proof -
  have "matchesFailure (Some (cleanUser name)) i a \<Longrightarrow> a \<notin> set (authAuditLogs db)" for i a
    using assms(1,2,4) by (auto simp: matchesFailure_def list_all_iff)
  then have "countRecentFailures env (Some (cleanUser name)) i ws db = 0" for i ws
    by (auto simp: countRecentFailures_def Let_def filter_empty_conv)
  then show ?thesis
    using assms(3) by (simp add: checkLimit_def case_prod_beta Let_def auditCount_def cleanKey_def newRateLimiter_def cacheGet_def
      cacheDelete_def orDefault_def)
qed

theorem limiter_restart_forgets_witness:
  "fst (checkLimit (Some (auditCount \<lparr>ae_now = 0, ae_rowId = [], ae_auditId = [], ae_token = []\<rparr>
      \<lparr>users = [], userSessions = [], authAuditLogs = replicate 100 (newAuditLog \<lparr>ae_now = 0, ae_rowId = [], ae_auditId = [], ae_token = []\<rparr>
         None (Some ''Bob'') LoginFailure (Some ''127.0.0.1'') None None)\<rparr>)) 1 ''Bob'' (Some ''127.0.0.1'') (newRateLimiter (Some 5) None)) = Inr ()"
  by (rule limiter_restart_forgets) (simp_all add: example_clean truthy_def newAuditLog_def list_all_iff)

end
