(* ===== verification/Request_Guard.thy ===== *)
theory Request_Guard
  imports Bytes Decimal
begin

text \<open>
  The checks in front of every request (\<open>platform-server/src/safety/limits.ts\<close>) and of the server's
  own binding (\<open>platform-server/src/safety/host-binding.ts\<close>): sizes, \<open>Host\<close>, CSRF token and origin,
  path identifiers, message text. SHA-256 is the parameter \<open>sha\<close>.
\<close>

section \<open>Requests\<close>

text \<open>A header as Node delivers it.\<close>

datatype headerValue = NoValue | OneValue string | ManyValues "string list"

record httpRequest =
  rq_localAddress :: "string option"
  rq_localPort :: "number option"
  rq_method :: "string option"
  rq_host :: headerValue
  rq_origin :: headerValue
  rq_csrfToken :: headerValue
  rq_csrfAlias :: headerValue
  rq_cookie :: headerValue
  rq_contentLength :: headerValue

datatype guardError =
    CsrfViolation string
  | ValidationFailed string
  | PayloadTooLarge
  | UnsafeHostBinding
  | UnsafePortAllocation

section \<open>Sizes\<close>

record serverLimits =
  sl_maxBodySizeBytes :: "int option"
  sl_maxCookieSizeBytes :: "int option"

definition canonicalLength :: "string \<Rightarrow> bool" where
  "canonicalLength s \<longleftrightarrow> s = ''0'' \<or> canonicalInt s"

definition validateRequestLimits :: "httpRequest \<Rightarrow> serverLimits \<Rightarrow> guardError + unit" where
  "validateRequestLimits req limits =
     (let maxCookieBytes = (case sl_maxCookieSizeBytes limits of None \<Rightarrow> 4096 | Some n \<Rightarrow> n) in
      if (case rq_cookie req of OneValue c \<Rightarrow> truthy c \<and> maxCookieBytes < int (utf8Length c) | _ \<Rightarrow> False)
      then Inl (ValidationFailed ''Cookie header exceeds maximum allowed length'')
      else case rq_contentLength req of
          NoValue \<Rightarrow> Inr ()
        | ManyValues _ \<Rightarrow> Inl (ValidationFailed ''Invalid Content-Length header'')
        | OneValue contentLength \<Rightarrow>
            if \<not> canonicalLength (js_trim contentLength) then Inl (ValidationFailed ''Invalid Content-Length header'')
            else let parsedLength = int (digits_value (js_trim contentLength));
                     maxBodyBytes = (case sl_maxBodySizeBytes limits of None \<Rightarrow> 1024 * 1024 | Some n \<Rightarrow> n) in
                 if \<not> isSafeInteger (Num parsedLength) \<or> parsedLength < 0 \<or> maxBodyBytes < parsedLength
                 then Inl PayloadTooLarge else Inr ())"

section \<open>Host\<close>

definition validPort :: "number \<Rightarrow> bool" where
  "validPort p = (case p of Num n \<Rightarrow> 1 \<le> n \<and> n \<le> 65535 | _ \<Rightarrow> False)"

definition portText :: "number \<Rightarrow> string" where
  "portText p = (case p of Num n \<Rightarrow> show_int n | _ \<Rightarrow> [])"

definition suspiciousHost :: "string \<Rightarrow> bool" where
  "suspiciousHost host \<longleftrightarrow>
     CHR '','' \<in> set host \<or> list_ex is_space host \<or> CHR ''@'' \<in> set host \<or> CHR ''/'' \<in> set host \<or>
     CHR 0x5C \<in> set host \<or> startsWith host ''http:'' \<or> startsWith host ''https:'' \<or> endsWith host ''.''"

definition isLoopbackHost :: "string \<Rightarrow> number \<Rightarrow> bool" where
  "isLoopbackHost host expectedPort =
     (if \<not> validPort expectedPort then False
      else if suspiciousHost host then False
      else host = ''127.0.0.1:'' @ portText expectedPort)"

definition isAllowedHost :: "string \<Rightarrow> number \<Rightarrow> bool" where
  "isAllowedHost host expectedPort = isLoopbackHost host expectedPort"

definition validateHost :: "httpRequest \<Rightarrow> guardError + unit" where
  "validateHost req =
     (if rq_localAddress req \<noteq> Some ''127.0.0.1'' then Inl (CsrfViolation ''Forbidden socket authority'')
      else case rq_localPort req of
        None \<Rightarrow> Inl (CsrfViolation ''Invalid socket port'')
      | Some localPort \<Rightarrow>
          if \<not> validPort localPort then Inl (CsrfViolation ''Invalid socket port'')
          else case rq_host req of
            OneValue hostHeader \<Rightarrow>
              if \<not> truthy hostHeader \<or> length (js_trim hostHeader) = 0 then Inl (CsrfViolation ''Missing or empty Host header'')
              else if suspiciousHost hostHeader then Inl (CsrfViolation ''Forbidden or untrusted Host header'')
              else if hostHeader \<noteq> ''127.0.0.1:'' @ portText localPort
              then Inl (CsrfViolation ''Forbidden or untrusted Host header'')
              else Inr ()
          | _ \<Rightarrow> Inl (CsrfViolation ''Missing or empty Host header''))"

section \<open>Cross-site requests\<close>

definition constantTimeCompare :: "(byte list \<Rightarrow> byte list) \<Rightarrow> string \<Rightarrow> string \<Rightarrow> bool" where
  "constantTimeCompare sha a b \<longleftrightarrow> sha (utf8Bytes a) = sha (utf8Bytes b)"

definition MIN_CSRF_TOKEN_LENGTH :: nat where "MIN_CSRF_TOKEN_LENGTH = 32"

definition upper_char :: "char \<Rightarrow> char" where
  "upper_char c = (if (97::nat) \<le> of_char c \<and> of_char c \<le> (122::nat) then char_of (of_char c - 32 :: nat) else c)"

definition requestMethod :: "httpRequest \<Rightarrow> string" where
  "requestMethod req = map upper_char (if opt_truthy (rq_method req) then the (rq_method req) else ''GET'')"

definition safeMethod :: "httpRequest \<Rightarrow> bool" where
  "safeMethod req \<longleftrightarrow> requestMethod req = ''GET'' \<or> requestMethod req = ''HEAD'' \<or> requestMethod req = ''OPTIONS''"

definition expectedOrigin :: "httpRequest \<Rightarrow> string" where
  "expectedOrigin req = ''http://127.0.0.1:'' @ (case rq_localPort req of None \<Rightarrow> [] | Some p \<Rightarrow> portText p)"

definition checkOrigin :: "string \<Rightarrow> headerValue \<Rightarrow> guardError + unit" where
  "checkOrigin expected origin =
     (case origin of
        OneValue o1 \<Rightarrow>
          if CHR '','' \<in> set o1 \<or> length (js_trim o1) = 0 then Inl (CsrfViolation ''Forbidden or untrusted Origin header'')
          else if o1 \<noteq> expected then Inl (CsrfViolation ''Forbidden or untrusted Origin header'')
          else Inr ()
      | _ \<Rightarrow> Inl (CsrfViolation ''Forbidden or untrusted Origin header''))"

definition checkToken :: "(byte list \<Rightarrow> byte list) \<Rightarrow> string \<Rightarrow> headerValue \<Rightarrow> guardError + unit" where
  "checkToken sha csrfToken rawToken =
     (case rawToken of
        ManyValues _ \<Rightarrow> Inl (CsrfViolation ''Duplicate or conflicting CSRF token headers'')
      | NoValue \<Rightarrow> Inl (CsrfViolation ''Missing or empty X-Enkeep-CSRF token header for state-changing request'')
      | OneValue t \<Rightarrow>
          if \<not> truthy t \<or> length (js_trim t) = 0 \<or> CHR '','' \<in> set t
          then Inl (CsrfViolation ''Missing or empty X-Enkeep-CSRF token header for state-changing request'')
          else if \<not> constantTimeCompare sha (js_trim t) csrfToken
          then Inl (CsrfViolation ''Missing or invalid X-Enkeep-CSRF token'')
          else Inr ())"

definition validateCsrf :: "(byte list \<Rightarrow> byte list) \<Rightarrow> string \<Rightarrow> httpRequest \<Rightarrow> guardError + unit" where
  "validateCsrf sha csrfToken req =
     andThen (validateHost req) (\<lambda>_.
      if safeMethod req
      then (case rq_origin req of NoValue \<Rightarrow> Inr () | origin \<Rightarrow> checkOrigin (expectedOrigin req) origin)
      else if \<not> truthy csrfToken \<or> length csrfToken < MIN_CSRF_TOKEN_LENGTH
      then Inl (CsrfViolation ''Server CSRF configuration error: missing or invalid csrfToken'')
      else if rq_csrfAlias req \<noteq> NoValue then Inl (CsrfViolation ''Duplicate or conflicting CSRF token headers'')
      else andThen (checkToken sha csrfToken (rq_csrfToken req)) (\<lambda>_.
        case rq_origin req of
          NoValue \<Rightarrow> Inl (CsrfViolation ''Missing Origin header for state-changing request'')
        | origin \<Rightarrow> checkOrigin (expectedOrigin req) origin))"

section \<open>Message text\<close>

definition MAX_MESSAGE_CONTENT_LENGTH :: nat where "MAX_MESSAGE_CONTENT_LENGTH = 65536"

definition validateMessageContent :: "jsval \<Rightarrow> guardError + string" where
  "validateMessageContent content =
     (case content of
        JUndefined \<Rightarrow> Inl (ValidationFailed ''Message content is required'')
      | JNull \<Rightarrow> Inl (ValidationFailed ''Message content is required'')
      | JString s \<Rightarrow>
          if MAX_MESSAGE_CONTENT_LENGTH < length s
          then Inl (ValidationFailed ''Message content length exceeds maximum allowed length of 65536 characters'')
          else if length (js_trim s) = 0 then Inl (ValidationFailed ''Message content cannot be empty or whitespace only'')
          else Inr s
      | _ \<Rightarrow> Inl (ValidationFailed ''Message content must be a string''))"

section \<open>Path identifiers\<close>

text \<open>
  \<open>decodeURIComponent\<close>: percent-encoded UTF-8 to code points, \<open>None\<close> for a \<open>URIError\<close>; a character
  that is not escaped stands for itself.
\<close>

definition hexValue :: "char \<Rightarrow> nat option" where
  "hexValue c = (let n = of_char c :: nat in
     if 48 \<le> n \<and> n \<le> 57 then Some (n - 48) else if 97 \<le> n \<and> n \<le> 102 then Some (n - 87)
     else if 65 \<le> n \<and> n \<le> 70 then Some (n - 55) else None)"

fun escapedByte :: "string \<Rightarrow> (nat \<times> string) option" where
  "escapedByte (c # h # l # s) =
     (if c = CHR ''%'' then (case (hexValue h, hexValue l) of (Some x, Some y) \<Rightarrow> Some (16 * x + y, s) | _ \<Rightarrow> None) else None)"
| "escapedByte _ = None"

fun continuation :: "nat \<Rightarrow> nat \<Rightarrow> string \<Rightarrow> (nat \<times> string) option" where
  "continuation 0 cp s = Some (cp, s)"
| "continuation (Suc n) cp s =
     (case escapedByte s of
        None \<Rightarrow> None
      | Some (b, r) \<Rightarrow> if 128 \<le> b \<and> b < 192 then continuation n (cp * 64 + (b - 128)) r else None)"

definition codePoint :: "nat \<Rightarrow> string \<Rightarrow> (nat \<times> string) option" where
  "codePoint b s =
     (if b < 128 then Some (b, s)
      else if 194 \<le> b \<and> b \<le> 223 then continuation 1 (b - 192) s
      else if 224 \<le> b \<and> b \<le> 239
      then (case continuation 2 (b - 224) s of
              Some (cp, r) \<Rightarrow> if cp < 2048 \<or> (55296 \<le> cp \<and> cp \<le> 57343) then None else Some (cp, r) | None \<Rightarrow> None)
      else if 240 \<le> b \<and> b \<le> 244
      then (case continuation 3 (b - 240) s of
              Some (cp, r) \<Rightarrow> if cp < 65536 \<or> 1114111 < cp then None else Some (cp, r) | None \<Rightarrow> None)
      else None)"

lemma escapedByte_length: "escapedByte s = Some (b, r) \<Longrightarrow> length r < length s"
  by (induction s rule: escapedByte.induct) (auto split: if_splits option.splits)

lemma continuation_length: "continuation n cp s = Some (cp', r) \<Longrightarrow> length r \<le> length s"
  by (induction n arbitrary: cp s) (auto split: if_splits option.splits dest!: escapedByte_length, fastforce)

lemma codePoint_length: "codePoint b s = Some (cp, r) \<Longrightarrow> length r \<le> length s"
  by (auto simp: codePoint_def simp del: continuation.simps split: if_splits option.splits dest: continuation_length)

function decodeURIComponent :: "string \<Rightarrow> nat list option" where
  "decodeURIComponent [] = Some []"
| "decodeURIComponent (c # s) =
     (if c \<noteq> CHR ''%'' then map_option (Cons (of_char c)) (decodeURIComponent s)
      else case escapedByte (c # s) of
        None \<Rightarrow> None
      | Some (b, r) \<Rightarrow>
          (case codePoint b r of
             None \<Rightarrow> None
           | Some (cp, r') \<Rightarrow> map_option (Cons cp) (decodeURIComponent r')))"
  by pat_completeness auto

termination
  by (relation "measure length") (auto dest!: escapedByte_length codePoint_length)

definition isResourceChar :: "nat \<Rightarrow> bool" where
  "isResourceChar n \<longleftrightarrow> (48 \<le> n \<and> n \<le> 57) \<or> (65 \<le> n \<and> n \<le> 90) \<or> (97 \<le> n \<and> n \<le> 122) \<or> n = 95 \<or> n = 45"

definition RESOURCE_ID_REGEX :: "nat list \<Rightarrow> bool" where
  "RESOURCE_ID_REGEX s \<longleftrightarrow> 1 \<le> length s \<and> length s \<le> 128 \<and> list_all isResourceChar s"

text \<open>The length of a text of code points in UTF-16 units, and whether two dots follow each other.\<close>

definition utf16Length :: "nat list \<Rightarrow> nat" where
  "utf16Length s = sum_list (map (\<lambda>n. if 65535 < n then 2 else 1) s)"

fun hasDotDot :: "nat list \<Rightarrow> bool" where
  "hasDotDot (a # b # s) = ((a = 46 \<and> b = 46) \<or> hasDotDot (b # s))"
| "hasDotDot _ = False"

definition validatePathId :: "jsval \<Rightarrow> guardError + nat list" where
  "validatePathId rawParam =
     (case as_string rawParam of
        None \<Rightarrow> Inl (ValidationFailed ''Missing or empty identifier'')
      | Some raw \<Rightarrow>
          if length (js_trim raw) = 0 then Inl (ValidationFailed ''Missing or empty identifier'')
          else case decodeURIComponent (js_trim raw) of
            None \<Rightarrow> Inl (ValidationFailed ''Malformed percent-encoded identifier'')
          | Some decoded \<Rightarrow>
              if 37 \<in> set decoded then Inl (ValidationFailed ''Invalid identifier: double percent-encoding detected'')
              else if decoded = [46] \<or> decoded = [46, 46] \<or> hasDotDot decoded \<or> (decoded \<noteq> [] \<and> hd decoded = 46)
              then Inl (ValidationFailed ''Invalid identifier: dot segments and path traversal are forbidden'')
              else if 47 \<in> set decoded \<or> 92 \<in> set decoded
              then Inl (ValidationFailed ''Invalid identifier: slashes and backslashes are forbidden'')
              else if list_ex (\<lambda>n. n < 32 \<or> n = 127) decoded
              then Inl (ValidationFailed ''Invalid identifier: control characters are forbidden'')
              else if utf16Length decoded < 1 \<or> 128 < utf16Length decoded
              then Inl (ValidationFailed ''Invalid identifier length. Expected 1 to 128 characters.'')
              else if \<not> RESOURCE_ID_REGEX decoded
              then Inl (ValidationFailed ''Invalid identifier format. Must match [A-Za-z0-9_-]{1,128}.'')
              else Inr decoded)"

section \<open>Attachments\<close>

text \<open>Characters below 256 are in normal form C, so the two comparisons with \<open>normalize('NFC')\<close> hold.\<close>

record validatedAttachment =
  va_path :: string
  va_etag :: string
  va_mimeType :: "string option"
  va_displayName :: "string option"

definition MAX_ATTACHMENTS_COUNT :: nat where "MAX_ATTACHMENTS_COUNT = 10"

definition ETAG_LOWERCASE_SHA256_REGEX :: "string \<Rightarrow> bool" where
  "ETAG_LOWERCASE_SHA256_REGEX s \<longleftrightarrow> length s = 66 \<and> hd s = CHR 0x22 \<and> last s = CHR 0x22 \<and>
     list_all is_lower_hex (take 64 (tl s))"

definition attachmentFail :: "string \<Rightarrow> guardError + 'a" where
  "attachmentFail m = Inl (ValidationFailed (''Attachment '' @ m))"

definition attachmentName :: "jsval \<Rightarrow> guardError + string option" where
  "attachmentName rawDisplayName =
     (if rawDisplayName = JUndefined then Inr None
      else case as_string rawDisplayName of
        None \<Rightarrow> attachmentFail ''displayName must be a string''
      | Some n \<Rightarrow>
          if n \<noteq> js_trim n then attachmentFail ''displayName must not contain leading or trailing whitespace''
          else if 255 < length n then attachmentFail ''displayName exceeds 255 characters''
          else Inr (Some n))"

definition attachmentMime :: "jsval \<Rightarrow> guardError + string option" where
  "attachmentMime rawMime =
     (if rawMime = JUndefined then Inr None
      else case as_string rawMime of
        None \<Rightarrow> attachmentFail ''mimeType must be a string''
      | Some m \<Rightarrow> Inr (Some (js_trim m)))"

definition whenTruthy :: "string option \<Rightarrow> string option" where
  "whenTruthy v = (if opt_truthy v then v else None)"

definition validateAttachment :: "jsval \<Rightarrow> guardError + validatedAttachment" where
  "validateAttachment item =
     (case item of
        JObject kvs \<Rightarrow>
          if \<not> list_all (\<lambda>kv. fst kv \<in> {''path'', ''etag'', ''mimeType'', ''displayName''}) kvs
          then attachmentFail ''contains unexpected field''
          else (case as_string (js_get item ''path'') of
             None \<Rightarrow> attachmentFail ''requires a non-empty string path''
           | Some rawPath \<Rightarrow>
               if \<not> truthy rawPath then attachmentFail ''requires a non-empty string path''
               else if rawPath \<noteq> js_trim rawPath then attachmentFail ''path must not contain leading or trailing whitespace''
               else if startsWith rawPath ''/'' \<or> startsWith rawPath [CHR 0x5C] \<or> js_includes rawPath ''..'' \<or> CHR 0x00 \<in> set rawPath
               then attachmentFail ''path must be canonical relative path within current space''
               else (case as_string (js_get item ''etag'') of
                  None \<Rightarrow> attachmentFail ''requires exact quoted lowercase 64-hex SHA-256 etag''
                | Some rawEtag \<Rightarrow>
                    if \<not> ETAG_LOWERCASE_SHA256_REGEX rawEtag
                    then attachmentFail ''requires exact quoted lowercase 64-hex SHA-256 etag''
                    else andThen (attachmentName (js_get item ''displayName'')) (\<lambda>name.
                         andThen (attachmentMime (js_get item ''mimeType'')) (\<lambda>mime.
                         Inr \<lparr>va_path = rawPath, va_etag = rawEtag, va_mimeType = whenTruthy mime,
                              va_displayName = whenTruthy name\<rparr>))))
      | _ \<Rightarrow> attachmentFail ''must be an object'')"

fun validateEach :: "jsval list \<Rightarrow> guardError + validatedAttachment list" where
  "validateEach [] = Inr []"
| "validateEach (item # items) =
     andThen (validateAttachment item) (\<lambda>a. andThen (validateEach items) (\<lambda>as. Inr (a # as)))"

definition validateAttachments :: "jsval \<Rightarrow> guardError + validatedAttachment list option" where
  "validateAttachments attachments =
     (case attachments of
        JUndefined \<Rightarrow> Inr None
      | JNull \<Rightarrow> Inr None
      | JArray items \<Rightarrow>
          if MAX_ATTACHMENTS_COUNT < length items
          then Inl (ValidationFailed ''Attachment count exceeds limit of 10 attachments'')
          else andThen (validateEach items) (\<lambda>as. Inr (Some as))
      | _ \<Rightarrow> Inl (ValidationFailed ''Attachments must be an array''))"

section \<open>Binding the server\<close>

definition FORBIDDEN_HOSTS :: "string list" where
  "FORBIDDEN_HOSTS = [''0.0.0.0'', ''::'', ''::0'', ''0:0:0:0:0:0:0:0'', ''::ffff:0.0.0.0'', ''*'']"

definition RESERVED_PROTECTED_PORTS :: "int list" where
  "RESERVED_PROTECTED_PORTS = [3000, 3080]"

definition validateHostBinding :: "string \<Rightarrow> guardError + unit" where
  "validateHostBinding host =
     (if \<not> truthy host then Inl UnsafeHostBinding
      else let normalized = toLowerCase (js_trim host) in
           if normalized \<in> set FORBIDDEN_HOSTS \<or> js_includes normalized ''0.0.0.0'' then Inl UnsafeHostBinding
           else if normalized \<noteq> ''127.0.0.1'' then Inl UnsafeHostBinding else Inr ())"

definition validatePortBinding :: "number \<Rightarrow> guardError + unit" where
  "validatePortBinding port =
     (case port of
        Num p \<Rightarrow>
          if p < 0 \<or> 65535 < p then Inl UnsafePortAllocation
          else if p \<in> set RESERVED_PROTECTED_PORTS then Inl UnsafePortAllocation else Inr ()
      | _ \<Rightarrow> Inl UnsafePortAllocation)"

definition validateServerBinding :: "string \<Rightarrow> number \<Rightarrow> guardError + unit" where
  "validateServerBinding host port = andThen (validateHostBinding host) (\<lambda>_. validatePortBinding port)"

section \<open>What passes\<close>

lemma number_chars:
  assumes "0 \<le> n"
  shows "list_all is_digit (show_int n)" "show_int n \<noteq> []"
  using assms show_nat_digits[of "nat n"] by (simp_all add: show_int_def)

lemma digits_harmless:
  assumes "list_all is_digit d"
  shows "CHR '','' \<notin> set d" "\<not> list_ex is_space d" "CHR ''@'' \<notin> set d" "CHR ''/'' \<notin> set d" "CHR 0x5C \<notin> set d" "CHR ''.'' \<notin> set d"
proof -
  have d: "is_digit c" if "c \<in> set d" for c using assms that by (simp add: list_all_iff)
  show "\<not> list_ex is_space d" using d digit_not_space by (auto simp: list_ex_iff)
  show "CHR '','' \<notin> set d" "CHR ''@'' \<notin> set d" "CHR ''/'' \<notin> set d" "CHR 0x5C \<notin> set d" "CHR ''.'' \<notin> set d"
    using d by (auto simp: is_digit_def dest!: d)
qed

lemma endsWith_last: "endsWith s [c] \<Longrightarrow> last s = c"
  by (auto simp: js_simps suffix_def)

lemma loopback_text:
  assumes "validPort p"
  shows "\<not> suspiciousHost (''127.0.0.1:'' @ portText p)" "js_trim (''127.0.0.1:'' @ portText p) = ''127.0.0.1:'' @ portText p"
    "js_trim (''http://127.0.0.1:'' @ portText p) = ''http://127.0.0.1:'' @ portText p" "CHR '','' \<notin> set (''http://127.0.0.1:'' @ portText p)"
proof -
  obtain n where p: "p = Num n" "1 \<le> n" using assms by (auto simp: validPort_def split: number.splits)
  have d: "list_all is_digit (portText p)" "portText p \<noteq> []" using number_chars[of n] p by (simp_all add: portText_def)
  have l: "is_digit (last (portText p))" using d by (simp add: list_all_iff)
  have sp: "\<not> is_space (last (portText p))" "last (portText p) \<noteq> CHR ''.''" using l digit_not_space by (auto simp: is_digit_def)
  have ends: "\<not> endsWith (''127.0.0.1:'' @ portText p) ''.''"
    using d(2) sp(2) endsWith_last[of "''127.0.0.1:'' @ portText p" "CHR ''.''"] by auto
  show "\<not> suspiciousHost (''127.0.0.1:'' @ portText p)"
    using digits_harmless[OF d(1)] ends by (simp add: suspiciousHost_def is_space_def)
  show "js_trim (''127.0.0.1:'' @ portText p) = ''127.0.0.1:'' @ portText p"
    "js_trim (''http://127.0.0.1:'' @ portText p) = ''http://127.0.0.1:'' @ portText p"
    using d(2) sp(1) by (intro js_trim_no_space; simp add: is_space_def)+
  show "CHR '','' \<notin> set (''http://127.0.0.1:'' @ portText p)" using digits_harmless(1)[OF d(1)] by simp
qed

lemma validateHost_iff:
  "validateHost req = Inr () \<longleftrightarrow>
     (\<exists>p. rq_localAddress req = Some ''127.0.0.1'' \<and> rq_localPort req = Some p \<and> validPort p \<and>
        rq_host req = OneValue (''127.0.0.1:'' @ portText p))"
  by (auto simp: validateHost_def truthy_def loopback_text simp del: append_Cons split: option.splits headerValue.splits if_splits)

lemma checkOrigin_iff:
  "validPort p \<Longrightarrow> checkOrigin (''http://127.0.0.1:'' @ portText p) origin = Inr () \<longleftrightarrow>
     origin = OneValue (''http://127.0.0.1:'' @ portText p)"
  using loopback_text(3,4)[of p] by (cases origin) (auto simp: checkOrigin_def)

lemma checkToken_iff:
  "checkToken sha csrfToken v = Inr () \<longleftrightarrow>
     (\<exists>t. v = OneValue t \<and> js_trim t \<noteq> [] \<and> CHR '','' \<notin> set t \<and> sha (utf8Bytes (js_trim t)) = sha (utf8Bytes csrfToken))"
proof -
  have "js_trim [] = []" by (simp add: js_trim_def)
  then show ?thesis by (cases v) (auto simp: checkToken_def constantTimeCompare_def truthy_def)
qed

text \<open>
  What passes the CSRF check. A request passes exactly when it arrived on the loopback address and
  names this address and the port of the socket in its only \<open>Host\<close> header; and, for a method that may
  change state, when moreover its only \<open>Origin\<close> is \<open>http://127.0.0.1\<close> with the same port, the configured token has at
  least 32 characters, no header spells the token another way, and the hash of the trimmed token header
  is that of the token. A request with a reading method needs no token, but an \<open>Origin\<close> it carries has
  to be the same one. The list of forbidden characters adds nothing to the exact comparison.
\<close>

theorem csrf_accepts_iff:
  "validateCsrf sha csrfToken req = Inr () \<longleftrightarrow>
     (\<exists>p. rq_localAddress req = Some ''127.0.0.1'' \<and> rq_localPort req = Some p \<and> validPort p \<and>
        rq_host req = OneValue (''127.0.0.1:'' @ portText p) \<and>
        (if safeMethod req then rq_origin req = NoValue \<or> rq_origin req = OneValue (''http://127.0.0.1:'' @ portText p)
         else rq_origin req = OneValue (''http://127.0.0.1:'' @ portText p) \<and> 32 \<le> length csrfToken \<and> rq_csrfAlias req = NoValue \<and>
           (\<exists>t. rq_csrfToken req = OneValue t \<and> js_trim t \<noteq> [] \<and> CHR '','' \<notin> set t \<and>
              sha (utf8Bytes (js_trim t)) = sha (utf8Bytes csrfToken))))"
proof (cases "validateHost req = Inr ()")
  case False
  moreover have "\<exists>e. validateHost req = Inl e" using False by (cases "validateHost req") auto
  ultimately show ?thesis using validateHost_iff[of req] by (auto simp: validateCsrf_def)
next
  case True
  then obtain p where p: "rq_localAddress req = Some ''127.0.0.1''" "rq_localPort req = Some p" "validPort p"
    "rq_host req = OneValue (''127.0.0.1:'' @ portText p)" using validateHost_iff by blast
  have e: "expectedOrigin req = ''http://127.0.0.1:'' @ portText p" using p(2) by (simp add: expectedOrigin_def)
  have o: "checkOrigin (expectedOrigin req) v = Inr () \<longleftrightarrow> v = OneValue (''http://127.0.0.1:'' @ portText p)" for v
    unfolding e by (rule checkOrigin_iff[OF p(3)])
  show ?thesis
  proof (cases "safeMethod req")
    case safe: True
    then show ?thesis using True p o by (cases "rq_origin req") (simp_all add: validateCsrf_def)
  next
    case False
    have "csrfToken \<noteq> []" if "32 \<le> length csrfToken" using that by auto
    then show ?thesis using True False p o checkToken_iff[of sha csrfToken "rq_csrfToken req"]
      by (cases "rq_origin req") (auto simp: validateCsrf_def andThen_Inr_iff truthy_def MIN_CSRF_TOKEN_LENGTH_def not_less)
  qed
qed

section \<open>Identifiers that pass\<close>

lemma decode_plain: "CHR ''%'' \<notin> set s \<Longrightarrow> decodeURIComponent s = Some (map of_char s)"
  by (induction s) auto

lemma resource_char: "isResourceChar n \<Longrightarrow> n < 256 \<and> 32 \<le> n \<and> n \<notin> {37, 46, 47, 92, 127} \<and> \<not> is_space (char_of n)"
  by (auto simp: isResourceChar_def is_space_def)

lemma no_dots: "46 \<notin> set d \<Longrightarrow> \<not> hasDotDot d"
  by (induction d rule: hasDotDot.induct) auto

lemma utf16_small: "list_all (\<lambda>n. n < 256) d \<Longrightarrow> utf16Length d = length d"
  by (induction d) (simp_all add: utf16Length_def)

lemma validatePathId_plain:
  assumes "RESOURCE_ID_REGEX d"
  shows "validatePathId (JString (map char_of d)) = Inr d"
proof -
  let ?s = "map char_of d"
  have d: "d \<noteq> []" "length d \<le> 128" "\<And>n. n \<in> set d \<Longrightarrow> isResourceChar n"
    using assms by (auto simp: RESOURCE_ID_REGEX_def list_all_iff)
  note c = resource_char[OF d(3)]
  have absent: "37 \<notin> set d" "46 \<notin> set d" "47 \<notin> set d" "92 \<notin> set d" using c by blast+
  have codes: "map of_char ?s = d" using c by (simp add: map_idI)
  have trim: "js_trim ?s = ?s"
    using d(1) c[of "hd d"] c[of "last d"] by (intro js_trim_no_space) (simp_all add: hd_map last_map)
  have "CHR ''%'' \<notin> set ?s"
  proof
    assume "CHR ''%'' \<in> set ?s"
    then have "(of_char CHR ''%'' :: nat) \<in> set (map of_char ?s)" by (metis image_eqI list.set_map)
    then show False using absent(1) unfolding codes by simp
  qed
  then have dec: "decodeURIComponent (js_trim ?s) = Some d" unfolding trim by (subst decode_plain) (simp_all only: codes not_False_eq_True)
  have "\<not> list_ex (\<lambda>n. n < 32 \<or> n = 127) d" using c by (fastforce simp: list_ex_iff)
  moreover have "utf16Length d = length d" using c by (intro utf16_small) (simp add: list_all_iff)
  moreover have "length (js_trim ?s) \<noteq> 0" using d(1) by (simp add: trim)
  moreover have "hd d \<noteq> 46" "d \<noteq> [46]" "d \<noteq> [46, 46]" using absent(2) d(1) by (auto dest: hd_in_set)
  ultimately show ?thesis
    using dec absent no_dots[OF absent(2)] assms d(1,2) by (simp add: validatePathId_def Suc_le_eq)
qed

lemma validatePathId_sound: "validatePathId v = Inr d \<Longrightarrow> RESOURCE_ID_REGEX d"
  by (auto simp: validatePathId_def Let_def split: option.splits if_splits)

text \<open>
  The identifiers a route accepts in its path are exactly those of \<open>[A-Za-z0-9_-]\<close>, one to 128
  characters: whatever the client encodes, only such an identifier comes out, and every such
  identifier written plainly comes out unchanged.
\<close>

theorem path_id_exact:
  "((\<exists>v. validatePathId v = Inr d) \<longleftrightarrow> RESOURCE_ID_REGEX d) \<and>
   (validatePathId (JString (map char_of d)) = Inr d \<longleftrightarrow> RESOURCE_ID_REGEX d)"
  using validatePathId_plain validatePathId_sound by blast

end
