(* ===== verification/Ssrf_Guard.thy ===== *)
theory Ssrf_Guard
  imports Decimal "HOL-Library.Word"
begin

text \<open>
  The guard against requests to internal addresses
  (\<open>platform-service-mcp/src/security/ssrf-guard.ts\<close>). The URL parser, \<open>net.isIP\<close> and the resolver
  are fields of \<open>netPorts\<close>: \<open>parseUrl\<close> gives protocol and host name, or nothing for a URL that does not
  parse, \<open>lookup\<close> the addresses with their family, or nothing when the resolution fails.
\<close>

section \<open>Addresses\<close>

record netPorts =
  parseUrl :: "string \<Rightarrow> (string \<times> string) option"
  isIP :: "string \<Rightarrow> nat"
  lookup :: "string \<Rightarrow> (string \<times> nat) list option"

definition octet :: "int option \<Rightarrow> bool" where
  "octet p = (case p of None \<Rightarrow> False | Some n \<Rightarrow> 0 \<le> n \<and> n \<le> 255)"

definition privateOctets :: "int \<Rightarrow> int \<Rightarrow> int \<Rightarrow> bool" where
  "privateOctets a b c =
     (if a = 0 then True
      else if a = 127 then True
      else if a = 10 then True
      else if a = 172 \<and> 16 \<le> b \<and> b \<le> 31 then True
      else if a = 192 \<and> b = 168 then True
      else if a = 169 \<and> b = 254 then True
      else if a = 100 \<and> 64 \<le> b \<and> b \<le> 127 then True
      else if a = 192 \<and> b = 0 \<and> c = 2 then True
      else if a = 198 \<and> b = 51 \<and> c = 100 then True
      else if a = 203 \<and> b = 0 \<and> c = 113 then True
      else if 224 \<le> a then True
      else False)"

definition isPrivateIPv4 :: "string \<Rightarrow> bool" where
  "isPrivateIPv4 ip =
     (let parts = map parseInt (split_on CHR ''.'' ip) in
      if length parts \<noteq> 4 \<or> \<not> list_all octet parts then True
      else case parts of
          [Some a, Some b, Some c, _] \<Rightarrow> privateOctets a b c
        | _ \<Rightarrow> True)"

text \<open>\<open>s.split('::ffff:')[1]\<close> when the separator occurs: the text between its first and its second
  occurrence.\<close>

fun beforeMark :: "string \<Rightarrow> string \<Rightarrow> string" where
  "beforeMark mark [] = []"
| "beforeMark mark (c # s) = (if startsWith (c # s) mark then [] else c # beforeMark mark s)"

fun afterMark :: "string \<Rightarrow> string \<Rightarrow> string" where
  "afterMark mark [] = []"
| "afterMark mark (c # s) = (if startsWith (c # s) mark then drop (length mark) (c # s) else afterMark mark s)"

definition isPrivateIPv6 :: "netPorts \<Rightarrow> string \<Rightarrow> bool" where
  "isPrivateIPv6 net ip =
     (let normalized = toLowerCase ip in
      if normalized = ''::1'' \<or> normalized = ''0:0:0:0:0:0:0:1'' then True
      else if normalized = ''::'' \<or> normalized = ''0:0:0:0:0:0:0:0'' then True
      else if startsWith normalized ''fe8'' \<or> startsWith normalized ''fe9'' \<or> startsWith normalized ''fea'' \<or>
              startsWith normalized ''feb'' then True
      else if startsWith normalized ''fc'' \<or> startsWith normalized ''fd'' then True
      else if js_includes normalized ''::ffff:''
      then (let v4Part = beforeMark ''::ffff:'' (afterMark ''::ffff:'' normalized) in
            if truthy v4Part \<and> isIP net v4Part = 4 then isPrivateIPv4 v4Part else False)
      else False)"

section \<open>Targets\<close>

datatype mcpErrorCode = MCP_BAD_REQUEST | MCP_SSRF_BLOCKED | MCP_SERVER_UNAVAILABLE

record ssrfOptions =
  so_allowLocalHttpForTesting :: bool
  so_allowedHosts :: "string list option"

record ssrfTarget =
  st_protocol :: string
  st_hostname :: string
  st_ipAddresses :: "string list"

definition hostAllowed :: "string list option \<Rightarrow> string \<Rightarrow> bool" where
  "hostAllowed allowedHosts hostname =
     (case allowedHosts of
        None \<Rightarrow> True
      | Some hs \<Rightarrow> if length hs = 0 then True
                   else list_ex (\<lambda>h. toLowerCase h = hostname \<or> endsWith hostname (CHR ''.'' # toLowerCase h)) hs)"

definition localName :: "string \<Rightarrow> bool" where
  "localName hostname \<longleftrightarrow> hostname = ''localhost'' \<or> endsWith hostname ''.localhost'' \<or> endsWith hostname ''.local'' \<or>
     endsWith hostname ''.internal'' \<or> hostname = ''0.0.0.0''"

fun blockedEntry :: "netPorts \<Rightarrow> string \<times> nat \<Rightarrow> bool" where
  "blockedEntry net (address, family) =
     (if family = 4 \<and> isPrivateIPv4 address then True
      else if family = 6 \<and> isPrivateIPv6 net address then True else False)"

definition validateSsrfTargetUrl :: "netPorts \<Rightarrow> string \<Rightarrow> ssrfOptions \<Rightarrow> mcpErrorCode + ssrfTarget" where
  "validateSsrfTargetUrl net rawUrl options =
     (case parseUrl net rawUrl of
        None \<Rightarrow> Inl MCP_BAD_REQUEST
      | Some (protocol, host) \<Rightarrow>
          let hostname = toLowerCase host;
              target = (\<lambda>ips. \<lparr>st_protocol = protocol, st_hostname = host, st_ipAddresses = ips\<rparr>) in
          if so_allowLocalHttpForTesting options \<and>
             (hostname = ''localhost'' \<or> hostname = ''127.0.0.1'' \<or> hostname = ''::1'')
          then Inr (target [''127.0.0.1''])
          else if protocol \<noteq> ''https:'' then Inl MCP_SSRF_BLOCKED
          else if \<not> hostAllowed (so_allowedHosts options) hostname then Inl MCP_SSRF_BLOCKED
          else if isIP net hostname = 4
          then (if isPrivateIPv4 hostname then Inl MCP_SSRF_BLOCKED else Inr (target [hostname]))
          else if isIP net hostname = 6
          then (if isPrivateIPv6 net hostname then Inl MCP_SSRF_BLOCKED else Inr (target [hostname]))
          else if localName hostname then Inl MCP_SSRF_BLOCKED
          else case lookup net hostname of
              None \<Rightarrow> Inl MCP_SERVER_UNAVAILABLE
            | Some addresses \<Rightarrow>
                if list_ex (blockedEntry net) addresses then Inl MCP_SSRF_BLOCKED
                else Inr (target (map fst addresses)))"

section \<open>Headers\<close>

definition FORBIDDEN_HTTP_HEADERS :: "string list" where
  "FORBIDDEN_HTTP_HEADERS =
     [''host'', ''connection'', ''keep-alive'', ''proxy-authenticate'', ''proxy-authorization'', ''te'', ''trailer'',
      ''transfer-encoding'', ''upgrade'', ''x-forwarded-for'', ''x-forwarded-host'', ''x-forwarded-proto'', ''x-real-ip'']"

text \<open>\<open>Headers.set\<close>: names are compared in lower case and have to be HTTP tokens, values lose white
  space at their ends and contain no NUL, CR or LF; otherwise it throws.\<close>

definition is_token_char :: "char \<Rightarrow> bool" where
  "is_token_char c \<longleftrightarrow> is_alnum c \<or> c \<in> set ''!#$%&*+-.^_|~'' \<or> c = CHR 0x27 \<or> c = CHR 0x60"

definition is_http_space :: "char \<Rightarrow> bool" where
  "is_http_space c \<longleftrightarrow> of_char c \<in> {9 :: nat, 10, 13, 32}"

definition headerText :: "string \<Rightarrow> string" where
  "headerText v = rev (dropWhile is_http_space (rev (dropWhile is_http_space v)))"

definition headersSet :: "string \<Rightarrow> string \<Rightarrow> (string \<times> string) list \<Rightarrow> unit + (string \<times> string) list" where
  "headersSet k v hs =
     (let name = toLowerCase k; text = headerText v in
      if k = [] \<or> \<not> list_all is_token_char k \<or> list_ex (\<lambda>c. of_char c \<in> {0 :: nat, 10, 13}) text then Inl ()
      else Inr (filter (\<lambda>kv. fst kv \<noteq> name) hs @ [(name, text)]))"

fun addHeaders :: "(string \<times> string) list \<Rightarrow> (string \<times> string) list \<Rightarrow> unit + (string \<times> string) list" where
  "addHeaders [] hs = Inr hs"
| "addHeaders ((k, v) # kvs) hs =
     (let lower = js_trim (toLowerCase k) in
      if lower \<notin> set FORBIDDEN_HTTP_HEADERS then andThen (headersSet k v hs) (\<lambda>hs'. addHeaders kvs hs')
      else addHeaders kvs hs)"

definition sanitizeHttpHeaders ::
  "(string \<times> string) list \<Rightarrow> (string \<times> string) list \<Rightarrow> unit + (string \<times> string) list" where
  "sanitizeHttpHeaders staticHeaders ephemeralHeaders =
     andThen (addHeaders staticHeaders []) (\<lambda>hs. addHeaders ephemeralHeaders hs)"

section \<open>The ranges as blocks of addresses\<close>

text \<open>The reference: an address of 32 bits, and the blocks the comments of the source list, each a
  network and the length of its prefix.\<close>

definition address :: "nat \<Rightarrow> nat \<Rightarrow> nat \<Rightarrow> nat \<Rightarrow> 32 word" where
  "address a b c d = word_of_nat (((a * 256 + b) * 256 + c) * 256 + d)"

definition privateBlocks :: "(32 word \<times> nat) list" where
  "privateBlocks =
     [(address 0 0 0 0, 8), (address 127 0 0 0, 8), (address 10 0 0 0, 8), (address 172 16 0 0, 12),
      (address 192 168 0 0, 16), (address 169 254 0 0, 16), (address 100 64 0 0, 10), (address 192 0 2 0, 24),
      (address 198 51 100 0, 24), (address 203 0 113 0, 24), (address 224 0 0 0, 4), (address 240 0 0 0, 4)]"

definition inBlock :: "32 word \<Rightarrow> 32 word \<times> nat \<Rightarrow> bool" where
  "inBlock w blk \<longleftrightarrow> drop_bit (32 - snd blk) w = drop_bit (32 - snd blk) (fst blk)"

definition dotted :: "nat \<Rightarrow> nat \<Rightarrow> nat \<Rightarrow> nat \<Rightarrow> string" where
  "dotted a b c d = show_nat a @ ''.'' @ show_nat b @ ''.'' @ show_nat c @ ''.'' @ show_nat d"

lemma unat_address:
  "a < 256 \<Longrightarrow> b < 256 \<Longrightarrow> c < 256 \<Longrightarrow> d < 256 \<Longrightarrow> unat (address a b c d) = ((a * 256 + b) * 256 + c) * 256 + d"
  unfolding address_def unat_of_nat by (rule mod_less) simp

lemma inBlock_iff:
  "inBlock w (net, len) \<longleftrightarrow> unat w div 2 ^ (32 - len) = unat net div 2 ^ (32 - len)"
  unfolding inBlock_def word_unat_eq_iff unat_drop_bit_eq fst_conv snd_conv
  by (simp only: drop_bit_eq_div)

lemma prefixes:
  fixes a b c d :: nat
  assumes "b < 256" "c < 256" "d < 256"
  defines "n \<equiv> ((a * 256 + b) * 256 + c) * 256 + d"
  shows "n div 2 ^ 8 = (a * 256 + b) * 256 + c" "n div 2 ^ 16 = a * 256 + b" "n div 2 ^ 20 = a * 16 + b div 16"
    "n div 2 ^ 22 = a * 4 + b div 64" "n div 2 ^ 24 = a" "n div 2 ^ 28 = a div 16"
proof -
  show p8: "n div 2 ^ 8 = (a * 256 + b) * 256 + c" using assms(3) by (simp add: n_def)
  have "n div 2 ^ 16 = (n div 2 ^ 8) div 256" by (simp add: div_mult2_eq[symmetric])
  also have "\<dots> = a * 256 + b" unfolding p8 using assms(2) by simp
  finally show p16: "n div 2 ^ 16 = a * 256 + b" .
  have p24: "n div 2 ^ 24 = (n div 2 ^ 16) div 256" by (simp add: div_mult2_eq[symmetric])
  then show a: "n div 2 ^ 24 = a" unfolding p16 using assms(1) by simp
  have "n div 2 ^ 20 = (n div 2 ^ 16) div 16" by (simp add: div_mult2_eq[symmetric])
  also have "\<dots> = a * 16 + b div 16" unfolding p16 using div_mult_self3[of 16 b "a * 16"] by (simp add: mult.commute)
  finally show "n div 2 ^ 20 = a * 16 + b div 16" .
  have "n div 2 ^ 22 = (n div 2 ^ 16) div 64" by (simp add: div_mult2_eq[symmetric])
  also have "\<dots> = a * 4 + b div 64" unfolding p16 using div_mult_self3[of 64 b "a * 4"] by (simp add: mult.commute)
  finally show "n div 2 ^ 22 = a * 4 + b div 64" .
  have "n div 2 ^ 28 = (n div 2 ^ 24) div 16" by (simp add: div_mult2_eq[symmetric])
  then show "n div 2 ^ 28 = a div 16" unfolding a .
qed

lemma block_prefixes:
  assumes "a < 256" "b < 256" "c < 256" "d < 256" "a' < 256" "b' < 256" "c' < 256"
  shows "inBlock (address a b c d) (address a' b' c' 0, 4) \<longleftrightarrow> a div 16 = a' div 16"
    "inBlock (address a b c d) (address a' b' c' 0, 8) \<longleftrightarrow> a = a'"
    "inBlock (address a b c d) (address a' b' c' 0, 10) \<longleftrightarrow> a * 4 + b div 64 = a' * 4 + b' div 64"
    "inBlock (address a b c d) (address a' b' c' 0, 12) \<longleftrightarrow> a * 16 + b div 16 = a' * 16 + b' div 16"
    "inBlock (address a b c d) (address a' b' c' 0, 16) \<longleftrightarrow> a * 256 + b = a' * 256 + b'"
    "inBlock (address a b c d) (address a' b' c' 0, 24) \<longleftrightarrow> (a * 256 + b) * 256 + c = (a' * 256 + b') * 256 + c'"
proof -
  have n: "unat (address a b c d) = ((a * 256 + b) * 256 + c) * 256 + d" "unat (address a' b' c' 0) = ((a' * 256 + b') * 256 + c') * 256 + 0"
    using assms unat_address[of a' b' c' 0] by (simp_all add: unat_address)
  have zero: "0 < (256 :: nat)" by simp
  note p = prefixes[OF assms(2-4), of a] and q = prefixes[OF assms(6,7) zero, of a']
  have len: "32 - 4 = (28 :: nat)" "32 - 8 = (24 :: nat)" "32 - 10 = (22 :: nat)" "32 - 12 = (20 :: nat)"
    "32 - 16 = (16 :: nat)" "32 - 24 = (8 :: nat)" by simp_all
  show "inBlock (address a b c d) (address a' b' c' 0, 4) \<longleftrightarrow> a div 16 = a' div 16"
    unfolding inBlock_iff n len p(6) q(6) ..
  show "inBlock (address a b c d) (address a' b' c' 0, 8) \<longleftrightarrow> a = a'"
    unfolding inBlock_iff n len p(5) q(5) ..
  show "inBlock (address a b c d) (address a' b' c' 0, 10) \<longleftrightarrow> a * 4 + b div 64 = a' * 4 + b' div 64"
    unfolding inBlock_iff n len p(4) q(4) ..
  show "inBlock (address a b c d) (address a' b' c' 0, 12) \<longleftrightarrow> a * 16 + b div 16 = a' * 16 + b' div 16"
    unfolding inBlock_iff n len p(3) q(3) ..
  show "inBlock (address a b c d) (address a' b' c' 0, 16) \<longleftrightarrow> a * 256 + b = a' * 256 + b'"
    unfolding inBlock_iff n len p(2) q(2) ..
  show "inBlock (address a b c d) (address a' b' c' 0, 24) \<longleftrightarrow> (a * 256 + b) * 256 + c = (a' * 256 + b') * 256 + c'"
    unfolding inBlock_iff n len p(1) q(1) ..
qed

lemma radix: "r < m \<Longrightarrow> r' < m \<Longrightarrow> a * m + r = a' * m + r' \<longleftrightarrow> a = a' \<and> r = r'" for a r m :: nat
  by (metis div_mult_self3 div_less add.right_neutral add.commute add_left_cancel not_less_zero)

lemma div_between: "0 < m \<Longrightarrow> b div m = k \<longleftrightarrow> k * m \<le> b \<and> b < Suc k * m" for b m k :: nat
  by (metis div_nat_eqI dividend_less_times_div div_times_less_eq_dividend mult.commute mult_Suc)

lemma inPrivateBlock_iff:
  assumes "a < 256" "b < 256" "c < 256" "d < 256"
  shows "(\<exists>blk \<in> set privateBlocks. inBlock (address a b c d) blk) \<longleftrightarrow> privateOctets (int a) (int b) (int c)"
proof -
  have b: "b div 64 < 4" "b div 16 < 16" using assms(2) by (simp_all add: div_less_iff_less_mult)
  have "a div 16 = 14 \<or> a div 16 = 15 \<longleftrightarrow> 224 \<le> a" using div_between[of 16 a 14] div_between[of 16 a 15] assms(1) by auto
  moreover have "a * 4 + b div 64 = 401 \<longleftrightarrow> a = 100 \<and> 64 \<le> b \<and> b \<le> 127"
    using radix[OF b(1), of 1 a 100] div_between[of 64 b 1] by auto
  moreover have "a * 16 + b div 16 = 2753 \<longleftrightarrow> a = 172 \<and> 16 \<le> b \<and> b \<le> 31"
    using radix[OF b(2), of 1 a 172] div_between[of 16 b 1] by auto
  moreover have "a * 256 + b = 49320 \<longleftrightarrow> a = 192 \<and> b = 168" "a * 256 + b = 43518 \<longleftrightarrow> a = 169 \<and> b = 254"
    using radix[OF assms(2), of 168 a 192] radix[OF assms(2), of 254 a 169] by simp_all
  moreover have "(a * 256 + b) * 256 + c = 12582914 \<longleftrightarrow> a = 192 \<and> b = 0 \<and> c = 2"
    using radix[OF assms(3), of 2 "a * 256 + b" 49152] radix[OF assms(2), of 0 a 192] by simp
  moreover have "(a * 256 + b) * 256 + c = 12989284 \<longleftrightarrow> a = 198 \<and> b = 51 \<and> c = 100"
    using radix[OF assms(3), of 100 "a * 256 + b" 50739] radix[OF assms(2), of 51 a 198] by simp
  moreover have "(a * 256 + b) * 256 + c = 13303921 \<longleftrightarrow> a = 203 \<and> b = 0 \<and> c = 113"
    using radix[OF assms(3), of 113 "a * 256 + b" 51968] radix[OF assms(2), of 0 a 203] by simp
  ultimately show ?thesis
    unfolding privateBlocks_def using block_prefixes[OF assms] by (simp add: privateOctets_def)
qed

lemma split_dotted: "split_on CHR ''.'' (dotted a b c d) = [show_nat a, show_nat b, show_nat c, show_nat d]"
proof -
  have "CHR ''.'' \<notin> set (show_nat n)" for n using show_nat_digits[of n] unfolding list_all_iff by (auto simp: is_digit_def)
  then show ?thesis unfolding split_on_iff by (simp add: dotted_def)
qed

lemma parseInt_nat: "parseInt (show_nat n) = Some (int n)"
  using parseInt_show_int[of "int n"] by (simp add: show_int_def)

lemma isPrivateIPv4_dotted:
  "a < 256 \<Longrightarrow> b < 256 \<Longrightarrow> c < 256 \<Longrightarrow> d < 256 \<Longrightarrow>
     isPrivateIPv4 (dotted a b c d) \<longleftrightarrow> (\<exists>blk \<in> set privateBlocks. inBlock (address a b c d) blk)"
  by (simp add: inPrivateBlock_iff isPrivateIPv4_def split_dotted parseInt_nat octet_def)

text \<open>
  C27. The test on octets is the test on address blocks: for every IPv4 address in dotted notation,
  \<open>isPrivateIPv4\<close> holds exactly when the address of 32 bits lies in one of the twelve blocks (current
  network, loopback, private, link-local, carrier-grade NAT, documentation, multicast, reserved).
\<close>

theorem ssrf_ipv4_blocks:
  assumes "a < 256" "b < 256" "c < 256" "d < 256"
  shows "isPrivateIPv4 (dotted a b c d) \<longleftrightarrow> (\<exists>blk \<in> set privateBlocks. inBlock (address a b c d) blk)"
  using assms by (rule isPrivateIPv4_dotted)

theorem ssrf_ipv4_blocks_witness: "isPrivateIPv4 (dotted 172 20 0 1) \<and> \<not> isPrivateIPv4 (dotted 172 32 0 1)"
proof -
  have "\<exists>blk \<in> set privateBlocks. inBlock (address 172 20 0 1) blk" "\<not> (\<exists>blk \<in> set privateBlocks. inBlock (address 172 32 0 1) blk)"
    by (simp_all add: inPrivateBlock_iff privateOctets_def)
  then show ?thesis using ssrf_ipv4_blocks[of 172 20 0 1] ssrf_ipv4_blocks[of 172 32 0 1] by simp
qed

section \<open>Targets that are accepted\<close>

lemma target_accepted:
  assumes "validateSsrfTargetUrl net rawUrl options = Inr t" "\<not> so_allowLocalHttpForTesting options"
  obtains host where "parseUrl net rawUrl = Some (''https:'', host)" "hostAllowed (so_allowedHosts options) (toLowerCase host)"
    "st_protocol t = ''https:''" "st_hostname t = host"
    "(isIP net (toLowerCase host) = 4 \<and> \<not> isPrivateIPv4 (toLowerCase host) \<and> st_ipAddresses t = [toLowerCase host]) \<or>
     (isIP net (toLowerCase host) = 6 \<and> st_ipAddresses t = [toLowerCase host]) \<or>
     (isIP net (toLowerCase host) \<notin> {4, 6} \<and> \<not> localName (toLowerCase host) \<and>
      (\<exists>as. lookup net (toLowerCase host) = Some as \<and> \<not> list_ex (blockedEntry net) as \<and> st_ipAddresses t = map fst as))"
  using assms by (auto simp: validateSsrfTargetUrl_def Let_def split: option.splits if_splits)

text \<open>
  C28. What the guard lets through. When the test bypass is off and a URL is accepted, it is an \<open>https\<close>
  URL whose host is on the allow list, if there is one, and none of the addresses it hands on is an
  IPv4 address of the blocked ranges. This relies on the resolver and \<open>net.isIP\<close> telling IPv4 addresses
  in dotted notation from the others, as they document.
\<close>

theorem ssrf_accepted_public:
  assumes "validateSsrfTargetUrl net rawUrl options = Inr t" "\<not> so_allowLocalHttpForTesting options"
    and "\<And>a b c d. a < 256 \<Longrightarrow> b < 256 \<Longrightarrow> c < 256 \<Longrightarrow> d < 256 \<Longrightarrow> isIP net (dotted a b c d) = 4"
    and "\<And>h as x f. lookup net h = Some as \<Longrightarrow> (x, f) \<in> set as \<Longrightarrow> f = isIP net x"
  shows "st_protocol t = ''https:'' \<and> hostAllowed (so_allowedHosts options) (toLowerCase (st_hostname t)) \<and>
     (\<forall>a b c d. a < 256 \<and> b < 256 \<and> c < 256 \<and> d < 256 \<and> dotted a b c d \<in> set (st_ipAddresses t) \<longrightarrow>
        \<not> (\<exists>blk \<in> set privateBlocks. inBlock (address a b c d) blk))"
proof -
  obtain host where h: "hostAllowed (so_allowedHosts options) (toLowerCase host)" "st_protocol t = ''https:''" "st_hostname t = host"
    and c: "(isIP net (toLowerCase host) = 4 \<and> \<not> isPrivateIPv4 (toLowerCase host) \<and> st_ipAddresses t = [toLowerCase host]) \<or>
     (isIP net (toLowerCase host) = 6 \<and> st_ipAddresses t = [toLowerCase host]) \<or>
     (isIP net (toLowerCase host) \<notin> {4, 6} \<and> \<not> localName (toLowerCase host) \<and>
      (\<exists>as. lookup net (toLowerCase host) = Some as \<and> \<not> list_ex (blockedEntry net) as \<and> st_ipAddresses t = map fst as))"
    by (rule target_accepted[OF assms(1,2)], rule that)
  have public: "\<not> isPrivateIPv4 x" if x: "x \<in> set (st_ipAddresses t)" "isIP net x = 4" for x
  proof -
    consider "st_ipAddresses t = [toLowerCase host]" "isIP net (toLowerCase host) = 4" "\<not> isPrivateIPv4 (toLowerCase host)"
      | "st_ipAddresses t = [toLowerCase host]" "isIP net (toLowerCase host) = 6"
      | as where "lookup net (toLowerCase host) = Some as" "\<not> list_ex (blockedEntry net) as" "st_ipAddresses t = map fst as"
      using c by blast
    then show ?thesis
    proof cases
      case 3
      then obtain f where f: "(x, f) \<in> set as" using x(1) by auto
      then have "f = 4" using assms(4)[OF 3(1)] x(2) by simp
      then show ?thesis using 3(2) f by (auto simp: list_ex_iff)
    qed (use x in auto)
  qed
  have blocks: "\<not> (\<exists>blk \<in> set privateBlocks. inBlock (address a b c d) blk)"
    if o: "a < 256" "b < 256" "c < 256" "d < 256" "dotted a b c d \<in> set (st_ipAddresses t)" for a b c d
    using public[OF o(5) assms(3)[OF o(1-4)]] unfolding isPrivateIPv4_dotted[OF o(1-4)] .
  show ?thesis by (intro conjI allI impI; (elim conjE)?) (use h blocks in \<open>simp_all only: simp_thms\<close>)
qed

definition exampleNet :: netPorts where
  "exampleNet = \<lparr>parseUrl = (\<lambda>u. Some (''https:'', ''mcp.example.com'')),
     isIP = (\<lambda>s. let ps = split_on CHR ''.'' s in
        if length ps = 4 \<and> list_all (\<lambda>p. p \<noteq> [] \<and> list_all is_digit p \<and> digits_value p < 256) ps then 4 else 0),
     lookup = (\<lambda>h. Some [(dotted 93 184 216 34, 4)])\<rparr>"

lemma example_isIP: "a < 256 \<Longrightarrow> b < 256 \<Longrightarrow> c < 256 \<Longrightarrow> d < 256 \<Longrightarrow> isIP exampleNet (dotted a b c d) = 4"
  by (simp add: exampleNet_def split_dotted show_nat_digits digits_value_show_nat)

lemma example_target:
  "validateSsrfTargetUrl exampleNet [] \<lparr>so_allowLocalHttpForTesting = False, so_allowedHosts = Some [''Example.com'']\<rparr> =
     Inr \<lparr>st_protocol = ''https:'', st_hostname = ''mcp.example.com'', st_ipAddresses = [dotted 93 184 216 34]\<rparr>"
proof -
  have "\<not> isPrivateIPv4 (dotted 93 184 216 34)" by (simp add: isPrivateIPv4_dotted inPrivateBlock_iff privateOctets_def)
  moreover have "isIP exampleNet ''mcp.example.com'' = 0" by (simp add: exampleNet_def)
  moreover have "toLowerCase ''mcp.example.com'' = ''mcp.example.com''" "toLowerCase ''Example.com'' = ''example.com''" by code_simp+
  moreover have "hostAllowed (Some [''Example.com'']) ''mcp.example.com''" "\<not> localName ''mcp.example.com''"
    by (simp_all add: hostAllowed_def calculation localName_def endsWith_def)
  moreover have "parseUrl exampleNet [] = Some (''https:'', ''mcp.example.com'')"
    "lookup exampleNet ''mcp.example.com'' = Some [(dotted 93 184 216 34, 4)]" by (simp_all add: exampleNet_def)
  ultimately show ?thesis unfolding validateSsrfTargetUrl_def Let_def by simp
qed

theorem ssrf_accepted_public_witness:
  "\<not> (\<exists>blk \<in> set privateBlocks. inBlock (address 93 184 216 34) blk)"
proof -
  have "f = isIP exampleNet x" if "lookup exampleNet h = Some as" "(x, f) \<in> set as" for h as x f
    using that example_isIP[of 93 184 216 34] by (auto simp: exampleNet_def)
  from ssrf_accepted_public[OF example_target _ example_isIP this]
  show ?thesis by simp
qed

section \<open>Headers that are sent\<close>

lemma token_not_space: "is_token_char c \<Longrightarrow> \<not> is_space (lower_char c)"
proof -
  assume c: "is_token_char c"
  have "\<not> is_space c" using c by (auto simp: is_token_char_def is_space_def is_alnum_def)
  moreover have "\<not> is_space (char_of (n + 32))" if "(65 \<le> n \<and> n \<le> 90) \<or> (192 \<le> n \<and> n \<le> 222 \<and> n \<noteq> 215)" for n :: nat
    using that by (auto simp: is_space_def)
  ultimately show ?thesis by (simp add: lower_char_def Let_def)
qed

lemma token_trim: "list_all is_token_char k \<Longrightarrow> js_trim (toLowerCase k) = toLowerCase k"
proof (cases "k = []")
  case False
  assume "list_all is_token_char k"
  then have "is_token_char (hd k)" "is_token_char (last k)" using False by (simp_all add: list_all_iff)
  then show ?thesis using False token_not_space by (intro js_trim_no_space) (simp_all add: toLowerCase_def hd_map last_map)
qed (simp add: js_trim_def toLowerCase_def)

lemma addHeaders_clean:
  "addHeaders kvs hs = Inr hs' \<Longrightarrow> fst ` set hs \<inter> set FORBIDDEN_HTTP_HEADERS = {} \<Longrightarrow>
     fst ` set hs' \<inter> set FORBIDDEN_HTTP_HEADERS = {}"
proof (induction kvs hs rule: addHeaders.induct)
  case (2 k v kvs hs)
  show ?case
  proof (cases "js_trim (toLowerCase k) \<in> set FORBIDDEN_HTTP_HEADERS")
    case True
    then show ?thesis using 2 by (simp add: Let_def)
  next
    case False
    then obtain hs1 where hs1: "headersSet k v hs = Inr hs1" "addHeaders kvs hs1 = Inr hs'"
      using "2.prems"(1) by (auto simp: Let_def andThen_Inr_iff)
    have "list_all is_token_char k" "hs1 = filter (\<lambda>kv. fst kv \<noteq> toLowerCase k) hs @ [(toLowerCase k, headerText v)]"
      using hs1(1) by (auto simp: headersSet_def Let_def split: if_splits)
    then have "fst ` set hs1 \<inter> set FORBIDDEN_HTTP_HEADERS = {}"
      using False token_trim[of k] "2.prems"(2) by auto
    then show ?thesis using "2.IH"(1)[OF refl False] hs1 by blast
  qed
qed simp

lemma sanitize_clean: "sanitizeHttpHeaders st ep = Inr hs \<Longrightarrow> fst ` set hs \<inter> set FORBIDDEN_HTTP_HEADERS = {}"
  unfolding sanitizeHttpHeaders_def andThen_Inr_iff
  by (elim exE conjE) (rule addHeaders_clean, assumption, rule addHeaders_clean, assumption, simp)

text \<open>
  Whatever headers are configured and passed, and however their names are spelled, a request to an
  MCP server carries none of the forbidden headers.
\<close>

theorem ssrf_no_forbidden_header:
  assumes "sanitizeHttpHeaders staticHeaders ephemeralHeaders = Inr headers"
  shows "fst ` set headers \<inter> set FORBIDDEN_HTTP_HEADERS = {}"
  using assms by (rule sanitize_clean)

theorem ssrf_no_forbidden_header_witness:
  "fst ` set [(''accept'', ''x'')] \<inter> set FORBIDDEN_HTTP_HEADERS = {}"
proof -
  have "js_trim (toLowerCase ''Host'') = ''host''" "js_trim (toLowerCase '' HOST '') = ''host''" "toLowerCase ''Accept'' = ''accept''"
    "js_trim (toLowerCase ''Accept'') = ''accept''" "headerText '' x'' = ''x''" by code_simp+
  moreover have "list_all is_token_char ''Accept''" by (simp add: is_token_char_def is_alnum_def)
  ultimately have "sanitizeHttpHeaders [(''Host'', ''internal'')] [('' HOST '', ''y''), (''Accept'', '' x'')] = Inr [(''accept'', ''x'')]"
    by (simp add: sanitizeHttpHeaders_def headersSet_def FORBIDDEN_HTTP_HEADERS_def Let_def)
  then show ?thesis by (rule ssrf_no_forbidden_header)
qed

end
