(* ===== verification/Restart_Recovery.thy ===== *)
theory Restart_Recovery
  imports Quota_Bundle_Theorems Task_Guarantees
begin

text \<open>
  Recovery after a restart of the platform, across all tenants and two components
  (\<open>platform-storage-sqlite/src/operations-storage.ts\<close>): leases of tasks and runs that have expired,
  and reservations of quota that have lapsed. One transaction covers both groups of tables.
\<close>

section \<open>The operation\<close>

record operationsDb =
  od_tasks :: taskDb
  od_quota :: quota_db

record restartResult =
  rr_recoveredTasks :: nat
  rr_expiredReservations :: nat

definition exhaustedMessage :: "int \<Rightarrow> string" where
  "exhaustedMessage n = ''Task lease expired and max retries exhausted ('' @ show_int n @ '')''"

text \<open>What the update of one expired task writes, given the row and the schedule the query returned.\<close>

definition restartRow :: "taskEnv \<Rightarrow> instant \<Rightarrow> taskRow \<Rightarrow> scheduleRow option \<Rightarrow> taskRow \<Rightarrow> taskRow" where
  "restartRow env now t so r =
     (if joinedRecurring t so then
        r\<lparr>t_status := Pending, t_claimant := None, t_lease := None, t_claims := 0, t_completed := None,
          t_error := Some ''Task lease expired during restart recovery'', t_next := recoveredNext env t so now, t_updated := now\<rparr>
      else if t_claims t \<ge> t_maxRetries t then
        r\<lparr>t_status := Failed, t_error := Some (exhaustedMessage (t_maxRetries t)), t_lease := None, t_updated := now,
          t_completed := Some now\<rparr>
      else r\<lparr>t_status := Pending, t_claimant := None, t_lease := None, t_updated := now\<rparr>)"

text \<open>The update asks again for the status and the lease; the schedule follows when a row was changed.\<close>

definition restartTask :: "taskEnv \<Rightarrow> instant \<Rightarrow> taskRow \<times> scheduleRow option \<Rightarrow> taskDb \<times> nat \<Rightarrow> taskDb \<times> nat" where
  "restartTask env now x acc =
     (let t = fst x; so = snd x; db = fst acc;
          row = (\<lambda>r. ownTask (t_user t) (t_id t) r \<and> expired now r);
          changes = tbl_changes row (db_tasks db);
          db1 = db\<lparr>db_tasks := tbl_update row (restartRow env now t so) (db_tasks db)\<rparr> in
      (if joinedRecurring t so \<and> changes > 0
       then updateSchedule (t_user t) (t_id t) (\<lambda>s. s\<lparr>s_next := recoveredNext env t so now, s_updated := now\<rparr>) db1
       else db1,
       snd acc + changes))"

definition allExpiredTasks :: "instant \<Rightarrow> taskDb \<Rightarrow> (taskRow \<times> scheduleRow option) list" where
  "allExpiredTasks now db = map (\<lambda>t. (t, joined db t)) (filter (expired now) (db_tasks db))"

definition lapsed :: "instant \<Rightarrow> reservation \<Rightarrow> bool" where
  "lapsed now r \<longleftrightarrow> reservation.r_status r = Reserved \<and> r_expiresAt r \<le> now"

definition expireLapsed :: "instant \<Rightarrow> quota_db \<Rightarrow> quota_db" where
  "expireLapsed now q = q\<lparr>quota_reservations :=
     tbl_update (lapsed now) (\<lambda>r. r\<lparr>reservation.r_status := Expired, r_settledAt := Some now\<rparr>) (quota_reservations q)\<rparr>"

definition recoverAfterRestart :: "taskEnv \<Rightarrow> instant \<Rightarrow> (operationsDb, string, restartResult) op" where
  "recoverAfterRestart env now =
     withImmediateTransactionSync (\<lambda>db.
       let (tasks, n) = fold (restartTask env now) (allExpiredTasks now (od_tasks db)) (od_tasks db, 0);
           expiredReservations = tbl_changes (lapsed now) (quota_reservations (od_quota db)) in
       (Inr \<lparr>rr_recoveredTasks = n, rr_expiredReservations = expiredReservations\<rparr>,
        \<lparr>od_tasks = updateRuns (expiredRun now) (failExpiredRun now) tasks, od_quota = expireLapsed now (od_quota db)\<rparr>))"

section \<open>Recovery as one simultaneous update\<close>

text \<open>
  The specification: every expired task of the tenants \<open>U\<close> is rewritten by \<open>f\<close> from the tables as they
  were at the start, its schedule gets the same next run, and every run with an expired lease fails.
\<close>

definition taskOf :: "taskDb \<Rightarrow> scheduleRow \<Rightarrow> taskRow option" where
  "taskOf db s = tbl_get (\<lambda>t. t_id t = s_task s) (db_tasks db)"

definition dueForRecovery :: "string set \<Rightarrow> instant \<Rightarrow> taskRow \<Rightarrow> bool" where
  "dueForRecovery U now t \<longleftrightarrow> t_user t \<in> U \<and> expired now t"

definition recoveredSchedule :: "taskEnv \<Rightarrow> string set \<Rightarrow> instant \<Rightarrow> taskDb \<Rightarrow> scheduleRow \<Rightarrow> scheduleRow" where
  "recoveredSchedule env U now db s =
     (case taskOf db s of
        None \<Rightarrow> s
      | Some t \<Rightarrow>
          if dueForRecovery U now t \<and> joinedRecurring t (joined db t)
          then s\<lparr>s_next := recoveredNext env t (joined db t) now, s_updated := now\<rparr> else s)"

definition recovered ::
  "(taskRow \<Rightarrow> scheduleRow option \<Rightarrow> taskRow \<Rightarrow> taskRow) \<Rightarrow> taskEnv \<Rightarrow> string set \<Rightarrow> instant \<Rightarrow> taskDb \<Rightarrow> taskDb" where
  "recovered f env U now db =
     \<lparr>db_tasks = map (\<lambda>t. if dueForRecovery U now t then f t (joined db t) t else t) (db_tasks db),
      db_schedules = map (recoveredSchedule env U now db) (db_schedules db),
      db_runs = tbl_update (\<lambda>r. runRow.r_user r \<in> U \<and> expiredRun now r) (failExpiredRun now) (db_runs db)\<rparr>"

text \<open>A fold of updates that are each about one key.\<close>

lemma distinct_key_other: "distinct (map k (x # xs)) \<Longrightarrow> y \<in> set xs \<Longrightarrow> k y \<noteq> k x"
  by (simp, metis imageI)

lemma fold_keyed:
  assumes "distinct (map k xs)" "\<And>x r. k' (f x r) = k' r" "\<And>x r. k x \<noteq> k' r \<Longrightarrow> f x r = r"
  shows "fold f xs r = (case find (\<lambda>x. k x = k' r) xs of None \<Rightarrow> r | Some x \<Rightarrow> f x r)"
  using assms(1)
proof (induction xs arbitrary: r)
  case (Cons x xs)
  show ?case
  proof (cases "k x = k' r")
    case True
    with Cons.prems have "find (\<lambda>y. k y = k' r) xs = None" by (force simp: find_None_iff)
    with True Cons show ?thesis by (simp add: assms(2))
  qed (use Cons assms(3) in simp)
qed simp

lemma find_map_filter: "find Q (map g (filter P xs)) = map_option g (find (\<lambda>x. P x \<and> Q (g x)) xs)"
  by (induction xs) auto

lemma find_and_distinct:
  assumes "distinct (map k xs)"
  shows "find (\<lambda>y. P y \<and> k y = c) xs = (case find (\<lambda>y. k y = c) xs of None \<Rightarrow> None | Some x \<Rightarrow> if P x then Some x else None)"
  using assms
proof (induction xs)
  case (Cons x xs)
  have "k y \<noteq> c" if "k x = c" "y \<in> set xs" for y using distinct_key_other[OF Cons.prems that(2)] that(1) by simp
  then have "find (\<lambda>y. P y \<and> k y = c) xs = None" "find (\<lambda>y. k y = c) xs = None" if "k x = c"
    using that by (auto simp: find_None_iff)
  with Cons show ?case by (cases "k x = c") simp_all
qed simp

lemma filter_keyed:
  assumes "distinct (map k xs)" "x \<in> set xs" "P x" "\<And>y. P y \<Longrightarrow> k y = k x"
  shows "filter P xs = [x]"
  using assms(1,2)
proof (induction xs)
  case (Cons y ys)
  show ?case
  proof (cases "y = x")
    case True
    have "\<not> P z" if "z \<in> set ys" for z using distinct_key_other[OF Cons.prems(1) that] True assms(4)[of z] by auto
    with True assms(3) show ?thesis by simp
  next
    case False
    with Cons have "x \<in> set ys" by simp
    moreover have "\<not> P y" using distinct_key_other[OF Cons.prems(1) \<open>x \<in> set ys\<close>] assms(4)[of y] by auto
    ultimately show ?thesis using Cons by simp
  qed
qed simp

section \<open>Both recoveries meet the specification\<close>

definition restartStep :: "taskEnv \<Rightarrow> instant \<Rightarrow> taskRow \<times> scheduleRow option \<Rightarrow> taskRow \<Rightarrow> taskRow" where
  "restartStep env now x r =
     (if ownTask (t_user (fst x)) (t_id (fst x)) r \<and> expired now r then restartRow env now (fst x) (snd x) r else r)"

definition scheduleStep :: "taskEnv \<Rightarrow> instant \<Rightarrow> taskRow \<times> scheduleRow option \<Rightarrow> scheduleRow \<Rightarrow> scheduleRow" where
  "scheduleStep env now x s =
     (if joinedRecurring (fst x) (snd x) \<and> ownSchedule (t_user (fst x)) (t_id (fst x)) s
      then s\<lparr>s_next := recoveredNext env (fst x) (snd x) now, s_updated := now\<rparr> else s)"

lemma restartRow_keeps [simp]: "t_id (restartRow env now t so r) = t_id r" "t_user (restartRow env now t so r) = t_user r"
  "\<not> expired now (restartRow env now t so r)"
  by (simp_all add: restartRow_def expired_def activeStatus_def)

lemma steps_key: "t_id (restartStep env now x r) = t_id r" "s_task (scheduleStep env now x s) = s_task s"
  by (simp_all add: restartStep_def scheduleStep_def)

lemma steps_other: "t_id (fst x) \<noteq> t_id r \<Longrightarrow> restartStep env now x r = r"
  "t_id (fst x) \<noteq> s_task s \<Longrightarrow> scheduleStep env now x s = s"
  by (simp_all add: restartStep_def scheduleStep_def ownTask_def ownSchedule_def)

lemma scheduleStep_map:
  "map (scheduleStep env now x) rows =
    (if joinedRecurring (fst x) (snd x)
     then tbl_update (ownSchedule (t_user (fst x)) (t_id (fst x)))
            (\<lambda>s. s\<lparr>s_next := recoveredNext env (fst x) (snd x) now, s_updated := now\<rparr>) rows
     else rows)"
  by (simp add: tbl_update_def scheduleStep_def[abs_def])

lemma restartTask_tasks: "db_tasks (fst (restartTask env now x acc)) = map (restartStep env now x) (db_tasks (fst acc))"
  by (simp add: restartTask_def Let_def tbl_update_def restartStep_def)

lemma restartTask_runs: "db_runs (fst (restartTask env now x acc)) = db_runs (fst acc)"
  by (simp add: restartTask_def Let_def)

lemma fold_restart_tasks:
  "db_tasks (fst (fold (restartTask env now) xs acc)) = map (fold (restartStep env now) xs) (db_tasks (fst acc)) \<and>
   db_runs (fst (fold (restartTask env now) xs acc)) = db_runs (fst acc)"
  by (induction xs arbitrary: acc) (simp_all add: restartTask_tasks restartTask_runs comp_def)

text \<open>The task of a row the query returned is still there and still expired when its turn comes.\<close>

lemma restartTask_hit:
  assumes "fst x \<in> set (db_tasks (fst acc))" "expired now (fst x)" "distinct (map t_id (db_tasks (fst acc)))"
  shows "db_schedules (fst (restartTask env now x acc)) = map (scheduleStep env now x) (db_schedules (fst acc))"
    "snd (restartTask env now x acc) = Suc (snd acc)"
proof -
  have "filter (\<lambda>r. ownTask (t_user (fst x)) (t_id (fst x)) r \<and> expired now r) (db_tasks (fst acc)) = [fst x]"
    by (rule filter_keyed[OF assms(3,1)]) (simp_all add: ownTask_def assms(2))
  then have "tbl_changes (\<lambda>r. ownTask (t_user (fst x)) (t_id (fst x)) r \<and> expired now r) (db_tasks (fst acc)) = 1"
    by (simp add: tbl_changes_def)
  then show "db_schedules (fst (restartTask env now x acc)) = map (scheduleStep env now x) (db_schedules (fst acc))"
    "snd (restartTask env now x acc) = Suc (snd acc)"
    by (simp_all add: restartTask_def Let_def scheduleStep_map)
qed

lemma fold_restart_schedules:
  assumes "distinct (map (t_id \<circ> fst) xs)" "distinct (map t_id (db_tasks (fst acc)))"
    and "\<And>x. x \<in> set xs \<Longrightarrow> fst x \<in> set (db_tasks (fst acc)) \<and> expired now (fst x)"
  shows "db_schedules (fst (fold (restartTask env now) xs acc)) = map (fold (scheduleStep env now) xs) (db_schedules (fst acc))
     \<and> snd (fold (restartTask env now) xs acc) = snd acc + length xs"
  using assms
proof (induction xs arbitrary: acc)
  case (Cons x xs)
  let ?acc = "restartTask env now x acc"
  note hit = restartTask_hit[of x acc now env]
  have x: "fst x \<in> set (db_tasks (fst acc))" "expired now (fst x)" using Cons.prems(3)[of x] by simp_all
  have kept: "fst y \<in> set (db_tasks (fst ?acc)) \<and> expired now (fst y)" if y: "y \<in> set xs" for y
  proof -
    have "t_id (fst x) \<noteq> t_id (fst y)" using Cons.prems(1) y by force
    then have "restartStep env now x (fst y) = fst y" by (rule steps_other)
    moreover have "fst y \<in> set (db_tasks (fst acc))" "expired now (fst y)" using Cons.prems(3)[of y] y by simp_all
    ultimately show ?thesis unfolding restartTask_tasks set_map by (metis imageI)
  qed
  have "distinct (map t_id (db_tasks (fst ?acc)))"
    using Cons.prems(2) by (simp add: restartTask_tasks comp_def steps_key)
  with Cons.IH[OF _ _ kept] Cons.prems(1) hit[OF x Cons.prems(2)] show ?case by (simp add: comp_def)
qed simp

lemma recoverTask_schedules:
  "t_user (fst x) = uid \<Longrightarrow>
   db_schedules (fst (recoverTask env uid now x acc)) = map (scheduleStep env now x) (db_schedules (fst acc))"
  by (auto simp: recoverTask_def Let_def scheduleStep_map)

lemma fold_recover_schedules:
  "(\<And>x. x \<in> set xs \<Longrightarrow> t_user (fst x) = uid) \<Longrightarrow>
   db_schedules (fst (fold (recoverTask env uid now) xs acc)) = map (fold (scheduleStep env now) xs) (db_schedules (fst acc))"
  by (induction xs arbitrary: acc) (simp_all add: recoverTask_schedules comp_def)

text \<open>What the query of either recovery returns, for the tenants \<open>U\<close>.\<close>

definition dueTasks :: "string set \<Rightarrow> instant \<Rightarrow> taskDb \<Rightarrow> (taskRow \<times> scheduleRow option) list" where
  "dueTasks U now db = map (\<lambda>t. (t, joined db t)) (filter (dueForRecovery U now) (db_tasks db))"

lemma dueTasks_queries: "expiredTasks uid now db = dueTasks {uid} now db" "allExpiredTasks now db = dueTasks UNIV now db"
  by (simp_all add: dueTasks_def expiredTasks_def allExpiredTasks_def dueForRecovery_def[abs_def])

lemma dueTasks_distinct: "taskInv db \<Longrightarrow> distinct (map (t_id \<circ> fst) (dueTasks U now db))"
  using taskInv_distinct[of db] by (simp add: dueTasks_def comp_def distinct_map_filter)

lemma find_dueTasks:
  assumes "taskInv db"
  shows "find (\<lambda>x. (t_id \<circ> fst) x = c) (dueTasks U now db) =
     (case tbl_get (\<lambda>t. t_id t = c) (db_tasks db) of None \<Rightarrow> None
      | Some t \<Rightarrow> if dueForRecovery U now t then Some (t, joined db t) else None)"
  using find_and_distinct[OF taskInv_distinct[OF assms], of "dueForRecovery U now" c]
  by (simp add: dueTasks_def find_map_filter tbl_get_def split: option.splits)

lemma schedules_recovered:
  assumes inv: "taskInv db" and s: "s \<in> set (db_schedules db)"
  shows "fold (scheduleStep env now) (dueTasks U now db) s = recoveredSchedule env U now db s"
proof -
  have "scheduleKey s \<in> taskKey ` set (db_tasks db)" using inv s by (auto simp: taskInv_def)
  then obtain t where t: "t \<in> set (db_tasks db)" "t_id t = s_task s" "t_user t = s_user s"
    by (auto simp: scheduleKey_def taskKey_def)
  have "tbl_get (\<lambda>x. t_id x = s_task s) (db_tasks db) = Some t"
    using tbl_get_map_distinct[OF taskInv_distinct[OF inv] t(1), of "\<lambda>_. True"] t(2) by simp
  moreover have "fold (scheduleStep env now) (dueTasks U now db) s =
      (case find (\<lambda>x. (t_id \<circ> fst) x = s_task s) (dueTasks U now db) of None \<Rightarrow> s | Some x \<Rightarrow> scheduleStep env now x s)"
    by (rule fold_keyed[OF dueTasks_distinct[OF inv]]) (simp_all add: steps_key steps_other)
  ultimately show ?thesis
    using t unfolding find_dueTasks[OF inv] recoveredSchedule_def taskOf_def by (simp add: scheduleStep_def ownSchedule_def)
qed

lemma tasks_recovered:
  assumes inv: "taskInv db" and t: "t \<in> set (db_tasks db)"
  shows "fold (restartStep env now) (dueTasks U now db) t =
    (if dueForRecovery U now t then restartRow env now t (joined db t) t else t)"
proof -
  have "tbl_get (\<lambda>x. t_id x = t_id t) (db_tasks db) = Some t"
    using tbl_get_map_distinct[OF taskInv_distinct[OF inv] t(1), of "\<lambda>_. True"] by simp
  moreover have "fold (restartStep env now) (dueTasks U now db) t =
      (case find (\<lambda>x. (t_id \<circ> fst) x = t_id t) (dueTasks U now db) of None \<Rightarrow> t | Some x \<Rightarrow> restartStep env now x t)"
    by (rule fold_keyed[OF dueTasks_distinct[OF inv]]) (simp_all add: steps_key steps_other)
  ultimately show ?thesis
    unfolding find_dueTasks[OF inv] by (simp add: restartStep_def ownTask_def dueForRecovery_def)
qed

lemma length_dueTasks: "length (dueTasks U now db) = length (filter (dueForRecovery U now) (db_tasks db))"
  by (simp add: dueTasks_def)

lemma tenant_recovery:
  assumes "taskInv db"
  shows "snd (recoverExpiredLeases env uid now db) = recovered (recoveredRow env now) env {uid} now db"
proof -
  obtain res db' where r: "recoverExpiredLeases env uid now db = (res, db')" by force
  let ?acc = "(db, \<lparr>v_taskIds = [], v_retriedIds = [], v_failedIds = []\<rparr>)"
  obtain db1 res1 where f: "fold (recoverTask env uid now) (dueTasks {uid} now db) ?acc = (db1, res1)" by force
  have mine: "t_user (fst x) = uid" if "x \<in> set (dueTasks {uid} now db)" for x
    using that by (auto simp: dueTasks_def dueForRecovery_def)
  have "db_schedules db' = db_schedules db1"
    using r f by (auto simp: recoverExpiredLeases_def withImmediateTransactionSync_def dueTasks_queries(1))
  also have "\<dots> = map (fold (scheduleStep env now) (dueTasks {uid} now db)) (db_schedules db)"
    using fold_recover_schedules[of "dueTasks {uid} now db" uid env now ?acc, OF mine] f by simp
  also have "\<dots> = map (recoveredSchedule env {uid} now db) (db_schedules db)"
    by (rule map_cong) (simp_all add: schedules_recovered[OF assms])
  finally show ?thesis
    unfolding r recovered_def using recover_tasks[OF assms r] recover_runs[OF r] by (simp add: dueForRecovery_def)
qed

lemma restart_recovery:
  assumes inv: "taskInv (od_tasks db)"
  shows "recoverAfterRestart env now db =
    (Inr \<lparr>rr_recoveredTasks = length (filter (expired now) (db_tasks (od_tasks db))),
          rr_expiredReservations = length (filter (lapsed now) (quota_reservations (od_quota db)))\<rparr>,
     \<lparr>od_tasks = recovered (restartRow env now) env UNIV now (od_tasks db), od_quota = expireLapsed now (od_quota db)\<rparr>)"
proof -
  let ?db = "od_tasks db" and ?xs = "dueTasks UNIV now (od_tasks db)"
  obtain tasks n where f: "fold (restartTask env now) ?xs (?db, 0) = (tasks, n)" by force
  have mem: "fst x \<in> set (db_tasks ?db) \<and> expired now (fst x)" if "x \<in> set ?xs" for x
    using that by (auto simp: dueTasks_def dueForRecovery_def)
  have "db_schedules (fst (fold (restartTask env now) ?xs (?db, 0))) = map (fold (scheduleStep env now) ?xs) (db_schedules (fst (?db, 0 :: nat)))
     \<and> snd (fold (restartTask env now) ?xs (?db, 0)) = snd (?db, 0) + length ?xs"
    by (rule fold_restart_schedules) (use dueTasks_distinct[OF inv] taskInv_distinct[OF inv] mem in simp_all)
  then have s: "db_schedules tasks = map (fold (scheduleStep env now) ?xs) (db_schedules ?db)" "n = length ?xs"
    using f by simp_all
  have t: "db_tasks tasks = map (fold (restartStep env now) ?xs) (db_tasks ?db)" "db_runs tasks = db_runs ?db"
    using fold_restart_tasks[of env now ?xs "(?db, 0)"] f by auto
  have "db_schedules tasks = map (recoveredSchedule env UNIV now ?db) (db_schedules ?db)"
    unfolding s by (rule map_cong) (simp_all add: schedules_recovered[OF inv])
  moreover have "db_tasks tasks = map (\<lambda>t. if dueForRecovery UNIV now t then restartRow env now t (joined ?db t) t else t) (db_tasks ?db)"
    unfolding t by (rule map_cong) (simp_all add: tasks_recovered[OF inv])
  ultimately have "updateRuns (expiredRun now) (failExpiredRun now) tasks = recovered (restartRow env now) env UNIV now ?db"
    unfolding recovered_def by (simp add: updateRuns_def t(2))
  moreover have "n = length (filter (expired now) (db_tasks ?db))"
    unfolding s(2) length_dueTasks by (simp add: dueForRecovery_def[abs_def])
  ultimately show ?thesis
    unfolding recoverAfterRestart_def withImmediateTransactionSync_def dueTasks_queries using f by (simp add: tbl_changes_def)
qed

section \<open>Recovering tenants one after the other\<close>

lemma recovered_keys [simp]: "s_task (recoveredSchedule env U now db s) = s_task s"
  by (simp add: recoveredSchedule_def split: option.split)

lemma tbl_get_map_key: "(\<And>r. k (g r) = k r) \<Longrightarrow> tbl_get (\<lambda>r. k r = c) (map g rows) = map_option g (tbl_get (\<lambda>r. k r = c) rows)"
  by (induction rows) (simp_all add: tbl_get_def)

lemma taskOf_own: "taskInv db \<Longrightarrow> t \<in> set (db_tasks db) \<Longrightarrow> s_task s = t_id t \<Longrightarrow> taskOf db s = Some t"
  using tbl_get_map_distinct[OF taskInv_distinct, of db t "\<lambda>_. True"] by (simp add: taskOf_def)

lemma joined_recovered:
  assumes "taskInv db" "t \<in> set (db_tasks db)" "\<not> dueForRecovery U now t"
  shows "joined (recovered f env U now db) t = joined db t"
proof -
  have "joined (recovered f env U now db) t = map_option (recoveredSchedule env U now db) (joined db t)"
    by (simp add: joined_def recovered_def tbl_get_map_key)
  moreover have "recoveredSchedule env U now db s = s" if "joined db t = Some s" for s
    using tbl_get_Some[OF that[unfolded joined_def]] taskOf_own[OF assms(1,2), of s] assms(3) by (simp add: recoveredSchedule_def)
  ultimately show ?thesis by (cases "joined db t") simp_all
qed

text \<open>A rewriting of rows that keeps the key and ends the lease.\<close>

definition endsLease :: "instant \<Rightarrow> (taskRow \<Rightarrow> scheduleRow option \<Rightarrow> taskRow \<Rightarrow> taskRow) \<Rightarrow> bool" where
  "endsLease now f \<longleftrightarrow> (\<forall>t so r. t_id (f t so r) = t_id r \<and> t_user (f t so r) = t_user r \<and> \<not> expired now (f t so r))"

lemma recoveries_end_lease: "endsLease now (recoveredRow env now)" "endsLease now (restartRow env now)"
  by (simp_all add: endsLease_def) (simp add: recoveredRow_def expired_def activeStatus_def)

lemma recovered_twice:
  assumes inv: "taskInv db" and f: "endsLease now f"
  shows "recovered f env V now (recovered f env U now db) = recovered f env (U \<union> V) now db"
proof -
  let ?db = "recovered f env U now db" and ?row = "\<lambda>t. if dueForRecovery U now t then f t (joined db t) t else t"
  have tasks: "(if dueForRecovery V now (?row t) then f (?row t) (joined ?db (?row t)) (?row t) else ?row t) =
      (if dueForRecovery (U \<union> V) now t then f t (joined db t) t else t)" if t: "t \<in> set (db_tasks db)" for t
    using f joined_recovered[OF inv t, of U now f env] by (cases "dueForRecovery U now t") (auto simp: endsLease_def dueForRecovery_def)
  have key: "t_id (?row t) = t_id t" for t using f by (simp add: endsLease_def)
  have schedules: "recoveredSchedule env V now ?db (recoveredSchedule env U now db s) = recoveredSchedule env (U \<union> V) now db s"
    if "s \<in> set (db_schedules db)" for s
  proof -
    have of: "taskOf ?db (recoveredSchedule env U now db s) = map_option ?row (taskOf db s)"
      using tbl_get_map_key[of t_id ?row, OF key] by (simp add: taskOf_def recovered_def)
    show ?thesis
    proof (cases "taskOf db s")
      case (Some t)
      then have t: "t \<in> set (db_tasks db)" by (auto simp: taskOf_def dest: tbl_get_Some)
      show ?thesis
      proof (cases "dueForRecovery U now t")
        case True
        then have "\<not> dueForRecovery V now (?row t)" "dueForRecovery (U \<union> V) now t"
          using f by (simp_all add: endsLease_def dueForRecovery_def)
        with True Some of show ?thesis by (simp add: recoveredSchedule_def)
      next
        case False
        then have "dueForRecovery (U \<union> V) now t = dueForRecovery V now t" by (auto simp: dueForRecovery_def)
        with False Some of joined_recovered[OF inv t False] show ?thesis by (simp add: recoveredSchedule_def)
      qed
    qed (use of in \<open>simp add: recoveredSchedule_def\<close>)
  qed
  have runs: "tbl_update (\<lambda>r. runRow.r_user r \<in> V \<and> expiredRun now r) (failExpiredRun now)
      (tbl_update (\<lambda>r. runRow.r_user r \<in> U \<and> expiredRun now r) (failExpiredRun now) rs) =
     tbl_update (\<lambda>r. runRow.r_user r \<in> U \<union> V \<and> expiredRun now r) (failExpiredRun now) rs" for rs
    by (auto simp: tbl_update_def failExpiredRun_def expiredRun_def activeRunStatus_def)
  show ?thesis
    unfolding recovered_def[of f env V] recovered_def[of f env "U \<union> V"]
    using tasks schedules runs by (simp add: recovered_def[of f env U now db])
qed

text \<open>The tables up to the error texts of tasks, in which the two recoveries differ.\<close>

definition forgetErrors :: "taskDb \<Rightarrow> taskDb" where
  "forgetErrors db = db\<lparr>db_tasks := map (\<lambda>t. t\<lparr>t_error := None\<rparr>) (db_tasks db)\<rparr>"

lemma restartRow_text: "(restartRow env now t so r)\<lparr>t_error := None\<rparr> = (recoveredRow env now t so r)\<lparr>t_error := None\<rparr>"
  by (simp add: restartRow_def recoveredRow_def)

lemma recovered_text:
  "forgetErrors (recovered (restartRow env now) env U now db) = forgetErrors (recovered (recoveredRow env now) env U now db)"
  by (simp add: forgetErrors_def recovered_def restartRow_text)

definition recoverTenants :: "taskEnv \<Rightarrow> instant \<Rightarrow> string list \<Rightarrow> taskDb \<Rightarrow> taskDb" where
  "recoverTenants env now us db = fold (\<lambda>u db. snd (recoverExpiredLeases env u now db)) us db"

lemma recoverExpired_inv: "taskInv db \<Longrightarrow> taskInv (snd (recoverExpiredLeases env u now db))"
  using execTask_inv[of db env u "RecoverTasks now"] by simp

lemma recovered_idle:
  assumes "\<And>t. t \<in> set (db_tasks db) \<Longrightarrow> \<not> dueForRecovery U now t"
    and "\<And>r. r \<in> set (db_runs db) \<Longrightarrow> runRow.r_user r \<in> U \<Longrightarrow> \<not> expiredRun now r"
  shows "recovered f env U now db = db"
proof -
  have "recoveredSchedule env U now db s = s" for s
    using assms(1) by (auto simp: recoveredSchedule_def taskOf_def dest: tbl_get_Some split: option.split)
  moreover have "tbl_update (\<lambda>r. runRow.r_user r \<in> U \<and> expiredRun now r) (failExpiredRun now) (db_runs db) = db_runs db"
    using assms(2) by (intro tbl_update_none) blast
  ultimately show ?thesis using assms(1) by (simp add: recovered_def map_idI)
qed

lemma recoverTenants_spec:
  "taskInv db \<Longrightarrow> recoverTenants env now us db = recovered (recoveredRow env now) env (set us) now db \<and> taskInv (recoverTenants env now us db)"
proof (induction us rule: rev_induct)
  case (snoc u us)
  let ?db = "recoverTenants env now us db"
  have IH: "?db = recovered (recoveredRow env now) env (set us) now db" "taskInv ?db" using snoc.IH[OF snoc.prems] by (rule conjunct1, rule conjunct2)
  have step: "recoverTenants env now (us @ [u]) db = snd (recoverExpiredLeases env u now ?db)" by (simp add: recoverTenants_def)
  also have "\<dots> = recovered (recoveredRow env now) env {u} now ?db" by (rule tenant_recovery[OF IH(2)])
  also have "\<dots> = recovered (recoveredRow env now) env (set (us @ [u])) now db"
    unfolding IH(1) using recovered_twice[OF snoc.prems recoveries_end_lease(1)] by simp
  finally show ?case using recoverExpired_inv[OF IH(2), of env u now] unfolding step[symmetric] by blast
next
  case Nil
  have "recovered (recoveredRow env now) env {} now db = db" by (rule recovered_idle) (simp_all add: dueForRecovery_def)
  with Nil show ?case by (simp add: recoverTenants_def)
qed

lemma recovered_everyone:
  assumes "\<forall>t \<in> set (db_tasks db). t_user t \<in> U" "\<forall>r \<in> set (db_runs db). runRow.r_user r \<in> U"
  shows "recovered f env U now db = recovered f env UNIV now db"
proof -
  have "recoveredSchedule env U now db s = recoveredSchedule env UNIV now db s" for s
    using assms(1) by (auto simp: recoveredSchedule_def taskOf_def dueForRecovery_def dest!: tbl_get_Some split: option.split)
  with assms show ?thesis by (simp add: recovered_def tbl_update_def dueForRecovery_def)
qed

lemma restart_equals_tenants:
  assumes inv: "taskInv (od_tasks db)" and us: "\<forall>t \<in> set (db_tasks (od_tasks db)). t_user t \<in> set us"
  shows "forgetErrors (od_tasks (snd (recoverAfterRestart env now db))) = forgetErrors (recoverTenants env now us (od_tasks db))"
proof -
  have "\<forall>r \<in> set (db_runs (od_tasks db)). runRow.r_user r \<in> set us"
    using taskInv_runs[OF inv] us by (fastforce simp: list_all_iff runOk_def)
  from recovered_everyone[OF us this] show ?thesis
    unfolding restart_recovery[OF inv] using recoverTenants_spec[OF inv, of env now us] recovered_text by simp
qed

lemma forgetErrors_inv: "taskInv (forgetErrors db) \<longleftrightarrow> taskInv db"
proof -
  have "taskKey (t\<lparr>t_error := None\<rparr>) = taskKey t" "rowOk (t\<lparr>t_error := None\<rparr>) = rowOk t" for t
    by (simp_all add: taskKey_def rowOk_def)
  then show ?thesis by (simp add: taskInv_def forgetErrors_def comp_def image_image list_all_iff runOk_def)
qed

lemma restart_inv:
  assumes "taskInv (od_tasks db)"
  shows "taskInv (od_tasks (snd (recoverAfterRestart env now db)))"
  using restart_equals_tenants[OF assms, of "map t_user (db_tasks (od_tasks db))" env now]
    recoverTenants_spec[OF assms] forgetErrors_inv by (metis image_set list.set_map imageI)

section \<open>Theorems\<close>

text \<open>
  C11. Recovering after a restart does to the task tables exactly what each tenant's own
  \<open>recoverExpiredLeases\<close>, run for the tenants one after the other in any order and any number of times,
  does: the two differ in the error texts they leave and in nothing else.
\<close>

theorem restart_tenant_equivalence:
  assumes "taskInv (od_tasks db)" "\<forall>t \<in> set (db_tasks (od_tasks db)). t_user t \<in> set us"
  shows "forgetErrors (od_tasks (snd (recoverAfterRestart env now db))) = forgetErrors (recoverTenants env now us (od_tasks db))"
  by (rule restart_equals_tenants[OF assms])

definition exampleOperations :: operationsDb where
  "exampleOperations = \<lparr>od_tasks = exampleDb, od_quota = bundleDb\<rparr>"

theorem restart_tenant_equivalence_witness:
  "forgetErrors (od_tasks (snd (recoverAfterRestart minuteEnv 60000 exampleOperations))) =
     forgetErrors (recoverTenants minuteEnv 60000 [''v'', ''u'', ''u''] exampleDb)"
  using restart_tenant_equivalence[of exampleOperations "[''v'', ''u'', ''u'']"] exampleDb_inv
  by (simp add: exampleOperations_def exampleDb_def exampleTask_def)

lemma recovered_not_expired:
  assumes "endsLease now f"
  shows "\<forall>t \<in> set (db_tasks (recovered f env UNIV now db)). \<not> expired now t"
    "\<forall>r \<in> set (db_runs (recovered f env UNIV now db)). \<not> expiredRun now r"
proof -
  show "\<forall>t \<in> set (db_tasks (recovered f env UNIV now db)). \<not> expired now t"
    using assms by (auto simp: recovered_def endsLease_def dueForRecovery_def)
  have "\<not> expiredRun now (failExpiredRun now r)" for r by (simp add: failExpiredRun_def expiredRun_def activeRunStatus_def)
  then show "\<forall>r \<in> set (db_runs (recovered f env UNIV now db)). \<not> expiredRun now r"
    by (auto simp: recovered_def set_tbl_update)
qed

lemma expireLapsed_wf: "quota_wf q \<Longrightarrow> quota_wf (expireLapsed now q)"
  by (auto simp: quota_wf_def expireLapsed_def map_tbl_update set_tbl_update usedAmount_def)

lemma expireLapsed_none: "\<forall>r \<in> set (quota_reservations (expireLapsed now q)). \<not> lapsed now r"
  by (auto simp: expireLapsed_def set_tbl_update lapsed_def)

text \<open>
  C12. After a restart nothing is left behind: no task and no run of any tenant holds an expired lease and no
  lapsed reservation holds quota; the counts that are returned are the numbers of tasks and
  reservations that were; the task tables and the ledger are well-formed; and recovering again at the same
  time finds nothing to do.
\<close>

theorem restart_recovers_all:
  assumes "taskInv (od_tasks db)" "quota_wf (od_quota db)"
  shows "\<exists>db'. recoverAfterRestart env now db =
      (Inr \<lparr>rr_recoveredTasks = length (filter (expired now) (db_tasks (od_tasks db))),
            rr_expiredReservations = length (filter (lapsed now) (quota_reservations (od_quota db)))\<rparr>, db') \<and>
    filter (expired now) (db_tasks (od_tasks db')) = [] \<and> filter (expiredRun now) (db_runs (od_tasks db')) = [] \<and>
    filter (lapsed now) (quota_reservations (od_quota db')) = [] \<and>
    taskInv (od_tasks db') \<and> quota_wf (od_quota db') \<and>
    recoverAfterRestart env now db' = (Inr \<lparr>rr_recoveredTasks = 0, rr_expiredReservations = 0\<rparr>, db')"
proof -
  let ?db = "snd (recoverAfterRestart env now db)"
  note r = restart_recovery[OF assms(1), of env now]
  have inv: "taskInv (od_tasks ?db)" by (rule restart_inv[OF assms(1)])
  have none: "\<forall>t \<in> set (db_tasks (od_tasks ?db)). \<not> expired now t" "\<forall>x \<in> set (db_runs (od_tasks ?db)). \<not> expiredRun now x"
    "\<forall>x \<in> set (quota_reservations (od_quota ?db)). \<not> lapsed now x"
    unfolding r using recovered_not_expired[OF recoveries_end_lease(2)] expireLapsed_none by simp_all
  then have empty: "filter (expired now) (db_tasks (od_tasks ?db)) = []" "filter (expiredRun now) (db_runs (od_tasks ?db)) = []"
    "filter (lapsed now) (quota_reservations (od_quota ?db)) = []"
    unfolding filter_empty_conv by simp_all
  have "recovered (restartRow env now) env UNIV now (od_tasks ?db) = od_tasks ?db"
    using none(1,2) by (intro recovered_idle) (simp_all add: dueForRecovery_def)
  moreover have "expireLapsed now (od_quota ?db) = od_quota ?db"
    using none(3) by (simp add: expireLapsed_def tbl_update_none)
  ultimately have "recoverAfterRestart env now ?db = (Inr \<lparr>rr_recoveredTasks = 0, rr_expiredReservations = 0\<rparr>, ?db)"
    unfolding restart_recovery[OF inv] empty by simp
  moreover have "quota_wf (od_quota ?db)" unfolding r using expireLapsed_wf[OF assms(2)] by simp
  ultimately show ?thesis using inv empty r by (intro exI[of _ ?db]) (simp add: restart_recovery[OF assms(1)])
qed

lemma exampleQuota_wf: "quota_wf bundleDb"
proof -
  have "quota_wf sampleDb" by (simp add: quota_wf_def sampleDb_def usedAmount_def)
  moreover have "evolves ''u'' sampleDb bundleDb" using safe_reserveBundle unfolding safe_def bundleDb_def by blast
  ultimately show ?thesis unfolding evolves_def by blast
qed

theorem restart_recovers_all_witness:
  "\<exists>db'. snd (recoverAfterRestart minuteEnv 1000000 exampleOperations) = db' \<and>
     filter (lapsed 1000000) (quota_reservations (od_quota db')) = [] \<and> quota_wf (od_quota db')"
  using restart_recovers_all[of exampleOperations minuteEnv 1000000] exampleDb_inv exampleQuota_wf
  by (auto simp: exampleOperations_def)

text \<open>A bundle that is reserved but holds nothing.\<close>

definition stranded :: "string \<Rightarrow> string \<Rightarrow> quota_db \<Rightarrow> bool" where
  "stranded u bId q \<longleftrightarrow> (\<exists>b. findBundleById u bId q = Some b \<and> b_status b = Reserved) \<and> filter (linkedReserved u bId) (quota_reservations q) = []"

lemma stranded_commit:
  assumes "stranded u bId q"
  shows "\<exists>e. commitBundle u i usage t q = (Inl e, q) \<or> validateBundleId i \<noteq> Inr bId"
proof (cases "validateBundleId i = Inr bId")
  case True
  obtain b where b: "findBundleById u bId q = Some b" "b_status b = Reserved" using assms by (auto simp: stranded_def)
  have "\<not> (\<exists>b' q'. commitBundle u i usage t q = (Inr b', q'))"
  proof
    assume "\<exists>b' q'. commitBundle u i usage t q = (Inr b', q')"
    then obtain b' q' where c: "commitBundle u i usage t q = (Inr b', q')" by blast
    from commitBundle_Inr[OF c True b] obtain turns messages tokens
      where "settleCommitted u bId turns messages tokens t q = (Inr b', q')" .
    from settleCommitted_Inr(3)[OF this] assms show False by (simp add: stranded_def tbl_changes_def)
  qed
  then obtain e q' where "commitBundle u i usage t q = (Inl e, q')" by (metis surj_pair sum.exhaust)
  moreover from this have "q' = q" unfolding commitBundle_def by (rule transaction_Inl)
  ultimately show ?thesis by blast
qed simp

lemma stranded_error:
  assumes "stranded u bId q" "findBundleById u bId q = Some b" "b_status b = Reserved" "validateBundleId i = Inr bId"
    and "parseActualUsage usage = Inr (b_turns b, b_messages b, tokens)"
    and "checkCommitMetrics u b [(Turns, b_turns b), (Messages, b_messages b), (Tokens, tokens)] t q = Inr ()"
  shows "commitBundle u i usage t q = (Inl (PlainError ''Database corruption: expected quota_reservations count mismatch''), q)"
proof -
  have none: "tbl_changes (linkedReserved u bId) (quota_reservations q) = 0" using assms(1) by (simp add: stranded_def tbl_changes_def)
  have "b \<in> set (quota_bundles q)" "b_id b = bId \<and> b_user b = u \<and> b_status b = Reserved"
    using tbl_get_Some[OF assms(2)[unfolded findBundleById_def]] assms(3) by auto
  then have "tbl_changes (\<lambda>b. b_id b = bId \<and> b_user b = u \<and> b_status b = Reserved) (quota_bundles q) \<noteq> 0"
    by (auto simp: tbl_changes_def filter_empty_conv)
  then have "fst (settleCommitted u bId (b_turns b) (b_messages b) tokens t q) =
      Inl (PlainError ''Database corruption: expected quota_reservations count mismatch'')"
    unfolding settleCommitted_def using none by (simp add: Let_def)
  then have "fst (commitBundleInTransactionSync u i usage t q) =
      Inl (PlainError ''Database corruption: expected quota_reservations count mismatch'')"
    using assms(2-6) by (simp add: commitBundleInTransactionSync_def)
  then show ?thesis unfolding commitBundle_def transaction_Inl_iff by simp
qed

lemma restart_quota: "od_quota (snd (recoverAfterRestart env now db)) = expireLapsed now (od_quota db)"
  by (simp add: recoverAfterRestart_def withImmediateTransactionSync_def split: prod.split)

lemma expireLapsed_strands:
  assumes "findBundleById u bId q = Some b" "b_status b = Reserved"
    and "\<forall>r \<in> set (quota_reservations q). linkedReserved u bId r \<longrightarrow> r_expiresAt r \<le> now"
  shows "stranded u bId (expireLapsed now q)" "findBundleById u bId (expireLapsed now q) = Some b"
proof -
  show b: "findBundleById u bId (expireLapsed now q) = Some b" using assms(1) by (simp add: findBundleById_def expireLapsed_def)
  have "\<forall>r \<in> set (quota_reservations (expireLapsed now q)). \<not> linkedReserved u bId r"
    using assms(3) by (auto simp: expireLapsed_def set_tbl_update linkedReserved_def lapsed_def)
  then show "stranded u bId (expireLapsed now q)" using b assms(2) by (simp add: stranded_def filter_empty_conv)
qed

lemma stranded_renew:
  assumes "stranded u bId q" "validateBundleId (JString bId) = Inr bId"
  shows "stranded u bId (snd (renewBundle u (JString bId) e t q))"
proof -
  obtain b where b: "findBundleById u bId q = Some b" "b_status b = Reserved"
    and none: "filter (linkedReserved u bId) (quota_reservations q) = []" using assms(1) by (auto simp: stranded_def)
  let ?row = "\<lambda>b. b_id b = bId \<and> b_user b = u \<and> b_status b = Reserved"
  have keep: "stranded u bId (q\<lparr>quota_bundles := tbl_update ?row (\<lambda>b. b\<lparr>b_expiresAt := x\<rparr>) (quota_bundles q),
      quota_reservations := tbl_update (linkedReserved u bId) g (quota_reservations q)\<rparr>)" for x g
  proof -
    have "tbl_update (linkedReserved u bId) g (quota_reservations q) = quota_reservations q"
      using none by (intro tbl_update_none) (simp add: filter_empty_conv)
    with none b findBundleById_Some[OF b(1)] show ?thesis
      by (simp add: stranded_def findBundleById_def tbl_get_update_same)
  qed
  show ?thesis
    using assms(1) b keep
    by (auto simp: renewBundle_def assms(2) check_def withImmediateTransactionSync_def Let_def split: sum.splits prod.splits option.splits)
qed

definition renewals :: "string \<Rightarrow> string \<Rightarrow> (jsval \<times> instant) list \<Rightarrow> quota_db \<Rightarrow> quota_db" where
  "renewals u bId rs q = fold (\<lambda>(e, t) q. snd (renewBundle u (JString bId) e t q)) rs q"

lemma stranded_renewals:
  "stranded u bId q \<Longrightarrow> validateBundleId (JString bId) = Inr bId \<Longrightarrow> stranded u bId (renewals u bId rs q)"
  by (induction rs arbitrary: q) (auto simp: renewals_def stranded_renew)

text \<open>
  C38. Recovery expires the reservations of a lapsed bundle but not the bundle, so the bundle is stranded: it
  stays \<open>reserved\<close>, and from then on no commit of it succeeds, whatever the usage and the time and
  however often it is renewed. A commit whose usage is right and within the limits, which the ledger
  would have accepted before, is answered with \<open>Database corruption\<close>.
\<close>

theorem restart_strands_bundle:
  assumes "findBundleById u bId (od_quota db) = Some b" "b_status b = Reserved" "validateBundleId (JString bId) = Inr bId"
    and "\<forall>r \<in> set (quota_reservations (od_quota db)). linkedReserved u bId r \<longrightarrow> r_expiresAt r \<le> now"
    and "q = od_quota (snd (recoverAfterRestart env now db))"
  shows "findBundleById u bId q = Some b \<and>
    (\<forall>rs usage t. \<exists>e. commitBundle u (JString bId) usage t (renewals u bId rs q) = (Inl e, renewals u bId rs q)) \<and>
    (\<forall>usage t tokens. parseActualUsage usage = Inr (b_turns b, b_messages b, tokens) \<and>
        checkCommitMetrics u b [(Turns, b_turns b), (Messages, b_messages b), (Tokens, tokens)] t q = Inr () \<longrightarrow>
        commitBundle u (JString bId) usage t q =
          (Inl (PlainError ''Database corruption: expected quota_reservations count mismatch''), q))"
proof -
  have q: "q = expireLapsed now (od_quota db)" unfolding assms(5) by (rule restart_quota)
  note s = expireLapsed_strands[OF assms(1,2,4), folded q]
  have "\<exists>e. commitBundle u (JString bId) usage t (renewals u bId rs q) = (Inl e, renewals u bId rs q)" for rs usage t
    using stranded_commit[OF stranded_renewals[OF s(1) assms(3)], where i = "JString bId"] assms(3) by blast
  with s stranded_error[OF s assms(2,3)] show ?thesis by blast
qed

theorem restart_strands_bundle_witness:
  "let q = od_quota (snd (recoverAfterRestart minuteEnv 2100001 exampleOperations)) in
   \<not> isl (fst (commitBundle ''u'' (JString (bid CHR ''a'')) (sampleUsage 5) 2100002 bundleDb)) \<and>
   commitBundle ''u'' (JString (bid CHR ''a'')) (sampleUsage 5) 2100002 q =
     (Inl (PlainError ''Database corruption: expected quota_reservations count mismatch''), q)"
proof -
  let ?b = "hd (quota_bundles bundleDb)" and ?q = "expireLapsed 2100001 bundleDb"
  have q: "od_quota exampleOperations = bundleDb" by (simp add: exampleOperations_def)
  have f: "findBundleById ''u'' (bid CHR ''a'') (od_quota exampleOperations) = Some ?b" "b_status ?b = Reserved"
    unfolding q bundleDb_def by code_simp+
  have v: "validateBundleId (JString (bid CHR ''a'')) = Inr (bid CHR ''a'')" by code_simp
  have l: "\<forall>r \<in> set (quota_reservations (od_quota exampleOperations)). linkedReserved ''u'' (bid CHR ''a'') r \<longrightarrow> r_expiresAt r \<le> 2100001"
    unfolding q bundleDb_def by code_simp
  have "parseActualUsage (sampleUsage 5) = Inr (b_turns ?b, b_messages ?b, 5)" unfolding bundleDb_def by code_simp
  moreover have "checkCommitMetrics ''u'' ?b [(Turns, b_turns ?b), (Messages, b_messages ?b), (Tokens, 5)] 2100002 ?q = Inr ()"
    unfolding bundleDb_def by code_simp
  moreover have "\<not> isl (fst (commitBundle ''u'' (JString (bid CHR ''a'')) (sampleUsage 5) 2100002 bundleDb))"
    unfolding bundleDb_def by code_simp
  ultimately show ?thesis
    using restart_strands_bundle[OF f v l restart_quota[symmetric]] unfolding restart_quota q Let_def by blast
qed

end
