(* ===== verification/Path_Policy.thy ===== *)
theory Path_Policy
  imports Prelude
begin

text \<open>
  The policy for file paths (\<open>platform-operations/src/policies/path-policy.ts\<close>) and the functions of
  Node's \<open>path.posix\<close> it uses. Messages come without the values the source interpolates into them.
\<close>

section \<open>Paths\<close>

abbreviation (input) slash :: char where
  "slash \<equiv> CHR ''/''"

text \<open>
  \<open>path.posix.normalize\<close> works on the parts between slashes: empty parts and single dots go away, a
  double dot takes the part before it along. What is left of the double dots is kept in front where
  \<open>up\<close> allows it, that is for relative paths.
\<close>

definition normalizePart :: "bool \<Rightarrow> string list \<Rightarrow> string \<Rightarrow> string list" where
  "normalizePart up acc part =
     (if part = [] \<or> part = ''.'' then acc
      else if part = ''..'' then
        if acc \<noteq> [] \<and> last acc \<noteq> ''..'' then butlast acc else if up then acc @ [''..''] else acc
      else acc @ [part])"

definition normalizeParts :: "bool \<Rightarrow> string list \<Rightarrow> string list" where
  "normalizeParts up parts = foldl (normalizePart up) [] parts"

definition posixNormalize :: "string \<Rightarrow> string" where
  "posixNormalize path =
     (if path = [] then ''.''
      else
        let isAbsolute = (hd path = slash); trailingSeparator = (last path = slash);
            parts = normalizeParts (\<not> isAbsolute) (split_on slash path) in
        if parts = [] then if isAbsolute then ''/'' else if trailingSeparator then ''./'' else ''.''
        else (if isAbsolute then [slash] else []) @ join_with slash parts @ (if trailingSeparator then [slash] else []))"

definition dropTrailingSlashes :: "string \<Rightarrow> string" where
  "dropTrailingSlashes s = rev (dropWhile (\<lambda>c. c = slash) (rev s))"

definition basename :: "string \<Rightarrow> string" where
  "basename path = last (split_on slash (dropTrailingSlashes path))"

text \<open>\<open>path.posix.extname\<close> of a name without slashes: from its last dot on, unless the name starts there or is \<open>..\<close>.\<close>

definition extname :: "string \<Rightarrow> string" where
  "extname name =
     (let parts = split_on (CHR ''.'') name in
      if length parts < 2 \<or> (length parts = 2 \<and> hd parts = []) \<or> name = ''..'' then [] else CHR ''.'' # last parts)"

section \<open>The policy\<close>

record pathPolicyConfig =
  pc_workspaceRoot :: "string option"
  pc_maxSizeBytes :: "int option"
  pc_allowedExtensions :: "string list option"
  pc_blockedExtensions :: "string list option"
  pc_allowAbsolute :: "bool option"

record pathValidationResult =
  pv_normalizedRelativePath :: string
  pv_filename :: string
  pv_extension :: string
  pv_mimeType :: string

datatype fileError = PathPolicyViolationError string | ValidationError string | UniqueViolation | PlainError string

definition DEFAULT_BLOCKED_EXTENSIONS :: "string list" where
  "DEFAULT_BLOCKED_EXTENSIONS =
     [''.exe'', ''.sh'', ''.bash'', ''.bat'', ''.cmd'', ''.com'', ''.dll'', ''.so'', ''.dylib'', ''.vbs'', ''.ps1'']"

definition DEFAULT_MAX_FILE_SIZE_BYTES :: int where
  "DEFAULT_MAX_FILE_SIZE_BYTES = 10 * 1024 * 1024"

definition deriveMimeType :: "string \<Rightarrow> string" where
  "deriveMimeType ext =
     (if ext \<in> {''.txt'', ''.md'', ''.markdown''} then ''text/plain; charset=utf-8''
      else if ext = ''.json'' then ''application/json''
      else if ext = ''.png'' then ''image/png''
      else if ext \<in> {''.jpg'', ''.jpeg''} then ''image/jpeg''
      else if ext = ''.gif'' then ''image/gif''
      else if ext = ''.svg'' then ''image/svg+xml''
      else if ext = ''.webp'' then ''image/webp''
      else if ext = ''.pdf'' then ''application/pdf''
      else if ext = ''.csv'' then ''text/csv''
      else if ext \<in> {''.html'', ''.htm''} then ''text/html''
      else if ext = ''.zip'' then ''application/zip''
      else ''application/octet-stream'')"

text \<open>\<open>!v || typeof v !== 'string' || !v.trim()\<close>, negated.\<close>

fun filled :: "jsval \<Rightarrow> string option" where
  "filled (JString s) = (if js_trim s = [] then None else Some s)"
| "filled _ = None"

definition slashes :: "string \<Rightarrow> string" where
  "slashes s = map (\<lambda>c. if c = CHR 0x5C then slash else c) s"

definition climbs :: "string \<Rightarrow> bool" where
  "climbs path \<longleftrightarrow> path = ''..'' \<or> startsWith path ''../'' \<or> js_includes path ''/../'' \<or> endsWith path ''/..''"

definition extensionAllowed :: "pathPolicyConfig option \<Rightarrow> string \<Rightarrow> fileError + unit" where
  "extensionAllowed config extension =
     (let blocked = (case Option.bind config pc_blockedExtensions of None \<Rightarrow> DEFAULT_BLOCKED_EXTENSIONS | Some bs \<Rightarrow> bs);
          allowed = (case Option.bind config pc_allowedExtensions of None \<Rightarrow> [] | Some as \<Rightarrow> map toLowerCase as) in
      if list_ex (\<lambda>b. toLowerCase b = extension) blocked
      then Inl (PathPolicyViolationError ''File extension is blocked by security policy'')
      else if allowed \<noteq> [] \<and> extension \<notin> set allowed
      then Inl (PathPolicyViolationError ''File extension is not in allowed extensions list'')
      else Inr ())"

definition validatePath :: "jsval \<Rightarrow> jsval \<Rightarrow> pathPolicyConfig option \<Rightarrow> fileError + pathValidationResult" where
  "validatePath userId targetPath config =
     (case filled userId of None \<Rightarrow> Inl (PathPolicyViolationError ''Invalid tenant userId'') | Some _ \<Rightarrow>
      case filled targetPath of None \<Rightarrow> Inl (PathPolicyViolationError ''File path must be a non-empty string'') | Some target \<Rightarrow>
      if CHR 0x00 \<in> set target then Inl (PathPolicyViolationError ''Null byte injection detected in path'')
      else
        let normalized = posixNormalize (slashes target) in
        if startsWith normalized ''/'' \<and> Option.bind config pc_allowAbsolute \<noteq> Some True
        then Inl (PathPolicyViolationError ''Absolute path is disallowed by path policy. Must be relative.'')
        else if climbs normalized
        then Inl (PathPolicyViolationError ''Path traversal detected. Path must stay within tenant workspace.'')
        else
          let relativePath = dropWhile (\<lambda>c. c = slash) normalized; filename = basename relativePath in
          if filename = [] \<or> filename = ''.'' \<or> filename = ''..''
          then Inl (PathPolicyViolationError ''Invalid filename in path'')
          else
            let extension = toLowerCase (extname filename) in
            andThen (extensionAllowed config extension) (\<lambda>_.
              Inr \<lparr>pv_normalizedRelativePath = relativePath, pv_filename = filename, pv_extension = extension,
                 pv_mimeType = deriveMimeType extension\<rparr>))"

section \<open>Walking a path\<close>

text \<open>What the operating system does with the parts of a path, starting in a directory.\<close>

definition walkPart :: "string list \<Rightarrow> string \<Rightarrow> string list" where
  "walkPart d part = (if part = [] \<or> part = ''.'' then d else if part = ''..'' then butlast d else d @ [part])"

definition walk :: "string list \<Rightarrow> string list \<Rightarrow> string list" where
  "walk d parts = foldl walkPart d parts"

definition pathParts :: "string \<Rightarrow> string list" where
  "pathParts s = filter (\<lambda>p. p \<noteq> []) (split_on slash s)"

definition safeName :: "string \<Rightarrow> bool" where
  "safeName n \<longleftrightarrow> n \<noteq> [] \<and> n \<noteq> ''.'' \<and> n \<noteq> ''..'' \<and> slash \<notin> set n"

definition confinedPath :: "string \<Rightarrow> bool" where
  "confinedPath s \<longleftrightarrow> pathParts s \<noteq> [] \<and> list_all safeName (pathParts s) \<and> \<not> startsWith s ''/''"

lemma normalizeParts_snoc: "normalizeParts up (ps @ [p]) = normalizePart up (normalizeParts up ps) p"
  by (simp add: normalizeParts_def)

lemma walk_snoc: "walk d (ps @ [p]) = walkPart (walk d ps) p"
  by (simp add: walk_def)

text \<open>Double dots that are left over stand in front, and once there they stay.\<close>

lemma normalizeParts_leading: "''..'' \<in> set (normalizeParts up ps) \<Longrightarrow> hd (normalizeParts up ps) = ''..''"
proof (induction ps rule: rev_induct)
  case (snoc p ps)
  let ?n = "normalizeParts up ps"
  show ?case
  proof (cases "?n = []")
    case True
    with snoc.prems show ?thesis by (auto simp: normalizeParts_snoc normalizePart_def split: if_splits)
  next
    case False
    then have "\<exists>x ys. ?n = x # ys" by (cases ?n) auto
    with False snoc show ?thesis
      by (auto simp: normalizeParts_snoc normalizePart_def hd_append dest: in_set_butlastD split: if_splits)
         (metis last_in_set)
  qed
qed (simp add: normalizeParts_def)

lemma climbing_stays: "''..'' \<notin> set (normalizeParts up (ps @ [p])) \<Longrightarrow> ''..'' \<notin> set (normalizeParts True ps) \<or> \<not> up"
  by (cases "normalizeParts up ps" rule: rev_cases) (auto simp: normalizeParts_snoc normalizePart_def split: if_splits)

lemma walk_normalized:
  "''..'' \<notin> set (normalizeParts True ps) \<Longrightarrow> walk d ps = d @ normalizeParts True ps"
proof (induction ps rule: rev_induct)
  case (snoc p ps)
  then have IH: "walk d ps = d @ normalizeParts True ps" using climbing_stays by blast
  show ?case
    using snoc.prems unfolding walk_snoc normalizeParts_snoc IH
    by (auto simp: walkPart_def normalizePart_def butlast_append split: if_splits)
qed (simp add: walk_def normalizeParts_def)

lemma walk_confined:
  assumes "''..'' \<notin> set (normalizeParts True (ps @ qs))"
  shows "walk d ps = d @ normalizeParts True ps"
  using assms
proof (induction qs rule: rev_induct)
  case (snoc q qs)
  then show ?case using climbing_stays[of True "ps @ qs" q] by simp
qed (simp add: walk_normalized)

section \<open>Normalized paths\<close>

lemma normalizeParts_names:
  assumes "n \<in> set (normalizeParts up ps)"
  shows "n \<noteq> [] \<and> n \<noteq> ''.'' \<and> (n \<in> set ps \<or> (up \<and> n = ''..''))"
  using assms
proof (induction ps rule: rev_induct)
  case (snoc p ps)
  then show ?case
    by (auto simp: normalizeParts_snoc normalizePart_def dest: in_set_butlastD split: if_splits)
qed (simp add: normalizeParts_def)

lemma absolute_no_dots: "''..'' \<notin> set (normalizeParts False ps)"
proof (induction ps rule: rev_induct)
  case (snoc p ps)
  then show ?case by (auto simp: normalizeParts_snoc normalizePart_def dest: in_set_butlastD)
qed (simp add: normalizeParts_def)

lemma normalizeParts_split:
  assumes "n \<in> set (normalizeParts up (split_on slash t))"
  shows "n \<noteq> [] \<and> n \<noteq> ''.'' \<and> slash \<notin> set n"
  using normalizeParts_names[OF assms] split_on_parts[of n slash t] by auto

text \<open>The text of a list of names and what the functions of \<open>path\<close> make of it.\<close>

definition pathText :: "string list \<Rightarrow> bool \<Rightarrow> string" where
  "pathText names trailing = join_with slash names @ (if trailing then [slash] else [])"

definition names :: "string list \<Rightarrow> bool" where
  "names ns \<longleftrightarrow> ns \<noteq> [] \<and> list_all (\<lambda>n. n \<noteq> [] \<and> slash \<notin> set n) ns"

lemma join_hd: "names ns \<Longrightarrow> join_with slash ns \<noteq> [] \<and> hd (join_with slash ns) \<noteq> slash"
  by (cases ns; cases "tl ns"; cases "hd ns") (auto simp: names_def join_with_Cons)

lemma join_last: "names ns \<Longrightarrow> last (join_with slash ns) \<noteq> slash"
proof (induction slash ns rule: join_with.induct)
  case (2 p)
  then have "last p \<in> set p" "slash \<notin> set p" by (simp_all add: names_def)
  then show ?case unfolding join_with.simps by (intro notI) simp
next
  case (3 p q ps)
  then have "names (q # ps)" by (simp add: names_def)
  with 3(1) join_hd[OF this] show ?case by simp
qed (simp add: names_def)

lemma pathText_relative: "names ns \<Longrightarrow> dropWhile (\<lambda>c. c = slash) (pathText ns tr) = pathText ns tr"
  "names ns \<Longrightarrow> dropWhile (\<lambda>c. c = slash) (slash # pathText ns tr) = pathText ns tr"
  using join_hd[of ns] by (auto simp: pathText_def dropWhile_hd)

lemma pathText_split: "names ns \<Longrightarrow> split_on slash (pathText ns tr) = ns @ (if tr then [[]] else [])"
  by (simp add: pathText_def names_def list_all_iff split_join split_on_append_sep)

lemma pathText_parts: "names ns \<Longrightarrow> pathParts (pathText ns tr) = ns"
  by (simp add: pathParts_def pathText_split) (auto simp: names_def list_all_iff intro!: filter_True)

lemma pathText_basename: "names ns \<Longrightarrow> basename (pathText ns tr) = last ns"
proof -
  assume ns: "names ns"
  have "rev (join_with slash ns) \<noteq> [] \<and> hd (rev (join_with slash ns)) \<noteq> slash"
    using join_hd[OF ns] join_last[OF ns] by (simp add: hd_rev)
  then have "dropTrailingSlashes (pathText ns tr) = pathText ns False"
    by (simp add: dropTrailingSlashes_def pathText_def dropWhile_hd)
  then show ?thesis by (simp add: basename_def pathText_split[OF ns])
qed

lemma pathText_climbs: "names ns \<Longrightarrow> hd ns = ''..'' \<Longrightarrow> climbs (pathText ns tr)"
  by (cases ns; cases "tl ns"; cases tr) (auto simp: names_def pathText_def climbs_def join_with_Cons)

lemma posixNormalize_text:
  assumes "t \<noteq> []" "normalizeParts (hd t \<noteq> slash) (split_on slash t) \<noteq> []"
  shows "posixNormalize t = (if hd t = slash then [slash] else []) @
    pathText (normalizeParts (hd t \<noteq> slash) (split_on slash t)) (last t = slash)"
  using assms by (simp add: posixNormalize_def pathText_def Let_def)

lemma normalizeParts_are_names:
  "normalizeParts up (split_on slash t) \<noteq> [] \<Longrightarrow> names (normalizeParts up (split_on slash t))"
  using normalizeParts_split[of _ up t] by (auto simp: names_def list_all_iff)

lemma no_name_rejected:
  assumes "t \<noteq> []" "normalizeParts (hd t \<noteq> slash) (split_on slash t) = []"
  shows "basename (dropWhile (\<lambda>c. c = slash) (posixNormalize t)) \<in> {[], ''.''}"
  using assms by (auto simp: posixNormalize_def Let_def basename_def dropTrailingSlashes_def)

text \<open>What the policy accepts, in terms of the parts of the path it was given.\<close>

lemma validatePath_Inr:
  assumes "validatePath userId targetPath config = Inr r"
  obtains target ns where "targetPath = JString target" "CHR 0x00 \<notin> set target" "slashes target \<noteq> []"
    "ns = normalizeParts (hd (slashes target) \<noteq> slash) (split_on slash (slashes target))"
    "names ns" "''..'' \<notin> set ns"
    "hd (slashes target) = slash \<Longrightarrow> Option.bind config pc_allowAbsolute = Some True"
    "pv_normalizedRelativePath r = pathText ns (last (slashes target) = slash)" "pv_filename r = last ns"
    "pv_extension r = toLowerCase (extname (last ns))" "extensionAllowed config (pv_extension r) = Inr ()"
proof -
  obtain target where t: "filled targetPath = Some target" using assms by (auto simp: validatePath_def split: option.splits)
  then have target: "targetPath = JString target" "target \<noteq> []"
    by (cases targetPath; auto simp: js_trim_def split: if_splits)+
  let ?t = "slashes target" and ?n = "posixNormalize (slashes target)"
  define ns where "ns = normalizeParts (hd ?t \<noteq> slash) (split_on slash ?t)"
  let ?rel = "dropWhile (\<lambda>c. c = slash) ?n"
  have ne: "?t \<noteq> []" using target by (simp add: slashes_def)
  have v: "CHR 0x00 \<notin> set target" "\<not> (startsWith ?n ''/'' \<and> Option.bind config pc_allowAbsolute \<noteq> Some True)" "\<not> climbs ?n"
      "\<not> (basename ?rel = [] \<or> basename ?rel = ''.'' \<or> basename ?rel = ''..'')"
      "extensionAllowed config (toLowerCase (extname (basename ?rel))) = Inr ()"
      "pv_normalizedRelativePath r = ?rel" "pv_filename r = basename ?rel" "pv_extension r = toLowerCase (extname (basename ?rel))"
    using assms t by (auto simp: validatePath_def Let_def andThen_Inr_iff split: option.splits if_splits)
  have "ns \<noteq> []" using v(4) no_name_rejected[OF ne] unfolding ns_def by auto
  then have ns: "names ns" unfolding ns_def by (rule normalizeParts_are_names)
  have n: "?n = (if hd ?t = slash then [slash] else []) @ pathText ns (last ?t = slash)"
    using posixNormalize_text[OF ne] \<open>ns \<noteq> []\<close> unfolding ns_def .
  have rel: "?rel = pathText ns (last ?t = slash)" unfolding n using pathText_relative[OF ns] by simp
  have "''..'' \<notin> set ns"
  proof (cases "hd ?t = slash")
    case True
    then show ?thesis unfolding ns_def by (simp add: absolute_no_dots)
  next
    case False
    with n v(3) pathText_climbs[OF ns] have "hd ns \<noteq> ''..''" by auto
    then show ?thesis using normalizeParts_leading unfolding ns_def by blast
  qed
  moreover have "Option.bind config pc_allowAbsolute = Some True" if "hd ?t = slash" using v(2) that n by auto
  ultimately show thesis
    using that[OF target(1) v(1) ne ns_def ns] v rel pathText_basename[OF ns] by simp
qed

lemma validatePath_confined:
  assumes "validatePath userId p config = Inr r"
  shows "confinedPath (pv_normalizedRelativePath r)"
proof -
  from assms obtain t ns tr where v: "ns = normalizeParts (hd (slashes t) \<noteq> slash) (split_on slash (slashes t))" "names ns"
      "''..'' \<notin> set ns" "pv_normalizedRelativePath r = pathText ns tr"
    by (rule validatePath_Inr)
  have "list_all safeName ns"
    using v(3) normalizeParts_split[of _ "hd (slashes t) \<noteq> slash" "slashes t"] unfolding v(1) by (auto simp: list_all_iff safeName_def)
  moreover have "\<not> startsWith (pathText ns tr) ''/''"
    using join_hd[OF v(2)] by (cases "join_with slash ns") (auto simp: pathText_def)
  ultimately show ?thesis
    unfolding confinedPath_def v(4) pathText_parts[OF v(2)] using v(2) by (simp add: names_def)
qed

text \<open>
  C20. A path the policy accepts stays inside. Its normal form is a relative path of plain names, the
  last of them the name of the file. And where the path itself is relative, following it part by part
  from any directory never leaves that directory, not even on the way, and ends at the file that the
  normal form names.
\<close>

theorem path_policy_confined:
  assumes "validatePath userId (JString p) config = Inr r"
  shows "confinedPath (pv_normalizedRelativePath r) \<and> pv_filename r = last (pathParts (pv_normalizedRelativePath r)) \<and>
    (\<not> startsWith (slashes p) ''/'' \<longrightarrow>
      (\<forall>d ps qs. split_on slash (slashes p) = ps @ qs \<longrightarrow> prefix d (walk d ps)) \<and>
      (\<forall>d. walk d (split_on slash (slashes p)) = d @ pathParts (pv_normalizedRelativePath r)))"
proof -
  let ?t = "slashes p"
  from assms obtain ns where v: "?t \<noteq> []" "ns = normalizeParts (hd ?t \<noteq> slash) (split_on slash ?t)" "names ns" "''..'' \<notin> set ns"
    "pv_normalizedRelativePath r = pathText ns (last ?t = slash)" "pv_filename r = last ns"
    by (rule validatePath_Inr) auto
  have parts: "pathParts (pv_normalizedRelativePath r) = ns" unfolding v(5) by (rule pathText_parts[OF v(3)])
  have "prefix d (walk d ps) \<and> walk d (split_on slash ?t) = d @ ns"
    if "\<not> startsWith ?t ''/''" "split_on slash ?t = ps @ qs" for d ps qs
  proof -
    have "hd ?t \<noteq> slash" using that(1) v(1) by (cases ?t) auto
    then have ns: "ns = normalizeParts True (split_on slash ?t)" using v(2) by simp
    show ?thesis using walk_confined[of ps qs d] walk_normalized v(4) unfolding ns that(2) by simp
  qed
  then show ?thesis unfolding parts v(6) using validatePath_confined[OF assms] append_Nil2 by metis
qed

theorem path_policy_confined_witness:
  "prefix [''home'', ''u''] (walk [''home'', ''u''] [''notes'', ''..''])"
proof -
  have "\<not> isl (validatePath (JString ''u'') (JString ''notes/../a/./b.txt'') None)" by code_simp
  then obtain r where "validatePath (JString ''u'') (JString ''notes/../a/./b.txt'') None = Inr r" by (metis sum.collapse(2))
  note c = path_policy_confined[OF this]
  have "split_on slash (slashes ''notes/../a/./b.txt'') = [''notes'', ''..''] @ [''a'', ''.'', ''b.txt'']"
    "\<not> startsWith (slashes ''notes/../a/./b.txt'') ''/''" by code_simp+
  with c show ?thesis by blast
qed

text \<open>
  With \<open>allowAbsolute\<close> the workspace root of the configuration is not looked at: an absolute path to any place
  is accepted.
\<close>

lemma absolute_root_ignored:
  "validatePath (JString ''u'') (JString ''/etc/hosts'') (Some \<lparr>pc_workspaceRoot = Some root, pc_maxSizeBytes = None,
     pc_allowedExtensions = None, pc_blockedExtensions = None, pc_allowAbsolute = Some True\<rparr>) =
   Inr \<lparr>pv_normalizedRelativePath = ''etc/hosts'', pv_filename = ''hosts'', pv_extension = [],
     pv_mimeType = ''application/octet-stream''\<rparr>"
  by code_simp

end
