(* ===== verification/File_Service.thy ===== *)
theory File_Service
  imports Path_Policy "HOL-Library.Char_ord" "HOL-Library.List_Lexorder"
begin

text \<open>
  Outgoing files: the repository of their metadata
  (\<open>platform-storage-sqlite/src/repos/file-metadata-repo.ts\<close>) and the service that checks the path, stores
  the metadata, writes the audit log and hands the file to a channel
  (\<open>platform-operations/src/services/file-operation-service.ts\<close>). The service relies on the path policy
  through the interface \<open>path_policy_port\<close>. The channel adapter is a parameter: it answers with a status and
  an error text, or throws. Sizes are integers; the audit port does not fail.
\<close>

section \<open>The repository\<close>

record fileMetadata =
  fm_id :: string
  fm_user :: string
  fm_filename :: string
  fm_relativePath :: string
  fm_size :: int
  fm_mimeType :: "string option"
  fm_extension :: string
  fm_checksum :: "string option"
  fm_recipient :: string
  fm_description :: "string option"
  fm_metadata :: "jsval option"
  fm_createdAt :: string

record createFileMetadataInput =
  cf_id :: "string option"
  cf_filename :: string
  cf_relativePath :: string
  cf_size :: int
  cf_mimeType :: "string option"
  cf_extension :: string
  cf_checksum :: "string option"
  cf_recipient :: string
  cf_description :: "string option"
  cf_metadata :: "jsval option"

definition findFileById :: "string \<Rightarrow> string \<Rightarrow> fileMetadata list \<Rightarrow> fileMetadata option" where
  "findFileById u i rows = tbl_get (\<lambda>r. fm_id r = i \<and> fm_user r = u) rows"

definition fileRow :: "string \<Rightarrow> createFileMetadataInput \<Rightarrow> string \<Rightarrow> string \<Rightarrow> fileMetadata" where
  "fileRow u input i sqlNow =
     \<lparr>fm_id = i, fm_user = u, fm_filename = cf_filename input, fm_relativePath = cf_relativePath input,
      fm_size = cf_size input, fm_mimeType = cf_mimeType input, fm_extension = cf_extension input,
      fm_checksum = cf_checksum input, fm_recipient = cf_recipient input, fm_description = cf_description input,
      fm_metadata = cf_metadata input, fm_createdAt = sqlNow\<rparr>"

definition createFile ::
  "string \<Rightarrow> createFileMetadataInput \<Rightarrow> string \<Rightarrow> string \<Rightarrow> (fileMetadata list, fileError, fileMetadata) op" where
  "createFile u input newId sqlNow rows =
     (let i = (if opt_truthy (cf_id input) then the (cf_id input) else newId); rows' = rows @ [fileRow u input i sqlNow] in
      if i \<in> fm_id ` set rows then (Inl UniqueViolation, rows)
      else case findFileById u i rows' of
          None \<Rightarrow> (Inl (PlainError ''Failed to retrieve newly created file metadata''), rows')
        | Some created \<Rightarrow> (Inr created, rows'))"

text \<open>\<open>LIMIT\<close> and \<open>OFFSET\<close>: a negative limit means none, an offset comes only with a limit.\<close>

record fileListOptions =
  lo_limit :: "int option"
  lo_offset :: "int option"

definition page :: "fileListOptions \<Rightarrow> 'r list \<Rightarrow> 'r list" where
  "page options rows =
     (case lo_limit options of
        None \<Rightarrow> rows
      | Some n \<Rightarrow>
          let rest = drop (nat (case lo_offset options of None \<Rightarrow> 0 | Some k \<Rightarrow> k)) rows in
          if n < 0 then rest else take (nat n) rest)"

definition filesNewestFirst :: "fileMetadata list \<Rightarrow> fileMetadata list" where
  "filesNewestFirst rows = rev (sort_key fm_createdAt (rev rows))"

definition listByRecipient :: "string \<Rightarrow> string \<Rightarrow> fileListOptions \<Rightarrow> fileMetadata list \<Rightarrow> fileMetadata list" where
  "listByRecipient u recipient options rows =
     page options (filesNewestFirst (filter (\<lambda>r. fm_user r = u \<and> fm_recipient r = recipient) rows))"

definition listFiles :: "string \<Rightarrow> fileListOptions \<Rightarrow> fileMetadata list \<Rightarrow> fileMetadata list" where
  "listFiles u options rows = page options (filesNewestFirst (filter (\<lambda>r. fm_user r = u) rows))"

section \<open>The service\<close>

record sendFileInput =
  sf_recipient :: jsval
  sf_path :: jsval
  sf_filename :: "string option"
  sf_size :: "int option"
  sf_mimeType :: "string option"
  sf_checksum :: "string option"
  sf_description :: "string option"
  sf_metadata :: "jsval option"
  sf_turnId :: "string option"
  sf_sessionId :: "string option"

datatype fileDeliveryStatus = Recorded | Sent | FailedDelivery | UnknownDelivery

record fileDelivery =
  fd_userId :: string
  fd_recipient :: string
  fd_file :: fileMetadata
  fd_customPayload :: "jsval option"
  fd_turnId :: "string option"
  fd_sessionId :: "string option"

record sendFileResult =
  sr_fileId :: string
  sr_recipient :: string
  sr_metadata :: fileMetadata
  sr_timestamp :: string
  sr_deliveryStatus :: "fileDeliveryStatus option"
  sr_deliveryError :: "string option"

datatype fileAudit =
    SizeViolation string jsval string         \<comment> \<open>tenant, path, recipient\<close>
  | PolicyViolation string jsval fileError string
  | FileDispatched string fileMetadata string

record fileService =
  fs_userId :: string
  fs_auditLogs :: bool
  fs_policyConfig :: "pathPolicyConfig option"
  fs_channelAdapter :: "(fileDelivery \<Rightarrow> string + fileDeliveryStatus option \<times> string option) option"

record fileWorld =
  fw_files :: "fileMetadata list"
  fw_audit :: "fileAudit list"
  fw_delivered :: "fileDelivery list"

text \<open>\<open>{ ...this.policyConfig, ...overrideConfig }\<close>.\<close>

definition emptyConfig :: pathPolicyConfig where
  "emptyConfig = \<lparr>pc_workspaceRoot = None, pc_maxSizeBytes = None, pc_allowedExtensions = None, pc_blockedExtensions = None,
     pc_allowAbsolute = None\<rparr>"

definition mergeConfig :: "pathPolicyConfig option \<Rightarrow> pathPolicyConfig option \<Rightarrow> pathPolicyConfig" where
  "mergeConfig base over =
     (let b = (case base of None \<Rightarrow> emptyConfig | Some c \<Rightarrow> c); o1 = (case over of None \<Rightarrow> emptyConfig | Some c \<Rightarrow> c) in
      \<lparr>pc_workspaceRoot = orElse (pc_workspaceRoot o1) (pc_workspaceRoot b),
       pc_maxSizeBytes = orElse (pc_maxSizeBytes o1) (pc_maxSizeBytes b),
       pc_allowedExtensions = orElse (pc_allowedExtensions o1) (pc_allowedExtensions b),
       pc_blockedExtensions = orElse (pc_blockedExtensions o1) (pc_blockedExtensions b),
       pc_allowAbsolute = orElse (pc_allowAbsolute o1) (pc_allowAbsolute b)\<rparr>)"

definition maxSize :: "pathPolicyConfig \<Rightarrow> int" where
  "maxSize config = (case pc_maxSizeBytes config of None \<Rightarrow> DEFAULT_MAX_FILE_SIZE_BYTES | Some n \<Rightarrow> n)"

definition audited :: "fileService \<Rightarrow> fileAudit \<Rightarrow> fileWorld \<Rightarrow> fileWorld" where
  "audited svc a w = (if fs_auditLogs svc then w\<lparr>fw_audit := fw_audit w @ [a]\<rparr> else w)"

text \<open>\<open>a || b\<close> for an optional text and a text.\<close>

definition textOr :: "string option \<Rightarrow> string \<Rightarrow> string" where
  "textOr a b = (case a of None \<Rightarrow> b | Some s \<Rightarrow> if s = [] then b else s)"

definition deliverFile :: "fileService \<Rightarrow> fileDelivery \<Rightarrow> fileWorld \<Rightarrow> (fileDeliveryStatus option \<times> string option) \<times> fileWorld" where
  "deliverFile svc d w =
     (case fs_channelAdapter svc of
        None \<Rightarrow> ((None, None), w)
      | Some adapter \<Rightarrow>
          ((case adapter d of
              Inl message \<Rightarrow> (Some FailedDelivery, Some message)
            | Inr (status, err) \<Rightarrow> (Some (case status of None \<Rightarrow> Sent | Some s \<Rightarrow> s), err)),
           w\<lparr>fw_delivered := fw_delivered w @ [d]\<rparr>))"

text \<open>Storing, logging and handing over a file whose path was accepted.\<close>

definition dispatchFile ::
  "fileService \<Rightarrow> sendFileInput \<Rightarrow> string \<Rightarrow> pathValidationResult \<Rightarrow> string \<Rightarrow> string \<Rightarrow>
     (fileWorld, fileError, sendFileResult) op" where
  "dispatchFile svc input recipient v fileId sqlNow w =
     (case createFile (fs_userId svc)
         \<lparr>cf_id = Some fileId, cf_filename = textOr (sf_filename input) (pv_filename v),
          cf_relativePath = pv_normalizedRelativePath v, cf_size = (case sf_size input of None \<Rightarrow> 0 | Some n \<Rightarrow> n),
          cf_mimeType = Some (textOr (sf_mimeType input) (pv_mimeType v)), cf_extension = pv_extension v,
          cf_checksum = sf_checksum input, cf_recipient = recipient, cf_description = sf_description input,
          cf_metadata = sf_metadata input\<rparr> fileId sqlNow (fw_files w) of
        (Inl e, files) \<Rightarrow> (Inl e, w\<lparr>fw_files := files\<rparr>)
      | (Inr file, files) \<Rightarrow>
          let w1 = audited svc (FileDispatched (fs_userId svc) file recipient) (w\<lparr>fw_files := files\<rparr>);
              (outcome, w2) = deliverFile svc \<lparr>fd_userId = fs_userId svc, fd_recipient = recipient, fd_file = file,
                fd_customPayload = sf_metadata input, fd_turnId = sf_turnId input, fd_sessionId = sf_sessionId input\<rparr> w1 in
          (Inr \<lparr>sr_fileId = fm_id file, sr_recipient = recipient, sr_metadata = file, sr_timestamp = fm_createdAt file,
             sr_deliveryStatus = fst outcome, sr_deliveryError = snd outcome\<rparr>, w2))"

definition sendFile ::
  "(jsval \<Rightarrow> jsval \<Rightarrow> pathPolicyConfig option \<Rightarrow> fileError + pathValidationResult) \<Rightarrow> fileService \<Rightarrow> sendFileInput \<Rightarrow>
     pathPolicyConfig option \<Rightarrow> string \<Rightarrow> string \<Rightarrow> (fileWorld, fileError, sendFileResult) op" where
  "sendFile validate svc input over fileId sqlNow w =
     (case filled (sf_recipient input) of None \<Rightarrow> (Inl (ValidationError ''Recipient must be a non-empty string''), w) | Some recipient \<Rightarrow>
      case filled (sf_path input) of None \<Rightarrow> (Inl (ValidationError ''File path must be a non-empty string''), w) | Some path \<Rightarrow>
      let config = mergeConfig (fs_policyConfig svc) over in
      if (case sf_size input of None \<Rightarrow> False | Some n \<Rightarrow> n > maxSize config)
      then (Inl (PathPolicyViolationError ''File size exceeds maximum allowed limit''),
            audited svc (SizeViolation (fs_userId svc) (sf_path input) recipient) w)
      else case validate (JString (fs_userId svc)) (sf_path input) (Some config) of
          Inl e \<Rightarrow> (Inl e, audited svc (PolicyViolation (fs_userId svc) (sf_path input) e recipient) w)
        | Inr v \<Rightarrow> dispatchFile svc input recipient v fileId sqlNow w)"

section \<open>What the service promises\<close>

text \<open>The files that are stored, logged and handed over, after any number of requests.\<close>

definition filesOk :: "fileWorld \<Rightarrow> bool" where
  "filesOk w \<longleftrightarrow> distinct (map fm_id (fw_files w)) \<and> list_all (\<lambda>r. confinedPath (fm_relativePath r)) (fw_files w) \<and>
     list_all (\<lambda>d. fd_file d \<in> set (fw_files w) \<and> fm_user (fd_file d) = fd_userId d \<and> fm_recipient (fd_file d) = fd_recipient d)
       (fw_delivered w)"

lemma createFile_cases:
  "createFile u input newId now rows = (Inl UniqueViolation, rows) \<or>
   (\<exists>row. createFile u input newId now rows = (Inr row, rows @ [row]) \<and> fm_id row \<notin> fm_id ` set rows \<and> fm_user row = u \<and>
      fm_filename row = cf_filename input \<and> fm_relativePath row = cf_relativePath input \<and> fm_size row = cf_size input \<and>
      fm_extension row = cf_extension input \<and> fm_recipient row = cf_recipient input)"
proof -
  have "findFileById u i (rows @ [fileRow u input i now]) = Some (fileRow u input i now)" if "i \<notin> fm_id ` set rows" for i
  proof -
    have "tbl_get (\<lambda>r. fm_id r = i \<and> fm_user r = u) rows = None" using that unfolding tbl_get_None by blast
    then show ?thesis by (simp add: findFileById_def tbl_get_append) (simp add: tbl_get_def fileRow_def)
  qed
  moreover have "fm_id (fileRow u input i now) = i" for i by (simp add: fileRow_def)
  ultimately show ?thesis
    unfolding createFile_def Let_def
    by (cases "(if opt_truthy (cf_id input) then the (cf_id input) else newId) \<in> fm_id ` set rows") (simp_all, simp add: fileRow_def)
qed

text \<open>A request that is served: one new row, one entry in the log, at most one file handed over.\<close>

definition served :: "fileService \<Rightarrow> string \<Rightarrow> pathValidationResult \<Rightarrow> sendFileInput \<Rightarrow> fileMetadata \<Rightarrow> fileWorld \<Rightarrow> fileWorld \<Rightarrow> bool" where
  "served svc recipient v input row w w' \<longleftrightarrow>
     fw_files w' = fw_files w @ [row] \<and> fm_id row \<notin> fm_id ` set (fw_files w) \<and> fm_user row = fs_userId svc \<and>
     fm_filename row = textOr (sf_filename input) (pv_filename v) \<and> fm_relativePath row = pv_normalizedRelativePath v \<and>
     fm_extension row = pv_extension v \<and> fm_recipient row = recipient \<and>
     fm_size row = (case sf_size input of None \<Rightarrow> 0 | Some n \<Rightarrow> n) \<and>
     fw_audit w' = fw_audit w @ (if fs_auditLogs svc then [FileDispatched (fs_userId svc) row recipient] else []) \<and>
     (\<exists>ds. fw_delivered w' = fw_delivered w @ ds \<and> length ds = (if fs_channelAdapter svc = None then 0 else 1) \<and>
        list_all (\<lambda>d. fd_file d = row \<and> fd_userId d = fs_userId svc \<and> fd_recipient d = recipient) ds)"

lemma dispatchFile_cases:
  "dispatchFile svc input recipient v fileId now w = (Inl UniqueViolation, w) \<or>
   (\<exists>res w'. dispatchFile svc input recipient v fileId now w = (Inr res, w') \<and> served svc recipient v input (sr_metadata res) w w')"
proof -
  let ?in = "\<lparr>cf_id = Some fileId, cf_filename = textOr (sf_filename input) (pv_filename v),
          cf_relativePath = pv_normalizedRelativePath v, cf_size = (case sf_size input of None \<Rightarrow> 0 | Some n \<Rightarrow> n),
          cf_mimeType = Some (textOr (sf_mimeType input) (pv_mimeType v)), cf_extension = pv_extension v,
          cf_checksum = sf_checksum input, cf_recipient = recipient, cf_description = sf_description input,
          cf_metadata = sf_metadata input\<rparr>"
  from createFile_cases[of "fs_userId svc" ?in fileId now "fw_files w"] show ?thesis
    by (elim disjE exE conjE)
       (simp_all add: dispatchFile_def served_def audited_def deliverFile_def Let_def split: option.splits)
qed

lemma dispatchFile_refuses: "isl (fst (dispatchFile svc input recipient v fileId now w)) \<longleftrightarrow> fileId \<in> fm_id ` set (fw_files w)"
proof -
  have "(if opt_truthy (Some fileId) then fileId else fileId) = fileId" by simp
  then have "fileId \<in> fm_id ` set (fw_files w) \<Longrightarrow> isl (fst (dispatchFile svc input recipient v fileId now w))"
    by (simp add: dispatchFile_def createFile_def)
  moreover have "fileId \<in> fm_id ` set (fw_files w)" if "dispatchFile svc input recipient v fileId now w = (Inl UniqueViolation, w)"
    using that by (simp add: dispatchFile_def createFile_def Let_def split: if_splits option.splits prod.splits)
  ultimately show ?thesis using dispatchFile_cases[of svc input recipient v fileId now w] by auto
qed

lemma sendFile_cases:
  obtains (rejected) e as where "sendFile validate svc input over fileId now w = (Inl e, w\<lparr>fw_audit := fw_audit w @ as\<rparr>)"
      "case e of PathPolicyViolationError _ \<Rightarrow> fs_auditLogs svc \<longrightarrow> length as = 1 | _ \<Rightarrow> True"
  | (sent) res w' v recipient where "sendFile validate svc input over fileId now w = (Inr res, w')"
      "served svc recipient v input (sr_metadata res) w w'"
      "validate (JString (fs_userId svc)) (sf_path input) (Some (mergeConfig (fs_policyConfig svc) over)) = Inr v"
      "filled (sf_recipient input) = Some recipient"
      "fm_size (sr_metadata res) \<le> max 0 (maxSize (mergeConfig (fs_policyConfig svc) over))"
proof (cases "filled (sf_recipient input)")
  case None
  show thesis by (rule rejected[of "ValidationError ''Recipient must be a non-empty string''" "[]"]) (simp_all add: sendFile_def None)
next
  case (Some recipient)
  note rcp = Some
  let ?cfg = "mergeConfig (fs_policyConfig svc) over" and ?u = "fs_userId svc"
  have log: "audited svc a w = w\<lparr>fw_audit := fw_audit w @ (if fs_auditLogs svc then [a] else [])\<rparr>" for a
    by (simp add: audited_def)
  consider "filled (sf_path input) = None" | path n where "filled (sf_path input) = Some path" "sf_size input = Some n" "n > maxSize ?cfg"
    | path where "filled (sf_path input) = Some path" "\<not> (case sf_size input of None \<Rightarrow> False | Some n \<Rightarrow> n > maxSize ?cfg)"
    by (cases "filled (sf_path input)"; cases "sf_size input") force+
  then show thesis
  proof cases
    case 1
    show thesis
      by (rule rejected[of "ValidationError ''File path must be a non-empty string''" "[]"]) (simp_all add: sendFile_def rcp 1)
  next
    case 2
    then have "sendFile validate svc input over fileId now w = (Inl (PathPolicyViolationError ''File size exceeds maximum allowed limit''),
        audited svc (SizeViolation ?u (sf_path input) recipient) w)" by (simp add: sendFile_def rcp Let_def)
    then show thesis unfolding log by (rule rejected) simp
  next
    case 3
    show thesis
    proof (cases "validate (JString ?u) (sf_path input) (Some ?cfg)")
      case (Inl e)
      with 3 have "sendFile validate svc input over fileId now w = (Inl e, audited svc (PolicyViolation ?u (sf_path input) e recipient) w)"
        by (simp add: sendFile_def rcp Let_def)
      then show thesis unfolding log by (rule rejected) (simp split: fileError.splits)
    next
      case (Inr v)
      with 3 have d: "sendFile validate svc input over fileId now w = dispatchFile svc input recipient v fileId now w"
        by (simp add: sendFile_def rcp Let_def)
      from dispatchFile_cases[of svc input recipient v fileId now w] show thesis
      proof (elim disjE exE conjE)
        assume "dispatchFile svc input recipient v fileId now w = (Inl UniqueViolation, w)"
        then show thesis using d by (intro rejected[of UniqueViolation "[]"]) simp_all
      next
        fix res w' assume s: "dispatchFile svc input recipient v fileId now w = (Inr res, w')" "served svc recipient v input (sr_metadata res) w w'"
        have "fm_size (sr_metadata res) \<le> max 0 (maxSize ?cfg)"
          using s(2) 3(2) by (cases "sf_size input") (simp_all add: served_def)
        with s d Inr rcp show thesis by (intro sent) simp_all
      qed
    qed
  qed
qed

text \<open>
  The interface to the path policy: whatever a policy accepts is a relative path of plain names. A service
  over such a policy only ever stores and hands over files inside the workspace.
\<close>

type_synonym fileRequest = "fileService \<times> sendFileInput \<times> pathPolicyConfig option \<times> string \<times> string"

definition fileStep ::
  "(jsval \<Rightarrow> jsval \<Rightarrow> pathPolicyConfig option \<Rightarrow> fileError + pathValidationResult) \<Rightarrow> fileRequest \<Rightarrow>
     (fileWorld, fileError, sendFileResult) op" where
  "fileStep validate q = (case q of (svc, input, over, fileId, now) \<Rightarrow> sendFile validate svc input over fileId now)"

lemma served_keeps:
  assumes "filesOk w" "served svc recipient v input row w w'" "confinedPath (pv_normalizedRelativePath v)"
  shows "filesOk w'"
proof -
  from assms(2) obtain ds where d: "fw_delivered w' = fw_delivered w @ ds"
      "list_all (\<lambda>d. fd_file d = row \<and> fd_userId d = fs_userId svc \<and> fd_recipient d = recipient) ds"
    by (auto simp: served_def)
  have r: "fw_files w' = fw_files w @ [row]" "fm_id row \<notin> fm_id ` set (fw_files w)" "fm_user row = fs_userId svc"
    "fm_recipient row = recipient" "fm_relativePath row = pv_normalizedRelativePath v"
    using assms(2) by (simp_all add: served_def)
  show ?thesis
    using assms(1,3) d(2) r(2-5) unfolding filesOk_def r(1) d(1) by (auto simp: list_all_iff)
qed

locale path_policy_port =
  fixes validate :: "jsval \<Rightarrow> jsval \<Rightarrow> pathPolicyConfig option \<Rightarrow> fileError + pathValidationResult"
  assumes accepted: "validate u p config = Inr v \<Longrightarrow> confinedPath (pv_normalizedRelativePath v)"
begin

lemma fileStep_keeps: "filesOk w \<Longrightarrow> filesOk (snd (fileStep validate q w))"
proof -
  assume ok: "filesOk w"
  obtain svc input over fileId now where q: "q = (svc, input, over, fileId, now)" by (metis surj_pair)
  show ?thesis
  proof (cases rule: sendFile_cases[of validate svc input over fileId now w])
    case (rejected e as)
    with ok q show ?thesis by (simp add: fileStep_def filesOk_def)
  next
    case (sent res w' v recipient)
    from served_keeps[OF ok sent(2) accepted[OF sent(3)]] sent(1) q show ?thesis by (simp add: fileStep_def)
  qed
qed

end

sublocale path_policy_port \<subseteq> invariant_ops "fileStep validate" filesOk
  by unfold_locales (rule fileStep_keeps)

interpretation standard: path_policy_port validatePath
  by unfold_locales (rule validatePath_confined)

section \<open>Theorems\<close>

text \<open>
  C39. Whatever files the tenants send, one request after the other and under any policy configuration, every
  file that is stored has a relative path of plain names inside the workspace, identifiers are
  unique, and every file a channel was given is a stored one that belongs to the tenant who sent it.
\<close>

theorem file_store_confined:
  assumes "filesOk w"
  shows "filesOk (fold (\<lambda>q w. snd (fileStep validatePath q w)) qs w)"
  by (rule standard.run_keeps[OF assms])

definition exampleFileService :: fileService where
  "exampleFileService = \<lparr>fs_userId = ''u'', fs_auditLogs = True, fs_policyConfig = None,
     fs_channelAdapter = Some (\<lambda>_. Inr (None, None))\<rparr>"

definition exampleFile :: sendFileInput where
  "exampleFile = \<lparr>sf_recipient = JString ''chat'', sf_path = JString ''docs//a.txt'', sf_filename = None, sf_size = Some 12,
     sf_mimeType = None, sf_checksum = None, sf_description = None, sf_metadata = None, sf_turnId = None, sf_sessionId = None\<rparr>"

definition exampleWorld :: fileWorld where
  "exampleWorld = \<lparr>fw_files = [], fw_audit = [], fw_delivered = []\<rparr>"

theorem file_store_confined_witness:
  "filesOk (fold (\<lambda>q w. snd (fileStep validatePath q w))
     [(exampleFileService, exampleFile, None, ''file_1'', ''t''), (exampleFileService, exampleFile, None, ''file_2'', ''t'')] exampleWorld)"
  by (rule file_store_confined) (simp add: filesOk_def exampleWorld_def)

text \<open>
  A file that violates the policy leaves no trace but its entry in the audit log: nothing is stored,
  nothing is handed to a channel, and where there is an audit log it grows by exactly one entry.
\<close>

theorem file_refusal_audited:
  assumes "sendFile validatePath svc input over fileId now w = (Inl (PathPolicyViolationError m), w')"
  shows "fw_files w' = fw_files w \<and> fw_delivered w' = fw_delivered w \<and>
    (fs_auditLogs svc \<longrightarrow> (\<exists>a. fw_audit w' = fw_audit w @ [a]))"
proof (cases rule: sendFile_cases[of validatePath svc input over fileId now w])
  case (rejected e as)
  with assms show ?thesis by (auto simp: length_Suc_conv)
qed (use assms in simp)

theorem file_refusal_audited_witness:
  "let input = exampleFile\<lparr>sf_path := JString ''../b.txt''\<rparr>; w' = snd (sendFile validatePath exampleFileService input None ''file_1'' ''t'' exampleWorld)
   in fw_files w' = [] \<and> (\<exists>a. fw_audit w' = [a])"
proof -
  let ?r = "sendFile validatePath exampleFileService (exampleFile\<lparr>sf_path := JString ''../b.txt''\<rparr>) None ''file_1'' ''t'' exampleWorld"
  have "fst ?r = Inl (PathPolicyViolationError ''Path traversal detected. Path must stay within tenant workspace.'')" by code_simp
  then have "?r = (Inl (PathPolicyViolationError ''Path traversal detected. Path must stay within tenant workspace.''), snd ?r)"
    by (metis prod.collapse)
  from file_refusal_audited[OF this] show ?thesis by (simp add: exampleFileService_def exampleWorld_def Let_def)
qed

text \<open>
  The name a file is sent under is not checked: if a file is sent at all, it is sent under any
  other non-empty name as well, one with a blocked extension included, and the channel gets that name
  beside the extension of the path.
\<close>

theorem file_name_unchecked:
  assumes "sendFile validatePath svc input over fileId now w = (Inr res, w')" "name \<noteq> []"
  shows "\<exists>res' w''. sendFile validatePath svc (input\<lparr>sf_filename := Some name\<rparr>) over fileId now w = (Inr res', w'') \<and>
    fm_filename (sr_metadata res') = name \<and> fm_extension (sr_metadata res') = fm_extension (sr_metadata res) \<and>
    (fs_channelAdapter svc \<noteq> None \<longrightarrow> fm_filename (fd_file (last (fw_delivered w''))) = name)"
proof -
  let ?input = "input\<lparr>sf_filename := Some name\<rparr>"
  from assms(1) obtain recipient path v where a: "filled (sf_recipient input) = Some recipient" "filled (sf_path input) = Some path"
      "\<not> (case sf_size input of None \<Rightarrow> False | Some n \<Rightarrow> n > maxSize (mergeConfig (fs_policyConfig svc) over))"
      "validatePath (JString (fs_userId svc)) (sf_path input) (Some (mergeConfig (fs_policyConfig svc) over)) = Inr v"
      "dispatchFile svc input recipient v fileId now w = (Inr res, w')"
    by (auto simp: sendFile_def Let_def split: option.splits if_splits sum.splits)
  have "fileId \<notin> fm_id ` set (fw_files w)" using dispatchFile_refuses[of svc input recipient v fileId now w] a(5) by simp
  with dispatchFile_cases[of svc ?input recipient v fileId now w] dispatchFile_refuses[of svc ?input recipient v fileId now w]
  obtain res' w'' where d: "dispatchFile svc ?input recipient v fileId now w = (Inr res', w'')"
      "served svc recipient v ?input (sr_metadata res') w w''" by auto
  have "served svc recipient v input (sr_metadata res) w w'"
    using dispatchFile_cases[of svc input recipient v fileId now w] a(5) by auto
  moreover have "sendFile validatePath svc ?input over fileId now w = (Inr res', w'')"
    using a(1-4) d(1) by (simp add: sendFile_def Let_def)
  moreover from d(2) obtain ds where "fw_delivered w'' = fw_delivered w @ ds" "list_all (\<lambda>d. fd_file d = sr_metadata res') ds"
      "length ds = (if fs_channelAdapter svc = None then 0 else 1)"
    unfolding served_def list_all_iff by blast
  then have "fs_channelAdapter svc \<noteq> None \<longrightarrow> fd_file (last (fw_delivered w'')) = sr_metadata res'"
    by (auto simp: length_Suc_conv)
  ultimately show ?thesis using d(2) assms(2) by (simp add: served_def textOr_def)
qed

theorem file_name_unchecked_witness:
  "let r = sendFile validatePath exampleFileService (exampleFile\<lparr>sf_filename := Some ''run.exe''\<rparr>) None ''file_1'' ''t'' exampleWorld
   in ''.exe'' \<in> set DEFAULT_BLOCKED_EXTENSIONS \<and> fm_filename (fd_file (last (fw_delivered (snd r)))) = ''run.exe''"
proof -
  let ?r = "sendFile validatePath exampleFileService exampleFile None ''file_1'' ''t'' exampleWorld"
  have "\<not> isl (fst ?r)" by code_simp
  then obtain res where "?r = (Inr res, snd ?r)" by (metis prod.collapse sum.collapse(2))
  from file_name_unchecked[OF this, of "''run.exe''"] show ?thesis
    by (auto simp: exampleFileService_def DEFAULT_BLOCKED_EXTENSIONS_def)
qed

end
