(* ===== verification/Space_Store.thy ===== *)
theory Space_Store
  imports Prelude "HOL-Library.Char_ord" "HOL-Library.List_Lexorder"
begin

text \<open>
  Spaces, session routes, session generations, agent profiles and channel bindings: their types
  (\<open>platform-core/src/types\<close>), the tables of \<open>platform-storage-sqlite/src/schema/migrations.ts\<close> with their keys
  and what deleting a row does to the others, and the repository of spaces
  (\<open>platform-storage-sqlite/src/repos/space-repo.ts\<close>). The schema is the migrated one, with every column; of
  agent profiles and their snapshots the columns that are read here.
  An update of a column that may be \<open>NULL\<close> is an option of an option: \<open>None\<close> is \<open>undefined\<close>, \<open>Some None\<close> is
  \<open>null\<close>. \<open>now\<close> is \<open>CURRENT_TIMESTAMP\<close> as text.
\<close>

section \<open>Rows\<close>

datatype executionMode = Container | Host

datatype lifecycleStatus = Active | Archived | Deleted

record space =
  sp_id :: string
  sp_user :: string
  sp_name :: string
  sp_folder :: string
  sp_mode :: executionMode
  sp_status :: lifecycleStatus
  sp_canonical :: "string option"
  sp_profile :: "string option"
  sp_snapshot :: "string option"
  sp_cache :: "string option"
  sp_window :: "int option"
  sp_created :: string
  sp_updated :: string

record sessionRoute =
  sr_id :: string
  sr_space :: string
  sr_user :: string
  sr_channel :: string
  sr_account :: string
  sr_native :: string
  sr_peer :: string
  sr_dsh :: string
  sr_mode :: executionMode
  sr_status :: lifecycleStatus
  sr_title :: "string option"
  sr_lastReset :: "string option"
  sr_resets :: int
  sr_generation :: int
  sr_profile :: "string option"
  sr_snapshot :: "string option"
  sr_cache :: "string option"
  sr_window :: "int option"
  sr_created :: string
  sr_updated :: string

record sessionGeneration =
  sg_id :: string
  sg_user :: string
  sg_route :: string
  sg_number :: int
  sg_dsh :: string
  sg_snapshot :: "string option"
  sg_reason :: "string option"
  sg_created :: string

record agentProfile =
  ap_id :: string
  ap_user :: string
  ap_activeVersion :: int

record agentProfileSnapshot =
  as_id :: string
  as_user :: string
  as_profile :: string
  as_version :: int
  as_identity :: string
  as_soul :: string
  as_agents :: string
  as_tools :: string

datatype activationMode = Mention | Always

datatype busyMode = Queue | Steer

datatype accountStatus = ActiveAccount | DisabledAccount | UnverifiedAccount

record channelAccount =
  ca_id :: string
  ca_user :: string
  ca_type :: string
  ca_status :: accountStatus
  ca_credential :: "string option"
  ca_defaultSpace :: "string option"
  ca_groupMode :: activationMode
  ca_created :: string
  ca_updated :: string

record channelBinding =
  cb_id :: string
  cb_user :: string
  cb_account :: string
  cb_space :: string
  cb_native :: string
  cb_activation :: activationMode
  cb_busy :: busyMode
  cb_chatType :: "string option"
  cb_route :: "string option"
  cb_created :: string
  cb_updated :: string

record routeDb =
  rt_spaces :: "space list"
  rt_routes :: "sessionRoute list"
  rt_generations :: "sessionGeneration list"
  rt_profiles :: "agentProfile list"
  rt_snapshots :: "agentProfileSnapshot list"
  rt_accounts :: "channelAccount list"
  rt_bindings :: "channelBinding list"

datatype routeError =
    NotFoundError string | ValidationError string | ConflictError string
  | UniqueViolation | ForeignKeyViolation | PlainError string

type_synonym 'a route_op = "(routeDb, routeError, 'a) op"

text \<open>A condition on a value that may be missing.\<close>

fun optAll :: "('a \<Rightarrow> bool) \<Rightarrow> 'a option \<Rightarrow> bool" where
  "optAll P None = True"
| "optAll P (Some x) = P x"

section \<open>Identifiers\<close>

text \<open>\<open>/^[a-zA-Z0-9][a-zA-Z0-9_-]{0,n}$/\<close>.\<close>

definition idPattern :: "nat \<Rightarrow> string \<Rightarrow> bool" where
  "idPattern n s \<longleftrightarrow> s \<noteq> [] \<and> is_alnum (hd s) \<and> list_all (\<lambda>c. is_alnum c \<or> c = CHR ''_'' \<or> c = CHR ''-'') s \<and> length s \<le> Suc n"

definition isValidSpaceId :: "string \<Rightarrow> bool" where
  "isValidSpaceId s \<longleftrightarrow> idPattern 127 s"

definition isValidSessionId :: "string \<Rightarrow> bool" where
  "isValidSessionId s \<longleftrightarrow> idPattern 127 s"

definition isValidGenerationId :: "string \<Rightarrow> bool" where
  "isValidGenerationId s \<longleftrightarrow> idPattern 127 s"

definition validateSpaceId :: "string \<Rightarrow> routeError + string" where
  "validateSpaceId s = (if isValidSpaceId s then Inr s else Inl (ValidationError ''Invalid space ID''))"

definition validateSessionId :: "string \<Rightarrow> routeError + string" where
  "validateSessionId s = (if isValidSessionId s then Inr s else Inl (ValidationError ''Invalid session ID''))"

definition validateGenerationId :: "string \<Rightarrow> routeError + string" where
  "validateGenerationId s = (if isValidGenerationId s then Inr s else Inl (ValidationError ''Invalid generation ID''))"

definition validateProfileId :: "string \<Rightarrow> routeError + string" where
  "validateProfileId s = (if idPattern 127 s then Inr s else Inl (ValidationError ''Invalid profile ID''))"

definition validateSnapshotId :: "string \<Rightarrow> routeError + string" where
  "validateSnapshotId s = (if idPattern 127 s then Inr s else Inl (ValidationError ''Invalid snapshot ID''))"

definition validateSpaceFolder :: "string \<Rightarrow> routeError + string" where
  "validateSpaceFolder s = (if idPattern 63 s then Inr s else Inl (ValidationError ''Invalid space folder format''))"

section \<open>Statements the repositories share\<close>

definition ownSpace :: "string \<Rightarrow> string \<Rightarrow> space \<Rightarrow> bool" where
  "ownSpace u i s \<longleftrightarrow> sp_id s = i \<and> sp_user s = u"

definition ownRoute :: "string \<Rightarrow> string \<Rightarrow> sessionRoute \<Rightarrow> bool" where
  "ownRoute u i r \<longleftrightarrow> sr_id r = i \<and> sr_user r = u"

definition getSpace :: "string \<Rightarrow> string \<Rightarrow> routeDb \<Rightarrow> space option" where
  "getSpace u i db = tbl_get (ownSpace u i) (rt_spaces db)"

text \<open>The binding of a profile or a snapshot by its identifier, as \<open>create\<close> and \<open>update\<close> check it.\<close>

definition checkProfile :: "string \<Rightarrow> string option \<Rightarrow> routeDb \<Rightarrow> routeError + string option" where
  "checkProfile u p db =
     (case p of None \<Rightarrow> Inr None | Some i \<Rightarrow>
        andThen (validateProfileId i) (\<lambda>i.
          if tbl_get (\<lambda>x. ap_id x = i \<and> ap_user x = u) (rt_profiles db) = None
          then Inl (NotFoundError ''Agent profile not found'') else Inr (Some i)))"

definition checkSnapshot :: "string \<Rightarrow> string option \<Rightarrow> routeDb \<Rightarrow> routeError + string option" where
  "checkSnapshot u p db =
     (case p of None \<Rightarrow> Inr None | Some i \<Rightarrow>
        andThen (validateSnapshotId i) (\<lambda>i.
          if tbl_get (\<lambda>x. as_id x = i \<and> as_user x = u) (rt_snapshots db) = None
          then Inl (NotFoundError ''Agent profile snapshot not found'') else Inr (Some i)))"

definition checkPatch :: "('a \<Rightarrow> routeError + 'a) \<Rightarrow> 'a option \<Rightarrow> routeError + 'a option" where
  "checkPatch f p = (case p of None \<Rightarrow> Inr None | Some x \<Rightarrow> andThen (f x) (\<lambda>y. Inr (Some y)))"

definition patched :: "'a option \<Rightarrow> 'a \<Rightarrow> 'a" where
  "patched p x = (case p of None \<Rightarrow> x | Some y \<Rightarrow> y)"

text \<open>
  The foreign keys: deleting a route deletes its generations and clears the pointers to it, deleting a
  space deletes its routes and bindings and clears the default of accounts.
\<close>

definition clearRoutes :: "(string \<Rightarrow> bool) \<Rightarrow> routeDb \<Rightarrow> routeDb" where
  "clearRoutes gone db = db\<lparr>
     rt_routes := filter (\<lambda>r. \<not> gone (sr_id r)) (rt_routes db),
     rt_generations := filter (\<lambda>g. \<not> gone (sg_route g)) (rt_generations db),
     rt_spaces := map (\<lambda>s. if optAll gone (sp_canonical s) then s\<lparr>sp_canonical := None\<rparr> else s) (rt_spaces db),
     rt_bindings := map (\<lambda>b. if optAll gone (cb_route b) then b\<lparr>cb_route := None\<rparr> else b) (rt_bindings db)\<rparr>"

definition clearSpace :: "string \<Rightarrow> routeDb \<Rightarrow> routeDb" where
  "clearSpace i db =
     (let routes = map sr_id (filter (\<lambda>r. sr_space r = i) (rt_routes db)); db1 = clearRoutes (\<lambda>x. x \<in> set routes) db in
      db1\<lparr>rt_spaces := filter (\<lambda>s. sp_id s \<noteq> i) (rt_spaces db1), rt_bindings := filter (\<lambda>b. cb_space b \<noteq> i) (rt_bindings db1),
          rt_accounts := map (\<lambda>a. if ca_defaultSpace a = Some i then a\<lparr>ca_defaultSpace := None\<rparr> else a) (rt_accounts db1)\<rparr>)"

definition hasRoute :: "string \<Rightarrow> routeDb \<Rightarrow> bool" where
  "hasRoute i db \<longleftrightarrow> i \<in> sr_id ` set (rt_routes db)"

section \<open>The repository of spaces\<close>

record createSpaceInput =
  si_id :: "string option"
  si_name :: string
  si_folder :: string
  si_mode :: "executionMode option"
  si_status :: "lifecycleStatus option"
  si_canonical :: "string option"
  si_profile :: "string option"
  si_snapshot :: "string option"
  si_cache :: "string option"
  si_window :: "int option"

definition findSpaceById :: "string \<Rightarrow> string \<Rightarrow> routeDb \<Rightarrow> space option" where
  "findSpaceById u i db = (if isValidSpaceId i then getSpace u i db else None)"

definition findByFolder :: "string \<Rightarrow> string \<Rightarrow> routeDb \<Rightarrow> space option" where
  "findByFolder u folder db = tbl_get (\<lambda>s. sp_folder s = folder \<and> sp_user s = u) (rt_spaces db)"

definition insertSpace :: "space \<Rightarrow> unit route_op" where
  "insertSpace s db =
     (if (\<exists>x \<in> set (rt_spaces db). sp_id x = sp_id s \<or> (sp_user x = sp_user s \<and> sp_folder x = sp_folder s)) then (Inl UniqueViolation, db)
      else if \<not> optAll (\<lambda>i. hasRoute i db) (sp_canonical s) then (Inl ForeignKeyViolation, db)
      else (Inr (), db\<lparr>rt_spaces := rt_spaces db @ [s]\<rparr>))"

definition fetchSpace :: "string \<Rightarrow> string \<Rightarrow> space route_op" where
  "fetchSpace u i db = (case findSpaceById u i db of None \<Rightarrow> (Inl (NotFoundError ''Space not found''), db) | Some s \<Rightarrow> (Inr s, db))"

definition createSpace :: "string \<Rightarrow> createSpaceInput \<Rightarrow> string \<Rightarrow> string \<Rightarrow> space route_op" where
  "createSpace u input newId now db =
     check (case si_id input of None \<Rightarrow> Inr newId | Some i \<Rightarrow> validateSpaceId i) (\<lambda>i.
     check (if js_trim (si_name input) = [] then Inl (ValidationError ''Invalid space name'') else Inr ()) (\<lambda>_.
     check (validateSpaceFolder (si_folder input)) (\<lambda>folder.
     check (checkProfile u (si_profile input) db) (\<lambda>profile.
     check (checkSnapshot u (si_snapshot input) db) (\<lambda>snapshot.
     seq (insertSpace \<lparr>sp_id = i, sp_user = u, sp_name = si_name input, sp_folder = folder,
            sp_mode = (case si_mode input of None \<Rightarrow> Container | Some m \<Rightarrow> m),
            sp_status = (case si_status input of None \<Rightarrow> Active | Some st \<Rightarrow> st),
            sp_canonical = (if opt_truthy (si_canonical input) then si_canonical input else None),
            sp_profile = profile, sp_snapshot = snapshot, sp_cache = si_cache input, sp_window = si_window input,
            sp_created = now, sp_updated = now\<rparr>) (\<lambda>_.
     fetchSpace u i)))))) db"

record updateSpaceInput =
  su_name :: "string option"
  su_folder :: "string option"
  su_mode :: "executionMode option"   \<comment> \<open>read by nothing\<close>
  su_status :: "lifecycleStatus option"
  su_canonical :: "string option option"
  su_profile :: "string option option"
  su_snapshot :: "string option option"
  su_cache :: "string option option"
  su_window :: "int option option"

definition applySpaceUpdate :: "updateSpaceInput \<Rightarrow> string \<Rightarrow> space \<Rightarrow> space" where
  "applySpaceUpdate input now s =
     s\<lparr>sp_name := patched (su_name input) (sp_name s), sp_folder := patched (su_folder input) (sp_folder s),
       sp_status := patched (su_status input) (sp_status s), sp_canonical := patched (su_canonical input) (sp_canonical s),
       sp_profile := patched (su_profile input) (sp_profile s), sp_snapshot := patched (su_snapshot input) (sp_snapshot s),
       sp_cache := patched (su_cache input) (sp_cache s), sp_window := patched (su_window input) (sp_window s),
       sp_updated := now\<rparr>"

text \<open>The key \<open>UNIQUE (user_id, folder)\<close> an update may violate.\<close>

definition folderTaken :: "string \<Rightarrow> string \<Rightarrow> string option \<Rightarrow> routeDb \<Rightarrow> bool" where
  "folderTaken u i folder db \<longleftrightarrow>
     folder \<noteq> None \<and> (\<exists>x \<in> set (rt_spaces db). sp_user x = u \<and> Some (sp_folder x) = folder \<and> sp_id x \<noteq> i)"

definition updateSpace :: "string \<Rightarrow> string \<Rightarrow> updateSpaceInput \<Rightarrow> string \<Rightarrow> space route_op" where
  "updateSpace u i input now db =
     check (validateSpaceId i) (\<lambda>i.
     check (if getSpace u i db = None then Inl (NotFoundError ''Space not found'') else Inr ()) (\<lambda>_.
     check (if (case su_name input of None \<Rightarrow> False | Some n \<Rightarrow> js_trim n = []) then Inl (ValidationError ''Invalid space name'') else Inr ()) (\<lambda>_.
     check (checkPatch validateSpaceFolder (su_folder input)) (\<lambda>_.
     check (checkPatch (\<lambda>p. checkProfile u p db) (su_profile input)) (\<lambda>_.
     check (checkPatch (\<lambda>p. checkSnapshot u p db) (su_snapshot input)) (\<lambda>_ db.
       if folderTaken u i (su_folder input) db
       then (Inl UniqueViolation, db)
       else if \<not> optAll (optAll (\<lambda>c. hasRoute c db)) (su_canonical input) then (Inl ForeignKeyViolation, db)
       else fetchSpace u i (db\<lparr>rt_spaces := tbl_update (ownSpace u i) (applySpaceUpdate input now) (rt_spaces db)\<rparr>))))))) db"

definition noSpaceUpdate :: updateSpaceInput where
  "noSpaceUpdate = \<lparr>su_name = None, su_folder = None, su_mode = None, su_status = None, su_canonical = None, su_profile = None, su_snapshot = None,
     su_cache = None, su_window = None\<rparr>"

definition archiveSpace :: "string \<Rightarrow> string \<Rightarrow> string \<Rightarrow> space route_op" where
  "archiveSpace u i now = updateSpace u i (noSpaceUpdate\<lparr>su_status := Some Archived\<rparr>) now"

definition restoreSpace :: "string \<Rightarrow> string \<Rightarrow> string \<Rightarrow> space route_op" where
  "restoreSpace u i now = updateSpace u i (noSpaceUpdate\<lparr>su_status := Some Active\<rparr>) now"

definition deleteSpace :: "string \<Rightarrow> string \<Rightarrow> bool route_op" where
  "deleteSpace u i db =
     (if \<not> isValidSpaceId i \<or> getSpace u i db = None then (Inr False, db) else (Inr True, clearSpace i db))"

text \<open>\<open>LIMIT\<close> and \<open>OFFSET\<close> are added for truthy numbers; SQLite takes a negative limit as none.\<close>

definition limitOffset :: "int option \<Rightarrow> int option \<Rightarrow> 'r list \<Rightarrow> 'r list" where
  "limitOffset limit offset rows =
     (case limit of None \<Rightarrow> rows | Some n \<Rightarrow>
        if n = 0 then rows
        else
          let rest = drop (nat (case offset of None \<Rightarrow> 0 | Some k \<Rightarrow> k)) rows in
          if n < 0 then rest else take (nat n) rest)"

definition listSpaces :: "string \<Rightarrow> lifecycleStatus option \<Rightarrow> int option \<Rightarrow> int option \<Rightarrow> routeDb \<Rightarrow> space list" where
  "listSpaces u st limit offset db =
     limitOffset limit offset (sort_key sp_created
       (filter (\<lambda>s. sp_user s = u \<and> (case st of None \<Rightarrow> True | Some x \<Rightarrow> sp_status s = x)) (rt_spaces db)))"

section \<open>The profile in effect\<close>

datatype profileSource = FromRoute | FromSpace | FromNone

record effectiveAgentProfile =
  ep_source :: profileSource
  ep_profileId :: "string option"
  ep_snapshotId :: "string option"
  ep_version :: "int option"
  ep_sections :: "string \<times> string \<times> string \<times> string"
  ep_composedPrompt :: string

definition promptBlock :: "string \<Rightarrow> string \<Rightarrow> string list" where
  "promptBlock title section = (if js_trim section = [] then [] else [''### '' @ title @ CHR 0x0A # js_trim section])"

fun joinBlocks :: "string list \<Rightarrow> string" where
  "joinBlocks [] = []"
| "joinBlocks [b] = b"
| "joinBlocks (b # c # bs) = b @ [CHR 0x0A, CHR 0x0A] @ joinBlocks (c # bs)"

definition composeAgentProfilePrompt :: "agentProfileSnapshot \<Rightarrow> string" where
  "composeAgentProfilePrompt s = joinBlocks (promptBlock ''AGENT IDENTITY'' (as_identity s) @ promptBlock ''AGENT SOUL'' (as_soul s) @
     promptBlock ''SUB-AGENTS & DELEGATION'' (as_agents s) @ promptBlock ''TOOLS GUIDELINES'' (as_tools s))"

definition noProfile :: effectiveAgentProfile where
  "noProfile = \<lparr>ep_source = FromNone, ep_profileId = None, ep_snapshotId = None, ep_version = None, ep_sections = ([], [], [], []),
     ep_composedPrompt = []\<rparr>"

definition profileOf :: "profileSource \<Rightarrow> string \<Rightarrow> agentProfileSnapshot \<Rightarrow> effectiveAgentProfile" where
  "profileOf source profileId s = \<lparr>ep_source = source, ep_profileId = Some profileId, ep_snapshotId = Some (as_id s),
     ep_version = Some (as_version s), ep_sections = (as_identity s, as_soul s, as_agents s, as_tools s),
     ep_composedPrompt = composeAgentProfilePrompt s\<rparr>"

text \<open>The snapshot bound directly, else the active version of the profile bound.\<close>

definition boundSnapshot :: "string \<Rightarrow> string option \<Rightarrow> string option \<Rightarrow> routeDb \<Rightarrow> (string \<times> agentProfileSnapshot) option" where
  "boundSnapshot u snapshotId profileId db =
     (let direct = (if opt_truthy snapshotId then tbl_get (\<lambda>s. as_id s = the snapshotId \<and> as_user s = u) (rt_snapshots db) else None);
          profile = (if opt_truthy profileId then tbl_get (\<lambda>p. ap_id p = the profileId \<and> ap_user p = u) (rt_profiles db) else None) in
      case direct of Some s \<Rightarrow> Some (as_profile s, s) | None \<Rightarrow>
        (case profile of None \<Rightarrow> None | Some p \<Rightarrow>
           map_option (\<lambda>s. (ap_id p, s))
             (tbl_get (\<lambda>s. as_profile s = ap_id p \<and> as_version s = ap_activeVersion p \<and> as_user s = u) (rt_snapshots db))))"

definition resolveSpaceProfile :: "string \<Rightarrow> string \<Rightarrow> routeDb \<Rightarrow> effectiveAgentProfile" where
  "resolveSpaceProfile u spaceId db =
     (case findSpaceById u spaceId db of None \<Rightarrow> noProfile | Some sp \<Rightarrow>
        (case boundSnapshot u (sp_snapshot sp) (sp_profile sp) db of None \<Rightarrow> noProfile | Some (p, s) \<Rightarrow> profileOf FromSpace p s))"

end
