(* ===== verification/Session_Routes.thy ===== *)
theory Session_Routes
  imports Space_Store
begin

text \<open>
  The repositories of session routes and of session generations
  (\<open>platform-storage-sqlite/src/repos/session-route-repo.ts\<close>, \<open>session-generation-repo.ts\<close>). A route connects a
  context of a channel, a chat or a web session, with a session of the agent host; a generation records
  each host session the route has had. \<open>now\<close> is \<open>CURRENT_TIMESTAMP\<close>, \<open>nowIso\<close> the clock of a reset; identifiers
  that are generated are arguments.
\<close>

section \<open>Reading routes\<close>

text \<open>A row as \<open>parseSessionRouteRow\<close> returns it: an empty peer is read as the native context.\<close>

definition readRoute :: "sessionRoute \<Rightarrow> sessionRoute" where
  "readRoute r = r\<lparr>sr_peer := (if sr_peer r = [] then sr_native r else sr_peer r)\<rparr>"

definition getRoute :: "string \<Rightarrow> string \<Rightarrow> routeDb \<Rightarrow> sessionRoute option" where
  "getRoute u i db = map_option readRoute (tbl_get (ownRoute u i) (rt_routes db))"

definition findRouteById :: "string \<Rightarrow> string \<Rightarrow> routeDb \<Rightarrow> sessionRoute option" where
  "findRouteById u i db = (if isValidSessionId i then getRoute u i db else None)"

definition sameIdentity :: "string \<Rightarrow> string \<Rightarrow> string \<Rightarrow> string \<Rightarrow> sessionRoute \<Rightarrow> bool" where
  "sameIdentity u channel account native r \<longleftrightarrow>
     sr_user r = u \<and> sr_channel r = channel \<and> sr_account r = account \<and> sr_native r = native"

definition findByRouteIdentity :: "string \<Rightarrow> string \<Rightarrow> string \<Rightarrow> string \<Rightarrow> routeDb \<Rightarrow> sessionRoute option" where
  "findByRouteIdentity u channel account native db =
     map_option readRoute (tbl_get (sameIdentity u channel account native) (rt_routes db))"

definition findByPeer :: "string \<Rightarrow> string \<Rightarrow> string \<Rightarrow> routeDb \<Rightarrow> sessionRoute option" where
  "findByPeer u channel peer db =
     map_option readRoute (tbl_get (\<lambda>r. sr_user r = u \<and> sr_channel r = channel \<and> (sr_peer r = peer \<or> sr_native r = peer)) (rt_routes db))"

definition findByDshSessionId :: "string \<Rightarrow> string \<Rightarrow> routeDb \<Rightarrow> sessionRoute option" where
  "findByDshSessionId u dsh db =
     (if isValidSessionId dsh then map_option readRoute (tbl_get (\<lambda>r. sr_dsh r = dsh \<and> sr_user r = u) (rt_routes db)) else None)"

definition inSpace :: "string \<Rightarrow> string \<Rightarrow> lifecycleStatus option \<Rightarrow> sessionRoute \<Rightarrow> bool" where
  "inSpace u spaceId st r \<longleftrightarrow> sr_space r = spaceId \<and> sr_user r = u \<and> (case st of None \<Rightarrow> True | Some x \<Rightarrow> sr_status r = x)"

definition listBySpaceId :: "string \<Rightarrow> string \<Rightarrow> lifecycleStatus option \<Rightarrow> routeDb \<Rightarrow> sessionRoute list" where
  "listBySpaceId u spaceId st db = map readRoute (sort_key sr_created (filter (inSpace u spaceId st) (rt_routes db)))"

definition countBySpaceId :: "string \<Rightarrow> string \<Rightarrow> lifecycleStatus option \<Rightarrow> routeDb \<Rightarrow> nat" where
  "countBySpaceId u spaceId st db = length (filter (inSpace u spaceId st) (rt_routes db))"

definition listRoutes :: "string \<Rightarrow> lifecycleStatus option \<Rightarrow> int option \<Rightarrow> int option \<Rightarrow> routeDb \<Rightarrow> sessionRoute list" where
  "listRoutes u st limit offset db =
     map readRoute (limitOffset limit offset (sort_key sr_created
       (filter (\<lambda>r. sr_user r = u \<and> (case st of None \<Rightarrow> True | Some x \<Rightarrow> sr_status r = x)) (rt_routes db))))"

section \<open>Inserting\<close>

definition insertRoute :: "sessionRoute \<Rightarrow> unit route_op" where
  "insertRoute r db =
     (if (\<exists>x \<in> set (rt_routes db). sr_id x = sr_id r \<or> sameIdentity (sr_user r) (sr_channel r) (sr_account r) (sr_native r) x)
      then (Inl UniqueViolation, db)
      else if sr_space r \<notin> sp_id ` set (rt_spaces db) then (Inl ForeignKeyViolation, db)
      else (Inr (), db\<lparr>rt_routes := rt_routes db @ [r]\<rparr>))"

definition insertGeneration :: "sessionGeneration \<Rightarrow> unit route_op" where
  "insertGeneration g db =
     (if (\<exists>x \<in> set (rt_generations db). sg_id x = sg_id g \<or> (sg_route x = sg_route g \<and> sg_number x = sg_number g))
      then (Inl UniqueViolation, db)
      else if \<not> hasRoute (sg_route g) db \<or> \<not> optAll (\<lambda>i. i \<in> as_id ` set (rt_snapshots db)) (sg_snapshot g)
      then (Inl ForeignKeyViolation, db)
      else (Inr (), db\<lparr>rt_generations := rt_generations db @ [g]\<rparr>))"

definition fetchRoute :: "string \<Rightarrow> string \<Rightarrow> string \<Rightarrow> sessionRoute route_op" where
  "fetchRoute u i message db = (case getRoute u i db of None \<Rightarrow> (Inl (NotFoundError message), db) | Some r \<Rightarrow> (Inr r, db))"

text \<open>The row of a route, and with it the row of its first generation.\<close>

definition insertWithGeneration :: "sessionRoute \<Rightarrow> string \<Rightarrow> string option \<Rightarrow> string \<Rightarrow> unit route_op" where
  "insertWithGeneration r genId snapshot now =
     seq (insertRoute r) (\<lambda>_.
       insertGeneration \<lparr>sg_id = genId, sg_user = sr_user r, sg_route = sr_id r, sg_number = 1, sg_dsh = sr_dsh r,
         sg_snapshot = snapshot, sg_reason = Some ''initial'', sg_created = now\<rparr>)"

record createRouteInput =
  ri_id :: "string option"
  ri_space :: string
  ri_channel :: string
  ri_account :: "string option"
  ri_native :: string
  ri_peer :: "string option"
  ri_dsh :: string
  ri_mode :: "executionMode option"
  ri_status :: "lifecycleStatus option"
  ri_title :: "string option"
  ri_profile :: "string option"
  ri_snapshot :: "string option"
  ri_cache :: "string option"
  ri_window :: "int option"

definition routeRow :: "string \<Rightarrow> createRouteInput \<Rightarrow> string \<Rightarrow> executionMode \<Rightarrow> string \<Rightarrow> string option \<Rightarrow> string option \<Rightarrow> string \<Rightarrow> sessionRoute" where
  "routeRow u input i mode dsh profile snapshot now =
     \<lparr>sr_id = i, sr_space = ri_space input, sr_user = u, sr_channel = ri_channel input,
      sr_account = (case ri_account input of None \<Rightarrow> ''default'' | Some a \<Rightarrow> a), sr_native = ri_native input,
      sr_peer = (case ri_peer input of None \<Rightarrow> ri_native input | Some p \<Rightarrow> p), sr_dsh = dsh, sr_mode = mode,
      sr_status = (case ri_status input of None \<Rightarrow> Active | Some st \<Rightarrow> st), sr_title = ri_title input, sr_lastReset = None,
      sr_resets = 0, sr_generation = 1, sr_profile = profile, sr_snapshot = snapshot, sr_cache = ri_cache input,
      sr_window = ri_window input, sr_created = now, sr_updated = now\<rparr>"

definition requireText :: "bool \<Rightarrow> string \<Rightarrow> routeError + unit" where
  "requireText ok message = (if ok then Inr () else Inl (ValidationError message))"

definition createRoute :: "string \<Rightarrow> createRouteInput \<Rightarrow> string \<Rightarrow> string \<Rightarrow> string \<Rightarrow> sessionRoute route_op" where
  "createRoute u input newId genId now db =
     check (case ri_id input of None \<Rightarrow> Inr newId | Some i \<Rightarrow> validateSessionId i) (\<lambda>i.
     check (validateSpaceId (ri_space input)) (\<lambda>_.
     check (case getSpace u (ri_space input) db of None \<Rightarrow> Inl (NotFoundError ''Space not found'') | Some sp \<Rightarrow> Inr sp) (\<lambda>sp.
     check (if (case ri_mode input of None \<Rightarrow> False | Some m \<Rightarrow> m \<noteq> sp_mode sp)
        then Inl (ValidationError ''Session executionMode cannot override or mismatch space executionMode'') else Inr ()) (\<lambda>_.
     check (requireText (js_trim (ri_channel input) \<noteq> []) ''Invalid channel'') (\<lambda>_.
     check (requireText (js_trim (ri_native input) \<noteq> []) ''Invalid native context ID'') (\<lambda>_.
     check (requireText (ri_dsh input \<noteq> []) ''dshSessionId is required to create session route'') (\<lambda>_.
     check (validateSessionId (ri_dsh input)) (\<lambda>dsh.
     check (checkProfile u (ri_profile input) db) (\<lambda>profile.
     check (checkSnapshot u (ri_snapshot input) db) (\<lambda>snapshot.
       let initial = (if opt_truthy snapshot then snapshot else if opt_truthy (sp_snapshot sp) then sp_snapshot sp else snapshot) in
       withImmediateTransactionSync
         (seq (insertWithGeneration (routeRow u input i (sp_mode sp) dsh profile snapshot now) genId initial now) (\<lambda>_.
            fetchRoute u i ''Session route not found'')))))))))))) db"

section \<open>Updating, resetting, deleting\<close>

record updateRouteInput =
  ru_space :: "string option"
  ru_dsh :: "string option"
  ru_status :: "lifecycleStatus option"
  ru_title :: "string option option"
  ru_profile :: "string option option"
  ru_snapshot :: "string option option"
  ru_cache :: "string option option"
  ru_window :: "int option option"

definition applyRouteUpdate :: "updateRouteInput \<Rightarrow> string \<Rightarrow> sessionRoute \<Rightarrow> sessionRoute" where
  "applyRouteUpdate input now r =
     r\<lparr>sr_space := patched (ru_space input) (sr_space r), sr_dsh := patched (ru_dsh input) (sr_dsh r),
       sr_status := patched (ru_status input) (sr_status r), sr_title := patched (ru_title input) (sr_title r),
       sr_profile := patched (ru_profile input) (sr_profile r), sr_snapshot := patched (ru_snapshot input) (sr_snapshot r),
       sr_cache := patched (ru_cache input) (sr_cache r), sr_window := patched (ru_window input) (sr_window r), sr_updated := now\<rparr>"

definition updateRoutes :: "string \<Rightarrow> string \<Rightarrow> (sessionRoute \<Rightarrow> sessionRoute) \<Rightarrow> routeDb \<Rightarrow> routeDb" where
  "updateRoutes u i f db = db\<lparr>rt_routes := tbl_update (ownRoute u i) f (rt_routes db)\<rparr>"

definition updateRoute :: "string \<Rightarrow> string \<Rightarrow> updateRouteInput \<Rightarrow> string \<Rightarrow> sessionRoute route_op" where
  "updateRoute u i input now db =
     check (validateSessionId i) (\<lambda>i.
     check (if getRoute u i db = None then Inl (NotFoundError ''Session route not found'') else Inr ()) (\<lambda>_.
     check (checkPatch (\<lambda>s. andThen (validateSpaceId s) (\<lambda>s.
        if getSpace u s db = None then Inl (NotFoundError ''Space not found'') else Inr s)) (ru_space input)) (\<lambda>_.
     check (checkPatch validateSessionId (ru_dsh input)) (\<lambda>_.
     check (checkPatch (\<lambda>p. checkProfile u p db) (ru_profile input)) (\<lambda>_.
     check (checkPatch (\<lambda>p. checkSnapshot u p db) (ru_snapshot input)) (\<lambda>_ db.
       fetchRoute u i ''Session route not found'' (updateRoutes u i (applyRouteUpdate input now) db))))))) db"

definition noRouteUpdate :: updateRouteInput where
  "noRouteUpdate = \<lparr>ru_space = None, ru_dsh = None, ru_status = None, ru_title = None, ru_profile = None, ru_snapshot = None,
     ru_cache = None, ru_window = None\<rparr>"

definition archiveRoute :: "string \<Rightarrow> string \<Rightarrow> string \<Rightarrow> sessionRoute route_op" where
  "archiveRoute u i now = updateRoute u i (noRouteUpdate\<lparr>ru_status := Some Archived\<rparr>) now"

definition restoreRoute :: "string \<Rightarrow> string \<Rightarrow> string \<Rightarrow> sessionRoute route_op" where
  "restoreRoute u i now = updateRoute u i (noRouteUpdate\<lparr>ru_status := Some Active\<rparr>) now"

record resetRouteInput =
  rs_dsh :: string
  rs_reason :: "string option"
  rs_snapshot :: "string option option"

definition applyReset :: "string \<Rightarrow> string option \<Rightarrow> string \<Rightarrow> string \<Rightarrow> sessionRoute \<Rightarrow> sessionRoute \<Rightarrow> sessionRoute" where
  "applyReset dsh snapshot nowIso now route r =
     r\<lparr>sr_generation := sr_generation route + 1, sr_resets := sr_resets route + 1, sr_lastReset := Some nowIso, sr_dsh := dsh,
       sr_snapshot := snapshot, sr_updated := now\<rparr>"

definition resetSnapshot :: "string \<Rightarrow> resetRouteInput \<Rightarrow> sessionRoute \<Rightarrow> routeDb \<Rightarrow> routeError + string option" where
  "resetSnapshot u input route db = (case rs_snapshot input of None \<Rightarrow> Inr (sr_snapshot route) | Some p \<Rightarrow> checkSnapshot u p db)"

text \<open>The two writes of a reset, and the rows read back.\<close>

definition resetRows :: "sessionGeneration \<Rightarrow> string \<Rightarrow> string \<Rightarrow> sessionRoute \<Rightarrow> (sessionRoute \<times> sessionGeneration) route_op" where
  "resetRows g nowIso now route =
     seq (insertGeneration g) (\<lambda>_ db.
       let db1 = updateRoutes (sg_user g) (sg_route g) (applyReset (sg_dsh g) (sg_snapshot g) nowIso now route) db in
       case getRoute (sg_user g) (sg_route g) db1 of
         None \<Rightarrow> (Inl (NotFoundError ''Session route not found''), db1)
       | Some route' \<Rightarrow>
           (case tbl_get (\<lambda>x. sg_id x = sg_id g \<and> sg_user x = sg_user g) (rt_generations db1) of
              None \<Rightarrow> (Inl (NotFoundError ''Session route not found''), db1)
            | Some generation \<Rightarrow> (Inr (route', generation), db1)))"

definition resetRoute :: "string \<Rightarrow> string \<Rightarrow> resetRouteInput \<Rightarrow> string \<Rightarrow> string \<Rightarrow> string \<Rightarrow> (sessionRoute \<times> sessionGeneration) route_op" where
  "resetRoute u i input genId nowIso now =
     check (validateSessionId i) (\<lambda>i.
     check (requireText (rs_dsh input \<noteq> []) ''dshSessionId is required for session reset'') (\<lambda>_.
     check (validateSessionId (rs_dsh input)) (\<lambda>dsh.
     withImmediateTransactionSync (\<lambda>db.
       case getRoute u i db of None \<Rightarrow> (Inl (NotFoundError ''Session route not found''), db) | Some route \<Rightarrow>
       check (resetSnapshot u input route db) (\<lambda>snapshot.
       resetRows \<lparr>sg_id = genId, sg_user = u, sg_route = i, sg_number = sr_generation route + 1, sg_dsh = dsh, sg_snapshot = snapshot,
         sg_reason = rs_reason input, sg_created = now\<rparr> nowIso now route) db))))"

definition deleteRoute :: "string \<Rightarrow> string \<Rightarrow> bool route_op" where
  "deleteRoute u i db =
     (if \<not> isValidSessionId i \<or> getRoute u i db = None then (Inr False, db) else (Inr True, clearRoutes (\<lambda>x. x = i) db))"

definition resolveRouteProfile :: "string \<Rightarrow> string \<Rightarrow> routeDb \<Rightarrow> effectiveAgentProfile" where
  "resolveRouteProfile u routeId db =
     (case findRouteById u routeId db of None \<Rightarrow> noProfile | Some r \<Rightarrow>
        (case boundSnapshot u (sr_snapshot r) (sr_profile r) db of
           None \<Rightarrow> resolveSpaceProfile u (sr_space r) db
         | Some (p, s) \<Rightarrow> profileOf FromRoute p s))"

section \<open>The canonical session of a space\<close>

record canonicalOptions =
  co_forceNew :: bool
  co_channel :: "string option"
  co_account :: "string option"
  co_native :: "string option"
  co_peer :: "string option"
  co_title :: "string option"

record canonicalIds =
  ci_session :: string
  ci_dsh :: string
  ci_generation :: string

definition textOrElse :: "string option \<Rightarrow> string \<Rightarrow> string" where
  "textOrElse a b = (case a of None \<Rightarrow> b | Some s \<Rightarrow> if s = [] then b else s)"

text \<open>The execution mode of the space is written to a route that differs, and to the answer.\<close>

definition alignMode :: "string \<Rightarrow> executionMode \<Rightarrow> string \<Rightarrow> sessionRoute \<Rightarrow> routeDb \<Rightarrow> sessionRoute \<times> routeDb" where
  "alignMode u mode now r db =
     (if sr_mode r = mode then (r, db)
      else (r\<lparr>sr_mode := mode\<rparr>, updateRoutes u (sr_id r) (\<lambda>x. x\<lparr>sr_mode := mode, sr_updated := now\<rparr>) db))"

definition setCanonical :: "string \<Rightarrow> string \<Rightarrow> string \<Rightarrow> string \<Rightarrow> routeDb \<Rightarrow> routeDb" where
  "setCanonical u spaceId i now db =
     db\<lparr>rt_spaces := tbl_update (ownSpace u spaceId) (\<lambda>s. s\<lparr>sp_canonical := Some i, sp_updated := now\<rparr>) (rt_spaces db)\<rparr>"

definition routeInSpace :: "string \<Rightarrow> string \<Rightarrow> string \<Rightarrow> sessionRoute \<Rightarrow> bool" where
  "routeInSpace u spaceId i r \<longleftrightarrow> sr_id r = i \<and> sr_space r = spaceId \<and> sr_user r = u"

text \<open>Routes of other channels before those of the web, then the oldest, then the smallest identifier.\<close>

definition candidateLess :: "sessionRoute \<Rightarrow> sessionRoute \<Rightarrow> bool" where
  "candidateLess a b \<longleftrightarrow>
     (let wa = (sr_channel a = ''web''); wb = (sr_channel b = ''web'') in
      if wa \<noteq> wb then wb
      else if sr_created a \<noteq> sr_created b then sr_created a < sr_created b else sr_id a < sr_id b)"

fun bestCandidate :: "sessionRoute list \<Rightarrow> sessionRoute option" where
  "bestCandidate [] = None"
| "bestCandidate (r # rs) = (case bestCandidate rs of None \<Rightarrow> Some r | Some b \<Rightarrow> if candidateLess b r then Some b else Some r)"

text \<open>The row of a new session: a context that is taken gives way to the identifier of the session.\<close>

definition canonicalRow :: "string \<Rightarrow> space \<Rightarrow> canonicalOptions \<Rightarrow> canonicalIds \<Rightarrow> string \<Rightarrow> routeDb \<Rightarrow> sessionRoute" where
  "canonicalRow u sp options ids now db =
     (let i = ci_session ids; channel = textOrElse (co_channel options) ''web''; account = textOrElse (co_account options) ''default'';
          taken = tbl_get (sameIdentity u channel account (textOrElse (co_native options) i)) (rt_routes db) \<noteq> None in
      \<lparr>sr_id = i, sr_space = sp_id sp, sr_user = u, sr_channel = channel, sr_account = account,
       sr_native = (if taken then i else textOrElse (co_native options) i),
       sr_peer = (if taken then channel @ '':'' @ i else textOrElse (co_peer options) (channel @ '':'' @ i)),
       sr_dsh = ci_dsh ids, sr_mode = sp_mode sp, sr_status = Active, sr_title = co_title options, sr_lastReset = None,
       sr_resets = 0, sr_generation = 1, sr_profile = sp_profile sp, sr_snapshot = sp_snapshot sp, sr_cache = None,
       sr_window = None, sr_created = now, sr_updated = now\<rparr>)"

definition hasActiveCanonical :: "string \<Rightarrow> space \<Rightarrow> routeDb \<Rightarrow> bool" where
  "hasActiveCanonical u sp db \<longleftrightarrow> opt_truthy (sp_canonical sp) \<and>
     tbl_get (\<lambda>r. routeInSpace u (sp_id sp) (the (sp_canonical sp)) r \<and> sr_status r = Active) (rt_routes db) \<noteq> None"

definition createCanonical :: "string \<Rightarrow> space \<Rightarrow> canonicalOptions \<Rightarrow> canonicalIds \<Rightarrow> string \<Rightarrow> sessionRoute route_op" where
  "createCanonical u sp options ids now db =
     seq (insertWithGeneration (canonicalRow u sp options ids now db) (ci_generation ids) (sp_snapshot sp) now) (\<lambda>_ db.
       fetchRoute u (ci_session ids) ''Failed to retrieve newly created canonical session route''
         (if hasActiveCanonical u sp db then db else setCanonical u (sp_id sp) (ci_session ids) now db)) db"

text \<open>The route the space points to, when it is there and active.\<close>

definition activeCanonical :: "string \<Rightarrow> space \<Rightarrow> routeDb \<Rightarrow> sessionRoute option" where
  "activeCanonical u sp db =
     (if opt_truthy (sp_canonical sp)
      then (case map_option readRoute (tbl_get (routeInSpace u (sp_id sp) (the (sp_canonical sp))) (rt_routes db)) of
          None \<Rightarrow> None
        | Some r \<Rightarrow> if sr_status r = Active then Some r else None)
      else None)"

definition adoptCanonical :: "string \<Rightarrow> space \<Rightarrow> string \<Rightarrow> sessionRoute \<Rightarrow> sessionRoute route_op" where
  "adoptCanonical u sp now c db =
     (let (r, db1) = alignMode u (sp_mode sp) now c db in (Inr r, setCanonical u (sp_id sp) (sr_id r) now db1))"

definition getOrCreateCanonicalSession :: "string \<Rightarrow> string \<Rightarrow> canonicalOptions \<Rightarrow> canonicalIds \<Rightarrow> string \<Rightarrow> sessionRoute route_op" where
  "getOrCreateCanonicalSession u spaceId options ids now =
     check (validateSpaceId spaceId) (\<lambda>_. withImmediateTransactionSync (\<lambda>db.
       case getSpace u spaceId db of
         None \<Rightarrow> (Inl (NotFoundError ''Space not found''), db)
       | Some sp \<Rightarrow>
          if sp_status sp \<noteq> Active then (Inl (ValidationError ''Cannot get or create canonical session in non-active space''), db)
          else if co_forceNew options then createCanonical u sp options ids now db
          else
            (case activeCanonical u sp db of
               Some r \<Rightarrow> (Inr (fst (alignMode u (sp_mode sp) now r db)), snd (alignMode u (sp_mode sp) now r db))
             | None \<Rightarrow>
                 (case bestCandidate (filter (inSpace u spaceId (Some Active)) (rt_routes db)) of
                    Some c \<Rightarrow> adoptCanonical u sp now (readRoute c) db
                  | None \<Rightarrow> createCanonical u sp options ids now db))))"

section \<open>Generations\<close>

definition findGenerationById :: "string \<Rightarrow> string \<Rightarrow> routeDb \<Rightarrow> sessionGeneration option" where
  "findGenerationById u i db =
     (if isValidGenerationId i then tbl_get (\<lambda>g. sg_id g = i \<and> sg_user g = u) (rt_generations db) else None)"

definition generationsOf :: "string \<Rightarrow> string \<Rightarrow> routeDb \<Rightarrow> sessionGeneration list" where
  "generationsOf u routeId db = filter (\<lambda>g. sg_route g = routeId \<and> sg_user g = u) (rt_generations db)"

definition findByRouteAndNumber :: "string \<Rightarrow> string \<Rightarrow> int \<Rightarrow> routeDb \<Rightarrow> sessionGeneration option" where
  "findByRouteAndNumber u routeId n db =
     (if isValidSessionId routeId then tbl_get (\<lambda>g. sg_route g = routeId \<and> sg_number g = n \<and> sg_user g = u) (rt_generations db) else None)"

definition getLatestByRouteId :: "string \<Rightarrow> string \<Rightarrow> routeDb \<Rightarrow> sessionGeneration option" where
  "getLatestByRouteId u routeId db =
     (if isValidSessionId routeId then firstMax sg_number (generationsOf u routeId db) else None)"

definition listByRouteId :: "string \<Rightarrow> string \<Rightarrow> int option \<Rightarrow> int option \<Rightarrow> routeDb \<Rightarrow> sessionGeneration list" where
  "listByRouteId u routeId limit offset db =
     (if isValidSessionId routeId then limitOffset limit offset (sort_key sg_number (generationsOf u routeId db)) else [])"

record createGenerationInput =
  gi_id :: "string option"
  gi_route :: string
  gi_number :: "int option"
  gi_dsh :: "string option"
  gi_snapshot :: "string option"
  gi_reason :: "string option"

definition nextGenerationNumber :: "string \<Rightarrow> string \<Rightarrow> routeDb \<Rightarrow> int" where
  "nextGenerationNumber u routeId db = (case firstMax sg_number (generationsOf u routeId db) of None \<Rightarrow> 0 | Some g \<Rightarrow> sg_number g) + 1"

definition createGeneration :: "string \<Rightarrow> createGenerationInput \<Rightarrow> string \<Rightarrow> string \<Rightarrow> sessionGeneration route_op" where
  "createGeneration u input newId now db =
     check (validateSessionId (gi_route input)) (\<lambda>routeId.
     check (case tbl_get (ownRoute u routeId) (rt_routes db) of None \<Rightarrow> Inl (NotFoundError ''Session route not found'') | Some r \<Rightarrow> Inr r) (\<lambda>route.
     check (case gi_id input of None \<Rightarrow> Inr newId | Some i \<Rightarrow> validateGenerationId i) (\<lambda>i.
     check (validateSessionId (case gi_dsh input of None \<Rightarrow> sr_dsh route | Some d \<Rightarrow> d)) (\<lambda>dsh.
     check (checkSnapshot u (gi_snapshot input) db) (\<lambda>snapshot.
     check (case gi_number input of None \<Rightarrow> Inr (nextGenerationNumber u routeId db)
        | Some n \<Rightarrow> if n \<le> 0 then Inl (ValidationError ''Invalid generation number'') else Inr n) (\<lambda>n.
     seq (insertGeneration \<lparr>sg_id = i, sg_user = u, sg_route = routeId, sg_number = n, sg_dsh = dsh, sg_snapshot = snapshot,
            sg_reason = gi_reason input, sg_created = now\<rparr>) (\<lambda>_ db.
       case findGenerationById u i db of None \<Rightarrow> (Inl (NotFoundError ''Session generation not found''), db) | Some g \<Rightarrow> (Inr g, db)))))))) db"

end
