(* ===== verification/Channel_Bindings.thy ===== *)
theory Channel_Bindings
  imports Session_Routes
begin

text \<open>
  Channel accounts and the bindings of chats and topics to spaces and sessions: the account and binding
  operations of \<open>platform-storage-sqlite/src/repos/channel-repo.ts\<close>. The texts of errors leave out the
  identifiers the source quotes in them.
\<close>

section \<open>Accounts\<close>

definition findAccountById :: "string \<Rightarrow> string \<Rightarrow> routeDb \<Rightarrow> channelAccount option" where
  "findAccountById u i db = (if i = [] then None else tbl_get (\<lambda>a. ca_id a = i \<and> ca_user a = u) (rt_accounts db))"

definition listAccounts :: "string \<Rightarrow> string option \<Rightarrow> routeDb \<Rightarrow> channelAccount list" where
  "listAccounts u type db =
     sort_key ca_created (filter (\<lambda>a. ca_user a = u \<and> (opt_truthy type \<longrightarrow> Some (ca_type a) = type)) (rt_accounts db))"

record createAccountInput =
  ai_id :: "string option"
  ai_type :: string
  ai_status :: "accountStatus option"
  ai_credential :: "string option"
  ai_defaultSpace :: "string option"
  ai_groupMode :: "activationMode option"

text \<open>\<open>input.id && input.id.trim() ? input.id.trim() : generated\<close>.\<close>

definition trimmedId :: "string option \<Rightarrow> string \<Rightarrow> string" where
  "trimmedId i generated = (case i of None \<Rightarrow> generated | Some s \<Rightarrow> if js_trim s = [] then generated else js_trim s)"

definition hasSpace :: "string \<Rightarrow> routeDb \<Rightarrow> bool" where
  "hasSpace i db \<longleftrightarrow> i \<in> sp_id ` set (rt_spaces db)"

definition createAccount :: "string \<Rightarrow> createAccountInput \<Rightarrow> string \<Rightarrow> string \<Rightarrow> channelAccount route_op" where
  "createAccount u input newId now db =
     (if js_trim (ai_type input) = [] then (Inl (ValidationError ''Channel type is required''), db)
      else
        let i = trimmedId (ai_id input) newId;
            row = \<lparr>ca_id = i, ca_user = u, ca_type = js_trim (ai_type input),
              ca_status = (case ai_status input of None \<Rightarrow> ActiveAccount | Some st \<Rightarrow> st), ca_credential = ai_credential input,
              ca_defaultSpace = ai_defaultSpace input,
              ca_groupMode = (case ai_groupMode input of None \<Rightarrow> Mention | Some m \<Rightarrow> m), ca_created = now, ca_updated = now\<rparr>;
            db' = db\<lparr>rt_accounts := rt_accounts db @ [row]\<rparr> in
        if i \<in> ca_id ` set (rt_accounts db) then (Inl UniqueViolation, db)
        else if \<not> optAll (\<lambda>s. hasSpace s db) (ai_defaultSpace input) then (Inl ForeignKeyViolation, db)
        else case findAccountById u i db' of
            None \<Rightarrow> (Inl (PlainError ''Failed to retrieve newly created channel account''), db')
          | Some a \<Rightarrow> (Inr a, db'))"

record updateAccountInput =
  au_status :: "accountStatus option"
  au_credential :: "string option option"
  au_defaultSpace :: "string option option"
  au_groupMode :: "activationMode option"

definition applyAccountUpdate :: "updateAccountInput \<Rightarrow> string \<Rightarrow> channelAccount \<Rightarrow> channelAccount" where
  "applyAccountUpdate input now a =
     a\<lparr>ca_status := patched (au_status input) (ca_status a), ca_credential := patched (au_credential input) (ca_credential a),
       ca_defaultSpace := patched (au_defaultSpace input) (ca_defaultSpace a),
       ca_groupMode := patched (au_groupMode input) (ca_groupMode a), ca_updated := now\<rparr>"

definition accountUnchanged :: "updateAccountInput \<Rightarrow> bool" where
  "accountUnchanged input \<longleftrightarrow> au_status input = None \<and> au_credential input = None \<and> au_defaultSpace input = None \<and> au_groupMode input = None"

definition updateAccount :: "string \<Rightarrow> string \<Rightarrow> updateAccountInput \<Rightarrow> string \<Rightarrow> channelAccount route_op" where
  "updateAccount u i input now db =
     (if findAccountById u i db = None then (Inl (NotFoundError ''Channel account not found''), db)
      else if \<not> optAll (optAll (\<lambda>s. hasSpace s db)) (au_defaultSpace input) then (Inl ForeignKeyViolation, db)
      else
        let db' = (if accountUnchanged input then db
              else db\<lparr>rt_accounts := tbl_update (\<lambda>a. ca_id a = i \<and> ca_user a = u) (applyAccountUpdate input now) (rt_accounts db)\<rparr>) in
        case findAccountById u i db' of
          None \<Rightarrow> (Inl (PlainError ''Failed to retrieve updated channel account''), db')
        | Some a \<Rightarrow> (Inr a, db'))"

definition deleteAccount :: "string \<Rightarrow> string \<Rightarrow> bool route_op" where
  "deleteAccount u i db =
     (if tbl_get (\<lambda>a. ca_id a = i \<and> ca_user a = u) (rt_accounts db) = None then (Inr False, db)
      else (Inr True, db\<lparr>rt_accounts := filter (\<lambda>a. \<not> (ca_id a = i \<and> ca_user a = u)) (rt_accounts db),
              rt_bindings := filter (\<lambda>b. cb_account b \<noteq> i) (rt_bindings db)\<rparr>))"

section \<open>Bindings\<close>

definition ownBinding :: "string \<Rightarrow> string \<Rightarrow> channelBinding \<Rightarrow> bool" where
  "ownBinding u i b \<longleftrightarrow> cb_id b = i \<and> cb_user b = u"

definition listBindings :: "string \<Rightarrow> string option \<Rightarrow> routeDb \<Rightarrow> channelBinding list" where
  "listBindings u account db =
     sort_key cb_created (filter (\<lambda>b. cb_user b = u \<and> (opt_truthy account \<longrightarrow> Some (cb_account b) = account)) (rt_bindings db))"

definition findBindingById :: "string \<Rightarrow> string \<Rightarrow> routeDb \<Rightarrow> channelBinding option" where
  "findBindingById u i db = (if i = [] then None else tbl_get (ownBinding u i) (rt_bindings db))"

definition findBindingByContext :: "string \<Rightarrow> string \<Rightarrow> string \<Rightarrow> routeDb \<Rightarrow> channelBinding option" where
  "findBindingByContext u account native db =
     (if account = [] \<or> native = [] then None
      else tbl_get (\<lambda>b. cb_user b = u \<and> cb_account b = account \<and> cb_native b = native) (rt_bindings db))"

record createBindingInput =
  bi_id :: "string option"
  bi_account :: string
  bi_space :: string
  bi_native :: string
  bi_activation :: "activationMode option"
  bi_busy :: "busyMode option"
  bi_chatType :: "string option"
  bi_route :: "string option"

definition bindingRow :: "string \<Rightarrow> createBindingInput \<Rightarrow> string \<Rightarrow> string \<Rightarrow> channelBinding" where
  "bindingRow u input i now =
     \<lparr>cb_id = i, cb_user = u, cb_account = bi_account input, cb_space = bi_space input, cb_native = bi_native input,
      cb_activation = (case bi_activation input of None \<Rightarrow> Mention | Some m \<Rightarrow> m),
      cb_busy = (case bi_busy input of None \<Rightarrow> Queue | Some m \<Rightarrow> m), cb_chatType = bi_chatType input, cb_route = bi_route input,
      cb_created = now, cb_updated = now\<rparr>"

definition insertBinding :: "channelBinding \<Rightarrow> unit route_op" where
  "insertBinding b db =
     (if (\<exists>x \<in> set (rt_bindings db). cb_id x = cb_id b \<or> (cb_account x = cb_account b \<and> cb_native x = cb_native b))
      then (Inl UniqueViolation, db)
      else if \<not> optAll (\<lambda>r. hasRoute r db) (cb_route b) then (Inl ForeignKeyViolation, db)
      else (Inr (), db\<lparr>rt_bindings := rt_bindings db @ [b]\<rparr>))"

definition createBinding :: "string \<Rightarrow> createBindingInput \<Rightarrow> string \<Rightarrow> string \<Rightarrow> channelBinding route_op" where
  "createBinding u input newId now db =
     (if bi_account input = [] \<or> bi_space input = [] \<or> bi_native input = []
      then (Inl (ValidationError ''accountId, spaceId, and nativeContextId are required''), db)
      else if findAccountById u (bi_account input) db = None then (Inl (NotFoundError ''Channel account not found''), db)
      else if getSpace u (bi_space input) db = None then (Inl (NotFoundError ''Space not found''), db)
      else if findBindingByContext u (bi_account input) (bi_native input) db \<noteq> None
      then (Inl (ConflictError ''Binding already exists''), db)
      else
        let i = trimmedId (bi_id input) newId in
        seq (insertBinding (bindingRow u input i now)) (\<lambda>_ db.
          case findBindingById u i db of
            None \<Rightarrow> (Inl (PlainError ''Failed to retrieve newly created channel binding''), db)
          | Some b \<Rightarrow> (Inr b, db)) db)"

record updateBindingInput =
  bu_space :: "string option"
  bu_activation :: "activationMode option"
  bu_busy :: "busyMode option"
  bu_chatType :: "string option option"
  bu_route :: "string option option"

definition applyBindingUpdate :: "updateBindingInput \<Rightarrow> string \<Rightarrow> channelBinding \<Rightarrow> channelBinding" where
  "applyBindingUpdate input now b =
     b\<lparr>cb_space := patched (bu_space input) (cb_space b), cb_activation := patched (bu_activation input) (cb_activation b),
       cb_busy := patched (bu_busy input) (cb_busy b), cb_chatType := patched (bu_chatType input) (cb_chatType b),
       cb_route := patched (bu_route input) (cb_route b), cb_updated := now\<rparr>"

definition bindingUnchanged :: "updateBindingInput \<Rightarrow> bool" where
  "bindingUnchanged input \<longleftrightarrow>
     bu_space input = None \<and> bu_activation input = None \<and> bu_busy input = None \<and> bu_chatType input = None \<and> bu_route input = None"

definition updateBinding :: "string \<Rightarrow> string \<Rightarrow> updateBindingInput \<Rightarrow> string \<Rightarrow> channelBinding route_op" where
  "updateBinding u i input now db =
     (if findBindingById u i db = None then (Inl (NotFoundError ''Channel binding not found''), db)
      else if \<not> optAll (\<lambda>s. getSpace u s db \<noteq> None) (bu_space input) then (Inl (NotFoundError ''Space not found''), db)
      else if \<not> optAll (optAll (\<lambda>r. tbl_get (ownRoute u r) (rt_routes db) \<noteq> None)) (bu_route input)
      then (Inl (NotFoundError ''Session not found''), db)
      else
        let db' = (if bindingUnchanged input then db
              else db\<lparr>rt_bindings := tbl_update (ownBinding u i) (applyBindingUpdate input now) (rt_bindings db)\<rparr>) in
        case findBindingById u i db' of
          None \<Rightarrow> (Inl (PlainError ''Failed to retrieve updated channel binding''), db')
        | Some b \<Rightarrow> (Inr b, db'))"

definition setGroupActivationModeForAccountBindings :: "string \<Rightarrow> string \<Rightarrow> activationMode \<Rightarrow> string \<Rightarrow> nat route_op" where
  "setGroupActivationModeForAccountBindings u account mode now db =
     (if account = [] then (Inr 0, db)
      else
        let row = (\<lambda>b. cb_user b = u \<and> cb_account b = account \<and> cb_chatType b = Some ''group'' \<and> cb_activation b \<noteq> mode) in
        (Inr (tbl_changes row (rt_bindings db)),
         db\<lparr>rt_bindings := tbl_update row (\<lambda>b. b\<lparr>cb_activation := mode, cb_updated := now\<rparr>) (rt_bindings db)\<rparr>))"

definition deleteBinding :: "string \<Rightarrow> string \<Rightarrow> bool route_op" where
  "deleteBinding u i db =
     (Inr (tbl_get (ownBinding u i) (rt_bindings db) \<noteq> None),
      db\<lparr>rt_bindings := filter (\<lambda>b. \<not> ownBinding u i b) (rt_bindings db)\<rparr>)"

text \<open>
  SQLite's \<open>LIKE\<close>: a percent sign stands for any text, an underscore for any character, and ASCII
  letters are compared without regard to case.
\<close>

definition asciiLower :: "char \<Rightarrow> char" where
  "asciiLower c = (if (65 :: nat) \<le> of_char c \<and> of_char c \<le> (90 :: nat) then char_of (of_char c + (32 :: nat)) else c)"

fun sqlLike :: "string \<Rightarrow> string \<Rightarrow> bool" where
  "sqlLike [] s = (s = [])"
| "sqlLike (p # ps) [] = (p = CHR ''%'' \<and> sqlLike ps [])"
| "sqlLike (p # ps) (c # cs) =
     (if p = CHR ''%'' then sqlLike ps (c # cs) \<or> sqlLike (p # ps) cs
      else (p = CHR ''_'' \<or> asciiLower p = asciiLower c) \<and> sqlLike ps cs)"

definition deleteTopicBindingsForChat :: "string \<Rightarrow> string \<Rightarrow> string \<Rightarrow> nat route_op" where
  "deleteTopicBindingsForChat u account chat db =
     (if account = [] \<or> chat = [] then (Inr 0, db)
      else
        let row = (\<lambda>b. cb_user b = u \<and> cb_account b = account \<and> sqlLike (chat @ '':%'') (cb_native b)) in
        (Inr (tbl_changes row (rt_bindings db)), db\<lparr>rt_bindings := filter (\<lambda>b. \<not> row b) (rt_bindings db)\<rparr>))"

end
