(* ===== verification/Route_Resolver.thy ===== *)
theory Route_Resolver
  imports Channel_Bindings
begin

text \<open>
  Which session an incoming message goes to (\<open>platform-core/src/routing/inbound-route-resolver.ts\<close>): the session
  pinned to its topic, else the one pinned to its chat, else the canonical session of the chat's space.
  The repositories are ports, functions on a state; a port may be missing where the source tests for it.
\<close>

section \<open>Topics\<close>

definition getChatLevelNativeContextId :: "string \<Rightarrow> string \<Rightarrow> string" where
  "getChatLevelNativeContextId native channel = (if channel \<noteq> ''lark'' then native else takeWhile (\<lambda>c. c \<noteq> CHR '':'') native)"

definition isTopicNativeContextId :: "string \<Rightarrow> string \<Rightarrow> bool" where
  "isTopicNativeContextId native channel \<longleftrightarrow> channel = ''lark'' \<and> CHR '':'' \<in> set native"

section \<open>Ports\<close>

record inboundOptions =
  io_channel :: string
  io_account :: string
  io_native :: string
  io_fallbackNative :: "string option"
  io_peer :: "string option"
  io_title :: "string option"

record 's resolverPorts =
  rp_findById :: "string \<Rightarrow> 's \<Rightarrow> routeError + sessionRoute option"
  rp_getOrCreateCanonicalSession :: "(string \<Rightarrow> inboundOptions \<Rightarrow> ('s, routeError, sessionRoute) op) option"
  rp_findByRouteIdentity :: "(string \<Rightarrow> string \<Rightarrow> string \<Rightarrow> 's \<Rightarrow> routeError + sessionRoute option) option"
  rp_create :: "(createRouteInput \<Rightarrow> ('s, routeError, sessionRoute) op) option"
  rp_clearPin :: "(string \<Rightarrow> 's \<Rightarrow> 's) option"       \<comment> \<open>\<open>updateBinding(id, { sessionRouteId: null })\<close>, exceptions ignored\<close>
  rp_deleteBinding :: "(string \<Rightarrow> 's \<Rightarrow> 's) option"  \<comment> \<open>exceptions ignored\<close>

record pinBinding =
  pb_id :: string
  pb_space :: string
  pb_route :: "string option"

record resolvedRoute =
  rr_route :: sessionRoute
  rr_notice :: "string option"
  rr_pinned :: bool

section \<open>The resolver\<close>

definition runPort :: "(string \<Rightarrow> 's \<Rightarrow> 's) option \<Rightarrow> string \<Rightarrow> 's \<Rightarrow> 's" where
  "runPort p i s = (case p of None \<Rightarrow> s | Some f \<Rightarrow> f i s)"

definition validPin :: "string \<Rightarrow> string \<Rightarrow> sessionRoute \<Rightarrow> bool" where
  "validPin u spaceId r \<longleftrightarrow> sr_status r = Active \<and> sr_space r = spaceId \<and> (sr_user r = [] \<or> sr_user r = u)"

text \<open>The route a pin leads to: a lookup that throws finds nothing.\<close>

definition pinnedRoute :: "'s resolverPorts \<Rightarrow> string \<Rightarrow> string \<Rightarrow> string \<Rightarrow> 's \<Rightarrow> sessionRoute option" where
  "pinnedRoute ports u spaceId i s =
     (case rp_findById ports i s of
        Inr (Some r) \<Rightarrow> if validPin u spaceId r then Some r else None
      | _ \<Rightarrow> None)"

text \<open>The topic: a route, or the notice that goes with what follows.\<close>

definition resolveTopic ::
  "'s resolverPorts \<Rightarrow> string \<Rightarrow> string \<Rightarrow> string \<Rightarrow> string \<Rightarrow> pinBinding option \<Rightarrow> 's \<Rightarrow> (sessionRoute + string option) \<times> 's" where
  "resolveTopic ports u spaceId fallback mismatch topic s =
     (case topic of
        None \<Rightarrow> (Inr None, s)
      | Some t \<Rightarrow>
          if pb_space t \<noteq> spaceId then (Inr (Some mismatch), runPort (rp_deleteBinding ports) (pb_id t) s)
          else if \<not> opt_truthy (pb_route t) then (Inr None, s)
          else (case pinnedRoute ports u spaceId (the (pb_route t)) s of
              Some r \<Rightarrow> (Inl r, s)
            | None \<Rightarrow> (Inr (Some fallback), runPort (rp_clearPin ports) (pb_id t) s)))"

definition resolveCanonicalSession ::
  "'s resolverPorts \<Rightarrow> string \<Rightarrow> inboundOptions \<Rightarrow> string \<Rightarrow> string \<Rightarrow> ('s, routeError, sessionRoute) op" where
  "resolveCanonicalSession ports spaceId options newId newDsh s =
     (case rp_getOrCreateCanonicalSession ports of Some get \<Rightarrow> get spaceId options s | None \<Rightarrow>
        let find = (\<lambda>native. case rp_findByRouteIdentity ports of None \<Rightarrow> Inr None
              | Some f \<Rightarrow> f (io_channel options) (io_account options) native s) in
        check (find (io_native options)) (\<lambda>first.
        check (if first = None \<and> opt_truthy (io_fallbackNative options) \<and> io_fallbackNative options \<noteq> Some (io_native options)
           then find (the (io_fallbackNative options)) else Inr first) (\<lambda>existing s.
          case existing of Some r \<Rightarrow> (Inr r, s) | None \<Rightarrow>
            (case rp_create ports of
               None \<Rightarrow> (Inl (PlainError ''sessionRouteRepo cannot resolve or create session route''), s)
             | Some create \<Rightarrow> create \<lparr>ri_id = Some newId, ri_space = spaceId, ri_channel = io_channel options,
                 ri_account = Some (io_account options), ri_native = io_native options,
                 ri_peer = Some (textOrElse (io_peer options) (io_native options)), ri_dsh = newDsh, ri_mode = None, ri_status = None,
                 ri_title = io_title options, ri_profile = None, ri_snapshot = None, ri_cache = None, ri_window = None\<rparr> s))) s)"

definition resolveInboundRoute ::
  "'s resolverPorts \<Rightarrow> string \<Rightarrow> pinBinding \<Rightarrow> pinBinding option \<Rightarrow> inboundOptions \<Rightarrow> string \<Rightarrow> string \<Rightarrow> string \<Rightarrow> string \<Rightarrow>
     ('s, routeError, resolvedRoute) op" where
  "resolveInboundRoute ports u binding topic options fallback mismatch newId newDsh s =
     (case resolveTopic ports u (pb_space binding) fallback mismatch topic s of
        (Inl r, s1) \<Rightarrow> (Inr \<lparr>rr_route = r, rr_notice = None, rr_pinned = True\<rparr>, s1)
      | (Inr notice, s1) \<Rightarrow>
          let pin = (if opt_truthy (pb_route binding) then pinnedRoute ports u (pb_space binding) (the (pb_route binding)) s1 else None) in
          (case pin of
             Some r \<Rightarrow> (Inr \<lparr>rr_route = r, rr_notice = notice, rr_pinned = True\<rparr>, s1)
           | None \<Rightarrow>
               let (notice2, s2) = (if opt_truthy (pb_route binding)
                     then (if opt_truthy notice then notice else Some fallback, runPort (rp_clearPin ports) (pb_id binding) s1)
                     else (notice, s1)) in
               seq (resolveCanonicalSession ports (pb_space binding) options newId newDsh)
                 (\<lambda>r s. (Inr \<lparr>rr_route = r, rr_notice = notice2, rr_pinned = False\<rparr>, s)) s2))"

section \<open>The repositories as ports\<close>

definition repositoryPorts :: "string \<Rightarrow> canonicalIds \<Rightarrow> string \<Rightarrow> routeDb resolverPorts" where
  "repositoryPorts u ids now =
     \<lparr>rp_findById = (\<lambda>i db. Inr (findRouteById u i db)),
      rp_getOrCreateCanonicalSession = Some (\<lambda>spaceId options.
        getOrCreateCanonicalSession u spaceId \<lparr>co_forceNew = False, co_channel = Some (io_channel options),
          co_account = Some (io_account options), co_native = Some (io_native options), co_peer = io_peer options,
          co_title = io_title options\<rparr> ids now),
      rp_findByRouteIdentity = Some (\<lambda>channel account native db. Inr (findByRouteIdentity u channel account native db)),
      rp_create = Some (\<lambda>input. createRoute u input (ci_session ids) (ci_generation ids) now),
      rp_clearPin = Some (\<lambda>i db. snd (updateBinding u i
        \<lparr>bu_space = None, bu_activation = None, bu_busy = None, bu_chatType = None, bu_route = Some None\<rparr> now db)),
      rp_deleteBinding = Some (\<lambda>i db. snd (deleteBinding u i db))\<rparr>"

end
