(* ===== verification/Route_Invariant.thy ===== *)
theory Route_Invariant
  imports Route_Resolver
begin

text \<open>
  The integrity of the tables of spaces, routes, generations and bindings: keys are unique, every
  reference leads to a row, and a route or binding lies in a space of its own tenant. Every operation of
  the repositories keeps it, also one that throws halfway. The numbers of a route's generations run
  from one to its current generation as long as only the routes' repository writes them.
\<close>

section \<open>The invariant\<close>

definition spaceKeys :: "routeDb \<Rightarrow> (string \<times> string) set" where
  "spaceKeys db = (\<lambda>s. (sp_id s, sp_user s)) ` set (rt_spaces db)"

definition routeKeys :: "routeDb \<Rightarrow> (string \<times> string) set" where
  "routeKeys db = (\<lambda>r. (sr_id r, sr_user r)) ` set (rt_routes db)"

definition routeIdentity :: "sessionRoute \<Rightarrow> string \<times> string \<times> string \<times> string" where
  "routeIdentity r = (sr_user r, sr_channel r, sr_account r, sr_native r)"

definition keysUnique :: "routeDb \<Rightarrow> bool" where
  "keysUnique db \<longleftrightarrow> distinct (map sp_id (rt_spaces db)) \<and> distinct (map (\<lambda>s. (sp_user s, sp_folder s)) (rt_spaces db)) \<and>
     distinct (map sr_id (rt_routes db)) \<and> distinct (map routeIdentity (rt_routes db)) \<and>
     distinct (map sg_id (rt_generations db)) \<and> distinct (map (\<lambda>g. (sg_route g, sg_number g)) (rt_generations db)) \<and>
     distinct (map ca_id (rt_accounts db)) \<and>
     distinct (map cb_id (rt_bindings db)) \<and> distinct (map (\<lambda>b. (cb_account b, cb_native b)) (rt_bindings db))"

definition bindingRefs :: "routeDb \<Rightarrow> channelBinding \<Rightarrow> bool" where
  "bindingRefs db b \<longleftrightarrow> (cb_space b, cb_user b) \<in> spaceKeys db \<and> (\<forall>i. cb_route b = Some i \<longrightarrow> hasRoute i db)"

definition refsLive :: "routeDb \<Rightarrow> bool" where
  "refsLive db \<longleftrightarrow> (\<forall>r \<in> set (rt_routes db). (sr_space r, sr_user r) \<in> spaceKeys db) \<and>
     (\<forall>g \<in> set (rt_generations db). (sg_route g, sg_user g) \<in> routeKeys db) \<and>
     (\<forall>s \<in> set (rt_spaces db). \<forall>i. sp_canonical s = Some i \<longrightarrow> hasRoute i db) \<and>
     (\<forall>b \<in> set (rt_bindings db). bindingRefs db b) \<and>
     (\<forall>a \<in> set (rt_accounts db). \<forall>i. ca_defaultSpace a = Some i \<longrightarrow> hasSpace i db)"

definition routesWf :: "routeDb \<Rightarrow> bool" where
  "routesWf db \<longleftrightarrow> keysUnique db \<and> refsLive db"

lemmas wf_defs = routesWf_def keysUnique_def refsLive_def bindingRefs_def

section \<open>Rules for operations\<close>

lemma keep_check:
  "(\<And>x. r = Inr x \<Longrightarrow> Q (snd (f x s))) \<Longrightarrow> Q s \<Longrightarrow> Q (snd (check r f s))"
  by (cases r) auto

lemma keep_seq:
  "Q (snd (m s)) \<Longrightarrow> (\<And>x s'. m s = (Inr x, s') \<Longrightarrow> Q s' \<Longrightarrow> Q (snd (f x s'))) \<Longrightarrow> Q (snd (seq m f s))"
  by (auto simp: seq_def split: prod.splits sum.splits)

lemma keep_transaction: "Q s \<Longrightarrow> Q (snd (m s)) \<Longrightarrow> Q (snd (withImmediateTransactionSync m s))"
  by (auto simp: withImmediateTransactionSync_def split: prod.splits sum.splits)

lemma keep_if: "(c \<Longrightarrow> Q (snd p)) \<Longrightarrow> (\<not> c \<Longrightarrow> Q (snd q)) \<Longrightarrow> Q (snd (if c then p else q))"
  by simp

lemma keep_option:
  "(x = None \<Longrightarrow> Q (snd p)) \<Longrightarrow> (\<And>y. x = Some y \<Longrightarrow> Q (snd (f y))) \<Longrightarrow>
     Q (snd (case x of None \<Rightarrow> p | Some y \<Rightarrow> f y))"
  by (cases x) auto

lemmas keep_rules = keep_check keep_seq keep_transaction keep_if keep_option

lemma tbl_update_keys: "(\<And>r. g (f r) = g r) \<Longrightarrow> map g (tbl_update P f rows) = map g rows"
  by (rule map_tbl_update)

lemma image_as_set_map: "f ` set xs = set (map f xs)"
  by simp

lemma image_filter_key:
  "(\<lambda>x. (k x, h x)) ` set (filter (\<lambda>x. P (k x)) xs) = {p \<in> (\<lambda>x. (k x, h x)) ` set xs. P (fst p)}"
  by (induction xs) auto

lemma ball_tbl_update:
  "\<forall>r \<in> set rows. Q r \<Longrightarrow> (\<And>r. r \<in> set rows \<Longrightarrow> P r \<Longrightarrow> Q r \<Longrightarrow> Q (f r)) \<Longrightarrow> \<forall>r \<in> set (tbl_update P f rows). Q r"
  by (auto simp: tbl_update_def)

lemma hasRoute_keys: "hasRoute i db \<longleftrightarrow> i \<in> fst ` routeKeys db"
  by (force simp: hasRoute_def routeKeys_def)

lemma hasSpace_keys: "hasSpace i db \<longleftrightarrow> i \<in> fst ` spaceKeys db"
  by (force simp: hasSpace_def spaceKeys_def)

lemma getSpace_key: "getSpace u i db = Some s \<Longrightarrow> s \<in> set (rt_spaces db) \<and> sp_id s = i \<and> sp_user s = u"
  unfolding getSpace_def by (drule tbl_get_Some) (simp add: ownSpace_def)

lemma getSpace_keys: "getSpace u i db \<noteq> None \<longleftrightarrow> (i, u) \<in> spaceKeys db"
  by (auto simp: getSpace_def tbl_get_None ownSpace_def spaceKeys_def)

lemma getSpace_spaceKeys: "getSpace u i db = Some s \<Longrightarrow> (i, u) \<in> spaceKeys db"
  using getSpace_keys [of u i db] by simp

text \<open>The references of a table only need the keys of the tables they lead to.\<close>

lemma refsLive_cong:
  assumes "spaceKeys db' = spaceKeys db" "routeKeys db' = routeKeys db"
  shows "bindingRefs db' = bindingRefs db" "hasRoute i db' = hasRoute i db" "hasSpace i db' = hasSpace i db"
  using assms by (simp_all add: bindingRefs_def [abs_def] hasRoute_keys hasSpace_keys)

section \<open>Statements\<close>

lemma wf_spaces:
  assumes wf: "routesWf db"
    and f: "\<And>s. sp_id (f s) = sp_id s" "\<And>s. sp_user (f s) = sp_user s"
    and folder: "distinct (map (\<lambda>s. (sp_user s, sp_folder s)) (tbl_update P f (rt_spaces db)))"
    and canonical: "\<And>s i. s \<in> set (rt_spaces db) \<Longrightarrow> P s \<Longrightarrow> sp_canonical (f s) = Some i \<Longrightarrow> hasRoute i db"
  shows "routesWf (db\<lparr>rt_spaces := tbl_update P f (rt_spaces db)\<rparr>)" (is "routesWf ?db")
proof -
  have sk: "spaceKeys ?db = spaceKeys db"
    unfolding spaceKeys_def image_as_set_map by (simp add: map_tbl_update f)
  have rk: "routeKeys ?db = routeKeys db" by (simp add: routeKeys_def)
  have "keysUnique ?db" using wf folder by (simp add: routesWf_def keysUnique_def map_tbl_update f)
  moreover have "\<forall>s \<in> set (rt_spaces ?db). \<forall>i. sp_canonical s = Some i \<longrightarrow> hasRoute i db"
    using wf unfolding routesWf_def refsLive_def by (auto simp: tbl_update_def dest: canonical)
  ultimately show ?thesis
    using wf unfolding routesWf_def refsLive_def refsLive_cong [OF sk rk] sk rk by auto
qed

lemma wf_routes:
  assumes wf: "routesWf db"
    and f: "\<And>r. sr_id (f r) = sr_id r" "\<And>r. routeIdentity (f r) = routeIdentity r"
    and space: "\<And>r. r \<in> set (rt_routes db) \<Longrightarrow> P r \<Longrightarrow> (sr_space (f r), sr_user (f r)) \<in> spaceKeys db"
  shows "routesWf (db\<lparr>rt_routes := tbl_update P f (rt_routes db)\<rparr>)" (is "routesWf ?db")
proof -
  have user: "sr_user (f r) = sr_user r" for r using f(2) [of r] by (simp add: routeIdentity_def)
  have sk: "spaceKeys ?db = spaceKeys db" by (simp add: spaceKeys_def)
  have rk: "routeKeys ?db = routeKeys db"
    unfolding routeKeys_def image_as_set_map by (simp add: map_tbl_update f user)
  have "keysUnique ?db" using wf by (simp add: routesWf_def keysUnique_def map_tbl_update f)
  moreover have "\<forall>r \<in> set (rt_routes ?db). (sr_space r, sr_user r) \<in> spaceKeys db"
    using wf unfolding routesWf_def refsLive_def by (auto simp: tbl_update_def intro: space)
  ultimately show ?thesis
    using wf unfolding routesWf_def refsLive_def refsLive_cong [OF sk rk] sk rk by simp
qed

lemma wf_updateRoutes:
  assumes "routesWf db" "\<And>r. sr_id (f r) = sr_id r" "\<And>r. routeIdentity (f r) = routeIdentity r"
    and "\<And>r. r \<in> set (rt_routes db) \<Longrightarrow> ownRoute u i r \<Longrightarrow> (sr_space (f r), u) \<in> spaceKeys db"
  shows "routesWf (updateRoutes u i f db)"
  unfolding updateRoutes_def
proof (rule wf_routes [OF assms(1-3)])
  fix r assume "r \<in> set (rt_routes db)" "ownRoute u i r"
  then show "(sr_space (f r), sr_user (f r)) \<in> spaceKeys db"
    using assms(3) [of r] assms(4) [of r] by (simp add: routeIdentity_def ownRoute_def)
qed

lemma wf_bindings:
  assumes wf: "routesWf db"
    and f: "\<And>b. cb_id (f b) = cb_id b" "\<And>b. cb_account (f b) = cb_account b" "\<And>b. cb_native (f b) = cb_native b"
    and refs: "\<And>b. b \<in> set (rt_bindings db) \<Longrightarrow> P b \<Longrightarrow> bindingRefs db b \<Longrightarrow> bindingRefs db (f b)"
  shows "routesWf (db\<lparr>rt_bindings := tbl_update P f (rt_bindings db)\<rparr>)" (is "routesWf ?db")
proof -
  have sk: "spaceKeys ?db = spaceKeys db" by (simp add: spaceKeys_def)
  have rk: "routeKeys ?db = routeKeys db" by (simp add: routeKeys_def)
  have "keysUnique ?db" using wf by (simp add: routesWf_def keysUnique_def map_tbl_update f)
  moreover have "\<forall>b \<in> set (rt_bindings ?db). bindingRefs db b"
    using wf unfolding routesWf_def refsLive_def by (auto simp: tbl_update_def intro: refs)
  ultimately show ?thesis
    using wf unfolding routesWf_def refsLive_def refsLive_cong [OF sk rk] sk rk by simp
qed

lemma wf_accounts:
  assumes wf: "routesWf db" and f: "\<And>a. ca_id (f a) = ca_id a"
    and space: "\<And>a i. a \<in> set (rt_accounts db) \<Longrightarrow> P a \<Longrightarrow> ca_defaultSpace (f a) = Some i \<Longrightarrow> hasSpace i db"
  shows "routesWf (db\<lparr>rt_accounts := tbl_update P f (rt_accounts db)\<rparr>)" (is "routesWf ?db")
proof -
  have sk: "spaceKeys ?db = spaceKeys db" by (simp add: spaceKeys_def)
  have rk: "routeKeys ?db = routeKeys db" by (simp add: routeKeys_def)
  have "keysUnique ?db" using wf by (simp add: routesWf_def keysUnique_def map_tbl_update f)
  moreover have "\<forall>a \<in> set (rt_accounts ?db). \<forall>i. ca_defaultSpace a = Some i \<longrightarrow> hasSpace i db"
    using wf unfolding routesWf_def refsLive_def by (auto simp: tbl_update_def dest: space)
  ultimately show ?thesis
    using wf unfolding routesWf_def refsLive_def refsLive_cong [OF sk rk] sk rk by simp
qed

lemma wf_filter_rows:
  assumes wf: "routesWf db"
  shows "routesWf (db\<lparr>rt_accounts := filter P (rt_accounts db), rt_bindings := filter Q (rt_bindings db)\<rparr>)" (is "routesWf ?db")
proof -
  have sk: "spaceKeys ?db = spaceKeys db" by (simp add: spaceKeys_def)
  have rk: "routeKeys ?db = routeKeys db" by (simp add: routeKeys_def)
  have "keysUnique ?db" using wf by (simp add: routesWf_def keysUnique_def distinct_map_filter)
  then show ?thesis
    using wf unfolding routesWf_def refsLive_def refsLive_cong [OF sk rk] sk rk by auto
qed

lemma wf_filter_bindings: "routesWf db \<Longrightarrow> routesWf (db\<lparr>rt_bindings := filter Q (rt_bindings db)\<rparr>)"
  using wf_filter_rows [of db Q "\<lambda>_. True"] by simp

lemma wf_clearRoutes:
  assumes wf: "routesWf db"
  shows "routesWf (clearRoutes gone db)" (is "routesWf ?db")
proof -
  have spaces: "rt_spaces ?db = tbl_update (\<lambda>s. optAll gone (sp_canonical s)) (\<lambda>s. s\<lparr>sp_canonical := None\<rparr>) (rt_spaces db)"
    and bindings: "rt_bindings ?db = tbl_update (\<lambda>b. optAll gone (cb_route b)) (\<lambda>b. b\<lparr>cb_route := None\<rparr>) (rt_bindings db)"
    by (simp_all add: clearRoutes_def tbl_update_def)
  have sk: "spaceKeys ?db = spaceKeys db"
    unfolding spaceKeys_def spaces image_as_set_map by (simp add: map_tbl_update)
  have rk: "routeKeys ?db = {k \<in> routeKeys db. \<not> gone (fst k)}"
    by (auto simp: routeKeys_def clearRoutes_def)
  have hr: "hasRoute i ?db \<longleftrightarrow> hasRoute i db \<and> \<not> gone i" for i
    unfolding hasRoute_keys rk by force
  have "keysUnique ?db"
    using wf unfolding routesWf_def keysUnique_def spaces bindings
    by (simp add: map_tbl_update) (simp add: clearRoutes_def distinct_map_filter)
  moreover have "\<forall>s \<in> set (rt_spaces ?db). \<forall>i. sp_canonical s = Some i \<longrightarrow> hasRoute i ?db"
    using wf unfolding routesWf_def refsLive_def hr spaces by (auto simp: tbl_update_def split: if_splits)
  moreover have "\<forall>b \<in> set (rt_bindings ?db). bindingRefs ?db b"
    using wf unfolding routesWf_def refsLive_def bindingRefs_def hr bindings sk by (auto simp: tbl_update_def split: if_splits)
  moreover have "\<forall>r \<in> set (rt_routes ?db). (sr_space r, sr_user r) \<in> spaceKeys db"
    using wf by (simp add: routesWf_def refsLive_def clearRoutes_def)
  moreover have "\<forall>g \<in> set (rt_generations ?db). (sg_route g, sg_user g) \<in> routeKeys ?db"
    using wf unfolding rk by (simp add: routesWf_def refsLive_def clearRoutes_def)
  moreover have "rt_accounts ?db = rt_accounts db" by (simp add: clearRoutes_def)
  ultimately show ?thesis
    using wf unfolding routesWf_def refsLive_def hasSpace_keys sk by simp
qed

lemma wf_clearSpace:
  assumes wf: "routesWf db"
  shows "routesWf (clearSpace i db)"
proof -
  define db1 where "db1 = clearRoutes (\<lambda>x. x \<in> set (map sr_id (filter (\<lambda>r. sr_space r = i) (rt_routes db)))) db"
  have wf1: "routesWf db1" unfolding db1_def by (rule wf_clearRoutes [OF wf])
  have out: "sr_space r \<noteq> i" if "r \<in> set (rt_routes db1)" for r using that by (auto simp: db1_def clearRoutes_def)
  define db2 where "db2 = db1\<lparr>rt_spaces := filter (\<lambda>s. sp_id s \<noteq> i) (rt_spaces db1), rt_bindings := filter (\<lambda>b. cb_space b \<noteq> i) (rt_bindings db1),
     rt_accounts := tbl_update (\<lambda>a. ca_defaultSpace a = Some i) (\<lambda>a. a\<lparr>ca_defaultSpace := None\<rparr>) (rt_accounts db1)\<rparr>"
  have eq: "clearSpace i db = db2" unfolding clearSpace_def db2_def db1_def tbl_update_def Let_def by (rule refl)
  have sk: "spaceKeys db2 = {k \<in> spaceKeys db1. fst k \<noteq> i}" by (simp add: spaceKeys_def db2_def image_filter_key [where P = "\<lambda>k. k \<noteq> i"] flip: set_filter)
  have rk: "routeKeys db2 = routeKeys db1" by (simp add: routeKeys_def db2_def)
  have hr: "hasRoute j db2 = hasRoute j db1" for j by (simp add: hasRoute_keys rk)
  have hs: "hasSpace j db2 \<longleftrightarrow> hasSpace j db1 \<and> j \<noteq> i" for j unfolding hasSpace_keys sk by force
  have "keysUnique db2" using wf1 by (simp add: routesWf_def keysUnique_def db2_def distinct_map_filter map_tbl_update)
  moreover have "\<forall>a \<in> set (rt_accounts db2). \<forall>j. ca_defaultSpace a = Some j \<longrightarrow> hasSpace j db2"
    using wf1 unfolding routesWf_def refsLive_def hs by (auto simp: db2_def tbl_update_def split: if_splits)
  moreover have "\<forall>r \<in> set (rt_routes db2). (sr_space r, sr_user r) \<in> spaceKeys db2"
    using wf1 out unfolding routesWf_def refsLive_def sk by (auto simp: db2_def)
  moreover have "\<forall>b \<in> set (rt_bindings db2). bindingRefs db2 b"
    using wf1 unfolding routesWf_def refsLive_def bindingRefs_def hr sk by (auto simp: db2_def)
  moreover have "\<forall>s \<in> set (rt_spaces db2). \<forall>j. sp_canonical s = Some j \<longrightarrow> hasRoute j db2"
    using wf1 unfolding routesWf_def refsLive_def hr by (auto simp: db2_def)
  moreover have "rt_generations db2 = rt_generations db1" by (simp add: db2_def)
  ultimately show ?thesis
    unfolding eq routesWf_def using wf1 unfolding routesWf_def refsLive_def rk by simp
qed

text \<open>New rows.\<close>

lemma wf_insertSpace: "routesWf db \<Longrightarrow> routesWf (snd (insertSpace s db))"
proof (cases "(\<exists>x \<in> set (rt_spaces db). sp_id x = sp_id s \<or> (sp_user x = sp_user s \<and> sp_folder x = sp_folder s)) \<or>
    \<not> optAll (\<lambda>i. hasRoute i db) (sp_canonical s)")
  case False
  assume wf: "routesWf db"
  define db' where "db' = db\<lparr>rt_spaces := rt_spaces db @ [s]\<rparr>"
  have eq: "snd (insertSpace s db) = db'" using False by (simp add: insertSpace_def db'_def)
  have sk: "spaceKeys db' = insert (sp_id s, sp_user s) (spaceKeys db)" by (simp add: spaceKeys_def db'_def)
  have rk: "routeKeys db' = routeKeys db" by (simp add: routeKeys_def db'_def)
  have hr: "hasRoute j db' = hasRoute j db" for j by (simp add: hasRoute_keys rk)
  have "keysUnique db'" using wf False by (auto simp: routesWf_def keysUnique_def db'_def)
  moreover have "\<forall>x \<in> set (rt_spaces db'). \<forall>j. sp_canonical x = Some j \<longrightarrow> hasRoute j db'"
    using wf False unfolding routesWf_def refsLive_def hr by (auto simp: db'_def)
  moreover have "\<forall>r \<in> set (rt_routes db'). (sr_space r, sr_user r) \<in> spaceKeys db'"
    using wf unfolding routesWf_def refsLive_def sk by (simp add: db'_def)
  moreover have "\<forall>b \<in> set (rt_bindings db'). bindingRefs db' b"
    using wf unfolding routesWf_def refsLive_def bindingRefs_def sk hr by (simp add: db'_def)
  moreover have "\<forall>a \<in> set (rt_accounts db'). \<forall>j. ca_defaultSpace a = Some j \<longrightarrow> hasSpace j db'"
    using wf unfolding routesWf_def refsLive_def hasSpace_keys sk by (simp add: db'_def)
  moreover have "rt_generations db' = rt_generations db" by (simp add: db'_def)
  ultimately show "routesWf (snd (insertSpace s db))"
    unfolding eq routesWf_def refsLive_def using wf unfolding routesWf_def refsLive_def rk by simp
qed (auto simp: insertSpace_def)

lemma wf_insertRoute:
  assumes wf: "routesWf db" and own: "(sr_space r, sr_user r) \<in> spaceKeys db"
  shows "routesWf (snd (insertRoute r db))"
proof (cases "\<exists>x \<in> set (rt_routes db). sr_id x = sr_id r \<or> sameIdentity (sr_user r) (sr_channel r) (sr_account r) (sr_native r) x")
  case True
  then show ?thesis using wf by (simp add: insertRoute_def)
next
  case False
  define db' where "db' = db\<lparr>rt_routes := rt_routes db @ [r]\<rparr>"
  have "sr_space r \<in> sp_id ` set (rt_spaces db)" using own by (auto simp: spaceKeys_def)
  then have eq: "snd (insertRoute r db) = db'" using False by (simp add: insertRoute_def db'_def)
  have sk: "spaceKeys db' = spaceKeys db" by (simp add: spaceKeys_def db'_def)
  have rk: "routeKeys db' = insert (sr_id r, sr_user r) (routeKeys db)" by (simp add: routeKeys_def db'_def)
  have hr: "hasRoute j db \<Longrightarrow> hasRoute j db'" for j by (simp add: hasRoute_def db'_def)
  have new: "routeIdentity r \<notin> set (map routeIdentity (rt_routes db))" "sr_id r \<notin> set (map sr_id (rt_routes db))"
    using False by (auto simp: routeIdentity_def sameIdentity_def)
  have "keysUnique db'" using wf new by (simp add: routesWf_def keysUnique_def db'_def)
  moreover have "\<forall>x \<in> set (rt_spaces db'). \<forall>j. sp_canonical x = Some j \<longrightarrow> hasRoute j db'"
    using wf hr by (simp add: routesWf_def refsLive_def db'_def)
  moreover have "\<forall>x \<in> set (rt_routes db'). (sr_space x, sr_user x) \<in> spaceKeys db'"
    using wf own unfolding routesWf_def refsLive_def sk by (simp add: db'_def)
  moreover have "\<forall>b \<in> set (rt_bindings db'). bindingRefs db' b"
    using wf hr unfolding routesWf_def refsLive_def bindingRefs_def sk by (simp add: db'_def)
  moreover have "\<forall>a \<in> set (rt_accounts db'). \<forall>j. ca_defaultSpace a = Some j \<longrightarrow> hasSpace j db'"
    using wf unfolding routesWf_def refsLive_def hasSpace_keys sk by (simp add: db'_def)
  moreover have "\<forall>g \<in> set (rt_generations db'). (sg_route g, sg_user g) \<in> routeKeys db'"
    using wf unfolding routesWf_def refsLive_def rk by (simp add: db'_def)
  ultimately show ?thesis unfolding eq routesWf_def refsLive_def by simp
qed

lemma wf_insertGeneration:
  assumes wf: "routesWf db" and own: "(sg_route g, sg_user g) \<in> routeKeys db"
  shows "routesWf (snd (insertGeneration g db))"
proof (cases "\<exists>x \<in> set (rt_generations db). sg_id x = sg_id g \<or> (sg_route x = sg_route g \<and> sg_number x = sg_number g)")
  case True
  then show ?thesis using wf by (simp add: insertGeneration_def)
next
  case False
  define db' where "db' = db\<lparr>rt_generations := rt_generations db @ [g]\<rparr>"
  have sk: "spaceKeys db' = spaceKeys db" by (simp add: spaceKeys_def db'_def)
  have rk: "routeKeys db' = routeKeys db" by (simp add: routeKeys_def db'_def)
  have new: "sg_id g \<notin> set (map sg_id (rt_generations db))"
    "(sg_route g, sg_number g) \<notin> set (map (\<lambda>g. (sg_route g, sg_number g)) (rt_generations db))"
    using False by auto
  have ku: "keysUnique db'" using wf new by (simp add: routesWf_def keysUnique_def db'_def)
  have "refsLive db'" using wf own unfolding routesWf_def refsLive_def refsLive_cong [OF sk rk] sk rk by (simp add: db'_def)
  with ku have "routesWf db'" by (simp add: routesWf_def)
  then show ?thesis using False wf by (simp add: insertGeneration_def db'_def)
qed

lemma wf_insertBinding:
  assumes wf: "routesWf db" and own: "(cb_space b, cb_user b) \<in> spaceKeys db"
  shows "routesWf (snd (insertBinding b db))"
proof (cases "(\<exists>x \<in> set (rt_bindings db). cb_id x = cb_id b \<or> (cb_account x = cb_account b \<and> cb_native x = cb_native b)) \<or>
    \<not> optAll (\<lambda>r. hasRoute r db) (cb_route b)")
  case True
  then show ?thesis using wf by (auto simp: insertBinding_def)
next
  case False
  define db' where "db' = db\<lparr>rt_bindings := rt_bindings db @ [b]\<rparr>"
  have eq: "snd (insertBinding b db) = db'" using False by (simp add: insertBinding_def db'_def)
  have sk: "spaceKeys db' = spaceKeys db" by (simp add: spaceKeys_def db'_def)
  have rk: "routeKeys db' = routeKeys db" by (simp add: routeKeys_def db'_def)
  have new: "cb_id b \<notin> set (map cb_id (rt_bindings db))"
    "(cb_account b, cb_native b) \<notin> set (map (\<lambda>b. (cb_account b, cb_native b)) (rt_bindings db))"
    using False by auto
  have "bindingRefs db b" using own False by (auto simp: bindingRefs_def)
  then have "refsLive db'" using wf unfolding routesWf_def refsLive_def refsLive_cong [OF sk rk] sk rk by (simp add: db'_def)
  moreover have "keysUnique db'" using wf new by (simp add: routesWf_def keysUnique_def db'_def)
  ultimately show ?thesis unfolding eq routesWf_def by simp
qed

section \<open>Every operation keeps the invariant\<close>

lemmas wf_keep = keep_rules [where Q = routesWf]

lemma snd_fetch [simp]: "snd (fetchSpace u i db) = db" "snd (fetchRoute u i m db) = db"
  by (simp_all add: fetchSpace_def fetchRoute_def split: option.split)

lemma wf_createSpace: "routesWf db \<Longrightarrow> routesWf (snd (createSpace u input newId now db))"
  unfolding createSpace_def by (intro wf_keep wf_insertSpace) simp_all

lemma distinct_tbl_update:
  assumes "distinct (map key rows)" "distinct (map k rows)" "\<And>x. x \<in> set rows \<Longrightarrow> P x \<Longrightarrow> key x = i"
    and "\<And>x y. x \<in> set rows \<Longrightarrow> y \<in> set rows \<Longrightarrow> \<not> P x \<Longrightarrow> P y \<Longrightarrow> k x \<noteq> k (f y)"
  shows "distinct (map k (tbl_update P f rows))"
  using assms
proof (induction rows)
  case (Cons x xs)
  have ih: "distinct (map k (tbl_update P f xs))" using Cons.prems by (intro Cons.IH) auto
  show ?case
  proof (cases "P x")
    case True
    have "\<not> P y" if "y \<in> set xs" for y using Cons.prems(1,3) True that by force
    then have "tbl_update P f xs = xs" by (intro tbl_update_none)
    moreover have "k (f x) \<noteq> k y" if "y \<in> set xs" for y
      using Cons.prems(4) [of y x] \<open>\<And>y. y \<in> set xs \<Longrightarrow> \<not> P y\<close> True that by auto
    ultimately show ?thesis using True Cons.prems(2) by (auto simp: table_simps)
  next
    case False
    have "k x \<noteq> k y" if "y \<in> set (tbl_update P f xs)" for y
      using that Cons.prems(2) Cons.prems(4) [of x] False by (auto simp: set_tbl_update)
    then show ?thesis using ih False by (auto simp: table_simps)
  qed
qed simp

lemma wf_applySpaceUpdate:
  assumes wf: "routesWf db"
    and folder: "\<not> folderTaken u i (su_folder input) db"
    and canonical: "\<not> \<not> optAll (optAll (\<lambda>c. hasRoute c db)) (su_canonical input)"
  shows "routesWf (db\<lparr>rt_spaces := tbl_update (ownSpace u i) (applySpaceUpdate input now) (rt_spaces db)\<rparr>)"
proof (rule wf_spaces [OF wf])
  have d: "distinct (map sp_id (rt_spaces db))" "distinct (map (\<lambda>s. (sp_user s, sp_folder s)) (rt_spaces db))"
    using wf by (simp_all add: routesWf_def keysUnique_def)
  show "distinct (map (\<lambda>s. (sp_user s, sp_folder s)) (tbl_update (ownSpace u i) (applySpaceUpdate input now) (rt_spaces db)))"
  proof (rule distinct_tbl_update [OF d])
    fix x y assume x: "x \<in> set (rt_spaces db)" "\<not> ownSpace u i x" and y: "y \<in> set (rt_spaces db)" "ownSpace u i y"
    have "(sp_user x, sp_folder x) \<noteq> (sp_user y, sp_folder y)"
      using d(2) x y by (auto simp: distinct_map dest: inj_onD)
    then show "(sp_user x, sp_folder x) \<noteq> (sp_user (applySpaceUpdate input now y), sp_folder (applySpaceUpdate input now y))"
      using folder x y by (cases "su_folder input") (auto simp: applySpaceUpdate_def patched_def ownSpace_def folderTaken_def)
  qed (simp add: ownSpace_def)
next
  fix s j assume "s \<in> set (rt_spaces db)" "sp_canonical (applySpaceUpdate input now s) = Some j"
  then show "hasRoute j db"
    using wf canonical by (cases "su_canonical input") (auto simp: applySpaceUpdate_def patched_def routesWf_def refsLive_def)
qed (simp_all add: applySpaceUpdate_def)

lemma wf_updateSpace: "routesWf db \<Longrightarrow> routesWf (snd (updateSpace u i input now db))"
  unfolding updateSpace_def by (intro wf_keep) (simp_all only: snd_fetch snd_conv, rule wf_applySpaceUpdate)

lemma wf_deleteSpace: "routesWf db \<Longrightarrow> routesWf (snd (deleteSpace u i db))"
  by (simp add: deleteSpace_def wf_clearSpace)

lemma insertRoute_keys:
  "insertRoute r db = (Inr (), db') \<Longrightarrow> spaceKeys db' = spaceKeys db \<and> routeKeys db' = insert (sr_id r, sr_user r) (routeKeys db)"
  by (auto simp: insertRoute_def spaceKeys_def routeKeys_def split: if_splits)

lemma wf_insertWithGeneration:
  assumes wf: "routesWf db" and own: "(sr_space r, sr_user r) \<in> spaceKeys db"
  shows "routesWf (snd (insertWithGeneration r genId snapshot now db))"
  unfolding insertWithGeneration_def
  by (intro wf_keep wf_insertRoute wf_insertGeneration wf own) (auto dest: insertRoute_keys)

lemma wf_createRoute: "routesWf db \<Longrightarrow> routesWf (snd (createRoute u input newId genId now db))"
  unfolding createRoute_def Let_def
  by (intro wf_keep wf_insertWithGeneration) (auto simp: routeRow_def intro: getSpace_spaceKeys split: option.splits)

lemma getRoute_key: "getRoute u i db = Some r \<Longrightarrow> \<exists>r0 \<in> set (rt_routes db). r = readRoute r0 \<and> sr_id r0 = i \<and> sr_user r0 = u"
  by (auto simp: getRoute_def ownRoute_def dest!: tbl_get_Some)

lemma getRoute_keys: "getRoute u i db \<noteq> None \<longleftrightarrow> (i, u) \<in> routeKeys db"
  by (auto simp: getRoute_def tbl_get_None ownRoute_def routeKeys_def)

lemma getRoute_routeKeys: "getRoute u i db = Some r \<Longrightarrow> (i, u) \<in> routeKeys db"
  using getRoute_keys [of u i db] by simp

lemma wf_applyRouteUpdate:
  assumes wf: "routesWf db" and space: "\<And>s. ru_space input = Some s \<Longrightarrow> (s, u) \<in> spaceKeys db"
  shows "routesWf (updateRoutes u i (applyRouteUpdate input now) db)"
proof (rule wf_updateRoutes [OF wf])
  fix r assume "r \<in> set (rt_routes db)" "ownRoute u i r"
  then show "(sr_space (applyRouteUpdate input now r), u) \<in> spaceKeys db"
    using wf space by (cases "ru_space input") (auto simp: applyRouteUpdate_def patched_def ownRoute_def routesWf_def refsLive_def)
qed (simp_all add: applyRouteUpdate_def routeIdentity_def)

lemma wf_updateRoute: "routesWf db \<Longrightarrow> routesWf (snd (updateRoute u i input now db))"
  unfolding updateRoute_def
proof (intro wf_keep, simp_all only: snd_fetch)
  fix x c
  assume wf: "routesWf db"
    and s: "checkPatch (\<lambda>s. andThen (validateSpaceId s) (\<lambda>s. if getSpace u s db = None then Inl (NotFoundError ''Space not found'') else Inr s))
       (ru_space input) = Inr c"
  show "routesWf (updateRoutes u x (applyRouteUpdate input now) db)"
  proof (rule wf_applyRouteUpdate [OF wf])
    fix s assume "ru_space input = Some s"
    then show "(s, u) \<in> spaceKeys db"
      using s by (auto simp: checkPatch_def andThen_Inr_iff validateSpaceId_def simp flip: getSpace_keys split: if_splits)
  qed
qed

lemma insertGeneration_keys:
  "insertGeneration g db = (Inr (), db') \<Longrightarrow> rt_routes db' = rt_routes db \<and> spaceKeys db' = spaceKeys db"
  by (auto simp: insertGeneration_def spaceKeys_def split: if_splits)

lemma wf_applyReset:
  assumes wf: "routesWf db"
  shows "routesWf (updateRoutes u i (applyReset dsh snapshot nowIso now route) db)"
proof (rule wf_updateRoutes [OF wf])
  fix r assume "r \<in> set (rt_routes db)" "ownRoute u i r"
  then show "(sr_space (applyReset dsh snapshot nowIso now route r), u) \<in> spaceKeys db"
    using wf by (auto simp: applyReset_def ownRoute_def routesWf_def refsLive_def)
qed (simp_all add: applyReset_def routeIdentity_def)

lemma wf_resetRows:
  assumes wf: "routesWf db" and own: "(sg_route g, sg_user g) \<in> routeKeys db"
  shows "routesWf (snd (resetRows g nowIso now route db))"
  unfolding resetRows_def Let_def
  by (intro wf_keep wf_insertGeneration wf own) (simp_all add: wf_applyReset)

lemma wf_resetRoute: "routesWf db \<Longrightarrow> routesWf (snd (resetRoute u i input genId nowIso now db))"
  unfolding resetRoute_def by (intro wf_keep wf_resetRows) (auto intro: getRoute_routeKeys)

lemma wf_deleteRoute: "routesWf db \<Longrightarrow> routesWf (snd (deleteRoute u i db))"
  by (simp add: deleteRoute_def wf_clearRoutes)

lemma wf_alignMode:
  assumes wf: "routesWf db"
  shows "routesWf (snd (alignMode u mode now r db))"
proof -
  have "routesWf (updateRoutes u (sr_id r) (\<lambda>x. x\<lparr>sr_mode := mode, sr_updated := now\<rparr>) db)"
    using wf by (intro wf_updateRoutes) (auto simp: routeIdentity_def routesWf_def refsLive_def ownRoute_def)
  with wf show ?thesis by (simp add: alignMode_def)
qed

lemma wf_setCanonical:
  assumes wf: "routesWf db" and "hasRoute i db"
  shows "routesWf (setCanonical u spaceId i now db)"
  unfolding setCanonical_def
proof (rule wf_spaces [OF wf])
  show "distinct (map (\<lambda>s. (sp_user s, sp_folder s))
     (tbl_update (ownSpace u spaceId) (\<lambda>s. s\<lparr>sp_canonical := Some i, sp_updated := now\<rparr>) (rt_spaces db)))"
    using wf by (simp add: map_tbl_update routesWf_def keysUnique_def)
qed (use assms in auto)

lemma insertWithGeneration_keys:
  assumes "insertWithGeneration r genId snapshot now db = (Inr (), db')"
  shows "rt_routes db' = rt_routes db @ [r] \<and> rt_spaces db' = rt_spaces db"
  using assms by (auto simp: insertWithGeneration_def op_iffs insertRoute_def insertGeneration_def split: if_splits)

lemma canonicalRow_simps:
  "sr_id (canonicalRow u sp options ids now db) = ci_session ids" "sr_space (canonicalRow u sp options ids now db) = sp_id sp"
  "sr_user (canonicalRow u sp options ids now db) = u" "sr_generation (canonicalRow u sp options ids now db) = 1"
  "sr_status (canonicalRow u sp options ids now db) = Active" "sr_mode (canonicalRow u sp options ids now db) = sp_mode sp"
  by (simp_all add: canonicalRow_def Let_def)

lemma wf_createCanonical:
  assumes wf: "routesWf db" and own: "(sp_id sp, u) \<in> spaceKeys db"
  shows "routesWf (snd (createCanonical u sp options ids now db))"
  unfolding createCanonical_def
  by (intro wf_keep wf_insertWithGeneration)
    (auto simp: wf own canonicalRow_simps hasRoute_def intro!: wf_setCanonical dest!: insertWithGeneration_keys)

lemma alignMode_keys [simp]: "hasRoute i (snd (alignMode u mode now r db)) = hasRoute i db" "sr_id (fst (alignMode u mode now r db)) = sr_id r"
  unfolding hasRoute_def image_as_set_map by (simp_all add: alignMode_def updateRoutes_def map_tbl_update del: set_map)

lemma bestCandidate_in: "bestCandidate rs = Some r \<Longrightarrow> r \<in> set rs"
  by (induction rs arbitrary: r) (auto split: option.splits if_splits)

lemma readRoute_simps [simp]:
  "sr_id (readRoute r) = sr_id r" "sr_space (readRoute r) = sr_space r" "sr_user (readRoute r) = sr_user r"
  "sr_status (readRoute r) = sr_status r" "sr_generation (readRoute r) = sr_generation r" "sr_mode (readRoute r) = sr_mode r"
  "sr_dsh (readRoute r) = sr_dsh r" "sr_resets (readRoute r) = sr_resets r" "sr_snapshot (readRoute r) = sr_snapshot r"
  by (simp_all add: readRoute_def)

lemma wf_adoptCanonical:
  "routesWf db \<Longrightarrow> hasRoute (sr_id c) db \<Longrightarrow> routesWf (snd (adoptCanonical u sp now c db))"
  using wf_alignMode [of db u "sp_mode sp" now c]
  by (auto simp: adoptCanonical_def case_prod_unfold Let_def intro: wf_setCanonical)

lemma wf_getOrCreateCanonicalSession:
  "routesWf db \<Longrightarrow> routesWf (snd (getOrCreateCanonicalSession u spaceId options ids now db))"
  unfolding getOrCreateCanonicalSession_def
  by (intro wf_keep wf_createCanonical wf_adoptCanonical)
    (auto simp: hasRoute_def intro: getSpace_spaceKeys wf_alignMode dest: getSpace_key dest!: bestCandidate_in)

lemma wf_createGeneration: "routesWf db \<Longrightarrow> routesWf (snd (createGeneration u input newId now db))"
  unfolding createGeneration_def
  by (intro wf_keep wf_insertGeneration)
    (auto simp: ownRoute_def routeKeys_def split: option.splits if_splits dest!: tbl_get_Some)

lemma wf_createAccount:
  assumes wf: "routesWf db"
  shows "routesWf (snd (createAccount u input newId now db))"
proof -
  have new: "routesWf (db\<lparr>rt_accounts := rt_accounts db @ [a]\<rparr>)" (is "routesWf ?db")
    if "ca_id a \<notin> ca_id ` set (rt_accounts db)" "\<forall>i. ca_defaultSpace a = Some i \<longrightarrow> hasSpace i db" for a
  proof -
    have sk: "spaceKeys ?db = spaceKeys db" by (simp add: spaceKeys_def)
    have rk: "routeKeys ?db = routeKeys db" by (simp add: routeKeys_def)
    show ?thesis using wf that unfolding routesWf_def refsLive_def refsLive_cong [OF sk rk] sk rk keysUnique_def by simp
  qed
  show ?thesis unfolding createAccount_def Let_def using wf by (intro wf_keep) (auto intro!: new)
qed

lemma wf_updateAccount:
  assumes wf: "routesWf db"
  shows "routesWf (snd (updateAccount u i input now db))"
proof -
  have "routesWf (db\<lparr>rt_accounts := tbl_update (\<lambda>a. ca_id a = i \<and> ca_user a = u) (applyAccountUpdate input now) (rt_accounts db)\<rparr>)"
    if "optAll (optAll (\<lambda>s. hasSpace s db)) (au_defaultSpace input)"
    using wf that by (intro wf_accounts)
      (auto simp: applyAccountUpdate_def patched_def routesWf_def refsLive_def split: option.splits)
  with wf show ?thesis unfolding updateAccount_def Let_def by (intro wf_keep) auto
qed

lemma wf_deleteAccount: "routesWf db \<Longrightarrow> routesWf (snd (deleteAccount u i db))"
  by (simp add: deleteAccount_def wf_filter_rows)

lemma wf_createBinding: "routesWf db \<Longrightarrow> routesWf (snd (createBinding u input newId now db))"
  unfolding createBinding_def Let_def
  by (intro wf_keep wf_insertBinding) (auto simp: bindingRow_def intro: getSpace_spaceKeys)

lemma wf_updateBinding:
  assumes wf: "routesWf db"
  shows "routesWf (snd (updateBinding u i input now db))"
proof -
  have "routesWf (db\<lparr>rt_bindings := tbl_update (ownBinding u i) (applyBindingUpdate input now) (rt_bindings db)\<rparr>)"
    if s: "optAll (\<lambda>s. getSpace u s db \<noteq> None) (bu_space input)"
      and r: "optAll (optAll (\<lambda>r. tbl_get (ownRoute u r) (rt_routes db) \<noteq> None)) (bu_route input)"
  proof (rule wf_bindings [OF wf])
    fix b assume b: "b \<in> set (rt_bindings db)" "ownBinding u i b" "bindingRefs db b"
    have "hasRoute j db" if "bu_route input = Some (Some j)" for j
      using r that by (auto simp: hasRoute_def ownRoute_def tbl_get_None)
    with b s show "bindingRefs db (applyBindingUpdate input now b)"
      unfolding getSpace_keys
      by (auto simp: bindingRefs_def applyBindingUpdate_def patched_def ownBinding_def split: option.splits)
  qed (simp_all add: applyBindingUpdate_def)
  with wf show ?thesis unfolding updateBinding_def Let_def by (intro wf_keep) auto
qed

lemma wf_setGroupActivationMode: "routesWf db \<Longrightarrow> routesWf (snd (setGroupActivationModeForAccountBindings u account mode now db))"
  unfolding setGroupActivationModeForAccountBindings_def Let_def
  by (intro wf_keep) (auto simp: bindingRefs_def intro: wf_bindings)

lemma wf_deleteBinding: "routesWf db \<Longrightarrow> routesWf (snd (deleteBinding u i db))"
  by (simp add: deleteBinding_def wf_filter_bindings)

lemma wf_deleteTopicBindings: "routesWf db \<Longrightarrow> routesWf (snd (deleteTopicBindingsForChat u account chat db))"
  by (simp add: deleteTopicBindingsForChat_def Let_def wf_filter_bindings)

section \<open>Sequences of calls\<close>

datatype routeCall =
    CreateSpace createSpaceInput string
  | UpdateSpace string updateSpaceInput
  | DeleteSpace string
  | CreateRoute createRouteInput string string
  | UpdateRoute string updateRouteInput
  | ResetRoute string resetRouteInput string string
  | DeleteRoute string
  | CanonicalSession string canonicalOptions canonicalIds
  | CreateGeneration createGenerationInput string
  | CreateAccount createAccountInput string
  | UpdateAccount string updateAccountInput
  | DeleteAccount string
  | CreateBinding createBindingInput string
  | UpdateBinding string updateBindingInput
  | SetGroupActivationMode string activationMode
  | DeleteBinding string
  | DeleteTopicBindings string string

fun routeExec :: "string \<Rightarrow> string \<Rightarrow> routeCall \<Rightarrow> routeDb \<Rightarrow> routeDb" where
  "routeExec u now (CreateSpace input newId) db = snd (createSpace u input newId now db)"
| "routeExec u now (UpdateSpace i input) db = snd (updateSpace u i input now db)"
| "routeExec u now (DeleteSpace i) db = snd (deleteSpace u i db)"
| "routeExec u now (CreateRoute input newId genId) db = snd (createRoute u input newId genId now db)"
| "routeExec u now (UpdateRoute i input) db = snd (updateRoute u i input now db)"
| "routeExec u now (ResetRoute i input genId nowIso) db = snd (resetRoute u i input genId nowIso now db)"
| "routeExec u now (DeleteRoute i) db = snd (deleteRoute u i db)"
| "routeExec u now (CanonicalSession spaceId options ids) db = snd (getOrCreateCanonicalSession u spaceId options ids now db)"
| "routeExec u now (CreateGeneration input newId) db = snd (createGeneration u input newId now db)"
| "routeExec u now (CreateAccount input newId) db = snd (createAccount u input newId now db)"
| "routeExec u now (UpdateAccount i input) db = snd (updateAccount u i input now db)"
| "routeExec u now (DeleteAccount i) db = snd (deleteAccount u i db)"
| "routeExec u now (CreateBinding input newId) db = snd (createBinding u input newId now db)"
| "routeExec u now (UpdateBinding i input) db = snd (updateBinding u i input now db)"
| "routeExec u now (SetGroupActivationMode account mode) db = snd (setGroupActivationModeForAccountBindings u account mode now db)"
| "routeExec u now (DeleteBinding i) db = snd (deleteBinding u i db)"
| "routeExec u now (DeleteTopicBindings account chat) db = snd (deleteTopicBindingsForChat u account chat db)"

text \<open>A call is made by a tenant at a time.\<close>

definition routeRun :: "(string \<times> string \<times> routeCall) list \<Rightarrow> routeDb \<Rightarrow> routeDb" where
  "routeRun calls db = fold (\<lambda>(u, now, c). routeExec u now c) calls db"

lemmas wf_operations = wf_createSpace wf_updateSpace wf_deleteSpace wf_createRoute wf_updateRoute wf_resetRoute wf_deleteRoute
  wf_getOrCreateCanonicalSession wf_createGeneration wf_createAccount wf_updateAccount wf_deleteAccount wf_createBinding
  wf_updateBinding wf_setGroupActivationMode wf_deleteBinding wf_deleteTopicBindings

lemma wf_routeExec: "routesWf db \<Longrightarrow> routesWf (routeExec u now c db)"
  by (cases c) (simp_all only: routeExec.simps wf_operations)

interpretation routes: invariant_ops "\<lambda>(u, now, c) db. (Inr () :: unit + unit, routeExec u now c db)" routesWf
  by unfold_locales (auto simp: wf_routeExec)

lemma wf_routeRun: "routesWf db \<Longrightarrow> routesWf (routeRun calls db)"
  using routes.run_keeps [of db calls] by (simp add: routeRun_def case_prod_unfold)

definition noRoutes :: routeDb where
  "noRoutes = \<lparr>rt_spaces = [], rt_routes = [], rt_generations = [], rt_profiles = [], rt_snapshots = [], rt_accounts = [], rt_bindings = []\<rparr>"

lemma wf_noRoutes [simp]: "routesWf noRoutes"
  by (simp add: routesWf_def keysUnique_def refsLive_def noRoutes_def)

end
