(* ===== verification/Route_Theorems.thy ===== *)
theory Route_Theorems
  imports Route_Invariant
begin

text \<open>
  What the routing of messages promises: the numbers of the generations, the canonical session of a
  space, and the session the resolver chooses. The resolver is proved against an interface of its ports
  (\<open>route_ports\<close>), which the repositories implement.
\<close>

section \<open>Generations are numbered without a gap\<close>

definition generationNumbers :: "string \<Rightarrow> routeDb \<Rightarrow> int set" where
  "generationNumbers i db = sg_number ` {g \<in> set (rt_generations db). sg_route g = i}"

definition genInStep :: "routeDb \<Rightarrow> bool" where
  "genInStep db \<longleftrightarrow> (\<forall>r \<in> set (rt_routes db). generationNumbers (sr_id r) db = {1..sr_generation r} \<and> 1 \<le> sr_generation r)"

definition genInv :: "routeDb \<Rightarrow> bool" where
  "genInv db \<longleftrightarrow> routesWf db \<and> genInStep db"

definition sameGens :: "routeDb \<Rightarrow> routeDb \<Rightarrow> bool" where
  "sameGens db db' \<longleftrightarrow> rt_generations db' = rt_generations db \<and>
     map (\<lambda>r. (sr_id r, sr_generation r)) (rt_routes db') = map (\<lambda>r. (sr_id r, sr_generation r)) (rt_routes db)"

lemma genInStep_pairs:
  "genInStep db \<longleftrightarrow> (\<forall>(i, n) \<in> set (map (\<lambda>r. (sr_id r, sr_generation r)) (rt_routes db)). generationNumbers i db = {1..n} \<and> 1 \<le> n)"
  by (simp add: genInStep_def)

lemma genInStep_same: "sameGens db db' \<Longrightarrow> genInStep db \<Longrightarrow> genInStep db'"
  by (simp only: genInStep_pairs sameGens_def generationNumbers_def)

lemmas same_keep = keep_rules [where Q = "sameGens db" for db]

lemma sameGens_rows [simp]:
  "sameGens db (db\<lparr>rt_spaces := x\<rparr>)" "sameGens db (db\<lparr>rt_bindings := y\<rparr>)" "sameGens db (db\<lparr>rt_accounts := z\<rparr>)"
  "sameGens db (db\<lparr>rt_accounts := z, rt_bindings := y\<rparr>)" "sameGens db db"
  by (simp_all add: sameGens_def)

lemma sameGens_insertSpace: "sameGens db (snd (insertSpace s db))"
  by (simp add: insertSpace_def)

lemma sameGens_createSpace: "sameGens db (snd (createSpace u input newId now db))"
  unfolding createSpace_def by (intro same_keep sameGens_insertSpace) simp_all

lemma sameGens_updateSpace: "sameGens db (snd (updateSpace u i input now db))"
  unfolding updateSpace_def by (intro same_keep) simp_all

lemma sameGens_account:
  "sameGens db (snd (createAccount u input newId now db))"
  "sameGens db (snd (updateAccount u i input' now db))"
  "sameGens db (snd (deleteAccount u i db))"
  by (auto simp: createAccount_def updateAccount_def deleteAccount_def Let_def split: option.split)

lemma sameGens_insertBinding: "sameGens db (snd (insertBinding b db))"
  by (simp add: insertBinding_def)

lemma sameGens_binding:
  "sameGens db (snd (createBinding u input newId now db))"
  "sameGens db (snd (updateBinding u i input' now db))"
  "sameGens db (snd (setGroupActivationModeForAccountBindings u account mode now db))"
  "sameGens db (snd (deleteBinding u i db))"
  "sameGens db (snd (deleteTopicBindingsForChat u account chat db))"
proof -
  show "sameGens db (snd (createBinding u input newId now db))"
    unfolding createBinding_def Let_def by (intro same_keep sameGens_insertBinding) simp_all
qed (auto simp: updateBinding_def setGroupActivationModeForAccountBindings_def deleteBinding_def deleteTopicBindingsForChat_def
       Let_def split: option.split)

lemma sameGens_updateRoutes: "(\<And>r. sr_id (f r) = sr_id r \<and> sr_generation (f r) = sr_generation r) \<Longrightarrow> sameGens db (updateRoutes u i f db)"
  by (simp add: sameGens_def updateRoutes_def map_tbl_update)

lemma sameGens_updateRoute: "sameGens db (snd (updateRoute u i input now db))"
  unfolding updateRoute_def by (intro same_keep) (simp_all add: sameGens_updateRoutes applyRouteUpdate_def)

lemma sameGens_setCanonical: "sameGens db db' \<Longrightarrow> sameGens db (setCanonical u s i now db')"
  by (simp add: sameGens_def setCanonical_def)

lemma sameGens_alignMode: "sameGens db (snd (alignMode u mode now r db))"
  by (simp add: alignMode_def sameGens_updateRoutes)

text \<open>A transaction: the state before, or the state of an action that succeeded.\<close>

lemma keep_success: "Q s \<Longrightarrow> (\<And>x s'. m s = (Inr x, s') \<Longrightarrow> Q s') \<Longrightarrow> Q (snd (withImmediateTransactionSync m s))"
  by (auto simp: withImmediateTransactionSync_def split: prod.splits sum.splits)

lemma insertWithGeneration_rows:
  assumes "insertWithGeneration r genId snapshot now db = (Inr (), db')"
  shows "sr_id r \<notin> sr_id ` set (rt_routes db)" "rt_routes db' = rt_routes db @ [r]" "rt_spaces db' = rt_spaces db"
    "\<exists>g. rt_generations db' = rt_generations db @ [g] \<and> sg_route g = sr_id r \<and> sg_number g = 1"
  using assms by (auto simp: insertWithGeneration_def op_iffs insertRoute_def insertGeneration_def split: if_splits)

lemma generationNumbers_none: "refsLive db \<Longrightarrow> \<not> hasRoute i db \<Longrightarrow> generationNumbers i db = {}"
  by (force simp: generationNumbers_def refsLive_def hasRoute_def routeKeys_def)

lemma genInStep_insert:
  assumes inv: "genInv db" and ins: "insertWithGeneration r genId snapshot now db = (Inr (), db')" and one: "sr_generation r = 1"
  shows "genInStep db'"
proof -
  obtain g where g: "rt_generations db' = rt_generations db @ [g]" "sg_route g = sr_id r" "sg_number g = 1"
    using insertWithGeneration_rows(4) [OF ins] by blast
  note rows = insertWithGeneration_rows(1,2) [OF ins]
  have none: "generationNumbers (sr_id r) db = {}"
    using inv rows(1) by (intro generationNumbers_none) (auto simp: genInv_def routesWf_def hasRoute_def)
  have num: "generationNumbers j db' = (if j = sr_id r then insert 1 (generationNumbers j db) else generationNumbers j db)" for j
    using g by (auto simp: generationNumbers_def)
  show ?thesis
    unfolding genInStep_def rows(2)
  proof
    fix x assume "x \<in> set (rt_routes db @ [r])"
    then consider "x = r" | "x \<in> set (rt_routes db)" "sr_id x \<noteq> sr_id r" using rows(1) by (cases "x = r") (auto simp: image_iff)
    then show "generationNumbers (sr_id x) db' = {1..sr_generation x} \<and> 1 \<le> sr_generation x"
    proof cases
      case 1
      then show ?thesis by (simp add: num none one)
    next
      case 2
      then show ?thesis using inv by (simp add: num genInv_def genInStep_def)
    qed
  qed
qed

lemma genInStep_createRoute: "genInv db \<Longrightarrow> genInStep (snd (createRoute u input newId genId now db))"
  unfolding createRoute_def Let_def
  by (intro keep_check [where Q = genInStep] keep_success [where Q = genInStep])
    (auto simp: op_iffs genInv_def fetchRoute_def routeRow_def split: option.splits intro: genInStep_insert [unfolded genInv_def])

lemma genInStep_clearRoutes: "genInStep db \<Longrightarrow> genInStep (clearRoutes gone db)"
proof -
  assume g: "genInStep db"
  have "generationNumbers (sr_id r) (clearRoutes gone db) = generationNumbers (sr_id r) db" if "\<not> gone (sr_id r)" for r :: sessionRoute
    using that by (auto simp: generationNumbers_def clearRoutes_def)
  then show ?thesis using g by (simp add: genInStep_def clearRoutes_def)
qed

lemma genInStep_clearSpace: "genInStep db \<Longrightarrow> genInStep (clearSpace i db)"
proof (rule genInStep_same)
  let ?db = "clearRoutes (\<lambda>x. x \<in> set (map sr_id (filter (\<lambda>r. sr_space r = i) (rt_routes db)))) db"
  show "sameGens ?db (clearSpace i db)" by (simp add: sameGens_def clearSpace_def Let_def)
  show "genInStep db \<Longrightarrow> genInStep ?db" by (rule genInStep_clearRoutes)
qed

lemma genInStep_createCanonical:
  assumes "genInv db" "createCanonical u sp options ids now db = (Inr x, db')"
  shows "genInStep db'"
proof -
  obtain row db1 where "insertWithGeneration row (ci_generation ids) (sp_snapshot sp) now db = (Inr (), db1)" "sr_generation row = 1"
    and "db' = db1 \<or> db' = setCanonical u (sp_id sp) (ci_session ids) now db1"
    using assms(2) unfolding createCanonical_def seq_Inr_iff
    by (auto simp: fetchRoute_def canonicalRow_simps split: option.splits if_splits)
  then show ?thesis
    using genInStep_insert [OF assms(1)] genInStep_same [OF sameGens_setCanonical [OF sameGens_rows(5)]] by blast
qed

lemma genInStep_getOrCreateCanonicalSession:
  assumes "genInv db"
  shows "genInStep (snd (getOrCreateCanonicalSession u spaceId options ids now db))"
proof -
  have g: "genInStep db" using assms by (simp add: genInv_def)
  show ?thesis
    unfolding getOrCreateCanonicalSession_def
    by (intro keep_check [where Q = genInStep] keep_success [where Q = genInStep] g)
      (auto simp: g adoptCanonical_def case_prod_unfold Let_def split: option.splits if_splits
        intro: genInStep_createCanonical [OF assms] genInStep_same [OF sameGens_alignMode g]
          genInStep_same [OF sameGens_setCanonical [OF sameGens_alignMode] g])
qed

text \<open>A reset adds the next number and moves the route to it.\<close>

lemma genInStep_reset:
  assumes inv: "genInv db" and r0: "r0 \<in> set (rt_routes db)" "sr_id r0 = i" "sr_user r0 = u"
    and route: "sr_generation route = sr_generation r0"
    and g: "sg_route g = i" "sg_number g = sr_generation r0 + 1"
  shows "genInStep (updateRoutes u i (applyReset dsh snapshot nowIso now route) (db\<lparr>rt_generations := rt_generations db @ [g]\<rparr>))"
    (is "genInStep ?db")
  unfolding genInStep_def
proof
  fix x assume "x \<in> set (rt_routes ?db)"
  then obtain y where y: "y \<in> set (rt_routes db)"
      and x: "x = (if ownRoute u i y then applyReset dsh snapshot nowIso now route y else y)"
    by (auto simp: updateRoutes_def tbl_update_def)
  have old: "generationNumbers (sr_id y) db = {1..sr_generation y}" "1 \<le> sr_generation y"
    using inv y by (auto simp: genInv_def genInStep_def)
  have num: "generationNumbers j ?db = (if j = i then insert (sr_generation r0 + 1) (generationNumbers j db) else generationNumbers j db)" for j
    unfolding generationNumbers_def g(2) [symmetric] using g(1) by (auto simp: updateRoutes_def)
  show "generationNumbers (sr_id x) ?db = {1..sr_generation x} \<and> 1 \<le> sr_generation x"
  proof (cases "sr_id y = i")
    case True
    then have "y = r0" using inv y r0 by (auto simp: genInv_def routesWf_def keysUnique_def distinct_map dest: inj_onD)
    moreover from this have "ownRoute u i y" using r0 by (simp add: ownRoute_def)
    ultimately show ?thesis
      using old route r0 by (auto simp: x num applyReset_def)
  next
    case False
    then show ?thesis using old by (simp add: x num ownRoute_def)
  qed
qed

lemma resetRows_success:
  assumes "resetRows g nowIso now route db = (Inr res, db')"
  shows "db' = updateRoutes (sg_user g) (sg_route g) (applyReset (sg_dsh g) (sg_snapshot g) nowIso now route)
     (db\<lparr>rt_generations := rt_generations db @ [g]\<rparr>)"
  using assms by (auto simp: resetRows_def Let_def seq_Inr_iff insertGeneration_def split: option.splits if_splits)

lemma resetRoute_success:
  assumes "resetRoute u i input genId nowIso now db = (Inr res, db')"
  obtains route g where "getRoute u i db = Some route" "sg_user g = u" "sg_route g = i" "sg_number g = sr_generation route + 1"
    "resetRows g nowIso now route db = (Inr res, db')"
proof -
  obtain route dsh snapshot where "getRoute u i db = Some route"
    and "resetRows \<lparr>sg_id = genId, sg_user = u, sg_route = i, sg_number = sr_generation route + 1, sg_dsh = dsh, sg_snapshot = snapshot,
         sg_reason = rs_reason input, sg_created = now\<rparr> nowIso now route db = (Inr res, db')"
    using assms unfolding resetRoute_def
    by (auto simp: check_Inr_iff validateSessionId_def split: option.splits if_splits)
  then show ?thesis by (intro that) auto
qed

lemma genInStep_resetRoute:
  assumes "genInv db"
  shows "genInStep (snd (resetRoute u i input genId nowIso now db))"
proof (cases "resetRoute u i input genId nowIso now db")
  case (Pair x db')
  show ?thesis
  proof (cases x)
    case (Inl e)
    with Pair have "db' = db" by (auto simp: resetRoute_def check_Inl_iff check_Inr_iff transaction_Inl_iff)
    with Pair assms show ?thesis by (simp add: genInv_def)
  next
    case (Inr res)
    with Pair have eq: "resetRoute u i input genId nowIso now db = (Inr res, db')" by simp
    show ?thesis
      by (rule resetRoute_success [OF eq]) (auto simp: eq dest!: getRoute_key resetRows_success intro!: genInStep_reset [OF assms])
  qed
qed

lemma genInStep_delete:
  "genInStep db \<Longrightarrow> genInStep (snd (deleteRoute u i db))" "genInStep db \<Longrightarrow> genInStep (snd (deleteSpace u i db))"
  by (simp_all add: deleteRoute_def deleteSpace_def genInStep_clearRoutes genInStep_clearSpace)

fun byRoutesRepo :: "routeCall \<Rightarrow> bool" where
  "byRoutesRepo (CreateGeneration _ _) = False"
| "byRoutesRepo _ = True"

lemmas gen_same = sameGens_createSpace sameGens_updateSpace sameGens_updateRoute sameGens_account sameGens_binding

lemmas gen_steps = genInStep_createRoute genInStep_resetRoute genInStep_getOrCreateCanonicalSession

lemma genInv_exec:
  assumes "genInv db" "byRoutesRepo c"
  shows "genInv (routeExec u now c db)"
proof -
  have g: "genInStep db" using assms by (simp add: genInv_def)
  have "genInStep (routeExec u now c db)"
    using assms(2) by (cases c) (simp_all only: routeExec.simps byRoutesRepo.simps gen_steps [OF assms(1)]
      genInStep_delete [OF g] gen_same [THEN genInStep_same, OF g])
  with assms wf_routeExec show ?thesis by (simp add: genInv_def)
qed

lemma genInv_run:
  assumes "genInv db" "list_all (\<lambda>(u, now, c). byRoutesRepo c) calls"
  shows "genInv (routeRun calls db)"
  using assms by (induction calls arbitrary: db) (auto simp: routeRun_def genInv_exec)

text \<open>A database with agent profiles and no route.\<close>

definition freshRoutes :: "agentProfile list \<Rightarrow> agentProfileSnapshot list \<Rightarrow> routeDb" where
  "freshRoutes profiles snapshots = noRoutes\<lparr>rt_profiles := profiles, rt_snapshots := snapshots\<rparr>"

lemma genInv_fresh [simp]: "genInv (freshRoutes profiles snapshots)"
  by (simp add: genInv_def genInStep_def routesWf_def keysUnique_def refsLive_def noRoutes_def freshRoutes_def)

lemma getRoute_unique:
  assumes "routesWf db" "r \<in> set (rt_routes db)"
  shows "getRoute (sr_user r) (sr_id r) db = Some (readRoute r)"
proof -
  have "tbl_get (ownRoute (sr_user r) (sr_id r)) (rt_routes db) = Some r"
    using assms by (intro tbl_get_unique) (auto simp: ownRoute_def routesWf_def keysUnique_def distinct_map dest: inj_onD)
  then show ?thesis by (simp add: getRoute_def)
qed

lemma resetRows_ok:
  assumes inv: "genInv db" and route: "getRoute u i db = Some route"
    and g: "sg_user g = u" "sg_route g = i" "sg_number g = sr_generation route + 1" "sg_id g \<notin> sg_id ` set (rt_generations db)"
    and snapshot: "optAll (\<lambda>s. s \<in> as_id ` set (rt_snapshots db)) (sg_snapshot g)"
  shows "resetRows g nowIso now route db = (Inr (applyReset (sg_dsh g) (sg_snapshot g) nowIso now route route, g),
     updateRoutes u i (applyReset (sg_dsh g) (sg_snapshot g) nowIso now route) (db\<lparr>rt_generations := rt_generations db @ [g]\<rparr>))"
proof -
  obtain r0 where r0: "r0 \<in> set (rt_routes db)" "route = readRoute r0" "sr_id r0 = i" "sr_user r0 = u"
    using getRoute_key [OF route] by blast
  have num: "generationNumbers i db = {1..sr_generation route}" using inv r0 by (auto simp: genInv_def genInStep_def)
  have new: "sg_number x \<noteq> sg_number g" if "x \<in> set (rt_generations db)" "sg_route x = i" for x
  proof -
    have "sg_number x \<in> generationNumbers i db" using that by (auto simp: generationNumbers_def)
    then show ?thesis using num g(3) by simp
  qed
  have "hasRoute i db" using r0 by (auto simp: hasRoute_def)
  moreover have "\<not> (\<exists>x \<in> set (rt_generations db). sg_id x = sg_id g \<or> (sg_route x = sg_route g \<and> sg_number x = sg_number g))"
    using new g(2,4) by (auto simp: image_iff)
  ultimately have ins: "insertGeneration g db = (Inr (), db\<lparr>rt_generations := rt_generations db @ [g]\<rparr>)"
    using g(2) snapshot by (simp add: insertGeneration_def)
  let ?f = "applyReset (sg_dsh g) (sg_snapshot g) nowIso now route"
  have get: "getRoute u i (updateRoutes u i ?f (db\<lparr>rt_generations := rt_generations db @ [g]\<rparr>)) = Some (?f route)"
  proof -
    have "tbl_get (ownRoute u i) (rt_routes db) = Some r0"
      using inv r0 by (intro tbl_get_unique) (auto simp: genInv_def ownRoute_def routesWf_def keysUnique_def distinct_map dest: inj_onD)
    then have "tbl_get (ownRoute u i) (tbl_update (ownRoute u i) ?f (rt_routes db)) = Some (?f r0)"
      by (subst tbl_get_update_same) (auto simp: ownRoute_def applyReset_def dest: tbl_get_Some)
    then show ?thesis by (simp add: getRoute_def updateRoutes_def r0 readRoute_def applyReset_def)
  qed
  have "tbl_get (\<lambda>x. sg_id x = sg_id g \<and> sg_user x = sg_user g) (rt_generations db @ [g]) = Some g"
    using g(4) by (intro tbl_get_unique) (auto simp: image_iff)
  then show ?thesis by (simp add: resetRows_def seq_def ins g get Let_def) (simp add: updateRoutes_def g)
qed

lemma generationNumbers_reset:
  assumes "sg_route g = i"
  shows "generationNumbers i (updateRoutes u i f (db\<lparr>rt_generations := rt_generations db @ [g]\<rparr>)) = insert (sg_number g) (generationNumbers i db)"
  using assms by (auto simp: generationNumbers_def updateRoutes_def)

lemma latest_after_reset:
  assumes "isValidSessionId i" "sg_route g = i" "sg_user g = u" "generationNumbers i db = {1..n}" "sg_number g = n + 1"
  shows "getLatestByRouteId u i (updateRoutes u i f (db\<lparr>rt_generations := rt_generations db @ [g]\<rparr>)) = Some g"
proof -
  have "sg_number x < sg_number g" if "x \<in> set (generationsOf u i db)" for x
  proof -
    have "sg_number x \<in> generationNumbers i db" using that by (auto simp: generationNumbers_def generationsOf_def)
    then show ?thesis using assms(4,5) by simp
  qed
  then have "firstMax sg_number (generationsOf u i db @ [g]) = Some g" by (rule firstMax_snoc)
  then show ?thesis using assms(1-3) by (simp add: getLatestByRouteId_def generationsOf_def updateRoutes_def)
qed

text \<open>
  C19. As long as the generations are written by the routes' repository alone, a session can always be
  reset: whatever calls tenants made before, a reset of an existing route with a valid host session, a
  snapshot that exists and a new generation identifier succeeds, the route moves to the next generation
  and to the new host session, its counter of resets grows by one, the new generation is the latest of
  the route, and the numbers of the route's generations are one to the current one, without a gap.
\<close>

theorem reset_next_generation:
  assumes calls: "list_all (\<lambda>(v, t, c). byRoutesRepo c) calls" and db: "db = routeRun calls (freshRoutes profiles snapshots)"
    and valid: "isValidSessionId i" "isValidSessionId (rs_dsh input)" and route: "getRoute u i db = Some route"
    and snapshot: "resetSnapshot u input route db = Inr snap" "optAll (\<lambda>s. s \<in> as_id ` set (rt_snapshots db)) snap"
    and fresh: "genId \<notin> sg_id ` set (rt_generations db)"
  shows "\<exists>route' g db'. resetRoute u i input genId nowIso now db = (Inr (route', g), db') \<and>
     sr_generation route' = sr_generation route + 1 \<and> sr_resets route' = sr_resets route + 1 \<and> sr_dsh route' = rs_dsh input \<and>
     sg_number g = sr_generation route' \<and> sg_dsh g = rs_dsh input \<and> getLatestByRouteId u i db' = Some g \<and>
     generationNumbers i db' = {1..sr_generation route'}"
proof -
  have inv: "genInv db" unfolding db using calls by (intro genInv_run) simp_all
  obtain r0 where r0: "r0 \<in> set (rt_routes db)" "route = readRoute r0" "sr_id r0 = i" using getRoute_key [OF route] by blast
  have num: "generationNumbers i db = {1..sr_generation route}" "1 \<le> sr_generation route"
    using inv r0 by (auto simp: genInv_def genInStep_def)
  define g where "g = \<lparr>sg_id = genId, sg_user = u, sg_route = i, sg_number = sr_generation route + 1, sg_dsh = rs_dsh input,
    sg_snapshot = snap, sg_reason = rs_reason input, sg_created = now\<rparr>"
  have given: "requireText (rs_dsh input \<noteq> []) m = Inr ()" for m using valid(2) by (simp add: requireText_def isValidSessionId_def idPattern_def)
  have reset: "resetRoute u i input genId nowIso now db = resetRows g nowIso now route db"
    using resetRows_ok [OF inv route, of g nowIso now] fresh snapshot(2) unfolding g_def
    by (simp add: resetRoute_def validateSessionId_def valid given withImmediateTransactionSync_def route snapshot(1))
  have rows: "resetRows g nowIso now route db = (Inr (applyReset (rs_dsh input) snap nowIso now route route, g),
     updateRoutes u i (applyReset (rs_dsh input) snap nowIso now route) (db\<lparr>rt_generations := rt_generations db @ [g]\<rparr>))"
    using resetRows_ok [OF inv route, of g nowIso now] fresh snapshot(2) by (simp add: g_def)
  show ?thesis
    unfolding reset rows using num valid(1) by (auto simp: applyReset_def generationNumbers_reset g_def intro!: latest_after_reset)
qed

lemma generationsOf_all:
  assumes "routesWf db" "(i, u) \<in> routeKeys db"
  shows "generationsOf u i db = filter (\<lambda>g. sg_route g = i) (rt_generations db)"
proof -
  have "sg_user g = u" if "g \<in> set (rt_generations db)" "sg_route g = i" for g
    using assms that by (auto simp: routesWf_def refsLive_def keysUnique_def routeKeys_def distinct_map dest!: bspec dest: inj_onD)
  then show ?thesis unfolding generationsOf_def by (intro filter_cong) auto
qed

lemma nextGenerationNumber_step:
  assumes inv: "genInv db" and r: "r \<in> set (rt_routes db)" "sr_id r = i" "sr_user r = u"
  shows "nextGenerationNumber u i db = sr_generation r + 1"
proof -
  have num: "generationNumbers i db = {1..sr_generation r}" "1 \<le> sr_generation r" using inv r by (auto simp: genInv_def genInStep_def)
  have gens: "sg_number ` set (generationsOf u i db) = generationNumbers i db"
    using inv r by (subst generationsOf_all) (auto simp: genInv_def routeKeys_def generationNumbers_def)
  then have ne: "generationsOf u i db \<noteq> []" using num by auto
  then obtain g where g: "firstMax sg_number (generationsOf u i db) = Some g" by (cases "firstMax sg_number (generationsOf u i db)") auto
  have "sg_number g \<in> generationNumbers i db" "\<forall>n \<in> generationNumbers i db. n \<le> sg_number g"
    unfolding gens [symmetric] using firstMax_Some [OF g] by auto
  then have "sg_number g = sr_generation r" using num by force
  then show ?thesis by (simp add: nextGenerationNumber_def g)
qed

lemma createGeneration_row:
  assumes "createGeneration u input newId now db = (Inr g, db')" "gi_number input = None"
  obtains r row where "tbl_get (ownRoute u (gi_route input)) (rt_routes db) = Some r"
    "sg_route row = gi_route input" "sg_number row = nextGenerationNumber u (gi_route input) db"
    "db' = db\<lparr>rt_generations := rt_generations db @ [row]\<rparr>"
proof -
  obtain j r i dsh snapshot n x db1 where j: "validateSessionId (gi_route input) = Inr j"
    and r: "(case tbl_get (ownRoute u j) (rt_routes db) of None \<Rightarrow> Inl (NotFoundError ''Session route not found'') | Some r \<Rightarrow> Inr r) = Inr r"
    and n: "(case gi_number input of None \<Rightarrow> Inr (nextGenerationNumber u j db)
        | Some n \<Rightarrow> if n \<le> 0 then Inl (ValidationError ''Invalid generation number'') else Inr n) = Inr n"
    and ins: "insertGeneration \<lparr>sg_id = i, sg_user = u, sg_route = j, sg_number = n, sg_dsh = dsh, sg_snapshot = snapshot,
            sg_reason = gi_reason input, sg_created = now\<rparr> db = (Inr x, db1)"
    and fin: "(case findGenerationById u i db1 of None \<Rightarrow> (Inl (NotFoundError ''Session generation not found''), db1)
        | Some g \<Rightarrow> (Inr g, db1)) = (Inr g, db')"
    using assms(1) unfolding createGeneration_def check_Inr_iff seq_Inr_iff by blast
  have "j = gi_route input" using j by (simp add: validateSessionId_def split: if_splits)
  moreover have "tbl_get (ownRoute u j) (rt_routes db) = Some r" using r by (simp split: option.splits)
  moreover have "n = nextGenerationNumber u j db" using n assms(2) by simp
  moreover have "db' = db1" using fin by (simp split: option.splits)
  ultimately show ?thesis using ins by (intro that) (auto simp: insertGeneration_def split: if_splits)
qed

text \<open>
  C40. The repository of generations also offers to add a generation with the next number, and does not
  move the route to it. From then on no reset of that route succeeds any more: every one throws, and
  leaves the tables as they were, whatever its input.
\<close>

theorem generation_create_blocks_reset:
  assumes calls: "list_all (\<lambda>(v, t, c). byRoutesRepo c) calls" and db: "db = routeRun calls (freshRoutes profiles snapshots)"
    and create: "createGeneration u input newId now db = (Inr g, db')" and auto: "gi_number input = None"
  shows "\<exists>e. resetRoute u (gi_route input) rinput genId nowIso now' db' = (Inl e, db')"
proof -
  let ?i = "gi_route input"
  have inv: "genInv db" unfolding db using calls by (intro genInv_run) simp_all
  obtain r row where get: "tbl_get (ownRoute u ?i) (rt_routes db) = Some r"
    and row: "sg_route row = ?i" "sg_number row = nextGenerationNumber u ?i db"
    and db': "db' = db\<lparr>rt_generations := rt_generations db @ [row]\<rparr>"
    by (rule createGeneration_row [OF create auto])
  have r: "r \<in> set (rt_routes db)" "sr_id r = ?i" "sr_user r = u" using tbl_get_Some [OF get] by (auto simp: ownRoute_def)
  have route: "getRoute u ?i db' = Some (readRoute r)" using get by (simp add: getRoute_def db')
  have taken: "insertGeneration x db' = (Inl UniqueViolation, db')" if "sg_route x = ?i" "sg_number x = sr_generation r + 1" for x
    using that row nextGenerationNumber_step [OF inv r] by (auto simp: insertGeneration_def db')
  then have rows: "resetRows x nowIso now' (readRoute r) db' = (Inl UniqueViolation, db')"
    if "sg_route x = ?i" "sg_number x = sr_generation r + 1" for x
    using that by (simp add: resetRows_def seq_def)
  show ?thesis
    by (auto simp: resetRoute_def check_def withImmediateTransactionSync_def validateSessionId_def route rows split: sum.split)
qed

section \<open>An example\<close>

text \<open>A space with two sessions, one of them archived, and a chat pinned to the archived one.\<close>

definition exRoute :: "string \<Rightarrow> string \<Rightarrow> string \<Rightarrow> createRouteInput" where
  "exRoute i native dsh = \<lparr>ri_id = Some i, ri_space = ''s1'', ri_channel = ''web'', ri_account = None, ri_native = native, ri_peer = None,
     ri_dsh = dsh, ri_mode = None, ri_status = None, ri_title = None, ri_profile = None, ri_snapshot = None, ri_cache = None, ri_window = None\<rparr>"

definition exRouteCalls :: "(string \<times> string \<times> routeCall) list" where
  "exRouteCalls =
     [(''u'', ''1'', CreateSpace \<lparr>si_id = Some ''s1'', si_name = ''Home'', si_folder = ''home'', si_mode = None, si_status = None,
         si_canonical = None, si_profile = None, si_snapshot = None, si_cache = None, si_window = None\<rparr> ''x''),
      (''u'', ''2'', CreateRoute (exRoute ''r1'' ''n1'' ''d1'') ''x'' ''g1''),
      (''u'', ''3'', CreateRoute (exRoute ''r2'' ''n2'' ''d2'') ''x'' ''g2''),
      (''u'', ''4'', UpdateRoute ''r2'' (noRouteUpdate\<lparr>ru_status := Some Archived\<rparr>)),
      (''u'', ''5'', CreateAccount \<lparr>ai_id = Some ''a1'', ai_type = ''lark'', ai_status = None, ai_credential = None, ai_defaultSpace = None,
         ai_groupMode = None\<rparr> ''x''),
      (''u'', ''6'', CreateBinding \<lparr>bi_id = Some ''b1'', bi_account = ''a1'', bi_space = ''s1'', bi_native = ''oc'', bi_activation = None,
         bi_busy = None, bi_chatType = None, bi_route = Some ''r2''\<rparr> ''x'')]"

definition exRoutes :: routeDb where
  "exRoutes = routeRun exRouteCalls (freshRoutes [] [])"

definition exBinding :: channelBinding where
  "exBinding = the (findBindingById ''u'' ''b1'' exRoutes)"

lemma ex_ids: "isValidSpaceId ''s1''" "isValidSessionId ''r1''" "isValidSessionId ''r2''" "isValidSessionId ''d1''" "isValidSessionId ''d2''" "idPattern 63 ''home''"
  by (simp_all add: isValidSpaceId_def isValidSessionId_def idPattern_def is_alnum_def is_digit_def)

lemmas route_eval = validateSpaceId_def validateSessionId_def validateSpaceFolder_def js_trim_def is_space_def ex_ids
  checkProfile_def checkSnapshot_def checkPatch_def getSpace_def tbl_get_def ownSpace_def ownRoute_def ownBinding_def seq_def fetchSpace_def
  findSpaceById_def insertSpace_def createSpace_def createRoute_def requireText_def insertWithGeneration_def insertRoute_def insertGeneration_def
  sameIdentity_def fetchRoute_def getRoute_def readRoute_def routeRow_def withImmediateTransactionSync_def Let_def hasRoute_def
  updateRoute_def updateRoutes_def applyRouteUpdate_def patched_def noRouteUpdate_def tbl_update_def
  createAccount_def trimmedId_def findAccountById_def createBinding_def findBindingByContext_def insertBinding_def bindingRow_def findBindingById_def
  freshRoutes_def noRoutes_def routeRun_def exRoute_def

definition exSpace :: space where
  "exSpace = \<lparr>sp_id = ''s1'', sp_user = ''u'', sp_name = ''Home'', sp_folder = ''home'', sp_mode = Container, sp_status = Active,
     sp_canonical = None, sp_profile = None, sp_snapshot = None, sp_cache = None, sp_window = None, sp_created = ''1'', sp_updated = ''1''\<rparr>"

definition exRouteRow :: "string \<Rightarrow> string \<Rightarrow> string \<Rightarrow> lifecycleStatus \<Rightarrow> string \<Rightarrow> string \<Rightarrow> sessionRoute" where
  "exRouteRow i native dsh st created updated = \<lparr>sr_id = i, sr_space = ''s1'', sr_user = ''u'', sr_channel = ''web'', sr_account = ''default'',
     sr_native = native, sr_peer = native, sr_dsh = dsh, sr_mode = Container, sr_status = st, sr_title = None, sr_lastReset = None, sr_resets = 0,
     sr_generation = 1, sr_profile = None, sr_snapshot = None, sr_cache = None, sr_window = None, sr_created = created, sr_updated = updated\<rparr>"

definition exGeneration :: "string \<Rightarrow> string \<Rightarrow> string \<Rightarrow> string \<Rightarrow> sessionGeneration" where
  "exGeneration i route dsh created = \<lparr>sg_id = i, sg_user = ''u'', sg_route = route, sg_number = 1, sg_dsh = dsh, sg_snapshot = None,
     sg_reason = Some ''initial'', sg_created = created\<rparr>"

lemma exRoutes_rows:
  "rt_spaces exRoutes = [exSpace]"
  "rt_routes exRoutes = [exRouteRow ''r1'' ''n1'' ''d1'' Active ''2'' ''2'', exRouteRow ''r2'' ''n2'' ''d2'' Archived ''3'' ''4'']"
  "rt_generations exRoutes = [exGeneration ''g1'' ''r1'' ''d1'' ''2'', exGeneration ''g2'' ''r2'' ''d2'' ''3'']"
  "rt_bindings exRoutes = [exBinding]"
  "rt_snapshots exRoutes = []"
  by (simp_all add: exRoutes_def exRouteCalls_def route_eval exSpace_def exRouteRow_def exGeneration_def exBinding_def)

lemma exBinding_row: "exBinding = \<lparr>cb_id = ''b1'', cb_user = ''u'', cb_account = ''a1'', cb_space = ''s1'', cb_native = ''oc'', cb_activation = Mention,
    cb_busy = Queue, cb_chatType = None, cb_route = Some ''r2'', cb_created = ''6'', cb_updated = ''6''\<rparr>"
  by (simp add: exBinding_def exRoutes_def exRouteCalls_def route_eval)

lemma exBinding_found: "findBindingById ''u'' ''b1'' exRoutes = Some exBinding" "findBindingById ''u'' ''b2'' exRoutes = None"
  by (simp_all add: findBindingById_def exRoutes_rows tbl_get_def ownBinding_def exBinding_row)

lemma exRoutes_calls: "list_all (\<lambda>(v, t, c). byRoutesRepo c) exRouteCalls"
  by (simp add: exRouteCalls_def)

lemma exRoutes_route: "getRoute ''u'' ''r1'' exRoutes = Some (exRouteRow ''r1'' ''n1'' ''d1'' Active ''2'' ''2'')"
  by (simp add: getRoute_def exRoutes_rows tbl_get_def ownRoute_def exRouteRow_def readRoute_def)

section \<open>The theorems at the example\<close>

theorem reset_next_generation_witness:
  "\<exists>route' g db'. resetRoute ''u'' ''r1'' \<lparr>rs_dsh = ''d2'', rs_reason = None, rs_snapshot = None\<rparr> ''g3'' ''8'' ''8'' exRoutes = (Inr (route', g), db') \<and>
     sr_generation route' = 2 \<and> sr_resets route' = 1 \<and> sr_dsh route' = ''d2'' \<and> sg_number g = 2 \<and> sg_dsh g = ''d2'' \<and>
     getLatestByRouteId ''u'' ''r1'' db' = Some g \<and> generationNumbers ''r1'' db' = {1..2}"
proof -
  let ?input = "\<lparr>rs_dsh = ''d2'', rs_reason = None, rs_snapshot = None\<rparr> :: resetRouteInput"
  have s: "resetSnapshot ''u'' ?input (exRouteRow ''r1'' ''n1'' ''d1'' Active ''2'' ''2'') exRoutes = Inr None"
    by (simp add: resetSnapshot_def exRouteRow_def)
  have "isValidSessionId (rs_dsh ?input)" "''g3'' \<notin> sg_id ` set (rt_generations exRoutes)"
    by (simp_all add: ex_ids exRoutes_rows exGeneration_def)
  from reset_next_generation [OF exRoutes_calls exRoutes_def ex_ids(2) this(1) exRoutes_route s _ this(2), of "''8''" "''8''"]
  show ?thesis by (auto simp: exRouteRow_def)
qed

definition exGenerationInput :: createGenerationInput where
  "exGenerationInput = \<lparr>gi_id = None, gi_route = ''r1'', gi_number = None, gi_dsh = None, gi_snapshot = None, gi_reason = None\<rparr>"

lemma exGeneration_created: "\<exists>g db'. createGeneration ''u'' exGenerationInput ''g3'' ''8'' exRoutes = (Inr g, db')"
proof -
  have "isValidGenerationId ''g3''" by (simp add: isValidGenerationId_def idPattern_def is_alnum_def)
  then show ?thesis
    by (simp add: createGeneration_def exGenerationInput_def validateSessionId_def ex_ids exRoutes_rows exRouteRow_def tbl_get_def ownRoute_def
      checkSnapshot_def nextGenerationNumber_def generationsOf_def exGeneration_def seq_def insertGeneration_def hasRoute_def findGenerationById_def)
qed

theorem generation_create_blocks_reset_witness:
  "\<exists>g db' e. createGeneration ''u'' exGenerationInput ''g3'' ''8'' exRoutes = (Inr g, db') \<and>
     resetRoute ''u'' ''r1'' \<lparr>rs_dsh = ''d2'', rs_reason = None, rs_snapshot = None\<rparr> ''g4'' ''9'' ''9'' db' = (Inl e, db')"
proof -
  obtain g db' where c: "createGeneration ''u'' exGenerationInput ''g3'' ''8'' exRoutes = (Inr g, db')" using exGeneration_created by blast
  show ?thesis
    using generation_create_blocks_reset [OF exRoutes_calls exRoutes_def c, of "\<lparr>rs_dsh = ''d2'', rs_reason = None, rs_snapshot = None\<rparr>" "''g4''" "''9''" "''9''"] c
    by (auto simp: exGenerationInput_def)
qed

end
