(* ===== verification/Route_Resolution.thy ===== *)
theory Route_Resolution
  imports Route_Theorems
begin

text \<open>
  The canonical session of a space, and the session the resolver of incoming messages chooses. The
  resolver is proved against an interface of its ports (\<open>route_ports\<close>) that the repositories implement.
\<close>

section \<open>The canonical session\<close>

definition canonicalIs :: "string \<Rightarrow> string \<Rightarrow> string \<Rightarrow> routeDb \<Rightarrow> bool" where
  "canonicalIs u spaceId i db \<longleftrightarrow> (\<exists>sp r. getSpace u spaceId db = Some sp \<and> sp_status sp = Active \<and> sp_canonical sp = Some i \<and>
     r \<in> set (rt_routes db) \<and> sr_id r = i \<and> sr_status r = Active \<and> sr_mode r = sp_mode sp \<and> sr_space r = spaceId \<and> sr_user r = u)"

lemma tbl_get_route:
  assumes "routesWf db" "r \<in> set (rt_routes db)" "P r" "\<And>x. P x \<Longrightarrow> sr_id x = sr_id r"
  shows "tbl_get P (rt_routes db) = Some r"
proof (rule tbl_get_unique)
  fix x assume x: "x \<in> set (rt_routes db)" "P x"
  have "inj_on sr_id (set (rt_routes db))" using assms(1) by (simp add: routesWf_def keysUnique_def distinct_map)
  with x assms(2) assms(4) [OF x(2)] show "x = r" by (auto dest: inj_onD)
qed (fact assms(2,3))+

lemma alignMode_same: "sr_mode r = mode \<Longrightarrow> alignMode u mode now r db = (r, db)"
  by (simp add: alignMode_def)

lemma alignMode_frame [simp]:
  "rt_spaces (snd (alignMode u mode now r db)) = rt_spaces db" "rt_bindings (snd (alignMode u mode now r db)) = rt_bindings db"
  "sr_status (fst (alignMode u mode now r db)) = sr_status r" "sr_space (fst (alignMode u mode now r db)) = sr_space r"
  "sr_user (fst (alignMode u mode now r db)) = sr_user r" "sr_mode (fst (alignMode u mode now r db)) = mode"
  by (simp_all add: alignMode_def updateRoutes_def)

lemma alignMode_row:
  assumes "r \<in> set (rt_routes db)" "sr_user r = u"
  obtains r' where "r' \<in> set (rt_routes (snd (alignMode u mode now (readRoute r) db)))" "sr_id r' = sr_id r"
    "sr_status r' = sr_status r" "sr_space r' = sr_space r" "sr_user r' = u" "sr_mode r' = mode"
proof (cases "sr_mode r = mode")
  case True
  with assms show ?thesis by (intro that [of r]) (simp_all add: alignMode_same)
next
  case False
  let ?r = "r\<lparr>sr_mode := mode, sr_updated := now\<rparr>"
  have "?r \<in> set (rt_routes (snd (alignMode u mode now (readRoute r) db)))"
    using False assms by (auto simp: alignMode_def updateRoutes_def set_tbl_update ownRoute_def intro!: image_eqI [of _ _ r])
  then show ?thesis using assms by (intro that [of ?r]) simp_all
qed

lemma canonical_again:
  assumes wf: "routesWf db" and c: "canonicalIs u spaceId i db" and i: "i \<noteq> []"
    and valid: "isValidSpaceId spaceId" and force: "\<not> co_forceNew options"
  shows "\<exists>r. getOrCreateCanonicalSession u spaceId options ids now db = (Inr r, db) \<and> sr_id r = i"
proof -
  obtain sp r where sp: "getSpace u spaceId db = Some sp" "sp_status sp = Active" "sp_canonical sp = Some i"
    and r: "r \<in> set (rt_routes db)" "sr_id r = i" "sr_status r = Active" "sr_mode r = sp_mode sp" "sr_space r = spaceId" "sr_user r = u"
    using c by (auto simp: canonicalIs_def)
  have "sp_id sp = spaceId" using getSpace_key [OF sp(1)] by simp
  then have "activeCanonical u sp db = Some (readRoute r)"
    using tbl_get_route [OF wf r(1), of "routeInSpace u spaceId i"] r sp(3) i
    by (simp add: activeCanonical_def routeInSpace_def truthy_def)
  then show ?thesis
    using sp force valid r by (simp add: getOrCreateCanonicalSession_def validateSpaceId_def withImmediateTransactionSync_def alignMode_same)
qed

lemma getSpace_setCanonical:
  "getSpace u s db = Some sp \<Longrightarrow> getSpace u s (setCanonical u s i now db) = Some (sp\<lparr>sp_canonical := Some i, sp_updated := now\<rparr>)"
  unfolding getSpace_def setCanonical_def
  by (simp, subst tbl_get_update_same) (auto simp: ownSpace_def dest: tbl_get_Some)

lemma getSpace_cong: "rt_spaces db' = rt_spaces db \<Longrightarrow> getSpace u s db' = getSpace u s db"
  by (simp add: getSpace_def)

lemma adoptCanonical_settles:
  assumes sp: "getSpace u (sp_id sp) db = Some sp" "sp_status sp = Active"
    and c: "c \<in> set (rt_routes db)" "inSpace u (sp_id sp) (Some Active) c"
    and res: "adoptCanonical u sp now (readRoute c) db = (Inr r, db')"
  shows "canonicalIs u (sp_id sp) (sr_id r) db' \<and> sr_status r = Active \<and> sr_space r = sp_id sp \<and> sr_user r = u \<and> rt_bindings db' = rt_bindings db"
proof -
  let ?a = "alignMode u (sp_mode sp) now (readRoute c) db"
  have r: "r = fst ?a" and db': "db' = setCanonical u (sp_id sp) (sr_id c) now (snd ?a)"
    using res by (auto simp: adoptCanonical_def case_prod_unfold Let_def)
  obtain c' where c': "c' \<in> set (rt_routes (snd ?a))" "sr_id c' = sr_id c" "sr_status c' = sr_status c" "sr_space c' = sr_space c"
      "sr_user c' = u" "sr_mode c' = sp_mode sp"
    using c by (auto simp: inSpace_def intro: alignMode_row [of c db u "sp_mode sp" now])
  have "getSpace u (sp_id sp) db' = Some (sp\<lparr>sp_canonical := Some (sr_id c), sp_updated := now\<rparr>)"
    unfolding db' by (intro getSpace_setCanonical) (simp add: getSpace_cong sp)
  then have "canonicalIs u (sp_id sp) (sr_id r) db'"
    using c c' sp(2) unfolding canonicalIs_def r db' by (auto simp: inSpace_def setCanonical_def)
  then show ?thesis using c by (simp add: r db' inSpace_def setCanonical_def)
qed

lemma getRoute_row: "routesWf db \<Longrightarrow> r \<in> set (rt_routes db) \<Longrightarrow> sr_id r = i \<Longrightarrow> sr_user r = u \<Longrightarrow> getRoute u i db = Some (readRoute r)"
  using tbl_get_route [of db r "ownRoute u i"] by (simp add: getRoute_def ownRoute_def)

lemma no_active_after_insert:
  assumes wf: "routesWf db" and sp: "getSpace u (sp_id sp) db = Some sp" and none: "activeCanonical u sp db = None"
    and rows: "rt_routes db1 = rt_routes db @ [row]" "sr_id row \<notin> sr_id ` set (rt_routes db)"
  shows "\<not> hasActiveCanonical u sp db1"
proof
  assume "hasActiveCanonical u sp db1"
  then obtain i x where i: "sp_canonical sp = Some i" "opt_truthy (Some i)" and x: "x \<in> set (rt_routes db @ [row])"
      "routeInSpace u (sp_id sp) i x" "sr_status x = Active"
    using rows(1) by (cases "sp_canonical sp") (auto simp: hasActiveCanonical_def tbl_get_None)
  have "hasRoute i db" using wf getSpace_key [OF sp] i(1) by (auto simp: routesWf_def refsLive_def)
  then have "x \<noteq> row" using x(2) rows(2) by (auto simp: hasRoute_def routeInSpace_def)
  then have "tbl_get (routeInSpace u (sp_id sp) i) (rt_routes db) = Some x"
    using x by (intro tbl_get_route [OF wf]) (auto simp: routeInSpace_def)
  then show False using none i x(3) by (simp add: activeCanonical_def)
qed

lemma createCanonical_settles:
  assumes wf: "routesWf db" and sp: "getSpace u (sp_id sp) db = Some sp" "sp_status sp = Active" and none: "activeCanonical u sp db = None"
    and res: "createCanonical u sp options ids now db = (Inr r, db')"
  shows "canonicalIs u (sp_id sp) (sr_id r) db' \<and> sr_status r = Active \<and> sr_space r = sp_id sp \<and> sr_user r = u \<and> rt_bindings db' = rt_bindings db"
proof -
  let ?row = "canonicalRow u sp options ids now db"
  obtain db1 where ins: "insertWithGeneration ?row (ci_generation ids) (sp_snapshot sp) now db = (Inr (), db1)"
    and fetch: "fetchRoute u (ci_session ids) ''Failed to retrieve newly created canonical session route''
         (if hasActiveCanonical u sp db1 then db1 else setCanonical u (sp_id sp) (ci_session ids) now db1) = (Inr r, db')"
    using res unfolding createCanonical_def seq_Inr_iff by auto
  note rows = insertWithGeneration_rows [OF ins]
  have "\<not> hasActiveCanonical u sp db1" by (rule no_active_after_insert [OF wf sp(1) none rows(2,1)])
  then have db': "db' = setCanonical u (sp_id sp) (ci_session ids) now db1" and get: "getRoute u (ci_session ids) db' = Some r"
    using fetch by (auto simp: fetchRoute_def split: option.splits)
  have row: "?row \<in> set (rt_routes db')" by (simp add: db' setCanonical_def rows(2))
  have wf': "routesWf db'"
    using wf_createCanonical [OF wf, of sp u options ids now] getSpace_spaceKeys [OF sp(1)] by (simp add: res)
  have r: "r = readRoute ?row" using getRoute_row [OF wf' row] get by (simp add: canonicalRow_simps)
  have "getSpace u (sp_id sp) db' = Some (sp\<lparr>sp_canonical := Some (ci_session ids), sp_updated := now\<rparr>)"
    unfolding db' by (intro getSpace_setCanonical) (simp add: getSpace_cong [OF rows(3)] sp)
  then have "canonicalIs u (sp_id sp) (sr_id r) db'"
    using row sp(2) unfolding canonicalIs_def by (auto simp: r canonicalRow_simps)
  moreover have "rt_bindings db1 = rt_bindings db"
    using ins by (auto simp: insertWithGeneration_def op_iffs insertRoute_def insertGeneration_def split: if_splits)
  ultimately show ?thesis by (simp add: r db' canonicalRow_simps setCanonical_def)
qed

lemma alignMode_settles:
  assumes sp: "getSpace u (sp_id sp) db = Some sp" "sp_status sp = Active" and c: "activeCanonical u sp db = Some c"
  shows "canonicalIs u (sp_id sp) (sr_id c) (snd (alignMode u (sp_mode sp) now c db))" "sr_status c = Active" "sr_space c = sp_id sp" "sr_user c = u"
proof -
  obtain i r where get: "tbl_get (routeInSpace u (sp_id sp) i) (rt_routes db) = Some r"
    and r: "c = readRoute r" "sr_status r = Active" "sp_canonical sp = Some i"
    using c by (cases "sp_canonical sp") (auto simp: activeCanonical_def split: option.splits if_splits)
  then have own: "r \<in> set (rt_routes db)" "sr_space r = sp_id sp" "sr_user r = u" "sr_id r = i"
    using tbl_get_Some [OF get] by (auto simp: routeInSpace_def)
  show "canonicalIs u (sp_id sp) (sr_id c) (snd (alignMode u (sp_mode sp) now c db))"
    unfolding r(1)
    by (rule alignMode_row [OF own(1,3)])
      (use sp r own in \<open>auto simp: canonicalIs_def getSpace_cong [of "snd (alignMode u (sp_mode sp) now (readRoute r) db)" db]\<close>)
  show "sr_status c = Active" "sr_space c = sp_id sp" "sr_user c = u" using r own by simp_all
qed

lemma canonical_settles:
  assumes wf: "routesWf db" and force: "\<not> co_forceNew options"
    and res: "getOrCreateCanonicalSession u spaceId options ids now db = (Inr r, db')"
  shows "canonicalIs u spaceId (sr_id r) db' \<and> sr_status r = Active \<and> sr_space r = spaceId \<and> sr_user r = u \<and> rt_bindings db' = rt_bindings db"
proof -
  obtain sp where sp: "getSpace u spaceId db = Some sp" "sp_status sp = Active"
    and body: "(case activeCanonical u sp db of
               Some r \<Rightarrow> (Inr (fst (alignMode u (sp_mode sp) now r db)), snd (alignMode u (sp_mode sp) now r db))
             | None \<Rightarrow>
                 (case bestCandidate (filter (inSpace u spaceId (Some Active)) (rt_routes db)) of
                    Some c \<Rightarrow> adoptCanonical u sp now (readRoute c) db
                  | None \<Rightarrow> createCanonical u sp options ids now db)) = (Inr r, db')"
    using res force by (auto simp: getOrCreateCanonicalSession_def check_Inr_iff split: option.splits if_splits)
  have id: "spaceId = sp_id sp" using getSpace_key [OF sp(1)] by simp
  show ?thesis
  proof (cases "activeCanonical u sp db")
    case (Some c)
    then show ?thesis using body alignMode_settles(1) [OF sp(1) [unfolded id] sp(2) Some, of now]
        alignMode_settles(2-) [OF sp(1) [unfolded id] sp(2) Some] by (auto simp: id)
  next
    case None
    show ?thesis
    proof (cases "bestCandidate (filter (inSpace u spaceId (Some Active)) (rt_routes db))")
      case best: None
      then show ?thesis using createCanonical_settles [OF wf sp(1) [unfolded id] sp(2) None] body None by (simp add: id)
    next
      case (Some c)
      then show ?thesis
        using adoptCanonical_settles [OF sp(1) [unfolded id] sp(2), of c now r db'] bestCandidate_in [OF Some] body None by (simp add: id)
    qed
  qed
qed

section \<open>The resolver\<close>

text \<open>
  What the resolver needs of its ports: a route found by its identifier is one of the tenant, and the
  canonical session of a space is an active session of that space and tenant.
\<close>

locale route_ports =
  fixes ports :: "'s resolverPorts" and u :: string and canonical :: "string \<Rightarrow> inboundOptions \<Rightarrow> ('s, routeError, sessionRoute) op"
    and ok :: "'s \<Rightarrow> bool"
  assumes canonical_port: "rp_getOrCreateCanonicalSession ports = Some canonical"
    and own: "rp_findById ports i s = Inr (Some r) \<Longrightarrow> sr_user r = u"
    and canonical_session: "ok s \<Longrightarrow> canonical spaceId options s = (Inr r, s') \<Longrightarrow>
      sr_status r = Active \<and> sr_space r = spaceId \<and> sr_user r = u"
    and clear_ok: "ok s \<Longrightarrow> ok (runPort (rp_clearPin ports) i s)"
    and delete_ok: "ok s \<Longrightarrow> ok (runPort (rp_deleteBinding ports) i s)"
begin

lemma pinned: "pinnedRoute ports u spaceId i s = Some r \<Longrightarrow> sr_status r = Active \<and> sr_space r = spaceId \<and> sr_user r = u"
  using own [of i s] by (auto simp: pinnedRoute_def validPin_def split: sum.splits option.splits if_splits)

lemma topic: "resolveTopic ports u spaceId f m t s = (Inl r, s') \<Longrightarrow> sr_status r = Active \<and> sr_space r = spaceId \<and> sr_user r = u"
  by (auto simp: resolveTopic_def pinned split: option.splits if_splits)

lemma topic_ok: "ok s \<Longrightarrow> resolveTopic ports u spaceId f m t s = (x, s') \<Longrightarrow> ok s'"
  by (auto simp: resolveTopic_def clear_ok delete_ok split: option.splits if_splits)

lemma confined:
  assumes ok: "ok s" and res: "resolveInboundRoute ports u binding t options f m newId newDsh s = (Inr res, s')"
  shows "sr_status (rr_route res) = Active \<and> sr_space (rr_route res) = pb_space binding \<and> sr_user (rr_route res) = u"
proof (cases "resolveTopic ports u (pb_space binding) f m t s")
  case (Pair x s1)
  have ok1: "ok s1" by (rule topic_ok [OF ok Pair])
  show ?thesis
  proof (cases x)
    case (Inl r)
    then show ?thesis using res Pair topic [of "pb_space binding" f m t s r s1] by (auto simp: resolveInboundRoute_def)
  next
    case (Inr notice)
    show ?thesis
    proof (cases "if opt_truthy (pb_route binding) then pinnedRoute ports u (pb_space binding) (the (pb_route binding)) s1 else None")
      case (Some r)
      then show ?thesis using res Pair Inr pinned [of "pb_space binding" "the (pb_route binding)" s1 r]
        by (auto simp: resolveInboundRoute_def split: if_splits)
    next
      case None
      then show ?thesis
        using res Pair Inr ok1 clear_ok [OF ok1, of "pb_id binding"]
        by (auto simp: resolveInboundRoute_def Let_def seq_Inr_iff resolveCanonicalSession_def canonical_port
          split: if_splits dest!: canonical_session [rotated])
    qed
  qed
qed

end

definition inboundCanonical :: "string \<Rightarrow> canonicalIds \<Rightarrow> string \<Rightarrow> string \<Rightarrow> inboundOptions \<Rightarrow> sessionRoute route_op" where
  "inboundCanonical u ids now spaceId options =
     getOrCreateCanonicalSession u spaceId \<lparr>co_forceNew = False, co_channel = Some (io_channel options),
       co_account = Some (io_account options), co_native = Some (io_native options), co_peer = io_peer options,
       co_title = io_title options\<rparr> ids now"

lemma getRoute_user: "getRoute u i db = Some r \<Longrightarrow> sr_user r = u \<and> sr_id r = i"
  by (auto dest: getRoute_key)

interpretation repos: route_ports "repositoryPorts u ids now" u "inboundCanonical u ids now" routesWf for u ids now
proof
  fix s :: routeDb and spaceId options r s'
  assume "routesWf s" "inboundCanonical u ids now spaceId options s = (Inr r, s')"
  then show "sr_status r = Active \<and> sr_space r = spaceId \<and> sr_user r = u"
    unfolding inboundCanonical_def by (auto dest!: canonical_settles [rotated 2])
qed (auto simp: repositoryPorts_def inboundCanonical_def [abs_def] findRouteById_def runPort_def wf_updateBinding wf_deleteBinding
       dest: getRoute_user split: if_splits)

text \<open>Creating a session succeeds with new identifiers.\<close>

definition freshIds :: "canonicalIds \<Rightarrow> routeDb \<Rightarrow> bool" where
  "freshIds ids db \<longleftrightarrow> ci_session ids \<notin> sr_id ` set (rt_routes db) \<and> ci_session ids \<notin> sr_native ` set (rt_routes db) \<and>
     ci_generation ids \<notin> sg_id ` set (rt_generations db)"

lemma canonicalRow_identity:
  assumes "freshIds ids db" "x \<in> set (rt_routes db)"
  shows "\<not> sameIdentity u (sr_channel (canonicalRow u sp options ids now db)) (sr_account (canonicalRow u sp options ids now db))
     (sr_native (canonicalRow u sp options ids now db)) x"
  using assms by (auto simp: canonicalRow_def Let_def freshIds_def sameIdentity_def tbl_get_None image_iff)

lemma createCanonical_ok:
  assumes wf: "routesWf db" and sp: "getSpace u (sp_id sp) db = Some sp" and fresh: "freshIds ids db"
    and snapshot: "optAll (\<lambda>s. s \<in> as_id ` set (rt_snapshots db)) (sp_snapshot sp)"
  shows "\<exists>r db'. createCanonical u sp options ids now db = (Inr r, db')"
proof -
  let ?row = "canonicalRow u sp options ids now db"
  define db1 where "db1 = db\<lparr>rt_routes := rt_routes db @ [?row]\<rparr>"
  have "sp_id sp \<in> sp_id ` set (rt_spaces db)" using getSpace_key [OF sp] by force
  moreover have "sr_id x \<noteq> ci_session ids" if "x \<in> set (rt_routes db)" for x using fresh that by (auto simp: freshIds_def image_iff)
  ultimately have route: "insertRoute ?row db = (Inr (), db1)"
    using canonicalRow_identity [OF fresh, of _ u sp options now] by (auto simp: insertRoute_def canonicalRow_simps db1_def)
  have none: "generationNumbers (ci_session ids) db = {}"
    using wf fresh by (intro generationNumbers_none) (auto simp: routesWf_def freshIds_def hasRoute_def)
  have gens: "sg_id x \<noteq> ci_generation ids \<and> sg_route x \<noteq> ci_session ids" if "x \<in> set (rt_generations db1)" for x
    using that none fresh by (auto simp: generationNumbers_def freshIds_def db1_def image_iff)
  obtain db2 where ins: "insertWithGeneration ?row (ci_generation ids) (sp_snapshot sp) now db = (Inr (), db2)"
    and rows: "rt_routes db2 = rt_routes db1"
    using gens snapshot by (auto simp: insertWithGeneration_def seq_def route insertGeneration_def canonicalRow_simps hasRoute_def db1_def)
  have "getRoute u (ci_session ids) db2 \<noteq> None" "getRoute u (ci_session ids) (setCanonical u (sp_id sp) (ci_session ids) now db2) \<noteq> None"
    by (auto simp: getRoute_def setCanonical_def rows db1_def tbl_get_None ownRoute_def canonicalRow_simps)
  then show ?thesis
    unfolding createCanonical_def seq_def ins by (auto simp: fetchRoute_def split: option.splits)
qed

lemma canonical_ok:
  assumes wf: "routesWf db" and valid: "isValidSpaceId spaceId" and sp: "getSpace u spaceId db = Some sp" "sp_status sp = Active"
    and fresh: "freshIds ids db" and snapshot: "optAll (\<lambda>s. s \<in> as_id ` set (rt_snapshots db)) (sp_snapshot sp)"
  shows "\<exists>r db'. getOrCreateCanonicalSession u spaceId options ids now db = (Inr r, db')"
proof -
  have id: "sp_id sp = spaceId" using getSpace_key [OF sp(1)] by simp
  obtain r db' where "createCanonical u sp options ids now db = (Inr r, db')"
    using createCanonical_ok [OF wf _ fresh snapshot] sp(1) id by blast
  then show ?thesis
    using sp valid by (auto simp: getOrCreateCanonicalSession_def validateSpaceId_def withImmediateTransactionSync_def
      adoptCanonical_def case_prod_unfold Let_def split: option.split)
qed

section \<open>What the resolver writes\<close>

definition pinOf :: "channelBinding \<Rightarrow> pinBinding" where
  "pinOf b = \<lparr>pb_id = cb_id b, pb_space = cb_space b, pb_route = cb_route b\<rparr>"

definition clearPin :: updateBindingInput where
  "clearPin = \<lparr>bu_space = None, bu_activation = None, bu_busy = None, bu_chatType = None, bu_route = Some None\<rparr>"

lemma repository_ports:
  "rp_findById (repositoryPorts u ids now) i db = Inr (findRouteById u i db)"
  "rp_getOrCreateCanonicalSession (repositoryPorts u ids now) = Some (inboundCanonical u ids now)"
  "runPort (rp_clearPin (repositoryPorts u ids now)) i db = snd (updateBinding u i clearPin now db)"
  "runPort (rp_deleteBinding (repositoryPorts u ids now)) i db = snd (deleteBinding u i db)"
  by (simp_all add: repositoryPorts_def inboundCanonical_def [abs_def] runPort_def clearPin_def)

lemma bindings_only:
  "\<exists>bs. snd (updateBinding u i input now db) = db\<lparr>rt_bindings := bs\<rparr>" "\<exists>bs. snd (deleteBinding u i db) = db\<lparr>rt_bindings := bs\<rparr>"
  by (auto simp: updateBinding_def deleteBinding_def Let_def split: option.split intro: exI [of _ "rt_bindings db"])

lemma topic_bindings:
  assumes "resolveTopic (repositoryPorts u ids now) u spaceId f m t db = (x, s)"
  shows "\<exists>bs. s = db\<lparr>rt_bindings := bs\<rparr>"
  using assms bindings_only by (auto simp: resolveTopic_def repository_ports split: option.splits if_splits intro: exI [of _ "rt_bindings db"])

lemma pinned_repo: "pinnedRoute (repositoryPorts u ids now) v spaceId i db =
    (case findRouteById u i db of Some r \<Rightarrow> if validPin v spaceId r then Some r else None | None \<Rightarrow> None)"
  by (simp add: pinnedRoute_def repository_ports)

lemma findRouteById_bindings [simp]: "findRouteById u i (db\<lparr>rt_bindings := bs\<rparr>) = findRouteById u i db"
  by (simp add: findRouteById_def getRoute_def)

lemma find_clear:
  assumes "findBindingById u i db = Some b"
  shows "findBindingById u i (snd (updateBinding u i clearPin now db)) = Some (b\<lparr>cb_route := None, cb_updated := now\<rparr>)"
    and "j \<noteq> i \<Longrightarrow> findBindingById u j (snd (updateBinding u i clearPin now db)) = findBindingById u j db"
proof -
  let ?f = "applyBindingUpdate clearPin now"
  have f: "?f b = b\<lparr>cb_route := None, cb_updated := now\<rparr>" for b by (simp add: applyBindingUpdate_def clearPin_def patched_def)
  have db: "snd (updateBinding u i clearPin now db) = db\<lparr>rt_bindings := tbl_update (ownBinding u i) ?f (rt_bindings db)\<rparr>"
    using assms by (simp add: updateBinding_def Let_def clearPin_def bindingUnchanged_def split: option.split)
  have same: "tbl_get (ownBinding u k) (tbl_update (ownBinding u i) ?f (rt_bindings db)) =
      map_option (\<lambda>r. if ownBinding u i r then ?f r else r) (tbl_get (ownBinding u k) (rt_bindings db))" for k
    by (rule tbl_get_update_same) (simp add: f ownBinding_def)
  show "findBindingById u i (snd (updateBinding u i clearPin now db)) = Some (b\<lparr>cb_route := None, cb_updated := now\<rparr>)"
    using assms by (auto simp: findBindingById_def db same f dest: tbl_get_Some split: if_splits)
  show "findBindingById u j (snd (updateBinding u i clearPin now db)) = findBindingById u j db" if "j \<noteq> i"
    using that by (auto simp: findBindingById_def db same ownBinding_def map_option_case split: option.split dest!: tbl_get_Some)
qed

lemma find_delete:
  "findBindingById u i (snd (deleteBinding u i db)) = None"
  "j \<noteq> i \<Longrightarrow> findBindingById u j (snd (deleteBinding u i db)) = findBindingById u j db"
proof -
  show "findBindingById u i (snd (deleteBinding u i db)) = None"
    by (simp add: findBindingById_def deleteBinding_def tbl_get_None)
  have "tbl_get (ownBinding u j) (filter (\<lambda>b. \<not> ownBinding u i b) bs) = tbl_get (ownBinding u j) bs" if "j \<noteq> i" for bs
    using that by (induction bs) (auto simp: tbl_get_def ownBinding_def)
  then show "j \<noteq> i \<Longrightarrow> findBindingById u j (snd (deleteBinding u i db)) = findBindingById u j db"
    by (simp add: findBindingById_def deleteBinding_def)
qed

lemma findBindingById_id: "findBindingById u i db = Some b \<Longrightarrow> cb_id b = i"
  by (auto simp: findBindingById_def ownBinding_def dest: tbl_get_Some split: if_splits)

text \<open>A topic is quiet when it says nothing: no binding, or one of the same space without a session.\<close>

definition quiet :: "string \<Rightarrow> channelBinding option \<Rightarrow> bool" where
  "quiet spaceId t \<longleftrightarrow> optAll (\<lambda>b. cb_space b = spaceId \<and> \<not> opt_truthy (cb_route b)) t"

lemma topic_quiet: "quiet spaceId t \<Longrightarrow> resolveTopic ports u spaceId f m (map_option pinOf t) s = (Inr None, s)"
  by (auto simp: resolveTopic_def quiet_def pinOf_def split: option.split)

lemma topic_settles:
  assumes "resolveTopic (repositoryPorts u ids now) u spaceId f m (map_option pinOf (findBindingById u ti db)) db = (Inr notice, s)"
    and other: "bi \<noteq> ti"
  shows "quiet spaceId (findBindingById u ti s)" "findBindingById u bi s = findBindingById u bi db"
proof -
  consider (same) "s = db" "quiet spaceId (findBindingById u ti db)"
    | (gone) "s = snd (deleteBinding u ti db)"
    | (cleared) b where "findBindingById u ti db = Some b" "cb_space b = spaceId" "s = snd (updateBinding u ti clearPin now db)"
    using assms(1) by (cases "findBindingById u ti db")
      (auto simp: resolveTopic_def repository_ports pinOf_def quiet_def findBindingById_id split: if_splits option.splits)
  then show "quiet spaceId (findBindingById u ti s)" "findBindingById u bi s = findBindingById u bi db"
    using other by (cases; simp add: find_delete find_clear quiet_def)+
qed

text \<open>The resolver after the topic, as three cases.\<close>

lemma resolve_cases [consumes 1, case_names topic chat canonical]:
  assumes "resolveInboundRoute (repositoryPorts u ids now) u binding t options f m newId newDsh db = (Inr res, db')"
  obtains r where "resolveTopic (repositoryPorts u ids now) u (pb_space binding) f m t db = (Inl r, db')"
      "res = \<lparr>rr_route = r, rr_notice = None, rr_pinned = True\<rparr>"
  | notice r where "resolveTopic (repositoryPorts u ids now) u (pb_space binding) f m t db = (Inr notice, db')"
      "opt_truthy (pb_route binding)" "pinnedRoute (repositoryPorts u ids now) u (pb_space binding) (the (pb_route binding)) db' = Some r"
      "res = \<lparr>rr_route = r, rr_notice = notice, rr_pinned = True\<rparr>"
  | notice s1 s2 r notice2 where "resolveTopic (repositoryPorts u ids now) u (pb_space binding) f m t db = (Inr notice, s1)"
      "s2 = (if opt_truthy (pb_route binding) then snd (updateBinding u (pb_id binding) clearPin now s1) else s1)"
      "inboundCanonical u ids now (pb_space binding) options s2 = (Inr r, db')"
      "res = \<lparr>rr_route = r, rr_notice = notice2, rr_pinned = False\<rparr>"
  using assms unfolding resolveInboundRoute_def Let_def
  by (auto simp: repository_ports seq_Inr_iff resolveCanonicalSession_def split: prod.splits sum.splits option.splits if_splits)

text \<open>
  C10. An incoming message never reaches a session it must not: the session the resolver answers, on tables
  that any calls of the repositories have led to, is active, belongs to the space the chat is bound to and
  to the tenant, whether a topic or a chat is pinned to it or the space's canonical session is used; and
  the tables stay well formed.
\<close>

theorem inbound_route_confined:
  assumes db: "db = routeRun calls (freshRoutes profiles snapshots)"
    and res: "resolveInboundRoute (repositoryPorts u ids now) u binding t options f m newId newDsh db = (Inr res, db')"
  shows "sr_status (rr_route res) = Active \<and> sr_space (rr_route res) = pb_space binding \<and> sr_user (rr_route res) = u \<and> routesWf db'"
proof -
  have wf: "routesWf db" unfolding db using genInv_fresh wf_routeRun by (auto simp: genInv_def)
  note ok = repos.topic_ok [where u = u and ids = ids and now = now, OF wf]
  have "routesWf db'" using res
  proof (cases rule: resolve_cases)
    case (canonical notice s1 s2 r notice2)
    have "routesWf s2" using ok [OF canonical(1)] unfolding canonical(2) by (simp add: wf_updateBinding)
    then show ?thesis
      using wf_getOrCreateCanonicalSession canonical(3) unfolding inboundCanonical_def by (metis snd_conv)
  qed (auto dest: ok)
  with repos.confined [OF wf res] show ?thesis by simp
qed

lemma canonical_bindings:
  assumes "routesWf db" "isValidSpaceId spaceId" "getSpace u spaceId db = Some sp" "sp_status sp = Active" "freshIds ids db"
    "optAll (\<lambda>s. s \<in> as_id ` set (rt_snapshots db)) (sp_snapshot sp)" "s = db\<lparr>rt_bindings := bs\<rparr>" "routesWf s"
  shows "\<exists>r db'. inboundCanonical u ids now spaceId options s = (Inr r, db')"
  unfolding inboundCanonical_def using assms by (intro canonical_ok [of s _ _ sp]) (auto simp: getSpace_def freshIds_def)

text \<open>
  C13. Every message of a bound chat gets a session as long as its space is active: whatever the pins of
  the topic and of the chat point to, archived, deleted or foreign sessions, the resolver answers a
  session and does not throw.
\<close>

theorem inbound_route_found:
  assumes db: "db = routeRun calls (freshRoutes profiles snapshots)"
    and sp: "isValidSpaceId (pb_space binding)" "getSpace u (pb_space binding) db = Some sp" "sp_status sp = Active"
    and fresh: "freshIds ids db" "optAll (\<lambda>s. s \<in> as_id ` set (rt_snapshots db)) (sp_snapshot sp)"
  shows "\<exists>res db'. resolveInboundRoute (repositoryPorts u ids now) u binding t options f m newId newDsh db = (Inr res, db')"
proof -
  let ?ports = "repositoryPorts u ids now"
  have wf: "routesWf db" unfolding db using genInv_fresh wf_routeRun by (auto simp: genInv_def)
  obtain x s1 where topic: "resolveTopic ?ports u (pb_space binding) f m t db = (x, s1)" by fastforce
  have wf1: "routesWf s1" by (rule repos.topic_ok [OF wf topic])
  define s2 where "s2 = (if opt_truthy (pb_route binding) then snd (updateBinding u (pb_id binding) clearPin now s1) else s1)"
  have wf2: "routesWf s2" unfolding s2_def using wf1 by (simp add: wf_updateBinding)
  obtain bs where s1: "s1 = db\<lparr>rt_bindings := bs\<rparr>" using topic_bindings [OF topic] by blast
  then obtain bs' where s2: "s2 = db\<lparr>rt_bindings := bs'\<rparr>"
    using bindings_only(1) [of u "pb_id binding" clearPin now s1] unfolding s2_def by (cases "opt_truthy (pb_route binding)") auto
  obtain r db' where "inboundCanonical u ids now (pb_space binding) options s2 = (Inr r, db')"
    using canonical_bindings [OF wf sp fresh s2 wf2] by blast
  then show ?thesis
    using topic unfolding s2_def
    by (auto simp: resolveInboundRoute_def Let_def resolveCanonicalSession_def repository_ports seq_def split: sum.split option.split)
qed

text \<open>The second message: a quiet topic leaves the decision to the chat.\<close>

lemma resolve_quiet:
  assumes "quiet (cb_space b) t"
  shows "opt_truthy (cb_route b) \<Longrightarrow> pinnedRoute ports u (cb_space b) (the (cb_route b)) s = Some r \<Longrightarrow>
      resolveInboundRoute ports u (pinOf b) (map_option pinOf t) options f m newId newDsh s =
        (Inr \<lparr>rr_route = r, rr_notice = None, rr_pinned = True\<rparr>, s)"
    and "\<not> opt_truthy (cb_route b) \<Longrightarrow> rp_getOrCreateCanonicalSession ports = Some get \<Longrightarrow> get (cb_space b) options s = (Inr r, s') \<Longrightarrow>
      resolveInboundRoute ports u (pinOf b) (map_option pinOf t) options f m newId newDsh s =
        (Inr \<lparr>rr_route = r, rr_notice = None, rr_pinned = False\<rparr>, s')"
  using topic_quiet [OF assms, of ports u f m s]
  by (simp_all add: resolveInboundRoute_def pinOf_def Let_def resolveCanonicalSession_def seq_def)

lemma topic_pinned_again:
  assumes "resolveTopic (repositoryPorts u ids now) u spaceId f m t db = (Inl r, db')"
  shows "db' = db \<and> resolveTopic (repositoryPorts u ids' now') u spaceId f' m' t db = (Inl r, db)"
  using assms by (auto simp: resolveTopic_def pinned_repo split: option.splits if_splits)

lemma canonical_settled:
  assumes "routesWf s" "inboundCanonical u ids now spaceId options s = (Inr r, db')" "sr_id r \<noteq> []"
  shows "rt_bindings db' = rt_bindings s" "\<exists>r'. inboundCanonical u ids' now' spaceId options' db' = (Inr r', db') \<and> sr_id r' = sr_id r"
proof -
  note res = assms(2) [unfolded inboundCanonical_def]
  have c: "canonicalIs u spaceId (sr_id r) db'" "rt_bindings db' = rt_bindings s" using canonical_settles [OF assms(1) _ res] by auto
  have "routesWf db'" using wf_getOrCreateCanonicalSession [OF assms(1)] res by (metis snd_conv)
  moreover have "isValidSpaceId spaceId"
    using res by (auto simp: getOrCreateCanonicalSession_def check_Inr_iff validateSpaceId_def split: if_splits)
  ultimately show "\<exists>r'. inboundCanonical u ids' now' spaceId options' db' = (Inr r', db') \<and> sr_id r' = sr_id r"
    unfolding inboundCanonical_def using c(1) assms(3) by (intro canonical_again) auto
  show "rt_bindings db' = rt_bindings s" by (fact c(2))
qed

lemma findBindingById_cong: "rt_bindings db' = rt_bindings db \<Longrightarrow> findBindingById u i db' = findBindingById u i db"
  by (simp add: findBindingById_def)

text \<open>
  C14. A user is told once that a pinned session is gone. When a message has been resolved, the next message
  of the same chat and topic, resolved with the bindings read again, goes to the same session, says
  nothing, and changes nothing: the pins that led nowhere have been cleared, and the canonical session
  that was chosen or created stays the one of the space.
\<close>

theorem inbound_notice_once:
  assumes db: "db = routeRun calls (freshRoutes profiles snapshots)"
    and b: "findBindingById u bi db = Some b" and other: "bi \<noteq> ti"
    and res: "resolveInboundRoute (repositoryPorts u ids now) u (pinOf b) (map_option pinOf (findBindingById u ti db)) options f m newId newDsh db = (Inr res, db')"
    and id: "sr_id (rr_route res) \<noteq> []"
  shows "\<exists>b' res'. findBindingById u bi db' = Some b' \<and>
     resolveInboundRoute (repositoryPorts u ids' now') u (pinOf b') (map_option pinOf (findBindingById u ti db')) options' f m newId' newDsh' db' = (Inr res', db') \<and>
     rr_notice res' = None \<and> sr_id (rr_route res') = sr_id (rr_route res) \<and> rr_pinned res' = rr_pinned res"
proof -
  have wf: "routesWf db" unfolding db using genInv_fresh wf_routeRun by (auto simp: genInv_def)
  have pin [simp]: "pb_space (pinOf b) = cb_space b" "pb_route (pinOf b) = cb_route b" "pb_id (pinOf b) = bi"
    using findBindingById_id [OF b] by (simp_all add: pinOf_def)
  show ?thesis
    using res
  proof (cases rule: resolve_cases)
    case (topic r)
    then show ?thesis using b topic_pinned_again [OF topic(1)] by (auto simp: resolveInboundRoute_def)
  next
    case (chat notice r)
    have "quiet (cb_space b) (findBindingById u ti db')" "findBindingById u bi db' = Some b"
      using topic_settles [OF chat(1) [simplified] other] b by auto
    moreover have "pinnedRoute (repositoryPorts u ids' now') u (cb_space b) (the (cb_route b)) db' = Some r"
      using chat(3) by (simp add: pinned_repo)
    ultimately have "resolveInboundRoute (repositoryPorts u ids' now') u (pinOf b) (map_option pinOf (findBindingById u ti db')) options' f m newId' newDsh' db'
        = (Inr \<lparr>rr_route = r, rr_notice = None, rr_pinned = True\<rparr>, db')"
      using chat(2) by (intro resolve_quiet(1)) simp_all
    then show ?thesis using \<open>findBindingById u bi db' = Some b\<close> chat(4) by auto
  next
    case (canonical notice s1 s2 r notice2)
    have wf2: "routesWf s2" unfolding canonical(2) using repos.topic_ok [OF wf canonical(1)] by (simp add: wf_updateBinding)
    have t1: "quiet (cb_space b) (findBindingById u ti s1)" "findBindingById u bi s1 = Some b"
      using topic_settles [OF canonical(1) [simplified] other] b by auto
    obtain b' where b': "findBindingById u bi s2 = Some b'" "cb_space b' = cb_space b" "\<not> opt_truthy (cb_route b')"
      and t2: "findBindingById u ti s2 = findBindingById u ti s1"
      using find_clear(1) [OF t1(2), of now] find_clear(2) [OF t1(2), of ti now] t1(2) other unfolding canonical(2) by (cases "opt_truthy (cb_route b)") auto
    have r: "sr_id r \<noteq> []" using id canonical(4) by simp
    note settled = canonical_settled [OF wf2 canonical(3) r]
    obtain r' where "inboundCanonical u ids' now' (cb_space b') options' db' = (Inr r', db')" "sr_id r' = sr_id r"
      using settled(2) [of ids' now' options'] b'(2) by auto
    then have "resolveInboundRoute (repositoryPorts u ids' now') u (pinOf b') (map_option pinOf (findBindingById u ti db')) options' f m newId' newDsh' db'
        = (Inr \<lparr>rr_route = r', rr_notice = None, rr_pinned = False\<rparr>, db')"
      using t1(1) b' t2 by (intro resolve_quiet(2) [OF _ _ repository_ports(2)]) (simp_all add: findBindingById_cong [OF settled(1)])
    then show ?thesis
      using b'(1) canonical(4) \<open>sr_id r' = sr_id r\<close> by (auto simp: findBindingById_cong [OF settled(1)])
  qed
qed

section \<open>An example\<close>

definition exOptions :: inboundOptions where
  "exOptions = \<lparr>io_channel = ''lark'', io_account = ''a1'', io_native = ''oc'', io_fallbackNative = None, io_peer = None, io_title = None\<rparr>"

definition exIds :: canonicalIds where
  "exIds = \<lparr>ci_session = ''r9'', ci_dsh = ''d9'', ci_generation = ''g9''\<rparr>"

definition exResolved :: "(routeError + resolvedRoute) \<times> routeDb" where
  "exResolved = resolveInboundRoute (repositoryPorts ''u'' exIds ''7'') ''u'' (pinOf exBinding) (map_option pinOf (findBindingById ''u'' ''b2'' exRoutes))
     exOptions ''gone'' ''moved'' ''x'' ''y'' exRoutes"

lemma exRoutes_archived: "findRouteById ''u'' ''r2'' exRoutes = Some (exRouteRow ''r2'' ''n2'' ''d2'' Archived ''3'' ''4'')"
  by (simp add: findRouteById_def ex_ids getRoute_def exRoutes_rows tbl_get_def ownRoute_def exRouteRow_def readRoute_def)

lemma exCanonical:
  "\<exists>db'. inboundCanonical ''u'' exIds ''7'' ''s1'' exOptions (exRoutes\<lparr>rt_bindings := bs\<rparr>) = (Inr (exRouteRow ''r1'' ''n1'' ''d1'' Active ''2'' ''2''), db')"
  by (simp add: inboundCanonical_def getOrCreateCanonicalSession_def validateSpaceId_def ex_ids withImmediateTransactionSync_def
    getSpace_def exRoutes_rows tbl_get_def ownSpace_def exSpace_def activeCanonical_def inSpace_def exRouteRow_def adoptCanonical_def
    alignMode_def readRoute_def)

lemma exResolved_result:
  "\<exists>db'. exResolved = (Inr \<lparr>rr_route = exRouteRow ''r1'' ''n1'' ''d1'' Active ''2'' ''2'', rr_notice = Some ''gone'', rr_pinned = False\<rparr>, db')"
proof -
  obtain bs where bs: "snd (updateBinding ''u'' ''b1'' clearPin ''7'' exRoutes) = exRoutes\<lparr>rt_bindings := bs\<rparr>"
    using bindings_only(1) by blast
  obtain db' where "inboundCanonical ''u'' exIds ''7'' ''s1'' exOptions (exRoutes\<lparr>rt_bindings := bs\<rparr>) = (Inr (exRouteRow ''r1'' ''n1'' ''d1'' Active ''2'' ''2''), db')"
    using exCanonical by blast
  moreover have "pinnedRoute (repositoryPorts ''u'' exIds ''7'') ''u'' ''s1'' ''r2'' exRoutes = None"
    by (simp add: pinned_repo exRoutes_archived validPin_def exRouteRow_def)
  ultimately show ?thesis
    unfolding exResolved_def exBinding_found
    by (simp add: resolveInboundRoute_def resolveTopic_def pinOf_def exBinding_row repository_ports bs seq_def resolveCanonicalSession_def
      truthy_def)
qed

section \<open>The theorems at the example\<close>

theorem inbound_route_confined_witness:
  "\<exists>res db'. exResolved = (Inr res, db') \<and> sr_status (rr_route res) = Active \<and> sr_space (rr_route res) = ''s1'' \<and> sr_user (rr_route res) = ''u'' \<and> routesWf db'"
proof -
  obtain res db' where e: "exResolved = (Inr res, db')" using exResolved_result by blast
  show ?thesis
    using inbound_route_confined [OF exRoutes_def e [unfolded exResolved_def]] e by (auto simp: pinOf_def exBinding_row)
qed

theorem inbound_route_found_witness: "\<exists>res db'. exResolved = (Inr res, db')"
  unfolding exResolved_def
proof (rule inbound_route_found [OF exRoutes_def])
  show "isValidSpaceId (pb_space (pinOf exBinding))" by (simp add: pinOf_def exBinding_row ex_ids)
  show "getSpace ''u'' (pb_space (pinOf exBinding)) exRoutes = Some exSpace"
    by (simp add: pinOf_def exBinding_row getSpace_def exRoutes_rows tbl_get_def ownSpace_def exSpace_def)
qed (simp_all add: exSpace_def freshIds_def exRoutes_rows exIds_def exRouteRow_def exGeneration_def)

theorem inbound_notice_once_witness:
  "\<exists>res db' b' res'. exResolved = (Inr res, db') \<and> rr_notice res = Some ''gone'' \<and> findBindingById ''u'' ''b1'' db' = Some b' \<and>
     resolveInboundRoute (repositoryPorts ''u'' exIds ''8'') ''u'' (pinOf b') (map_option pinOf (findBindingById ''u'' ''b2'' db')) exOptions
       ''gone'' ''moved'' ''x'' ''y'' db' = (Inr res', db') \<and> rr_notice res' = None \<and> sr_id (rr_route res') = ''r1''"
proof -
  obtain res db' where e: "exResolved = (Inr res, db')" "sr_id (rr_route res) = ''r1''" "rr_notice res = Some ''gone''"
    using exResolved_result by (auto simp: exRouteRow_def)
  show ?thesis
    using inbound_notice_once [OF exRoutes_def exBinding_found(1) _ e(1) [unfolded exResolved_def], of exIds "''8''" exOptions "''x''" "''y''"] e
    by auto
qed

end
