(* ===== verification/Channel_Delivery.thy ===== *)
theory Channel_Delivery
  imports Channel_Bindings
begin

text \<open>
  The delivery tables of a channel: events received, replies to send, the origins of turns and the
  streaming cards, with their operations in \<open>platform-storage-sqlite/src/repos/channel-repo.ts\<close>. The functions of SQLite
  on dates and JSON are parameters (\<open>sqlEnv\<close>): \<open>se_now\<close> is \<open>CURRENT_TIMESTAMP\<close> and \<open>datetime('now')\<close>, \<open>se_ago n\<close> the time \<open>n\<close>
  seconds before, \<open>se_datetime\<close> is \<open>datetime\<close> of a value, with \<open>None\<close> for \<open>NULL\<close>, \<open>se_json\<close> is \<open>json_extract\<close>, with \<open>None\<close> for text
  that is not JSON, where the statement throws. The rows that go when an account or a route is deleted are
  not removed here. A call runs to its end before the next one starts, and the messages of the errors are
  without the identifiers the source puts in them.
\<close>

section \<open>Rows\<close>

datatype sqlval = SqlNull | SqlNumber number | SqlText string

record sqlEnv =
  se_now :: string
  se_ago :: "int \<Rightarrow> string"
  se_datetime :: "sqlval \<Rightarrow> string option"
  se_json :: "string \<Rightarrow> string \<Rightarrow> sqlval option"

datatype channelInboxStatus = InboxHeld | InboxProcessing | InboxDelivered | InboxFailed

datatype channelOutboxStatus = OutboxPending | OutboxSending | OutboxDelivered | OutboxFailed

datatype channelStreamingCardStatus = CardCreating | CardStreaming | CardRecovering | CardCompleted | CardAborted | CardFailed

record channelInboxItem =
  ib_id :: string
  ib_user :: string
  ib_account :: string
  ib_event :: string
  ib_native :: string
  ib_payload :: string
  ib_status :: channelInboxStatus
  ib_created :: string
  ib_updated :: string

record channelOutboxItem =
  ob_id :: string
  ob_user :: string
  ob_account :: string
  ob_session :: string
  ob_native :: string
  ob_replyTo :: "string option"
  ob_payload :: string
  ob_status :: channelOutboxStatus
  ob_attempts :: int
  ob_created :: string
  ob_updated :: string

record channelTurnOrigin =
  to_turn :: string
  to_user :: string
  to_session :: string
  to_account :: string
  to_channel :: string
  to_chat :: string
  to_native :: string
  to_event :: "string option"
  to_replyTo :: "string option"
  to_root :: "string option"
  to_thread :: "string option"
  to_originTurn :: "string option"
  to_created :: string

record channelStreamingCard =
  sc_id :: string
  sc_user :: string
  sc_account :: string
  sc_session :: string
  sc_turn :: string
  sc_native :: string
  sc_chat :: string
  sc_replyTo :: "string option"
  sc_root :: "string option"
  sc_thread :: "string option"
  sc_card :: "string option"
  sc_message :: "string option"
  sc_version :: int
  sc_status :: channelStreamingCardStatus
  sc_snapshot :: "string option"
  sc_error :: "string option"
  sc_created :: string
  sc_updated :: string
  sc_completed :: "string option"

record channelDb =
  cd_routes :: routeDb
  cd_inbox :: "channelInboxItem list"
  cd_outbox :: "channelOutboxItem list"
  cd_origins :: "channelTurnOrigin list"
  cd_cards :: "channelStreamingCard list"

type_synonym 'a channel_op = "(channelDb, routeError, 'a) op"

definition hasAccount :: "string \<Rightarrow> channelDb \<Rightarrow> bool" where
  "hasAccount i db \<longleftrightarrow> i \<in> ca_id ` set (rt_accounts (cd_routes db))"

definition hasSession :: "string \<Rightarrow> channelDb \<Rightarrow> bool" where
  "hasSession i db \<longleftrightarrow> hasRoute i (cd_routes db)"

text \<open>\<open>LIMIT ?\<close>: a negative limit is none.\<close>

definition rowLimit :: "int \<Rightarrow> 'r list \<Rightarrow> 'r list" where
  "rowLimit n rows = (if n < 0 then rows else take (nat n) rows)"

definition ofAccount :: "string option \<Rightarrow> string \<Rightarrow> bool" where
  "ofAccount account a \<longleftrightarrow> (opt_truthy account \<longrightarrow> account = Some a)"

section \<open>Inbox\<close>

text \<open>\<open>%"key":"value"%\<close>.\<close>

definition jsonPattern :: "string \<Rightarrow> string \<Rightarrow> string" where
  "jsonPattern key v = CHR ''%'' # CHR 0x22 # key @ [CHR 0x22, CHR '':'', CHR 0x22] @ v @ [CHR 0x22, CHR ''%'']"

definition ownEvent :: "string \<Rightarrow> string \<Rightarrow> string \<Rightarrow> channelInboxItem \<Rightarrow> bool" where
  "ownEvent u account event r \<longleftrightarrow> ib_user r = u \<and> ib_account r = account \<and> ib_event r = event"

definition legacyEvent :: "sqlEnv \<Rightarrow> string \<Rightarrow> string \<Rightarrow> string \<Rightarrow> channelInboxItem \<Rightarrow> bool" where
  "legacyEvent env u account event r \<longleftrightarrow> ib_user r = u \<and> ib_account r = account \<and> se_ago env 172800 \<le> ib_created r \<and>
     (sqlLike (jsonPattern ''event_id'' event) (ib_payload r) \<or> sqlLike (jsonPattern ''messageId'' event) (ib_payload r))"

definition findInboxByEvent :: "sqlEnv \<Rightarrow> string \<Rightarrow> string \<Rightarrow> string \<Rightarrow> channelDb \<Rightarrow> channelInboxItem option" where
  "findInboxByEvent env u account event db =
     (if account = [] \<or> event = [] then None
      else case tbl_get (ownEvent u account event) (cd_inbox db) of
          Some r \<Rightarrow> Some r
        | None \<Rightarrow> firstMax ib_created (filter (legacyEvent env u account event) (cd_inbox db)))"

record createInboxInput =
  ni_id :: "string option"
  ni_account :: string
  ni_event :: string
  ni_native :: string
  ni_payload :: string
  ni_status :: "channelInboxStatus option"

definition inboxRow :: "sqlEnv \<Rightarrow> string \<Rightarrow> createInboxInput \<Rightarrow> string \<Rightarrow> channelInboxItem" where
  "inboxRow env u input i = \<lparr>ib_id = i, ib_user = u, ib_account = ni_account input, ib_event = ni_event input, ib_native = ni_native input,
     ib_payload = ni_payload input, ib_status = (case ni_status input of None \<Rightarrow> InboxHeld | Some st \<Rightarrow> st),
     ib_created = se_now env, ib_updated = se_now env\<rparr>"

text \<open>\<open>INSERT OR IGNORE\<close>: a row that violates a key is left out, one whose account does not exist throws; the answer is \<open>changes\<close>.\<close>

definition insertInboxRow :: "channelInboxItem \<Rightarrow> nat channel_op" where
  "insertInboxRow r db =
     (if (\<exists>x \<in> set (cd_inbox db). ib_id x = ib_id r \<or> (ib_account x = ib_account r \<and> ib_event x = ib_event r)) then (Inr 0, db)
      else if \<not> hasAccount (ib_account r) db then (Inl ForeignKeyViolation, db)
      else (Inr 1, db\<lparr>cd_inbox := cd_inbox db @ [r]\<rparr>))"

definition ownInbox :: "string \<Rightarrow> string \<Rightarrow> channelInboxItem \<Rightarrow> bool" where
  "ownInbox u i r \<longleftrightarrow> ib_id r = i \<and> ib_user r = u"

definition createInboxItem :: "sqlEnv \<Rightarrow> string \<Rightarrow> createInboxInput \<Rightarrow> string \<Rightarrow> (channelInboxItem \<times> bool) channel_op" where
  "createInboxItem env u input newId db =
     (if ni_account input = [] \<or> ni_event input = [] \<or> ni_native input = []
      then (Inl (ValidationError ''accountId, nativeEventId, and nativeContextId are required''), db)
      else case findInboxByEvent env u (ni_account input) (ni_event input) db of
          Some r \<Rightarrow> (Inr (r, True), db)
        | None \<Rightarrow>
            let i = trimmedId (ni_id input) newId in
            seq (insertInboxRow (inboxRow env u input i)) (\<lambda>changes db.
              case (if changes = 0 then findInboxByEvent env u (ni_account input) (ni_event input) db else None) of
                Some r \<Rightarrow> (Inr (r, True), db)
              | None \<Rightarrow>
                  (case tbl_get (ownInbox u i) (cd_inbox db) of
                     None \<Rightarrow> (Inl (PlainError ''Failed to retrieve newly created channel inbox item''), db)
                   | Some r \<Rightarrow> (Inr (r, False), db))) db)"

definition updateInboxStatus :: "sqlEnv \<Rightarrow> string \<Rightarrow> string \<Rightarrow> channelInboxStatus \<Rightarrow> string option \<Rightarrow> channelInboxItem channel_op" where
  "updateInboxStatus env u i st payload db =
     (let db1 = db\<lparr>cd_inbox := tbl_update (ownInbox u i)
            (\<lambda>r. r\<lparr>ib_status := st, ib_payload := patched payload (ib_payload r), ib_updated := se_now env\<rparr>) (cd_inbox db)\<rparr> in
      case tbl_get (ownInbox u i) (cd_inbox db1) of
        None \<Rightarrow> (Inl (NotFoundError ''Channel inbox item not found''), db1)
      | Some r \<Rightarrow> (Inr r, db1))"

text \<open>The \<open>WHERE\<close> of a claim on the payload of a row; \<open>None\<close> is the error of a payload that is not JSON.\<close>

definition retryAllowed :: "sqlEnv \<Rightarrow> channelInboxItem \<Rightarrow> bool option" where
  "retryAllowed env r =
     (case se_json env (ib_payload r) ''$.retry.terminal'' of
        None \<Rightarrow> None
      | Some terminal \<Rightarrow>
          if terminal = SqlNumber (Num 1) then Some False
          else if ib_status r \<noteq> InboxFailed then Some True
          else (case se_json env (ib_payload r) ''$.retry.nextRetryAt'' of
              None \<Rightarrow> None
            | Some at \<Rightarrow>
                Some (at = SqlNull \<or> (case se_datetime env at of None \<Rightarrow> False | Some t \<Rightarrow> t \<le> se_now env))))"

definition claimInboxForProcessing :: "sqlEnv \<Rightarrow> string \<Rightarrow> string \<Rightarrow> channelInboxItem option channel_op" where
  "claimInboxForProcessing env u i db =
     (case tbl_get (\<lambda>r. ownInbox u i r \<and> (ib_status r = InboxHeld \<or> ib_status r = InboxFailed)) (cd_inbox db) of
        None \<Rightarrow> (Inr None, db)
      | Some r \<Rightarrow>
          (case retryAllowed env r of
             None \<Rightarrow> (Inl (PlainError ''malformed JSON''), db)
           | Some False \<Rightarrow> (Inr None, db)
           | Some True \<Rightarrow>
               let db1 = db\<lparr>cd_inbox := tbl_update (ownInbox u i) (\<lambda>r. r\<lparr>ib_status := InboxProcessing, ib_updated := se_now env\<rparr>) (cd_inbox db)\<rparr> in
               (Inr (tbl_get (ownInbox u i) (cd_inbox db1)), db1)))"

definition listHeldInbox :: "string \<Rightarrow> int \<Rightarrow> string option \<Rightarrow> channelDb \<Rightarrow> channelInboxItem list" where
  "listHeldInbox u n account db =
     rowLimit n (sort_key ib_created (filter (\<lambda>r. ib_user r = u \<and> ofAccount account (ib_account r) \<and> ib_status r = InboxHeld) (cd_inbox db)))"

section \<open>Outbox\<close>

record createOutboxInput =
  no_id :: "string option"
  no_account :: string
  no_session :: string
  no_native :: string
  no_replyTo :: "string option"
  no_payload :: string
  no_status :: "channelOutboxStatus option"

definition ownOutbox :: "string \<Rightarrow> string \<Rightarrow> channelOutboxItem \<Rightarrow> bool" where
  "ownOutbox u i r \<longleftrightarrow> ob_id r = i \<and> ob_user r = u"

definition findOutboxById :: "string \<Rightarrow> string \<Rightarrow> channelDb \<Rightarrow> channelOutboxItem option" where
  "findOutboxById u i db = (if i = [] then None else tbl_get (ownOutbox u i) (cd_outbox db))"

definition insertOutbox :: "channelOutboxItem \<Rightarrow> unit channel_op" where
  "insertOutbox r db =
     (if ob_id r \<in> ob_id ` set (cd_outbox db) then (Inr (), db)
      else if \<not> hasAccount (ob_account r) db \<or> \<not> hasSession (ob_session r) db then (Inl ForeignKeyViolation, db)
      else (Inr (), db\<lparr>cd_outbox := cd_outbox db @ [r]\<rparr>))"

definition outboxRow :: "sqlEnv \<Rightarrow> string \<Rightarrow> createOutboxInput \<Rightarrow> string \<Rightarrow> channelOutboxItem" where
  "outboxRow env u input i = \<lparr>ob_id = i, ob_user = u, ob_account = no_account input, ob_session = no_session input,
     ob_native = no_native input, ob_replyTo = no_replyTo input, ob_payload = no_payload input,
     ob_status = (case no_status input of None \<Rightarrow> OutboxPending | Some st \<Rightarrow> st), ob_attempts = 0,
     ob_created = se_now env, ob_updated = se_now env\<rparr>"

definition createOutboxItem :: "sqlEnv \<Rightarrow> string \<Rightarrow> createOutboxInput \<Rightarrow> string \<Rightarrow> channelOutboxItem channel_op" where
  "createOutboxItem env u input newId db =
     (if no_account input = [] \<or> no_session input = [] \<or> no_native input = []
      then (Inl (ValidationError ''accountId, sessionId, and nativeContextId are required''), db)
      else
        let i = trimmedId (no_id input) newId in
        seq (insertOutbox (outboxRow env u input i)) (\<lambda>_ db.
          case findOutboxById u i db of
            None \<Rightarrow> (Inl (PlainError ''Failed to retrieve channel outbox item''), db)
          | Some r \<Rightarrow> (Inr r, db)) db)"

definition awaited :: "sqlEnv \<Rightarrow> channelOutboxItem \<Rightarrow> bool option" where
  "awaited env r = map_option (\<lambda>v. v = SqlNull \<or> v \<noteq> SqlText ''unknown'') (se_json env (ob_payload r) ''$.deliveryStatus'')"

definition listPendingOutbox :: "sqlEnv \<Rightarrow> string \<Rightarrow> int \<Rightarrow> string option \<Rightarrow> channelDb \<Rightarrow> routeError + channelOutboxItem list" where
  "listPendingOutbox env u n account db =
     (let rows = filter (\<lambda>r. ob_user r = u \<and> ofAccount account (ob_account r) \<and> (ob_status r = OutboxPending \<or> ob_status r = OutboxSending))
            (cd_outbox db) in
      if (\<exists>r \<in> set rows. awaited env r = None) then Inl (PlainError ''malformed JSON'')
      else Inr (rowLimit n (sort_key ob_created (filter (\<lambda>r. awaited env r = Some True) rows))))"

definition claimPendingOutboxItem :: "sqlEnv \<Rightarrow> string \<Rightarrow> string \<Rightarrow> string option \<Rightarrow> channelOutboxItem option channel_op" where
  "claimPendingOutboxItem env u i account db =
     (let row = (\<lambda>r. ownOutbox u i r \<and> ofAccount account (ob_account r) \<and> ob_status r = OutboxPending) in
      if tbl_changes row (cd_outbox db) = 0 then (Inr None, db)
      else
        let db1 = db\<lparr>cd_outbox := tbl_update row
              (\<lambda>r. r\<lparr>ob_status := OutboxSending, ob_attempts := ob_attempts r + 1, ob_updated := se_now env\<rparr>) (cd_outbox db)\<rparr> in
        (Inr (tbl_get (ownOutbox u i) (cd_outbox db1)), db1))"

definition updateOutboxStatus :: "sqlEnv \<Rightarrow> string \<Rightarrow> string \<Rightarrow> channelOutboxStatus \<Rightarrow> bool \<Rightarrow> channelOutboxItem channel_op" where
  "updateOutboxStatus env u i st incrementAttempt db =
     (let db1 = db\<lparr>cd_outbox := tbl_update (ownOutbox u i)
            (\<lambda>r. r\<lparr>ob_status := st, ob_attempts := (if incrementAttempt then ob_attempts r + 1 else ob_attempts r), ob_updated := se_now env\<rparr>)
            (cd_outbox db)\<rparr> in
      case findOutboxById u i db1 of
        None \<Rightarrow> (Inl (NotFoundError ''Channel outbox item not found''), db1)
      | Some r \<Rightarrow> (Inr r, db1))"

definition staleSending :: "sqlEnv \<Rightarrow> string \<Rightarrow> string option \<Rightarrow> int \<Rightarrow> channelOutboxItem \<Rightarrow> bool" where
  "staleSending env u account seconds r \<longleftrightarrow> ob_user r = u \<and> ofAccount account (ob_account r) \<and> ob_status r = OutboxSending \<and>
     (case se_datetime env (SqlText (ob_updated r)) of None \<Rightarrow> False | Some t \<Rightarrow> t < se_ago env (max 1 seconds))"

definition recoverStaleSendingOutbox :: "sqlEnv \<Rightarrow> string \<Rightarrow> int \<Rightarrow> string option \<Rightarrow> nat channel_op" where
  "recoverStaleSendingOutbox env u seconds account db =
     (let again = (\<lambda>r. staleSending env u account seconds r \<and> ob_attempts r < 3);
          rows = tbl_update again (\<lambda>r. r\<lparr>ob_status := OutboxPending, ob_updated := se_now env\<rparr>) (cd_outbox db);
          lost = (\<lambda>r. staleSending env u account seconds r \<and> 3 \<le> ob_attempts r) in
      (Inr (tbl_changes again (cd_outbox db) + tbl_changes lost rows),
       db\<lparr>cd_outbox := tbl_update lost (\<lambda>r. r\<lparr>ob_status := OutboxFailed, ob_updated := se_now env\<rparr>) rows\<rparr>))"

section \<open>Origins of turns\<close>

record createOriginInput =
  oi_turn :: string
  oi_session :: string
  oi_account :: string
  oi_channel :: string
  oi_chat :: string
  oi_native :: string
  oi_event :: "string option"
  oi_replyTo :: "string option"
  oi_root :: "string option"
  oi_thread :: "string option"
  oi_originTurn :: "string option"

definition mandatory :: "string \<Rightarrow> string \<Rightarrow> string \<Rightarrow> routeError + unit" where
  "mandatory operation field v =
     (if js_trim v = [] then Inl (ValidationError (''Mandatory '' @ field @ '' missing or empty in '' @ operation)) else Inr ())"

definition findTurnOriginByTurnId :: "string \<Rightarrow> string \<Rightarrow> channelDb \<Rightarrow> channelTurnOrigin option" where
  "findTurnOriginByTurnId u turn db = (if turn = [] then None else tbl_get (\<lambda>r. to_user r = u \<and> to_turn r = turn) (cd_origins db))"

definition originRow :: "sqlEnv \<Rightarrow> string \<Rightarrow> createOriginInput \<Rightarrow> channelTurnOrigin" where
  "originRow env u input = \<lparr>to_turn = oi_turn input, to_user = u, to_session = oi_session input, to_account = oi_account input,
     to_channel = oi_channel input, to_chat = oi_chat input, to_native = oi_native input, to_event = oi_event input,
     to_replyTo = oi_replyTo input, to_root = oi_root input, to_thread = oi_thread input, to_originTurn = oi_originTurn input,
     to_created = se_now env\<rparr>"

definition createTurnOrigin :: "sqlEnv \<Rightarrow> string \<Rightarrow> createOriginInput \<Rightarrow> channelTurnOrigin channel_op" where
  "createTurnOrigin env u input db =
     check (mandatory ''createTurnOrigin'' ''turnId'' (oi_turn input)) (\<lambda>_. check (mandatory ''createTurnOrigin'' ''sessionId'' (oi_session input)) (\<lambda>_.
     check (mandatory ''createTurnOrigin'' ''accountId'' (oi_account input)) (\<lambda>_. check (mandatory ''createTurnOrigin'' ''channel'' (oi_channel input)) (\<lambda>_.
     check (mandatory ''createTurnOrigin'' ''chatId'' (oi_chat input)) (\<lambda>_. check (mandatory ''createTurnOrigin'' ''nativeContextId'' (oi_native input)) (\<lambda>_ db.
       if tbl_get (\<lambda>a. ca_id a = oi_account input \<and> ca_user a = u) (rt_accounts (cd_routes db)) = None
       then (Inl (NotFoundError ''Channel account not found''), db)
       else if tbl_get (ownRoute u (oi_session input)) (rt_routes (cd_routes db)) = None
       then (Inl (NotFoundError ''Session route not found''), db)
       else if oi_turn input \<in> to_turn ` set (cd_origins db) then (Inl UniqueViolation, db)
       else
         let db1 = db\<lparr>cd_origins := cd_origins db @ [originRow env u input]\<rparr> in
         (case findTurnOriginByTurnId u (oi_turn input) db1 of
            None \<Rightarrow> (Inl (PlainError ''Failed to retrieve newly created channel turn origin''), db1)
          | Some r \<Rightarrow> (Inr r, db1)))))))) db"

definition findTurnOriginsBySessionId :: "string \<Rightarrow> string \<Rightarrow> channelDb \<Rightarrow> channelTurnOrigin list" where
  "findTurnOriginsBySessionId u session db =
     (if session = [] then [] else sort_key to_created (filter (\<lambda>r. to_user r = u \<and> to_session r = session) (cd_origins db)))"

definition findTurnOriginsByOriginTurnId :: "string \<Rightarrow> string \<Rightarrow> channelDb \<Rightarrow> channelTurnOrigin list" where
  "findTurnOriginsByOriginTurnId u turn db =
     (if turn = [] then [] else sort_key to_created (filter (\<lambda>r. to_user r = u \<and> to_originTurn r = Some turn) (cd_origins db)))"

definition hasTurnOriginForContext :: "string \<Rightarrow> string \<Rightarrow> string \<Rightarrow> channelDb \<Rightarrow> bool" where
  "hasTurnOriginForContext u account native db \<longleftrightarrow> account \<noteq> [] \<and> native \<noteq> [] \<and>
     tbl_get (\<lambda>r. to_user r = u \<and> to_account r = account \<and> to_native r = native) (cd_origins db) \<noteq> None"

section \<open>Streaming cards\<close>

record upsertCardInput =
  ui_turn :: string
  ui_account :: string
  ui_session :: string
  ui_native :: string
  ui_chat :: string
  ui_replyTo :: "string option"
  ui_root :: "string option"
  ui_thread :: "string option"
  ui_card :: "string option"
  ui_message :: "string option"
  ui_version :: "int option"
  ui_status :: "channelStreamingCardStatus option"
  ui_snapshot :: "string option"
  ui_error :: "string option"

fun cardTerminal :: "channelStreamingCardStatus \<Rightarrow> bool" where
  "cardTerminal CardCompleted = True"
| "cardTerminal CardAborted = True"
| "cardTerminal CardFailed = True"
| "cardTerminal _ = False"

definition cardRow :: "sqlEnv \<Rightarrow> string \<Rightarrow> upsertCardInput \<Rightarrow> string \<Rightarrow> channelStreamingCard" where
  "cardRow env u input i = \<lparr>sc_id = i, sc_user = u, sc_account = ui_account input, sc_session = ui_session input, sc_turn = ui_turn input,
     sc_native = ui_native input, sc_chat = ui_chat input, sc_replyTo = ui_replyTo input, sc_root = ui_root input, sc_thread = ui_thread input,
     sc_card = ui_card input, sc_message = ui_message input, sc_version = (case ui_version input of None \<Rightarrow> 0 | Some v \<Rightarrow> v),
     sc_status = (case ui_status input of None \<Rightarrow> CardStreaming | Some st \<Rightarrow> st), sc_snapshot = ui_snapshot input, sc_error = ui_error input,
     sc_created = se_now env, sc_updated = se_now env, sc_completed = None\<rparr>"

text \<open>\<open>ON CONFLICT (account_id, turn_id) DO UPDATE\<close>: \<open>new\<close> is the excluded row, \<open>old\<close> the one that is there.\<close>

definition mergeCard :: "sqlEnv \<Rightarrow> channelStreamingCard \<Rightarrow> channelStreamingCard \<Rightarrow> channelStreamingCard" where
  "mergeCard env new old =
     old\<lparr>sc_card := orElse (sc_card new) (sc_card old), sc_message := orElse (sc_message new) (sc_message old),
       sc_version := (if sc_version new > sc_version old then sc_version new else sc_version old),
       sc_status := (if cardTerminal (sc_status old) then sc_status old else sc_status new),
       sc_snapshot := orElse (sc_snapshot new) (sc_snapshot old), sc_error := orElse (sc_error new) (sc_error old),
       sc_updated := se_now env\<rparr>"

definition sameCard :: "string \<Rightarrow> string \<Rightarrow> channelStreamingCard \<Rightarrow> bool" where
  "sameCard account turn r \<longleftrightarrow> sc_account r = account \<and> sc_turn r = turn"

definition writeCard :: "sqlEnv \<Rightarrow> channelStreamingCard \<Rightarrow> unit channel_op" where
  "writeCard env new db =
     (if tbl_get (sameCard (sc_account new) (sc_turn new)) (cd_cards db) \<noteq> None
      then (Inr (), db\<lparr>cd_cards := tbl_update (sameCard (sc_account new) (sc_turn new)) (mergeCard env new) (cd_cards db)\<rparr>)
      else if sc_id new \<in> sc_id ` set (cd_cards db) then (Inl UniqueViolation, db)
      else if \<not> hasAccount (sc_account new) db \<or> \<not> hasSession (sc_session new) db then (Inl ForeignKeyViolation, db)
      else (Inr (), db\<lparr>cd_cards := cd_cards db @ [new]\<rparr>))"

definition findStreamingCardByTurn :: "string \<Rightarrow> string \<Rightarrow> string \<Rightarrow> channelDb \<Rightarrow> channelStreamingCard option" where
  "findStreamingCardByTurn u account turn db =
     (if account = [] \<or> turn = [] then None else tbl_get (\<lambda>r. sc_user r = u \<and> sameCard account turn r) (cd_cards db))"

definition upsertStreamingCard :: "sqlEnv \<Rightarrow> string \<Rightarrow> upsertCardInput \<Rightarrow> string \<Rightarrow> channelStreamingCard channel_op" where
  "upsertStreamingCard env u input newId =
     check (mandatory ''upsertStreamingCard'' ''turnId'' (ui_turn input)) (\<lambda>_. check (mandatory ''upsertStreamingCard'' ''accountId'' (ui_account input)) (\<lambda>_.
     check (mandatory ''upsertStreamingCard'' ''sessionId'' (ui_session input)) (\<lambda>_. check (mandatory ''upsertStreamingCard'' ''chatId'' (ui_chat input)) (\<lambda>_.
     seq (writeCard env (cardRow env u input newId)) (\<lambda>_ db.
       case findStreamingCardByTurn u (ui_account input) (ui_turn input) db of
         None \<Rightarrow> (Inl (PlainError ''Failed to retrieve upserted streaming card''), db)
       | Some r \<Rightarrow> (Inr r, db))))))"

definition listNonterminalStreamingCards :: "string \<Rightarrow> int \<Rightarrow> string option \<Rightarrow> channelDb \<Rightarrow> channelStreamingCard list" where
  "listNonterminalStreamingCards u n account db =
     rowLimit n (sort_key sc_created (filter (\<lambda>r. sc_user r = u \<and> ofAccount account (sc_account r) \<and> \<not> cardTerminal (sc_status r)) (cd_cards db)))"

definition ownCard :: "string \<Rightarrow> string \<Rightarrow> channelStreamingCard \<Rightarrow> bool" where
  "ownCard u i r \<longleftrightarrow> sc_id r = i \<and> sc_user r = u"

definition claimStreamingCardForRecovery ::
  "sqlEnv \<Rightarrow> string \<Rightarrow> string \<Rightarrow> channelStreamingCardStatus option \<Rightarrow> channelStreamingCard option channel_op" where
  "claimStreamingCardForRecovery env u i expected db =
     (if i = [] then (Inr None, db)
      else
        let row = (\<lambda>r. ownCard u i r \<and> (case expected of None \<Rightarrow> \<not> cardTerminal (sc_status r) | Some st \<Rightarrow> sc_status r = st)) in
        if tbl_changes row (cd_cards db) = 0 then (Inr None, db)
        else
          let db1 = db\<lparr>cd_cards := tbl_update row (\<lambda>r. r\<lparr>sc_status := CardRecovering, sc_updated := se_now env\<rparr>) (cd_cards db)\<rparr> in
          (Inr (tbl_get (ownCard u i) (cd_cards db1)), db1))"

definition finalizeStreamingCard ::
  "sqlEnv \<Rightarrow> string \<Rightarrow> string \<Rightarrow> channelStreamingCardStatus \<Rightarrow> string option \<Rightarrow> channelStreamingCard channel_op" where
  "finalizeStreamingCard env u i st err db =
     (if i = [] then (Inl (ValidationError ''Mandatory id missing in finalizeStreamingCard''), db)
      else if tbl_changes (ownCard u i) (cd_cards db) = 0 then (Inl (NotFoundError ''Channel streaming card not found or unauthorized''), db)
      else
        let db1 = db\<lparr>cd_cards := tbl_update (ownCard u i)
              (\<lambda>r. r\<lparr>sc_status := st, sc_error := orElse err (sc_error r), sc_completed := Some (se_now env), sc_updated := se_now env\<rparr>)
              (cd_cards db)\<rparr> in
        (case tbl_get (ownCard u i) (cd_cards db1) of
           None \<Rightarrow> (Inl (NotFoundError ''Channel streaming card not found after finalize''), db1)
         | Some r \<Rightarrow> (Inr r, db1)))"

end
