(* ===== verification/Route_Isolation.thy ===== *)
theory Route_Isolation
  imports Route_Theorems
begin

text \<open>
  The repositories are opened for one tenant: no call changes a route or a generation of another one. And
  what the deletion of a chat's topics really deletes, by SQLite's \<open>LIKE\<close>.
\<close>

section \<open>Routes and generations of other tenants\<close>

definition ofTenant :: "string \<Rightarrow> routeDb \<Rightarrow> sessionRoute list \<times> sessionGeneration list" where
  "ofTenant v db = (filter (\<lambda>r. sr_user r = v) (rt_routes db), filter (\<lambda>g. sg_user g = v) (rt_generations db))"

definition foreignKept :: "string \<Rightarrow> routeDb \<Rightarrow> routeDb \<Rightarrow> bool" where
  "foreignKept v db db' \<longleftrightarrow> ofTenant v db' = ofTenant v db"

lemmas iso_keep = keep_rules [where Q = "foreignKept v db" for v db]

lemma foreignKept_rows [simp]:
  "foreignKept v db (db'\<lparr>rt_spaces := x\<rparr>) = foreignKept v db db'" "foreignKept v db (db'\<lparr>rt_bindings := y\<rparr>) = foreignKept v db db'"
  "foreignKept v db (db'\<lparr>rt_accounts := z\<rparr>) = foreignKept v db db'" "foreignKept v db db"
  by (simp_all add: foreignKept_def ofTenant_def)

lemma foreignKept_insert:
  "sr_user r \<noteq> v \<Longrightarrow> foreignKept v db (snd (insertRoute r db))"
  "sg_user g \<noteq> v \<Longrightarrow> foreignKept v db db' \<Longrightarrow> foreignKept v db (snd (insertGeneration g db'))"
  by (simp_all add: foreignKept_def ofTenant_def insertRoute_def insertGeneration_def)

lemma foreignKept_insertWithGeneration: "sr_user r \<noteq> v \<Longrightarrow> foreignKept v db (snd (insertWithGeneration r genId snapshot now db))"
  unfolding insertWithGeneration_def by (intro iso_keep foreignKept_insert) simp_all

lemma foreignKept_updateRoutes:
  "u \<noteq> v \<Longrightarrow> (\<And>r. sr_user (f r) = sr_user r) \<Longrightarrow> foreignKept v db db' \<Longrightarrow> foreignKept v db (updateRoutes u i f db')"
  using filter_tbl_update_other [of "ownRoute u i" "\<lambda>r. sr_user r = v" f "rt_routes db'"]
  by (auto simp: foreignKept_def ofTenant_def updateRoutes_def ownRoute_def)

lemma foreignKept_clearRoutes:
  assumes wf: "routesWf db" and own: "\<And>r. r \<in> set (rt_routes db) \<Longrightarrow> gone (sr_id r) \<Longrightarrow> sr_user r \<noteq> v"
  shows "foreignKept v db (clearRoutes gone db)"
proof -
  have "sg_user g \<noteq> v" if "g \<in> set (rt_generations db)" "gone (sg_route g)" for g
  proof -
    have "(sg_route g, sg_user g) \<in> routeKeys db" using wf that(1) by (simp add: routesWf_def refsLive_def)
    then obtain r where "r \<in> set (rt_routes db)" "sg_route g = sr_id r" "sg_user g = sr_user r" by (auto simp: routeKeys_def)
    then show ?thesis using own [of r] that(2) by simp
  qed
  then show ?thesis
    using own by (auto simp: foreignKept_def ofTenant_def clearRoutes_def intro!: filter_cong)
qed

lemma unique_route_user:
  assumes "routesWf db" "(i, u) \<in> routeKeys db" "r \<in> set (rt_routes db)" "sr_id r = i"
  shows "sr_user r = u"
  using assms by (auto simp: routesWf_def keysUnique_def routeKeys_def distinct_map dest: inj_onD)

lemma unique_space_user:
  assumes "routesWf db" "(i, u) \<in> spaceKeys db" "r \<in> set (rt_routes db)" "sr_space r = i"
  shows "sr_user r = u"
proof -
  have "(i, sr_user r) \<in> spaceKeys db" using assms(1,3,4) by (auto simp: routesWf_def refsLive_def)
  with assms(1,2) show ?thesis by (auto simp: routesWf_def keysUnique_def spaceKeys_def distinct_map dest: inj_onD)
qed

lemma foreignKept_delete:
  assumes wf: "routesWf db" and other: "u \<noteq> v"
  shows "foreignKept v db (snd (deleteRoute u i db))" "foreignKept v db (snd (deleteSpace u i db))"
proof -
  show "foreignKept v db (snd (deleteRoute u i db))"
  proof (cases "isValidSessionId i \<and> getRoute u i db \<noteq> None")
    case True
    then have "(i, u) \<in> routeKeys db" using getRoute_keys [of u i db] by simp
    then have "foreignKept v db (clearRoutes (\<lambda>x. x = i) db)"
      using unique_route_user [OF wf] other by (intro foreignKept_clearRoutes [OF wf]) auto
    then show ?thesis by (simp add: deleteRoute_def)
  qed (auto simp: deleteRoute_def)
  show "foreignKept v db (snd (deleteSpace u i db))"
  proof (cases "isValidSpaceId i \<and> getSpace u i db \<noteq> None")
    case True
    then have "(i, u) \<in> spaceKeys db" using getSpace_keys [of u i db] by simp
    moreover have "sr_space r = i"
      if "r \<in> set (rt_routes db)" "sr_id r \<in> set (map sr_id (filter (\<lambda>r. sr_space r = i) (rt_routes db)))" for r
      using that wf by (auto simp: routesWf_def keysUnique_def distinct_map dest: inj_onD)
    ultimately have "foreignKept v db (clearRoutes (\<lambda>x. x \<in> set (map sr_id (filter (\<lambda>r. sr_space r = i) (rt_routes db)))) db)"
      using unique_space_user [OF wf] other by (intro foreignKept_clearRoutes [OF wf]) blast
    then show ?thesis by (simp add: deleteSpace_def clearSpace_def Let_def)
  qed (auto simp: deleteSpace_def)
qed

lemma foreignKept_createRoute: "u \<noteq> v \<Longrightarrow> foreignKept v db (snd (createRoute u input newId genId now db))"
  unfolding createRoute_def Let_def
  by (intro iso_keep foreignKept_insertWithGeneration) (simp_all add: routeRow_def)

lemma foreignKept_updateRoute: "u \<noteq> v \<Longrightarrow> foreignKept v db (snd (updateRoute u i input now db))"
  unfolding updateRoute_def by (intro iso_keep) (simp_all add: foreignKept_updateRoutes applyRouteUpdate_def)

lemma foreignKept_resetRows: "sg_user g \<noteq> v \<Longrightarrow> foreignKept v db (snd (resetRows g nowIso now route db))"
  unfolding resetRows_def Let_def
  by (intro iso_keep foreignKept_insert) (simp_all add: foreignKept_updateRoutes applyReset_def)

lemma foreignKept_resetRoute: "u \<noteq> v \<Longrightarrow> foreignKept v db (snd (resetRoute u i input genId nowIso now db))"
  unfolding resetRoute_def by (intro iso_keep foreignKept_resetRows) simp_all

lemma foreignKept_alignMode: "u \<noteq> v \<Longrightarrow> foreignKept v db (snd (alignMode u mode now r db))"
  by (simp add: alignMode_def foreignKept_updateRoutes)

lemma foreignKept_canonical: "u \<noteq> v \<Longrightarrow> foreignKept v db (snd (getOrCreateCanonicalSession u spaceId options ids now db))"
  unfolding getOrCreateCanonicalSession_def createCanonical_def adoptCanonical_def
  by (intro iso_keep foreignKept_insertWithGeneration)
    (auto simp: canonicalRow_simps setCanonical_def case_prod_unfold Let_def foreignKept_alignMode)

lemma foreignKept_createGeneration: "u \<noteq> v \<Longrightarrow> foreignKept v db (snd (createGeneration u input newId now db))"
  unfolding createGeneration_def by (intro iso_keep foreignKept_insert) simp_all

lemma foreignKept_same_tables:
  "rt_routes db' = rt_routes db \<Longrightarrow> rt_generations db' = rt_generations db \<Longrightarrow> foreignKept v db db'"
  by (simp add: foreignKept_def ofTenant_def)

lemma foreignKept_space: "foreignKept v db (snd (createSpace u input newId now db))" "foreignKept v db (snd (updateSpace u i input' now db))"
proof -
  show "foreignKept v db (snd (createSpace u input newId now db))"
    unfolding createSpace_def by (intro iso_keep) (simp_all add: insertSpace_def)
  show "foreignKept v db (snd (updateSpace u i input' now db))"
    unfolding updateSpace_def by (intro iso_keep) simp_all
qed

lemma foreignKept_account:
  "foreignKept v db (snd (createAccount u input newId now db))"
  "foreignKept v db (snd (updateAccount u i input' now db))"
  "foreignKept v db (snd (deleteAccount u i db))"
  by (auto simp: createAccount_def updateAccount_def deleteAccount_def Let_def split: option.split)

lemma foreignKept_binding:
  "foreignKept v db (snd (createBinding u input newId now db))"
  "foreignKept v db (snd (updateBinding u i input' now db))"
  "foreignKept v db (snd (setGroupActivationModeForAccountBindings u account mode now db))"
  "foreignKept v db (snd (deleteBinding u i db))"
  "foreignKept v db (snd (deleteTopicBindingsForChat u account chat db))"
proof -
  show "foreignKept v db (snd (createBinding u input newId now db))"
    unfolding createBinding_def Let_def by (intro iso_keep) (simp_all add: insertBinding_def)
qed (auto simp: updateBinding_def setGroupActivationModeForAccountBindings_def deleteBinding_def deleteTopicBindingsForChat_def
       Let_def split: option.split)

lemma foreignKept_exec:
  assumes wf: "routesWf db" and other: "u \<noteq> v"
  shows "foreignKept v db (routeExec u now c db)"
  by (cases c) (simp_all only: routeExec.simps foreignKept_space foreignKept_account foreignKept_binding foreignKept_delete [OF wf other]
    foreignKept_createRoute [OF other] foreignKept_updateRoute [OF other] foreignKept_resetRoute [OF other] foreignKept_canonical [OF other]
    foreignKept_createGeneration [OF other])



section \<open>Deleting the topics of a chat\<close>

definition likeChar :: "char \<Rightarrow> char \<Rightarrow> bool" where
  "likeChar p c \<longleftrightarrow> p = CHR ''_'' \<or> asciiLower p = asciiLower c"

lemma sqlLike_any [simp]: "sqlLike ''%'' s"
  by (induction s) auto

lemma sqlLike_Cons: "c \<noteq> CHR ''%'' \<Longrightarrow> sqlLike (c # q) (d # ds) \<longleftrightarrow> likeChar c d \<and> sqlLike q ds"
  by (simp add: likeChar_def)

lemma sqlLike_prefix:
  "CHR ''%'' \<notin> set p \<Longrightarrow> sqlLike (p @ ''%'') s \<longleftrightarrow> (\<exists>a b. s = a @ b \<and> list_all2 likeChar p a)"
proof (induction p arbitrary: s)
  case (Cons c p)
  have c: "c \<noteq> CHR ''%''" and ih: "sqlLike (p @ ''%'') t \<longleftrightarrow> (\<exists>a b. t = a @ b \<and> list_all2 likeChar p a)" for t
    using Cons by auto
  show ?case
  proof (cases s)
    case Nil
    with c show ?thesis by (simp add: list_all2_Cons1)
  next
    case s: (Cons d ds)
    have "sqlLike ((c # p) @ ''%'') s \<longleftrightarrow> likeChar c d \<and> (\<exists>a b. ds = a @ b \<and> list_all2 likeChar p a)"
      unfolding s append_Cons sqlLike_Cons [OF c] ih ..
    also have "\<dots> \<longleftrightarrow> (\<exists>a b. s = a @ b \<and> list_all2 likeChar (c # p) a)"
      unfolding s by (simp add: list_all2_Cons1) (metis append_Cons list.inject)
    finally show ?thesis .
  qed
qed simp

lemma likeChar_colon: "likeChar CHR '':'' c \<longleftrightarrow> c = CHR '':''"
proof -
  have "asciiLower CHR '':'' = CHR '':''" by (simp add: asciiLower_def)
  moreover have "asciiLower c = CHR '':'' \<longleftrightarrow> c = CHR '':''"
  proof (cases "(65 :: nat) \<le> of_char c \<and> of_char c \<le> (90 :: nat)")
    case True
    then have n: "of_char (char_of (of_char c + 32 :: nat) :: char) \<noteq> (58 :: nat)" by (simp add: of_char_of)
    have "char_of (of_char c + 32 :: nat) \<noteq> CHR '':''"
    proof
      assume "char_of (of_char c + 32 :: nat) = CHR '':''"
      with n show False by (simp only:) simp
    qed
    moreover have "c \<noteq> CHR '':''" using True by auto
    ultimately show ?thesis using True by (simp add: asciiLower_def)
  qed (auto simp: asciiLower_def)
  ultimately show ?thesis by (auto simp: likeChar_def)
qed

text \<open>The binding is the one of a topic of a chat whose name the pattern takes for the given one.\<close>

definition looksLikeTopicOf :: "string \<Rightarrow> string \<Rightarrow> bool" where
  "looksLikeTopicOf chat native \<longleftrightarrow> (\<exists>a b. native = a @ CHR '':'' # b \<and> list_all2 likeChar chat a)"

lemma sqlLike_topic: "CHR ''%'' \<notin> set chat \<Longrightarrow> sqlLike (chat @ '':%'') native \<longleftrightarrow> looksLikeTopicOf chat native"
proof -
  assume "CHR ''%'' \<notin> set chat"
  then have "sqlLike ((chat @ '':'') @ ''%'') native \<longleftrightarrow> (\<exists>a b. native = a @ b \<and> list_all2 likeChar (chat @ '':'') a)"
    by (intro sqlLike_prefix) simp
  also have "\<dots> \<longleftrightarrow> looksLikeTopicOf chat native"
  proof
    assume "\<exists>a b. native = a @ b \<and> list_all2 likeChar (chat @ '':'') a"
    then obtain a b where "native = (a @ '':'') @ b" "list_all2 likeChar chat a"
      by (auto simp: list_all2_append1 list_all2_Cons1 likeChar_colon)
    then show "looksLikeTopicOf chat native" unfolding looksLikeTopicOf_def by (intro exI conjI) simp_all
  next
    assume "looksLikeTopicOf chat native"
    then obtain a b where "native = (a @ '':'') @ b" "list_all2 likeChar chat a" by (auto simp: looksLikeTopicOf_def)
    moreover from this have "list_all2 likeChar (chat @ '':'') (a @ '':'')"
      by (intro list_all2_appendI) (simp_all add: likeChar_colon)
    ultimately show "\<exists>a b. native = a @ b \<and> list_all2 likeChar (chat @ '':'') a" by blast
  qed
  finally show ?thesis by simp
qed

text \<open>
  Deleting the topics of a chat deletes exactly the tenant's bindings of the account whose context is
  a name, a colon and anything, where the name has the chat's length and agrees with it in every
  character up to the case of ASCII letters, except under an underscore of the chat, where any character
  will do; it answers their number and leaves the other bindings in their order. So the topics of other
  chats go too, as soon as their name only differs from the given one in that way.
\<close>

theorem topic_bindings_deleted:
  assumes "account \<noteq> []" "chat \<noteq> []" "CHR ''%'' \<notin> set chat"
  shows "deleteTopicBindingsForChat u account chat db =
     (Inr (length (filter (\<lambda>b. cb_user b = u \<and> cb_account b = account \<and> looksLikeTopicOf chat (cb_native b)) (rt_bindings db))),
      db\<lparr>rt_bindings := filter (\<lambda>b. \<not> (cb_user b = u \<and> cb_account b = account \<and> looksLikeTopicOf chat (cb_native b))) (rt_bindings db)\<rparr>)"
  using assms by (simp add: deleteTopicBindingsForChat_def Let_def tbl_changes_def sqlLike_topic)

text \<open>The topic \<open>t\<close> of the chat \<open>ocX1\<close> goes with the topics of \<open>oc_1\<close>.\<close>

definition exTopic :: channelBinding where
  "exTopic = exBinding\<lparr>cb_id := ''b3'', cb_native := ''ocX1:t''\<rparr>"

lemma exTopic_looks: "looksLikeTopicOf ''oc_1'' ''ocX1:t''"
  unfolding looksLikeTopicOf_def by (intro exI [of _ "''ocX1''"] exI [of _ "''t''"]) (simp add: likeChar_def)

theorem topic_bindings_deleted_witness:
  "rt_bindings (snd (deleteTopicBindingsForChat ''u'' ''a1'' ''oc_1'' (exRoutes\<lparr>rt_bindings := [exTopic]\<rparr>))) = []"
  by (subst topic_bindings_deleted) (simp_all add: exTopic_def exBinding_row exTopic_looks)

end
