(* ===== verification/Channel_Delivery_Theorems.thy ===== *)
theory Channel_Delivery_Theorems
  imports Channel_Delivery Route_Isolation
begin

text \<open>
  What the delivery tables promise over any calls: an event is accepted once, a reply is sent at most three
  times, a card that has ended stays so; and two things they do not: an upsert of another tenant
  reaches a card, and an event can be taken for another one.
\<close>

section \<open>Calls\<close>

datatype channelCall =
    CreateInboxItem createInboxInput string
  | UpdateInboxStatus string channelInboxStatus "string option"
  | ClaimInboxForProcessing string
  | CreateOutboxItem createOutboxInput string
  | ClaimPendingOutboxItem string "string option"
  | UpdateOutboxStatus string channelOutboxStatus bool
  | RecoverStaleSendingOutbox int "string option"
  | CreateTurnOrigin createOriginInput
  | UpsertStreamingCard upsertCardInput string
  | ClaimStreamingCardForRecovery string "channelStreamingCardStatus option"
  | FinalizeStreamingCard string channelStreamingCardStatus "string option"

fun channelExec :: "sqlEnv \<Rightarrow> string \<Rightarrow> channelCall \<Rightarrow> channelDb \<Rightarrow> channelDb" where
  "channelExec env u (CreateInboxItem input newId) db = snd (createInboxItem env u input newId db)"
| "channelExec env u (UpdateInboxStatus i st payload) db = snd (updateInboxStatus env u i st payload db)"
| "channelExec env u (ClaimInboxForProcessing i) db = snd (claimInboxForProcessing env u i db)"
| "channelExec env u (CreateOutboxItem input newId) db = snd (createOutboxItem env u input newId db)"
| "channelExec env u (ClaimPendingOutboxItem i account) db = snd (claimPendingOutboxItem env u i account db)"
| "channelExec env u (UpdateOutboxStatus i st increment) db = snd (updateOutboxStatus env u i st increment db)"
| "channelExec env u (RecoverStaleSendingOutbox seconds account) db = snd (recoverStaleSendingOutbox env u seconds account db)"
| "channelExec env u (CreateTurnOrigin input) db = snd (createTurnOrigin env u input db)"
| "channelExec env u (UpsertStreamingCard input newId) db = snd (upsertStreamingCard env u input newId db)"
| "channelExec env u (ClaimStreamingCardForRecovery i expected) db = snd (claimStreamingCardForRecovery env u i expected db)"
| "channelExec env u (FinalizeStreamingCard i st err) db = snd (finalizeStreamingCard env u i st err db)"

definition channelRun :: "(sqlEnv \<times> string \<times> channelCall) list \<Rightarrow> channelDb \<Rightarrow> channelDb" where
  "channelRun calls db = fold (\<lambda>(env, u, c). channelExec env u c) calls db"

lemma channelRun_Cons: "channelRun ((env, u, c) # calls) db = channelRun calls (channelExec env u c db)"
  by (simp add: channelRun_def)

text \<open>What every call keeps, every sequence of calls keeps.\<close>

lemma channelRun_keeps:
  assumes "Q db" "\<And>env u c db. (env, u, c) \<in> set calls \<Longrightarrow> Q db \<Longrightarrow> Q (channelExec env u c db)"
  shows "Q (channelRun calls db)"
  using assms by (induction calls arbitrary: db) (auto simp: channelRun_def)

text \<open>The tables a call leaves alone.\<close>

lemma frame_outbox_ops:
  "cd_inbox (snd (createOutboxItem env u input newId db)) = cd_inbox db"
  "cd_inbox (snd (claimPendingOutboxItem env u i account db)) = cd_inbox db"
  "cd_inbox (snd (updateOutboxStatus env u i st b db)) = cd_inbox db"
  "cd_inbox (snd (recoverStaleSendingOutbox env u n account db)) = cd_inbox db"
  "cd_cards (snd (createOutboxItem env u input newId db)) = cd_cards db"
  "cd_cards (snd (claimPendingOutboxItem env u i account db)) = cd_cards db"
  "cd_cards (snd (updateOutboxStatus env u i st b db)) = cd_cards db"
  "cd_cards (snd (recoverStaleSendingOutbox env u n account db)) = cd_cards db"
  by (simp_all add: createOutboxItem_def claimPendingOutboxItem_def updateOutboxStatus_def recoverStaleSendingOutbox_def
    seq_def insertOutbox_def Let_def split: option.split)

lemma frame_inbox_ops:
  "cd_outbox (snd (createInboxItem env u input newId db)) = cd_outbox db"
  "cd_outbox (snd (updateInboxStatus env u i st payload db)) = cd_outbox db"
  "cd_outbox (snd (claimInboxForProcessing env u i db)) = cd_outbox db"
  "cd_cards (snd (createInboxItem env u input newId db)) = cd_cards db"
  "cd_cards (snd (updateInboxStatus env u i st payload db)) = cd_cards db"
  "cd_cards (snd (claimInboxForProcessing env u i db)) = cd_cards db"
  by (simp_all add: createInboxItem_def updateInboxStatus_def claimInboxForProcessing_def seq_def insertInboxRow_def Let_def
    split: option.split bool.split)

lemma frame_origin_op:
  "cd_inbox (snd (createTurnOrigin env u input db)) = cd_inbox db"
  "cd_outbox (snd (createTurnOrigin env u input db)) = cd_outbox db"
  "cd_cards (snd (createTurnOrigin env u input db)) = cd_cards db"
  by (simp_all add: createTurnOrigin_def check_def Let_def split: sum.split option.split)

lemma frame_card_ops:
  "cd_inbox (snd (upsertStreamingCard env u input newId db)) = cd_inbox db"
  "cd_inbox (snd (claimStreamingCardForRecovery env u i expected db)) = cd_inbox db"
  "cd_inbox (snd (finalizeStreamingCard env u i st err db)) = cd_inbox db"
  "cd_outbox (snd (upsertStreamingCard env u input newId db)) = cd_outbox db"
  "cd_outbox (snd (claimStreamingCardForRecovery env u i expected db)) = cd_outbox db"
  "cd_outbox (snd (finalizeStreamingCard env u i st err db)) = cd_outbox db"
  by (simp_all add: upsertStreamingCard_def claimStreamingCardForRecovery_def finalizeStreamingCard_def check_def seq_def writeCard_def Let_def
    split: sum.split option.split)

lemmas channel_frames = frame_outbox_ops frame_inbox_ops frame_origin_op frame_card_ops

section \<open>An event is accepted once\<close>

definition inboxKey :: "channelInboxItem \<Rightarrow> string \<times> string \<times> string \<times> string" where
  "inboxKey r = (ib_id r, ib_user r, ib_account r, ib_event r)"

text \<open>Rows are only added, and keep what identifies them.\<close>

lemma inbox_grows: "\<exists>more. map inboxKey (cd_inbox (channelExec env u c db)) = map inboxKey (cd_inbox db) @ more"
proof (cases c)
  case (CreateInboxItem input newId)
  then show ?thesis
    by (auto simp: createInboxItem_def seq_def insertInboxRow_def Let_def split: option.split)
qed (simp_all add: channel_frames updateInboxStatus_def claimInboxForProcessing_def Let_def map_tbl_update inboxKey_def
       split: option.split bool.split)

lemma inbox_run_grows: "\<exists>more. map inboxKey (cd_inbox (channelRun calls db)) = map inboxKey (cd_inbox db) @ more"
proof (rule channelRun_keeps [where Q = "\<lambda>s. \<exists>more. map inboxKey (cd_inbox s) = map inboxKey (cd_inbox db) @ more"])
  fix env u c and s :: channelDb
  assume "\<exists>more. map inboxKey (cd_inbox s) = map inboxKey (cd_inbox db) @ more"
  then show "\<exists>more. map inboxKey (cd_inbox (channelExec env u c s)) = map inboxKey (cd_inbox db) @ more"
    using inbox_grows [of env u c s] by auto
qed simp

lemma tbl_get_keys:
  assumes "map k ys = map k xs @ rest" "\<And>x. P x \<longleftrightarrow> K (k x)" "tbl_get P xs = Some x"
  shows "\<exists>y. tbl_get P ys = Some y \<and> k y = k x"
  using assms
proof (induction xs arbitrary: ys)
  case (Cons z zs)
  then obtain w ws where ys: "ys = w # ws" "k w = k z" "map k ws = map k zs @ rest" by (cases ys) auto
  then show ?case using Cons by (auto simp: tbl_get_def)
qed (simp add: tbl_get_def)

lemma createInboxItem_new:
  assumes new: "createInboxItem env u input newId db = (Inr (r, False), db')"
    and fresh: "trimmedId (ni_id input) newId \<notin> ib_id ` set (cd_inbox db)"
  shows "tbl_get (ownEvent u (ni_account input) (ni_event input)) (cd_inbox db) = None"
    "r = inboxRow env u input (trimmedId (ni_id input) newId)" "cd_inbox db' = cd_inbox db @ [r]"
    "ni_account input \<noteq> []" "ni_event input \<noteq> []" "ni_native input \<noteq> []"
proof -
  let ?i = "trimmedId (ni_id input) newId" and ?row = "inboxRow env u input (trimmedId (ni_id input) newId)"
  have given: "ni_account input \<noteq> []" "ni_event input \<noteq> []" "ni_native input \<noteq> []"
    using new by (auto simp: createInboxItem_def split: if_splits)
  then show "ni_account input \<noteq> []" "ni_event input \<noteq> []" "ni_native input \<noteq> []" by auto
  have none: "findInboxByEvent env u (ni_account input) (ni_event input) db = None"
    using new given by (cases "findInboxByEvent env u (ni_account input) (ni_event input) db") (auto simp: createInboxItem_def)
  then show direct: "tbl_get (ownEvent u (ni_account input) (ni_event input)) (cd_inbox db) = None"
    using given by (simp add: findInboxByEvent_def split: option.splits)
  have get: "tbl_get (ownInbox u ?i) (cd_inbox db) = None" using fresh by (auto simp: tbl_get_None ownInbox_def image_iff)
  have ins: "insertInboxRow ?row db = (Inr 1, db\<lparr>cd_inbox := cd_inbox db @ [?row]\<rparr>)"
    using new given none get
    by (auto simp: createInboxItem_def Let_def seq_def insertInboxRow_def split: if_splits option.splits)
  have "ownInbox u ?i ?row" by (simp add: ownInbox_def inboxRow_def)
  then have "tbl_get (ownInbox u ?i) (cd_inbox db @ [?row]) = Some ?row"
    using get by (simp add: tbl_get_append) (simp add: tbl_get_def)
  then show "r = ?row" "cd_inbox db' = cd_inbox db @ [r]"
    using new given none ins by (auto simp: createInboxItem_def Let_def seq_def)
qed


section \<open>A reply is sent at most three times\<close>

definition outboxOk :: "channelDb \<Rightarrow> bool" where
  "outboxOk db \<longleftrightarrow> distinct (map ob_id (cd_outbox db)) \<and>
     (\<forall>r \<in> set (cd_outbox db). 0 \<le> ob_attempts r \<and> (ob_status r = OutboxPending \<longrightarrow> ob_attempts r \<le> 2))"

text \<open>The callers settle a reply by hand, they do not put it back.\<close>

fun settlesOnly :: "channelCall \<Rightarrow> bool" where
  "settlesOnly (UpdateOutboxStatus i st increment) = (st = OutboxDelivered \<or> st = OutboxFailed)"
| "settlesOnly _ = True"

text \<open>How often the reply \<open>i\<close> is claimed for sending over the calls.\<close>

definition claims :: "string \<Rightarrow> sqlEnv \<Rightarrow> string \<Rightarrow> channelCall \<Rightarrow> channelDb \<Rightarrow> bool" where
  "claims i env u c db = (case c of
     ClaimPendingOutboxItem j account \<Rightarrow> j = i \<and> fst (claimPendingOutboxItem env u j account db) \<noteq> Inr None
   | _ \<Rightarrow> False)"

fun claimCount :: "string \<Rightarrow> (sqlEnv \<times> string \<times> channelCall) list \<Rightarrow> channelDb \<Rightarrow> nat" where
  "claimCount i [] db = 0"
| "claimCount i ((env, u, c) # calls) db =
     (if claims i env u c db then 1 else 0) + claimCount i calls (channelExec env u c db)"

definition attemptsOf :: "string \<Rightarrow> channelDb \<Rightarrow> int" where
  "attemptsOf i db = (case tbl_get (\<lambda>r. ob_id r = i) (cd_outbox db) of None \<Rightarrow> 0 | Some r \<Rightarrow> ob_attempts r)"

lemma outboxOk_update:
  assumes "outboxOk db" "\<And>r. ob_id (f r) = ob_id r" "\<And>r. r \<in> set (cd_outbox db) \<Longrightarrow> P r \<Longrightarrow> 0 \<le> ob_attempts (f r) \<and> (ob_status (f r) = OutboxPending \<longrightarrow> ob_attempts (f r) \<le> 2)"
  shows "outboxOk (db\<lparr>cd_outbox := tbl_update P f (cd_outbox db)\<rparr>)"
proof -
  have "map ob_id (tbl_update P f (cd_outbox db)) = map ob_id (cd_outbox db)" using assms(2) by (simp add: map_tbl_update)
  moreover have "\<forall>r \<in> set (tbl_update P f (cd_outbox db)). 0 \<le> ob_attempts r \<and> (ob_status r = OutboxPending \<longrightarrow> ob_attempts r \<le> 2)"
    using assms(1,3) by (auto simp: outboxOk_def set_tbl_update)
  ultimately show ?thesis using assms(1) by (simp add: outboxOk_def)
qed

lemma attemptsOf_update:
  assumes "\<And>r. ob_id (f r) = ob_id r"
  shows "attemptsOf i (db\<lparr>cd_outbox := tbl_update P f (cd_outbox db)\<rparr>) =
     (case tbl_get (\<lambda>r. ob_id r = i) (cd_outbox db) of None \<Rightarrow> 0 | Some r \<Rightarrow> ob_attempts (if P r then f r else r))"
  using assms by (simp add: attemptsOf_def tbl_get_update_same split: option.split)

lemma outbox_unique:
  assumes "outboxOk db" "r \<in> set (cd_outbox db)" "ob_id r = i"
  shows "tbl_get (\<lambda>r. ob_id r = i) (cd_outbox db) = Some r"
  using assms by (intro tbl_get_unique) (auto simp: outboxOk_def distinct_map dest: inj_onD)

definition claimRow :: "string \<Rightarrow> string \<Rightarrow> string option \<Rightarrow> channelOutboxItem \<Rightarrow> bool" where
  "claimRow u i account r \<longleftrightarrow> ownOutbox u i r \<and> ofAccount account (ob_account r) \<and> ob_status r = OutboxPending"

lemma claim_cases:
  obtains (none) "claimPendingOutboxItem env u i account db = (Inr None, db)" "\<forall>r \<in> set (cd_outbox db). \<not> claimRow u i account r"
  | (some) r x where "r \<in> set (cd_outbox db)" "claimRow u i account r"
      "claimPendingOutboxItem env u i account db = (x, db\<lparr>cd_outbox := tbl_update (claimRow u i account)
         (\<lambda>r. r\<lparr>ob_status := OutboxSending, ob_attempts := ob_attempts r + 1, ob_updated := se_now env\<rparr>) (cd_outbox db)\<rparr>)"
proof (cases "\<forall>r \<in> set (cd_outbox db). \<not> claimRow u i account r")
  case True
  then show ?thesis by (intro none) (auto simp: claimPendingOutboxItem_def tbl_changes_def claimRow_def filter_empty_conv Let_def)
next
  case False
  then obtain r where r: "r \<in> set (cd_outbox db)" "claimRow u i account r" by blast
  then have "tbl_changes (claimRow u i account) (cd_outbox db) \<noteq> 0" by (auto simp: tbl_changes_def filter_empty_conv)
  then show ?thesis
    by (intro some [OF r]) (simp add: claimPendingOutboxItem_def Let_def claimRow_def [abs_def])
qed

lemma outbox_claim_step:
  assumes ok: "outboxOk db"
  shows "outboxOk (snd (claimPendingOutboxItem env u j account db))"
    "attemptsOf i db + (if claims i env u (ClaimPendingOutboxItem j account) db then 1 else 0) \<le> attemptsOf i (snd (claimPendingOutboxItem env u j account db))"
    "claims i env u (ClaimPendingOutboxItem j account) db \<Longrightarrow> attemptsOf i db \<le> 2"
proof -
  let ?f = "\<lambda>r. r\<lparr>ob_status := OutboxSending, ob_attempts := ob_attempts r + 1, ob_updated := se_now env\<rparr>"
  have "outboxOk (snd (claimPendingOutboxItem env u j account db)) \<and>
    attemptsOf i db + (if claims i env u (ClaimPendingOutboxItem j account) db then 1 else 0) \<le> attemptsOf i (snd (claimPendingOutboxItem env u j account db)) \<and>
    (claims i env u (ClaimPendingOutboxItem j account) db \<longrightarrow> attemptsOf i db \<le> 2)"
  proof (cases rule: claim_cases [of env u j account db])
    case none
    then show ?thesis using ok by (simp add: claims_def)
  next
    case (some r x)
    have get: "tbl_get (\<lambda>r. ob_id r = j) (cd_outbox db) = Some r"
      using some(2) by (intro outbox_unique [OF ok some(1)]) (simp add: claimRow_def ownOutbox_def)
    have att: "attemptsOf i db + (if i = j then 1 else 0) \<le> attemptsOf i (db\<lparr>cd_outbox := tbl_update (claimRow u j account) ?f (cd_outbox db)\<rparr>)"
      using get some(2) by (subst attemptsOf_update) (auto simp: attemptsOf_def split: option.split)
    have low: "attemptsOf j db \<le> 2"
      using ok some(1,2) get by (auto simp: attemptsOf_def outboxOk_def claimRow_def)
    have "outboxOk (db\<lparr>cd_outbox := tbl_update (claimRow u j account) ?f (cd_outbox db)\<rparr>)"
      using ok by (intro outboxOk_update [OF ok]) (auto simp: outboxOk_def)
    then show ?thesis using att low some(3) by (auto simp: claims_def split: if_splits)
  qed
  then show "outboxOk (snd (claimPendingOutboxItem env u j account db))"
    "attemptsOf i db + (if claims i env u (ClaimPendingOutboxItem j account) db then 1 else 0) \<le> attemptsOf i (snd (claimPendingOutboxItem env u j account db))"
    "claims i env u (ClaimPendingOutboxItem j account) db \<Longrightarrow> attemptsOf i db \<le> 2" by auto
qed

lemma outbox_settle_step:
  assumes ok: "outboxOk db" and st: "st = OutboxDelivered \<or> st = OutboxFailed"
  shows "outboxOk (snd (updateOutboxStatus env u j st b db))" "attemptsOf i db \<le> attemptsOf i (snd (updateOutboxStatus env u j st b db))"
proof -
  let ?f = "\<lambda>r. r\<lparr>ob_status := st, ob_attempts := (if b then ob_attempts r + 1 else ob_attempts r), ob_updated := se_now env\<rparr>"
  have db: "snd (updateOutboxStatus env u j st b db) = db\<lparr>cd_outbox := tbl_update (ownOutbox u j) ?f (cd_outbox db)\<rparr>"
    by (simp add: updateOutboxStatus_def Let_def split: option.split)
  show "outboxOk (snd (updateOutboxStatus env u j st b db))"
    unfolding db using ok st by (intro outboxOk_update [OF ok]) (auto simp: outboxOk_def)
  show "attemptsOf i db \<le> attemptsOf i (snd (updateOutboxStatus env u j st b db))"
    unfolding db by (subst attemptsOf_update) (auto simp: attemptsOf_def split: option.split)
qed

lemma outbox_recover_step:
  assumes ok: "outboxOk db"
  shows "outboxOk (snd (recoverStaleSendingOutbox env u n account db))" "attemptsOf i (snd (recoverStaleSendingOutbox env u n account db)) = attemptsOf i db"
proof -
  let ?p = "\<lambda>r. staleSending env u account n r \<and> ob_attempts r < 3" and ?q = "\<lambda>r. staleSending env u account n r \<and> 3 \<le> ob_attempts r"
  let ?f = "\<lambda>r. r\<lparr>ob_status := OutboxPending, ob_updated := se_now env\<rparr>" and ?g = "\<lambda>r. r\<lparr>ob_status := OutboxFailed, ob_updated := se_now env\<rparr>"
  define db1 where "db1 = db\<lparr>cd_outbox := tbl_update ?p ?f (cd_outbox db)\<rparr>"
  have db: "snd (recoverStaleSendingOutbox env u n account db) = db1\<lparr>cd_outbox := tbl_update ?q ?g (cd_outbox db1)\<rparr>"
    by (simp add: recoverStaleSendingOutbox_def Let_def db1_def)
  have ok1: "outboxOk db1" unfolding db1_def using ok by (intro outboxOk_update [OF ok]) (auto simp: outboxOk_def)
  show "outboxOk (snd (recoverStaleSendingOutbox env u n account db))"
    unfolding db using ok1 by (intro outboxOk_update [OF ok1]) (auto simp: outboxOk_def)
  have "attemptsOf i db1 = attemptsOf i db"
    unfolding db1_def by (subst attemptsOf_update) (auto simp: attemptsOf_def split: option.split)
  then show "attemptsOf i (snd (recoverStaleSendingOutbox env u n account db)) = attemptsOf i db"
    unfolding db by (subst attemptsOf_update) (auto simp: attemptsOf_def split: option.splits)
qed

lemma outbox_create_step:
  assumes ok: "outboxOk db"
  shows "outboxOk (snd (createOutboxItem env u input newId db))" "attemptsOf i (snd (createOutboxItem env u input newId db)) = attemptsOf i db"
proof -
  have row: "ob_attempts (outboxRow env u input k) = 0" "ob_id (outboxRow env u input k) = k" for k by (simp_all add: outboxRow_def)
  have cases: "snd (createOutboxItem env u input newId db) = db \<or> (\<exists>k. k \<notin> ob_id ` set (cd_outbox db) \<and>
      snd (createOutboxItem env u input newId db) = db\<lparr>cd_outbox := cd_outbox db @ [outboxRow env u input k]\<rparr>)"
    by (auto simp: createOutboxItem_def seq_def insertOutbox_def Let_def row split: option.split)
  then show "outboxOk (snd (createOutboxItem env u input newId db))" using ok by (auto simp: outboxOk_def row)
  show "attemptsOf i (snd (createOutboxItem env u input newId db)) = attemptsOf i db"
    using cases by (auto simp: attemptsOf_def row tbl_get_append) (auto simp: tbl_get_def row split: option.splits)
qed

lemma outbox_step:
  assumes ok: "outboxOk db" and c: "settlesOnly c"
  shows "outboxOk (channelExec env u c db) \<and> attemptsOf i db + (if claims i env u c db then 1 else 0) \<le> attemptsOf i (channelExec env u c db) \<and>
     (claims i env u c db \<longrightarrow> attemptsOf i db \<le> 2)"
proof -
  have same: ?thesis if "cd_outbox (channelExec env u c db) = cd_outbox db" "\<not> claims i env u c db"
    using that ok by (simp add: outboxOk_def attemptsOf_def)
  show ?thesis
  proof (cases c)
    case (ClaimPendingOutboxItem j account)
    then show ?thesis using outbox_claim_step(1) [OF ok, of env u j account] outbox_claim_step(2,3) [OF ok, of i env u j account] by simp
  next
    case (UpdateOutboxStatus j st b)
    then show ?thesis using c outbox_settle_step [OF ok] by (simp add: claims_def)
  next
    case (RecoverStaleSendingOutbox n account)
    then show ?thesis using outbox_recover_step [OF ok] by (simp add: claims_def)
  next
    case (CreateOutboxItem input newId)
    then show ?thesis using outbox_create_step [OF ok] by (simp add: claims_def)
  qed (rule same; simp add: claims_def channel_frames)+
qed

text \<open>
  C17. A reply is claimed for sending at most three times, however senders, recoveries and callers that
  settle it interleave and however often it crashes in between, counted from the attempts it already
  has: recovery gives it back only after fewer than three attempts.
\<close>

theorem outbox_attempts_bounded:
  assumes "outboxOk db" "list_all (\<lambda>(env, u, c). settlesOnly c) calls"
  shows "int (claimCount i calls db) \<le> 3 - min 3 (attemptsOf i db)"
  using assms
proof (induction calls arbitrary: db)
  case (Cons x calls)
  obtain env u c where x: "x = (env, u, c)" by (cases x)
  note step = outbox_step [OF Cons.prems(1), of c env u i]
  have c: "settlesOnly c" "list_all (\<lambda>(env, u, c). settlesOnly c) calls" using Cons.prems(2) by (simp_all add: x)
  have "int (claimCount i calls (channelExec env u c db)) \<le> 3 - min 3 (attemptsOf i (channelExec env u c db))"
    using step c by (intro Cons.IH) auto
  then show ?case using step c by (auto simp: x min_def split: if_splits)
qed simp

section \<open>Cards\<close>

text \<open>A card that goes on: the same card, with no smaller version, and an end that stays.\<close>

definition cardContinues :: "channelStreamingCard \<Rightarrow> channelStreamingCard \<Rightarrow> bool" where
  "cardContinues r r' \<longleftrightarrow> sc_id r' = sc_id r \<and> sc_user r' = sc_user r \<and> sc_version r \<le> sc_version r' \<and>
     (cardTerminal (sc_status r) \<longrightarrow> sc_status r' = sc_status r)"

lemma cardContinues_refl [simp]: "cardContinues r r"
  by (simp add: cardContinues_def)

lemma cardContinues_trans: "cardContinues r r' \<Longrightarrow> cardContinues r' r'' \<Longrightarrow> cardContinues r r''"
  by (auto simp: cardContinues_def)

fun keepsEnd :: "channelCall \<Rightarrow> bool" where
  "keepsEnd (FinalizeStreamingCard _ _ _) = False"
| "keepsEnd (ClaimStreamingCardForRecovery _ (Some st)) = (\<not> cardTerminal st)"
| "keepsEnd _ = True"

lemma card_update:
  assumes "tbl_get (sameCard a t) (cd_cards db) = Some r" "\<And>r. sc_account (f r) = sc_account r \<and> sc_turn (f r) = sc_turn r"
    "\<And>r. P r \<Longrightarrow> cardContinues r (f r)"
  shows "\<exists>r'. tbl_get (sameCard a t) (tbl_update P f (cd_cards db)) = Some r' \<and> cardContinues r r'"
proof -
  have "tbl_get (sameCard a t) (tbl_update P f (cd_cards db)) = Some (if P r then f r else r)"
    using assms(1,2) by (subst tbl_get_update_same) (simp_all add: sameCard_def)
  then show ?thesis using assms(3) by auto
qed

lemma card_step:
  assumes get: "tbl_get (sameCard a t) (cd_cards db) = Some r" and c: "keepsEnd c"
  shows "\<exists>r'. tbl_get (sameCard a t) (cd_cards (channelExec env u c db)) = Some r' \<and> cardContinues r r'"
proof -
  have same: ?thesis if "cd_cards (channelExec env u c db) = cd_cards db" using that get by simp
  show ?thesis
  proof (cases c)
    case (UpsertStreamingCard input newId)
    have written: "\<exists>r'. tbl_get (sameCard a t) (cd_cards (snd (writeCard env new db))) = Some r' \<and> cardContinues r r'" for new
    proof -
      have "\<exists>r'. tbl_get (sameCard a t) (tbl_update P (mergeCard env new) (cd_cards db)) = Some r' \<and> cardContinues r r'" for P
        by (rule card_update [OF get]) (auto simp: mergeCard_def cardContinues_def)
      then show ?thesis using get by (simp add: writeCard_def tbl_get_append)
    qed
    have "cd_cards (channelExec env u c db) = cd_cards db \<or>
        cd_cards (channelExec env u c db) = cd_cards (snd (writeCard env (cardRow env u input newId) db))"
      by (auto simp: UpsertStreamingCard upsertStreamingCard_def check_def seq_def split: sum.splits prod.splits option.splits)
    then show ?thesis using same written by auto
  next
    case (ClaimStreamingCardForRecovery i expected)
    let ?row = "\<lambda>r. ownCard u i r \<and> (case expected of None \<Rightarrow> \<not> cardTerminal (sc_status r) | Some st \<Rightarrow> sc_status r = st)"
    have "\<exists>r'. tbl_get (sameCard a t) (tbl_update ?row (\<lambda>r. r\<lparr>sc_status := CardRecovering, sc_updated := se_now env\<rparr>) (cd_cards db)) = Some r' \<and> cardContinues r r'"
      using c ClaimStreamingCardForRecovery by (intro card_update [OF get]) (auto simp: cardContinues_def split: option.splits)
    then show ?thesis using same ClaimStreamingCardForRecovery by (auto simp: claimStreamingCardForRecovery_def Let_def)
  qed (use c in \<open>simp_all add: channel_frames get\<close>)
qed


text \<open>
  The upsert of a streaming card is not confined to the tenant: when another tenant has the card of the
  account and turn, the call throws that it found no card, but it has already changed the other tenant's
  card, which now carries what the caller gave.
\<close>

theorem card_foreign_write:
  assumes get: "tbl_get (sameCard (ui_account input) (ui_turn input)) (cd_cards db) = Some old"
    and unique: "distinct (map (\<lambda>r. (sc_account r, sc_turn r)) (cd_cards db))" and other: "sc_user old \<noteq> v"
    and given: "js_trim (ui_turn input) \<noteq> []" "js_trim (ui_account input) \<noteq> []" "js_trim (ui_session input) \<noteq> []" "js_trim (ui_chat input) \<noteq> []"
  shows "\<exists>db'. upsertStreamingCard env v input newId db = (Inl (PlainError ''Failed to retrieve upserted streaming card''), db') \<and>
     findStreamingCardByTurn (sc_user old) (ui_account input) (ui_turn input) db' = Some (mergeCard env (cardRow env v input newId) old)"
proof -
  let ?P = "sameCard (ui_account input) (ui_turn input)" and ?f = "mergeCard env (cardRow env v input newId)"
  define db' where "db' = db\<lparr>cd_cards := tbl_update ?P ?f (cd_cards db)\<rparr>"
  have nonempty: "ui_account input \<noteq> []" "ui_turn input \<noteq> []" using given by (auto simp: js_trim_def)
  have old: "old \<in> set (cd_cards db)" "?P old" using tbl_get_Some [OF get] by auto
  have only: "x = old" if "x \<in> set (cd_cards db)" "?P x" for x
  proof (rule inj_onD [of "\<lambda>r. (sc_account r, sc_turn r)" "set (cd_cards db)"])
    show "inj_on (\<lambda>r. (sc_account r, sc_turn r)) (set (cd_cards db))" using unique by (simp add: distinct_map)
  qed (use old that in \<open>simp_all add: sameCard_def\<close>)
  have f: "sc_user (?f r) = sc_user r" "?P (?f r) = ?P r" for r by (simp_all add: mergeCard_def sameCard_def)
  have user: "tbl_get (\<lambda>r. sc_user r = w \<and> ?P r) (cd_cards db') = map_option (\<lambda>r. if ?P r then ?f r else r) (tbl_get (\<lambda>r. sc_user r = w \<and> ?P r) (cd_cards db))" for w
    unfolding db'_def by (simp, rule tbl_get_update_same) (simp add: f)
  have "tbl_get (\<lambda>r. sc_user r = v \<and> ?P r) (cd_cards db) = None"
    unfolding tbl_get_None using only other by blast
  moreover have "tbl_get (\<lambda>r. sc_user r = sc_user old \<and> ?P r) (cd_cards db) = Some old"
  proof (rule tbl_get_unique)
    show "old \<in> set (cd_cards db)" "sc_user old = sc_user old \<and> ?P old" using old by simp_all
    show "x = old" if "x \<in> set (cd_cards db)" "sc_user x = sc_user old \<and> ?P x" for x using only [of x] that by blast
  qed
  ultimately have find: "findStreamingCardByTurn v (ui_account input) (ui_turn input) db' = None"
      "findStreamingCardByTurn (sc_user old) (ui_account input) (ui_turn input) db' = Some (?f old)"
    using nonempty old(2) by (simp_all add: findStreamingCardByTurn_def user)
  have "writeCard env (cardRow env v input newId) db = (Inr (), db')"
    using get by (simp add: writeCard_def cardRow_def db'_def)
  then show ?thesis using given find by (simp add: upsertStreamingCard_def mandatory_def seq_def)
qed

section \<open>Events taken for others\<close>

lemma sqlLike_skip: "sqlLike p s \<Longrightarrow> sqlLike (CHR ''%'' # p) (pre @ s)"
proof (induction pre)
  case Nil
  then show ?case by (cases s) auto
qed simp

lemma likeChar_refl [simp]: "likeChar c c"
  by (simp add: likeChar_def)

definition jsonField :: "string \<Rightarrow> string \<Rightarrow> string" where
  "jsonField key v = CHR 0x22 # key @ [CHR 0x22, CHR '':'', CHR 0x22] @ v @ [CHR 0x22]"

lemma jsonPattern_matches:
  assumes "CHR ''%'' \<notin> set key" "CHR ''%'' \<notin> set v" "list_all2 likeChar v w"
  shows "sqlLike (jsonPattern key v) (pre @ jsonField key w @ post)"
proof -
  have same: "list_all2 likeChar xs xs" for xs by (simp add: list_all2_same)
  have "list_all2 likeChar (jsonField key v) (jsonField key w)"
    unfolding jsonField_def using assms(3) same by (intro list.rel_intros list_all2_appendI) simp_all
  moreover have "CHR ''%'' \<notin> set (jsonField key v)" using assms(1,2) by (simp add: jsonField_def)
  ultimately have "sqlLike (jsonField key v @ ''%'') (jsonField key w @ post)" by (subst sqlLike_prefix) auto
  then have "sqlLike (CHR ''%'' # jsonField key v @ ''%'') (pre @ jsonField key w @ post)" by (rule sqlLike_skip)
  then show ?thesis by (simp add: jsonPattern_def jsonField_def)
qed

text \<open>
  An event can be swallowed: when the account stored a message of the last two days whose identifier
  agrees with that of a new event in every character, up to the case of ASCII letters and except under the
  underscores of the new one, the new event is answered as a duplicate and is not stored.
\<close>

theorem channel_event_swallowed:
  assumes given: "ni_account input \<noteq> []" "ni_event input \<noteq> []" "ni_native input \<noteq> []" "CHR ''%'' \<notin> set (ni_event input)"
    and new: "tbl_get (ownEvent u (ni_account input) (ni_event input)) (cd_inbox db) = None"
    and r: "r \<in> set (cd_inbox db)" "ib_user r = u" "ib_account r = ni_account input" "se_ago env 172800 \<le> ib_created r"
      "ib_payload r = pre @ jsonField ''messageId'' e @ post" "list_all2 likeChar (ni_event input) e"
  shows "\<exists>r'. createInboxItem env u input newId db = (Inr (r', True), db)"
proof -
  have "sqlLike (jsonPattern ''messageId'' (ni_event input)) (ib_payload r)"
    unfolding r(5) using given(4) r(6) by (intro jsonPattern_matches) simp_all
  then have "r \<in> set (filter (legacyEvent env u (ni_account input) (ni_event input)) (cd_inbox db))"
    using r by (simp add: legacyEvent_def)
  then have "filter (legacyEvent env u (ni_account input) (ni_event input)) (cd_inbox db) \<noteq> []" by force
  then obtain r' where "firstMax ib_created (filter (legacyEvent env u (ni_account input) (ni_event input)) (cd_inbox db)) = Some r'"
    by (cases "firstMax ib_created (filter (legacyEvent env u (ni_account input) (ni_event input)) (cd_inbox db))") auto
  then have "findInboxByEvent env u (ni_account input) (ni_event input) db = Some r'"
    using given new by (simp add: findInboxByEvent_def)
  then show ?thesis using given by (simp add: createInboxItem_def)
qed

section \<open>The theorems at an example\<close>

definition exEnv :: sqlEnv where
  "exEnv = \<lparr>se_now = ''2026-01-03 10:00:00'', se_ago = (\<lambda>_. ''2026-01-01 10:00:00''),
     se_datetime = (\<lambda>v. case v of SqlText t \<Rightarrow> Some t | _ \<Rightarrow> None), se_json = (\<lambda>_ _. Some SqlNull)\<rparr>"

definition exEvent :: "string \<Rightarrow> string \<Rightarrow> createInboxInput" where
  "exEvent event payload = \<lparr>ni_id = None, ni_account = ''a1'', ni_event = event, ni_native = ''oc'', ni_payload = payload, ni_status = None\<rparr>"

definition exChannel :: channelDb where
  "exChannel = \<lparr>cd_routes = exRoutes, cd_inbox = [], cd_outbox = [], cd_origins = [], cd_cards = []\<rparr>"

lemma exChannel_refs: "hasAccount ''a1'' (exChannel\<lparr>cd_outbox := obs, cd_cards := cs\<rparr>)" "hasSession ''r1'' (exChannel\<lparr>cd_outbox := obs, cd_cards := cs\<rparr>)"
  "hasAccount ''a1'' exChannel" "hasSession ''r1'' exChannel"
proof -
  have "''a1'' \<in> ca_id ` set (rt_accounts exRoutes)" by (simp add: exRoutes_def exRouteCalls_def route_eval)
  then show "hasAccount ''a1'' (exChannel\<lparr>cd_outbox := obs, cd_cards := cs\<rparr>)" "hasAccount ''a1'' exChannel" by (simp_all add: hasAccount_def exChannel_def)
  show "hasSession ''r1'' (exChannel\<lparr>cd_outbox := obs, cd_cards := cs\<rparr>)" "hasSession ''r1'' exChannel"
    by (simp_all add: hasSession_def hasRoute_def exChannel_def exRoutes_rows exRouteRow_def)
qed

lemma exEvent_new:
  "createInboxItem exEnv ''u'' (exEvent ''om_1'' ''{}'') ''i1'' exChannel =
     (Inr (inboxRow exEnv ''u'' (exEvent ''om_1'' ''{}'') ''i1'', False), exChannel\<lparr>cd_inbox := [inboxRow exEnv ''u'' (exEvent ''om_1'' ''{}'') ''i1'']\<rparr>)"
  using exChannel_refs(3)
  by (simp add: createInboxItem_def exEvent_def findInboxByEvent_def exChannel_def tbl_get_def Let_def trimmedId_def seq_def insertInboxRow_def inboxRow_def
    ownInbox_def)


definition exReply :: channelOutboxItem where
  "exReply = \<lparr>ob_id = ''o1'', ob_user = ''u'', ob_account = ''a1'', ob_session = ''r1'', ob_native = ''oc'', ob_replyTo = None, ob_payload = ''{}'',
     ob_status = OutboxPending, ob_attempts = 0, ob_created = ''2026-01-01 09:00:00'', ob_updated = ''2026-01-01 09:00:00''\<rparr>"

theorem outbox_attempts_bounded_witness:
  "int (claimCount ''o1'' (concat (replicate 5 [(exEnv, ''u'', ClaimPendingOutboxItem ''o1'' None), (exEnv, ''u'', RecoverStaleSendingOutbox 60 None)]))
     (exChannel\<lparr>cd_outbox := [exReply]\<rparr>)) \<le> 3 \<and> attemptsOf ''o1'' (exChannel\<lparr>cd_outbox := [exReply]\<rparr>) = 0"
proof -
  have a: "attemptsOf ''o1'' (exChannel\<lparr>cd_outbox := [exReply]\<rparr>) = 0" by (simp add: attemptsOf_def exReply_def tbl_get_def)
  have ok: "outboxOk (exChannel\<lparr>cd_outbox := [exReply]\<rparr>)" by (simp add: outboxOk_def exReply_def)
  have "list_all (\<lambda>(env, u, c). settlesOnly c)
     (concat (replicate 5 [(exEnv, ''u'', ClaimPendingOutboxItem ''o1'' None), (exEnv, ''u'', RecoverStaleSendingOutbox 60 None)]))"
    by (simp add: list_all_iff)
  from outbox_attempts_bounded [OF ok this, of "''o1''"] a show ?thesis by simp
qed

definition exCardInput :: upsertCardInput where
  "exCardInput = \<lparr>ui_turn = ''t1'', ui_account = ''a1'', ui_session = ''r1'', ui_native = ''oc'', ui_chat = ''oc'', ui_replyTo = None, ui_root = None,
     ui_thread = None, ui_card = None, ui_message = None, ui_version = Some 1, ui_status = Some CardStreaming, ui_snapshot = Some ''late'', ui_error = None\<rparr>"

definition exCard :: channelStreamingCard where
  "exCard = (cardRow exEnv ''u'' exCardInput ''c1'')\<lparr>sc_status := CardCompleted, sc_version := 4\<rparr>"

lemma exCard_get: "tbl_get (sameCard ''a1'' ''t1'') (cd_cards (exChannel\<lparr>cd_cards := [exCard]\<rparr>)) = Some exCard"
  by (simp add: tbl_get_def sameCard_def exCard_def cardRow_def exCardInput_def)


theorem card_foreign_write_witness:
  "\<exists>db'. upsertStreamingCard exEnv ''v'' exCardInput ''c2'' (exChannel\<lparr>cd_cards := [exCard]\<rparr>) =
       (Inl (PlainError ''Failed to retrieve upserted streaming card''), db') \<and>
     findStreamingCardByTurn ''u'' ''a1'' ''t1'' db' = Some (mergeCard exEnv (cardRow exEnv ''v'' exCardInput ''c2'') exCard)"
proof -
  have user: "sc_user exCard = ''u''" by (simp add: exCard_def cardRow_def)
  show ?thesis
    using card_foreign_write [of exCardInput "exChannel\<lparr>cd_cards := [exCard]\<rparr>" exCard "''v''" exEnv "''c2''"] exCard_get user
    by (simp add: exCardInput_def js_trim_def is_space_def)
qed

definition exStored :: channelInboxItem where
  "exStored = inboxRow exEnv ''u'' (exEvent ''omA1'' (jsonField ''messageId'' ''omA1'')) ''i1''"

theorem channel_event_swallowed_witness:
  "\<exists>r'. createInboxItem exEnv ''u'' (exEvent ''om_1'' ''{}'') ''i2'' (exChannel\<lparr>cd_inbox := [exStored]\<rparr>) = (Inr (r', True), exChannel\<lparr>cd_inbox := [exStored]\<rparr>)"
proof (rule channel_event_swallowed [where r = exStored and pre = "[]" and post = "[]" and e = "''omA1''"])
  show "se_ago exEnv 172800 \<le> ib_created exStored" by (simp add: exEnv_def exStored_def inboxRow_def)
  show "list_all2 likeChar (ni_event (exEvent ''om_1'' ''{}'')) ''omA1''" by (simp add: exEvent_def likeChar_def)
qed (simp_all add: exEvent_def exStored_def inboxRow_def tbl_get_def ownEvent_def)

end
