(* ===== verification/Spec2Isabelle.thy ===== *)
theory Spec2Isabelle
  imports Quota_Bundle_Theorems Event_Buffer Mcp_Breaker Model_Breaker Inbox_Theorems Receipt_Theorems Inbound_Theorems Task_Guarantees
    Tar_Theorems Tool_Naming Auth_Theorems Rate_Limiter Request_Guard Ssrf_Guard Restart_Recovery File_Service Route_Resolution Channel_Delivery_Theorems
begin

text \<open>
  A verification library for Enkeep, a self-hosted multi-tenant platform for AI agents
  (TypeScript, under \<open>src/packages\<close>). It translates the platform's own decision logic into
  definitions and proves what makes that logic correct.

  \<^bold>\<open>The program.\<close> A person signs in at the platform server (\<open>platform-server\<close>), which checks every request
  (\<open>safety/limits.ts\<close>), limits login attempts and hands credentials to the authentication service
  (\<open>platform-auth\<close>). A message of a channel is stored once and led to the session its chat is
  bound to. Messages become deliveries: the platform reserves quota for a turn, records the
  delivery in its inbox and sends it to the agent host of the tenant. The host's inbound service
  (\<open>dsh-inbound\<close>) gives it to an agent once, with the receipt store
  (\<open>dsh-receipt-store-sqlite\<close>) as memory; the agent's events travel back through the bounded buffer of the
  event relay (\<open>dsh-event-relay\<close>). Scheduled tasks wait in tables of their own and are leased by workers.
  Calls to models and to MCP servers pass circuit breakers; MCP addresses pass a guard. Everything
  durable is in SQLite, behind repositories that are bound to one tenant
  (\<open>platform-storage-sqlite/src/repos\<close>), and is packed into tar archives for backups (\<open>backup-restore\<close>).

  \<^bold>\<open>How code becomes definitions.\<close> An interface or a row is a record, a union of literals a datatype, a
  table the list of its rows (or a map, where its key is all that matters). An operation is a function from its inputs, the clock,
  the identifiers it draws and the tables to its result and the tables it leaves. A result is a sum:
  \<open>Inl\<close> holds the exception. What a transaction rolls back the function rolls back; where the source has
  no transaction the writes before an exception stay. Definitions carry the names of the source.

  \<^bold>\<open>Vocabulary.\<close>
  \<^item> \<open>Prelude\<close>: JavaScript values and strings, tables with \<open>SELECT\<close> and \<open>UPDATE\<close>, operations that may
    throw, transactions; the interfaces \<open>invariant_ops\<close> (an invariant every operation keeps
    holds after every run) and \<open>atomic_ops\<close>, which extends it: an operation that throws leaves no trace.
  \<^item> \<open>Decimal\<close>, \<open>Calendar\<close>, \<open>Iso_Time\<close>: numerals, the UTC calendar of ECMAScript and
    \<open>toISOString\<close>, with round trips and the agreement of textual and temporal order.
  \<^item> \<open>Bytes\<close>: buffers, ASCII, UTF-8, base64url and hexadecimal text, with round trips.

  \<^bold>\<open>Quota\<close> (\<open>types/quota.ts\<close>, \<open>quota-ledger-repo.ts\<close>).
  \<^item> \<open>Quota_Types\<close>, \<open>Quota_Ledger\<close>, \<open>Quota_Bundles\<close>: validators, limits, reservations, bundles.
  \<^item> \<open>Quota_Invariants\<close>, \<open>Quota_Props\<close>: one relation \<open>evolves\<close> that every operation satisfies, and the
    interpretation \<open>ledger\<close> of \<open>atomic_ops\<close>.
  \<^item> \<open>Quota_Theorems\<close>, \<open>Quota_Bundle_Theorems\<close>: no run of admission-controlled commands exceeds a
    limit, tenants are isolated, commits charge once and exactly, a window reset makes progress.

  \<^bold>\<open>Deliveries.\<close>
  \<^item> \<open>Delivery_Inbox\<close>, \<open>Inbox_Theorems\<close> (\<open>delivery-inbox-repo.ts\<close>): of concurrent
    ingestions of a delivery, interleaved statement by statement, exactly one is fresh.
  \<^item> \<open>Receipt_Store\<close>, \<open>Receipt_Theorems\<close> (\<open>dsh-receipt-store-sqlite/src/store.ts\<close>): the tables of an
    open store; the interface \<open>delivery_memory\<close>, on which the inbound service rests.
  \<^item> \<open>Inbound\<close>, \<open>Inbound_Interleaving\<close>, \<open>Inbound_Theorems\<close> (\<open>dsh-inbound/src/service.ts\<close>,
    \<open>wire-parser.ts\<close>): the handlers, whole and cut at their \<open>await\<close> points. The cut handlers refine the whole ones, and no
    interleaving hands a delivery to an agent twice (\<open>once_counter\<close>, interpreted for the pool of
    handlers).
  \<^item> \<open>Event_Buffer\<close> (\<open>bounded-buffer.ts\<close>): no event is lost unless the buffer reports it.

  \<^bold>\<open>Scheduled tasks\<close> (\<open>types/task.ts\<close>, \<open>schedule-calculator.ts\<close>, \<open>task-repo.ts\<close>).
  \<^item> \<open>Task_Types\<close>, \<open>Schedule\<close>, \<open>Task_Payload\<close>: validators, the next run, payloads and their JSON.
  \<^item> \<open>Task_Store\<close>, \<open>Task_Lease\<close>: the repository.
  \<^item> \<open>Task_Steps\<close>, \<open>Task_Invariants\<close>: the repository as an inductive step relation, and the invariant
    of its three tables.
  \<^item> \<open>Task_Theorems\<close>, \<open>Task_Guarantees\<close>: one live run per task, claims settled once, the order of the
    queue, recovery of expired leases, isolation of tenants, the bound on retries.
  \<^item> \<open>Restart_Recovery\<close> (\<open>operations-storage.ts\<close>): the recovery after a restart is the recovery of every
    tenant; it leaves no expired lease, and strands bundles of lapsed reservations.

  \<^bold>\<open>Spaces, sessions and channels\<close> (\<open>space-repo.ts\<close>, \<open>session-route-repo.ts\<close>, \<open>session-generation-repo.ts\<close>,
  \<open>channel-repo.ts\<close>, \<open>inbound-route-resolver.ts\<close>).
  \<^item> \<open>Space_Store\<close>, \<open>Session_Routes\<close>, \<open>Channel_Bindings\<close>: the repositories, over one record of tables.
  \<^item> \<open>Route_Resolver\<close>: which session a message of a chat is given, written over the repositories it calls; \<open>Route_Resolution\<close>
    states what it needs of them as the interface \<open>route_ports\<close>, whose interpretation is \<open>repos\<close>, and proves that
    the session is found, confined to space and tenant, and announced once.
  \<^item> \<open>Route_Invariant\<close>, \<open>Route_Theorems\<close>, \<open>Route_Isolation\<close>: the invariant of the tables, interpreted as \<open>routes\<close>
    for \<open>invariant_ops\<close>; generations, resets, isolation of tenants, deletion of the topics of a chat.
  \<^item> \<open>Channel_Delivery\<close>, \<open>Channel_Delivery_Theorems\<close>: events received, replies to send, origins of turns, streaming
    cards. An event is accepted once, a reply sent at most three times, an ended card stays ended.

  \<^bold>\<open>Files\<close> (\<open>platform-operations\<close>). \<open>Path_Policy\<close> (\<open>path-policy.ts\<close>) and \<open>File_Service\<close> (\<open>file-operation-service.ts\<close>): accepted
  paths stay in the workspace. The service rests on the interface \<open>path_policy_port\<close>, interpreted as \<open>standard\<close>.

  \<^bold>\<open>Signing in\<close> (\<open>platform-auth\<close>, \<open>user-repo.ts\<close>, \<open>session-repo.ts\<close>, \<open>audit-repo.ts\<close>).
  \<^item> \<open>Session_Cookie\<close>, \<open>Password_Hash\<close>: which cookies and passwords are accepted, exactly.
  \<^item> \<open>Auth_Store\<close>, \<open>Auth_Service\<close>: tables and operations. \<open>Auth_Steps\<close>: every operation is a
    sequence of elementary moves of an inductive relation. \<open>Auth_Theorems\<close>: an accepted cookie was issued, a login
    yields an accepted one, logout and rotation are final.
  \<^item> \<open>Rate_Limiter\<close> (\<open>safety/limits.ts\<close> and the login route of \<open>server/handler.ts\<close>): the limiter is a sliding
    window over the failures, up to the size of its cache.
  \<^item> \<open>Request_Guard\<close> (\<open>safety/limits.ts\<close>, \<open>host-binding.ts\<close>): CSRF tokens, origins, sizes, path
    identifiers.

  \<^bold>\<open>Models and MCP servers.\<close>
  \<^item> \<open>Circuit_Breaker\<close>: the interface \<open>circuit_breaker\<close>; \<open>Mcp_Breaker\<close> (\<open>pool/circuit-breaker.ts\<close>) and
    \<open>Model_Breaker\<close> (\<open>platform-core/src/types/circuit-breaker.ts\<close>) are its two interpretations.
  \<^item> \<open>Tool_Naming\<close> (\<open>naming.ts\<close>): names of tools and the server they lead back to.
  \<^item> \<open>Ssrf_Guard\<close> (\<open>security/ssrf-guard.ts\<close>): the address blocks that are refused.

  \<^bold>\<open>Backups.\<close> \<open>Tar_Codec\<close>, \<open>Tar_Theorems\<close> (\<open>backup-restore/src/tar\<close>): writer and reader round-trip, unpacked
  paths are safe, a damaged header is noticed.

  \<^bold>\<open>Loops and bounds.\<close> Every function is total; no definition uses fuel. The archive reader recurses on the bytes that are left, the window
  reset on the distance to the clock, each with its own termination proof. Integers are unbounded where the
  source guards them with \<open>Number.isSafeInteger\<close>; the guard is part of the model. Bytes are
  words of 8 bits where the source works on bits.

  \<^bold>\<open>Parameters.\<close> What the repository does not contain is an argument: clocks, random identifiers and
  salts, SHA-256, HMAC and scrypt, \<open>cron-parser\<close> and \<open>Intl\<close>, the URL parser and DNS, the agents and
  their registry, the date and JSON functions of SQLite.

  \<^bold>\<open>Not modelled.\<close>
  \<^item> Failures of the database engine, the migration runner, the branches for schemas before migration
    018, and foreign keys to the table of users from the quota, task, inbox, route and channel tables; the removal of
    delivery rows when their account or route is deleted.
  \<^item> Text beyond Latin-1: strings are lists of characters below 256. JSON columns are the values whose text
    they hold. Messages of exceptions come without interpolated values.
  \<^item> Interleaving at \<open>await\<close> inside one authentication request, and user rows that another program has
    corrupted.
  \<^item> HTTP routes other than login, the delivery gateway, the runtime runner and its tunnel, the channel
    adapters, the browser service, the web front ends and the command-line tools: they move bytes between
    processes, files and third-party services, and decide little of their own.
\<close>

end
